(* ===== verification/Prelude.thy ===== *)
theory Prelude
  imports Main "HOL-Library.Word" "HOL-Library.Signed_Division"
begin

text \<open>
  What every component shares: bytes and byte slices, the position-dependent XOR with a
  key stream, overwriting a slice of a byte array at an offset (with the zero hole that a
  POSIX file gets when the offset lies beyond its end), big- and little-endian encodings,
  Go's truncated division, and the I/O error values that the code passes around.
\<close>

unbundle bit_operations_syntax

named_theorems xor_at_simps \<open>equations that push a key-stream XOR through list operations\<close>
named_theorems overwrite_simps \<open>equations of slice overwriting\<close>

type_synonym byte = "8 word"
type_synonym bytes = "byte list"

subsection \<open>Error values of the I/O layer\<close>

text \<open>
  Sentinel errors of package io and os, and the run-time panic of Go (an out-of-range
  slice), which the model carries as one more way to fail.
\<close>

datatype io_error =
    EOF
  | ErrUnexpectedEOF
  | ErrClosed
  | EINVAL
  | EBADF
  | ENOSPC
  | ErrNegativeOffset
  | ErrWriteAtInAppendMode | ErrKeySize
  | RuntimePanic

subsection \<open>Go integer division\<close>

text \<open>Go's \<open>/\<close> and \<open>%\<close> truncate towards zero; on non-negative operands they agree with
  \<open>div\<close> and \<open>mod\<close>.\<close>

abbreviation go_div :: "int \<Rightarrow> int \<Rightarrow> int" where
  "go_div a b \<equiv> a sdiv b"

abbreviation go_rem :: "int \<Rightarrow> int \<Rightarrow> int" where
  "go_rem a b \<equiv> a smod b"

lemma go_div_nonneg: "0 \<le> a \<Longrightarrow> 0 < b \<Longrightarrow> go_div a b = a div b"
  by (cases "a = 0") (simp_all add: signed_divide_int_def)

lemma go_rem_nonneg: "0 \<le> a \<Longrightarrow> 0 < b \<Longrightarrow> go_rem a b = a mod b"
  by (cases "a = 0") (simp_all add: signed_modulo_int_def)

text \<open>Bytes of one block: adding an offset that stays inside the block.\<close>

lemma go_rem_16_less: "go_rem pos 16 < 16"
  by (cases "0 \<le> pos") (auto simp: go_rem_nonneg signed_modulo_int_def signed_divide_int_def sgn_if)

lemma same_block:
  fixes a i n :: nat
  assumes "a mod n + i < n"
  shows "(a + i) div n = a div n" "(a + i) mod n = a mod n + i"
proof -
  have "a + i = (a mod n + i) + n * (a div n)" by simp
  with assms show "(a + i) div n = a div n" "(a + i) mod n = a mod n + i"
    by (metis add.right_neutral div_less div_mult_self2 less_nat_zero_code add.commute not_gr_zero)
      (metis \<open>a + i = (a mod n + i) + n * (a div n)\<close> assms mod_less mod_mult_self2)
qed

lemma nat_go_div: "0 \<le> a \<Longrightarrow> nat (go_div a (numeral b)) = nat a div numeral b"
  by (simp add: go_div_nonneg nat_div_distrib)

lemma nat_go_rem: "0 \<le> a \<Longrightarrow> nat (go_rem a (numeral b)) = nat a mod numeral b"
  by (simp add: go_rem_nonneg nat_mod_distrib)

text \<open>Conversion of a non-negative quotient to an unsigned word.\<close>

lemma unat_go_div:
  "0 \<le> a \<Longrightarrow> unat (word_of_int (go_div a (numeral b)) :: 'a::len word) =
    nat a div numeral b mod 2 ^ LENGTH('a)"
proof -
  assume "0 \<le> a"
  then have "go_div a (numeral b) = int (nat a div numeral b)"
    by (simp add: go_div_nonneg zdiv_int)
  then show ?thesis
    by (simp only: of_int_of_nat_eq unat_of_nat)
qed

subsection \<open>XOR of a slice with a key stream\<close>

text \<open>
  \<open>xor_at ks p d\<close> combines byte number \<open>i\<close> of \<open>d\<close> with byte \<open>p + i\<close> of the key stream.
\<close>

fun xor_at :: "(nat \<Rightarrow> byte) \<Rightarrow> nat \<Rightarrow> bytes \<Rightarrow> bytes" where
  "xor_at ks p [] = []"
| "xor_at ks p (b # bs) = (b XOR ks p) # xor_at ks (Suc p) bs"

lemma length_xor_at [simp, xor_at_simps]: "length (xor_at ks p d) = length d"
  by (induction d arbitrary: p) auto

lemma xor_at_append [xor_at_simps]:
  "xor_at ks p (xs @ ys) = xor_at ks p xs @ xor_at ks (p + length xs) ys"
  by (induction xs arbitrary: p) auto

lemma xor_at_involution [simp, xor_at_simps]: "xor_at ks p (xor_at ks p d) = d"
  by (induction d arbitrary: p) (auto simp: xor.assoc)

lemma nth_xor_at: "i < length d \<Longrightarrow> xor_at ks p d ! i = d ! i XOR ks (p + i)"
  by (induction d arbitrary: p i) (auto simp: nth_Cons split: nat.splits)

lemma xor_at_eq_Nil [simp]: "xor_at ks p d = [] \<longleftrightarrow> d = []"
  by (cases d) auto

lemma take_xor_at [xor_at_simps]: "take n (xor_at ks p d) = xor_at ks p (take n d)"
  by (induction d arbitrary: p n) (auto simp: take_Cons split: nat.splits)

lemma drop_xor_at [xor_at_simps]: "drop n (xor_at ks p d) = xor_at ks (p + n) (drop n d)"
proof (induction d arbitrary: p n)
  case Nil
  then show ?case by simp
next
  case (Cons b d)
  then show ?case by (cases n) auto
qed

lemma xor_at_conv_map2:
  "xor_at ks p d = map2 (XOR) d (map ks [p..<p + length d])"
  by (rule nth_equalityI) (auto simp: nth_xor_at)

text \<open>A slice of one key-stream block, as the ciphers apply it.\<close>

lemma map2_slice_xor_at:
  assumes "n = length d" "off + n \<le> length s" "\<And>i. i < n \<Longrightarrow> s ! (off + i) = ks (p + i)"
  shows "map2 (XOR) d (take n (drop off s)) = xor_at ks p d"
  using assms by (intro nth_equalityI) (auto simp: nth_xor_at)

lemma xor_at_cong:
  "(\<And>i. p \<le> i \<Longrightarrow> i < p + length d \<Longrightarrow> ks i = ks' i) \<Longrightarrow> xor_at ks p d = xor_at ks' p d"
  by (rule nth_equalityI) (auto simp: nth_xor_at)

subsection \<open>Overwriting a slice of a byte array\<close>

text \<open>
  \<open>overwrite xs off d\<close> is the content of a file holding \<open>xs\<close> after \<open>d\<close> has been written at
  offset \<open>off\<close>: bytes before the offset stay, a gap between the end of \<open>xs\<close> and the offset
  is filled with zero bytes, and bytes after the written slice stay.
\<close>

definition overwrite :: "bytes \<Rightarrow> nat \<Rightarrow> bytes \<Rightarrow> bytes" where
  "overwrite xs off d = take off xs @ replicate (off - length xs) 0 @ d @ drop (off + length d) xs"

lemma length_overwrite [simp, overwrite_simps]:
  "length (overwrite xs off d) = max (length xs) (off + length d)"
  by (auto simp: overwrite_def)

lemma overwrite_Nil [simp]: "off \<le> length xs \<Longrightarrow> overwrite xs off [] = xs"
  by (simp add: overwrite_def)

lemma overwrite_at_end [overwrite_simps]: "overwrite xs (length xs) d = xs @ d"
  by (simp add: overwrite_def)

lemma nth_overwrite:
  assumes "i < max (length xs) (off + length d)"
  shows "overwrite xs off d ! i =
    (if i < off then (if i < length xs then xs ! i else 0)
     else if i < off + length d then d ! (i - off) else xs ! i)"
  using assms by (auto simp: overwrite_def nth_append min_def)

lemma overwrite_append [overwrite_simps]:
  "overwrite (overwrite xs off d) (off + length d) e = overwrite xs off (d @ e)"
  by (rule nth_equalityI) (auto simp: nth_overwrite nth_append)

lemma overwrite_pad [overwrite_simps]:
  assumes "length xs \<le> off"
  shows "overwrite (xs @ replicate (off - length xs) 0) off d = overwrite xs off d"
  using assms by (simp add: overwrite_def)

lemma take_drop_overwrite [overwrite_simps]:
  "take (length d) (drop off (overwrite xs off d)) = d"
  by (simp add: overwrite_def)

text \<open>A slice away from the written range reads as before.\<close>

lemma take_drop_overwrite_before:
  assumes "a + n \<le> off" and "a + n \<le> length xs"
  shows "take n (drop a (overwrite xs off d)) = take n (drop a xs)"
  by (rule nth_equalityI) (use assms in \<open>auto simp: nth_overwrite\<close>)

lemma take_drop_overwrite_after:
  assumes "off + length d \<le> a" and "off \<le> length xs"
  shows "take n (drop a (overwrite xs off d)) = take n (drop a xs)"
  by (rule nth_equalityI) (use assms in \<open>auto simp: nth_overwrite\<close>)

text \<open>XOR with a key stream commutes with overwriting inside the file.\<close>

lemma xor_at_overwrite [xor_at_simps]:
  assumes "off \<le> length xs"
  shows "xor_at ks 0 (overwrite xs off d) = overwrite (xor_at ks 0 xs) off (xor_at ks off d)"
  using assms by (intro nth_equalityI) (auto simp: nth_xor_at nth_overwrite)

subsection \<open>Fixed-width encodings of integers\<close>

text \<open>
  \<open>be_bytes n x\<close> is the \<open>n\<close>-byte big-endian encoding of \<open>x mod 256 ^ n\<close>
  (\<open>binary.BigEndian.PutUint64\<close> for \<open>n = 8\<close>), \<open>le_bytes n x\<close> the little-endian one.
\<close>

fun le_bytes :: "nat \<Rightarrow> nat \<Rightarrow> bytes" where
  "le_bytes 0 x = []"
| "le_bytes (Suc n) x = of_nat x # le_bytes n (x div 256)"

definition be_bytes :: "nat \<Rightarrow> nat \<Rightarrow> bytes" where
  "be_bytes n x = rev (le_bytes n x)"

fun of_le_bytes :: "bytes \<Rightarrow> nat" where
  "of_le_bytes [] = 0"
| "of_le_bytes (b # bs) = unat b + 256 * of_le_bytes bs"

definition of_be_bytes :: "bytes \<Rightarrow> nat" where
  "of_be_bytes bs = of_le_bytes (rev bs)"

lemma length_le_bytes [simp]: "length (le_bytes n x) = n"
  by (induction n arbitrary: x) auto

lemma length_be_bytes [simp]: "length (be_bytes n x) = n"
  by (simp add: be_bytes_def)

lemma of_le_bytes_le_bytes: "of_le_bytes (le_bytes n x) = x mod 256 ^ n"
proof (induction n arbitrary: x)
  case 0
  then show ?case by simp
next
  case (Suc n)
  have "unat (of_nat x :: byte) = x mod 256"
    by (simp add: unat_of_nat)
  with Suc show ?case
    by (simp add: mod_mult2_eq)
qed

lemma of_be_bytes_be_bytes: "of_be_bytes (be_bytes n x) = x mod 256 ^ n"
  by (simp add: be_bytes_def of_be_bytes_def of_le_bytes_le_bytes)

lemma le_bytes_append:
  "le_bytes (m + n) x = le_bytes m x @ le_bytes n (x div 256 ^ m)"
  by (induction m arbitrary: x) (auto simp: div_mult2_eq)

lemma le_bytes_0: "le_bytes n 0 = replicate n 0"
  by (induction n) auto

lemma be_bytes_append:
  "be_bytes (m + n) x = be_bytes m (x div 256 ^ n) @ be_bytes n x"
  using le_bytes_append [of n m x] by (simp add: be_bytes_def add.commute)

lemma be_bytes_0: "be_bytes n 0 = replicate n 0"
  by (simp add: be_bytes_def le_bytes_0)

lemma of_le_bytes_append:
  "of_le_bytes (xs @ ys) = of_le_bytes xs + 256 ^ length xs * of_le_bytes ys"
  by (induction xs) (auto simp: algebra_simps)

lemma of_le_bytes_replicate_0 [simp]: "of_le_bytes (replicate n 0) = 0"
  by (induction n) auto

subsection \<open>Sums in 64 bits\<close>

text \<open>A sum of type int64 wraps. With a position and an offset of that type a sum that does not fit comes
  out negative.\<close>

definition to_int64 :: "int \<Rightarrow> int" where
  "to_int64 x = (x + 2 ^ 63) mod 2 ^ 64 - 2 ^ 63"

lemma to_int64_sum:
  assumes "0 \<le> x" "x < 2 ^ 63" "- (2 ^ 63) \<le> y" "y < 2 ^ 63"
  shows "to_int64 (x + y) = (if x + y < 2 ^ 63 then x + y else x + y - 2 ^ 64)"
    "to_int64 (x + y) < 0 \<longleftrightarrow> x + y < 0 \<or> 2 ^ 63 \<le> x + y"
proof -
  show "to_int64 (x + y) = (if x + y < 2 ^ 63 then x + y else x + y - 2 ^ 64)"
  proof (cases "x + y < 2 ^ 63")
    case True
    with assms show ?thesis by (simp add: to_int64_def)
  next
    case False
    have "(x + y + 2 ^ 63) mod 2 ^ 64 = (x + y + 2 ^ 63 - 2 ^ 64) mod 2 ^ 64"
      by (rule minus_mod_self2 [symmetric])
    with False assms show ?thesis by (simp add: to_int64_def)
  qed
  with assms show "to_int64 (x + y) < 0 \<longleftrightarrow> x + y < 0 \<or> 2 ^ 63 \<le> x + y" by auto
qed

end
