(* ===== verification/GoCrypto.thy ===== *)
theory GoCrypto
  imports Prelude
begin

text \<open>
  The parts of Go's standard library crypto packages that the sources use: crypto/aes with a
  256-bit key (FIPS 197), the CTR stream of crypto/cipher (NIST SP 800-38A) and crypto/rc4.
  They are functions of the key and the data, without the assembly variants of the library.
\<close>

subsection \<open>AES-256 (crypto/aes)\<close>

definition aes_sbox :: bytes where
  "aes_sbox =
    [99, 124, 119, 123, 242, 107, 111, 197, 48, 1, 103, 43, 254, 215, 171, 118,
     202, 130, 201, 125, 250, 89, 71, 240, 173, 212, 162, 175, 156, 164, 114, 192,
     183, 253, 147, 38, 54, 63, 247, 204, 52, 165, 229, 241, 113, 216, 49, 21,
     4, 199, 35, 195, 24, 150, 5, 154, 7, 18, 128, 226, 235, 39, 178, 117,
     9, 131, 44, 26, 27, 110, 90, 160, 82, 59, 214, 179, 41, 227, 47, 132,
     83, 209, 0, 237, 32, 252, 177, 91, 106, 203, 190, 57, 74, 76, 88, 207,
     208, 239, 170, 251, 67, 77, 51, 133, 69, 249, 2, 127, 80, 60, 159, 168,
     81, 163, 64, 143, 146, 157, 56, 245, 188, 182, 218, 33, 16, 255, 243, 210,
     205, 12, 19, 236, 95, 151, 68, 23, 196, 167, 126, 61, 100, 93, 25, 115,
     96, 129, 79, 220, 34, 42, 144, 136, 70, 238, 184, 20, 222, 94, 11, 219,
     224, 50, 58, 10, 73, 6, 36, 92, 194, 211, 172, 98, 145, 149, 228, 121,
     231, 200, 55, 109, 141, 213, 78, 169, 108, 86, 244, 234, 101, 122, 174, 8,
     186, 120, 37, 46, 28, 166, 180, 198, 232, 221, 116, 31, 75, 189, 139, 138,
     112, 62, 181, 102, 72, 3, 246, 14, 97, 53, 87, 185, 134, 193, 29, 158,
     225, 248, 152, 17, 105, 217, 142, 148, 155, 30, 135, 233, 206, 85, 40, 223,
     140, 161, 137, 13, 191, 230, 66, 104, 65, 153, 45, 15, 176, 84, 187, 22]"

definition sub_byte :: "byte \<Rightarrow> byte" where
  "sub_byte b = aes_sbox ! unat b"

definition xtime :: "byte \<Rightarrow> byte" where
  "xtime b = (2 * b) XOR (if 128 \<le> unat b then 27 else 0)"

definition shift_rows :: "bytes \<Rightarrow> bytes" where
  "shift_rows s = map (\<lambda>i. s ! ((i + 4 * (i mod 4)) mod 16)) [0..<16]"

fun mix_column :: "bytes \<Rightarrow> bytes" where
  "mix_column [a, b, c, d] =
    [xtime a XOR (xtime b XOR b) XOR c XOR d, a XOR xtime b XOR (xtime c XOR c) XOR d,
     a XOR b XOR xtime c XOR (xtime d XOR d), (xtime a XOR a) XOR b XOR c XOR xtime d]"
| "mix_column s = s"

definition mix_columns :: "bytes \<Rightarrow> bytes" where
  "mix_columns s = concat (map (\<lambda>c. mix_column (take 4 (drop (4 * c) s))) [0..<4])"

text \<open>The key schedule: sixty words of four bytes, kept in reverse while it grows.\<close>

definition rcon :: "nat \<Rightarrow> byte" where
  "rcon n = (xtime ^^ (n - 1)) 1"

definition xor_word :: "bytes \<Rightarrow> bytes \<Rightarrow> bytes" where
  "xor_word a b = map2 (XOR) a b"

fun aes_expand :: "nat \<Rightarrow> nat \<Rightarrow> bytes list \<Rightarrow> bytes list" where
  "aes_expand 0 i ws = ws"
| "aes_expand (Suc n) i ws =
    (let t = ws ! 0;
         t' = (if i mod 8 = 0
               then xor_word (map sub_byte (rotate1 t)) [rcon (i div 8), 0, 0, 0]
               else if i mod 8 = 4 then map sub_byte t else t)
     in aes_expand n (Suc i) (xor_word (ws ! 7) t' # ws))"

definition aes_round_keys :: "bytes \<Rightarrow> bytes" where
  "aes_round_keys key =
    concat (rev (aes_expand 52 8 (rev (map (\<lambda>i. take 4 (drop (4 * i) key)) [0..<8]))))"

definition add_round_key :: "bytes \<Rightarrow> nat \<Rightarrow> bytes \<Rightarrow> bytes" where
  "add_round_key rk r s = map (\<lambda>i. s ! i XOR rk ! (16 * r + i)) [0..<16]"

definition aes_round :: "bytes \<Rightarrow> nat \<Rightarrow> bytes \<Rightarrow> bytes" where
  "aes_round rk r s = add_round_key rk r (mix_columns (shift_rows (map sub_byte s)))"

text \<open>\<^verbatim>\<open>cipher.Block.Encrypt\<close> of the block cipher made by \<^verbatim>\<open>aes.NewCipher\<close> from 32 key bytes.\<close>

definition aes256_encrypt :: "bytes \<Rightarrow> bytes \<Rightarrow> bytes" where
  "aes256_encrypt key block =
    (let rk = aes_round_keys key;
         s = fold (\<lambda>r s. aes_round rk r s) [1..<14] (add_round_key rk 0 block)
     in add_round_key rk 14 (shift_rows (map sub_byte s)))"

lemma length_aes256_encrypt [simp]: "length (aes256_encrypt key block) = 16"
  by (simp add: aes256_encrypt_def add_round_key_def Let_def)

subsection \<open>CTR mode (crypto/cipher)\<close>

text \<open>
  A stream of \<^verbatim>\<open>cipher.NewCTR(block, iv)\<close> is the iv and the number of key-stream bytes used:
  block number \<open>i\<close> of the key stream is the encryption of the 128-bit big-endian iv plus \<open>i\<close>.
\<close>

type_synonym ctr_stream = "bytes \<times> nat"

definition NewCTR :: "bytes \<Rightarrow> ctr_stream" where
  "NewCTR iv = (iv, 0)"

definition ctr_byte :: "(bytes \<Rightarrow> bytes) \<Rightarrow> bytes \<Rightarrow> nat \<Rightarrow> byte" where
  "ctr_byte E iv n = E (be_bytes 16 (of_be_bytes iv + n div 16)) ! (n mod 16)"

definition ctr_XORKeyStream :: "(bytes \<Rightarrow> bytes) \<Rightarrow> ctr_stream \<Rightarrow> bytes \<Rightarrow> ctr_stream \<times> bytes" where
  "ctr_XORKeyStream E st src =
    (case st of (iv, n) \<Rightarrow> ((iv, n + length src), xor_at (ctr_byte E iv) n src))"

subsection \<open>RC4 (crypto/rc4)\<close>

text \<open>The permutation of 256 bytes and the two indices.\<close>

type_synonym rc4_cipher = "bytes \<times> byte \<times> byte"

definition swap_bytes :: "bytes \<Rightarrow> byte \<Rightarrow> byte \<Rightarrow> bytes" where
  "swap_bytes s i j = s[unat i := s ! unat j, unat j := s ! unat i]"

definition rc4_schedule :: "bytes \<Rightarrow> bytes" where
  "rc4_schedule key =
    fst (fold (\<lambda>i (s, j). let j' = j + s ! i + key ! (i mod length key)
           in (swap_bytes s (of_nat i) j', j')) [0..<256] (map of_nat [0..<256], 0))"

text \<open>\<^verbatim>\<open>rc4.NewCipher\<close> refuses keys that are not of 1 to 256 bytes.\<close>

definition rc4_NewCipher :: "bytes \<Rightarrow> rc4_cipher option" where
  "rc4_NewCipher key =
    (if length key < 1 \<or> 256 < length key then None else Some (rc4_schedule key, 0, 0))"

definition rc4_next :: "rc4_cipher \<Rightarrow> rc4_cipher" where
  "rc4_next c = (case c of (s, i, j) \<Rightarrow>
     let i' = i + 1; j' = j + s ! unat i' in (swap_bytes s i' j', i', j'))"

definition rc4_output :: "rc4_cipher \<Rightarrow> byte" where
  "rc4_output c = (case c of (s, i, j) \<Rightarrow> s ! unat (s ! unat i + s ! unat j))"

fun rc4_XORKeyStream :: "rc4_cipher \<Rightarrow> bytes \<Rightarrow> rc4_cipher \<times> bytes" where
  "rc4_XORKeyStream c [] = (c, [])"
| "rc4_XORKeyStream c (b # bs) =
    (let c1 = rc4_next c; (c2, out) = rc4_XORKeyStream c1 bs
     in (c2, (b XOR rc4_output c1) # out))"

text \<open>\<^verbatim>\<open>Reset\<close> zeroes the key data.\<close>

definition rc4_Reset :: "rc4_cipher \<Rightarrow> rc4_cipher" where
  "rc4_Reset c = (replicate 256 0, 0, 0)"

text \<open>The key stream of a fresh cipher, and the cipher after \<open>n\<close> bytes.\<close>

definition rc4_after :: "rc4_cipher \<Rightarrow> nat \<Rightarrow> rc4_cipher" where
  "rc4_after c n = (rc4_next ^^ n) c"

definition rc4_stream :: "rc4_cipher \<Rightarrow> nat \<Rightarrow> byte" where
  "rc4_stream c n = rc4_output (rc4_after c (Suc n))"

lemma rc4_after_0 [simp]: "rc4_after c 0 = c"
  by (simp add: rc4_after_def)

lemma rc4_next_after: "rc4_next (rc4_after c n) = rc4_after c (Suc n)"
  by (simp add: rc4_after_def)

lemma rc4_XORKeyStream_after:
  "rc4_XORKeyStream (rc4_after c p) d = (rc4_after c (p + length d), xor_at (rc4_stream c) p d)"
  by (induction d arbitrary: p) (simp_all add: rc4_next_after rc4_stream_def)

lemma rc4_XORKeyStream_append:
  "rc4_XORKeyStream c (xs @ ys) =
    (let (c1, a) = rc4_XORKeyStream c xs; (c2, b) = rc4_XORKeyStream c1 ys in (c2, a @ b))"
  using rc4_XORKeyStream_after [of c 0] rc4_XORKeyStream_after [of c]
  by (simp add: xor_at_append)

end
