(* ===== verification/StoreFile.thy ===== *)
theory StoreFile
  imports Prelude
begin

text \<open>
  The backing file of a secure file: src/native/sec_fs/file.go wraps an \<^verbatim>\<open>*os.File\<close> as
  \<^verbatim>\<open>fileContext\<close>, and the cryptor contexts only see the interface \<^verbatim>\<open>IFileContext\<close> of
  src/native/sec_fs/crypto_data/interface.go. The definitions below are the operations of
  package os that the sources use, on a record with the content, the file offset shared by
  \<^verbatim>\<open>Read\<close>, \<^verbatim>\<open>Write\<close> and \<^verbatim>\<open>Seek\<close>, and the open mode. A full device is the field \<open>froom\<close>:
  no write lets the file grow beyond it, and a write that does not fit stores the bytes that
  do and reports \<open>ENOSPC\<close>.
\<close>

record osfile =
  fdata :: bytes      \<comment> \<open>content on disk\<close>
  foff :: int         \<comment> \<open>file offset\<close>
  froom :: nat        \<comment> \<open>size the device lets the file reach\<close>
  fopen :: bool
  freadable :: bool
  fwritable :: bool
  fappend :: bool     \<comment> \<open>opened with O_APPEND\<close>
  fat :: bool         \<comment> \<open>the dynamic type implements io.ReaderAt and io.WriterAt\<close>

datatype whence = SeekStart | SeekCurrent | SeekEnd | SeekOther

subsection \<open>Sequential and positioned I/O of package os\<close>

text \<open>\<^verbatim>\<open>(*os.File).Read\<close> into a buffer of \<open>n\<close> bytes: the bytes read, and the error.\<close>

definition os_read :: "nat \<Rightarrow> osfile \<Rightarrow> osfile \<times> bytes \<times> io_error option" where
  "os_read n f =
    (if \<not> fopen f then (f, [], Some ErrClosed)
     else if n = 0 then (f, [], None)
     else if \<not> freadable f then (f, [], Some EBADF)
     else let d = take n (drop (nat (foff f)) (fdata f)) in
       (f\<lparr>foff := foff f + int (length d)\<rparr>, d, if d = [] then Some EOF else None))"

text \<open>How many of \<open>n\<close> bytes fit when they are written at offset \<open>off\<close>.\<close>

definition os_fits :: "osfile \<Rightarrow> nat \<Rightarrow> nat \<Rightarrow> nat" where
  "os_fits f off n = min n (max (froom f) (length (fdata f)) - off)"

definition os_store :: "osfile \<Rightarrow> nat \<Rightarrow> bytes \<Rightarrow> osfile \<times> nat \<times> io_error option" where
  "os_store f off d =
    (let n = os_fits f off (length d) in
      (if n = 0 then f else f\<lparr>fdata := overwrite (fdata f) off (take n d)\<rparr>,
       n, if n < length d then Some ENOSPC else None))"

definition os_write :: "osfile \<Rightarrow> bytes \<Rightarrow> osfile \<times> nat \<times> io_error option" where
  "os_write f d =
    (if \<not> fopen f then (f, 0, Some ErrClosed)
     else if \<not> fwritable f then (f, 0, Some EBADF)
     else let off = (if fappend f then length (fdata f) else nat (foff f));
              (f', n, err) = os_store f off d in
       (if n = 0 then f' else f'\<lparr>foff := int (off + n)\<rparr>, n, err))"

definition os_seek :: "osfile \<Rightarrow> int \<Rightarrow> whence \<Rightarrow> osfile \<times> int \<times> io_error option" where
  "os_seek f off w =
    (if \<not> fopen f then (f, 0, Some ErrClosed)
     else let target = (case w of
                SeekStart \<Rightarrow> off
              | SeekCurrent \<Rightarrow> foff f + off
              | SeekEnd \<Rightarrow> int (length (fdata f)) + off
              | SeekOther \<Rightarrow> - 1) in
       if target < 0 then (f, 0, Some EINVAL) else (f\<lparr>foff := target\<rparr>, target, None))"

definition os_read_at :: "osfile \<Rightarrow> nat \<Rightarrow> int \<Rightarrow> bytes \<times> io_error option" where
  "os_read_at f n off =
    (if \<not> fopen f then ([], Some ErrClosed)
     else if off < 0 then ([], Some ErrNegativeOffset)
     else if n = 0 then ([], None)
     else if \<not> freadable f then ([], Some EBADF)
     else let d = take n (drop (nat off) (fdata f)) in
       (d, if length d < n then Some EOF else None))"

definition os_write_at :: "osfile \<Rightarrow> bytes \<Rightarrow> int \<Rightarrow> osfile \<times> nat \<times> io_error option" where
  "os_write_at f d off =
    (if \<not> fopen f then (f, 0, Some ErrClosed)
     else if fappend f then (f, 0, Some ErrWriteAtInAppendMode)
     else if off < 0 then (f, 0, Some ErrNegativeOffset)
     else if d = [] then (f, 0, None)
     else if \<not> fwritable f then (f, 0, Some EBADF)
     else os_store f (nat off) d)"

definition os_truncate :: "osfile \<Rightarrow> int \<Rightarrow> osfile \<times> io_error option" where
  "os_truncate f n =
    (if \<not> fopen f then (f, Some ErrClosed)
     else if n < 0 \<or> \<not> fwritable f then (f, Some EINVAL)
     else (f\<lparr>fdata := take (nat n) (fdata f) @ replicate (nat n - length (fdata f)) 0\<rparr>, None))"

definition os_sync :: "osfile \<Rightarrow> io_error option" where
  "os_sync f = (if fopen f then None else Some ErrClosed)"

definition os_close :: "osfile \<Rightarrow> osfile \<times> io_error option" where
  "os_close f = (if fopen f then (f\<lparr>fopen := False\<rparr>, None) else (f, Some ErrClosed))"

text \<open>\<^verbatim>\<open>fileContext.Size\<close>: the stat size, 0 when stat fails (a closed file).\<close>

definition fileContext_Size :: "osfile \<Rightarrow> int" where
  "fileContext_Size f = (if fopen f then int (length (fdata f)) else 0)"

subsection \<open>Facts about files open for reading and writing\<close>

text \<open>The files that the secure root hands to a cryptor context for read-write access.\<close>

definition rw_file :: "osfile \<Rightarrow> bool" where
  "rw_file f \<longleftrightarrow> fopen f \<and> freadable f \<and> fwritable f \<and> \<not> fappend f"

text \<open>A file that was just created for reading and writing, on a device with \<open>room\<close> bytes.\<close>

definition new_file :: "nat \<Rightarrow> osfile" where
  "new_file room = \<lparr>fdata = [], foff = 0, froom = room, fopen = True, freadable = True,
     fwritable = True, fappend = False, fat = True\<rparr>"

lemma new_file_simps [simp]:
  "rw_file (new_file room)" "fat (new_file room)" "fdata (new_file room) = []"
  "froom (new_file room) = room" "foff (new_file room) = 0"
  by (simp_all add: new_file_def rw_file_def)

named_theorems store_simps \<open>what the os operations do on a file open for reading and writing\<close>

lemma rw_fileD:
  "rw_file f \<Longrightarrow> fopen f" "rw_file f \<Longrightarrow> freadable f" "rw_file f \<Longrightarrow> fwritable f"
  "rw_file f \<Longrightarrow> \<not> fappend f"
  by (auto simp: rw_file_def)

lemma rw_file_update [simp]:
  "rw_file (f\<lparr>fdata := d\<rparr>) = rw_file f" "rw_file (f\<lparr>foff := p\<rparr>) = rw_file f"
  by (auto simp: rw_file_def)

lemma os_fits_le: "os_fits f off n \<le> n"
  by (simp add: os_fits_def)

lemma os_fits_all: "off + n \<le> max (froom f) (length (fdata f)) \<Longrightarrow> os_fits f off n = n"
  by (simp add: os_fits_def)

lemma os_seek_start [store_simps]:
  "fopen f \<Longrightarrow> 0 \<le> p \<Longrightarrow> os_seek f p SeekStart = (f\<lparr>foff := p\<rparr>, p, None)"
  by (simp add: os_seek_def)

lemma os_store_fits [store_simps]:
  "d \<noteq> [] \<Longrightarrow> off + length d \<le> max (froom f) (length (fdata f)) \<Longrightarrow>
    os_store f off d = (f\<lparr>fdata := overwrite (fdata f) off d\<rparr>, length d, None)"
  by (simp add: os_store_def os_fits_all)

lemma os_write_fits [store_simps]:
  assumes "rw_file f" and "d \<noteq> []" and "0 \<le> foff f"
    and "nat (foff f) + length d \<le> max (froom f) (length (fdata f))"
  shows "os_write f d =
    (f\<lparr>fdata := overwrite (fdata f) (nat (foff f)) d, foff := foff f + int (length d)\<rparr>,
     length d, None)"
  using assms by (simp add: os_write_def rw_file_def os_store_fits)

lemma os_write_at_fits [store_simps]:
  assumes "rw_file f" and "d \<noteq> []" and "0 \<le> off"
    and "nat off + length d \<le> max (froom f) (length (fdata f))"
  shows "os_write_at f d off = (f\<lparr>fdata := overwrite (fdata f) (nat off) d\<rparr>, length d, None)"
  using assms by (simp add: os_write_at_def rw_file_def os_store_fits)

lemma os_read_rw [store_simps]:
  assumes "rw_file f" and "0 < n"
  shows "os_read n f =
    (f\<lparr>foff := foff f + int (length (take n (drop (nat (foff f)) (fdata f))))\<rparr>,
     take n (drop (nat (foff f)) (fdata f)),
     if length (fdata f) \<le> nat (foff f) then Some EOF else None)"
  using assms by (simp add: os_read_def rw_file_def)

lemma os_read_at_rw [store_simps]:
  assumes "rw_file f" and "0 \<le> off"
  shows "os_read_at f n off =
    (take n (drop (nat off) (fdata f)),
     if length (take n (drop (nat off) (fdata f))) < n then Some EOF else None)"
  using assms by (auto simp: os_read_at_def rw_file_def)

lemma os_truncate_shrink [store_simps]:
  assumes "rw_file f" and "0 \<le> n" and "nat n \<le> length (fdata f)"
  shows "os_truncate f n = (f\<lparr>fdata := take (nat n) (fdata f)\<rparr>, None)"
  using assms by (simp add: os_truncate_def rw_file_def)

text \<open>A closed file refuses every operation and keeps its content.\<close>

lemma closed_file_refuses:
  assumes "\<not> fopen f"
  shows "os_read n f = (f, [], Some ErrClosed)" "os_write f d = (f, 0, Some ErrClosed)"
    "os_seek f p w = (f, 0, Some ErrClosed)" "os_read_at f n p = ([], Some ErrClosed)"
    "os_write_at f d p = (f, 0, Some ErrClosed)" "os_truncate f p = (f, Some ErrClosed)"
    "os_sync f = Some ErrClosed" "os_close f = (f, Some ErrClosed)"
  using assms by (auto simp: os_read_def os_write_def os_seek_def os_read_at_def os_write_at_def
      os_truncate_def os_sync_def os_close_def)

end
