(* ===== verification/ChunkProcessor.thy ===== *)
theory ChunkProcessor
  imports StoreFile
begin

text \<open>
  src/native/sec_fs/crypto_data/crypt_utils/chunk_processor.go: the loops that encrypt and
  write data in pieces of at most 64 KB through a pooled buffer. A writer is a function on a
  writer state that returns the number of bytes written and the error; an encryption
  function works on a cipher state, the bytes of the piece and their position in the file,
  and returns the new cipher state, the bytes it left in the buffer and its error (a run-time
  panic of the callback included).
\<close>

definition ChunkBufferSize :: nat where
  "ChunkBufferSize = 65536"

lemma ChunkBufferSize_pos [simp]: "0 < ChunkBufferSize" "ChunkBufferSize \<noteq> 0"
  by (simp_all add: ChunkBufferSize_def)

type_synonym 's crypt_fun = "'s \<Rightarrow> bytes \<Rightarrow> int \<Rightarrow> 's \<times> bytes \<times> io_error option"
type_synonym 'w write_fun = "'w \<Rightarrow> bytes \<Rightarrow> 'w \<times> nat \<times> io_error option"
type_synonym 'w write_at_fun = "'w \<Rightarrow> bytes \<Rightarrow> int \<Rightarrow> 'w \<times> nat \<times> io_error option"

definition minInt64 :: "int \<Rightarrow> int \<Rightarrow> int" where
  "minInt64 a b = (if a < b then a else b)"

subsection \<open>FillGap\<close>

text \<open>The loop of \<^verbatim>\<open>FillGap\<close>: \<open>remaining\<close> zero bytes, encrypted for their position, are
  written piece by piece; the first error of either callback ends it.\<close>

function fill_gap_loop ::
  "'w write_fun \<Rightarrow> 's crypt_fun \<Rightarrow> 's \<Rightarrow> 'w \<Rightarrow> int \<Rightarrow> int \<Rightarrow> 's \<times> 'w \<times> io_error option" where
  "fill_gap_loop write enc s w currentPos remaining =
    (if remaining \<le> 0 then (s, w, None)
     else let chunkSize = minInt64 (int ChunkBufferSize) remaining;
              (s', chunk, err) = enc s (replicate (nat chunkSize) 0) currentPos
          in case err of Some e \<Rightarrow> (s', w, Some e)
           | None \<Rightarrow>
             let (w', n, werr) = write w chunk
             in case werr of Some e \<Rightarrow> (s', w', Some e)
              | None \<Rightarrow> fill_gap_loop write enc s' w' (currentPos + chunkSize) (remaining - chunkSize))"
  by pat_completeness auto
termination
  by (relation "measure (\<lambda>(write, enc, s, w, currentPos, remaining). nat remaining)")
     (auto simp: minInt64_def split: if_splits)

declare fill_gap_loop.simps [simp del]

definition FillGap ::
  "'w write_fun \<Rightarrow> 's crypt_fun \<Rightarrow> 's \<Rightarrow> 'w \<Rightarrow> int \<Rightarrow> int \<Rightarrow> 's \<times> 'w \<times> io_error option" where
  "FillGap write enc s w startPos gapSize =
    (if gapSize \<le> 0 then (s, w, None) else fill_gap_loop write enc s w startPos gapSize)"

subsection \<open>ProcessDataInChunks\<close>

text \<open>The callback gets the source piece and its position and keeps its results in its own
  state (the temporary buffer is its scratch space).\<close>

function process_chunks_loop ::
  "('s \<Rightarrow> bytes \<Rightarrow> int \<Rightarrow> 's \<times> io_error option) \<Rightarrow> 's \<Rightarrow> bytes \<Rightarrow> int \<Rightarrow> 's \<times> io_error option" where
  "process_chunks_loop process s data currentPos =
    (if data = [] then (s, None)
     else let srcChunk = take ChunkBufferSize data;
              (s', err) = process s srcChunk currentPos
          in case err of Some e \<Rightarrow> (s', Some e)
           | None \<Rightarrow> process_chunks_loop process s' (drop ChunkBufferSize data)
                       (currentPos + int (length srcChunk)))"
  by pat_completeness auto
termination
  by (relation "measure (\<lambda>(process, s, data, currentPos). length data)") auto

declare process_chunks_loop.simps [simp del]

definition ProcessDataInChunks ::
  "('s \<Rightarrow> bytes \<Rightarrow> int \<Rightarrow> 's \<times> io_error option) \<Rightarrow> 's \<Rightarrow> bytes \<Rightarrow> int \<Rightarrow> 's \<times> io_error option" where
  "ProcessDataInChunks process s data startPos =
    (if data = [] then (s, None) else process_chunks_loop process s data startPos)"

subsection \<open>EncryptAndWriteInChunks and EncryptAndWriteAtInChunks\<close>

text \<open>
  After each piece \<open>totalWritten\<close> and the position advance by the number of bytes the writer
  reports, the data offset by the piece; a writer error ends the loop with the count so far.
\<close>

function encrypt_write_loop ::
  "'w write_at_fun \<Rightarrow> 's crypt_fun \<Rightarrow> 's \<Rightarrow> 'w \<Rightarrow> bytes \<Rightarrow> int \<Rightarrow> nat \<Rightarrow>
   's \<times> 'w \<times> nat \<times> io_error option" where
  "encrypt_write_loop write enc s w data currentPos totalWritten =
    (if data = [] then (s, w, totalWritten, None)
     else let srcChunk = take ChunkBufferSize data;
              (s', dstChunk, err) = enc s srcChunk currentPos
          in case err of Some e \<Rightarrow> (s', w, totalWritten, Some e)
           | None \<Rightarrow>
             let (w', n, werr) = write w dstChunk currentPos
             in case werr of Some e \<Rightarrow> (s', w', totalWritten + n, Some e)
              | None \<Rightarrow> encrypt_write_loop write enc s' w' (drop ChunkBufferSize data)
                          (currentPos + int n) (totalWritten + n))"
  by pat_completeness auto
termination
  by (relation "measure (\<lambda>(write, enc, s, w, data, currentPos, totalWritten). length data)") auto

declare encrypt_write_loop.simps [simp del]

definition EncryptAndWriteInChunks ::
  "'w write_fun \<Rightarrow> 's crypt_fun \<Rightarrow> 's \<Rightarrow> 'w \<Rightarrow> bytes \<Rightarrow> int \<Rightarrow> 's \<times> 'w \<times> nat \<times> io_error option" where
  "EncryptAndWriteInChunks write enc s w data startPos =
    (if data = [] then (s, w, 0, None)
     else encrypt_write_loop (\<lambda>w d _. write w d) enc s w data startPos 0)"

definition EncryptAndWriteAtInChunks ::
  "'w write_at_fun \<Rightarrow> 's crypt_fun \<Rightarrow> 's \<Rightarrow> 'w \<Rightarrow> bytes \<Rightarrow> int \<Rightarrow> 's \<times> 'w \<times> nat \<times> io_error option" where
  "EncryptAndWriteAtInChunks writeAt enc s w data off =
    (if data = [] then (s, w, 0, None)
     else encrypt_write_loop writeAt enc s w data off 0)"

end
