(* ===== verification/KeyStream.thy ===== *)
theory KeyStream
  imports ChunkProcessor
begin

text \<open>
  The contract between the data ciphers (AES-CTR, AES-XTS, ChaCha20, RC4) and everything that
  uses them: at file position \<open>p\<close> the cipher XORs the buffer with bytes \<open>p, p+1, \<dots>\<close> of
  a key stream that depends on the key alone, whatever was encrypted before, as long as the
  data ends at or before the limit \<open>lim\<close> of the algorithm. The chunked writers of
  chunk_processor.go are proved against this contract once, for every cipher and for every
  amount of space left on the device.
\<close>

locale keystream_cipher =
  fixes enc :: "'s crypt_fun"
    and ks :: "nat \<Rightarrow> byte"
    and cinv :: "'s \<Rightarrow> bool"
    and lim :: int
  assumes enc_xor:
    "cinv s \<Longrightarrow> 0 \<le> p \<Longrightarrow> p + int (length d) \<le> lim \<Longrightarrow>
      \<exists>s'. enc s d p = (s', xor_at ks (nat p) d, None) \<and> cinv s'"

subsection \<open>Writing inside a file, sequentially or at a position\<close>

lemma os_fits_split:
  assumes "os_fits f p (length c) = length c"
  shows "os_fits f p (length c + b) =
    length c + os_fits (f\<lparr>fdata := overwrite (fdata f) p c\<rparr>) (p + length c) b"
  using assms by (simp add: os_fits_def) arith

lemma os_fits_short:
  "os_fits f p a < a \<Longrightarrow> os_fits f p (a + b) = os_fits f p a"
  by (auto simp: os_fits_def)

lemma os_fits_foff [simp]: "os_fits (f\<lparr>foff := q\<rparr>) p n = os_fits f p n"
  by (simp add: os_fits_def)

text \<open>The two writers of the chunk loops and what they do to the file offset.\<close>

definition writer :: "bool \<Rightarrow> osfile write_at_fun" where
  "writer sequential f d p = (if sequential then os_write f d else os_write_at f d p)"

definition advance :: "bool \<Rightarrow> osfile \<Rightarrow> int \<Rightarrow> osfile" where
  "advance sequential f q = (if sequential then f\<lparr>foff := q\<rparr> else f)"

text \<open>The file after the prefix of \<open>d\<close> that fits has been stored at \<open>p\<close>.\<close>

definition stored :: "bool \<Rightarrow> osfile \<Rightarrow> int \<Rightarrow> bytes \<Rightarrow> osfile" where
  "stored sequential f p d =
    (let n = os_fits f (nat p) (length d) in
     advance sequential (f\<lparr>fdata := overwrite (fdata f) (nat p) (take n d)\<rparr>) (p + int n))"

definition short_write :: "osfile \<Rightarrow> int \<Rightarrow> nat \<Rightarrow> io_error option" where
  "short_write f p n = (if os_fits f (nat p) n < n then Some ENOSPC else None)"

definition write_ready :: "bool \<Rightarrow> osfile \<Rightarrow> int \<Rightarrow> bool" where
  "write_ready sequential f p \<longleftrightarrow> rw_file f \<and> 0 \<le> p \<and> nat p \<le> length (fdata f) \<and>
     (sequential \<longrightarrow> foff f = p)"

lemma writer_stored:
  assumes "write_ready sequential f p" and "d \<noteq> []"
  shows "writer sequential f d p =
    (stored sequential f p d, os_fits f (nat p) (length d), short_write f p (length d))"
  using assms
  by (auto simp: writer_def write_ready_def stored_def advance_def short_write_def Let_def
      os_write_def os_write_at_def os_store_def rw_file_def)

lemma stored_all:
  assumes "os_fits f (nat p) (length d) = length d"
  shows "stored sequential f p d =
    advance sequential (f\<lparr>fdata := overwrite (fdata f) (nat p) d\<rparr>) (p + int (length d))"
  using assms by (simp add: stored_def)

lemma write_ready_stored:
  assumes "write_ready sequential f p" and "os_fits f (nat p) (length c) = length c"
  shows "write_ready sequential (stored sequential f p c) (p + int (length c))"
  using assms by (auto simp: write_ready_def stored_all advance_def nat_add_distrib)

lemma os_fits_stored:
  assumes "write_ready sequential f p" and "os_fits f (nat p) (length c) = length c"
  shows "os_fits f (nat p) (length c + b) =
    length c + os_fits (stored sequential f p c) (nat (p + int (length c))) b"
proof -
  have "nat (p + int (length c)) = nat p + length c"
    using assms(1) by (simp add: write_ready_def nat_add_distrib)
  moreover have "os_fits (stored sequential f p c) q b =
      os_fits (f\<lparr>fdata := overwrite (fdata f) (nat p) c\<rparr>) q b" for q
    using assms(2) by (simp add: stored_all advance_def)
  ultimately show ?thesis
    using os_fits_split [OF assms(2), of b] by simp
qed

lemma stored_append:
  assumes "write_ready sequential f p" and "os_fits f (nat p) (length c) = length c"
  shows "stored sequential (stored sequential f p c) (p + int (length c)) r =
    stored sequential f p (c @ r)"
proof -
  define n where "n = os_fits (stored sequential f p c) (nat (p + int (length c))) (length r)"
  have "overwrite (overwrite (fdata f) (nat p) c) (nat p + length c) (take n r) =
      overwrite (fdata f) (nat p) (c @ take n r)"
    by (rule overwrite_append)
  with assms show ?thesis
    unfolding stored_def [of sequential "stored sequential f p c"]
      stored_def [of sequential f p "c @ r"] Let_def length_append
      os_fits_stored [OF assms] n_def [symmetric]
    by (auto simp: stored_all advance_def nat_add_distrib write_ready_def add.assoc)
qed

subsection \<open>The chunk loops\<close>

context keystream_cipher
begin

text \<open>
  Encrypting and writing a buffer in pieces stores exactly the prefix that fits, encrypted for
  its position; the count is the length of that prefix, and the error is \<open>ENOSPC\<close> exactly when
  something did not fit.
\<close>

lemma encrypt_write_loop_stored:
  assumes "cinv s" "write_ready sequential f p" "p + int (length d) \<le> lim"
  shows "\<exists>s'. encrypt_write_loop (writer sequential) enc s f d p tot =
    (s', stored sequential f p (xor_at ks (nat p) d),
     tot + os_fits f (nat p) (length d), short_write f p (length d)) \<and> cinv s'"
  using assms
proof (induction "length d" arbitrary: s f d p tot rule: less_induct)
  case less
  show ?case
  proof (cases "d = []")
    case True
    with less.prems show ?thesis
      by (subst encrypt_write_loop.simps)
        (auto simp: os_fits_def stored_def short_write_def advance_def write_ready_def)
  next
    case False
    define c where "c = take ChunkBufferSize d"
    define r where "r = drop ChunkBufferSize d"
    define x where "x = xor_at ks (nat p) c"
    have d: "d = c @ r" and c: "c \<noteq> []" and x: "x \<noteq> []" "length x = length c"
      using False by (simp_all add: c_def r_def x_def)
    have p: "0 \<le> p"
      using less.prems by (simp add: write_ready_def)
    from less.prems d p obtain s1 where enc: "enc s c p = (s1, x, None)" and s1: "cinv s1"
      using enc_xor [of s p c] by (auto simp: x_def)
    note w = writer_stored [OF less.prems(2) x(1), unfolded x(2)]
    have xd: "xor_at ks (nat p) d = x @ xor_at ks (nat p + length c) r"
      by (simp add: d x_def xor_at_append)
    show ?thesis
    proof (cases "os_fits f (nat p) (length c) < length c")
      case True
      have "os_fits f (nat p) (length d) = os_fits f (nat p) (length c)"
        using os_fits_short [OF True] by (simp add: d)
      with True s1 enc w False show ?thesis
        by (subst encrypt_write_loop.simps)
          (simp add: c_def [symmetric] short_write_def stored_def xd, simp add: d x)
    next
      case all: False
      then have fits: "os_fits f (nat p) (length x) = length x"
        using os_fits_le [of f "nat p" "length c"] x by simp
      let ?f1 = "stored sequential f p x" and ?p1 = "p + int (length c)"
      have ready: "write_ready sequential ?f1 ?p1"
        using write_ready_stored [OF less.prems(2) fits] x by simp
      have step: "encrypt_write_loop (writer sequential) enc s f d p tot =
          encrypt_write_loop (writer sequential) enc s1 ?f1 r ?p1 (tot + length c)"
        using False enc w fits x
        by (subst encrypt_write_loop.simps)
          (simp add: c_def [symmetric] r_def [symmetric] short_write_def)
      have np: "nat ?p1 = nat p + length c"
        using p by (simp add: nat_add_distrib)
      have "length r < length d" "?p1 + int (length r) \<le> lim"
        using c d less.prems(3) by auto
      from less.hyps [OF this(1) s1 ready this(2), of "tot + length c"] obtain s2 where
        "cinv s2" "encrypt_write_loop (writer sequential) enc s1 ?f1 r ?p1 (tot + length c) =
          (s2, stored sequential ?f1 ?p1 (xor_at ks (nat p + length c) r),
           tot + length c + os_fits ?f1 (nat ?p1) (length r), short_write ?f1 ?p1 (length r))"
        unfolding np by auto
      then show ?thesis
        using step stored_append [OF less.prems(2) fits, of "xor_at ks (nat p + length c) r"]
          os_fits_stored [OF less.prems(2) fits, of "length r"]
        by (simp add: xd short_write_def x) (simp add: d x)
    qed
  qed
qed

text \<open>Filling a gap at the end of the file: encrypted zero bytes, in the same pieces.\<close>

lemma fill_gap_loop_stored:
  assumes "cinv s" "write_ready True f p" "p + gap \<le> lim" "0 \<le> gap"
    and "nat p + nat gap \<le> max (froom f) (length (fdata f))"
  shows "\<exists>s'. fill_gap_loop os_write (\<lambda>s d q. enc s d q) s f p gap =
    (s', stored True f p (xor_at ks (nat p) (replicate (nat gap) 0)), None) \<and> cinv s'"
  using assms
proof (induction "nat gap" arbitrary: s f p gap rule: less_induct)
  case less
  show ?case
  proof (cases "gap \<le> 0")
    case True
    with less.prems show ?thesis
      by (subst fill_gap_loop.simps)
        (auto simp: os_fits_def stored_def advance_def write_ready_def)
  next
    case False
    define n where "n = nat (minInt64 (int ChunkBufferSize) gap)"
    define x where "x = xor_at ks (nat p) (replicate n 0)"
    have n: "0 < n" "int n \<le> gap" "minInt64 (int ChunkBufferSize) gap = int n"
      using False by (auto simp: n_def minInt64_def)
    have p: "0 \<le> p" and x: "x \<noteq> []" "length x = n"
      using less.prems n by (simp_all add: write_ready_def x_def)
    obtain s1 where enc: "enc s (replicate n 0) p = (s1, x, None)" and s1: "cinv s1"
      using enc_xor [of s p "replicate n 0"] less.prems(1,3) n p by (auto simp: x_def)
    have fits: "os_fits f (nat p) (length x) = length x"
      using less.prems(5) n x p by (intro os_fits_all) linarith
    have w: "os_write f x = (stored True f p x, length x, None)"
      using writer_stored [OF less.prems(2) x(1)] fits by (simp add: writer_def short_write_def)
    let ?f1 = "stored True f p x" and ?p1 = "p + int n"
    have ready: "write_ready True ?f1 ?p1"
      using write_ready_stored [OF less.prems(2) fits] x by simp
    have step: "fill_gap_loop os_write (\<lambda>s d q. enc s d q) s f p gap =
        fill_gap_loop os_write (\<lambda>s d q. enc s d q) s1 ?f1 ?p1 (gap - int n)"
      using False enc w n by (subst fill_gap_loop.simps) (simp add: Let_def)
    have room: "nat ?p1 + nat (gap - int n) \<le> max (froom ?f1) (length (fdata ?f1))"
      using less.prems(5) n p fits x by (simp add: stored_all advance_def max_def; linarith)
    have "nat (gap - int n) < nat gap" "?p1 + (gap - int n) \<le> lim" "0 \<le> gap - int n"
      using n False less.prems(3) by auto
    from less.hyps [OF this(1) s1 ready this(2,3) room] obtain s2 where
      s2: "cinv s2" "fill_gap_loop os_write (\<lambda>s d q. enc s d q) s1 ?f1 ?p1 (gap - int n) =
        (s2, stored True ?f1 ?p1 (xor_at ks (nat ?p1) (replicate (nat (gap - int n)) 0)), None)"
      by auto
    have "replicate (nat gap) 0 = replicate n 0 @ replicate (nat (gap - int n)) (0 :: byte)"
      using n by (simp add: replicate_add [symmetric] nat_diff_distrib')
    then have "xor_at ks (nat p) (replicate (nat gap) 0) =
        x @ xor_at ks (nat ?p1) (replicate (nat (gap - int n)) 0)"
      using p by (simp add: x_def xor_at_append nat_add_distrib)
    with s2 step stored_append [OF less.prems(2) fits] x show ?thesis
      by simp
  qed
qed

end

end
