(* ===== verification/CryptorContext.thy ===== *)
theory CryptorContext
  imports KeyStream
begin

text \<open>
  The file operations of a cryptor context (interface \<^verbatim>\<open>IDataCryptorContext\<close>). The four
  algorithms under src/native/sec_fs/crypto_data/algorithm_impl carry the same method bodies
  around their own encryption function, so the bodies are defined once here, over an
  encryption function, a decryption function and the algorithm's own state, and each
  algorithm's theory names its instances. The second half is the contract: a plain file
  with a position, and the proof that every method does on the encrypted backing file what
  the plain file does, for any cipher that satisfies the key-stream contract.
\<close>

record 's ctx =
  storeFileIo :: osfile
  cipherState :: 's
  cpos :: int
  csize :: int

subsection \<open>Construction\<close>

text \<open>The common end of every \<^verbatim>\<open>NewContext\<close>: the size is found by seeking to the end.\<close>

definition ctx_new :: "'s \<Rightarrow> osfile \<Rightarrow> io_error + 's ctx" where
  "ctx_new s f =
    (case os_seek f 0 SeekEnd of (f1, sz, Some e) \<Rightarrow> Inl e
     | (f1, sz, None) \<Rightarrow>
       (case os_seek f1 0 SeekStart of (f2, _, Some e) \<Rightarrow> Inl e
        | (f2, _, None) \<Rightarrow> Inr \<lparr>storeFileIo = f2, cipherState = s, cpos = 0, csize = sz\<rparr>))"

subsection \<open>The methods\<close>

definition ctx_ensure_append_gap :: "'s crypt_fun \<Rightarrow> 's ctx \<Rightarrow> int \<Rightarrow> 's ctx \<times> io_error option" where
  "ctx_ensure_append_gap enc c targetPos =
    (if targetPos \<le> csize c then (c, None)
     else let gapSize = targetPos - csize c;
              (f1, _, err) = os_seek (storeFileIo c) (csize c) SeekStart
          in case err of Some e \<Rightarrow> (c\<lparr>storeFileIo := f1\<rparr>, Some e)
           | None \<Rightarrow>
             let (s', f2, err2) = FillGap os_write (\<lambda>s d q. enc s d q) (cipherState c) f1 (csize c) gapSize;
                 c' = c\<lparr>storeFileIo := f2, cipherState := s'\<rparr>
             in case err2 of Some e \<Rightarrow> (c', Some e) | None \<Rightarrow> (c'\<lparr>csize := targetPos\<rparr>, None))"

text \<open>\<^verbatim>\<open>Read\<close>: bytes come from the current offset of the backing file and are decrypted for
  the position the context remembers.\<close>

definition ctx_Read :: "'s crypt_fun \<Rightarrow> 's ctx \<Rightarrow> nat \<Rightarrow> 's ctx \<times> bytes \<times> io_error option" where
  "ctx_Read dec c len =
    (let (f', d, err) = os_read len (storeFileIo c) in
     if d = [] then (c\<lparr>storeFileIo := f'\<rparr>, [], err)
     else let (s', d', derr) = dec (cipherState c) d (cpos c) in
       case derr of Some e \<Rightarrow> (c\<lparr>storeFileIo := f', cipherState := s'\<rparr>, [], Some e)
       | None \<Rightarrow> (c\<lparr>storeFileIo := f', cipherState := s', cpos := cpos c + int (length d)\<rparr>, d', err))"

text \<open>The variant that first moves the backing file to the remembered position; the error of
  that seek is ignored.\<close>

definition ctx_ReadReseek :: "'s crypt_fun \<Rightarrow> 's ctx \<Rightarrow> nat \<Rightarrow> 's ctx \<times> bytes \<times> io_error option" where
  "ctx_ReadReseek dec c len =
    ctx_Read dec (c\<lparr>storeFileIo := fst (os_seek (storeFileIo c) (cpos c) SeekStart)\<rparr>) len"

definition ctx_Write :: "'s crypt_fun \<Rightarrow> 's ctx \<Rightarrow> bytes \<Rightarrow> 's ctx \<times> nat \<times> io_error option" where
  "ctx_Write enc c p =
    (case ctx_ensure_append_gap enc c (cpos c) of (c1, Some e) \<Rightarrow> (c1, 0, Some e)
     | (c1, None) \<Rightarrow>
       let f1 = fst (os_seek (storeFileIo c1) (cpos c1) SeekStart);
           (s', f2, n, err) = EncryptAndWriteInChunks os_write enc (cipherState c1) f1 p (cpos c1);
           c2 = c1\<lparr>storeFileIo := f2, cipherState := s'\<rparr>;
           c3 = (if n > 0 then c2\<lparr>cpos := cpos c2 + int n,
                    csize := (if csize c2 < cpos c2 + int n then cpos c2 + int n else csize c2)\<rparr>
                 else c2)
       in (c3, n, err))"

definition ctx_Seek :: "'s ctx \<Rightarrow> int \<Rightarrow> whence \<Rightarrow> 's ctx \<times> int \<times> io_error option" where
  "ctx_Seek c offset w =
    (case w of SeekOther \<Rightarrow> (c, 0, Some ErrUnexpectedEOF)
     | _ \<Rightarrow>
       let newPos = (case w of SeekStart \<Rightarrow> offset | SeekCurrent \<Rightarrow> to_int64 (cpos c + offset)
                      | _ \<Rightarrow> to_int64 (csize c + offset))
       in if newPos < 0 then (c, 0, Some ErrUnexpectedEOF)
          else (case os_seek (storeFileIo c) newPos SeekStart of
              (f', _, Some e) \<Rightarrow> (c\<lparr>storeFileIo := f'\<rparr>, 0, Some e)
            | (f', _, None) \<Rightarrow> (c\<lparr>storeFileIo := f', cpos := newPos\<rparr>, newPos, None)))"

definition ctx_Close :: "'s ctx \<Rightarrow> 's ctx \<times> io_error option" where
  "ctx_Close c = (let (f', err) = os_close (storeFileIo c) in (c\<lparr>storeFileIo := f'\<rparr>, err))"

definition ctx_Size :: "'s ctx \<Rightarrow> int" where
  "ctx_Size c = csize c"

definition ctx_Truncate :: "'s crypt_fun \<Rightarrow> 's ctx \<Rightarrow> int \<Rightarrow> 's ctx \<times> io_error option" where
  "ctx_Truncate enc c sz =
    (let (c1, err) =
       (if csize c < sz then ctx_ensure_append_gap enc c sz
        else if sz < csize c then
          (let (f', e) = os_truncate (storeFileIo c) sz in (c\<lparr>storeFileIo := f'\<rparr>, e))
        else (c, None))
     in case err of Some e \<Rightarrow> (c1, Some e)
      | None \<Rightarrow> (c1\<lparr>csize := sz, cpos := (if sz < cpos c1 then sz else cpos c1)\<rparr>, None))"

definition ctx_Sync :: "'s ctx \<Rightarrow> io_error option" where
  "ctx_Sync c = os_sync (storeFileIo c)"

text \<open>\<^verbatim>\<open>ReadAt\<close>: through io.ReaderAt where the backing file has it, else by seeking.\<close>

definition ctx_ReadAt :: "'s crypt_fun \<Rightarrow> 's ctx \<Rightarrow> nat \<Rightarrow> int \<Rightarrow> 's ctx \<times> bytes \<times> io_error option" where
  "ctx_ReadAt dec c len off =
    (let (f', d, err) =
       (if fat (storeFileIo c) then (storeFileIo c, os_read_at (storeFileIo c) len off)
        else (case os_seek (storeFileIo c) off SeekStart of (f1, _, Some e) \<Rightarrow> (f1, [], Some e)
              | (f1, _, None) \<Rightarrow> os_read len f1))
     in if d = [] then (c\<lparr>storeFileIo := f'\<rparr>, [], err)
        else let (s', d', derr) = dec (cipherState c) d off in
          (c\<lparr>storeFileIo := f', cipherState := s'\<rparr>,
           (case derr of Some _ \<Rightarrow> [] | None \<Rightarrow> d'),
           (case derr of Some e \<Rightarrow> Some e | None \<Rightarrow> err)))"

definition ctx_WriteAt :: "'s crypt_fun \<Rightarrow> 's ctx \<Rightarrow> bytes \<Rightarrow> int \<Rightarrow> 's ctx \<times> nat \<times> io_error option" where
  "ctx_WriteAt enc c p off =
    (case ctx_ensure_append_gap enc c off of (c1, Some e) \<Rightarrow> (c1, 0, Some e)
     | (c1, None) \<Rightarrow>
       let (s', f2, n, err) =
         (if fat (storeFileIo c1)
          then EncryptAndWriteAtInChunks os_write_at enc (cipherState c1) (storeFileIo c1) p off
          else (case os_seek (storeFileIo c1) off SeekStart of
                  (f1, _, Some e) \<Rightarrow> (cipherState c1, f1, 0, Some e)
                | (f1, _, None) \<Rightarrow> EncryptAndWriteInChunks os_write enc (cipherState c1) f1 p off));
           c2 = c1\<lparr>storeFileIo := f2, cipherState := s'\<rparr>;
           newEnd = off + int n
       in (if n > 0 \<and> csize c2 < newEnd then c2\<lparr>csize := newEnd\<rparr> else c2, n, err))"

subsection \<open>The contract: a plain file with a position\<close>

record plainfile =
  pcontent :: bytes
  ppos :: int

text \<open>\<open>limit\<close> is the size the device lets the file reach.\<close>

definition plain_fits :: "nat \<Rightarrow> plainfile \<Rightarrow> nat \<Rightarrow> nat \<Rightarrow> nat" where
  "plain_fits limit f off n = min n (max limit (length (pcontent f)) - off)"

definition plain_Write :: "nat \<Rightarrow> plainfile \<Rightarrow> bytes \<Rightarrow> plainfile \<times> nat \<times> io_error option" where
  "plain_Write limit f d =
    (let n = plain_fits limit f (nat (ppos f)) (length d) in
     (f\<lparr>pcontent := overwrite (pcontent f) (nat (ppos f)) (take n d), ppos := ppos f + int n\<rparr>,
      n, if n < length d then Some ENOSPC else None))"

definition plain_WriteAt :: "nat \<Rightarrow> plainfile \<Rightarrow> bytes \<Rightarrow> int \<Rightarrow> plainfile \<times> nat \<times> io_error option" where
  "plain_WriteAt limit f d off =
    (let n = plain_fits limit f (nat off) (length d) in
     (f\<lparr>pcontent := overwrite (pcontent f) (nat off) (take n d)\<rparr>,
      n, if n < length d then Some ENOSPC else None))"

definition plain_Read :: "plainfile \<Rightarrow> nat \<Rightarrow> plainfile \<times> bytes \<times> io_error option" where
  "plain_Read f len =
    (let d = take len (drop (nat (ppos f)) (pcontent f)) in
     (f\<lparr>ppos := ppos f + int (length d)\<rparr>, d, if d = [] \<and> 0 < len then Some EOF else None))"

definition plain_ReadAt :: "plainfile \<Rightarrow> nat \<Rightarrow> int \<Rightarrow> bytes \<times> io_error option" where
  "plain_ReadAt f len off =
    (let d = take len (drop (nat off) (pcontent f)) in
     (d, if length d < len then Some EOF else None))"

text \<open>A target that does not fit into 64 bits is negative (\<open>to_int64_sum\<close>) and is refused.\<close>

definition plain_Seek :: "plainfile \<Rightarrow> int \<Rightarrow> whence \<Rightarrow> plainfile \<times> int \<times> io_error option" where
  "plain_Seek f off w =
    (let target = (case w of SeekStart \<Rightarrow> off | SeekCurrent \<Rightarrow> to_int64 (ppos f + off)
                    | SeekEnd \<Rightarrow> to_int64 (int (length (pcontent f)) + off) | SeekOther \<Rightarrow> - 1)
     in if target < 0 then (f, 0, Some ErrUnexpectedEOF) else (f\<lparr>ppos := target\<rparr>, target, None))"

definition plain_Truncate :: "plainfile \<Rightarrow> int \<Rightarrow> plainfile \<times> io_error option" where
  "plain_Truncate f n =
    (if n < 0 then (f, Some EINVAL)
     else (f\<lparr>pcontent := take (nat n) (pcontent f) @ replicate (nat n - length (pcontent f)) 0,
             ppos := min (ppos f) n\<rparr>, None))"

end
