(* ===== verification/ContextRefinement.thy ===== *)
theory ContextRefinement
  imports CryptorContext
begin

text \<open>
  Every method of a cryptor context does on the encrypted backing file what the plain file of
  CryptorContext.thy does, for any pair of encryption and decryption functions that satisfy
  the key-stream contract. The abstraction \<open>ctx_plain\<close> decrypts the whole backing file;
  \<open>ctx_ok\<close> is the invariant of an open context: the recorded size is the size on disk.
\<close>

locale data_cipher = keystream_cipher enc ks cinv lim
  for enc :: "'s crypt_fun" and ks :: "nat \<Rightarrow> byte" and cinv :: "'s \<Rightarrow> bool" and lim :: int +
  fixes dec :: "'s crypt_fun"
  assumes dec_xor:
    "cinv s \<Longrightarrow> 0 \<le> p \<Longrightarrow> p + int (length d) \<le> lim \<Longrightarrow>
      \<exists>s'. dec s d p = (s', xor_at ks (nat p) d, None) \<and> cinv s'"

definition ctx_plain :: "(nat \<Rightarrow> byte) \<Rightarrow> 's ctx \<Rightarrow> plainfile" where
  "ctx_plain ks c = \<lparr>pcontent = xor_at ks 0 (fdata (storeFileIo c)), ppos = cpos c\<rparr>"

definition ctx_ok :: "('s \<Rightarrow> bool) \<Rightarrow> int \<Rightarrow> 's ctx \<Rightarrow> bool" where
  "ctx_ok cinv lim c \<longleftrightarrow> rw_file (storeFileIo c) \<and> cinv (cipherState c) \<and>
     csize c = int (length (fdata (storeFileIo c))) \<and> 0 \<le> cpos c \<and> csize c \<le> lim"

definition ctx_synced :: "'s ctx \<Rightarrow> bool" where
  "ctx_synced c \<longleftrightarrow> foff (storeFileIo c) = cpos c"

definition ctx_room :: "'s ctx \<Rightarrow> nat" where
  "ctx_room c = froom (storeFileIo c)"

lemma ctx_plain_sel [simp]:
  "pcontent (ctx_plain ks c) = xor_at ks 0 (fdata (storeFileIo c))" "ppos (ctx_plain ks c) = cpos c"
  by (simp_all add: ctx_plain_def)

lemma ctx_okD:
  assumes "ctx_ok cinv lim c"
  shows "rw_file (storeFileIo c)" "cinv (cipherState c)" "fopen (storeFileIo c)"
    "csize c = int (length (fdata (storeFileIo c)))" "0 \<le> cpos c" "csize c \<le> lim"
  using assms by (auto simp: ctx_ok_def rw_file_def)

text \<open>A freshly opened context satisfies the invariant, at position 0 and in step.\<close>

lemma ctx_new_ok:
  assumes "rw_file f" "cinv s" "int (length (fdata f)) \<le> lim"
  shows "\<exists>c. ctx_new s f = Inr c \<and> ctx_ok cinv lim c \<and> ctx_synced c \<and> ctx_room c = froom f \<and>
    ctx_plain ks c = \<lparr>pcontent = xor_at ks 0 (fdata f), ppos = 0\<rparr> \<and> cipherState c = s \<and>
    fat (storeFileIo c) = fat f"
  using assms
  by (simp add: ctx_new_def os_seek_def rw_file_def ctx_ok_def ctx_synced_def ctx_room_def ctx_plain_def
      Let_def)

subsection \<open>Gap filling\<close>

lemma write_ready_seq:
  "rw_file f \<Longrightarrow> 0 \<le> p \<Longrightarrow> nat p \<le> length (fdata f) \<Longrightarrow> write_ready True (f\<lparr>foff := p\<rparr>) p"
  by (simp add: write_ready_def)

context data_cipher
begin

lemma gap_filled:
  assumes ok: "ctx_ok cinv lim c" and beyond: "csize c < t" "t \<le> lim" "nat t \<le> ctx_room c"
  shows "\<exists>s'. ctx_ensure_append_gap enc c t =
    (c\<lparr>storeFileIo := (storeFileIo c)\<lparr>fdata := fdata (storeFileIo c) @
          xor_at ks (nat (csize c)) (replicate (nat t - nat (csize c)) 0), foff := t\<rparr>,
       cipherState := s', csize := t\<rparr>, None) \<and> cinv s'"
proof -
  let ?f = "storeFileIo c" and ?gap = "t - csize c"
  let ?f1 = "?f\<lparr>foff := csize c\<rparr>"
  let ?x = "xor_at ks (nat (csize c)) (replicate (nat ?gap) 0)"
  note d = ctx_okD [OF ok]
  have ready: "write_ready True ?f1 (csize c)"
    using d by (intro write_ready_seq) auto
  have gap: "nat (csize c) + nat ?gap = nat t"
    using d(4) beyond by linarith
  with beyond d have "nat (csize c) + nat ?gap \<le> max (froom ?f1) (length (fdata ?f1))"
    by (simp add: ctx_room_def)
  then obtain s' where s': "cinv s'"
    "fill_gap_loop os_write (\<lambda>s d q. enc s d q) (cipherState c) ?f1 (csize c) ?gap =
      (s', stored True ?f1 (csize c) ?x, None)"
    using fill_gap_loop_stored [OF d(2) ready, of ?gap] beyond by auto
  have fits: "os_fits ?f1 (nat (csize c)) (length ?x) = length ?x"
    using beyond gap by (intro os_fits_all) (simp add: ctx_room_def)
  have "stored True ?f1 (csize c) ?x = ?f\<lparr>fdata := fdata ?f @ ?x, foff := t\<rparr>"
    using stored_all [OF fits] d(4) beyond by (simp add: advance_def overwrite_at_end)
  moreover have "nat ?gap = nat t - nat (csize c)"
    using beyond d by simp
  ultimately show ?thesis
    using s' beyond d
    by (auto simp: ctx_ensure_append_gap_def FillGap_def os_seek_start)
qed

lemma gap_spec:
  assumes ok: "ctx_ok cinv lim c" and t: "0 \<le> t" "t \<le> lim"
    and room: "nat t \<le> max (ctx_room c) (nat (csize c))"
  shows "\<exists>c'. ctx_ensure_append_gap enc c t = (c', None) \<and> ctx_ok cinv lim c' \<and>
    csize c' = max (csize c) t \<and> cpos c' = cpos c \<and> ctx_room c' = ctx_room c \<and>
    fat (storeFileIo c') = fat (storeFileIo c) \<and>
    pcontent (ctx_plain ks c') = pcontent (ctx_plain ks c) @
      replicate (nat t - length (pcontent (ctx_plain ks c))) 0 \<and>
    (t \<le> csize c \<longrightarrow> c' = c)"
proof (cases "t \<le> csize c")
  case True
  with ok t show ?thesis
    by (auto simp: ctx_ensure_append_gap_def ctx_ok_def)
next
  case False
  with room have "nat t \<le> ctx_room c" by auto
  with gap_filled [OF ok _ t(2)] False obtain s' where
    "ctx_ensure_append_gap enc c t =
    (c\<lparr>storeFileIo := (storeFileIo c)\<lparr>fdata := fdata (storeFileIo c) @
          xor_at ks (nat (csize c)) (replicate (nat t - nat (csize c)) 0), foff := t\<rparr>,
       cipherState := s', csize := t\<rparr>, None)" "cinv s'"
    by auto
  with False ok t ctx_okD [OF ok] show ?thesis
    by (auto simp: ctx_ok_def ctx_room_def xor_at_append)
qed

end

subsection \<open>Writing\<close>

text \<open>What the abstraction sees of an encrypted prefix stored inside the file.\<close>

lemma stored_plain:
  assumes "write_ready sequential f p"
  shows "xor_at ks 0 (fdata (stored sequential f p (xor_at ks (nat p) d))) =
      overwrite (xor_at ks 0 (fdata f)) (nat p) (take (os_fits f (nat p) (length d)) d)"
    and "length (fdata (stored sequential f p (xor_at ks (nat p) d))) =
      max (length (fdata f)) (nat p + os_fits f (nat p) (length d))"
    and "rw_file (stored sequential f p x)" "froom (stored sequential f p x) = froom f"
    and "fat (stored sequential f p x) = fat f"
    and "sequential \<Longrightarrow> foff (stored sequential f p x) = p + int (os_fits f (nat p) (length x))"
    and "\<not> sequential \<Longrightarrow> foff (stored sequential f p x) = foff f"
  using assms os_fits_le [of f "nat p" "length d"]
  by (auto simp: stored_def advance_def Let_def xor_at_overwrite take_xor_at write_ready_def min_absorb2)

lemma plain_fits_ctx:
  assumes "ctx_ok cinv lim c"
  shows "plain_fits (ctx_room c) (ctx_plain ks c) off n = os_fits (storeFileIo c) off n"
  by (simp add: plain_fits_def os_fits_def ctx_room_def)

lemma writer_True: "writer True = (\<lambda>w d _. os_write w d)"
  by (auto simp: writer_def fun_eq_iff)

lemma writer_False: "writer False = os_write_at"
  by (auto simp: writer_def fun_eq_iff)

context data_cipher
begin

text \<open>The two chunked writers on a file that reaches up to the position.\<close>

lemma EncryptAndWriteInChunks_stored:
  assumes "cinv s" "write_ready True f p" "p + int (length d) \<le> lim"
  shows "\<exists>s'. EncryptAndWriteInChunks os_write enc s f d p =
    (s', stored True f p (xor_at ks (nat p) d), os_fits f (nat p) (length d),
     short_write f p (length d)) \<and> cinv s'"
proof (cases "d = []")
  case True
  with assms show ?thesis
    by (auto simp: EncryptAndWriteInChunks_def stored_def os_fits_def short_write_def advance_def
        write_ready_def)
next
  case False
  with encrypt_write_loop_stored [OF assms, of 0] show ?thesis
    by (simp add: EncryptAndWriteInChunks_def writer_True)
qed

lemma EncryptAndWriteAtInChunks_stored:
  assumes "cinv s" "write_ready False f p" "p + int (length d) \<le> lim"
  shows "\<exists>s'. EncryptAndWriteAtInChunks os_write_at enc s f d p =
    (s', stored False f p (xor_at ks (nat p) d), os_fits f (nat p) (length d),
     short_write f p (length d)) \<and> cinv s'"
proof (cases "d = []")
  case True
  with assms show ?thesis
    by (auto simp: EncryptAndWriteAtInChunks_def stored_def os_fits_def short_write_def advance_def
        write_ready_def)
next
  case False
  with encrypt_write_loop_stored [OF assms, of 0] show ?thesis
    by (simp add: EncryptAndWriteAtInChunks_def writer_False)
qed

text \<open>
  The state in which the bytes are stored: the gap up to the target is filled, the file
  reaches the target, and what will be overwritten and what fits are the same as before.
\<close>

lemma gap_ready:
  assumes ok: "ctx_ok cinv lim c" and t: "0 \<le> t" "t \<le> lim"
    and room: "nat t \<le> max (ctx_room c) (nat (csize c))"
  obtains c1 where "ctx_ensure_append_gap enc c t = (c1, None)" "ctx_ok cinv lim c1"
    "csize c1 = max (csize c) t" "cpos c1 = cpos c" "ctx_room c1 = ctx_room c"
    "fat (storeFileIo c1) = fat (storeFileIo c)" "nat t \<le> length (fdata (storeFileIo c1))"
    "\<And>e. overwrite (xor_at ks 0 (fdata (storeFileIo c1))) (nat t) e =
      overwrite (pcontent (ctx_plain ks c)) (nat t) e"
    "\<And>m. os_fits (storeFileIo c1) (nat t) m = plain_fits (ctx_room c) (ctx_plain ks c) (nat t) m"
proof -
  from gap_spec [OF ok t room] obtain c1 where
    gap: "ctx_ensure_append_gap enc c t = (c1, None)" and ok1: "ctx_ok cinv lim c1"
    and size1: "csize c1 = max (csize c) t" and pos1: "cpos c1 = cpos c"
    and room1: "ctx_room c1 = ctx_room c" and fat1: "fat (storeFileIo c1) = fat (storeFileIo c)"
    and plain1: "pcontent (ctx_plain ks c1) = pcontent (ctx_plain ks c) @
      replicate (nat t - length (pcontent (ctx_plain ks c))) 0"
    by auto
  have len1: "length (fdata (storeFileIo c1)) = max (length (fdata (storeFileIo c))) (nat t)"
    using ctx_okD(4) [OF ok1] size1 ctx_okD(4) [OF ok] t by simp
  have pad: "overwrite (xor_at ks 0 (fdata (storeFileIo c1))) (nat t) e =
      overwrite (pcontent (ctx_plain ks c)) (nat t) e" for e
    using plain1 overwrite_pad [of "pcontent (ctx_plain ks c)" "nat t" e]
    by (cases "length (pcontent (ctx_plain ks c)) \<le> nat t") simp_all
  have "os_fits (storeFileIo c1) (nat t) m = plain_fits (ctx_room c) (ctx_plain ks c) (nat t) m" for m
    using len1 room room1 ctx_okD(4) [OF ok]
    by (auto simp: plain_fits_def os_fits_def ctx_room_def max_def)
  with gap ok1 size1 pos1 room1 fat1 len1 pad that show ?thesis
    by simp
qed

text \<open>Committing a stored prefix and the new size keeps the invariant.\<close>

lemma ctx_ok_commit:
  assumes "ctx_ok cinv lim c1" "write_ready sequential f p" "fdata f = fdata (storeFileIo c1)"
    and "cinv s'" "p + int (length d) \<le> lim" "0 \<le> q"
  shows "ctx_ok cinv lim (c1\<lparr>storeFileIo := stored sequential f p (xor_at ks (nat p) d),
    cipherState := s', cpos := q, csize := max (csize c1) (p + int (os_fits f (nat p) (length d)))\<rparr>)"
  using assms stored_plain(2) [OF assms(2), of ks d] stored_plain(3) [OF assms(2)] ctx_okD [OF assms(1)]
    os_fits_le [of f "nat p" "length d"]
  by (auto simp: ctx_ok_def write_ready_def of_nat_max)

text \<open>\<^verbatim>\<open>Write\<close> refines the plain write, with the space that is left; afterwards the backing
  file's offset agrees with the position again.\<close>

lemma Write_refines:
  assumes ok: "ctx_ok cinv lim c" and fits: "cpos c + int (length d) \<le> lim"
    and room: "nat (cpos c) \<le> max (ctx_room c) (nat (csize c))"
  shows "\<exists>c' n err. ctx_Write enc c d = (c', n, err) \<and>
    plain_Write (ctx_room c) (ctx_plain ks c) d = (ctx_plain ks c', n, err) \<and>
    ctx_ok cinv lim c' \<and> ctx_synced c' \<and> ctx_room c' = ctx_room c \<and>
    fat (storeFileIo c') = fat (storeFileIo c)"
proof -
  let ?p = "cpos c"
  have "0 \<le> ?p" "?p \<le> lim"
    using ctx_okD(5) [OF ok] fits by auto
  from gap_ready [OF ok this room] obtain c1 where
    gap: "ctx_ensure_append_gap enc c ?p = (c1, None)" "ctx_ok cinv lim c1"
      "csize c1 = max (csize c) ?p" "cpos c1 = ?p" "ctx_room c1 = ctx_room c"
      "fat (storeFileIo c1) = fat (storeFileIo c)" "nat ?p \<le> length (fdata (storeFileIo c1))"
    and pad: "\<And>e. overwrite (xor_at ks 0 (fdata (storeFileIo c1))) (nat ?p) e =
      overwrite (pcontent (ctx_plain ks c)) (nat ?p) e"
    and n: "\<And>m. os_fits (storeFileIo c1) (nat ?p) m = plain_fits (ctx_room c) (ctx_plain ks c) (nat ?p) m"
    by metis
  note d1 = ctx_okD [OF gap(2)]
  define f1 where "f1 = (storeFileIo c1)\<lparr>foff := ?p\<rparr>"
  define n' where "n' = os_fits f1 (nat ?p) (length d)"
  have ready: "write_ready True f1 ?p"
    unfolding f1_def using d1 gap(4,7) by (intro write_ready_seq) auto
  note st = stored_plain [OF ready]
  from EncryptAndWriteInChunks_stored [OF d1(2) ready fits] obtain s' where s': "cinv s'"
    "EncryptAndWriteInChunks os_write enc (cipherState c1) f1 d ?p =
      (s', stored True f1 ?p (xor_at ks (nat ?p) d), n', short_write f1 ?p (length d))"
    by (auto simp: n'_def)
  define c3 where "c3 = c1\<lparr>storeFileIo := stored True f1 ?p (xor_at ks (nat ?p) d),
     cipherState := s', cpos := ?p + int n', csize := max (csize c1) (?p + int n')\<rparr>"
  have "ctx_Write enc c d = (c3, n', short_write f1 ?p (length d))"
    using gap s' d1(3,5)
    by (auto simp: ctx_Write_def f1_def [symmetric] os_seek_start c3_def Let_def max_def
        intro!: ctx.equality)
  moreover have "ctx_ok cinv lim c3"
    using ctx_ok_commit [OF gap(2) ready _ s'(1) fits, of "?p + int n'"] ctx_okD(5) [OF ok]
    by (simp add: c3_def n'_def f1_def)
  moreover have "plain_Write (ctx_room c) (ctx_plain ks c) d =
      (ctx_plain ks c3, n', short_write f1 ?p (length d))"
    using st(1) [of ks d] pad n
    by (simp add: plain_Write_def c3_def ctx_plain_def short_write_def n'_def f1_def Let_def)
  moreover have "ctx_synced c3" "ctx_room c3 = ctx_room c" "fat (storeFileIo c3) = fat (storeFileIo c)"
    using st(4,5,6) gap(5,6) by (simp_all add: ctx_synced_def ctx_room_def c3_def n'_def f1_def)
  ultimately show ?thesis
    by blast
qed

text \<open>\<^verbatim>\<open>WriteAt\<close>, through io.WriterAt or by seeking, refines the plain positioned write.\<close>

lemma WriteAt_refines:
  assumes ok: "ctx_ok cinv lim c" and off: "0 \<le> off" "off + int (length d) \<le> lim"
    and room: "nat off \<le> max (ctx_room c) (nat (csize c))"
  shows "\<exists>c' n err. ctx_WriteAt enc c d off = (c', n, err) \<and>
    plain_WriteAt (ctx_room c) (ctx_plain ks c) d off = (ctx_plain ks c', n, err) \<and>
    ctx_ok cinv lim c' \<and> ctx_room c' = ctx_room c \<and> cpos c' = cpos c \<and>
    fat (storeFileIo c') = fat (storeFileIo c) \<and>
    (fat (storeFileIo c) \<and> off \<le> csize c \<longrightarrow> foff (storeFileIo c') = foff (storeFileIo c))"
proof -
  have "off \<le> lim"
    using off by simp
  from gap_ready [OF ok off(1) this room] obtain c1 where
    gap: "ctx_ensure_append_gap enc c off = (c1, None)" "ctx_ok cinv lim c1"
      "csize c1 = max (csize c) off" "cpos c1 = cpos c" "ctx_room c1 = ctx_room c"
      "fat (storeFileIo c1) = fat (storeFileIo c)" "nat off \<le> length (fdata (storeFileIo c1))"
    and pad: "\<And>e. overwrite (xor_at ks 0 (fdata (storeFileIo c1))) (nat off) e =
      overwrite (pcontent (ctx_plain ks c)) (nat off) e"
    and n: "\<And>m. os_fits (storeFileIo c1) (nat off) m = plain_fits (ctx_room c) (ctx_plain ks c) (nat off) m"
    by metis
  note d1 = ctx_okD [OF gap(2)]
  define seq where "seq = (\<not> fat (storeFileIo c))"
  define f1 where "f1 = (if seq then (storeFileIo c1)\<lparr>foff := off\<rparr> else storeFileIo c1)"
  define n' where "n' = os_fits f1 (nat off) (length d)"
  have f1: "fdata f1 = fdata (storeFileIo c1)" "froom f1 = froom (storeFileIo c1)"
      "os_fits f1 = os_fits (storeFileIo c1)"
    by (auto simp: f1_def fun_eq_iff)
  have ready: "write_ready seq f1 off"
    using d1 gap(7) off by (auto simp: f1_def write_ready_def)
  note st = stored_plain [OF ready]
  obtain s' where s': "cinv s'"
    "(if fat (storeFileIo c1)
      then EncryptAndWriteAtInChunks os_write_at enc (cipherState c1) (storeFileIo c1) d off
      else (case os_seek (storeFileIo c1) off SeekStart of
              (f1, _, Some e) \<Rightarrow> (cipherState c1, f1, 0, Some e)
            | (f1, _, None) \<Rightarrow> EncryptAndWriteInChunks os_write enc (cipherState c1) f1 d off)) =
      (s', stored seq f1 off (xor_at ks (nat off) d), n', short_write f1 off (length d))"
    using EncryptAndWriteAtInChunks_stored [OF d1(2), of f1 off d]
      EncryptAndWriteInChunks_stored [OF d1(2), of f1 off d] ready gap(6) off d1(3)
    by (auto simp: seq_def f1_def n'_def os_seek_start)
  define c3 where "c3 = c1\<lparr>storeFileIo := stored seq f1 off (xor_at ks (nat off) d),
     cipherState := s', cpos := cpos c, csize := max (csize c1) (off + int n')\<rparr>"
  have "ctx_WriteAt enc c d off = (c3, n', short_write f1 off (length d))"
    unfolding ctx_WriteAt_def gap(1) option.case prod.case s'(2) Let_def
    using gap(3,4) off by (auto simp: c3_def max_def intro!: ctx.equality)
  moreover have "ctx_ok cinv lim c3"
    using ctx_ok_commit [OF gap(2) ready f1(1) s'(1) off(2), of "cpos c"] ctx_okD(5) [OF ok]
    by (simp add: c3_def n'_def)
  moreover have "plain_WriteAt (ctx_room c) (ctx_plain ks c) d off =
      (ctx_plain ks c3, n', short_write f1 off (length d))"
    using st(1) [of ks d] pad n f1
    by (simp add: plain_WriteAt_def c3_def ctx_plain_def short_write_def n'_def Let_def)
  moreover have "ctx_room c3 = ctx_room c" "cpos c3 = cpos c"
    "fat (storeFileIo c3) = fat (storeFileIo c)"
    using st(4,5) gap(5,6) f1 by (simp_all add: ctx_room_def c3_def f1_def)
  moreover have "foff (storeFileIo c3) = foff (storeFileIo c)"
    if "fat (storeFileIo c)" "off \<le> csize c"
    using st(7) that gap(1) by (simp add: c3_def seq_def f1_def ctx_ensure_append_gap_def)
  ultimately show ?thesis
    by blast
qed

end

subsection \<open>Reading, seeking, truncating\<close>

lemma slice_end: "take n (drop off xs) \<noteq> [] \<Longrightarrow> off + length (take n (drop off xs)) \<le> length xs"
  by auto

context data_cipher
begin

lemma dec_slice:
  assumes "ctx_ok cinv lim c" "0 \<le> off"
    and "d = take len (drop (nat off) (fdata (storeFileIo c)))" "d \<noteq> []"
  shows "\<exists>s'. dec (cipherState c) d off =
    (s', take len (drop (nat off) (pcontent (ctx_plain ks c))), None) \<and> cinv s'"
proof -
  have "nat off + length d \<le> length (fdata (storeFileIo c))"
    using slice_end assms(3,4) by blast
  with assms(2) ctx_okD(4,6) [OF assms(1)] have "off + int (length d) \<le> lim"
    by linarith
  from dec_xor [OF ctx_okD(2) [OF assms(1)] assms(2) this] assms(3) show ?thesis
    by (simp add: take_xor_at drop_xor_at)
qed

text \<open>\<^verbatim>\<open>Read\<close> refines the plain read whenever the backing file's offset agrees with the
  position the context remembers.\<close>

lemma Read_refines:
  assumes ok: "ctx_ok cinv lim c" and sync: "ctx_synced c"
  shows "\<exists>c' d err. ctx_Read dec c len = (c', d, err) \<and>
    plain_Read (ctx_plain ks c) len = (ctx_plain ks c', d, err) \<and>
    ctx_ok cinv lim c' \<and> ctx_synced c' \<and> ctx_room c' = ctx_room c \<and>
    fat (storeFileIo c') = fat (storeFileIo c)"
proof (cases "len = 0")
  case True
  then show ?thesis
    using ok sync
    by (auto simp: ctx_Read_def os_read_def plain_Read_def ctx_ok_def rw_file_def ctx_plain_def
        ctx_synced_def ctx_room_def)
next
  case False
  note d = ctx_okD [OF ok]
  define b where "b = take len (drop (nat (cpos c)) (fdata (storeFileIo c)))"
  have read: "os_read len (storeFileIo c) =
      ((storeFileIo c)\<lparr>foff := cpos c + int (length b)\<rparr>, b, if b = [] then Some EOF else None)"
    using False sync d by (simp add: os_read_def rw_file_def b_def ctx_synced_def Let_def)
  show ?thesis
  proof (cases "b = []")
    case True
    then show ?thesis
      using False ok read
      by (auto simp: ctx_Read_def plain_Read_def ctx_ok_def ctx_plain_def ctx_synced_def
          ctx_room_def b_def)
  next
    case nonempty: False
    from dec_slice [OF ok d(5) b_def nonempty] obtain s' where
      "dec (cipherState c) b (cpos c) =
        (s', take len (drop (nat (cpos c)) (pcontent (ctx_plain ks c))), None)" "cinv s'"
      by blast
    with nonempty False ok read show ?thesis
      by (auto simp: ctx_Read_def plain_Read_def ctx_ok_def ctx_plain_def ctx_synced_def
          ctx_room_def b_def take_xor_at drop_xor_at Let_def)
  qed
qed

text \<open>The reseeking \<^verbatim>\<open>Read\<close> needs no agreement.\<close>

lemma ReadReseek_refines:
  assumes ok: "ctx_ok cinv lim c"
  shows "\<exists>c' d err. ctx_ReadReseek dec c len = (c', d, err) \<and>
    plain_Read (ctx_plain ks c) len = (ctx_plain ks c', d, err) \<and>
    ctx_ok cinv lim c' \<and> ctx_synced c' \<and> ctx_room c' = ctx_room c \<and>
    fat (storeFileIo c') = fat (storeFileIo c)"
proof -
  let ?c = "c\<lparr>storeFileIo := (storeFileIo c)\<lparr>foff := cpos c\<rparr>\<rparr>"
  have "ctx_ok cinv lim ?c" "ctx_synced ?c"
    using ok by (auto simp: ctx_ok_def ctx_synced_def)
  from Read_refines [OF this, of len] ctx_okD(3,5) [OF ok] show ?thesis
    by (simp add: ctx_ReadReseek_def os_seek_start ctx_plain_def ctx_room_def)
qed

text \<open>\<^verbatim>\<open>ReadAt\<close> through io.ReaderAt refines the plain positioned read, whatever the offset
  of the backing file, and leaves that offset alone.\<close>

lemma ReadAt_refines:
  assumes ok: "ctx_ok cinv lim c" and fat: "fat (storeFileIo c)" and off: "0 \<le> off"
  shows "\<exists>c' d err. ctx_ReadAt dec c len off = (c', d, err) \<and>
    plain_ReadAt (ctx_plain ks c) len off = (d, err) \<and> ctx_plain ks c' = ctx_plain ks c \<and>
    ctx_ok cinv lim c' \<and> storeFileIo c' = storeFileIo c"
proof -
  note d = ctx_okD [OF ok]
  define b where "b = take len (drop (nat off) (fdata (storeFileIo c)))"
  have read: "os_read_at (storeFileIo c) len off = (b, if length b < len then Some EOF else None)"
    using os_read_at_rw [OF d(1) off, of len] by (simp add: b_def)
  show ?thesis
  proof (cases "b = []")
    case True
    then show ?thesis
      using ok read fat
      by (auto simp: ctx_ReadAt_def plain_ReadAt_def ctx_ok_def ctx_plain_def b_def)
  next
    case nonempty: False
    from dec_slice [OF ok off b_def nonempty] obtain s' where
      "dec (cipherState c) b off =
        (s', take len (drop (nat off) (pcontent (ctx_plain ks c))), None)" "cinv s'"
      by blast
    with nonempty ok read fat show ?thesis
      by (auto simp: ctx_ReadAt_def plain_ReadAt_def ctx_ok_def ctx_plain_def b_def Let_def)
  qed
qed

lemma Seek_refines:
  assumes ok: "ctx_ok cinv lim c"
  shows "\<exists>c' p err. ctx_Seek c off w = (c', p, err) \<and>
    plain_Seek (ctx_plain ks c) off w = (ctx_plain ks c', p, err) \<and>
    ctx_ok cinv lim c' \<and> ctx_room c' = ctx_room c \<and> fat (storeFileIo c') = fat (storeFileIo c) \<and>
    (err = None \<longrightarrow> ctx_synced c') \<and> (err \<noteq> None \<longrightarrow> c' = c)"
  using ok ctx_okD(3,4) [OF ok]
  by (cases w) (auto simp: ctx_Seek_def plain_Seek_def os_seek_start ctx_ok_def ctx_plain_def
      ctx_synced_def ctx_room_def Let_def)

text \<open>\<^verbatim>\<open>Truncate\<close> grows by encrypted zero bytes and shrinks on disk.\<close>

lemma Truncate_refines:
  assumes ok: "ctx_ok cinv lim c" and n: "n \<le> lim"
    and room: "nat n \<le> max (ctx_room c) (nat (csize c))"
  shows "\<exists>c' err. ctx_Truncate enc c n = (c', err) \<and>
    plain_Truncate (ctx_plain ks c) n = (ctx_plain ks c', err) \<and>
    ctx_ok cinv lim c' \<and> ctx_room c' = ctx_room c \<and> fat (storeFileIo c') = fat (storeFileIo c) \<and>
    (n \<le> csize c \<and> cpos c \<le> n \<longrightarrow>
      foff (storeFileIo c') = foff (storeFileIo c) \<and> cpos c' = cpos c)"
proof (cases "csize c < n")
  case True
  then have "0 \<le> n"
    using ctx_okD(4) [OF ok] by simp
  from gap_spec [OF ok this n room] obtain c1 where
    "ctx_ensure_append_gap enc c n = (c1, None)" "ctx_ok cinv lim c1" "csize c1 = max (csize c) n"
    "cpos c1 = cpos c" "ctx_room c1 = ctx_room c" "fat (storeFileIo c1) = fat (storeFileIo c)"
    "pcontent (ctx_plain ks c1) = pcontent (ctx_plain ks c) @
      replicate (nat n - length (pcontent (ctx_plain ks c))) 0"
    by blast
  with True ok ctx_okD(4) [OF ok] show ?thesis
    by (auto simp: ctx_Truncate_def plain_Truncate_def ctx_ok_def ctx_plain_def ctx_room_def min_def)
next
  case False
  with ok ctx_okD [OF ok] show ?thesis
    by (auto simp: ctx_Truncate_def plain_Truncate_def ctx_ok_def ctx_plain_def ctx_room_def
        os_truncate_def rw_file_def take_xor_at Let_def min_def)
qed

end

end
