(* ===== verification/ContextRuns.thy ===== *)
theory ContextRuns
  imports ContextRefinement
begin

text \<open>
  Sequences of operations on an open file: the interface of a cryptor context as one step
  function, the same interface on the plain file, and the simulation between their runs. The
  flag \<open>reseek\<close> selects the \<^verbatim>\<open>Read\<close> method of the algorithm: AES-XTS seeks first, the
  others read from wherever the backing file stands.
\<close>

datatype file_op =
    FRead nat
  | FWrite bytes
  | FSeek int whence
  | FReadAt nat int
  | FWriteAt bytes int
  | FTruncate int
  | FSync

datatype file_out =
    OutBytes bytes "io_error option"
  | OutCount nat "io_error option"
  | OutPos int "io_error option"
  | OutErr "io_error option"

fun ctx_step :: "bool \<Rightarrow> 's crypt_fun \<Rightarrow> 's crypt_fun \<Rightarrow> 's ctx \<Rightarrow> file_op \<Rightarrow> 's ctx \<times> file_out" where
  "ctx_step reseek enc dec c (FRead n) =
    (let (c', d, e) = (if reseek then ctx_ReadReseek dec c n else ctx_Read dec c n) in (c', OutBytes d e))"
| "ctx_step reseek enc dec c (FWrite d) = (let (c', n, e) = ctx_Write enc c d in (c', OutCount n e))"
| "ctx_step reseek enc dec c (FSeek p w) = (let (c', q, e) = ctx_Seek c p w in (c', OutPos q e))"
| "ctx_step reseek enc dec c (FReadAt n p) = (let (c', d, e) = ctx_ReadAt dec c n p in (c', OutBytes d e))"
| "ctx_step reseek enc dec c (FWriteAt d p) = (let (c', n, e) = ctx_WriteAt enc c d p in (c', OutCount n e))"
| "ctx_step reseek enc dec c (FTruncate p) = (let (c', e) = ctx_Truncate enc c p in (c', OutErr e))"
| "ctx_step reseek enc dec c FSync = (c, OutErr (ctx_Sync c))"

fun plain_step :: "nat \<Rightarrow> plainfile \<Rightarrow> file_op \<Rightarrow> plainfile \<times> file_out" where
  "plain_step limit f (FRead n) = (let (f', d, e) = plain_Read f n in (f', OutBytes d e))"
| "plain_step limit f (FWrite d) = (let (f', n, e) = plain_Write limit f d in (f', OutCount n e))"
| "plain_step limit f (FSeek p w) = (let (f', q, e) = plain_Seek f p w in (f', OutPos q e))"
| "plain_step limit f (FReadAt n p) = (let (d, e) = plain_ReadAt f n p in (f, OutBytes d e))"
| "plain_step limit f (FWriteAt d p) = (let (f', n, e) = plain_WriteAt limit f d p in (f', OutCount n e))"
| "plain_step limit f (FTruncate p) = (let (f', e) = plain_Truncate f p in (f', OutErr e))"
| "plain_step limit f FSync = (f, OutErr None)"

fun run_ops :: "('f \<Rightarrow> file_op \<Rightarrow> 'f \<times> file_out) \<Rightarrow> 'f \<Rightarrow> file_op list \<Rightarrow> 'f \<times> file_out list" where
  "run_ops step f [] = (f, [])"
| "run_ops step f (op # ops) =
    (let (f1, out) = step f op; (f2, outs) = run_ops step f1 ops in (f2, out # outs))"

text \<open>
  The operations a run may contain: positions are not negative, the data ends within the
  cipher's limit \<open>lim\<close>, and a gap to be filled fits on the device (\<open>limit\<close>). The data
  itself need not fit: short writes are part of the contract.
\<close>

fun op_fits :: "int \<Rightarrow> nat \<Rightarrow> plainfile \<Rightarrow> file_op \<Rightarrow> bool" where
  "op_fits lim limit f (FWrite d) =
    (ppos f + int (length d) \<le> lim \<and> nat (ppos f) \<le> max limit (length (pcontent f)))"
| "op_fits lim limit f (FWriteAt d p) =
    (0 \<le> p \<and> p + int (length d) \<le> lim \<and> nat p \<le> max limit (length (pcontent f)))"
| "op_fits lim limit f (FTruncate p) = (p \<le> lim \<and> nat p \<le> max limit (length (pcontent f)))"
| "op_fits lim limit f (FReadAt n p) = (0 \<le> p)"
| "op_fits lim limit f _ = True"

text \<open>Operations that fill no gap and do not cut the file before the position.\<close>

fun op_in_place :: "plainfile \<Rightarrow> file_op \<Rightarrow> bool" where
  "op_in_place f (FWriteAt d p) = (nat p \<le> length (pcontent f))"
| "op_in_place f (FTruncate p) = (nat p \<le> length (pcontent f) \<and> ppos f \<le> p)"
| "op_in_place f _ = True"

fun is_FRead :: "file_op \<Rightarrow> bool" where
  "is_FRead (FRead n) = True"
| "is_FRead _ = False"

fun run_all :: "(plainfile \<Rightarrow> file_op \<Rightarrow> bool) \<Rightarrow> nat \<Rightarrow> plainfile \<Rightarrow> file_op list \<Rightarrow> bool" where
  "run_all P limit f [] = True"
| "run_all P limit f (op # ops) = (P f op \<and> run_all P limit (fst (plain_step limit f op)) ops)"

subsection \<open>Simulation\<close>

text \<open>The files a secure root opens: positioned I/O is available and the invariant holds.\<close>

definition ctx_sim :: "('s \<Rightarrow> bool) \<Rightarrow> int \<Rightarrow> 's ctx \<Rightarrow> bool" where
  "ctx_sim cinv lim c \<longleftrightarrow> ctx_ok cinv lim c \<and> fat (storeFileIo c)"

lemma ctx_size_plain: "ctx_ok cinv lim c \<Longrightarrow> length (pcontent (ctx_plain ks c)) = nat (csize c)"
  by (simp add: ctx_ok_def)

text \<open>The largest file position of type int64.\<close>

definition int64_limit :: int where
  "int64_limit = 2 ^ 63 - 1"

text \<open>A file as a session finds it, and its plain view.\<close>

definition session_file :: "int \<Rightarrow> osfile \<Rightarrow> bool" where
  "session_file lim f \<longleftrightarrow> rw_file f \<and> fat f \<and> int (length (fdata f)) \<le> lim"

definition file_plain :: "(nat \<Rightarrow> byte) \<Rightarrow> osfile \<Rightarrow> plainfile" where
  "file_plain ks f = \<lparr>pcontent = xor_at ks 0 (fdata f), ppos = 0\<rparr>"

lemma new_file_session [simp]:
  "0 \<le> lim \<Longrightarrow> session_file lim (new_file room)"
  "file_plain ks (new_file room) = \<lparr>pcontent = [], ppos = 0\<rparr>"
  by (simp_all add: session_file_def file_plain_def)

context data_cipher
begin

text \<open>One step: every operation, except a sequential read that does not seek on a file whose
  offset is out of step.\<close>

lemma step_refines:
  assumes sim: "ctx_sim cinv lim c" and fits: "op_fits lim (ctx_room c) (ctx_plain ks c) op"
    and read: "reseek \<or> ctx_synced c \<or> \<not> is_FRead op"
  shows "\<exists>c' out. ctx_step reseek enc dec c op = (c', out) \<and>
    plain_step (ctx_room c) (ctx_plain ks c) op = (ctx_plain ks c', out) \<and>
    ctx_sim cinv lim c' \<and> ctx_room c' = ctx_room c"
proof -
  have ok: "ctx_ok cinv lim c" and fat: "fat (storeFileIo c)"
    using sim by (auto simp: ctx_sim_def)
  note len = ctx_size_plain [OF ok, of ks]
  show ?thesis
  proof (cases op)
    case (FRead n)
    with read fat ReadReseek_refines [OF ok, of n] Read_refines [OF ok, of n] show ?thesis
      by (cases reseek) (auto simp: ctx_sim_def)
  next
    case (FWrite d)
    with fits fat len Write_refines [OF ok, of d] show ?thesis
      by (auto simp: ctx_sim_def)
  next
    case (FSeek p w)
    with fat Seek_refines [OF ok, of p w] show ?thesis
      by (auto simp: ctx_sim_def)
  next
    case (FReadAt n p)
    with fits fat ReadAt_refines [OF ok fat, of p n] show ?thesis
      by (auto simp: ctx_sim_def ctx_room_def)
  next
    case (FWriteAt d p)
    with fits fat len WriteAt_refines [OF ok, of p d] show ?thesis
      by (auto simp: ctx_sim_def)
  next
    case (FTruncate p)
    with fits fat len Truncate_refines [OF ok, of p] show ?thesis
      by (auto simp: ctx_sim_def)
  next
    case FSync
    with sim ctx_okD(3) [OF ok] show ?thesis
      by (simp add: ctx_Sync_def os_sync_def)
  qed
qed

text \<open>Agreement of offset and position survives every operation in place.\<close>

lemma step_synced:
  assumes sim: "ctx_sim cinv lim c" and fits: "op_fits lim (ctx_room c) (ctx_plain ks c) op"
    and sync: "ctx_synced c" and inp: "op_in_place (ctx_plain ks c) op"
  shows "ctx_synced (fst (ctx_step reseek enc dec c op))"
proof -
  have ok: "ctx_ok cinv lim c" and fat: "fat (storeFileIo c)"
    using sim by (auto simp: ctx_sim_def)
  note len = ctx_size_plain [OF ok, of ks] and d = ctx_okD [OF ok]
  show ?thesis
  proof (cases op)
    case (FRead n)
    with sync ReadReseek_refines [OF ok, of n] Read_refines [OF ok sync, of n] show ?thesis
      by (cases reseek) auto
  next
    case (FWrite dt)
    with fits len Write_refines [OF ok, of dt] show ?thesis by auto
  next
    case (FSeek p w)
    with sync Seek_refines [OF ok, of p w] show ?thesis by (auto split: prod.splits)
  next
    case (FReadAt n p)
    with fits fat sync ReadAt_refines [OF ok fat, of p n] show ?thesis
      by (auto simp: ctx_synced_def ctx_plain_def)
  next
    case (FWriteAt dt p)
    with fits inp fat len d(4) sync WriteAt_refines [OF ok, of p dt] show ?thesis
      by (auto simp: ctx_synced_def)
  next
    case (FTruncate p)
    with fits inp len d(4,5) sync Truncate_refines [OF ok, of p] show ?thesis
      by (auto simp: ctx_synced_def)
  next
    case FSync
    with sync show ?thesis by simp
  qed
qed

text \<open>Runs. Without sequential reads, or with a \<^verbatim>\<open>Read\<close> that seeks, every run on the encrypted
  file returns what the run on the plain file returns and leaves its content.\<close>

lemma run_refines:
  assumes "ctx_sim cinv lim c" "run_all (op_fits lim (ctx_room c)) (ctx_room c) (ctx_plain ks c) ops"
    and "reseek \<or> (\<forall>op \<in> set ops. \<not> is_FRead op)"
  shows "\<exists>c' outs. run_ops (ctx_step reseek enc dec) c ops = (c', outs) \<and>
    run_ops (plain_step (ctx_room c)) (ctx_plain ks c) ops = (ctx_plain ks c', outs) \<and>
    ctx_sim cinv lim c'"
  using assms
proof (induction ops arbitrary: c)
  case Nil
  then show ?case by simp
next
  case (Cons op ops)
  then obtain c1 out where step: "ctx_step reseek enc dec c op = (c1, out)"
    "plain_step (ctx_room c) (ctx_plain ks c) op = (ctx_plain ks c1, out)"
    "ctx_sim cinv lim c1" "ctx_room c1 = ctx_room c"
    using step_refines [of c op reseek] by auto
  with Cons.IH [of c1] Cons.prems show ?case by auto
qed

text \<open>With the \<^verbatim>\<open>Read\<close> that does not seek the same holds for runs of operations in place.\<close>

lemma run_refines_in_place:
  assumes "ctx_sim cinv lim c" "ctx_synced c"
    and "run_all (\<lambda>f op. op_fits lim (ctx_room c) f op \<and> op_in_place f op) (ctx_room c)
      (ctx_plain ks c) ops"
  shows "\<exists>c' outs. run_ops (ctx_step False enc dec) c ops = (c', outs) \<and>
    run_ops (plain_step (ctx_room c)) (ctx_plain ks c) ops = (ctx_plain ks c', outs) \<and>
    ctx_sim cinv lim c'"
  using assms
proof (induction ops arbitrary: c)
  case Nil
  then show ?case by simp
next
  case (Cons op ops)
  then obtain c1 out where step: "ctx_step False enc dec c op = (c1, out)"
    "plain_step (ctx_room c) (ctx_plain ks c) op = (ctx_plain ks c1, out)"
    "ctx_sim cinv lim c1" "ctx_room c1 = ctx_room c"
    using step_refines [of c op False] by auto
  moreover have "ctx_synced c1"
    using step_synced [of c op False] Cons.prems step(1) by simp
  ultimately show ?case
    using Cons.IH [of c1] Cons.prems by auto
qed

text \<open>
  A session: a context is made on a file, a run is performed, and another context is made on
  the file that the run left. The run answers as the plain file does, and the second context
  finds the plain content at position 0.
\<close>

lemma session_refines:
  assumes sf: "session_file lim f" and "cinv s" "cinv s'"
    and "run_all (op_fits lim (froom f)) (froom f) (file_plain ks f) ops"
    and "reseek \<or> (\<forall>op \<in> set ops. \<not> is_FRead op)"
  shows "\<exists>c c1 outs c2. ctx_new s f = Inr c \<and> run_ops (ctx_step reseek enc dec) c ops = (c1, outs) \<and>
    run_ops (plain_step (froom f)) (file_plain ks f) ops = (ctx_plain ks c1, outs) \<and>
    ctx_new s' (storeFileIo c1) = Inr c2 \<and>
    ctx_plain ks c2 = (ctx_plain ks c1)\<lparr>ppos := 0\<rparr>"
proof -
  obtain c where c: "ctx_new s f = Inr c" "ctx_ok cinv lim c" "ctx_room c = froom f"
    "ctx_plain ks c = file_plain ks f" "fat (storeFileIo c)"
    using ctx_new_ok [where cinv = cinv and ks = ks and lim = lim, OF _ assms(2)] sf
    by (auto simp: session_file_def file_plain_def)
  then have "ctx_sim cinv lim c" by (simp add: ctx_sim_def)
  from run_refines [OF this, of ops reseek] assms(4,5) c(3,4) obtain c1 outs where
    r: "run_ops (ctx_step reseek enc dec) c ops = (c1, outs)"
      "run_ops (plain_step (froom f)) (file_plain ks f) ops = (ctx_plain ks c1, outs)" "ctx_sim cinv lim c1"
    by auto
  have ok: "ctx_ok cinv lim c1"
    using r(3) by (simp add: ctx_sim_def)
  have "\<exists>c2. ctx_new s' (storeFileIo c1) = Inr c2 \<and>
      ctx_plain ks c2 = (ctx_plain ks c1)\<lparr>ppos := 0\<rparr>"
    using ctx_new_ok [where cinv = cinv and ks = ks and lim = lim, OF ctx_okD(1) [OF ok] assms(3)]
      ctx_okD(4,6) [OF ok]
    by (auto simp: ctx_plain_def)
  with c(1) r show ?thesis by blast
qed

text \<open>What was written at a position is read back from it, by this or a later context.\<close>

lemma WriteAt_ReadAt:
  assumes sim: "ctx_sim cinv lim c" and off: "0 \<le> off" "off + int (length d) \<le> lim"
    and room: "nat off + length d \<le> ctx_room c"
  shows "\<exists>c1 c2. ctx_WriteAt enc c d off = (c1, length d, None) \<and>
    ctx_ReadAt dec c1 (length d) off = (c2, d, None)"
proof -
  have ok: "ctx_ok cinv lim c" and fat: "fat (storeFileIo c)"
    using sim by (auto simp: ctx_sim_def)
  have fits: "op_fits lim (ctx_room c) (ctx_plain ks c) (FWriteAt d off)"
    using off room by auto
  obtain c1 out where w: "ctx_step False enc dec c (FWriteAt d off) = (c1, out)"
    "plain_step (ctx_room c) (ctx_plain ks c) (FWriteAt d off) = (ctx_plain ks c1, out)"
    "ctx_sim cinv lim c1"
    using step_refines [OF sim fits, of False] by auto
  obtain c2 out2 where r: "ctx_step False enc dec c1 (FReadAt (length d) off) = (c2, out2)"
    "plain_step (ctx_room c1) (ctx_plain ks c1) (FReadAt (length d) off) = (ctx_plain ks c2, out2)"
    using step_refines [OF w(3), of "FReadAt (length d) off" False] off by auto
  have n: "plain_fits (ctx_room c) (ctx_plain ks c) (nat off) (length d) = length d"
    using room by (simp add: plain_fits_def)
  have "pcontent (ctx_plain ks c1) = overwrite (pcontent (ctx_plain ks c)) (nat off) d"
      "out = OutCount (length d) None"
    using w(2) n by (simp_all add: plain_WriteAt_def Let_def)
      (metis ctx_plain_sel(1) plainfile.select_convs(1) plainfile.surjective plainfile.update_convs(1))
  moreover have "take (length d) (drop (nat off) (overwrite xs (nat off) d)) = d" for xs
    by (rule take_drop_overwrite)
  ultimately have "out2 = OutBytes d None"
    using r(2) by (auto simp: plain_ReadAt_def Let_def)
  with \<open>out = _\<close> w(1) r(1) show ?thesis
    by (auto split: prod.splits)
qed

subsection \<open>The offset left behind by gap filling\<close>

text \<open>
  Gap filling moves the offset of the backing file but not the position. A \<^verbatim>\<open>Read\<close> that does
  not seek then reads from the end of the file: after a growing \<^verbatim>\<open>Truncate\<close> it reports the end
  of the file although the position is inside it.
\<close>

lemma Read_after_growing_Truncate:
  assumes ok: "ctx_ok cinv lim c" and grow: "csize c < n" "n \<le> lim" "nat n \<le> ctx_room c"
    and len: "0 < len"
  shows "snd (ctx_Read dec (fst (ctx_Truncate enc c n)) len) = ([], Some EOF)"
proof -
  obtain s' where gap: "ctx_ensure_append_gap enc c n =
    (c\<lparr>storeFileIo := (storeFileIo c)\<lparr>fdata := fdata (storeFileIo c) @
          xor_at ks (nat (csize c)) (replicate (nat n - nat (csize c)) 0), foff := n\<rparr>,
       cipherState := s', csize := n\<rparr>, None)"
    using gap_filled [OF ok grow] by blast
  with ok grow len show ?thesis
    by (simp add: ctx_Truncate_def ctx_Read_def os_read_def ctx_ok_def rw_file_def)
qed

end

end
