(* ===== verification/AesCtr.thy ===== *)
theory AesCtr
  imports GoCrypto ContextRuns
begin

text \<open>
  AES-CTR file encryption: src/native/sec_fs/crypto_data/algorithm_impl/aes_ctr/context.go.
  The state is the 16-byte counter block, whose first half is the (always zero) nonce and
  whose second half the quick path rewrites for every block; the stream buffer is scratch
  space that is rewritten before it is read. The two implementations of the key stream, block
  by block for short data and through cipher.NewCTR for 1 KB and more, are proved to be the
  same position-dependent key stream.
\<close>

subsection \<open>The two key-stream routines\<close>

definition put_block_number :: "bytes \<Rightarrow> int \<Rightarrow> bytes" where
  "put_block_number counter blockNum =
    take 8 counter @ be_bytes 8 (unat (word_of_int blockNum :: 64 word))"

function aes_xorKeystreamQuick :: "bytes \<Rightarrow> bytes crypt_fun" where
  "aes_xorKeystreamQuick key counter data pos =
    (if data = [] then (counter, [], None)
     else let blockNum = go_div pos 16;
              blockOffset = go_rem pos 16;
              counter' = put_block_number counter blockNum;
              stream = aes256_encrypt key counter';
              toProcess = min (nat (16 - blockOffset)) (length data)
          in if blockOffset < 0 then (counter', data, Some RuntimePanic)
             else let piece = map2 (XOR) (take toProcess data)
                        (take toProcess (drop (nat blockOffset) stream));
                      (counter2, rest, err) =
                        aes_xorKeystreamQuick key counter' (drop toProcess data) (pos + int toProcess)
                  in (counter2, piece @ rest, err))"
  by pat_completeness auto
termination
  by (relation "measure (\<lambda>(key, counter, data, pos). length data)") (auto simp: go_rem_16_less)

declare aes_xorKeystreamQuick.simps [simp del]

definition aes_xorKeystream :: "bytes \<Rightarrow> bytes crypt_fun" where
  "aes_xorKeystream key counter data pos =
    (if length data < 1024 then aes_xorKeystreamQuick key counter data pos
     else let blockNum = go_div pos 16;
              blockOffset = go_rem pos 16;
              iv = put_block_number counter blockNum;
              stream = NewCTR iv;
              stream' = (if 0 < blockOffset
                 then fst (ctr_XORKeyStream (aes256_encrypt key) stream (replicate (nat blockOffset) 0))
                 else stream)
          in (counter, snd (ctr_XORKeyStream (aes256_encrypt key) stream' data), None))"

subsection \<open>The key stream\<close>

definition aes_ctr_ks :: "bytes \<Rightarrow> nat \<Rightarrow> byte" where
  "aes_ctr_ks key p = aes256_encrypt key (be_bytes 16 (p div 16)) ! (p mod 16)"

text \<open>The invariant of the counter buffer.\<close>

definition aes_counter_ok :: "bytes \<Rightarrow> bool" where
  "aes_counter_ok counter \<longleftrightarrow> length counter = 16 \<and> take 8 counter = replicate 8 0"

lemma be_bytes_16_small:
  assumes "n < 2 ^ 64"
  shows "be_bytes 16 n = replicate 8 0 @ be_bytes 8 n"
  using be_bytes_append [of 8 8 n] assms by (simp add: be_bytes_0)

lemma put_block_number_be:
  assumes "aes_counter_ok counter" "0 \<le> pos" "pos < int64_limit"
  shows "put_block_number counter (go_div pos 16) = be_bytes 16 (nat pos div 16)"
proof -
  have small: "nat pos div 16 < 2 ^ 64"
    using assms(2,3) by (simp add: int64_limit_def; linarith)
  have "unat (word_of_int (go_div pos 16) :: 64 word) = nat pos div 16"
    using assms small by (simp add: unat_go_div)
  then show ?thesis
    using assms(1) small by (simp add: put_block_number_def aes_counter_ok_def be_bytes_16_small)
qed

lemma aes_counter_ok_be: "n < 2 ^ 64 \<Longrightarrow> aes_counter_ok (be_bytes 16 n)"
  by (simp add: aes_counter_ok_def be_bytes_16_small)

lemma aes_ctr_ks_block:
  assumes "p mod 16 + i < 16"
  shows "aes256_encrypt key (be_bytes 16 (p div 16)) ! (p mod 16 + i) = aes_ctr_ks key (p + i)"
  using same_block [OF assms] by (simp add: aes_ctr_ks_def)

subsection \<open>Both routines are the key stream\<close>

lemma aes_xorKeystreamQuick_ks:
  assumes "aes_counter_ok counter" "0 \<le> pos" "pos + int (length data) \<le> int64_limit"
  shows "\<exists>c'. aes_xorKeystreamQuick key counter data pos =
    (c', xor_at (aes_ctr_ks key) (nat pos) data, None) \<and> aes_counter_ok c'"
  using assms
proof (induction key counter data pos rule: aes_xorKeystreamQuick.induct)
  case (1 key counter data pos)
  show ?case
  proof (cases "data = []")
    case True
    with "1.prems" show ?thesis
      by (simp add: aes_xorKeystreamQuick.simps [of key counter "[]"])
  next
    case False
    let ?p = "nat pos" and ?blk = "be_bytes 16 (nat pos div 16)"
    define n where "n = min (16 - ?p mod 16) (length data)"
    have "0 < length data" using False by simp
    then have lt: "pos < int64_limit"
      using "1.prems"(3) by linarith
    have npos: "0 < n" "n \<le> length data" "?p mod 16 + n \<le> 16"
      using \<open>0 < length data\<close> by (auto simp: n_def)
    have blk: "put_block_number counter (go_div pos 16) = ?blk"
      using "1.prems" lt by (intro put_block_number_be) auto
    have off: "nat (go_rem pos 16) = ?p mod 16" "\<not> go_rem pos 16 < 0"
        "nat (16 - go_rem pos 16) = 16 - ?p mod 16"
      using "1.prems" by (simp_all add: nat_go_rem go_rem_nonneg nat_diff_distrib nat_mod_distrib)
    have "?p div 16 < 2 ^ 64"
      using lt "1.prems"(2) by (simp add: int64_limit_def; linarith)
    then have ok: "aes_counter_ok ?blk"
      by (rule aes_counter_ok_be)
    have np: "nat (pos + int n) = ?p + n"
      using "1.prems"(2) by (simp add: nat_add_distrib)
    have piece: "map2 (XOR) (take n data) (take n (drop (?p mod 16) (aes256_encrypt key ?blk))) =
        xor_at (aes_ctr_ks key) ?p (take n data)"
      using npos aes_ctr_ks_block by (intro map2_slice_xor_at) auto
    have tp: "min (nat (16 - go_rem pos 16)) (length data) = n"
      by (simp add: off n_def)
    have "0 \<le> pos + int n" "pos + int n + int (length (drop n data)) \<le> int64_limit"
      using "1.prems" npos by (simp_all add: of_nat_diff)
    from "1.IH" [OF False refl refl refl refl refl off(2), unfolded blk tp, OF refl ok this]
    obtain c2 where c2: "aes_counter_ok c2" "aes_xorKeystreamQuick key ?blk (drop n data) (pos + int n) =
        (c2, xor_at (aes_ctr_ks key) (?p + n) (drop n data), None)"
      unfolding np by blast
    have "xor_at (aes_ctr_ks key) ?p data =
        xor_at (aes_ctr_ks key) ?p (take n data) @ xor_at (aes_ctr_ks key) (?p + n) (drop n data)"
      using npos xor_at_append [of _ ?p "take n data" "drop n data"] by (simp add: min_absorb2)
    moreover have "aes_xorKeystreamQuick key counter data pos =
        (c2, xor_at (aes_ctr_ks key) ?p (take n data) @ xor_at (aes_ctr_ks key) (?p + n) (drop n data), None)"
      by (subst aes_xorKeystreamQuick.simps)
        (simp only: Let_def False off(1,2) blk tp piece c2 if_False prod.case)
    ultimately show ?thesis
      using c2(1) by simp
  qed
qed

lemma div_mod_add_16:
  fixes p i :: nat
  shows "(p + i) div 16 = p div 16 + (p mod 16 + i) div 16" "(p + i) mod 16 = (p mod 16 + i) mod 16"
proof -
  have p: "p + i = (p mod 16 + i) + 16 * (p div 16)" by simp
  show "(p + i) div 16 = p div 16 + (p mod 16 + i) div 16"
    by (subst p) (rule div_mult_self2, simp)
  show "(p + i) mod 16 = (p mod 16 + i) mod 16"
    by (simp add: mod_add_left_eq)
qed

lemma aes_xorKeystream_ks:
  assumes ok: "aes_counter_ok counter" and pos: "0 \<le> pos"
    and lim: "pos + int (length data) \<le> int64_limit"
  shows "\<exists>c'. aes_xorKeystream key counter data pos =
    (c', xor_at (aes_ctr_ks key) (nat pos) data, None) \<and> aes_counter_ok c'"
proof (cases "length data < 1024")
  case True
  with aes_xorKeystreamQuick_ks [OF assms] show ?thesis
    by (simp add: aes_xorKeystream_def)
next
  case False
  let ?p = "nat pos"
  have lt: "pos < int64_limit"
    using False lim by linarith
  have iv: "put_block_number counter (go_div pos 16) = be_bytes 16 (?p div 16)"
    by (rule put_block_number_be [OF ok pos lt])
  have "?p < 2 ^ 63"
    using lt pos by (simp add: int64_limit_def)
  moreover have "?p div 16 \<le> ?p" by simp
  ultimately have small: "?p div 16 < 256 ^ 16" by simp
  have stream: "ctr_byte (aes256_encrypt key) (be_bytes 16 (?p div 16)) (?p mod 16 + i) =
      aes_ctr_ks key (?p + i)" for i
  proof -
    have "(?p + i) div 16 = ?p div 16 + (?p mod 16 + i) div 16"
        "(?p + i) mod 16 = (?p mod 16 + i) mod 16"
      by (rule div_mod_add_16)+
    then show ?thesis
      using small by (simp add: ctr_byte_def aes_ctr_ks_def of_be_bytes_be_bytes)
  qed
  have "xor_at (ctr_byte (aes256_encrypt key) (be_bytes 16 (?p div 16))) (?p mod 16) data =
      xor_at (aes_ctr_ks key) ?p data"
    by (rule nth_equalityI) (auto simp: nth_xor_at stream)
  moreover have "nat (go_rem pos 16) = ?p mod 16" "0 \<le> go_rem pos 16"
    using pos by (simp_all add: nat_go_rem go_rem_nonneg nat_mod_distrib)
  ultimately show ?thesis
    using False ok iv
    by (auto simp: aes_xorKeystream_def NewCTR_def ctr_XORKeyStream_def Let_def)
qed

subsection \<open>Construction and methods\<close>

text \<open>The context keeps the block cipher of the first 32 key bytes; the methods are the common
  ones with this algorithm's key stream for both directions and a \<^verbatim>\<open>Read\<close> that does not seek.\<close>

definition aes_ctr_NewContext :: "osfile \<Rightarrow> bytes \<Rightarrow> io_error + bytes ctx" where
  "aes_ctr_NewContext f key =
    (if length key < 32 then Inl ErrUnexpectedEOF else ctx_new (replicate 16 0) f)"

definition aes_ctr_step :: "bytes \<Rightarrow> bytes ctx \<Rightarrow> file_op \<Rightarrow> bytes ctx \<times> file_out" where
  "aes_ctr_step key =
    ctx_step False (aes_xorKeystream (take 32 key)) (aes_xorKeystream (take 32 key))"

definition aes_ctr_plain :: "bytes \<Rightarrow> bytes ctx \<Rightarrow> plainfile" where
  "aes_ctr_plain key = ctx_plain (aes_ctr_ks (take 32 key))"

interpretation aes_ctr: data_cipher "aes_xorKeystream key" "aes_ctr_ks key" aes_counter_ok
  int64_limit "aes_xorKeystream key" for key
  by unfold_locales (rule aes_xorKeystream_ks; assumption)+

lemma aes_counter_ok_init: "aes_counter_ok (replicate 16 0)"
  by (simp add: aes_counter_ok_def)

text \<open>C10. A session on an AES-CTR file whose operations do not read sequentially answers every
  operation as a plain file would, and a context opened later on the resulting file finds the
  plain content. Conditions on the operations (\<open>op_fits\<close>): ReadAt and WriteAt have positions
  that are not negative; what is written ends at a position of type int64; and a Write, WriteAt or Truncate
  beyond the end of the file starts, or ends, within the room of the device, so that the gap it fills is not cut
  off. Writes themselves may be short.\<close>
theorem aes_ctr_session:
  assumes "session_file int64_limit f" "32 \<le> length key"
    and "run_all (op_fits int64_limit (froom f)) (froom f) (file_plain (aes_ctr_ks (take 32 key)) f) ops"
    and "\<forall>op \<in> set ops. \<not> is_FRead op"
  shows "\<exists>c c1 outs c2. aes_ctr_NewContext f key = Inr c \<and>
    run_ops (aes_ctr_step key) c ops = (c1, outs) \<and>
    run_ops (plain_step (froom f)) (file_plain (aes_ctr_ks (take 32 key)) f) ops =
      (aes_ctr_plain key c1, outs) \<and>
    aes_ctr_NewContext (storeFileIo c1) key = Inr c2 \<and>
    aes_ctr_plain key c2 = (aes_ctr_plain key c1)\<lparr>ppos := 0\<rparr>"
  using aes_ctr.session_refines [OF assms(1) aes_counter_ok_init aes_counter_ok_init assms(3)] assms(2,4)
  by (simp add: aes_ctr_NewContext_def aes_ctr_step_def aes_ctr_plain_def)

lemma aes_ctr_session_witness:
  "\<exists>c c1 c2. aes_ctr_NewContext (new_file 100) (replicate 32 7) = Inr c \<and>
    run_ops (aes_ctr_step (replicate 32 7)) c [FWriteAt [1, 2] 3, FReadAt 9 0] =
      (c1, [OutCount 2 None, OutBytes [0, 0, 0, 1, 2] (Some EOF)]) \<and>
    aes_ctr_NewContext (storeFileIo c1) (replicate 32 7) = Inr c2 \<and>
    aes_ctr_plain (replicate 32 7) c2 = \<lparr>pcontent = [0, 0, 0, 1, 2], ppos = 0\<rparr>"
proof -
  have run: "run_ops (plain_step (froom (new_file 100))) \<lparr>pcontent = [], ppos = 0\<rparr>
      [FWriteAt [1, 2] 3, FReadAt 9 0] =
    (\<lparr>pcontent = [0, 0, 0, 1, 2], ppos = 0\<rparr>,
     [OutCount 2 None, OutBytes [0, 0, 0, 1, 2] (Some EOF)])"
    by code_simp
  obtain c c1 outs c2 where w: "aes_ctr_NewContext (new_file 100) (replicate 32 7) = Inr c"
    "run_ops (aes_ctr_step (replicate 32 7)) c [FWriteAt [1, 2] 3, FReadAt 9 0] = (c1, outs)"
    "run_ops (plain_step (froom (new_file 100)))
      (file_plain (aes_ctr_ks (take 32 (replicate 32 7))) (new_file 100)) [FWriteAt [1, 2] 3, FReadAt 9 0] =
     (aes_ctr_plain (replicate 32 7) c1, outs)"
    "aes_ctr_NewContext (storeFileIo c1) (replicate 32 7) = Inr c2"
    "aes_ctr_plain (replicate 32 7) c2 = (aes_ctr_plain (replicate 32 7) c1)\<lparr>ppos := 0\<rparr>"
    using aes_ctr_session [of "new_file 100" "replicate 32 7" "[FWriteAt [1, 2] 3, FReadAt 9 0]"]
    by (auto simp: int64_limit_def)
  with run have "aes_ctr_plain (replicate 32 7) c1 = \<lparr>pcontent = [0, 0, 0, 1, 2], ppos = 0\<rparr>"
    "outs = [OutCount 2 None, OutBytes [0, 0, 0, 1, 2] (Some EOF)]"
    by (simp_all del: run_ops.simps)
  with w show ?thesis
    by (simp del: run_ops.simps)
qed

text \<open>C20. Below 2^63 the block-by-block routine and the routine over cipher.NewCTR encrypt the same.\<close>
theorem aes_xorKeystream_quick_eq_ctr:
  assumes "aes_counter_ok counter" "0 \<le> pos" "pos + int (length data) \<le> int64_limit"
  shows "snd (aes_xorKeystream key counter data pos) = snd (aes_xorKeystreamQuick key counter data pos)"
  using aes_xorKeystream_ks [OF assms, of key] aes_xorKeystreamQuick_ks [OF assms, of key] by auto

lemma aes_xorKeystream_quick_eq_ctr_witness:
  "snd (aes_xorKeystream [] (replicate 16 0) (replicate 2000 1) 5) =
    snd (aes_xorKeystreamQuick [] (replicate 16 0) (replicate 2000 1) 5)"
  by (rule aes_xorKeystream_quick_eq_ctr)
    (simp_all add: aes_counter_ok_init int64_limit_def)

text \<open>A positive length written at a negative position inside the first block makes the slice of
  the key-stream block start below 0: WriteAt panics instead of returning an error.\<close>
theorem aes_ctr_WriteAt_negative:
  assumes "fat (storeFileIo c)" "0 \<le> csize c" "- 16 < off" "off < 0"
    and "data \<noteq> []" "length data < 1024"
  shows "snd (aes_ctr_step key c (FWriteAt data off)) = OutCount 0 (Some RuntimePanic)"
proof -
  have "go_rem off 16 = off"
    using assms(3,4) by (simp add: signed_modulo_int_def signed_divide_int_def sgn_if)
  moreover have "take ChunkBufferSize data = data"
    using assms(6) by (simp add: ChunkBufferSize_def)
  ultimately show ?thesis
    using assms
    by (simp add: aes_ctr_step_def ctx_WriteAt_def ctx_ensure_append_gap_def EncryptAndWriteAtInChunks_def
        encrypt_write_loop.simps [of _ _ _ _ data] aes_xorKeystream_def
        aes_xorKeystreamQuick.simps [of _ _ data] Let_def)
qed

lemma aes_ctr_WriteAt_negative_witness:
  "snd (aes_ctr_step [] \<lparr>storeFileIo = new_file 9, cipherState = replicate 16 0, cpos = 0, csize = 0\<rparr>
    (FWriteAt [1] (- 1))) = OutCount 0 (Some RuntimePanic)"
  by (rule aes_ctr_WriteAt_negative) simp_all

text \<open>C25. Growing a file moves the offset of the backing file to its new end but leaves the position
  of the context: the next Read reports the end of the file although the position is inside it.\<close>
theorem aes_ctr_Read_after_growing_Truncate:
  assumes "ctx_ok aes_counter_ok int64_limit c" "csize c < n" "n \<le> int64_limit" "nat n \<le> ctx_room c"
    and "0 < len"
  shows "snd (aes_ctr_step key (fst (aes_ctr_step key c (FTruncate n))) (FRead len)) =
    OutBytes [] (Some EOF)"
  using aes_ctr.Read_after_growing_Truncate [OF assms, of "take 32 key"]
  by (simp add: aes_ctr_step_def case_prod_beta)

lemma aes_ctr_Read_after_growing_Truncate_witness:
  "let c = \<lparr>storeFileIo = new_file 9, cipherState = replicate 16 0, cpos = 0, csize = 0\<rparr> in
    snd (aes_ctr_step [] (fst (aes_ctr_step [] c (FTruncate 5))) (FRead 5)) = OutBytes [] (Some EOF)"
  unfolding Let_def
  by (rule aes_ctr_Read_after_growing_Truncate)
    (simp_all add: ctx_ok_def aes_counter_ok_init int64_limit_def ctx_room_def)

subsection \<open>One key stream for every file\<close>

lemma aes_ctr_first_write:
  assumes "32 \<le> length key" "length d \<le> room" "int (length d) \<le> int64_limit"
  shows "\<exists>c. aes_ctr_NewContext (new_file room) key = Inr c \<and>
    fdata (storeFileIo (fst (aes_ctr_step key c (FWriteAt d 0)))) =
      xor_at (aes_ctr_ks (take 32 key)) 0 d"
proof -
  let ?ks = "aes_ctr_ks (take 32 key)"
  have "plain_WriteAt room \<lparr>pcontent = [], ppos = 0\<rparr> d 0 =
      (\<lparr>pcontent = d, ppos = 0\<rparr>, length d, None)"
    using assms(2) by (simp add: plain_WriteAt_def plain_fits_def overwrite_def)
  then obtain c c1 where "aes_ctr_NewContext (new_file room) key = Inr c"
    "fst (aes_ctr_step key c (FWriteAt d 0)) = c1" "ctx_plain ?ks c1 = \<lparr>pcontent = d, ppos = 0\<rparr>"
    using aes_ctr.session_refines [where reseek = False and f = "new_file room" and ops = "[FWriteAt d 0]",
        OF _ aes_counter_ok_init aes_counter_ok_init, of "take 32 key"] assms
    by (auto simp: int64_limit_def aes_ctr_NewContext_def aes_ctr_step_def split: prod.splits)
  moreover from this(3) have "xor_at ?ks 0 (fdata (storeFileIo c1)) = d"
    by (metis ctx_plain_sel(1) plainfile.select_convs(1))
  then have "fdata (storeFileIo c1) = xor_at ?ks 0 d"
    by (metis xor_at_involution)
  ultimately show ?thesis by blast
qed

text \<open>The nonce of every file is zero: the bytes that two new files of a root store for data of
  the same length differ exactly where the data differs, so their XOR is the XOR of the data.\<close>
theorem aes_ctr_files_share_stream:
  assumes "32 \<le> length key" "length d1 \<le> room" "int (length d1) \<le> int64_limit"
    and "length d2 = length d1"
  shows "\<exists>c. aes_ctr_NewContext (new_file room) key = Inr c \<and>
    map2 (XOR) (fdata (storeFileIo (fst (aes_ctr_step key c (FWriteAt d1 0)))))
      (fdata (storeFileIo (fst (aes_ctr_step key c (FWriteAt d2 0))))) = map2 (XOR) d1 d2"
proof -
  have "map2 (XOR) (xor_at ks 0 d1) (xor_at ks 0 d2) = map2 (XOR) d1 d2" for ks :: "nat \<Rightarrow> byte"
    using assms(4) by (intro nth_equalityI) (auto simp: nth_xor_at ac_simps bit_eq_iff bit_xor_iff)
  with aes_ctr_first_write [OF assms(1-3)] aes_ctr_first_write [OF assms(1), of d2 room] assms
  show ?thesis by auto
qed

lemma aes_ctr_files_share_stream_witness:
  "\<exists>c. aes_ctr_NewContext (new_file 100) (replicate 40 1) = Inr c \<and>
    map2 (XOR) (fdata (storeFileIo (fst (aes_ctr_step (replicate 40 1) c (FWriteAt [1, 2] 0)))))
      (fdata (storeFileIo (fst (aes_ctr_step (replicate 40 1) c (FWriteAt [3, 4] 0))))) =
    map2 (XOR) [1, 2] [3, 4]"
  by (rule aes_ctr_files_share_stream) (simp_all add: int64_limit_def)

end
