(* ===== verification/AesXts.thy ===== *)
theory AesXts
  imports GoCrypto ContextRuns
begin

text \<open>
  AES-XTS file encryption: src/native/sec_fs/crypto_data/algorithm_impl/aes_xts/context.go.
  Despite its name the algorithm is a stream cipher: the bytes of block \<open>n\<close> are XORed with
  \<open>E1(T) XOR T\<close>, where the tweak \<open>T\<close> is the encryption of \<open>n\<close> under the second key. The
  context has no mutable cipher state, and its \<^verbatim>\<open>Read\<close> moves the backing file first.
\<close>

subsection \<open>Blocks\<close>

definition xts_generateTweak :: "bytes \<Rightarrow> int \<Rightarrow> bytes" where
  "xts_generateTweak key2 blockNum =
    aes256_encrypt key2 (le_bytes 8 (unat (word_of_int blockNum :: 64 word)) @ replicate 8 0)"

definition xts_encryptBlock :: "bytes \<Rightarrow> bytes \<Rightarrow> bytes \<Rightarrow> int \<Rightarrow> bytes \<times> io_error option" where
  "xts_encryptBlock key1 data tweak offset =
    (let keystream = replicate 16 0;
         keystream = map2 (XOR) keystream tweak;
         keystream = aes256_encrypt key1 keystream;
         keystream = map2 (XOR) keystream tweak
     in if offset < 0 \<or> 16 < offset + int (length data) then (data, Some RuntimePanic)
        else (map2 (XOR) data (take (length data) (drop (nat offset) keystream)), None))"

definition xts_decryptBlock :: "bytes \<Rightarrow> bytes \<Rightarrow> bytes \<Rightarrow> int \<Rightarrow> bytes \<times> io_error option" where
  "xts_decryptBlock key1 data tweak offset =
    (let keystream = replicate 16 0;
         keystream = map2 (XOR) keystream tweak;
         keystream = aes256_encrypt key1 keystream;
         keystream = map2 (XOR) keystream tweak
     in if offset < 0 \<or> 16 < offset + int (length data) then (data, Some RuntimePanic)
        else (map2 (XOR) data (take (length data) (drop (nat offset) keystream)), None))"

function xts_xorBlocks :: "bytes \<Rightarrow> bytes \<Rightarrow> bytes \<Rightarrow> int \<Rightarrow> bool \<Rightarrow> bytes \<times> io_error option" where
  "xts_xorBlocks key1 key2 data pos encrypt =
    (if data = [] then ([], None)
     else let blockNum = go_div pos 16;
              blockOffset = go_rem pos 16;
              tweak = xts_generateTweak key2 blockNum;
              toProcess = min (nat (16 - blockOffset)) (length data);
              (piece, err) = (if encrypt then xts_encryptBlock key1 (take toProcess data) tweak blockOffset
                              else xts_decryptBlock key1 (take toProcess data) tweak blockOffset)
          in case err of Some e \<Rightarrow> (data, Some e)
             | None \<Rightarrow>
               let (rest, err') = xts_xorBlocks key1 key2 (drop toProcess data) (pos + int toProcess) encrypt
               in (piece @ rest, err'))"
  by pat_completeness auto
termination
  by (relation "measure (\<lambda>(key1, key2, data, pos, encrypt). length data)") (auto simp: go_rem_16_less)

declare xts_xorBlocks.simps [simp del]

subsection \<open>The key stream\<close>

definition aes_xts_ks :: "bytes \<Rightarrow> bytes \<Rightarrow> nat \<Rightarrow> byte" where
  "aes_xts_ks key1 key2 p =
    (let tweak = aes256_encrypt key2 (le_bytes 8 (p div 16) @ replicate 8 0)
     in (aes256_encrypt key1 tweak ! (p mod 16)) XOR (tweak ! (p mod 16)))"

lemma length_xts_generateTweak [simp]: "length (xts_generateTweak key2 n) = 16"
  by (simp add: xts_generateTweak_def)

lemma xor_zeros: "length t = n \<Longrightarrow> map2 (XOR) (replicate n (0 :: byte)) t = t"
  by (rule nth_equalityI) simp_all

lemma xts_decryptBlock_eq: "xts_decryptBlock = xts_encryptBlock"
  by (intro ext) (simp add: xts_decryptBlock_def xts_encryptBlock_def)

lemma xts_generateTweak_block:
  assumes "0 \<le> pos" "pos < int64_limit"
  shows "xts_generateTweak key2 (go_div pos 16) =
    aes256_encrypt key2 (le_bytes 8 (nat pos div 16) @ replicate 8 0)"
proof -
  have "nat pos div 16 < 2 ^ 64"
    using assms by (simp add: int64_limit_def; linarith)
  then show ?thesis
    using assms by (simp add: xts_generateTweak_def unat_go_div)
qed

text \<open>One block, or the part of it that the data covers.\<close>

lemma xts_encryptBlock_ks:
  assumes pos: "0 \<le> pos" "pos < int64_limit" and n: "nat pos mod 16 + length d \<le> 16"
  shows "xts_encryptBlock key1 d (xts_generateTweak key2 (go_div pos 16)) (go_rem pos 16) =
    (xor_at (aes_xts_ks key1 key2) (nat pos) d, None)"
proof -
  let ?p = "nat pos" and ?tweak = "xts_generateTweak key2 (go_div pos 16)"
  have off: "nat (go_rem pos 16) = ?p mod 16" "go_rem pos 16 = int (?p mod 16)"
    using pos by (simp_all add: nat_go_rem go_rem_nonneg nat_mod_distrib zmod_int)
  have ks: "map2 (XOR) (aes256_encrypt key1 ?tweak) ?tweak ! (?p mod 16 + i) =
      aes_xts_ks key1 key2 (?p + i)" if "i < length d" for i
  proof -
    have "?p mod 16 + i < 16" using that n by simp
    with same_block [OF this] show ?thesis
      using pos by (simp add: aes_xts_ks_def xts_generateTweak_block Let_def)
  qed
  have "map2 (XOR) (take (length d) d)
      (take (length d) (drop (?p mod 16) (map2 (XOR) (aes256_encrypt key1 ?tweak) ?tweak))) =
    xor_at (aes_xts_ks key1 key2) ?p (take (length d) d)"
    using n ks by (intro map2_slice_xor_at) auto
  with n off show ?thesis
    by (simp add: xts_encryptBlock_def xor_zeros Let_def)
qed

lemma xts_xorBlocks_ks:
  assumes "0 \<le> pos" "pos + int (length data) \<le> int64_limit"
  shows "xts_xorBlocks key1 key2 data pos encrypt = (xor_at (aes_xts_ks key1 key2) (nat pos) data, None)"
  using assms
proof (induction key1 key2 data pos encrypt rule: xts_xorBlocks.induct)
  case (1 key1 key2 data pos encrypt)
  show ?case
  proof (cases "data = []")
    case True
    then show ?thesis by (simp add: xts_xorBlocks.simps [of _ _ "[]"])
  next
    case False
    let ?p = "nat pos"
    define n where "n = min (nat (16 - go_rem pos 16)) (length data)"
    have "0 < length data" using False by simp
    then have lt: "pos < int64_limit"
      using "1.prems"(2) by linarith
    have "nat (16 - go_rem pos 16) = 16 - ?p mod 16"
      using "1.prems" by (simp add: go_rem_nonneg nat_diff_distrib nat_mod_distrib)
    moreover have "?p mod 16 < 16" by simp
    ultimately have npos: "n \<le> length data" "?p mod 16 + n \<le> 16"
      unfolding n_def by linarith+
    then have piece: "xts_encryptBlock key1 (take n data) (xts_generateTweak key2 (go_div pos 16))
        (go_rem pos 16) = (xor_at (aes_xts_ks key1 key2) ?p (take n data), None)"
      using xts_encryptBlock_ks [OF "1.prems"(1) lt] by simp
    have "0 \<le> pos + int n" "pos + int n + int (length (drop n data)) \<le> int64_limit"
      using "1.prems" npos by (simp_all add: of_nat_diff)
    from "1.IH" [OF False refl refl refl refl refl _ refl, unfolded xts_decryptBlock_eq if_cancel
        n_def [symmetric], OF piece [symmetric], OF this]
    have rest: "xts_xorBlocks key1 key2 (drop n data) (pos + int n) encrypt =
        (xor_at (aes_xts_ks key1 key2) (nat (pos + int n)) (drop n data), None)" .
    have "xor_at (aes_xts_ks key1 key2) ?p data =
        xor_at (aes_xts_ks key1 key2) ?p (take n data) @
        xor_at (aes_xts_ks key1 key2) (nat (pos + int n)) (drop n data)"
      using npos "1.prems"(1) xor_at_append [of _ ?p "take n data" "drop n data"]
      by (simp add: min_absorb2 nat_add_distrib)
    moreover have "xts_xorBlocks key1 key2 data pos encrypt =
        (xor_at (aes_xts_ks key1 key2) ?p (take n data) @
         xor_at (aes_xts_ks key1 key2) (nat (pos + int n)) (drop n data), None)"
      by (subst xts_xorBlocks.simps)
        (simp only: Let_def False if_False if_cancel xts_decryptBlock_eq n_def [symmetric] piece rest
          prod.case option.case)
    ultimately show ?thesis by simp
  qed
qed

subsection \<open>Construction and methods\<close>

definition aes_xts_xor :: "bytes \<Rightarrow> bool \<Rightarrow> unit crypt_fun" where
  "aes_xts_xor key encrypt s data pos =
    ((), xts_xorBlocks (take 32 key) (take 32 (drop 32 key)) data pos encrypt)"

definition aes_xts_NewContext :: "osfile \<Rightarrow> bytes \<Rightarrow> io_error + unit ctx" where
  "aes_xts_NewContext f key = (if length key < 64 then Inl ErrUnexpectedEOF else ctx_new () f)"

definition aes_xts_step :: "bytes \<Rightarrow> unit ctx \<Rightarrow> file_op \<Rightarrow> unit ctx \<times> file_out" where
  "aes_xts_step key = ctx_step True (aes_xts_xor key True) (aes_xts_xor key False)"

definition aes_xts_stream :: "bytes \<Rightarrow> nat \<Rightarrow> byte" where
  "aes_xts_stream key = aes_xts_ks (take 32 key) (take 32 (drop 32 key))"

interpretation aes_xts: data_cipher "aes_xts_xor key True" "aes_xts_stream key" "\<lambda>_. True"
  int64_limit "aes_xts_xor key False" for key
  by unfold_locales (simp_all add: aes_xts_xor_def aes_xts_stream_def xts_xorBlocks_ks)

text \<open>C1. A session on an AES-XTS file may mix every operation, sequential reads included: each
  answers as on a plain file, and a context opened later on the resulting file finds the plain
  content. Conditions on the operations (\<open>op_fits\<close>): ReadAt and WriteAt have positions
  that are not negative; what is written ends at a position of type int64; and a Write, WriteAt or Truncate
  beyond the end of the file starts, or ends, within the room of the device, so that the gap it fills is not cut
  off. Writes themselves may be short.\<close>
theorem aes_xts_session:
  assumes "session_file int64_limit f" "64 \<le> length key"
    and "run_all (op_fits int64_limit (froom f)) (froom f) (file_plain (aes_xts_stream key) f) ops"
  shows "\<exists>c c1 outs c2. aes_xts_NewContext f key = Inr c \<and>
    run_ops (aes_xts_step key) c ops = (c1, outs) \<and>
    run_ops (plain_step (froom f)) (file_plain (aes_xts_stream key) f) ops =
      (ctx_plain (aes_xts_stream key) c1, outs) \<and>
    aes_xts_NewContext (storeFileIo c1) key = Inr c2 \<and>
    ctx_plain (aes_xts_stream key) c2 = (ctx_plain (aes_xts_stream key) c1)\<lparr>ppos := 0\<rparr>"
  using aes_xts.session_refines [where reseek = True, OF assms(1) _ _ assms(3)] assms(2)
  by (simp add: aes_xts_NewContext_def aes_xts_step_def)

lemma aes_xts_session_witness:
  "\<exists>c c1 outs c2. aes_xts_NewContext (new_file 50) (replicate 64 1) = Inr c \<and>
    run_ops (aes_xts_step (replicate 64 1)) c [FTruncate 40, FRead 5] = (c1, outs) \<and>
    run_ops (plain_step (froom (new_file 50)))
      (file_plain (aes_xts_stream (replicate 64 1)) (new_file 50)) [FTruncate 40, FRead 5] =
      (ctx_plain (aes_xts_stream (replicate 64 1)) c1, outs) \<and>
    aes_xts_NewContext (storeFileIo c1) (replicate 64 1) = Inr c2 \<and>
    ctx_plain (aes_xts_stream (replicate 64 1)) c2 =
      (ctx_plain (aes_xts_stream (replicate 64 1)) c1)\<lparr>ppos := 0\<rparr>"
  by (rule aes_xts_session) (simp_all add: int64_limit_def)

end
