(* ===== verification/ChaCha20.thy ===== *)
theory ChaCha20
  imports ContextRuns
begin

text \<open>
  ChaCha20 file encryption: src/native/sec_fs/crypto_data/algorithm_impl/chacha20/context.go.
  The cipher itself is golang.org/x/crypto/chacha20, which is not part of the repository: its
  three operations are parameters, and the locale states what their documentation promises
  about a key stream. The last section instantiates them with the cipher of RFC 8439.
\<close>

subsection \<open>The library\<close>

text \<open>\<open>new_cipher\<close> is NewUnauthenticatedCipher, \<open>set_counter\<close> is SetCounter, and \<open>xor_stream\<close>
  is XORKeyStream, which panics (\<open>None\<close>) when the 32-bit block counter would overflow;
  \<open>at_pos c key nonce n\<close> says that the cipher \<open>c\<close> has used \<open>n\<close> bytes of its key stream.\<close>

locale chacha20_library =
  fixes new_cipher :: "bytes \<Rightarrow> bytes \<Rightarrow> 'c option"
    and set_counter :: "'c \<Rightarrow> 32 word \<Rightarrow> 'c"
    and xor_stream :: "'c \<Rightarrow> bytes \<Rightarrow> ('c \<times> bytes) option"
    and stream :: "bytes \<Rightarrow> bytes \<Rightarrow> nat \<Rightarrow> byte"
    and at_pos :: "'c \<Rightarrow> bytes \<Rightarrow> bytes \<Rightarrow> nat \<Rightarrow> bool"
  assumes new_ok: "length key = 32 \<Longrightarrow> length nonce = 12 \<Longrightarrow>
      \<exists>c. new_cipher key nonce = Some c \<and> at_pos c key nonce 0"
    and counter_ok: "at_pos c key nonce 0 \<Longrightarrow> at_pos (set_counter c n) key nonce (64 * unat n)"
    and xor_ok: "at_pos c key nonce p \<Longrightarrow> p + length d \<le> 2 ^ 38 \<Longrightarrow>
      \<exists>c'. xor_stream c d = Some (c', xor_at (stream key nonce) p d) \<and>
        at_pos c' key nonce (p + length d)"

subsection \<open>The context\<close>

type_synonym 'c chacha20_lib =
  "(bytes \<Rightarrow> bytes \<Rightarrow> 'c option) \<times> ('c \<Rightarrow> 32 word \<Rightarrow> 'c) \<times> ('c \<Rightarrow> bytes \<Rightarrow> ('c \<times> bytes) option)"

text \<open>A new cipher is made for every call; when that fails the data is left as it is.\<close>

definition chacha20_xorKeystream :: "'c chacha20_lib \<Rightarrow> bytes \<Rightarrow> bytes \<Rightarrow> unit crypt_fun" where
  "chacha20_xorKeystream lib key nonce s data pos =
    (case lib of (new_cipher, set_counter, xor_stream) \<Rightarrow>
     case new_cipher key nonce of None \<Rightarrow> (s, data, None)
     | Some cipher \<Rightarrow>
       let blockNum = go_div pos 64;
           blockOffset = go_rem pos 64;
           cipher1 = set_counter cipher (word_of_int blockNum)
       in (case (if 0 < blockOffset then xor_stream cipher1 (replicate (nat blockOffset) 0)
                 else Some (cipher1, [])) of
             None \<Rightarrow> (s, data, Some RuntimePanic)
           | Some (cipher2, _) \<Rightarrow>
             (case xor_stream cipher2 data of None \<Rightarrow> (s, data, Some RuntimePanic)
              | Some (_, data') \<Rightarrow> (s, data', None))))"

definition chacha20_nonce :: bytes where
  "chacha20_nonce = replicate 12 0"

definition chacha20_NewContext :: "osfile \<Rightarrow> bytes \<Rightarrow> io_error + unit ctx" where
  "chacha20_NewContext f key = (if length key < 32 then Inl ErrUnexpectedEOF else ctx_new () f)"

definition chacha20_step :: "'c chacha20_lib \<Rightarrow> bytes \<Rightarrow> unit ctx \<Rightarrow> file_op \<Rightarrow> unit ctx \<times> file_out" where
  "chacha20_step lib key =
    ctx_step False (chacha20_xorKeystream lib (take 32 key) chacha20_nonce)
      (chacha20_xorKeystream lib (take 32 key) chacha20_nonce)"

text \<open>The positions one counter value per block can reach.\<close>

definition chacha20_limit :: int where
  "chacha20_limit = 2 ^ 38"

subsection \<open>The key stream\<close>

lemma chacha20_counter:
  assumes "0 \<le> pos" "pos < chacha20_limit"
  shows "64 * unat (word_of_int (go_div pos 64) :: 32 word) + nat (go_rem pos 64) = nat pos"
    "nat (go_rem pos 64) = nat pos mod 64"
proof -
  have "nat pos div 64 < 2 ^ 32"
    using assms by (simp add: chacha20_limit_def; linarith)
  then have "unat (word_of_int (go_div pos 64) :: 32 word) = nat pos div 64"
    using assms by (simp add: unat_go_div)
  moreover show "nat (go_rem pos 64) = nat pos mod 64"
    using assms by (simp add: go_rem_nonneg nat_mod_distrib)
  ultimately show "64 * unat (word_of_int (go_div pos 64) :: 32 word) + nat (go_rem pos 64) = nat pos"
    by simp
qed

lemma counter_wraps:
  "(word_of_int (2 ^ 32) :: 32 word) = 0" "word_of_int (n + 2 ^ 32) = (word_of_int n :: 32 word)"
proof -
  show 0: "(word_of_int (2 ^ 32) :: 32 word) = 0"
    by (simp add: word_of_int_eq_iff take_bit_eq_mod)
  show "word_of_int (n + 2 ^ 32) = (word_of_int n :: 32 word)"
    by (simp only: 0 of_int_add add_0_right)
qed

context chacha20_library
begin

lemma xorKeystream_ks:
  assumes key: "length key = 32" "length nonce = 12"
    and pos: "0 \<le> pos" "pos + int (length data) \<le> chacha20_limit"
  shows "chacha20_xorKeystream (new_cipher, set_counter, xor_stream) key nonce s data pos =
    (s, xor_at (stream key nonce) (nat pos) data, None)"
proof (cases "pos < chacha20_limit")
  case False
  with pos(2) have "pos = chacha20_limit" "length data = 0" by linarith+
  then have "pos = chacha20_limit" "data = []" by simp_all
  moreover obtain c where c: "new_cipher key nonce = Some c" "at_pos c key nonce 0"
    using new_ok [OF key] by blast
  moreover have "\<exists>c'. xor_stream (set_counter c (word_of_int (2 ^ 32))) [] = Some (c', [])"
    unfolding counter_wraps using xor_ok [OF counter_ok [OF c(2), of 0], of "[]"] by auto
  ultimately show ?thesis
    by (auto simp: chacha20_xorKeystream_def chacha20_limit_def go_div_nonneg go_rem_nonneg)
next
  case lt: True
  note ctr = chacha20_counter [OF pos(1) lt]
  let ?w = "word_of_int (go_div pos 64) :: 32 word"
  obtain c where c: "new_cipher key nonce = Some c" "at_pos c key nonce 0"
    using new_ok [OF key] by blast
  have c1: "at_pos (set_counter c ?w) key nonce (64 * unat ?w)"
    by (rule counter_ok [OF c(2)])
  have end_ok: "nat pos + length data \<le> 2 ^ 38"
    using pos by (simp add: chacha20_limit_def)
  obtain c2 o2 where c2: "(if 0 < go_rem pos 64 then xor_stream (set_counter c ?w) (replicate (nat (go_rem pos 64)) 0)
      else Some (set_counter c ?w, [])) = Some (c2, o2)" "at_pos c2 key nonce (nat pos)"
  proof (cases "0 < go_rem pos 64")
    case True
    have "64 * unat ?w + length (replicate (nat (go_rem pos 64)) (0 :: byte)) \<le> 2 ^ 38"
      using ctr(1) end_ok by simp
    from xor_ok [OF c1 this] ctr(1) True that show thesis by auto
  next
    case False
    with ctr(1) c1 that show thesis by simp
  qed
  from xor_ok [OF c2(2) end_ok] show ?thesis
    by (auto simp: chacha20_xorKeystream_def c c2(1) Let_def)
qed

lemma chacha20_data_cipher:
  assumes "length key = 32" "length nonce = 12"
  shows "data_cipher (chacha20_xorKeystream (new_cipher, set_counter, xor_stream) key nonce)
    (stream key nonce) (\<lambda>_. True) chacha20_limit
    (chacha20_xorKeystream (new_cipher, set_counter, xor_stream) key nonce)"
  using xorKeystream_ks [OF assms] by unfold_locales auto

end

subsection \<open>An instance: the cipher of RFC 8439\<close>

type_synonym chacha_state = "32 word list"

definition word32_of_le :: "bytes \<Rightarrow> 32 word" where
  "word32_of_le bs = of_nat (of_le_bytes bs)"

definition rotl32 :: "nat \<Rightarrow> 32 word \<Rightarrow> 32 word" where
  "rotl32 n x = (push_bit n x) OR (drop_bit (32 - n) x)"

definition quarter_round :: "nat \<Rightarrow> nat \<Rightarrow> nat \<Rightarrow> nat \<Rightarrow> chacha_state \<Rightarrow> chacha_state" where
  "quarter_round w x y z st =
    (let a = st ! w + st ! x; d = rotl32 16 (st ! z XOR a);
         c = st ! y + d; b = rotl32 12 (st ! x XOR c);
         a = a + b; d = rotl32 8 (d XOR a);
         c = c + d; b = rotl32 7 (b XOR c)
     in st[w := a, x := b, y := c, z := d])"

definition double_round :: "chacha_state \<Rightarrow> chacha_state" where
  "double_round st =
    fold (\<lambda>(a, b, c, d). quarter_round a b c d)
      [(0, 4, 8, 12), (1, 5, 9, 13), (2, 6, 10, 14), (3, 7, 11, 15),
       (0, 5, 10, 15), (1, 6, 11, 12), (2, 7, 8, 13), (3, 4, 9, 14)] st"

definition chacha_block :: "bytes \<Rightarrow> bytes \<Rightarrow> 32 word \<Rightarrow> bytes" where
  "chacha_block key nonce ctr =
    (let words = (\<lambda>bs n. map (\<lambda>i. word32_of_le (take 4 (drop (4 * i) bs))) [0..<n]);
         st = [0x61707865, 0x3320646e, 0x79622d32, 0x6b206574] @ words key 8 @ [ctr] @ words nonce 3
     in concat (map (\<lambda>w. le_bytes 4 (unat w)) (map2 (+) st ((double_round ^^ 10) st))))"

definition chacha_stream :: "bytes \<Rightarrow> bytes \<Rightarrow> nat \<Rightarrow> byte" where
  "chacha_stream key nonce p = chacha_block key nonce (of_nat (p div 64)) ! (p mod 64)"

text \<open>A cipher is its key, its nonce and the number of key-stream bytes used.\<close>

type_synonym rfc_cipher = "bytes \<times> bytes \<times> nat"

definition rfc_new :: "bytes \<Rightarrow> bytes \<Rightarrow> rfc_cipher option" where
  "rfc_new key nonce = (if length key = 32 \<and> length nonce = 12 then Some (key, nonce, 0) else None)"

definition rfc_set_counter :: "rfc_cipher \<Rightarrow> 32 word \<Rightarrow> rfc_cipher" where
  "rfc_set_counter c n = (case c of (key, nonce, p) \<Rightarrow> (key, nonce, 64 * unat n))"

definition rfc_xor_stream :: "rfc_cipher \<Rightarrow> bytes \<Rightarrow> (rfc_cipher \<times> bytes) option" where
  "rfc_xor_stream c d = (case c of (key, nonce, p) \<Rightarrow>
     if p + length d \<le> 2 ^ 38
     then Some ((key, nonce, p + length d), xor_at (chacha_stream key nonce) p d) else None)"

definition rfc_at :: "rfc_cipher \<Rightarrow> bytes \<Rightarrow> bytes \<Rightarrow> nat \<Rightarrow> bool" where
  "rfc_at c key nonce p \<longleftrightarrow> c = (key, nonce, p)"

interpretation rfc8439: chacha20_library rfc_new rfc_set_counter rfc_xor_stream chacha_stream rfc_at
  by unfold_locales (simp_all add: rfc_new_def rfc_set_counter_def rfc_xor_stream_def rfc_at_def)

subsection \<open>Sessions and the end of the counter\<close>

text \<open>C16. With a ChaCha20 library that keeps its documentation, a session without sequential reads
  answers as on a plain file, and a context opened later on the resulting file finds the plain
  content. Conditions on the operations (\<open>op_fits\<close>): ReadAt and WriteAt have positions
  that are not negative; what is written ends within 2^38 bytes; and a Write, WriteAt or Truncate
  beyond the end of the file starts, or ends, within the room of the device, so that the gap it fills is not cut
  off. Writes themselves may be short.\<close>
theorem chacha20_session:
  assumes "chacha20_library new_cipher set_counter xor_stream stream at_pos"
    and "session_file chacha20_limit f" "32 \<le> length key"
    and "run_all (op_fits chacha20_limit (froom f)) (froom f)
      (file_plain (stream (take 32 key) chacha20_nonce) f) ops"
    and "\<forall>op \<in> set ops. \<not> is_FRead op"
  shows "\<exists>c c1 outs c2. chacha20_NewContext f key = Inr c \<and>
    run_ops (chacha20_step (new_cipher, set_counter, xor_stream) key) c ops = (c1, outs) \<and>
    run_ops (plain_step (froom f)) (file_plain (stream (take 32 key) chacha20_nonce) f) ops =
      (ctx_plain (stream (take 32 key) chacha20_nonce) c1, outs) \<and>
    chacha20_NewContext (storeFileIo c1) key = Inr c2 \<and>
    ctx_plain (stream (take 32 key) chacha20_nonce) c2 =
      (ctx_plain (stream (take 32 key) chacha20_nonce) c1)\<lparr>ppos := 0\<rparr>"
proof -
  have "length (take 32 key) = 32" "length chacha20_nonce = 12"
    using assms(3) by (simp_all add: chacha20_nonce_def)
  note dc = chacha20_library.chacha20_data_cipher [OF assms(1) this]
  show ?thesis
    using data_cipher.session_refines [where reseek = False, OF dc assms(2) _ _ assms(4)] assms(3,5)
    by (simp add: chacha20_NewContext_def chacha20_step_def)
qed

lemma chacha20_session_witness:
  "\<exists>c c1 outs c2. chacha20_NewContext (new_file 50) (replicate 32 1) = Inr c \<and>
    run_ops (chacha20_step (rfc_new, rfc_set_counter, rfc_xor_stream) (replicate 32 1)) c
      [FWriteAt [5] 40, FReadAt 5 38] = (c1, outs) \<and>
    run_ops (plain_step (froom (new_file 50)))
      (file_plain (chacha_stream (take 32 (replicate 32 1)) chacha20_nonce) (new_file 50))
      [FWriteAt [5] 40, FReadAt 5 38] =
      (ctx_plain (chacha_stream (take 32 (replicate 32 1)) chacha20_nonce) c1, outs) \<and>
    chacha20_NewContext (storeFileIo c1) (replicate 32 1) = Inr c2 \<and>
    ctx_plain (chacha_stream (take 32 (replicate 32 1)) chacha20_nonce) c2 =
      (ctx_plain (chacha_stream (take 32 (replicate 32 1)) chacha20_nonce) c1)\<lparr>ppos := 0\<rparr>"
  by (rule chacha20_session [OF rfc8439.chacha20_library_axioms])
    (simp_all add: chacha20_limit_def)

text \<open>The block number is cut to 32 bits: 2^38 bytes further into a file the same key-stream
  bytes are used again, whatever the library does.\<close>
theorem chacha20_stream_repeats:
  assumes "0 \<le> pos"
  shows "chacha20_xorKeystream lib key nonce s data (pos + 2 ^ 38) =
    chacha20_xorKeystream lib key nonce s data pos"
proof -
  have "go_rem (pos + 2 ^ 38) 64 = go_rem pos 64"
    using assms mod_mult_self2 [of pos 64 "2 ^ 32"] by (simp add: go_rem_nonneg)
  moreover have "go_div (pos + 2 ^ 38) 64 = go_div pos 64 + 2 ^ 32"
    using assms div_mult_self2 [of 64 pos "2 ^ 32"] by (simp add: go_div_nonneg)
  ultimately show ?thesis
    unfolding chacha20_xorKeystream_def by (simp only: counter_wraps Let_def)
qed

lemma chacha20_stream_repeats_witness:
  "chacha20_xorKeystream (rfc_new, rfc_set_counter, rfc_xor_stream) (replicate 32 0) chacha20_nonce ()
     [1, 2, 3] (7 + 2 ^ 38) =
   chacha20_xorKeystream (rfc_new, rfc_set_counter, rfc_xor_stream) (replicate 32 0) chacha20_nonce ()
     [1, 2, 3] 7"
  by (rule chacha20_stream_repeats) simp

end
