(* ===== verification/Rc4Data.thy ===== *)
theory Rc4Data
  imports GoCrypto ContextRuns
begin

text \<open>
  RC4 file encryption: src/native/sec_fs/crypto_data/algorithm_impl/rc4/context.go. The
  context keeps two ciphers, one for reading and one for writing, each with the position it
  has reached; a call at that position continues the cipher, any other call makes a new
  cipher and discards its key stream up to the position.
\<close>

subsection \<open>Cipher states\<close>

record cipher_state =
  cs_cipher :: rc4_cipher
  cs_pos :: int

definition NewCipherState :: "bytes \<Rightarrow> io_error + cipher_state" where
  "NewCipherState key =
    (case rc4_NewCipher key of None \<Rightarrow> Inl ErrKeySize
     | Some cipher \<Rightarrow> Inr \<lparr>cs_cipher = cipher, cs_pos = 0\<rparr>)"

text \<open>The discard loop, in pieces of the chunk buffer; the buffer's content does not matter,
  only its length.\<close>

function rc4_discard :: "rc4_cipher \<Rightarrow> int \<Rightarrow> rc4_cipher" where
  "rc4_discard cipher remaining =
    (if remaining \<le> 0 then cipher
     else let chunkSize = (if int ChunkBufferSize < remaining then int ChunkBufferSize else remaining);
              (cipher', _) = rc4_XORKeyStream cipher (replicate (nat chunkSize) 0)
          in rc4_discard cipher' (remaining - chunkSize))"
  by pat_completeness auto
termination
  by (relation "measure (\<lambda>(cipher, remaining). nat remaining)") auto

declare rc4_discard.simps [simp del]

definition rc4_EncryptAt :: "cipher_state \<Rightarrow> bytes \<Rightarrow> int \<Rightarrow> bytes \<Rightarrow> cipher_state \<times> bytes" where
  "rc4_EncryptAt cs data pos key =
    (if pos = cs_pos cs then
       (let (cipher', out) = rc4_XORKeyStream (cs_cipher cs) data
        in (cs\<lparr>cs_cipher := cipher', cs_pos := cs_pos cs + int (length data)\<rparr>, out))
     else (case rc4_NewCipher key of None \<Rightarrow> (cs, data)
       | Some cipher \<Rightarrow>
         let cipher' = (if 0 < pos then rc4_discard cipher pos else cipher)
         in (cs, snd (rc4_XORKeyStream cipher' data))))"

definition rc4_DecryptAt :: "cipher_state \<Rightarrow> bytes \<Rightarrow> int \<Rightarrow> bytes \<Rightarrow> cipher_state \<times> bytes" where
  "rc4_DecryptAt cs data pos key = rc4_EncryptAt cs data pos key"

definition cipher_state_Reset :: "cipher_state \<Rightarrow> cipher_state" where
  "cipher_state_Reset cs = cs\<lparr>cs_cipher := rc4_Reset (cs_cipher cs), cs_pos := 0\<rparr>"

subsection \<open>The context\<close>

text \<open>\<open>lastReadCipher\<close> and \<open>lastWriteCipher\<close>.\<close>

type_synonym rc4_state = "cipher_state \<times> cipher_state"

definition rc4_encryptAt :: "bytes \<Rightarrow> rc4_state crypt_fun" where
  "rc4_encryptAt key s data pos =
    (case s of (r, w) \<Rightarrow> let (w', out) = rc4_EncryptAt w data pos key in ((r, w'), out, None))"

definition rc4_decryptAt :: "bytes \<Rightarrow> rc4_state crypt_fun" where
  "rc4_decryptAt key s data pos =
    (case s of (r, w) \<Rightarrow> let (r', out) = rc4_DecryptAt r data pos key in ((r', w), out, None))"

definition rc4_NewContext :: "osfile \<Rightarrow> bytes \<Rightarrow> io_error + rc4_state ctx" where
  "rc4_NewContext f key =
    (if length key = 0 then Inl ErrUnexpectedEOF
     else case NewCipherState key of Inl e \<Rightarrow> Inl e
       | Inr r \<Rightarrow> (case NewCipherState key of Inl e \<Rightarrow> Inl e | Inr w \<Rightarrow> ctx_new (r, w) f))"

definition rc4_step :: "bytes \<Rightarrow> rc4_state ctx \<Rightarrow> file_op \<Rightarrow> rc4_state ctx \<times> file_out" where
  "rc4_step key = ctx_step False (rc4_encryptAt key) (rc4_decryptAt key)"

definition rc4_Close :: "rc4_state ctx \<Rightarrow> rc4_state ctx \<times> io_error option" where
  "rc4_Close c =
    (case cipherState c of (r, w) \<Rightarrow>
      ctx_Close (c\<lparr>cipherState := (cipher_state_Reset r, cipher_state_Reset w)\<rparr>))"

subsection \<open>The key stream\<close>

text \<open>A cipher state is always the fresh cipher of the key advanced to its position.\<close>

definition cipher_state_ok :: "bytes \<Rightarrow> cipher_state \<Rightarrow> bool" where
  "cipher_state_ok key cs \<longleftrightarrow> 0 \<le> cs_pos cs \<and>
    (\<exists>c. rc4_NewCipher key = Some c \<and> cs_cipher cs = rc4_after c (nat (cs_pos cs)))"

definition rc4_state_ok :: "bytes \<Rightarrow> rc4_state \<Rightarrow> bool" where
  "rc4_state_ok key s \<longleftrightarrow> cipher_state_ok key (fst s) \<and> cipher_state_ok key (snd s)"

definition rc4_ks :: "bytes \<Rightarrow> nat \<Rightarrow> byte" where
  "rc4_ks key = rc4_stream (rc4_schedule key, 0, 0)"

lemma rc4_NewCipher_Some:
  "rc4_NewCipher key = Some c \<longleftrightarrow> 1 \<le> length key \<and> length key \<le> 256 \<and> c = (rc4_schedule key, 0, 0)"
  by (cases key) (auto simp: rc4_NewCipher_def)

lemma rc4_discard_after:
  "0 \<le> n \<Longrightarrow> rc4_discard (rc4_after c p) n = rc4_after c (p + nat n)"
proof (induction "nat n" arbitrary: n p rule: less_induct)
  case less
  show ?case
  proof (cases "n = 0")
    case True
    then show ?thesis by (simp add: rc4_discard.simps)
  next
    case False
    define m where "m = (if int ChunkBufferSize < n then int ChunkBufferSize else n)"
    have m: "0 < m" "m \<le> n"
      using less.prems False by (auto simp: m_def)
    have "rc4_discard (rc4_after c p) n = rc4_discard (rc4_after c (p + nat m)) (n - m)"
      using False less.prems
      by (subst rc4_discard.simps) (simp add: m_def [symmetric] rc4_XORKeyStream_after Let_def)
    also have "\<dots> = rc4_after c (p + nat m + nat (n - m))"
      using less.hyps [of "n - m" "p + nat m"] m by simp
    finally show ?thesis
      using m by (simp add: nat_diff_distrib)
  qed
qed

text \<open>Whatever was encrypted before, the data is XORed with the key stream of its position.\<close>

lemma rc4_EncryptAt_ks:
  assumes ok: "cipher_state_ok key cs" and pos: "0 \<le> pos"
  shows "\<exists>cs'. rc4_EncryptAt cs data pos key = (cs', xor_at (rc4_ks key) (nat pos) data) \<and>
    cipher_state_ok key cs'"
proof -
  obtain c where c: "rc4_NewCipher key = Some c" "cs_cipher cs = rc4_after c (nat (cs_pos cs))"
    and cs: "0 \<le> cs_pos cs" and ks: "rc4_ks key = rc4_stream c"
    using ok by (auto simp: cipher_state_ok_def rc4_NewCipher_Some rc4_ks_def)
  show ?thesis
  proof (cases "pos = cs_pos cs")
    case True
    with c cs ks show ?thesis
      by (simp add: rc4_EncryptAt_def cipher_state_ok_def rc4_XORKeyStream_after nat_add_distrib)
  next
    case False
    have "(if 0 < pos then rc4_discard c pos else c) = rc4_after c (nat pos)"
      using rc4_discard_after [of pos c 0] pos by auto
    with False c ok ks show ?thesis
      by (simp add: rc4_EncryptAt_def rc4_XORKeyStream_after)
  qed
qed

interpretation rc4: data_cipher "rc4_encryptAt key" "rc4_ks key" "rc4_state_ok key" int64_limit
  "rc4_decryptAt key" for key
proof
  show "\<exists>s'. rc4_encryptAt key s d p = (s', xor_at (rc4_ks key) (nat p) d, None) \<and> rc4_state_ok key s'"
    if "rc4_state_ok key s" "0 \<le> p" for s p and d :: bytes
    using that rc4_EncryptAt_ks [of key "snd s" p d]
    by (auto simp: rc4_encryptAt_def rc4_state_ok_def split: prod.splits)
  show "\<exists>s'. rc4_decryptAt key s d p = (s', xor_at (rc4_ks key) (nat p) d, None) \<and> rc4_state_ok key s'"
    if "rc4_state_ok key s" "0 \<le> p" for s p and d :: bytes
    using that rc4_EncryptAt_ks [of key "fst s" p d]
    by (auto simp: rc4_decryptAt_def rc4_DecryptAt_def rc4_state_ok_def split: prod.splits)
qed

subsection \<open>Properties\<close>

lemma rc4_NewCipherState_ok:
  assumes "key \<noteq> []" "length key \<le> 256"
  shows "\<exists>cs. NewCipherState key = Inr cs \<and> cipher_state_ok key cs"
  using assms by (cases key) (auto simp: NewCipherState_def cipher_state_ok_def rc4_NewCipher_def)

text \<open>C11. A session on an RC4 file without sequential reads, under a key of 1 to 256 bytes, answers
  as on a plain file although the context caches a reading and a writing cipher, and a context
  opened later on the resulting file finds the plain content. Conditions on the operations (\<open>op_fits\<close>): ReadAt and WriteAt have positions
  that are not negative; what is written ends at a position of type int64; and a Write, WriteAt or Truncate
  beyond the end of the file starts, or ends, within the room of the device, so that the gap it fills is not cut
  off. Writes themselves may be short.\<close>
theorem rc4_session:
  assumes "session_file int64_limit f" "key \<noteq> []" "length key \<le> 256"
    and "run_all (op_fits int64_limit (froom f)) (froom f) (file_plain (rc4_ks key) f) ops"
    and "\<forall>op \<in> set ops. \<not> is_FRead op"
  shows "\<exists>c c1 outs c2. rc4_NewContext f key = Inr c \<and> run_ops (rc4_step key) c ops = (c1, outs) \<and>
    run_ops (plain_step (froom f)) (file_plain (rc4_ks key) f) ops = (ctx_plain (rc4_ks key) c1, outs) \<and>
    rc4_NewContext (storeFileIo c1) key = Inr c2 \<and>
    ctx_plain (rc4_ks key) c2 = (ctx_plain (rc4_ks key) c1)\<lparr>ppos := 0\<rparr>"
proof -
  obtain cs where cs: "NewCipherState key = Inr cs" "cipher_state_ok key cs"
    using rc4_NewCipherState_ok [OF assms(2,3)] by blast
  then have ok: "rc4_state_ok key (cs, cs)"
    by (simp add: rc4_state_ok_def)
  show ?thesis
    using rc4.session_refines [where reseek = False, OF assms(1) ok ok assms(4)] assms(2,5) cs(1)
    by (simp add: rc4_NewContext_def rc4_step_def)
qed

lemma rc4_session_witness:
  "\<exists>c c1 outs c2. rc4_NewContext (new_file 90) [1, 2] = Inr c \<and>
    run_ops (rc4_step [1, 2]) c [FWriteAt [9, 8] 5, FWriteAt [7] 7, FReadAt 9 0] = (c1, outs) \<and>
    run_ops (plain_step (froom (new_file 90))) (file_plain (rc4_ks [1, 2]) (new_file 90))
      [FWriteAt [9, 8] 5, FWriteAt [7] 7, FReadAt 9 0] = (ctx_plain (rc4_ks [1, 2]) c1, outs) \<and>
    rc4_NewContext (storeFileIo c1) [1, 2] = Inr c2 \<and>
    ctx_plain (rc4_ks [1, 2]) c2 = (ctx_plain (rc4_ks [1, 2]) c1)\<lparr>ppos := 0\<rparr>"
  by (rule rc4_session)
    (simp_all add: int64_limit_def plain_WriteAt_def plain_fits_def length_overwrite Let_def)

text \<open>C17. The cached position never shows: in every state that satisfies the invariant, encrypting
  at a position gives the bytes that a new cipher state gives there, and the invariant is kept.\<close>
theorem rc4_EncryptAt_history_free:
  assumes "cipher_state_ok key cs" "NewCipherState key = Inr fresh" "0 \<le> pos"
  shows "snd (rc4_EncryptAt cs data pos key) = snd (rc4_EncryptAt fresh data pos key) \<and>
    cipher_state_ok key (fst (rc4_EncryptAt cs data pos key))"
proof -
  have "cipher_state_ok key fresh"
    using assms(2) by (auto simp: NewCipherState_def cipher_state_ok_def split: option.splits)
  with rc4_EncryptAt_ks [OF assms(1,3), of data] rc4_EncryptAt_ks [OF this assms(3), of data]
  show ?thesis by auto
qed

lemma rc4_EncryptAt_history_free_witness:
  "\<exists>fresh. NewCipherState [1, 2, 3] = Inr fresh \<and>
    snd (rc4_EncryptAt (fst (rc4_EncryptAt fresh [4, 5] 0 [1, 2, 3])) [6] 7 [1, 2, 3]) =
    snd (rc4_EncryptAt fresh [6] 7 [1, 2, 3])"
proof -
  obtain cs where cs: "NewCipherState [1, 2, 3] = Inr cs" "cipher_state_ok [1, 2, 3] cs"
    using rc4_NewCipherState_ok [of "[1, 2, 3]"] by auto
  then have "cipher_state_ok [1, 2, 3] (fst (rc4_EncryptAt cs [4, 5] 0 [1, 2, 3]))"
    using rc4_EncryptAt_ks [OF cs(2), of 0 "[4, 5]"] by auto
  from rc4_EncryptAt_history_free [OF this cs(1), of 7 "[6]"] cs(1) show ?thesis by auto
qed

end
