(* ===== verification/GoEncoding.thy ===== *)
theory GoEncoding
  imports GoCrypto
begin

text \<open>
  More of Go's standard library, as far as the names, the key derivers and the password
  records use it: base64 and hexadecimal text (encoding/base64, encoding/hex), SHA-256 and
  HMAC (crypto/sha256, crypto/hmac) and AES-GCM with a nonce of 12 bytes (crypto/cipher).
\<close>

subsection \<open>Strings as bytes\<close>

lemma unat_bytes_less: "\<forall>a \<in> set (map unat (d :: bytes)). a < 256"
  using unsigned_less [where 'a = nat and 'b = 8] by auto

definition string_bytes :: "string \<Rightarrow> bytes" where
  "string_bytes s = map (\<lambda>c. of_nat (of_char c)) s"

definition bytes_string :: "bytes \<Rightarrow> string" where
  "bytes_string bs = map (\<lambda>b. char_of (unat b)) bs"

lemma bytes_string_bytes [simp]: "bytes_string (string_bytes s) = s"
proof -
  have "unat (of_nat (of_char c) :: byte) = of_char c" for c :: char
    by (simp add: unsigned_of_nat take_bit_eq_mod)
  then show ?thesis
    by (simp add: bytes_string_def string_bytes_def comp_def)
qed

lemma string_bytes_Nil [simp]: "string_bytes s = [] \<longleftrightarrow> s = []"
  by (simp add: string_bytes_def)

lemma length_string_bytes [simp]: "length (string_bytes s) = length s"
  by (simp add: string_bytes_def)

subsection \<open>base64\<close>

definition url_alphabet :: string where
  "url_alphabet = ''ABCDEFGHIJKLMNOPQRSTUVWXYZabcdefghijklmnopqrstuvwxyz0123456789-_''"

definition std_alphabet :: string where
  "std_alphabet = ''ABCDEFGHIJKLMNOPQRSTUVWXYZabcdefghijklmnopqrstuvwxyz0123456789+/''"

definition b64_value :: "string \<Rightarrow> char \<Rightarrow> nat option" where
  "b64_value al c = (let i = length (takeWhile (\<lambda>x. x \<noteq> c) al) in if i < 64 then Some i else None)"

fun b64_sextets :: "nat list \<Rightarrow> nat list" where
  "b64_sextets [] = []"
| "b64_sextets [a] = [a div 4, (a mod 4) * 16]"
| "b64_sextets [a, b] = [a div 4, (a mod 4) * 16 + b div 16, (b mod 16) * 4]"
| "b64_sextets (a # b # c # r) =
    [a div 4, (a mod 4) * 16 + b div 16, (b mod 16) * 4 + c div 64, c mod 64] @ b64_sextets r"

definition b64_encode :: "string \<Rightarrow> bytes \<Rightarrow> string" where
  "b64_encode al d = map (\<lambda>i. al ! i) (b64_sextets (map unat d))"

fun b64_octets :: "nat list \<Rightarrow> nat list option" where
  "b64_octets [] = Some []"
| "b64_octets [a] = None"
| "b64_octets [a, b] = Some [a * 4 + b div 16]"
| "b64_octets [a, b, c] = Some [a * 4 + b div 16, (b mod 16) * 16 + c div 4]"
| "b64_octets (a # b # c # d # r) =
    (case b64_octets r of None \<Rightarrow> None
     | Some s \<Rightarrow> Some ([a * 4 + b div 16, (b mod 16) * 16 + c div 4, (c mod 4) * 64 + d] @ s))"

definition b64_values :: "string \<Rightarrow> string \<Rightarrow> bytes option" where
  "b64_values al cs =
    (let vs = map (b64_value al) cs in
     if None \<in> set vs then None
     else map_option (map of_nat) (b64_octets (map the vs)))"

text \<open>Decoding skips line breaks; any other character outside the alphabet is an error, and so is
  a single character at the end.\<close>

definition no_breaks :: "string \<Rightarrow> string" where
  "no_breaks s = filter (\<lambda>c. c \<noteq> CHR 0x0A \<and> c \<noteq> CHR 0x0D) s"

definition RawURLEncode :: "bytes \<Rightarrow> string" where
  "RawURLEncode d = b64_encode url_alphabet d"

definition RawURLDecode :: "string \<Rightarrow> bytes option" where
  "RawURLDecode s = b64_values url_alphabet (no_breaks s)"

definition RawStdEncode :: "bytes \<Rightarrow> string" where
  "RawStdEncode d = b64_encode std_alphabet d"

definition RawStdDecode :: "string \<Rightarrow> bytes option" where
  "RawStdDecode s = b64_values std_alphabet (no_breaks s)"

text \<open>\<^verbatim>\<open>StdEncoding\<close> pads the text to a multiple of four characters and insists on it.\<close>

definition StdEncode :: "bytes \<Rightarrow> string" where
  "StdEncode d = b64_encode std_alphabet d @ replicate ((3 - length d mod 3) mod 3) CHR ''=''"

definition StdDecode :: "string \<Rightarrow> bytes option" where
  "StdDecode s =
    (let cs = no_breaks s in
     if length cs mod 4 \<noteq> 0 then None
     else b64_values std_alphabet
       (if drop (length cs - 2) cs = ''=='' then take (length cs - 2) cs
        else if cs \<noteq> [] \<and> last cs = CHR ''='' then butlast cs else cs))"

text \<open>What a decoder needs to know about its alphabet.\<close>

definition alphabet_ok :: "string \<Rightarrow> bool" where
  "alphabet_ok al \<longleftrightarrow> list_all (\<lambda>i. b64_value al (al ! i) = Some i \<and> al ! i \<noteq> CHR 0x0A \<and>
     al ! i \<noteq> CHR 0x0D \<and> al ! i \<noteq> CHR ''='' \<and> of_char (al ! i) < (128 :: nat)) [0..<64]"

lemma alphabets_ok: "alphabet_ok url_alphabet" "alphabet_ok std_alphabet"
  by code_simp+

lemma alphabet_okD:
  assumes "alphabet_ok al" "i < 64"
  shows "b64_value al (al ! i) = Some i" "al ! i \<noteq> CHR 0x0A" "al ! i \<noteq> CHR 0x0D" "al ! i \<noteq> CHR ''=''"
    "of_char (al ! i) < (128 :: nat)"
  using assms by (auto simp: alphabet_ok_def list_all_iff)

lemma b64_sextets_less: "\<forall>a \<in> set d. a < 256 \<Longrightarrow> \<forall>v \<in> set (b64_sextets d). v < 64"
  by (induction d rule: b64_sextets.induct) auto

lemma b64_octets_sextets: "\<forall>a \<in> set d. a < 256 \<Longrightarrow> b64_octets (b64_sextets d) = Some d"
proof (induction d rule: b64_sextets.induct)
  case (4 a b c r)
  then have "b64_octets (b64_sextets r) = Some r" by simp
  moreover have "b div 16 < 16" "c div 64 < 4"
    using 4 by auto
  ultimately show ?case by simp
qed auto

lemma b64_encode_char:
  assumes "c \<in> set (b64_encode al d)"
  obtains i where "i < 64" "c = al ! i"
proof -
  obtain v where "v \<in> set (b64_sextets (map unat d))" "c = al ! v"
    using assms by (auto simp: b64_encode_def)
  moreover from this(1) have "v < 64"
    using b64_sextets_less [OF unat_bytes_less [of d]] by blast
  ultimately show thesis by (auto intro: that)
qed

lemma b64_values_encode:
  assumes "alphabet_ok al"
  shows "b64_values al (b64_encode al d) = Some d"
proof -
  define vs where "vs = b64_sextets (map unat d)"
  note oct = unat_bytes_less [of d]
  then have "\<forall>v \<in> set vs. v < 64"
    unfolding vs_def by (rule b64_sextets_less)
  then have "map (b64_value al) (map (\<lambda>i. al ! i) vs) = map Some vs"
    using alphabet_okD(1) [OF assms] by simp
  then have "None \<notin> set (map (b64_value al) (map (\<lambda>i. al ! i) vs))"
      "map the (map (b64_value al) (map (\<lambda>i. al ! i) vs)) = vs"
    by (simp_all only: set_map) (auto simp: comp_def)
  moreover have "b64_octets vs = Some (map unat d)"
    unfolding vs_def using oct by (rule b64_octets_sextets)
  ultimately show ?thesis
    unfolding b64_values_def b64_encode_def vs_def [symmetric] Let_def
    by (simp only: if_False option.map map_map comp_def) simp
qed

lemma no_breaks_encode [simp]:
  assumes "alphabet_ok al"
  shows "no_breaks (b64_encode al d) = b64_encode al d"
  unfolding no_breaks_def by (rule filter_True) (auto elim!: b64_encode_char dest: alphabet_okD [OF assms])

lemma RawURLDecode_Encode: "RawURLDecode (RawURLEncode d) = Some d"
  by (simp add: RawURLDecode_def RawURLEncode_def alphabets_ok b64_values_encode)

lemma RawStdDecode_Encode [simp]: "RawStdDecode (RawStdEncode d) = Some d"
  by (simp add: RawStdDecode_def RawStdEncode_def alphabets_ok b64_values_encode)

lemma length_b64_encode: "length (b64_encode al d) = (4 * length d + 2) div 3"
proof -
  have "length (b64_sextets xs) = (4 * length xs + 2) div 3" for xs
    by (induction xs rule: b64_sextets.induct) auto
  then show ?thesis by (simp add: b64_encode_def)
qed

lemma StdDecode_Encode [simp]: "StdDecode (StdEncode d) = Some d"
proof -
  let ?e = "b64_encode std_alphabet d" and ?p = "(3 - length d mod 3) mod 3"
  have brk: "no_breaks (StdEncode d) = ?e @ replicate ?p CHR ''=''"
    using no_breaks_encode [OF alphabets_ok(2), of d] by (simp add: StdEncode_def no_breaks_def)
  have eq: "CHR ''='' \<notin> set ?e"
    by (auto elim!: b64_encode_char dest: alphabet_okD [OF alphabets_ok(2)])
  have len: "length ?e = (4 * length d + 2) div 3" by (rule length_b64_encode)
  have m: "(length ?e + ?p) mod 4 = 0"
  proof -
    define q r where "q = length d div 3" and "r = length d mod 3"
    then have d: "length d = 3 * q + r" "r = 0 \<or> r = 1 \<or> r = 2" by auto
    have "?p = (3 - r) mod 3" by (simp add: r_def)
    moreover have "(4 * length d + 2) div 3 + (3 - r) mod 3 = 4 * (q + (if r = 0 then 0 else 1))"
      using d(2) unfolding d(1) by (elim disjE) (simp; linarith?)+
    ultimately have "(4 * length d + 2) div 3 + ?p = 4 * (q + (if r = 0 then 0 else 1))" by simp
    then show ?thesis
      unfolding len by simp
  qed
  have v: "b64_values std_alphabet ?e = Some d"
    by (rule b64_values_encode [OF alphabets_ok(2)])
  consider "?p = 0" | "?p = 1" | "?p = 2" by arith
  then show ?thesis
  proof cases
    case 1
    have "drop (length ?e - 2) ?e \<noteq> ''==''" "?e \<noteq> [] \<longrightarrow> last ?e \<noteq> CHR ''=''"
      using eq by (metis in_set_dropD list.set_intros(1), metis last_in_set)
    with 1 v m brk show ?thesis by (auto simp: StdDecode_def Let_def)
  next
    case 2
    have "drop (length ?e - 1) ?e @ ''='' \<noteq> ''==''"
      using eq by (metis append1_eq_conv append_Cons append_Nil in_set_dropD list.set_intros(1))
    with 2 v m brk show ?thesis by (simp add: StdDecode_def Let_def)
  next
    case 3
    have "replicate 2 CHR ''='' = ''==''" by (simp add: numeral_2_eq_2)
    with 3 v m brk show ?thesis by (simp add: StdDecode_def Let_def)
  qed
qed

text \<open>An encoded name is not empty and has no character that parsing a path treats specially.\<close>

lemma url_alphabet_safe:
  "list_all (\<lambda>i. url_alphabet ! i \<noteq> CHR ''.'' \<and> url_alphabet ! i \<noteq> CHR '':'' \<and>
     url_alphabet ! i \<noteq> CHR ''/'' \<and> url_alphabet ! i \<noteq> CHR 0x5C) [0..<64]"
  by code_simp

lemma RawURLEncode_chars:
  assumes "c \<in> set (RawURLEncode d)"
  shows "c \<noteq> CHR ''.'' \<and> c \<noteq> CHR '':'' \<and> c \<noteq> CHR ''/'' \<and> c \<noteq> CHR 0x5C"
  using assms url_alphabet_safe unfolding RawURLEncode_def by (auto elim!: b64_encode_char simp: list_all_iff)

lemma RawURLEncode_Nil [simp]: "RawURLEncode d = [] \<longleftrightarrow> d = []"
  by (cases "map unat d" rule: b64_sextets.cases) (auto simp: RawURLEncode_def b64_encode_def)

subsection \<open>Hexadecimal\<close>

definition hex_digits :: string where
  "hex_digits = ''0123456789abcdef''"

definition hex_value :: "char \<Rightarrow> nat option" where
  "hex_value c =
    (let n = of_char c in
     if 48 \<le> n \<and> n \<le> 57 then Some (n - 48)
     else if 97 \<le> n \<and> n \<le> 102 then Some (n - 87)
     else if 65 \<le> n \<and> n \<le> 70 then Some (n - 55) else None)"

definition hex_EncodeToString :: "bytes \<Rightarrow> string" where
  "hex_EncodeToString d = concat (map (\<lambda>b. [hex_digits ! (unat b div 16), hex_digits ! (unat b mod 16)]) d)"

fun hex_DecodeString :: "string \<Rightarrow> bytes option" where
  "hex_DecodeString [] = Some []"
| "hex_DecodeString [c] = None"
| "hex_DecodeString (a # b # s) =
    (case (hex_value a, hex_value b, hex_DecodeString s) of
       (Some x, Some y, Some d) \<Rightarrow> Some (of_nat (16 * x + y) # d)
     | _ \<Rightarrow> None)"

lemma hex_digit_facts:
  "list_all (\<lambda>i. hex_value (hex_digits ! i) = Some i \<and> of_char (hex_digits ! i) < (128 :: nat)) [0..<16]"
  by code_simp

lemma hex_digit:
  assumes "i < 16"
  shows "hex_value (hex_digits ! i) = Some i" "of_char (hex_digits ! i) < (128 :: nat)"
  using hex_digit_facts assms by (auto simp: list_all_iff)

lemma hex_Decode_Encode [simp]: "hex_DecodeString (hex_EncodeToString d) = Some d"
proof (induction d)
  case (Cons b d)
  have "unat b div 16 < 16"
    using unsigned_less [where 'a = nat and 'b = 8, of b] by (simp add: less_mult_imp_div_less)
  with Cons show ?case
    by (simp add: hex_EncodeToString_def hex_digit flip: mult.commute)
qed (simp add: hex_EncodeToString_def)

subsection \<open>SHA-256\<close>

type_synonym word32 = "32 word"

definition rotr32 :: "nat \<Rightarrow> word32 \<Rightarrow> word32" where
  "rotr32 n x = (drop_bit n x) OR (push_bit (32 - n) x)"

definition sha256_k :: "word32 list" where
  "sha256_k =
   [0x428a2f98, 0x71374491, 0xb5c0fbcf, 0xe9b5dba5, 0x3956c25b, 0x59f111f1, 0x923f82a4, 0xab1c5ed5,
    0xd807aa98, 0x12835b01, 0x243185be, 0x550c7dc3, 0x72be5d74, 0x80deb1fe, 0x9bdc06a7, 0xc19bf174,
    0xe49b69c1, 0xefbe4786, 0x0fc19dc6, 0x240ca1cc, 0x2de92c6f, 0x4a7484aa, 0x5cb0a9dc, 0x76f988da,
    0x983e5152, 0xa831c66d, 0xb00327c8, 0xbf597fc7, 0xc6e00bf3, 0xd5a79147, 0x06ca6351, 0x14292967,
    0x27b70a85, 0x2e1b2138, 0x4d2c6dfc, 0x53380d13, 0x650a7354, 0x766a0abb, 0x81c2c92e, 0x92722c85,
    0xa2bfe8a1, 0xa81a664b, 0xc24b8b70, 0xc76c51a3, 0xd192e819, 0xd6990624, 0xf40e3585, 0x106aa070,
    0x19a4c116, 0x1e376c08, 0x2748774c, 0x34b0bcb5, 0x391c0cb3, 0x4ed8aa4a, 0x5b9cca4f, 0x682e6ff3,
    0x748f82ee, 0x78a5636f, 0x84c87814, 0x8cc70208, 0x90befffa, 0xa4506ceb, 0xbef9a3f7, 0xc67178f2]"

definition sha256_init :: "word32 list" where
  "sha256_init = [0x6a09e667, 0xbb67ae85, 0x3c6ef372, 0xa54ff53a, 0x510e527f, 0x9b05688c, 0x1f83d9ab,
     0x5be0cd19]"

definition sha256_pad :: "bytes \<Rightarrow> bytes" where
  "sha256_pad m = m @ [0x80] @ replicate ((119 - length m mod 64) mod 64) 0 @ be_bytes 8 (8 * length m)"

text \<open>The message schedule, newest word first.\<close>

fun sha256_extend :: "nat \<Rightarrow> word32 list \<Rightarrow> word32 list" where
  "sha256_extend 0 w = w"
| "sha256_extend (Suc n) w =
    (let a = w ! 14; b = w ! 1;
         s0 = rotr32 7 a XOR rotr32 18 a XOR drop_bit 3 a;
         s1 = rotr32 17 b XOR rotr32 19 b XOR drop_bit 10 b
     in sha256_extend n ((w ! 15 + s0 + w ! 6 + s1) # w))"

definition sha256_round :: "word32 \<times> word32 \<Rightarrow> word32 list \<Rightarrow> word32 list" where
  "sha256_round kw v =
    (case v of [a, b, c, d, e, f, g, h] \<Rightarrow>
       let s1 = rotr32 6 e XOR rotr32 11 e XOR rotr32 25 e;
           ch = (e AND f) XOR (NOT e AND g);
           t1 = h + s1 + ch + fst kw + snd kw;
           s0 = rotr32 2 a XOR rotr32 13 a XOR rotr32 22 a;
           maj = (a AND b) XOR (a AND c) XOR (b AND c)
       in [t1 + s0 + maj, a, b, c, d + t1, e, f, g]
     | _ \<Rightarrow> v)"

definition sha256_block :: "bytes \<Rightarrow> word32 list \<Rightarrow> word32 list" where
  "sha256_block blk h =
    (let ws = map (\<lambda>i. of_nat (of_be_bytes (take 4 (drop (4 * i) blk)))) [0..<16];
         w = rev (sha256_extend 48 (rev ws))
     in map2 (+) h (fold sha256_round (zip sha256_k w) h))"

definition sha256_Sum256 :: "bytes \<Rightarrow> bytes" where
  "sha256_Sum256 m =
    (let p = sha256_pad m
     in concat (map (\<lambda>x. be_bytes 4 (unat x))
          (fold (\<lambda>i. sha256_block (take 64 (drop (64 * i) p))) [0..<length p div 64] sha256_init)))"

lemma length_sha256_Sum256 [simp]: "length (sha256_Sum256 m) = 32"
proof -
  have "length (sha256_round kw v) = length v" for kw v
    by (auto simp: sha256_round_def Let_def split: list.splits)
  then have rounds: "length (fold sha256_round kws v) = length v" for kws v
    by (induction kws arbitrary: v) auto
  have "length (fold (\<lambda>i. sha256_block (B i)) is h) = length h" for B and "is" :: "nat list" and h
    by (induction "is" arbitrary: h) (auto simp: sha256_block_def rounds Let_def)
  moreover have "length (concat (map (\<lambda>x. be_bytes 4 (f x)) xs)) = 4 * length xs"
    for f :: "word32 \<Rightarrow> nat" and xs
    by (induction xs) auto
  ultimately show ?thesis
    by (simp add: sha256_Sum256_def sha256_init_def Let_def)
qed

subsection \<open>HMAC-SHA-256\<close>

definition hmac_sha256 :: "bytes \<Rightarrow> bytes \<Rightarrow> bytes" where
  "hmac_sha256 key msg =
    (let k = (if 64 < length key then sha256_Sum256 key else key);
         block = k @ replicate (64 - length k) 0
     in sha256_Sum256 (map (\<lambda>b. b XOR 0x5C) block @ sha256_Sum256 (map (\<lambda>b. b XOR 0x36) block @ msg)))"

lemma length_hmac_sha256 [simp]: "length (hmac_sha256 key msg) = 32"
  by (simp add: hmac_sha256_def Let_def)

subsection \<open>AES-GCM\<close>

text \<open>Multiplication in the field of GHASH; bit 127 of the word is the first bit of the block.\<close>

fun ghash_mul :: "nat \<Rightarrow> nat \<Rightarrow> 128 word \<Rightarrow> 128 word \<Rightarrow> 128 word \<Rightarrow> 128 word" where
  "ghash_mul 0 i x v z = z"
| "ghash_mul (Suc n) i x v z =
    ghash_mul n (Suc i) x
      (if bit v 0 then drop_bit 1 v XOR push_bit 120 0xE1 else drop_bit 1 v)
      (if bit x (127 - i) then z XOR v else z)"

definition block_word :: "bytes \<Rightarrow> 128 word" where
  "block_word b = of_nat (of_be_bytes (b @ replicate (16 - length b) 0))"

definition ghash :: "128 word \<Rightarrow> bytes list \<Rightarrow> 128 word" where
  "ghash h blocks = fold (\<lambda>b y. ghash_mul 128 0 (y XOR block_word b) h 0) blocks 0"

definition blocks16 :: "bytes \<Rightarrow> bytes list" where
  "blocks16 d = map (\<lambda>i. take 16 (drop (16 * i) d)) [0..<(length d + 15) div 16]"

definition gcm_tag :: "bytes \<Rightarrow> bytes \<Rightarrow> bytes \<Rightarrow> bytes \<Rightarrow> bytes" where
  "gcm_tag key nonce aad ct =
    (let h = block_word (aes256_encrypt key (replicate 16 0));
         s = ghash h (blocks16 aad @ blocks16 ct @ [be_bytes 8 (8 * length aad) @ be_bytes 8 (8 * length ct)])
     in map2 (XOR) (be_bytes 16 (unat s)) (aes256_encrypt key (nonce @ be_bytes 4 1)))"

text \<open>The counter of GCM is the last 32 bits; it starts at 2 for the data.\<close>

definition gcm_ks :: "bytes \<Rightarrow> bytes \<Rightarrow> nat \<Rightarrow> byte" where
  "gcm_ks key nonce p = aes256_encrypt key (nonce @ be_bytes 4 (2 + p div 16)) ! (p mod 16)"

text \<open>\<^verbatim>\<open>Seal(dst, nonce, plaintext, additionalData)\<close> appends the ciphertext and the tag to \<open>dst\<close>.\<close>

definition gcm_Seal :: "bytes \<Rightarrow> bytes \<Rightarrow> bytes \<Rightarrow> bytes \<Rightarrow> bytes \<Rightarrow> bytes" where
  "gcm_Seal key dst nonce plaintext aad =
    (let ct = xor_at (gcm_ks key nonce) 0 plaintext in dst @ ct @ gcm_tag key nonce aad ct)"

definition gcm_Open :: "bytes \<Rightarrow> bytes \<Rightarrow> bytes \<Rightarrow> bytes \<Rightarrow> bytes option" where
  "gcm_Open key nonce ciphertext aad =
    (if length ciphertext < 16 then None
     else let n = length ciphertext - 16; ct = take n ciphertext; tag = drop n ciphertext in
       if tag = gcm_tag key nonce aad ct then Some (xor_at (gcm_ks key nonce) 0 ct) else None)"

lemma length_gcm_tag [simp]: "length (gcm_tag key nonce aad ct) = 16"
  by (simp add: gcm_tag_def Let_def)

lemma gcm_Open_Seal: "gcm_Open key nonce (gcm_Seal key [] nonce p aad) aad = Some p"
  by (simp add: gcm_Open_def gcm_Seal_def Let_def)

end
