(* ===== verification/PathUtils.thy ===== *)
theory PathUtils
  imports Main
begin

text \<open>
  Path parsing and printing: src/native/sec_fs/sec_utils (path_comm.go, path_utils.go and
  path_utils_easy.go). A Go string is a sequence of bytes, here a list of 8-bit characters.
  The index loops that skip over a run of characters are written with \<^term>\<open>takeWhile\<close> from
  the index. The two package variables that parsing reads, the scheme registry and the
  default behaviour, and the separator of the system are a record. The caches of
  \<^verbatim>\<open>Path()\<close> and \<^verbatim>\<open>Encode()\<close> hold the value that is computed here each time.
\<close>

subsection \<open>Character classes (path_comm.go)\<close>

definition byte_of :: "char \<Rightarrow> nat" where
  "byte_of c = of_char c"

definition isEnglishLetterSimple :: "char \<Rightarrow> bool" where
  "isEnglishLetterSimple c \<longleftrightarrow>
    (byte_of CHR ''A'' \<le> byte_of c \<and> byte_of c \<le> byte_of CHR ''Z'') \<or>
    (byte_of CHR ''a'' \<le> byte_of c \<and> byte_of c \<le> byte_of CHR ''z'')"

definition isSchemeCharSimple :: "char \<Rightarrow> bool" where
  "isSchemeCharSimple c \<longleftrightarrow>
    (byte_of CHR ''a'' \<le> byte_of c \<and> byte_of c \<le> byte_of CHR ''z'') \<or>
    (byte_of CHR ''A'' \<le> byte_of c \<and> byte_of c \<le> byte_of CHR ''Z'') \<or>
    (byte_of CHR ''0'' \<le> byte_of c \<and> byte_of c \<le> byte_of CHR ''9'') \<or>
    c = CHR ''+'' \<or> c = CHR ''-'' \<or> c = CHR ''.''"

text \<open>The lookup tables of 256 bytes, filled by loops at program start.\<close>

definition mark_range :: "char \<Rightarrow> char \<Rightarrow> nat list \<Rightarrow> nat list" where
  "mark_range lo hi t = fold (\<lambda>i t. t[i := 1]) [byte_of lo..<Suc (byte_of hi)] t"

definition buildEnglishLetterMapO1 :: "nat list" where
  "buildEnglishLetterMapO1 =
    mark_range (CHR ''a'') (CHR ''z'') (mark_range (CHR ''A'') (CHR ''Z'') (replicate 256 0))"

definition buildPathSchemeCharMapO1 :: "nat list" where
  "buildPathSchemeCharMapO1 =
    (let t = mark_range (CHR ''A'') (CHR ''Z'') (replicate 256 0);
         t = mark_range (CHR ''a'') (CHR ''z'') t;
         t = mark_range (CHR ''0'') (CHR ''9'') t
     in t[byte_of CHR ''+'' := 1, byte_of CHR ''-'' := 1, byte_of CHR ''.'' := 1])"

definition isEnglishLetter :: "char \<Rightarrow> bool" where
  "isEnglishLetter c \<longleftrightarrow> buildEnglishLetterMapO1 ! byte_of c = 1"

definition isPathSchemeChar :: "char \<Rightarrow> bool" where
  "isPathSchemeChar c \<longleftrightarrow> buildPathSchemeCharMapO1 ! byte_of c = 1"

lemma byte_of_less: "byte_of c < 256"
  by (simp add: byte_of_def)

lemma length_mark_range [simp]: "length (mark_range lo hi t) = length t"
proof -
  have "length (fold (\<lambda>i t. t[i := (1 :: nat)]) is t) = length t" for "is"
    by (induction "is" arbitrary: t) auto
  then show ?thesis by (simp add: mark_range_def)
qed

lemma nth_mark_range:
  assumes "i < length t" "byte_of hi < length t"
  shows "mark_range lo hi t ! i = (if byte_of lo \<le> i \<and> i \<le> byte_of hi then 1 else t ! i)"
proof -
  have "fold (\<lambda>i t. t[i := (1 :: nat)]) is t ! i = (if i \<in> set is then 1 else t ! i)"
    if "i < length t" for "is" t
    using that by (induction "is" arbitrary: t) (auto simp: nth_list_update)
  with assms(1) show ?thesis
    by (auto simp: mark_range_def)
qed

lemma isEnglishLetter_Simple: "isEnglishLetter c = isEnglishLetterSimple c"
  using byte_of_less [of c]
  by (simp add: isEnglishLetter_def isEnglishLetterSimple_def buildEnglishLetterMapO1_def
      nth_mark_range byte_of_less)

lemma byte_of_eq: "byte_of c = byte_of d \<longleftrightarrow> c = d"
  by (simp add: byte_of_def)

lemma isPathSchemeChar_Simple: "isPathSchemeChar c = isSchemeCharSimple c"
  using byte_of_less [of c] byte_of_less
  by (auto simp: isPathSchemeChar_def isSchemeCharSimple_def buildPathSchemeCharMapO1_def
      nth_mark_range nth_list_update byte_of_eq Let_def)

subsection \<open>Schemes and options\<close>

text \<open>\<^verbatim>\<open>SchemeBehavior\<close> is one flag; the registry maps lower-case names to it.\<close>

record SchemeBehavior =
  MustFollowRFC3986Authority :: bool

record path_env =
  schemeRegistry :: "string \<rightharpoonup> SchemeBehavior"
  DefaultSchemeBehavior :: SchemeBehavior
  DefaultSystemSeparator :: char

definition ascii_lower :: "char \<Rightarrow> char" where
  "ascii_lower c =
    (if byte_of CHR ''A'' \<le> byte_of c \<and> byte_of c \<le> byte_of CHR ''Z'' then char_of (byte_of c + 32) else c)"

definition standardRFC3986Schemes :: "string list" where
  "standardRFC3986Schemes =
    [''http'', ''https'', ''file'', ''files'', ''ftp'', ''sftp'', ''ssh'', ''ws'', ''wss'', ''git'',
     ''svn'', ''svn+ssh'', ''dav'', ''davs'']"

definition RegisterScheme :: "string \<Rightarrow> SchemeBehavior \<Rightarrow> path_env \<Rightarrow> path_env" where
  "RegisterScheme scheme behavior env =
    env\<lparr>schemeRegistry := (schemeRegistry env)(map ascii_lower scheme \<mapsto> behavior)\<rparr>"

definition SetDefaultSchemeBehavior :: "SchemeBehavior \<Rightarrow> path_env \<Rightarrow> path_env" where
  "SetDefaultSchemeBehavior behavior env = env\<lparr>DefaultSchemeBehavior := behavior\<rparr>"

definition GetSchemeBehavior :: "path_env \<Rightarrow> string \<Rightarrow> SchemeBehavior" where
  "GetSchemeBehavior env scheme =
    (let schemeLower = map ascii_lower scheme in
     case schemeRegistry env schemeLower of Some behavior \<Rightarrow> behavior
     | None \<Rightarrow>
       if schemeLower \<in> set standardRFC3986Schemes then \<lparr>MustFollowRFC3986Authority = True\<rparr>
       else DefaultSchemeBehavior env)"

text \<open>The parse options hold an optional override for every scheme.\<close>

type_synonym ParseOptions = "SchemeBehavior option"

definition getEffectiveSchemeBehavior :: "path_env \<Rightarrow> string \<Rightarrow> ParseOptions \<Rightarrow> SchemeBehavior" where
  "getEffectiveSchemeBehavior env scheme opts =
    (case opts of Some behavior \<Rightarrow> behavior | None \<Rightarrow> GetSchemeBehavior env scheme)"

subsection \<open>Path information\<close>

datatype PathType =
    PathTypeUnknown
  | PathTypeLocalRelative
  | PathTypeLocalAbsolute
  | PathTypeFileUriLocal
  | PathTypeFileUriRemote
  | PathTypeFileUriUnc
  | PathTypeCustomUri
  | PathTypeUncWindows

record pathInfo =
  pscheme :: string
  phost :: string
  pseparator :: char
  pparts :: "string list"
  pathType :: PathType

abbreviation slash :: char where "slash \<equiv> CHR ''/''"
abbreviation backslash :: char where "backslash \<equiv> CHR 0x5C"
abbreviation colon :: char where "colon \<equiv> CHR '':''"

definition is_sep :: "char \<Rightarrow> bool" where
  "is_sep c \<longleftrightarrow> c = slash \<or> c = backslash"

definition isWindowsDriveString :: "string \<Rightarrow> bool" where
  "isWindowsDriveString s \<longleftrightarrow> length s = 2 \<and> s ! 1 = colon \<and> isEnglishLetter (s ! 0)"

definition isFileURIScheme :: "string \<Rightarrow> bool" where
  "isFileURIScheme scheme \<longleftrightarrow> scheme = ''file://'' \<or> scheme = ''files://''"

definition has_suffix :: "string \<Rightarrow> string \<Rightarrow> bool" where
  "has_suffix s t \<longleftrightarrow> length t \<le> length s \<and> drop (length s - length t) s = t"

definition isURIScheme :: "string \<Rightarrow> bool" where
  "isURIScheme scheme \<longleftrightarrow>
    3 < length scheme \<and> has_suffix scheme ''://'' \<and> scheme \<noteq> [backslash, backslash]"

text \<open>\<^verbatim>\<open>strings.EqualFold(host, "localhost")\<close>: the one character outside ASCII that folds to a
  letter of that word is U+017F (bytes C5 BF), which folds to s.\<close>

fun fold_long_s :: "string \<Rightarrow> string" where
  "fold_long_s (a # b # s) =
    (if a = CHR 0xC5 \<and> b = CHR 0xBF then CHR ''s'' # fold_long_s s else a # fold_long_s (b # s))"
| "fold_long_s s = s"

definition isLocalhost :: "string \<Rightarrow> bool" where
  "isLocalhost host \<longleftrightarrow>
    host \<noteq> [] \<and>
    (map ascii_lower (fold_long_s host) = ''localhost'' \<or> take 4 host = ''127.'' \<or> host = ''[::1]'')"

subsection \<open>Printing\<close>

text \<open>The loop of \<^verbatim>\<open>buildPath\<close> over the non-empty parts.\<close>

fun build_parts :: "bool \<Rightarrow> char \<Rightarrow> string list \<Rightarrow> string" where
  "build_parts first separator [] = []"
| "build_parts first separator (part # parts) =
    (if part = [] then build_parts first separator parts
     else (if first then [] else [separator]) @ part @ build_parts False separator parts)"

definition buildPath :: "string \<Rightarrow> string list \<Rightarrow> char \<Rightarrow> string" where
  "buildPath prefix parts separator =
    (if parts = [] then prefix
     else prefix @ (if hd parts = [] then [separator] else []) @ build_parts True separator parts)"

definition pathInfo_Path :: "pathInfo \<Rightarrow> string" where
  "pathInfo_Path info =
    (let prefix = (if phost info \<noteq> [] \<and> pscheme info = [] \<and> pathType info = PathTypeLocalAbsolute
                   then phost info else [])
     in buildPath prefix (pparts info) (pseparator info))"

definition pathInfo_Parts :: "pathInfo \<Rightarrow> string list" where
  "pathInfo_Parts info =
    (if 1 < length (pparts info) \<and> hd (pparts info) = [] then tl (pparts info) else pparts info)"

definition pathInfo_IsRelative :: "pathInfo \<Rightarrow> bool" where
  "pathInfo_IsRelative info \<longleftrightarrow> pathType info = PathTypeLocalRelative"

definition encoded_host :: "pathInfo \<Rightarrow> string" where
  "encoded_host info =
    (if phost info = [] then []
     else if pscheme info \<noteq> [] \<and> pathType info \<noteq> PathTypeLocalAbsolute then
       (case pathType info of
          PathTypeFileUriRemote \<Rightarrow>
            phost info @ (if pparts info = [] \<or> hd (pparts info) \<noteq> [] then [slash] else [])
        | PathTypeCustomUri \<Rightarrow>
            phost info @ (if pparts info = [] \<or> hd (pparts info) \<noteq> [] then [slash] else [])
        | PathTypeUncWindows \<Rightarrow> phost info
        | PathTypeFileUriUnc \<Rightarrow> ''//'' @ phost info
        | PathTypeFileUriLocal \<Rightarrow>
            (if isWindowsDriveString (phost info) then [slash] @ phost info else phost info)
        | _ \<Rightarrow> [])
     else if pscheme info = [] then phost info else [])"

definition buildEncodedPath :: "pathInfo \<Rightarrow> string" where
  "buildEncodedPath info =
    pscheme info @ encoded_host info @ buildPath [] (pparts info) (pseparator info) @
    (if isFileURIScheme (pscheme info) \<and> pparts info = [] then [slash] else [])"

definition pathInfo_Encode :: "pathInfo \<Rightarrow> string" where
  "pathInfo_Encode info = buildEncodedPath info"

definition pathInfo_WithoutScheme :: "pathInfo \<Rightarrow> string" where
  "pathInfo_WithoutScheme info = pathInfo_Path info"

subsection \<open>Operations on path information\<close>

definition pathInfo_Dir :: "pathInfo \<Rightarrow> pathInfo" where
  "pathInfo_Dir info =
    (if pparts info = [] then info else info\<lparr>pparts := butlast (pparts info)\<rparr>)"

definition pathInfo_Join :: "pathInfo \<Rightarrow> string list \<Rightarrow> pathInfo" where
  "pathInfo_Join info parts =
    (if parts = [] then info else info\<lparr>pparts := pparts info @ parts\<rparr>)"

definition pathInfo_ReplaceParts :: "pathInfo \<Rightarrow> string list \<Rightarrow> pathInfo" where
  "pathInfo_ReplaceParts info newParts =
    info\<lparr>pparts :=
      (if pparts info \<noteq> [] \<and> hd (pparts info) = [] \<and> (newParts = [] \<or> hd newParts \<noteq> [])
       then [] # newParts else newParts)\<rparr>"

definition is_root_parts :: "string list \<Rightarrow> bool" where
  "is_root_parts parts \<longleftrightarrow> parts = [[]] \<or> parts = [[], []]"

definition pathInfo_ContainsPathInfo :: "pathInfo \<Rightarrow> pathInfo \<Rightarrow> bool" where
  "pathInfo_ContainsPathInfo info other =
    (let ps = pathInfo_Parts info; qs = pathInfo_Parts other in
     if ps = [] \<and> qs = [] then pathInfo_Encode info = pathInfo_Encode other
     else if ps = [] \<or> qs = [] then False
     else if pscheme info \<noteq> pscheme other \<or> phost info \<noteq> phost other then False
     else if is_root_parts ps then is_root_parts qs \<or> (\<exists>part \<in> set qs. part \<noteq> [])
     else length ps \<le> length qs \<and> (\<forall>i < length ps. ps ! i = qs ! i))"

subsection \<open>Scheme and host extraction\<close>

text \<open>How many separators, or other characters, follow from an index.\<close>

definition seps_from :: "string \<Rightarrow> nat \<Rightarrow> nat" where
  "seps_from path i = length (takeWhile is_sep (drop i path))"

definition nonseps_from :: "string \<Rightarrow> nat \<Rightarrow> nat" where
  "nonseps_from path i = length (takeWhile (\<lambda>c. \<not> is_sep c) (drop i path))"

definition nonbackslashes_from :: "string \<Rightarrow> nat \<Rightarrow> nat" where
  "nonbackslashes_from path i = length (takeWhile (\<lambda>c. c \<noteq> backslash) (drop i path))"

definition slice :: "string \<Rightarrow> nat \<Rightarrow> nat \<Rightarrow> string" where
  "slice path i j = take (j - i) (drop i path)"

definition forward_slashes :: "string \<Rightarrow> string" where
  "forward_slashes s = map (\<lambda>c. if c = backslash then slash else c) s"

definition trim_suffix :: "string \<Rightarrow> string \<Rightarrow> string" where
  "trim_suffix s t = (if has_suffix s t then take (length s - length t) s else s)"

fun scheme_end_loop :: "string \<Rightarrow> nat \<Rightarrow> int" where
  "scheme_end_loop [] i = - 1"
| "scheme_end_loop (c # cs) i =
    (if c = colon then (if i = 1 then - 1 else int i)
     else if \<not> isPathSchemeChar c then - 1
     else scheme_end_loop cs (Suc i))"

definition findURISchemeEnd :: "string \<Rightarrow> int" where
  "findURISchemeEnd path =
    (case path of [] \<Rightarrow> - 1
     | c # cs \<Rightarrow> if \<not> isEnglishLetter c then - 1 else scheme_end_loop cs 1)"

text \<open>Scheme, host, the index where the path starts, and the type.\<close>

type_synonym extraction = "string \<times> string \<times> nat \<times> PathType"

definition extractHostForTwoSlashURI ::
  "string \<Rightarrow> nat \<Rightarrow> bool \<Rightarrow> SchemeBehavior \<Rightarrow> string \<times> nat \<times> PathType" where
  "extractHostForTwoSlashURI path pathEnd isFileScheme behavior =
    (let hostStart = pathEnd + seps_from path pathEnd;
         hostEnd = hostStart + nonseps_from path hostStart;
         host = slice path hostStart hostEnd
     in if \<not> MustFollowRFC3986Authority behavior then ([], hostStart, PathTypeCustomUri)
        else if length path \<le> hostStart then
          ([], pathEnd, if isFileScheme then PathTypeFileUriLocal else PathTypeCustomUri)
        else if hostEnd \<le> hostStart then ([], pathEnd, PathTypeCustomUri)
        else if isFileScheme then
          (if isWindowsDriveString host then (host, hostEnd, PathTypeFileUriLocal)
           else if isLocalhost host then (host, hostEnd, PathTypeFileUriLocal)
           else (host, hostEnd, PathTypeFileUriRemote))
        else (host, hostEnd, PathTypeCustomUri))"

definition extractHostForMultiSlashURI ::
  "string \<Rightarrow> nat \<Rightarrow> nat \<Rightarrow> bool \<Rightarrow> SchemeBehavior \<Rightarrow> string \<times> nat \<times> PathType" where
  "extractHostForMultiSlashURI path pathEnd slashCount isFileScheme behavior =
    (let hostStart = pathEnd + seps_from path pathEnd;
         hostEnd = hostStart + nonseps_from path hostStart
     in if slashCount = 4 \<and> isFileScheme \<and> hostStart < hostEnd then
          (slice path hostStart hostEnd, hostEnd, PathTypeFileUriUnc)
        else if hostStart + 1 < length path \<and> path ! (hostStart + 1) = colon \<and>
            isEnglishLetter (path ! hostStart) then
          (slice path hostStart (hostStart + 2), hostStart + 2, PathTypeFileUriLocal)
        else ([], pathEnd, if isFileScheme then PathTypeFileUriLocal else PathTypeCustomUri))"

text \<open>Both branches return what the host extraction returns, whether it found a host or not.\<close>

definition extractURISchemeWithSlashes ::
  "path_env \<Rightarrow> string \<Rightarrow> nat \<Rightarrow> char \<Rightarrow> ParseOptions \<Rightarrow> extraction" where
  "extractURISchemeWithSlashes env path schemeEnd sep opts =
    (let slashCount = 2 + seps_from path (schemeEnd + 3);
         scheme = take (schemeEnd + 3) path;
         scheme = (if sep = backslash then forward_slashes scheme else scheme);
         pathEnd = schemeEnd + slashCount;
         isFileScheme = isFileURIScheme scheme;
         behavior = getEffectiveSchemeBehavior env (trim_suffix scheme ''://'') opts
     in (scheme,
         (if 3 \<le> slashCount then extractHostForMultiSlashURI path pathEnd slashCount isFileScheme behavior
          else extractHostForTwoSlashURI path pathEnd isFileScheme behavior)))"

definition extractURISchemeWithSingleSlash :: "string \<Rightarrow> nat \<Rightarrow> extraction" where
  "extractURISchemeWithSingleSlash path schemeEnd =
    (let schemePrefix = take schemeEnd path in
     if schemePrefix = ''file'' \<or> schemePrefix = ''files''
     then (schemePrefix @ ''://'', [], schemeEnd + 2, PathTypeFileUriLocal)
     else (take (schemeEnd + 1) path, [], schemeEnd + 1, PathTypeCustomUri))"

definition extractURISchemeWithoutSlashes :: "string \<Rightarrow> nat \<Rightarrow> extraction" where
  "extractURISchemeWithoutSlashes path schemeEnd =
    (let schemePrefix = take schemeEnd path in
     if schemePrefix = ''file'' \<or> schemePrefix = ''files''
     then (schemePrefix @ ''://'', [], length path, PathTypeFileUriLocal)
     else (take (schemeEnd + 1) path, [], schemeEnd + 1, PathTypeCustomUri))"

definition extractURIScheme :: "path_env \<Rightarrow> string \<Rightarrow> ParseOptions \<Rightarrow> extraction" where
  "extractURIScheme env path opts =
    (let e = findURISchemeEnd path; i = nat e in
     if e \<le> 0 \<or> length path \<le> i \<or> path ! i \<noteq> colon then ([], [], 0, PathTypeUnknown)
     else if i + 2 < length path \<and> path ! (i + 1) = slash \<and> path ! (i + 2) = slash then
       extractURISchemeWithSlashes env path i slash opts
     else if i + 2 < length path \<and> path ! (i + 1) = backslash \<and> path ! (i + 2) = backslash then
       extractURISchemeWithSlashes env path i backslash opts
     else if i + 1 < length path \<and> path ! (i + 1) = slash then extractURISchemeWithSingleSlash path i
     else extractURISchemeWithoutSlashes path i)"

definition extractExtendedLengthPath :: "string \<Rightarrow> extraction" where
  "extractExtendedLengthPath path =
    (let serverEnd = 5 + nonbackslashes_from path 5 in
     if 6 \<le> length path \<and> path ! 5 = colon \<and> isEnglishLetter (path ! 4) then
       ([], slice path 4 6, 6,
        if 6 < length path \<and> is_sep (path ! 6) then PathTypeLocalAbsolute else PathTypeLocalRelative)
     else if 6 \<le> length path \<and> path ! 4 = backslash \<and> 5 < serverEnd then
       ([backslash, backslash], slice path 5 serverEnd, serverEnd, PathTypeUncWindows)
     else ([], [], 0, PathTypeUnknown))"

definition extractStandardUNCPath :: "string \<Rightarrow> extraction" where
  "extractStandardUNCPath path =
    (let serverEnd = 2 + nonbackslashes_from path 2 in
     ([backslash, backslash], slice path 2 serverEnd, serverEnd, PathTypeUncWindows))"

definition extractUNCPath :: "string \<Rightarrow> extraction" where
  "extractUNCPath path =
    (if length path < 2 \<or> path ! 0 \<noteq> backslash \<or> path ! 1 \<noteq> backslash
     then ([], [], 0, PathTypeUnknown)
     else if 4 \<le> length path \<and> path ! 2 = CHR ''?'' \<and> path ! 3 = backslash
     then extractExtendedLengthPath path
     else extractStandardUNCPath path)"

definition extractWindowsDrive :: "string \<Rightarrow> extraction" where
  "extractWindowsDrive path =
    (if length path < 2 \<or> path ! 1 \<noteq> colon \<or> \<not> isEnglishLetter (path ! 0)
     then ([], [], 0, PathTypeUnknown)
     else ([], take 2 path, 2,
       if 2 < length path \<and> is_sep (path ! 2) then PathTypeLocalAbsolute else PathTypeLocalRelative))"

definition extractSchemeAndHost :: "path_env \<Rightarrow> string \<Rightarrow> ParseOptions \<Rightarrow> extraction" where
  "extractSchemeAndHost env path opts =
    (if path = [] then ([], [], 0, PathTypeUnknown)
     else let uri = extractURIScheme env path opts; unc = extractUNCPath path;
              drive = extractWindowsDrive path
       in if snd (snd (snd uri)) \<noteq> PathTypeUnknown then uri
          else if snd (snd (snd unc)) \<noteq> PathTypeUnknown then unc
          else if snd (snd (snd drive)) \<noteq> PathTypeUnknown then drive
          else if path ! 0 = slash then ([], [], 0, PathTypeLocalAbsolute)
          else ([], [], 0, PathTypeLocalRelative))"

subsection \<open>Parsing\<close>

text \<open>One component of the path: empty ones and \<open>.\<close> disappear, \<open>..\<close> removes the last part if
  there is one that is not itself \<open>..\<close>.\<close>

definition add_part :: "string list \<Rightarrow> string \<Rightarrow> string list" where
  "add_part parts part =
    (if part = [] then parts
     else if part = ''.'' then parts
     else if part = ''..'' then
       (if parts \<noteq> [] \<and> last parts \<noteq> [] \<and> last parts \<noteq> ''..'' then butlast parts else parts @ [part])
     else parts @ [part])"

text \<open>The splitting loop over the rest of the path; \<open>cur\<close> is the component read so far.\<close>

fun split_loop :: "bool \<Rightarrow> string \<Rightarrow> string \<Rightarrow> bool \<Rightarrow> char \<Rightarrow> string list \<Rightarrow> char \<times> string list" where
  "split_loop isURI [] cur firstPart separator parts = (separator, add_part parts cur)"
| "split_loop isURI (c # cs) cur firstPart separator parts =
    (if is_sep c then
       split_loop isURI cs [] (if firstPart \<and> \<not> isURI then False else firstPart)
         (if firstPart \<and> \<not> isURI then c else separator) (add_part parts cur)
     else split_loop isURI cs (cur @ [c]) firstPart separator parts)"

definition is_absolute_type :: "PathType \<Rightarrow> bool" where
  "is_absolute_type t \<longleftrightarrow>
    t \<in> {PathTypeLocalAbsolute, PathTypeFileUriLocal, PathTypeFileUriRemote, PathTypeFileUriUnc,
         PathTypeUncWindows, PathTypeCustomUri}"

definition parsePathOnce :: "path_env \<Rightarrow> string \<Rightarrow> ParseOptions \<Rightarrow> pathInfo" where
  "parsePathOnce env path opts =
    (let (scheme, host, pathEnd, pathType) = extractSchemeAndHost env path opts;
         mk = (\<lambda>sep parts. \<lparr>pscheme = scheme, phost = host, pseparator = sep, pparts = parts,
                 pathType = pathType\<rparr>)
     in if length path \<le> pathEnd then mk (DefaultSystemSeparator env) []
        else let isURI = (isFileURIScheme scheme \<or> isURIScheme scheme);
                 start = (if isURI then pathEnd + seps_from path pathEnd else pathEnd);
                 (separator, parts) = split_loop isURI (drop start path) [] True
                    (if isURI then slash else DefaultSystemSeparator env) [];
                 parts = (if parts = [] \<and> pathEnd < length path \<and> pathType \<noteq> PathTypeLocalRelative \<and>
                            pathType \<noteq> PathTypeUnknown then [[]] else parts);
                 parts = (if is_absolute_type pathType \<and> parts \<noteq> [] \<and> hd parts \<noteq> []
                          then [] # parts else parts)
             in mk separator parts)"

datatype path_error = ErrDriveLetterInPath | ErrDriveRelativePath

definition ParsePathInfoWithOptions :: "path_env \<Rightarrow> string \<Rightarrow> ParseOptions \<Rightarrow> path_error + pathInfo" where
  "ParsePathInfoWithOptions env path opts =
    (if path = [] then Inr \<lparr>pscheme = [], phost = [], pseparator = DefaultSystemSeparator env,
        pparts = [], pathType = PathTypeUnknown\<rparr>
     else let info = parsePathOnce env path opts in
       if \<exists>part \<in> set (pparts info). isWindowsDriveString part then Inl ErrDriveLetterInPath
       else if isWindowsDriveString (phost info) \<and> pathType info = PathTypeLocalRelative \<and>
           pparts info \<noteq> [] then Inl ErrDriveRelativePath
       else Inr info)"

definition ParsePathInfoEasy :: "path_env \<Rightarrow> string \<Rightarrow> path_error + pathInfo" where
  "ParsePathInfoEasy env path = ParsePathInfoWithOptions env path None"

definition pathInfo_ContainsPath :: "path_env \<Rightarrow> pathInfo \<Rightarrow> string \<Rightarrow> bool" where
  "pathInfo_ContainsPath env info otherPath =
    (case ParsePathInfoEasy env otherPath of Inl _ \<Rightarrow> False
     | Inr other \<Rightarrow> pathInfo_ContainsPathInfo info other)"

text \<open>\<^verbatim>\<open>PathCleanEasy\<close> panics (\<open>Inl\<close>) where parsing fails.\<close>

definition PathCleanEasy :: "path_env \<Rightarrow> string \<Rightarrow> path_error + string" where
  "PathCleanEasy env path =
    (if path = [] then Inr []
     else case ParsePathInfoEasy env path of Inl e \<Rightarrow> Inl e | Inr info \<Rightarrow> Inr (pathInfo_Encode info))"

end
