(* ===== verification/PathProps.thy ===== *)
theory PathProps
  imports PathUtils
begin

text \<open>
  What parsing promises and what printing and parsing again gives: the components of a parsed
  path are clean (no separator, no empty component, no \<open>.\<close>, and \<open>..\<close> only in front), and a
  clean local path is its own printed form.
\<close>

subsection \<open>Clean components\<close>

definition no_sep :: "string \<Rightarrow> bool" where
  "no_sep s \<longleftrightarrow> (\<forall>c \<in> set s. \<not> is_sep c)"

definition plain_name :: "string \<Rightarrow> bool" where
  "plain_name n \<longleftrightarrow> n \<noteq> [] \<and> n \<noteq> ''.'' \<and> n \<noteq> ''..'' \<and> no_sep n"

definition clean_parts :: "string list \<Rightarrow> bool" where
  "clean_parts parts \<longleftrightarrow> (\<forall>n \<in> set (dropWhile (\<lambda>p. p = ''..'') parts). plain_name n)"

text \<open>The components without the mark of an absolute path.\<close>

definition inner_parts :: "pathInfo \<Rightarrow> string list" where
  "inner_parts info = (if pparts info \<noteq> [] \<and> hd (pparts info) = [] then tl (pparts info) else pparts info)"

lemma clean_parts_Nil [simp]: "clean_parts []"
  by (simp add: clean_parts_def)

lemma no_sep_dots [simp]: "no_sep ''..''" "no_sep ''.''" "no_sep []"
  by (simp_all add: no_sep_def is_sep_def)

lemma clean_parts_iff:
  "clean_parts ps \<longleftrightarrow> (\<exists>k ns. ps = replicate k ''..'' @ ns \<and> (\<forall>n \<in> set ns. plain_name n))"
proof
  assume "clean_parts ps"
  moreover have "ps = takeWhile (\<lambda>p. p = ''..'') ps @ dropWhile (\<lambda>p. p = ''..'') ps" by simp
  moreover have "takeWhile (\<lambda>p. p = ''..'') ps = replicate (length (takeWhile (\<lambda>p. p = ''..'') ps)) ''..''"
    by (induction ps) auto
  ultimately show "\<exists>k ns. ps = replicate k ''..'' @ ns \<and> (\<forall>n \<in> set ns. plain_name n)"
    unfolding clean_parts_def by metis
next
  assume "\<exists>k ns. ps = replicate k ''..'' @ ns \<and> (\<forall>n \<in> set ns. plain_name n)"
  then obtain k ns where ps: "ps = replicate k ''..'' @ ns" "\<forall>n \<in> set ns. plain_name n" by blast
  have "dropWhile (\<lambda>p. p = ''..'') (replicate k ''..'' @ ns) = dropWhile (\<lambda>p. p = ''..'') ns"
    by (induction k) auto
  with ps show "clean_parts ps"
    by (auto simp: clean_parts_def dest: set_dropWhileD)
qed

lemma clean_parts_plain: "\<forall>n \<in> set ns. plain_name n \<Longrightarrow> clean_parts ns"
  by (auto simp: clean_parts_def dest: set_dropWhileD)

lemma clean_parts_member:
  assumes "clean_parts ps" "p \<in> set ps"
  shows "p \<noteq> []" "p \<noteq> ''.''" "no_sep p"
proof -
  obtain k ns where ps: "ps = replicate k ''..'' @ ns" "\<forall>n \<in> set ns. plain_name n"
    using assms(1) unfolding clean_parts_iff by blast
  then have "p = ''..'' \<or> plain_name p"
    using assms(2) by (auto dest: in_set_replicate [THEN iffD1])
  then show "p \<noteq> []" "p \<noteq> ''.''" "no_sep p"
    by (auto simp: plain_name_def)
qed

lemma clean_parts_no_dots:
  "clean_parts ps \<Longrightarrow> ''..'' \<notin> set ps \<Longrightarrow> \<forall>n \<in> set ps. plain_name n"
  unfolding clean_parts_iff by (metis UnE clean_parts_iff in_set_replicate set_append)

lemma add_part_clean:
  assumes "clean_parts ps" "no_sep part"
  shows "clean_parts (add_part ps part)"
proof -
  obtain k ns where ps: "ps = replicate k ''..'' @ ns" "\<forall>n \<in> set ns. plain_name n"
    using assms(1) by (auto simp: clean_parts_iff)
  consider "part = []" | "part = ''.''" | "part = ''..''" | "plain_name part"
    using assms(2) by (auto simp: plain_name_def)
  then show ?thesis
  proof cases
    case 3
    show ?thesis
    proof (cases ns rule: rev_cases)
      case Nil
      then have "add_part ps part = replicate (Suc k) ''..''"
        using 3 ps by (cases k) (auto simp: add_part_def replicate_append_same)
      then have "add_part ps part = replicate (Suc k) ''..'' @ []" by simp
      then show ?thesis unfolding clean_parts_iff by (metis empty_iff list.set(1))
    next
      case (snoc ms m)
      then have "add_part ps part = replicate k ''..'' @ ms"
        using 3 ps by (auto simp: add_part_def plain_name_def butlast_append)
      moreover have "\<forall>n \<in> set ms. plain_name n"
        using ps snoc by simp
      ultimately show ?thesis unfolding clean_parts_iff by blast
    qed
  next
    case 4
    then have "add_part ps part = replicate k ''..'' @ (ns @ [part])" "\<forall>n \<in> set (ns @ [part]). plain_name n"
      using ps by (auto simp: add_part_def plain_name_def)
    then show ?thesis unfolding clean_parts_iff by blast
  qed (use assms in \<open>simp_all add: add_part_def\<close>)
qed

lemma split_loop_clean:
  "clean_parts ps \<Longrightarrow> no_sep cur \<Longrightarrow> clean_parts (snd (split_loop u cs cur fp s ps))"
proof (induction u cs cur fp s ps rule: split_loop.induct)
  case (2 u c cs cur fp s ps)
  have "clean_parts (add_part ps cur)"
    using 2(3,4) by (rule add_part_clean)
  with 2 show ?case
    by (auto simp: no_sep_def)
qed (simp add: add_part_clean)

lemma parsePathOnce_clean: "clean_parts (inner_parts (parsePathOnce env path opts))"
proof -
  have "clean_parts (snd (split_loop u cs [] fp s []))" for u cs fp s
    by (rule split_loop_clean) simp_all
  then show ?thesis
    by (auto simp: parsePathOnce_def inner_parts_def Let_def clean_parts_member(1) split: prod.splits)
      (metis clean_parts_member(1) hd_in_set snd_conv)+
qed

subsection \<open>Splitting a printed path\<close>

lemma split_loop_part:
  "no_sep p \<Longrightarrow> split_loop u (p @ rest) cur fp s acc = split_loop u rest (cur @ p) fp s acc"
  by (induction p arbitrary: cur) (auto simp: no_sep_def)

lemma split_loop_build_False:
  assumes "\<forall>p \<in> set ps. p \<noteq> [] \<and> no_sep p" "is_sep sep"
  shows "split_loop u (build_parts False sep ps) cur fp s acc =
    (if fp \<and> \<not> u \<and> ps \<noteq> [] then sep else s, foldl add_part (add_part acc cur) ps)"
  using assms(1)
proof (induction ps arbitrary: cur fp s acc)
  case (Cons p ps)
  then show ?case
    using assms(2) by (simp add: split_loop_part)
qed simp

lemma split_loop_build:
  assumes "\<forall>p \<in> set ps. p \<noteq> [] \<and> no_sep p" "is_sep sep"
  shows "split_loop False (build_parts True sep ps) [] True s [] =
    (if 1 < length ps then sep else s, foldl add_part [] ps)"
proof (cases ps)
  case Nil
  then show ?thesis by (simp add: add_part_def)
next
  case (Cons p qs)
  then have "split_loop False (build_parts True sep ps) [] True s [] =
      split_loop False (build_parts False sep qs) p True s []"
    using assms(1) by (simp add: split_loop_part)
  then show ?thesis
    using Cons assms by (simp add: split_loop_build_False)
qed

lemma foldl_add_part_clean: "clean_parts ps \<Longrightarrow> foldl add_part [] ps = ps"
proof (induction ps rule: rev_induct)
  case (snoc p ps)
  obtain k ns where ps: "ps @ [p] = replicate k ''..'' @ ns" "\<forall>n \<in> set ns. plain_name n"
    using snoc.prems unfolding clean_parts_iff by blast
  show ?case
  proof (cases ns rule: rev_cases)
    case Nil
    with ps have all: "ps @ [p] = replicate k ''..''" by simp
    then have k: "k = Suc (length ps)"
      by (metis length_append_singleton length_replicate)
    with all have eq: "ps = replicate (length ps) ''..''" "p = ''..''"
      by (metis append1_eq_conv replicate_append_same replicate_Suc)+
    have "clean_parts ps"
      using clean_parts_iff [of ps] eq(1) by (metis append_Nil2 empty_iff list.set(1))
    moreover have "ps = [] \<or> last ps = ''..''"
      using eq(1) by (metis last_replicate length_0_conv)
    ultimately show ?thesis
      using snoc.IH eq(2) by (auto simp: add_part_def)
  next
    case (snoc ms m)
    with ps have "ps = replicate k ''..'' @ ms" "p = m" "plain_name p" by auto
    moreover have "\<forall>n \<in> set ms. plain_name n"
      using ps snoc by simp
    ultimately have "clean_parts ps" "plain_name p"
      unfolding clean_parts_iff by blast+
    moreover from this(2) have "add_part ps p = ps @ [p]"
      by (auto simp: add_part_def plain_name_def)
    ultimately show ?thesis
      using \<open>clean_parts ps \<Longrightarrow> foldl add_part [] ps = ps\<close> by simp
  qed
qed simp

subsection \<open>Local paths\<close>

text \<open>A path without a colon that does not start like a UNC path is local.\<close>

definition local_path :: "string \<Rightarrow> bool" where
  "local_path path \<longleftrightarrow> path \<noteq> [] \<and> colon \<notin> set path \<and> take 2 path \<noteq> [backslash, backslash]"

lemma scheme_end_loop_no_colon: "colon \<notin> set cs \<Longrightarrow> scheme_end_loop cs i = - 1"
  by (induction cs i rule: scheme_end_loop.induct) auto

lemma extract_local:
  assumes "local_path path"
  shows "extractSchemeAndHost env path opts =
    ([], [], 0, if hd path = slash then PathTypeLocalAbsolute else PathTypeLocalRelative)"
proof -
  have colon: "colon \<notin> set path" and ne: "path \<noteq> []" and unc: "take 2 path \<noteq> [backslash, backslash]"
    using assms by (auto simp: local_path_def)
  have "findURISchemeEnd path = - 1"
    using colon by (cases path) (auto simp: findURISchemeEnd_def scheme_end_loop_no_colon)
  then have "extractURIScheme env path opts = ([], [], 0, PathTypeUnknown)"
    by (simp add: extractURIScheme_def)
  moreover have "extractWindowsDrive path = ([], [], 0, PathTypeUnknown)"
  proof -
    have "1 < length path \<Longrightarrow> path ! 1 \<noteq> colon"
      using colon nth_mem by metis
    then show ?thesis
      by (auto simp: extractWindowsDrive_def)
  qed
  moreover have "extractUNCPath path = ([], [], 0, PathTypeUnknown)"
  proof -
    have "2 \<le> length path \<Longrightarrow> take 2 path = [path ! 0, path ! 1]"
      by (cases path; cases "tl path") (auto simp: take_Suc_conv_app_nth numeral_2_eq_2)
    with unc show ?thesis
      by (auto simp: extractUNCPath_def)
  qed
  ultimately show ?thesis
    using ne by (simp add: extractSchemeAndHost_def hd_conv_nth Let_def)
qed

lemma colon_free_not_drive: "colon \<notin> set p \<Longrightarrow> \<not> isWindowsDriveString p"
  by (auto simp: isWindowsDriveString_def) (metis One_nat_def lessI nth_mem numeral_2_eq_2)

text \<open>The parts of a path without a colon have none either.\<close>

lemma add_part_set: "set (add_part ps p) \<subseteq> set ps \<union> {p, ''..''}"
  by (auto simp: add_part_def dest: in_set_butlastD)

lemma split_loop_chars:
  "\<forall>p \<in> set acc. colon \<notin> set p \<Longrightarrow> colon \<notin> set cur \<Longrightarrow> colon \<notin> set cs \<Longrightarrow>
    \<forall>p \<in> set (snd (split_loop u cs cur fp s acc)). colon \<notin> set p"
proof (induction u cs cur fp s acc rule: split_loop.induct)
  case (1 u cur fp s acc)
  then show ?case
    using add_part_set [of acc cur] by auto
next
  case (2 u c cs cur fp s acc)
  have "\<forall>p \<in> set (add_part acc cur). colon \<notin> set p"
    using 2(3,4) add_part_set [of acc cur] by auto
  with 2 show ?case by auto
qed

lemma parse_local:
  assumes "local_path path"
  shows "ParsePathInfoEasy env path =
    (let (sep, ps) = split_loop False path [] True (DefaultSystemSeparator env) [] in
     Inr \<lparr>pscheme = [], phost = [], pseparator = sep,
          pparts = (if hd path = slash then [] # ps else ps),
          pathType = (if hd path = slash then PathTypeLocalAbsolute else PathTypeLocalRelative)\<rparr>)"
proof -
  obtain sep ps where sp: "split_loop False path [] True (DefaultSystemSeparator env) [] = (sep, ps)"
    by fastforce
  have "clean_parts ps" "\<forall>p \<in> set ps. colon \<notin> set p"
    using split_loop_clean [of "[]" "[]" False path True "DefaultSystemSeparator env"]
      split_loop_chars [of "[]" "[]" path False True "DefaultSystemSeparator env"] sp assms
    by (auto simp: local_path_def)
  then have no: "\<forall>p \<in> set ps. \<not> isWindowsDriveString p" "ps \<noteq> [] \<Longrightarrow> hd ps \<noteq> []"
    using clean_parts_member(1) by (auto simp: colon_free_not_drive)
  have nd: "\<not> isWindowsDriveString []"
    by (simp add: isWindowsDriveString_def)
  have "parsePathOnce env path None = \<lparr>pscheme = [], phost = [], pseparator = sep,
      pparts = (if hd path = slash then [] # ps else ps),
      pathType = (if hd path = slash then PathTypeLocalAbsolute else PathTypeLocalRelative)\<rparr>"
    using assms no(2) sp
    by (simp add: parsePathOnce_def extract_local isFileURIScheme_def isURIScheme_def is_absolute_type_def
        local_path_def)
  then show ?thesis
    using no(1) nd sp assms
    by (auto simp: ParsePathInfoEasy_def ParsePathInfoWithOptions_def local_path_def Let_def)
qed

lemma build_parts_head:
  assumes "clean_parts ps" "ps \<noteq> []"
  shows "build_parts True sep ps \<noteq> []" "\<not> is_sep (hd (build_parts True sep ps))"
  using assms clean_parts_member [OF assms(1), of "hd ps"]
  by (cases ps; cases "hd ps"; auto simp: no_sep_def)+

lemma build_parts_chars:
  "\<forall>p \<in> set ps. c \<notin> set p \<Longrightarrow> c \<noteq> sep \<Longrightarrow> c \<notin> set (build_parts first sep ps)"
  by (induction ps arbitrary: first) auto

text \<open>Printing a clean relative path and parsing it gives its parts back.\<close>

lemma parse_print_relative:
  assumes "clean_parts ps" "ps \<noteq> []" "\<forall>p \<in> set ps. colon \<notin> set p" "is_sep sep"
  shows "ParsePathInfoEasy env (build_parts True sep ps) =
    Inr \<lparr>pscheme = [], phost = [],
      pseparator = (if 1 < length ps then sep else DefaultSystemSeparator env),
      pparts = ps, pathType = PathTypeLocalRelative\<rparr>"
proof -
  let ?path = "build_parts True sep ps"
  note h = build_parts_head [OF assms(1,2), of sep]
  have "take 2 ?path \<noteq> [backslash, backslash]"
    using h by (cases ?path) (auto simp: is_sep_def)
  moreover have "colon \<notin> set ?path"
    using assms(3,4) by (intro build_parts_chars) (auto simp: is_sep_def)
  ultimately have loc: "local_path ?path" and rel: "hd ?path \<noteq> slash"
    using h by (auto simp: local_path_def is_sep_def)
  have "\<forall>p \<in> set ps. p \<noteq> [] \<and> no_sep p"
    using clean_parts_member [OF assms(1)] by auto
  from split_loop_build [OF this assms(4)] foldl_add_part_clean [OF assms(1)] show ?thesis
    using rel by (simp add: parse_local [OF loc])
qed

lemma parse_print_absolute:
  assumes "clean_parts ps" "\<forall>p \<in> set ps. colon \<notin> set p"
  shows "ParsePathInfoEasy env (slash # build_parts True slash ps) =
    Inr \<lparr>pscheme = [], phost = [], pseparator = slash, pparts = [] # ps,
      pathType = PathTypeLocalAbsolute\<rparr>"
proof -
  let ?path = "slash # build_parts True slash ps"
  have loc: "local_path ?path"
    using assms(2) by (auto simp: local_path_def build_parts_chars)
  have all: "\<forall>p \<in> set ps. p \<noteq> [] \<and> no_sep p"
    using clean_parts_member [OF assms(1)] by auto
  have "split_loop False (build_parts True slash ps) [] False slash [] = (slash, foldl add_part [] ps)"
    using all
    by (cases ps) (simp_all add: add_part_def split_loop_part split_loop_build_False is_sep_def)
  with foldl_add_part_clean [OF assms(1)] show ?thesis
    by (simp add: parse_local [OF loc] is_sep_def add_part_def)
qed

text \<open>The first separator of an absolute path is the leading slash, so it is the one printed.\<close>

lemma split_loop_sep_fixed: "fst (split_loop u cs cur False s acc) = s"
  by (induction u cs cur "False" s acc rule: split_loop.induct) auto

lemma split_loop_sep:
  "is_sep s \<or> 1 \<le> length (filter is_sep cs) \<Longrightarrow> fp \<Longrightarrow> \<not> u \<Longrightarrow> is_sep (fst (split_loop u cs cur fp s acc))"
  by (induction u cs cur fp s acc rule: split_loop.induct) (auto simp: split_loop_sep_fixed)

subsection \<open>Properties\<close>

text \<open>C21. Whatever is parsed, the components of the result hold no separator, no empty component
  and no single dot, and double dots only at the front.\<close>
theorem ParsePathInfo_clean:
  assumes "ParsePathInfoWithOptions env path opts = Inr info"
  shows "clean_parts (inner_parts info)"
  using assms parsePathOnce_clean [of env path opts]
  by (auto simp: ParsePathInfoWithOptions_def Let_def inner_parts_def split: if_splits)

text \<open>The environment at program start, on a system whose separator is the slash.\<close>

definition start_env :: path_env where
  "start_env = \<lparr>schemeRegistry = Map.empty, DefaultSchemeBehavior = \<lparr>MustFollowRFC3986Authority = False\<rparr>,
     DefaultSystemSeparator = slash\<rparr>"

lemma ParsePathInfo_clean_witness:
  "\<exists>info. ParsePathInfoWithOptions start_env ''a/../../b//./c'' None = Inr info \<and>
    pparts info = [''..'', ''b'', ''c''] \<and> clean_parts (inner_parts info)"
proof -
  have ev: "ParsePathInfoWithOptions start_env ''a/../../b//./c'' None =
      Inr \<lparr>pscheme = [], phost = [], pseparator = slash, pparts = [''..'', ''b'', ''c''],
        pathType = PathTypeLocalRelative\<rparr>"
    by code_simp
  show ?thesis
    using ParsePathInfo_clean [OF ev] ev by simp
qed

text \<open>Cleaning a local path (no colon, not a UNC prefix) twice is cleaning it once.\<close>
theorem PathClean_idempotent:
  assumes "local_path path" "is_sep (DefaultSystemSeparator env)" "PathCleanEasy env path = Inr q"
  shows "PathCleanEasy env q = Inr q"
proof -
  obtain sep ps where sp: "split_loop False path [] True (DefaultSystemSeparator env) [] = (sep, ps)"
    by fastforce
  have ps: "clean_parts ps" "\<forall>p \<in> set ps. colon \<notin> set p" "is_sep sep"
    using split_loop_clean [of "[]" "[]" False path True "DefaultSystemSeparator env"]
      split_loop_chars [of "[]" "[]" path False True "DefaultSystemSeparator env"]
      split_loop_sep [of "DefaultSystemSeparator env" path True False "[]" "[]"] sp assms(1,2)
    by (auto simp: local_path_def)
  have ne: "path \<noteq> []" using assms(1) by (simp add: local_path_def)
  show ?thesis
  proof (cases "hd path = slash")
    case True
    have "sep = slash"
      using True ne sp split_loop_sep_fixed [of False "tl path" "[]" slash "[]"]
      by (cases path) (auto simp: is_sep_def add_part_def)
    then have q: "q = slash # build_parts True slash ps"
      using assms(3) ne True sp
      by (simp add: PathCleanEasy_def parse_local [OF assms(1)] pathInfo_Encode_def buildEncodedPath_def
          encoded_host_def buildPath_def isFileURIScheme_def)
    show ?thesis
      using parse_print_absolute [OF ps(1,2), of env]
      by (simp add: PathCleanEasy_def q pathInfo_Encode_def buildEncodedPath_def encoded_host_def
          buildPath_def isFileURIScheme_def)
  next
    case False
    have q: "q = build_parts True sep ps"
      using assms(3) ne False sp ps(1) clean_parts_member(1)
      by (auto simp: PathCleanEasy_def parse_local [OF assms(1)] pathInfo_Encode_def buildEncodedPath_def
          encoded_host_def buildPath_def isFileURIScheme_def)
    show ?thesis
    proof (cases "ps = []")
      case True
      then show ?thesis by (simp add: q PathCleanEasy_def)
    next
      case ne: False
      have "build_parts True (if 1 < length ps then sep else DefaultSystemSeparator env) ps =
          build_parts True sep ps"
        using ne by (cases ps; cases "tl ps") auto
      then show ?thesis
        using parse_print_relative [OF ps(1) ne ps(2,3), of env] build_parts_head [OF ps(1) ne, of sep]
          clean_parts_member(1) [OF ps(1), of "hd ps"] ne
        by (simp add: PathCleanEasy_def q pathInfo_Encode_def buildEncodedPath_def encoded_host_def
            buildPath_def isFileURIScheme_def)
    qed
  qed
qed

lemma PathClean_idempotent_witness:
  "PathCleanEasy start_env ''a/b'' = Inr ''a/b''"
  by (rule PathClean_idempotent [of "''a/./b''"]) code_simp+

text \<open>Outside local paths cleaning is not idempotent and can lose a name: a relative file name
  after a dot component comes back as a URI, and cleaning that URI drops the name.\<close>
theorem PathClean_file_scheme_loses_name:
  "PathCleanEasy start_env ''./file:x'' = Inr ''file:x'' \<and>
   PathCleanEasy start_env ''file:x'' = Inr ''file:///''"
  by code_simp

text \<open>The lookup tables built at program start decide the character classes that the simple
  comparisons decide.\<close>
theorem char_tables_agree:
  "isEnglishLetter c = isEnglishLetterSimple c \<and> isPathSchemeChar c = isSchemeCharSimple c"
  by (simp add: isEnglishLetter_Simple isPathSchemeChar_Simple)

end
