(* ===== verification/NameCryptor.thy ===== *)
theory NameCryptor
  imports GoEncoding PathProps
begin

text \<open>
  Name encryption: src/native/sec_fs/crypto_name/algorithm_impl (rc4, none and aes_gcm_name).
  A context is the key bytes it owns; \<^verbatim>\<open>Close\<close> zeroes them and drops the reference. The
  locale is the contract of \<^verbatim>\<open>INameCryptorContext\<close> that path encryption relies on: a name
  that is a single path component becomes a single path component that is safe in a stored
  path, and it comes back.
\<close>

datatype name_error =
    ErrEmptyKey
  | ErrNameKeySize
  | ErrNameKeyTooShort
  | ErrBase64
  | ErrNameTooShort
  | ErrNameAuth

type_synonym name_fun = "string \<Rightarrow> name_error + string"

subsection \<open>RC4\<close>

definition rc4_name_NewContext :: "bytes \<Rightarrow> name_error + bytes" where
  "rc4_name_NewContext key =
    (if length key = 0 then Inl ErrEmptyKey
     else case rc4_NewCipher key of None \<Rightarrow> Inl ErrNameKeySize | Some _ \<Rightarrow> Inr key)"

definition rc4_EncryptName :: "bytes \<Rightarrow> name_fun" where
  "rc4_EncryptName key name =
    (if name = [] then Inr []
     else case rc4_NewCipher key of None \<Rightarrow> Inl ErrNameKeySize
       | Some cipher \<Rightarrow> Inr (RawURLEncode (snd (rc4_XORKeyStream cipher (string_bytes name)))))"

definition rc4_DecryptName :: "bytes \<Rightarrow> name_fun" where
  "rc4_DecryptName key encrypted =
    (if encrypted = [] then Inr []
     else case RawURLDecode encrypted of None \<Rightarrow> Inl ErrBase64
       | Some data \<Rightarrow>
         (case rc4_NewCipher key of None \<Rightarrow> Inl ErrNameKeySize
          | Some cipher \<Rightarrow> Inr (bytes_string (snd (rc4_XORKeyStream cipher data)))))"

text \<open>The key after \<^verbatim>\<open>Close\<close>: a nil slice.\<close>

definition rc4_name_Close :: "bytes \<Rightarrow> bytes" where
  "rc4_name_Close key = []"

subsection \<open>No encryption\<close>

definition none_EncryptName :: name_fun where
  "none_EncryptName name = Inr name"

definition none_DecryptName :: name_fun where
  "none_DecryptName encrypted = Inr encrypted"

subsection \<open>AES-256-GCM\<close>

text \<open>A key of exactly 32 bytes is used as it is, a longer one is hashed.\<close>

definition gcm_name_NewContext :: "bytes \<Rightarrow> name_error + bytes" where
  "gcm_name_NewContext key =
    (if length key < 32 then Inl ErrNameKeyTooShort
     else Inr (if length key = 32 then key else sha256_Sum256 key))"

definition gcm_EncryptName :: "bytes \<Rightarrow> name_fun" where
  "gcm_EncryptName key name =
    (if name = [] then Inr []
     else let plaintext = string_bytes name;
              iv = take 12 (sha256_Sum256 (key @ plaintext))
       in Inr (RawURLEncode (gcm_Seal key iv iv plaintext [])))"

definition gcm_DecryptName :: "bytes \<Rightarrow> name_fun" where
  "gcm_DecryptName key encrypted =
    (if encrypted = [] then Inr []
     else case RawURLDecode encrypted of None \<Rightarrow> Inl ErrBase64
       | Some ciphertext \<Rightarrow>
         if length ciphertext < 28 then Inl ErrNameTooShort
         else (case gcm_Open key (take 12 ciphertext) (drop 12 ciphertext) [] of
             None \<Rightarrow> Inl ErrNameAuth
           | Some plaintext \<Rightarrow> Inr (bytes_string plaintext)))"

subsection \<open>The contract\<close>

text \<open>\<open>name_ok\<close> says which names the contract covers.\<close>

locale name_cryptor =
  fixes encn decn :: name_fun and name_ok :: "string \<Rightarrow> bool"
  assumes name_law: "plain_name n \<Longrightarrow> name_ok n \<Longrightarrow>
    \<exists>e. encn n = Inr e \<and> plain_name e \<and> colon \<notin> set e \<and> decn e = Inr n"

lemma plain_name_ne: "plain_name n \<Longrightarrow> n \<noteq> []"
  by (simp add: plain_name_def)

lemma RawURLEncode_plain: "d \<noteq> [] \<Longrightarrow> plain_name (RawURLEncode d) \<and> colon \<notin> set (RawURLEncode d)"
proof -
  assume "d \<noteq> []"
  then have "RawURLEncode d \<noteq> []" by simp
  moreover have "CHR ''.'' \<notin> set (RawURLEncode d)" "colon \<notin> set (RawURLEncode d)" "no_sep (RawURLEncode d)"
    using RawURLEncode_chars [of _ d] by (auto simp: no_sep_def is_sep_def)
  ultimately show ?thesis
    by (auto simp: plain_name_def)
qed

lemma rc4_name_law:
  assumes "key \<noteq> []" "length key \<le> 256" "n \<noteq> []"
  shows "\<exists>e. rc4_EncryptName key n = Inr e \<and> plain_name e \<and> colon \<notin> set e \<and> rc4_DecryptName key e = Inr n"
proof -
  obtain c where c: "rc4_NewCipher key = Some c"
    using assms(1,2) by (cases key) (auto simp: rc4_NewCipher_def)
  have xor: "rc4_XORKeyStream c d = (rc4_after c (length d), xor_at (rc4_stream c) 0 d)" for d
    using rc4_XORKeyStream_after [of c 0 d] by simp
  have "xor_at (rc4_stream c) 0 (string_bytes n) \<noteq> []"
    using assms(3) by simp
  from RawURLEncode_plain [OF this] c assms(3) show ?thesis
    by (auto simp: rc4_EncryptName_def rc4_DecryptName_def xor RawURLDecode_Encode plain_name_def)
qed

lemma gcm_name_law:
  assumes "n \<noteq> []"
  shows "\<exists>e. gcm_EncryptName key n = Inr e \<and> plain_name e \<and> colon \<notin> set e \<and> gcm_DecryptName key e = Inr n"
proof -
  define iv where "iv = take 12 (sha256_Sum256 (key @ string_bytes n))"
  define d where "d = gcm_Seal key iv iv (string_bytes n) []"
  have iv: "length iv = 12"
    by (simp add: iv_def)
  have d: "d = iv @ gcm_Seal key [] iv (string_bytes n) []" "length d = 28 + length n"
    by (simp_all add: d_def gcm_Seal_def iv Let_def)
  have e: "gcm_EncryptName key n = Inr (RawURLEncode d)"
    using assms by (simp add: gcm_EncryptName_def d_def iv_def Let_def)
  have "d \<noteq> []" using d(2) by auto
  moreover have "gcm_Open key (take 12 d) (drop 12 d) [] = Some (string_bytes n)"
    by (simp add: d(1) iv gcm_Open_Seal)
  ultimately show ?thesis
    using RawURLEncode_plain [of d] e d(2)
    by (auto simp: gcm_DecryptName_def RawURLDecode_Encode plain_name_def)
qed

interpretation none_name: name_cryptor none_EncryptName none_DecryptName "\<lambda>n. colon \<notin> set n"
  by unfold_locales (simp add: none_EncryptName_def none_DecryptName_def)

interpretation gcm_name: name_cryptor "gcm_EncryptName key" "gcm_DecryptName key" "\<lambda>_. True" for key
  by unfold_locales (rule gcm_name_law [OF plain_name_ne])

text \<open>RC4 contexts exist for keys of 1 to 256 bytes only, so the key is part of the condition.\<close>

interpretation rc4_name: name_cryptor "rc4_EncryptName key" "rc4_DecryptName key"
  "\<lambda>_. key \<noteq> [] \<and> length key \<le> 256" for key
  by unfold_locales (rule rc4_name_law; auto simp: plain_name_ne)

subsection \<open>Properties\<close>

text \<open>C18. A name encrypted by an AES-GCM context comes back, and its stored form is one path
  component without separator, dot or colon, whatever the name and the key.\<close>
theorem gcm_name_roundtrip:
  assumes "gcm_name_NewContext key = Inr ctx" "name \<noteq> []"
  shows "\<exists>e. gcm_EncryptName ctx name = Inr e \<and> gcm_DecryptName ctx e = Inr name \<and>
    plain_name e \<and> colon \<notin> set e"
  using gcm_name_law [OF assms(2), of ctx] by blast

lemma gcm_name_roundtrip_witness:
  "\<exists>ctx e. gcm_name_NewContext (replicate 40 1) = Inr ctx \<and> gcm_EncryptName ctx ''a/b'' = Inr e \<and>
    gcm_DecryptName ctx e = Inr ''a/b'' \<and> plain_name e \<and> colon \<notin> set e"
proof -
  obtain ctx where ctx: "gcm_name_NewContext (replicate 40 1) = Inr ctx"
    by (simp add: gcm_name_NewContext_def)
  from gcm_name_roundtrip [OF this, of "''a/b''"] ctx show ?thesis by auto
qed

text \<open>C19. The same for RC4 contexts; after Close every name but the empty one is refused.\<close>
theorem rc4_name_roundtrip:
  assumes "rc4_name_NewContext key = Inr ctx" "name \<noteq> []"
  shows "(\<exists>e. rc4_EncryptName ctx name = Inr e \<and> rc4_DecryptName ctx e = Inr name \<and>
      plain_name e \<and> colon \<notin> set e) \<and>
    rc4_EncryptName (rc4_name_Close ctx) name = Inl ErrNameKeySize"
proof -
  have "ctx \<noteq> []" "length ctx \<le> 256"
    using assms(1) by (auto simp: rc4_name_NewContext_def rc4_NewCipher_def split: if_splits option.splits)
  from rc4_name_law [OF this assms(2)] assms(2) show ?thesis
    by (auto simp: rc4_name_Close_def rc4_EncryptName_def rc4_NewCipher_def)
qed

lemma rc4_name_roundtrip_witness:
  "(\<exists>e. rc4_EncryptName [1, 2, 3] ''x:y'' = Inr e \<and> rc4_DecryptName [1, 2, 3] e = Inr ''x:y'' \<and>
      plain_name e \<and> colon \<notin> set e) \<and>
    rc4_EncryptName (rc4_name_Close [1, 2, 3]) ''x:y'' = Inl ErrNameKeySize"
  by (rule rc4_name_roundtrip [of "[1, 2, 3]"])
    (simp_all add: rc4_name_NewContext_def rc4_NewCipher_def)

end
