(* ===== verification/SecPath.thy ===== *)
theory SecPath
  imports NameCryptor
begin

text \<open>
  View paths and store paths: src/native/sec_fs/sec_path.go and the path checks of
  src/native/sec_fs/sec_root.go. A name cryptor is optional (\<open>None\<close> is a nil interface) and is
  the pair of its operations.
\<close>

type_synonym name_ctx = "(name_fun \<times> name_fun) option"

datatype sec_error =
    PathErr path_error
  | PathCryptoError name_error
  | ErrPathTraversal

subsection \<open>Encrypting and decrypting the components of a path\<close>

definition special_part :: "string \<Rightarrow> bool" where
  "special_part part \<longleftrightarrow> part = [] \<or> part = ''.'' \<or> part = ''..''"

fun crypt_parts :: "name_fun \<Rightarrow> string list \<Rightarrow> sec_error + string list" where
  "crypt_parts f [] = Inr []"
| "crypt_parts f (part # parts) =
    (case (if special_part part then Inr part else f part) of Inl e \<Rightarrow> Inl (PathCryptoError e)
     | Inr q \<Rightarrow> (case crypt_parts f parts of Inl e \<Rightarrow> Inl e | Inr qs \<Rightarrow> Inr (q # qs)))"

definition ViewPathToStorePath :: "path_env \<Rightarrow> string \<Rightarrow> name_ctx \<Rightarrow> sec_error + string" where
  "ViewPathToStorePath env viewPath nameCryptor =
    (case nameCryptor of None \<Rightarrow> Inr viewPath
     | Some (encn, decn) \<Rightarrow>
       (case ParsePathInfoEasy env viewPath of Inl e \<Rightarrow> Inl (PathErr e)
        | Inr info \<Rightarrow>
          (case crypt_parts encn (pathInfo_Parts info) of Inl e \<Rightarrow> Inl e
           | Inr parts \<Rightarrow> Inr (pathInfo_Encode (pathInfo_ReplaceParts info parts)))))"

definition StorePathToViewPath :: "path_env \<Rightarrow> string \<Rightarrow> name_ctx \<Rightarrow> sec_error + string" where
  "StorePathToViewPath env storePath nameCryptor =
    (case nameCryptor of None \<Rightarrow> Inr storePath
     | Some (encn, decn) \<Rightarrow>
       (case ParsePathInfoEasy env storePath of Inl e \<Rightarrow> Inl (PathErr e)
        | Inr info \<Rightarrow>
          (case crypt_parts decn (pathInfo_Parts info) of Inl e \<Rightarrow> Inl e
           | Inr parts \<Rightarrow> Inr (pathInfo_Encode (pathInfo_ReplaceParts info parts)))))"

subsection \<open>The checks of a secure root\<close>

definition isSafeRelativeStorePath :: "pathInfo \<Rightarrow> bool" where
  "isSafeRelativeStorePath info \<longleftrightarrow>
    (if pathInfo_Encode info = [] then True
     else if pathType info \<noteq> PathTypeLocalRelative \<or> pscheme info \<noteq> [] \<or> phost info \<noteq> [] then False
     else \<not> (\<exists>part \<in> set (pathInfo_Parts info). special_part part))"

text \<open>The store path and the full path.\<close>

definition viewPathToStorePathCheck ::
  "path_env \<Rightarrow> pathInfo \<Rightarrow> string \<Rightarrow> name_ctx \<Rightarrow> bool \<Rightarrow> sec_error + string \<times> string" where
  "viewPathToStorePathCheck env rootInfo viewPath nameCryptor allowUnsafe =
    (case ViewPathToStorePath env viewPath nameCryptor of Inl e \<Rightarrow> Inl e
     | Inr storePath \<Rightarrow>
       (case ParsePathInfoEasy env storePath of Inl e \<Rightarrow> Inl (PathErr e)
        | Inr storePathInfo \<Rightarrow>
          if \<not> allowUnsafe \<and> \<not> isSafeRelativeStorePath storePathInfo then Inl ErrPathTraversal
          else let fullPathInfo = pathInfo_Join rootInfo (pathInfo_Parts storePathInfo) in
            if \<not> allowUnsafe \<and> \<not> pathInfo_ContainsPathInfo rootInfo fullPathInfo
            then Inl ErrPathTraversal
            else Inr (storePath, pathInfo_Encode fullPathInfo)))"

definition fullPathFromRelativeStorePath :: "path_env \<Rightarrow> pathInfo \<Rightarrow> string \<Rightarrow> sec_error + string" where
  "fullPathFromRelativeStorePath env rootInfo storePath =
    (case ParsePathInfoEasy env storePath of Inl e \<Rightarrow> Inl (PathErr e)
     | Inr storePathInfo \<Rightarrow>
       if \<not> isSafeRelativeStorePath storePathInfo then Inl ErrPathTraversal
       else let fullPathInfo = pathInfo_Join rootInfo (pathInfo_Parts storePathInfo) in
         if \<not> pathInfo_ContainsPathInfo rootInfo fullPathInfo then Inl ErrPathTraversal
         else Inr (pathInfo_Encode fullPathInfo))"

subsection \<open>Facts about parsed relative paths\<close>

lemma parsePathOnce_relative:
  assumes "pathType (parsePathOnce env path opts) = PathTypeLocalRelative"
  shows "clean_parts (pparts (parsePathOnce env path opts))"
proof -
  obtain scheme host e t where x: "extractSchemeAndHost env path opts = (scheme, host, e, t)"
    using prod_cases4 by blast
  define u where "u = (isFileURIScheme scheme \<or> isURIScheme scheme)"
  define start where "start = (if u then e + seps_from path e else e)"
  obtain sep ps where sp: "split_loop u (drop start path) [] True
      (if u then slash else DefaultSystemSeparator env) [] = (sep, ps)"
    using prod.exhaust by blast
  have "clean_parts ps"
    using split_loop_clean [of "[]" "[]" u "drop start path" True
        "if u then slash else DefaultSystemSeparator env"] sp by simp
  then show ?thesis
    using assms
    by (simp add: parsePathOnce_def x u_def [symmetric] start_def [symmetric] sp is_absolute_type_def
        Let_def split: if_splits)
qed

lemma parse_relative_clean:
  assumes "ParsePathInfoEasy env path = Inr info" "pathType info = PathTypeLocalRelative"
  shows "clean_parts (pparts info)"
  using assms parsePathOnce_relative [of env path None]
  by (auto simp: ParsePathInfoEasy_def ParsePathInfoWithOptions_def Let_def split: if_splits)

lemma parse_separator:
  assumes "ParsePathInfoEasy env path = Inr info" "is_sep (DefaultSystemSeparator env)"
  shows "is_sep (pseparator info)"
proof -
  have sl: "is_sep slash" by (simp add: is_sep_def)
  have "fst (split_loop True cs cur fp s acc) = s" for cs cur fp s acc
    by (induction True cs cur fp s acc rule: split_loop.induct) auto
  moreover have "is_sep (fst (split_loop False cs [] True (DefaultSystemSeparator env) []))" for cs
    using assms(2) by (intro split_loop_sep) auto
  ultimately have "is_sep (fst (split_loop u cs [] True
      (if u then slash else DefaultSystemSeparator env) []))" for u cs
    using sl by (cases u) auto
  then have "is_sep (pseparator (parsePathOnce env path None))"
    using assms(2) by (auto simp: parsePathOnce_def Let_def split: prod.splits) (metis fst_conv)+
  then show ?thesis
    using assms
    by (auto simp: ParsePathInfoEasy_def ParsePathInfoWithOptions_def Let_def split: if_splits)
qed

lemma relative_parts:
  assumes "clean_parts (pparts info)"
  shows "pathInfo_Parts info = pparts info" "pparts info \<noteq> [] \<Longrightarrow> hd (pparts info) \<noteq> []"
  using clean_parts_member(1) [OF assms, of "hd (pparts info)"]
  by (cases "pparts info"; auto simp: pathInfo_Parts_def)+

lemma encode_relative:
  assumes "pscheme info = []" "phost info = []" "clean_parts (pparts info)"
  shows "pathInfo_Encode info = build_parts True (pseparator info) (pparts info)"
  using assms relative_parts(2) [OF assms(3)]
  by (cases "pparts info")
    (auto simp: pathInfo_Encode_def buildEncodedPath_def encoded_host_def buildPath_def
      isFileURIScheme_def)

subsection \<open>Crypting components\<close>

lemma crypt_parts_map:
  assumes "\<forall>p \<in> set ps. (if special_part p then g p = p else f p = Inr (g p))"
  shows "crypt_parts f ps = Inr (map g ps)"
  using assms by (induction ps) auto

context name_cryptor
begin

text \<open>The stored form of a component.\<close>

definition stored_name :: "string \<Rightarrow> string" where
  "stored_name p = (if special_part p then p else case encn p of Inr e \<Rightarrow> e | Inl _ \<Rightarrow> [])"

lemma stored_name_plain:
  assumes "plain_name n" "name_ok n"
  shows "encn n = Inr (stored_name n)" "plain_name (stored_name n)" "colon \<notin> set (stored_name n)"
    "decn (stored_name n) = Inr n"
proof -
  have "\<not> special_part n"
    using assms(1) by (auto simp: plain_name_def special_part_def)
  with name_law [OF assms] show "encn n = Inr (stored_name n)" "plain_name (stored_name n)"
    "colon \<notin> set (stored_name n)" "decn (stored_name n) = Inr n"
    by (auto simp: stored_name_def)
qed

lemma plain_not_special: "plain_name n \<Longrightarrow> \<not> special_part n"
  by (auto simp: plain_name_def special_part_def)

lemma stored_name_dots [simp]: "stored_name ''..'' = ''..''"
  by (simp add: stored_name_def special_part_def)

text \<open>Components of a clean relative path: encrypted one by one they are clean again, and
  decrypting gives the original components.\<close>

lemma crypt_clean_parts:
  assumes "clean_parts ps" "\<forall>p \<in> set ps. name_ok p"
  shows "crypt_parts encn ps = Inr (map stored_name ps)" "clean_parts (map stored_name ps)"
    "\<forall>p \<in> set (map stored_name ps). colon \<notin> set p" "crypt_parts decn (map stored_name ps) = Inr ps"
proof -
  obtain k ns where ps: "ps = replicate k ''..'' @ ns" "\<forall>n \<in> set ns. plain_name n"
    using assms(1) unfolding clean_parts_iff by blast
  have cases: "p = ''..'' \<or> plain_name p \<and> name_ok p" if "p \<in> set ps" for p
    using that ps assms(2) by (auto dest: in_set_replicate [THEN iffD1])
  have sp: "special_part ''..''"
    by (simp add: special_part_def)
  have enc: "if special_part p then stored_name p = p else encn p = Inr (stored_name p)" if "p \<in> set ps" for p
    using cases [OF that] stored_name_plain(1) [of p] sp plain_not_special [of p] by auto
  then show "crypt_parts encn ps = Inr (map stored_name ps)"
    by (intro crypt_parts_map) blast
  show "clean_parts (map stored_name ps)"
    unfolding clean_parts_iff
    using ps assms(2) stored_name_plain(2)
    by (intro exI [of _ k] exI [of _ "map stored_name ns"]) auto
  show "\<forall>p \<in> set (map stored_name ps). colon \<notin> set p"
    using cases stored_name_plain(3) by fastforce
  have dec: "if special_part (stored_name p) then p = stored_name p else decn (stored_name p) = Inr p"
    if "p \<in> set ps" for p
    using cases [OF that] stored_name_plain(2,4) [of p] sp plain_not_special [of "stored_name p"] by auto
  have "crypt_parts decn (map stored_name qs) = Inr qs" if "set qs \<subseteq> set ps" for qs
    using that
  proof (induction qs)
    case (Cons q qs)
    then have "crypt_parts decn (map stored_name qs) = Inr qs" "q \<in> set ps" by auto
    with dec [of q] show ?case by (auto split: if_splits)
  qed simp
  then show "crypt_parts decn (map stored_name ps) = Inr ps" by blast
qed

lemma store_of_view:
  assumes parse: "ParsePathInfoEasy env v = Inr info" "is_sep (DefaultSystemSeparator env)"
    and rel: "pathType info = PathTypeLocalRelative" "pscheme info = []" "phost info = []"
    and ok: "\<forall>p \<in> set (pparts info). name_ok p"
  defines "s \<equiv> build_parts True (pseparator info) (map stored_name (pparts info))"
  shows "ViewPathToStorePath env v (Some (encn, decn)) = Inr s"
    "pparts info \<noteq> [] \<Longrightarrow> ParsePathInfoEasy env s = Inr \<lparr>pscheme = [], phost = [],
      pseparator = (if 1 < length (pparts info) then pseparator info else DefaultSystemSeparator env),
      pparts = map stored_name (pparts info), pathType = PathTypeLocalRelative\<rparr>"
proof -
  let ?ps = "pparts info"
  have clean: "clean_parts ?ps" and sep: "is_sep (pseparator info)"
    using parse_relative_clean [OF parse(1) rel(1)] parse_separator [OF parse] by auto
  note crypt = crypt_clean_parts [OF clean ok] and ps = relative_parts [OF clean]
  have "pathInfo_ReplaceParts info (map stored_name ?ps) = info\<lparr>pparts := map stored_name ?ps\<rparr>"
    using ps(2) by (auto simp: pathInfo_ReplaceParts_def)
  then show "ViewPathToStorePath env v (Some (encn, decn)) = Inr s"
    using parse(1) crypt(1,2) rel
    by (simp add: ViewPathToStorePath_def ps(1) encode_relative s_def)
  assume "?ps \<noteq> []"
  then have "ParsePathInfoEasy env s = Inr \<lparr>pscheme = [], phost = [],
      pseparator = (if 1 < length (map stored_name ?ps) then pseparator info else DefaultSystemSeparator env),
      pparts = map stored_name ?ps, pathType = PathTypeLocalRelative\<rparr>"
    unfolding s_def using crypt(2,3) sep by (intro parse_print_relative) auto
  then show "ParsePathInfoEasy env s = Inr \<lparr>pscheme = [], phost = [],
      pseparator = (if 1 < length ?ps then pseparator info else DefaultSystemSeparator env),
      pparts = map stored_name ?ps, pathType = PathTypeLocalRelative\<rparr>" by simp
qed

lemma view_store_view:
  assumes parse: "ParsePathInfoEasy env v = Inr info" "is_sep (DefaultSystemSeparator env)"
    and rel: "pathType info = PathTypeLocalRelative" "pscheme info = []" "phost info = []"
    and ok: "\<forall>p \<in> set (pparts info). name_ok p"
  shows "\<exists>s. ViewPathToStorePath env v (Some (encn, decn)) = Inr s \<and>
    StorePathToViewPath env s (Some (encn, decn)) = Inr (pathInfo_Encode info)"
proof -
  let ?ps = "pparts info" and ?sep = "pseparator info"
  have clean: "clean_parts ?ps" by (rule parse_relative_clean [OF parse(1) rel(1)])
  note crypt = crypt_clean_parts [OF clean ok]
  let ?qs = "map stored_name ?ps"
  have "StorePathToViewPath env (build_parts True ?sep ?qs) (Some (encn, decn)) =
      Inr (build_parts True ?sep ?ps)"
  proof (cases "?ps = []")
    case True
    then show ?thesis
      by (simp add: StorePathToViewPath_def ParsePathInfoEasy_def ParsePathInfoWithOptions_def
          pathInfo_Parts_def pathInfo_ReplaceParts_def encode_relative)
  next
    case False
    define info2 where "info2 = \<lparr>pscheme = [], phost = [],
      pseparator = (if 1 < length ?ps then ?sep else DefaultSystemSeparator env),
      pparts = ?qs, pathType = PathTypeLocalRelative\<rparr>"
    have p2: "ParsePathInfoEasy env (build_parts True ?sep ?qs) = Inr info2"
      unfolding info2_def by (rule store_of_view(2) [OF assms False])
    have c2: "clean_parts (pparts info2)"
      using crypt(2) by (simp add: info2_def)
    have "pathInfo_ReplaceParts info2 ?ps = info2\<lparr>pparts := ?ps\<rparr>"
      using relative_parts(2) [OF c2] by (auto simp: pathInfo_ReplaceParts_def)
    moreover have "build_parts True (pseparator info2) ?ps = build_parts True ?sep ?ps"
      using False by (cases ?ps; cases "tl ?ps") (auto simp: info2_def)
    ultimately show ?thesis
      using p2 crypt(4) clean
      by (simp add: StorePathToViewPath_def relative_parts(1) [OF c2])
        (simp add: info2_def encode_relative)
  qed
  with store_of_view(1) [OF assms] show ?thesis
    using encode_relative [OF rel(2,3) clean] by auto
qed

end

subsection \<open>Containment\<close>

lemma build_parts_append:
  assumes "\<forall>q \<in> set qs. q \<noteq> []"
  shows "(\<not> first \<or> (\<exists>p \<in> set ps. p \<noteq> [])) \<Longrightarrow>
    build_parts first sep (ps @ qs) = build_parts first sep ps @ concat (map (\<lambda>q. sep # q) qs)"
proof (induction ps arbitrary: first)
  case Nil
  then have "\<not> first" by simp
  moreover have "build_parts False sep qs = concat (map (\<lambda>q. sep # q) qs)"
    using assms by (induction qs) auto
  ultimately show ?case by simp
next
  case (Cons p ps)
  then show ?case by (cases "p = []") auto
qed

lemma encode_Join:
  assumes "\<exists>p \<in> set (pparts root). p \<noteq> []" "\<forall>q \<in> set qs. q \<noteq> []"
  shows "pathInfo_Encode (pathInfo_Join root qs) =
    pathInfo_Encode root @ concat (map (\<lambda>q. pseparator root # q) qs)"
proof (cases "qs = []")
  case True
  then show ?thesis by (simp add: pathInfo_Join_def)
next
  case False
  have ne: "pparts root \<noteq> []" using assms(1) by auto
  have "build_parts True (pseparator root) (pparts root @ qs) =
      build_parts True (pseparator root) (pparts root) @ concat (map (\<lambda>q. pseparator root # q) qs)"
    using assms by (intro build_parts_append) auto
  with ne False show ?thesis
    by (auto simp: pathInfo_Join_def pathInfo_Encode_def buildEncodedPath_def buildPath_def
        encoded_host_def split: PathType.splits)
qed

text \<open>The components of a safe relative store path are plain names.\<close>

lemma safe_parts_plain:
  assumes "ParsePathInfoEasy env path = Inr info" "isSafeRelativeStorePath info"
  shows "\<forall>p \<in> set (pathInfo_Parts info). plain_name p"
proof (cases "pathInfo_Encode info = []")
  case True
  have "pparts info = []"
  proof (rule ccontr)
    assume "pparts info \<noteq> []"
    moreover have "buildPath [] (pparts info) (pseparator info) = []"
      using True by (auto simp: pathInfo_Encode_def buildEncodedPath_def)
    ultimately show False
      by (cases "pparts info") (auto simp: buildPath_def split: if_splits)
  qed
  then show ?thesis by (simp add: pathInfo_Parts_def)
next
  case False
  then have rel: "pathType info = PathTypeLocalRelative"
      and sp: "\<forall>p \<in> set (pathInfo_Parts info). \<not> special_part p"
    using assms(2) by (auto simp: isSafeRelativeStorePath_def split: if_splits)
  have clean: "clean_parts (pparts info)"
    by (rule parse_relative_clean [OF assms(1) rel])
  moreover have "''..'' \<notin> set (pparts info)"
    using sp relative_parts(1) [OF clean] by (auto simp: special_part_def)
  ultimately show ?thesis
    using clean_parts_no_dots relative_parts(1) [OF clean] by simp
qed

text \<open>C8. No view path leads out of the root: whenever the check accepts a path, the full path is
  the root's path followed by components that are plain names, so neither a separator hidden in
  a name nor a parent component survives, whatever the name cryptor returns.\<close>
theorem viewPathToStorePathCheck_contained:
  assumes "viewPathToStorePathCheck env root v nameCryptor False = Inr (store, full)"
    and "\<exists>p \<in> set (pparts root). p \<noteq> []"
  shows "\<exists>ps. (\<forall>p \<in> set ps. plain_name p) \<and>
    full = pathInfo_Encode root @ concat (map (\<lambda>p. pseparator root # p) ps)"
proof -
  obtain info where info: "ParsePathInfoEasy env store = Inr info" "isSafeRelativeStorePath info"
    "full = pathInfo_Encode (pathInfo_Join root (pathInfo_Parts info))"
    using assms(1)
    by (auto simp: viewPathToStorePathCheck_def Let_def split: sum.splits if_splits)
  have plain: "\<forall>p \<in> set (pathInfo_Parts info). plain_name p"
    by (rule safe_parts_plain [OF info(1,2)])
  then have "\<forall>p \<in> set (pathInfo_Parts info). p \<noteq> []"
    by (auto simp: plain_name_def)
  from encode_Join [OF assms(2) this] info(3) plain show ?thesis by blast
qed

text \<open>Store paths given by the caller are held to the same containment.\<close>
theorem fullPathFromRelativeStorePath_contained:
  assumes "fullPathFromRelativeStorePath env root store = Inr full"
    and "\<exists>p \<in> set (pparts root). p \<noteq> []"
  shows "\<exists>ps. (\<forall>p \<in> set ps. plain_name p) \<and>
    full = pathInfo_Encode root @ concat (map (\<lambda>p. pseparator root # p) ps)"
proof -
  obtain info where info: "ParsePathInfoEasy env store = Inr info" "isSafeRelativeStorePath info"
    "full = pathInfo_Encode (pathInfo_Join root (pathInfo_Parts info))"
    using assms(1)
    by (auto simp: fullPathFromRelativeStorePath_def Let_def split: sum.splits if_splits)
  have plain: "\<forall>p \<in> set (pathInfo_Parts info). plain_name p"
    by (rule safe_parts_plain [OF info(1,2)])
  then have "\<forall>p \<in> set (pathInfo_Parts info). p \<noteq> []"
    by (auto simp: plain_name_def)
  from encode_Join [OF assms(2) this] info(3) plain show ?thesis by blast
qed

subsection \<open>Witnesses and further properties\<close>

definition data_root :: pathInfo where
  "data_root = \<lparr>pscheme = [], phost = [], pseparator = slash, pparts = [[], ''data''],
     pathType = PathTypeLocalAbsolute\<rparr>"

lemma viewPathToStorePathCheck_contained_witness:
  "\<exists>store full ps. viewPathToStorePathCheck start_env data_root ''a/../b/c'' None False = Inr (store, full) \<and>
    full = ''/data/b/c'' \<and> (\<forall>p \<in> set ps. plain_name p) \<and>
    full = pathInfo_Encode data_root @ concat (map (\<lambda>p. pseparator data_root # p) ps)"
proof -
  have ev: "viewPathToStorePathCheck start_env data_root ''a/../b/c'' None False =
      Inr (''a/../b/c'', ''/data/b/c'')"
    by code_simp
  have "\<exists>p \<in> set (pparts data_root). p \<noteq> []"
    by (simp add: data_root_def)
  from viewPathToStorePathCheck_contained [OF ev this] ev show ?thesis by blast
qed

lemma fullPathFromRelativeStorePath_contained_witness:
  "\<exists>full ps. fullPathFromRelativeStorePath start_env data_root ''x/y'' = Inr full \<and>
    (\<forall>p \<in> set ps. plain_name p) \<and>
    full = pathInfo_Encode data_root @ concat (map (\<lambda>p. pseparator data_root # p) ps)"
proof -
  have ev: "fullPathFromRelativeStorePath start_env data_root ''x/y'' = Inr ''/data/x/y''"
    by code_simp
  have "\<exists>p \<in> set (pparts data_root). p \<noteq> []"
    by (simp add: data_root_def)
  from fullPathFromRelativeStorePath_contained [OF ev this] ev show ?thesis by blast
qed

text \<open>C13. With an AES-GCM name cryptor, of any key, encrypting the names of a local relative view
  path (one that is parsed without a scheme and a host) and decrypting the stored path gives the cleaned view path.\<close>
theorem view_store_roundtrip_gcm:
  assumes "ParsePathInfoEasy env v = Inr info" "is_sep (DefaultSystemSeparator env)"
    and "pathType info = PathTypeLocalRelative" "pscheme info = []" "phost info = []"
  shows "\<exists>s. ViewPathToStorePath env v (Some (gcm_EncryptName key, gcm_DecryptName key)) = Inr s \<and>
    StorePathToViewPath env s (Some (gcm_EncryptName key, gcm_DecryptName key)) =
      Inr (pathInfo_Encode info)"
  by (rule gcm_name.view_store_view [OF assms]) simp

lemma view_store_roundtrip_gcm_witness:
  "\<exists>s. ViewPathToStorePath start_env ''docs/./a.txt'' (Some (gcm_EncryptName [], gcm_DecryptName [])) = Inr s \<and>
    StorePathToViewPath start_env s (Some (gcm_EncryptName [], gcm_DecryptName [])) = Inr ''docs/a.txt''"
proof -
  define info where "info = \<lparr>pscheme = [], phost = [], pseparator = slash, pparts = [''docs'', ''a.txt''],
    pathType = PathTypeLocalRelative\<rparr>"
  have "ParsePathInfoEasy start_env ''docs/./a.txt'' = Inr info" "pathInfo_Encode info = ''docs/a.txt''"
    unfolding info_def by code_simp+
  moreover have "is_sep (DefaultSystemSeparator start_env)"
    by code_simp
  ultimately show ?thesis
    using view_store_roundtrip_gcm [of start_env "''docs/./a.txt''" info "[]"]
    by (auto simp: info_def)
qed

text \<open>A root given as the current directory has no components, and the containment check
  then refuses every path with a component.\<close>
theorem current_directory_root_refuses:
  assumes "ParsePathInfoEasy env ''.'' = Inr root" "ParsePathInfoEasy env store = Inr info"
    and "isSafeRelativeStorePath info" "pathInfo_Parts info \<noteq> []"
  shows "fullPathFromRelativeStorePath env root store = Inl ErrPathTraversal"
proof -
  have "local_path ''.''" by (simp add: local_path_def)
  then have "pparts root = []"
    using assms(1) by (auto simp: parse_local is_sep_def add_part_def)
  moreover have "pathInfo_Parts (root\<lparr>pparts := pathInfo_Parts info\<rparr>) \<noteq> []"
    using assms(4) by (cases "pathInfo_Parts info"; cases "tl (pathInfo_Parts info)")
      (auto simp: pathInfo_Parts_def)
  ultimately show ?thesis
    using assms
    by (simp add: fullPathFromRelativeStorePath_def pathInfo_Join_def pathInfo_ContainsPathInfo_def
        pathInfo_Parts_def [of root] Let_def)
qed

lemma current_directory_root_refuses_witness:
  "\<exists>root info. ParsePathInfoEasy start_env ''.'' = Inr root \<and>
    ParsePathInfoEasy start_env ''a'' = Inr info \<and>
    fullPathFromRelativeStorePath start_env root ''a'' = Inl ErrPathTraversal"
proof -
  define root where "root = \<lparr>pscheme = [], phost = [], pseparator = slash, pparts = [],
    pathType = PathTypeLocalRelative\<rparr>"
  define info where "info = \<lparr>pscheme = [], phost = [], pseparator = slash, pparts = [''a''],
    pathType = PathTypeLocalRelative\<rparr>"
  have p: "ParsePathInfoEasy start_env ''.'' = Inr root" "ParsePathInfoEasy start_env ''a'' = Inr info"
    unfolding root_def info_def by code_simp+
  have "isSafeRelativeStorePath info" "pathInfo_Parts info \<noteq> []"
    unfolding info_def by code_simp+
  from current_directory_root_refuses [OF p this] p show ?thesis by blast
qed

end
