(* ===== verification/SecRoot.thy ===== *)
theory SecRoot
  imports SecPath StoreFile "HOL-Library.AList" "HOL-Library.Sublist"
begin

text \<open>
  A secure root: src/native/sec_fs/sec_root.go, with the helpers of create_entry.go and
  directory_delete.go. The disk is an association list from the components of an absolute
  path to its node; package os is modelled on it, for a system whose separator is the slash.
  A symbolic link is a node that Lstat, WalkDir and Remove see; what lies behind a link is
  outside the model (\<open>ESYMLINK\<close>). Locks are left out here: an operation is one step.
\<close>

subsection \<open>The disk\<close>

datatype node = NDir | NFile bytes | NSymlink

type_synonym fpath = "string list"
type_synonym disk = "(fpath \<times> node) list"

datatype os_error = ENOENT | EEXIST | ENOTDIR | EISDIR | ENOTEMPTY | EINVAL_os | ESYMLINK

text \<open>The components of an absolute path, as the kernel walks it.\<close>

fun split_slash :: "string \<Rightarrow> string \<Rightarrow> string list" where
  "split_slash cur [] = (if cur = [] then [] else [cur])"
| "split_slash cur (c # cs) =
    (if c = slash then (if cur = [] then [] else [cur]) @ split_slash [] cs
     else split_slash (cur @ [c]) cs)"

definition components :: "string \<Rightarrow> fpath" where
  "components p = split_slash [] p"

definition os_lookup :: "disk \<Rightarrow> fpath \<Rightarrow> node option" where
  "os_lookup d p = (if p = [] then Some NDir else map_of d p)"

text \<open>Why a path is not found: the walk stops at the first component that is not a directory.\<close>

definition walk_error :: "disk \<Rightarrow> fpath \<Rightarrow> os_error" where
  "walk_error d p =
    (case find (\<lambda>q. os_lookup d q \<noteq> Some NDir) (prefixes (butlast p)) of None \<Rightarrow> ENOENT
     | Some q \<Rightarrow> (case os_lookup d q of Some (NFile _) \<Rightarrow> ENOTDIR | Some NSymlink \<Rightarrow> ESYMLINK | _ \<Rightarrow> ENOENT))"

definition parent_error :: "disk \<Rightarrow> fpath \<Rightarrow> os_error option" where
  "parent_error d p = (if os_lookup d (butlast p) = Some NDir then None else Some (walk_error d p))"

definition os_Lstat :: "disk \<Rightarrow> fpath \<Rightarrow> os_error + node" where
  "os_Lstat d p = (case os_lookup d p of None \<Rightarrow> Inl (walk_error d p) | Some n \<Rightarrow> Inr n)"

definition os_Stat :: "disk \<Rightarrow> fpath \<Rightarrow> os_error + node" where
  "os_Stat d p =
    (case os_lookup d p of None \<Rightarrow> Inl (walk_error d p) | Some NSymlink \<Rightarrow> Inl ESYMLINK | Some n \<Rightarrow> Inr n)"

definition os_Mkdir :: "disk \<Rightarrow> fpath \<Rightarrow> disk \<times> os_error option" where
  "os_Mkdir d p =
    (case os_lookup d p of Some _ \<Rightarrow> (d, Some EEXIST)
     | None \<Rightarrow> (case parent_error d p of Some e \<Rightarrow> (d, Some e) | None \<Rightarrow> (AList.update p NDir d, None)))"

text \<open>\<^verbatim>\<open>os.MkdirAll\<close> creates what is missing from the top down.\<close>

fun mkdir_from :: "disk \<Rightarrow> fpath \<Rightarrow> fpath \<Rightarrow> disk \<times> os_error option" where
  "mkdir_from d done [] = (d, None)"
| "mkdir_from d done (c # cs) =
    (case os_lookup d (done @ [c]) of
       Some NDir \<Rightarrow> mkdir_from d (done @ [c]) cs
     | Some (NFile _) \<Rightarrow> (d, Some ENOTDIR)
     | Some NSymlink \<Rightarrow> (d, Some ESYMLINK)
     | None \<Rightarrow> mkdir_from (AList.update (done @ [c]) NDir d) (done @ [c]) cs)"

definition os_MkdirAll :: "disk \<Rightarrow> fpath \<Rightarrow> disk \<times> os_error option" where
  "os_MkdirAll d p = mkdir_from d [] p"

definition has_children :: "disk \<Rightarrow> fpath \<Rightarrow> bool" where
  "has_children d p \<longleftrightarrow> (\<exists>(q, n) \<in> set d. strict_prefix p q)"

definition os_Remove :: "disk \<Rightarrow> fpath \<Rightarrow> disk \<times> os_error option" where
  "os_Remove d p =
    (case os_lookup d p of None \<Rightarrow> (d, Some (walk_error d p))
     | Some NDir \<Rightarrow> if has_children d p then (d, Some ENOTEMPTY) else (AList.delete p d, None)
     | Some _ \<Rightarrow> (AList.delete p d, None))"

definition os_RemoveAll :: "disk \<Rightarrow> fpath \<Rightarrow> disk" where
  "os_RemoveAll d p = filter (\<lambda>(q, n). \<not> prefix p q) d"

text \<open>\<^verbatim>\<open>os.Rename\<close> onto a name that does not exist moves the node and everything below it; an
  existing file is replaced by a file, an empty directory by a directory.\<close>

definition move_key :: "fpath \<Rightarrow> fpath \<Rightarrow> fpath \<Rightarrow> fpath" where
  "move_key old new q = (if prefix old q then new @ drop (length old) q else q)"

definition os_Rename :: "disk \<Rightarrow> fpath \<Rightarrow> fpath \<Rightarrow> disk \<times> os_error option" where
  "os_Rename d old new =
    (case os_lookup d old of None \<Rightarrow> (d, Some (walk_error d old))
     | Some src \<Rightarrow>
       (case parent_error d new of Some e \<Rightarrow> (d, Some e)
        | None \<Rightarrow>
          if old = new then (d, None)
          else if src = NDir \<and> prefix old new then (d, Some EINVAL_os)
          else let moved = (\<lambda>d. map (\<lambda>(q, n). (move_key old new q, n)) d) in
            (case os_lookup d new of None \<Rightarrow> (moved d, None)
             | Some NDir \<Rightarrow>
               if src \<noteq> NDir then (d, Some EISDIR)
               else if has_children d new then (d, Some ENOTEMPTY)
               else (moved (AList.delete new d), None)
             | Some _ \<Rightarrow>
               if src = NDir then (d, Some ENOTDIR) else (moved (AList.delete new d), None))))"

record open_mode =
  o_wronly :: bool
  o_rdwr :: bool
  o_create :: bool
  o_excl :: bool
  o_trunc :: bool
  o_append :: bool

datatype opened = OpenedDir | OpenedFile osfile

definition handle :: "open_mode \<Rightarrow> bytes \<Rightarrow> nat \<Rightarrow> osfile" where
  "handle m data room = \<lparr>fdata = data, foff = 0, froom = room, fopen = True,
     freadable = (\<not> o_wronly m), fwritable = (o_wronly m \<or> o_rdwr m), fappend = o_append m, fat = True\<rparr>"

definition os_OpenFile :: "nat \<Rightarrow> disk \<Rightarrow> fpath \<Rightarrow> open_mode \<Rightarrow> disk \<times> (os_error + opened)" where
  "os_OpenFile room d p m =
    (case os_lookup d p of
       Some NDir \<Rightarrow>
         if o_create m \<and> o_excl m then (d, Inl EEXIST)
         else if o_wronly m \<or> o_rdwr m \<or> o_create m then (d, Inl EISDIR) else (d, Inr OpenedDir)
     | Some NSymlink \<Rightarrow> (d, Inl (if o_create m \<and> o_excl m then EEXIST else ESYMLINK))
     | Some (NFile data) \<Rightarrow>
         if o_create m \<and> o_excl m then (d, Inl EEXIST)
         else if o_trunc m then (AList.update p (NFile []) d, Inr (OpenedFile (handle m [] room)))
         else (d, Inr (OpenedFile (handle m data room)))
     | None \<Rightarrow>
         if \<not> o_create m then (d, Inl (walk_error d p))
         else (case parent_error d p of Some e \<Rightarrow> (d, Inl e)
           | None \<Rightarrow> (AList.update p (NFile []) d, Inr (OpenedFile (handle m [] room)))))"

subsection \<open>The root\<close>

text \<open>\<open>newContext\<close> is the \<^verbatim>\<open>NewContext\<close> of the data factory with the root's key and configuration;
  its result is the context as the file keeps it.\<close>

record IIgnoreMatcher =
  ShouldIgnore1 :: "string \<Rightarrow> bool \<Rightarrow> bool"   \<comment> \<open>the stored name, and whether it is a directory\<close>
  ShouldIgnore2 :: "string \<Rightarrow> bool \<Rightarrow> bool"   \<comment> \<open>the decrypted name\<close>

record 'c secRoot =
  rootPathInfo :: pathInfo
  nameCryptor :: name_ctx
  ignoreMatcher :: "IIgnoreMatcher option"
  keyInfo :: "bytes option"
  newContext :: "osfile \<Rightarrow> bytes option \<Rightarrow> io_error + 'c"
  rclosed :: bool

datatype root_error =
    ErrRootIsNil
  | ErrRootClosed
  | RootPathError sec_error
  | RootOsError string os_error
  | RootCryptoError io_error
  | ErrFileAlreadyExists
  | ErrInvalidPath
  | ErrNotADirectory
  | ErrUnsupportedOperation

text \<open>The common head of the operations: nil, closed, then the path check. \<open>None\<close> is a nil root.\<close>

definition open_root :: "'c secRoot option \<Rightarrow> root_error + 'c secRoot" where
  "open_root r = (case r of None \<Rightarrow> Inl ErrRootClosed
     | Some root \<Rightarrow> if rclosed root then Inl ErrRootClosed else Inr root)"

definition full_path :: "path_env \<Rightarrow> 'c secRoot \<Rightarrow> string \<Rightarrow> root_error + string" where
  "full_path env root v =
    (case viewPathToStorePathCheck env (rootPathInfo root) v (nameCryptor root) False of
       Inl e \<Rightarrow> Inl (RootPathError e) | Inr (_, full) \<Rightarrow> Inr full)"

definition checked_path :: "path_env \<Rightarrow> 'c secRoot option \<Rightarrow> string \<Rightarrow> root_error + 'c secRoot \<times> fpath" where
  "checked_path env r v =
    (case open_root r of Inl e \<Rightarrow> Inl e
     | Inr root \<Rightarrow> (case full_path env root v of Inl e \<Rightarrow> Inl e | Inr full \<Rightarrow> Inr (root, components full)))"

definition root_OpenFile ::
  "path_env \<Rightarrow> nat \<Rightarrow> 'c secRoot option \<Rightarrow> disk \<Rightarrow> string \<Rightarrow> open_mode \<Rightarrow> disk \<times> (root_error + 'c option)" where
  "root_OpenFile env room r d v m =
    (case checked_path env r v of Inl e \<Rightarrow> (d, Inl e)
     | Inr (root, p) \<Rightarrow>
       let (d1, merr) = (if o_wronly m \<or> o_rdwr m \<or> o_create m then os_MkdirAll d (butlast p) else (d, None))
       in case merr of Some e \<Rightarrow> (d1, Inl (RootOsError ''mkdir'' e))
        | None \<Rightarrow>
          (case os_OpenFile room d1 p m of
             (d2, Inl e) \<Rightarrow> (d2, Inl (RootOsError ''open'' e))
           | (d2, Inr OpenedDir) \<Rightarrow> (d2, Inr None)
           | (d2, Inr (OpenedFile f)) \<Rightarrow>
             (case newContext root f (keyInfo root) of Inl e \<Rightarrow> (d2, Inl (RootCryptoError e))
              | Inr c \<Rightarrow> (d2, Inr (Some c)))))"

definition root_Open ::
  "path_env \<Rightarrow> nat \<Rightarrow> 'c secRoot option \<Rightarrow> disk \<Rightarrow> string \<Rightarrow> disk \<times> (root_error + 'c option)" where
  "root_Open env room r d name =
    (case r of None \<Rightarrow> (d, Inl ErrRootIsNil)
     | Some root \<Rightarrow>
       if rclosed root then (d, Inl ErrRootClosed)
       else root_OpenFile env room r d name
         \<lparr>o_wronly = False, o_rdwr = False, o_create = False, o_excl = False, o_trunc = False,
          o_append = False\<rparr>)"

text \<open>\<^verbatim>\<open>Close\<close> closes the name cryptor and destroys the key; the error is the cryptor's.\<close>

definition root_Close :: "'c secRoot option \<Rightarrow> 'c secRoot option" where
  "root_Close r = (case r of None \<Rightarrow> None
     | Some root \<Rightarrow>
       if rclosed root then Some root
       else Some (root\<lparr>rclosed := True, nameCryptor := None, keyInfo := None\<rparr>))"

definition root_DeleteFile :: "path_env \<Rightarrow> 'c secRoot option \<Rightarrow> disk \<Rightarrow> string \<Rightarrow> disk \<times> root_error option" where
  "root_DeleteFile env r d v =
    (case checked_path env r v of Inl e \<Rightarrow> (d, Some e)
     | Inr (root, p) \<Rightarrow> (case os_Remove d p of (d', err) \<Rightarrow> (d', map_option (RootOsError ''remove'') err)))"

text \<open>\<^verbatim>\<open>deleteDirectoryTree\<close>: the guard looks at the view path as written.\<close>

definition deleteDirectoryTree :: "disk \<Rightarrow> string \<Rightarrow> fpath \<Rightarrow> disk \<times> root_error option" where
  "deleteDirectoryTree d v p =
    (if v = [] \<or> v = ''.'' then (d, Some ErrInvalidPath)
     else case os_Lstat d p of Inl e \<Rightarrow> (d, Some (RootOsError ''lstat'' e))
       | Inr n \<Rightarrow>
         if n \<noteq> NDir then (d, Some ErrNotADirectory)
         else if \<exists>(q, n') \<in> set d. prefix p q \<and> n' = NSymlink then (d, Some ErrUnsupportedOperation)
         else (os_RemoveAll d p, None))"

definition root_DeleteDirectoryTree ::
  "path_env \<Rightarrow> 'c secRoot option \<Rightarrow> disk \<Rightarrow> string \<Rightarrow> disk \<times> root_error option" where
  "root_DeleteDirectoryTree env r d v =
    (case checked_path env r v of Inl e \<Rightarrow> (d, Some e)
     | Inr (root, p) \<Rightarrow> deleteDirectoryTree d v p)"

definition root_FileExists :: "path_env \<Rightarrow> 'c secRoot option \<Rightarrow> disk \<Rightarrow> string \<Rightarrow> bool" where
  "root_FileExists env r d v =
    (case checked_path env r v of Inl e \<Rightarrow> False
     | Inr (root, p) \<Rightarrow> (case os_Stat d p of Inl _ \<Rightarrow> False | Inr _ \<Rightarrow> True))"

definition root_MkdirAll :: "path_env \<Rightarrow> 'c secRoot option \<Rightarrow> disk \<Rightarrow> string \<Rightarrow> disk \<times> root_error option" where
  "root_MkdirAll env r d v =
    (case checked_path env r v of Inl e \<Rightarrow> (d, Some e)
     | Inr (root, p) \<Rightarrow> (case os_MkdirAll d p of (d', err) \<Rightarrow> (d', map_option (RootOsError ''mkdir'') err)))"

definition root_Rename ::
  "path_env \<Rightarrow> 'c secRoot option \<Rightarrow> disk \<Rightarrow> string \<Rightarrow> string \<Rightarrow> disk \<times> root_error option" where
  "root_Rename env r d oldPath newPath =
    (case open_root r of Inl e \<Rightarrow> (d, Some e)
     | Inr root \<Rightarrow>
       if oldPath = newPath then (d, None)
       else (case full_path env root oldPath of Inl e \<Rightarrow> (d, Some e)
         | Inr old \<Rightarrow>
           (case full_path env root newPath of Inl e \<Rightarrow> (d, Some e)
            | Inr new \<Rightarrow>
              (case os_Lstat d (components new) of
                 Inr _ \<Rightarrow> (d, Some ErrFileAlreadyExists)
               | Inl e \<Rightarrow>
                 if e \<noteq> ENOENT then (d, Some (RootOsError ''stat_rename_target'' e))
                 else (case os_Rename d (components old) (components new) of
                     (d', err) \<Rightarrow> (d', map_option (RootOsError ''rename'') err))))))"

definition root_RenameByStorePath ::
  "path_env \<Rightarrow> 'c secRoot option \<Rightarrow> disk \<Rightarrow> string \<Rightarrow> string \<Rightarrow> disk \<times> root_error option" where
  "root_RenameByStorePath env r d oldPath newPath =
    (case open_root r of Inl e \<Rightarrow> (d, Some e)
     | Inr root \<Rightarrow>
       (case fullPathFromRelativeStorePath env (rootPathInfo root) oldPath of
          Inl e \<Rightarrow> (d, Some (RootPathError e))
        | Inr old \<Rightarrow>
          (case fullPathFromRelativeStorePath env (rootPathInfo root) newPath of
             Inl e \<Rightarrow> (d, Some (RootPathError e))
           | Inr new \<Rightarrow>
             (case os_Rename d (components old) (components new) of
                (d', err) \<Rightarrow> (d', map_option (RootOsError ''rename_by_store_path'') err)))))"

definition root_GetStorePath :: "path_env \<Rightarrow> 'c secRoot option \<Rightarrow> string \<Rightarrow> root_error + string" where
  "root_GetStorePath env r v =
    (case open_root r of Inl e \<Rightarrow> Inl e
     | Inr root \<Rightarrow>
       (case viewPathToStorePathCheck env (rootPathInfo root) v (nameCryptor root) False of
          Inl e \<Rightarrow> Inl (RootPathError e) | Inr (store, _) \<Rightarrow> Inr store))"

definition root_GetRootPath :: "'c secRoot option \<Rightarrow> string" where
  "root_GetRootPath r = (case r of None \<Rightarrow> [] | Some root \<Rightarrow> pathInfo_Encode (rootPathInfo root))"

text \<open>\<^verbatim>\<open>filepath.Base\<close> of the view path is the name that \<^verbatim>\<open>Stat\<close> reports.\<close>

definition filepath_Base :: "string \<Rightarrow> string" where
  "filepath_Base p =
    (if p = [] then ''.''
     else case rev (components p) of [] \<Rightarrow> [slash] | c # _ \<Rightarrow> c)"

definition root_Stat :: "path_env \<Rightarrow> 'c secRoot option \<Rightarrow> disk \<Rightarrow> string \<Rightarrow> root_error + string \<times> node" where
  "root_Stat env r d v =
    (case r of None \<Rightarrow> Inl ErrRootIsNil
     | Some _ \<Rightarrow>
       (case checked_path env r v of Inl e \<Rightarrow> Inl e
        | Inr (root, p) \<Rightarrow>
          (case os_Stat d p of Inl e \<Rightarrow> Inl (RootOsError ''stat'' e) | Inr n \<Rightarrow> Inr (filepath_Base v, n))))"

subsection \<open>Creating entries (create_entry.go)\<close>

definition excl_mode :: open_mode where
  "excl_mode = \<lparr>o_wronly = True, o_rdwr = False, o_create = True, o_excl = True, o_trunc = False,
     o_append = False\<rparr>"

text \<open>Closing the new file cannot fail in the model, so the clean-up after a failed close does not
  appear.\<close>

definition CreateEmptyFile ::
  "path_env \<Rightarrow> nat \<Rightarrow> 'c secRoot option \<Rightarrow> disk \<Rightarrow> string \<Rightarrow> disk \<times> root_error option" where
  "CreateEmptyFile env room r d v =
    (case r of None \<Rightarrow> (d, Some ErrRootIsNil)
     | Some _ \<Rightarrow>
       (case root_OpenFile env room r d v excl_mode of
          (d', Inl (RootOsError op EEXIST)) \<Rightarrow> (d', Some ErrFileAlreadyExists)
        | (d', Inl e) \<Rightarrow> (d', Some e)
        | (d', Inr _) \<Rightarrow> (d', None)))"

text \<open>\<^verbatim>\<open>filepath.Join\<close> cleans the joined path by its text.\<close>

definition clean_components :: "fpath \<Rightarrow> fpath" where
  "clean_components cs =
    fold (\<lambda>c acc. if c = ''.'' then acc else if c = ''..'' then butlast acc else acc @ [c]) cs []"

definition CreateDirectory :: "path_env \<Rightarrow> 'c secRoot option \<Rightarrow> disk \<Rightarrow> string \<Rightarrow> disk \<times> root_error option" where
  "CreateDirectory env r d v =
    (case r of None \<Rightarrow> (d, Some ErrRootIsNil)
     | Some root \<Rightarrow>
       (case root_GetStorePath env r v of Inl e \<Rightarrow> (d, Some e)
        | Inr storePath \<Rightarrow>
          if storePath = [] then (d, Some ErrInvalidPath)
          else (case os_Mkdir d (clean_components (components (root_GetRootPath r @ [slash] @ storePath))) of
              (d', None) \<Rightarrow> (d', None)
            | (d', Some EEXIST) \<Rightarrow> (d', Some ErrFileAlreadyExists)
            | (d', Some e) \<Rightarrow> (d', Some (RootOsError ''mkdir'' e)))))"

end
