(* ===== verification/SecRootProps.thy ===== *)
theory SecRootProps
  imports SecRoot
begin

text \<open>
  What a secure root guarantees about the disk: every operation leaves everything outside the
  root directory as it was, a closed root refuses, and renaming moves a tree without replacing
  anything. The same model shows what the guard of directory deletion misses.
\<close>

subsection \<open>Components of a checked path\<close>

lemma split_slash_append: "split_slash cur (s @ slash # t) = split_slash cur s @ split_slash [] t"
  by (induction cur s rule: split_slash.induct) auto

lemma split_slash_name: "slash \<notin> set p \<Longrightarrow> split_slash cur (p @ rest) = split_slash (cur @ p) rest"
  by (induction p arbitrary: cur) auto

lemma plain_no_slash: "plain_name p \<Longrightarrow> slash \<notin> set p \<and> p \<noteq> []"
  by (auto simp: plain_name_def no_sep_def is_sep_def)

lemma split_slash_names:
  assumes "\<forall>p \<in> set ps. plain_name p"
  shows "split_slash cur (s @ concat (map (\<lambda>p. slash # p) ps)) = split_slash cur s @ ps"
  using assms
proof (induction ps arbitrary: s)
  case (Cons p ps)
  have "s @ concat (map (\<lambda>p. slash # p) (p # ps)) = (s @ slash # p) @ concat (map (\<lambda>p. slash # p) ps)"
    by simp
  moreover have "split_slash cur (s @ slash # p) = split_slash cur s @ [p]"
    using Cons.prems split_slash_name [of p "[]" "[]"] plain_no_slash [of p]
    by (simp add: split_slash_append)
  ultimately show ?case
    using Cons.IH [of "s @ slash # p"] Cons.prems by simp
qed simp

text \<open>A root directory that is not the top of the file system, on a system with slashes.\<close>

definition usual_root :: "'c secRoot \<Rightarrow> bool" where
  "usual_root root \<longleftrightarrow> pseparator (rootPathInfo root) = slash \<and>
    (\<exists>p \<in> set (pparts (rootPathInfo root)). p \<noteq> [])"

definition root_dir :: "'c secRoot \<Rightarrow> fpath" where
  "root_dir root = components (pathInfo_Encode (rootPathInfo root))"

lemma contained_components:
  assumes "usual_root root" "\<forall>p \<in> set ps. plain_name p"
    and "full = pathInfo_Encode (rootPathInfo root) @ concat (map (\<lambda>p. pseparator (rootPathInfo root) # p) ps)"
  shows "prefix (root_dir root) (components full)"
  using assms by (simp add: usual_root_def root_dir_def components_def split_slash_names)

lemma checked_info:
  assumes "viewPathToStorePathCheck env root v nc False = Inr (store, full)"
    and "\<exists>p \<in> set (pparts root). p \<noteq> []"
  shows "\<exists>ps. (\<forall>p \<in> set ps. plain_name p) \<and>
    full = pathInfo_Encode root @ concat (map (\<lambda>p. pseparator root # p) ps)"
proof -
  obtain info where info: "ParsePathInfoEasy env store = Inr info" "isSafeRelativeStorePath info"
    "full = pathInfo_Encode (pathInfo_Join root (pathInfo_Parts info))"
    using assms(1)
    by (auto simp: viewPathToStorePathCheck_def Let_def split: sum.splits if_splits)
  have plain: "\<forall>p \<in> set (pathInfo_Parts info). plain_name p"
    by (rule safe_parts_plain [OF info(1,2)])
  then have "\<forall>p \<in> set (pathInfo_Parts info). p \<noteq> []"
    by (auto simp: plain_name_def)
  from encode_Join [OF assms(2) this] info(3) plain show ?thesis by blast
qed

lemma full_path_inside:
  assumes "full_path env root v = Inr full" "usual_root root"
  shows "prefix (root_dir root) (components full)"
proof -
  obtain store where "viewPathToStorePathCheck env (rootPathInfo root) v (nameCryptor root) False = Inr (store, full)"
    using assms(1) by (auto simp: full_path_def split: sum.splits)
  from checked_info [OF this] assms(2) contained_components [OF assms(2)] show ?thesis
    by (auto simp: usual_root_def)
qed

lemma checked_path_inside:
  assumes "checked_path env (Some root) v = Inr (root', p)" "usual_root root"
  shows "root' = root" "prefix (root_dir root) p"
  using assms full_path_inside [of env root v]
  by (auto simp: checked_path_def open_root_def split: sum.splits if_splits)

lemma store_path_inside:
  assumes "fullPathFromRelativeStorePath env (rootPathInfo root) store = Inr full" "usual_root root"
  shows "prefix (root_dir root) (components full)"
proof -
  obtain info where info: "ParsePathInfoEasy env store = Inr info" "isSafeRelativeStorePath info"
    "full = pathInfo_Encode (pathInfo_Join (rootPathInfo root) (pathInfo_Parts info))"
    using assms(1)
    by (auto simp: fullPathFromRelativeStorePath_def Let_def split: sum.splits if_splits)
  have plain: "\<forall>p \<in> set (pathInfo_Parts info). plain_name p"
    by (rule safe_parts_plain [OF info(1,2)])
  then have "\<forall>p \<in> set (pathInfo_Parts info). p \<noteq> []"
    by (auto simp: plain_name_def)
  from encode_Join [OF _ this] info(3) plain assms(2) contained_components [OF assms(2) plain]
  show ?thesis by (auto simp: usual_root_def)
qed

subsection \<open>What the os operations touch\<close>

definition same_outside :: "fpath \<Rightarrow> disk \<Rightarrow> disk \<Rightarrow> bool" where
  "same_outside R d d' \<longleftrightarrow> (\<forall>k. \<not> prefix R k \<longrightarrow> os_lookup d' k = os_lookup d k)"

text \<open>The directories above \<open>R\<close> exist; these are outside, so operations inside keep it.\<close>

definition parents_exist :: "disk \<Rightarrow> fpath \<Rightarrow> bool" where
  "parents_exist d R \<longleftrightarrow> (\<forall>k. strict_prefix k R \<longrightarrow> os_lookup d k = Some NDir)"

lemma same_outside_refl [simp]: "same_outside R d d"
  by (simp add: same_outside_def)

lemma parents_kept: "same_outside R d d' \<Longrightarrow> parents_exist d R \<Longrightarrow> parents_exist d' R"
  by (auto simp: same_outside_def parents_exist_def strict_prefix_def)

lemma same_outside_trans: "same_outside R d d1 \<Longrightarrow> same_outside R d1 d2 \<Longrightarrow> same_outside R d d2"
  by (simp add: same_outside_def)

lemma update_outside: "prefix R p \<Longrightarrow> same_outside R d (AList.update p n d)"
  by (auto simp: same_outside_def os_lookup_def update_conv')

lemma delete_outside: "prefix R p \<Longrightarrow> same_outside R d (AList.delete p d)"
  by (auto simp: same_outside_def os_lookup_def delete_conv')

lemma map_of_RemoveAll: "map_of (os_RemoveAll d p) k = (if prefix p k then None else map_of d k)"
  by (induction d) (auto simp: os_RemoveAll_def)

lemma RemoveAll_outside: "prefix R p \<Longrightarrow> same_outside R d (os_RemoveAll d p)"
  by (auto simp: same_outside_def os_lookup_def map_of_RemoveAll dest: prefix_order.trans)

lemma Remove_outside: "prefix R p \<Longrightarrow> same_outside R d (fst (os_Remove d p))"
  by (auto simp: os_Remove_def delete_outside split: option.splits node.splits)

lemma mkdir_from_touches:
  "mkdir_from d pre cs = (d', err) \<Longrightarrow> os_lookup d' k \<noteq> os_lookup d k \<Longrightarrow>
    os_lookup d k = None \<and> prefix k (pre @ cs)"
proof (induction d pre cs arbitrary: d' err rule: mkdir_from.induct)
  case (2 d pre c cs)
  show ?case
  proof (cases "os_lookup d (pre @ [c])")
    case None
    let ?d1 = "AList.update (pre @ [c]) NDir d"
    have m: "mkdir_from ?d1 (pre @ [c]) cs = (d', err)"
      using 2(3) None by simp
    show ?thesis
    proof (cases "k = pre @ [c]")
      case True
      with None show ?thesis by simp
    next
      case False
      then have "os_lookup ?d1 k = os_lookup d k"
        by (simp add: os_lookup_def update_conv')
      with 2(1) [OF None m] 2(4) show ?thesis by simp
    qed
  next
    case (Some n)
    with 2 show ?thesis by (cases n) auto
  qed
qed simp

lemma MkdirAll_outside:
  assumes "parents_exist d R" "prefix R p"
  shows "same_outside R d (fst (os_MkdirAll d p))"
proof -
  obtain d' err where m: "mkdir_from d [] p = (d', err)" by fastforce
  have "os_lookup d' k = os_lookup d k" if "\<not> prefix R k" for k
  proof (rule ccontr)
    assume "os_lookup d' k \<noteq> os_lookup d k"
    from mkdir_from_touches [OF m this] have "os_lookup d k = None" "prefix k p" by auto
    moreover from this(2) assms(2) that have "strict_prefix k R"
      using prefix_same_cases by (auto simp: strict_prefix_def)
    ultimately show False
      using assms(1) by (auto simp: parents_exist_def)
  qed
  with m show ?thesis
    by (simp add: same_outside_def os_MkdirAll_def)
qed

lemma OpenFile_outside: "prefix R p \<Longrightarrow> same_outside R d (fst (os_OpenFile room d p m))"
  by (auto simp: os_OpenFile_def update_outside split: option.splits node.splits)

lemma move_outside:
  assumes "prefix R old" "prefix R new"
  shows "same_outside R d (map (\<lambda>(q, n). (move_key old new q, n)) d)"
proof -
  have "map_of (map (\<lambda>(q, n). (move_key old new q, n)) d) k = map_of d k" if "\<not> prefix R k" for k
  proof -
    have iff: "k = move_key old new q \<longleftrightarrow> k = q" for q
    proof (cases "prefix old q")
      case True
      have "prefix R q" "prefix R (move_key old new q)"
        using prefix_order.trans [OF assms(1) True] prefix_prefix [OF assms(2)] True
        by (simp_all add: move_key_def)
      with that show ?thesis by blast
    qed (simp add: move_key_def)
    show ?thesis
      by (induction d) (simp_all add: iff case_prod_beta eq_commute [of _ k])
  qed
  then show ?thesis
    by (simp add: same_outside_def os_lookup_def)
qed

lemma Rename_outside:
  assumes "prefix R old" "prefix R new"
  shows "same_outside R d (fst (os_Rename d old new))"
proof -
  have "same_outside R d (map (\<lambda>(q, n). (move_key old new q, n)) (AList.delete new d))"
    using same_outside_trans [OF delete_outside [OF assms(2)] move_outside [OF assms]] .
  then show ?thesis
    by (auto simp: os_Rename_def move_outside [OF assms] Let_def split: option.splits node.splits)
qed

subsection \<open>Every operation stays inside the root\<close>

datatype root_op =
    OpOpen string
  | OpOpenFile string open_mode
  | OpDeleteFile string
  | OpDeleteDirectoryTree string
  | OpMkdirAll string
  | OpRename string string
  | OpRenameByStorePath string string
  | OpCreateEmptyFile string
  | OpCreateDirectory string
  | OpStat string
  | OpGetStorePath string

definition result_error :: "disk \<times> (root_error + 'a) \<Rightarrow> disk \<times> root_error option" where
  "result_error res = (case res of (d, Inl e) \<Rightarrow> (d, Some e) | (d, Inr _) \<Rightarrow> (d, None))"

fun root_step :: "path_env \<Rightarrow> nat \<Rightarrow> 'c secRoot option \<Rightarrow> disk \<Rightarrow> root_op \<Rightarrow> disk \<times> root_error option" where
  "root_step env room r d (OpOpen v) = result_error (root_Open env room r d v)"
| "root_step env room r d (OpOpenFile v m) = result_error (root_OpenFile env room r d v m)"
| "root_step env room r d (OpDeleteFile v) = root_DeleteFile env r d v"
| "root_step env room r d (OpDeleteDirectoryTree v) = root_DeleteDirectoryTree env r d v"
| "root_step env room r d (OpMkdirAll v) = root_MkdirAll env r d v"
| "root_step env room r d (OpRename v w) = root_Rename env r d v w"
| "root_step env room r d (OpRenameByStorePath v w) = root_RenameByStorePath env r d v w"
| "root_step env room r d (OpCreateEmptyFile v) = CreateEmptyFile env room r d v"
| "root_step env room r d (OpCreateDirectory v) = CreateDirectory env r d v"
| "root_step env room r d (OpStat v) = result_error (d, root_Stat env r d v)"
| "root_step env room r d (OpGetStorePath v) = result_error (d, root_GetStorePath env r v)"

lemma fst_result_error [simp]: "fst (result_error res) = fst res"
  by (auto simp: result_error_def split: prod.splits sum.splits)

lemma root_OpenFile_outside:
  assumes "usual_root root" "parents_exist d (root_dir root)"
  shows "same_outside (root_dir root) d (fst (root_OpenFile env room (Some root) d v m))"
proof (cases "checked_path env (Some root) v")
  case (Inr res)
  obtain root' p where res: "res = (root', p)" by fastforce
  note c = checked_path_inside [OF Inr [unfolded res] assms(1)]
  obtain d1 merr where mk: "(if o_wronly m \<or> o_rdwr m \<or> o_create m then os_MkdirAll d (butlast p) else (d, None)) = (d1, merr)"
    by fastforce
  have "same_outside (root_dir root) d d1"
  proof (cases "prefix (root_dir root) (butlast p)")
    case True
    then show ?thesis
      using MkdirAll_outside [OF assms(2) True] mk by (auto split: if_splits)
  next
    case False
    with c(2) have p: "p = root_dir root"
      by (metis append_butlast_last_id butlast.simps(1) prefix_bot.bot_least prefix_bot.extremum_uniqueI prefix_snoc)
    have "strict_prefix k p" if "prefix k (butlast p)" "p \<noteq> []" for k
      using that by (cases p rule: rev_cases) (auto simp: strict_prefix_def)
    with assms(2) p have "\<forall>k. prefix k (butlast p) \<longrightarrow> os_lookup d k = Some NDir"
      by (cases "p = []") (auto simp: parents_exist_def os_lookup_def)
    moreover have "mkdir_from d pre cs = (d, None)"
      if "\<forall>k. prefix k (pre @ cs) \<longrightarrow> os_lookup d k = Some NDir" for pre cs
      using that by (induction cs arbitrary: pre) auto
    ultimately have "os_MkdirAll d (butlast p) = (d, None)"
      by (simp add: os_MkdirAll_def)
    with mk show ?thesis by (auto split: if_splits)
  qed
  moreover have "same_outside (root_dir root) d1 (fst (os_OpenFile room d1 p m))"
    by (rule OpenFile_outside [OF c(2)])
  ultimately have "same_outside (root_dir root) d (fst (os_OpenFile room d1 p m))" "same_outside (root_dir root) d d1"
    using same_outside_trans by blast+
  then show ?thesis
    using Inr res mk by (auto simp: root_OpenFile_def split: option.splits prod.splits sum.splits opened.splits)
qed (simp add: root_OpenFile_def)

lemma CreateEmptyFile_fst:
  "fst (CreateEmptyFile env room (Some root) d v) = fst (root_OpenFile env room (Some root) d v excl_mode)"
  by (auto simp: CreateEmptyFile_def split: prod.splits sum.splits root_error.splits os_error.splits)

lemma deleteDirectoryTree_outside:
  "prefix R p \<Longrightarrow> same_outside R d (fst (deleteDirectoryTree d v p))"
  by (auto simp: deleteDirectoryTree_def RemoveAll_outside split: sum.splits)

lemma root_Rename_outside:
  assumes "usual_root root"
  shows "same_outside (root_dir root) d (fst (root_Rename env (Some root) d v w))"
    "same_outside (root_dir root) d (fst (root_RenameByStorePath env (Some root) d v w))"
  using Rename_outside full_path_inside [OF _ assms] store_path_inside [OF _ assms]
  by (auto simp: root_Rename_def root_RenameByStorePath_def open_root_def case_prod_beta
      split: sum.splits if_splits)

text \<open>\<^verbatim>\<open>CreateDirectory\<close> joins the root path and the stored path as text, so a parent component of
  the stored path would lead out. The condition excludes it; every other operation needs none.\<close>

definition stays_joined :: "path_env \<Rightarrow> 'c secRoot \<Rightarrow> root_op \<Rightarrow> bool" where
  "stays_joined env root op \<longleftrightarrow> (case op of
     OpCreateDirectory v \<Rightarrow> (\<forall>c \<in> set (root_dir root). \<not> special_part c) \<and>
       (case root_GetStorePath env (Some root) v of Inl _ \<Rightarrow> True | Inr store \<Rightarrow> ''..'' \<notin> set (components store))
   | _ \<Rightarrow> True)"

lemma clean_no_parents:
  assumes "\<forall>c \<in> set cs. \<not> special_part c" "''..'' \<notin> set ds"
  shows "prefix cs (clean_components (cs @ ds))"
proof -
  let ?f = "\<lambda>c acc. if c = ''.'' then acc else if c = ''..'' then butlast acc else acc @ [c]"
  have "clean_components (cs @ ds) = fold ?f ds (fold ?f cs [])"
    by (simp add: clean_components_def)
  moreover have "fold ?f cs acc = acc @ cs" for acc
    using assms(1) by (induction cs arbitrary: acc) (auto simp: special_part_def)
  moreover have "prefix acc (fold ?f ds acc)" for acc
    using assms(2)
  proof (induction ds arbitrary: acc)
    case (Cons c ds)
    then show ?case
      using Cons.IH [of acc] Cons.IH [of "acc @ [c]"] by (auto dest: append_prefixD)
  qed simp
  ultimately show ?thesis by simp
qed

lemma CreateDirectory_outside:
  assumes "stays_joined env root (OpCreateDirectory v)"
  shows "same_outside (root_dir root) d (fst (CreateDirectory env (Some root) d v))"
proof (cases "root_GetStorePath env (Some root) v")
  case (Inr store)
  let ?p = "clean_components (components (root_GetRootPath (Some root) @ [slash] @ store))"
  have "components (root_GetRootPath (Some root) @ [slash] @ store) = root_dir root @ components store"
    by (simp add: components_def root_dir_def root_GetRootPath_def split_slash_append)
  then have "prefix (root_dir root) ?p"
    using assms Inr by (simp add: stays_joined_def clean_no_parents)
  then have "same_outside (root_dir root) d (fst (os_Mkdir d ?p))"
    by (simp add: os_Mkdir_def update_outside split: option.split)
  with Inr show ?thesis
    by (auto simp: CreateDirectory_def split: prod.splits option.splits os_error.splits)
qed (simp add: CreateDirectory_def)

lemma root_step_outside:
  assumes "usual_root root" "parents_exist d (root_dir root)" "stays_joined env root op"
  shows "same_outside (root_dir root) d (fst (root_step env room (Some root) d op))"
proof (cases op)
  case (OpOpen v)
  then show ?thesis
    using root_OpenFile_outside [OF assms(1,2)] by (auto simp: root_Open_def)
next
  case (OpOpenFile v m)
  then show ?thesis using root_OpenFile_outside [OF assms(1,2)] by simp
next
  case (OpDeleteFile v)
  then show ?thesis
    using Remove_outside checked_path_inside [OF _ assms(1)]
    by (auto simp: root_DeleteFile_def case_prod_beta split: sum.splits)
next
  case (OpDeleteDirectoryTree v)
  then show ?thesis
    using deleteDirectoryTree_outside checked_path_inside [OF _ assms(1)]
    by (auto simp: root_DeleteDirectoryTree_def split: sum.splits)
next
  case (OpMkdirAll v)
  then show ?thesis
    using MkdirAll_outside [OF assms(2)] checked_path_inside [OF _ assms(1)]
    by (auto simp: root_MkdirAll_def case_prod_beta split: sum.splits)
next
  case (OpRename v w)
  then show ?thesis using root_Rename_outside(1) [OF assms(1)] by simp
next
  case (OpRenameByStorePath v w)
  then show ?thesis using root_Rename_outside(2) [OF assms(1)] by simp
next
  case (OpCreateEmptyFile v)
  then show ?thesis using root_OpenFile_outside [OF assms(1,2)] by (simp add: CreateEmptyFile_fst)
next
  case (OpCreateDirectory v)
  with assms(3) show ?thesis using CreateDirectory_outside by simp
qed simp_all

text \<open>C9. On a disk without symbolic links an operation of an open root leaves every node outside
  the root directory as it was, whatever its arguments (the directories above the root
  directory exist, and it is not the top of the file system). Only CreateDirectory has a condition: the
  stored path that it joins to the root path has no parent component, nor has the root path.\<close>
theorem root_operations_confined:
  assumes "usual_root root" "parents_exist d (root_dir root)" "\<forall>(q, n) \<in> set d. n \<noteq> NSymlink"
    and "stays_joined env root op"
  shows "same_outside (root_dir root) d (fst (root_step env room (Some root) d op))"
  by (rule root_step_outside [OF assms(1,2,4)])

definition sample_root :: "unit secRoot" where
  "sample_root = \<lparr>rootPathInfo = data_root, nameCryptor = None, ignoreMatcher = None, keyInfo = Some [],
     newContext = (\<lambda>f key. Inr ()), rclosed = False\<rparr>"

lemma sample_root_facts: "usual_root sample_root" "root_dir sample_root = [''data'']"
  by code_simp+

lemma parents_exist_singleton [simp]: "parents_exist d [c]"
  by (auto simp: parents_exist_def strict_prefix_def prefix_Cons os_lookup_def)

lemma root_operations_confined_witness:
  "same_outside [''data''] [([''data''], NDir), ([''etc''], NFile [1])]
    (fst (root_step start_env 9 (Some sample_root) [([''data''], NDir), ([''etc''], NFile [1])]
      (OpCreateDirectory ''x/etc'')))"
proof -
  let ?d = "[([''data''], NDir), ([''etc''], NFile [1])]"
  have "parents_exist ?d (root_dir sample_root)"
    unfolding sample_root_facts by (rule parents_exist_singleton)
  moreover have "\<forall>(q, n) \<in> set ?d. n \<noteq> NSymlink" by simp
  moreover have "stays_joined start_env sample_root (OpCreateDirectory ''x/etc'')" by code_simp
  ultimately show ?thesis
    using root_operations_confined [OF sample_root_facts(1), of ?d start_env "OpCreateDirectory ''x/etc''" 9]
    unfolding sample_root_facts by blast
qed

text \<open>Names that a name cryptor stores have no parent component, so \<^verbatim>\<open>CreateDirectory\<close> needs no
  condition on the path for a local relative view path.\<close>

definition plain_view :: "path_env \<Rightarrow> (string \<Rightarrow> bool) \<Rightarrow> string \<Rightarrow> bool" where
  "plain_view env ok v \<longleftrightarrow> (case ParsePathInfoEasy env v of Inl _ \<Rightarrow> False
     | Inr info \<Rightarrow> v = [] \<or> pathType info = PathTypeLocalRelative \<and> pscheme info = [] \<and> phost info = [] \<and>
         (\<forall>p \<in> set (pparts info). ok p))"

lemma components_build_parts:
  assumes "\<forall>p \<in> set ps. plain_name p" "is_sep sep"
  shows "''..'' \<notin> set (components (build_parts True sep ps))"
proof (cases ps)
  case (Cons p qs)
  have parts: "build_parts False sep qs = concat (map (\<lambda>q. sep # q) qs)" if "\<forall>q \<in> set qs. q \<noteq> []" for qs
    using that by (induction qs) auto
  have str: "build_parts True sep ps = p @ concat (map (\<lambda>q. sep # q) qs)"
    using assms(1) parts [of qs] plain_no_slash by (auto simp: Cons)
  show ?thesis
  proof (cases "sep = slash")
    case True
    have "split_slash [] (p @ concat (map (\<lambda>q. slash # q) qs)) = split_slash [] p @ qs"
      using assms(1) by (intro split_slash_names) (simp add: Cons)
    moreover have "split_slash [] p = [p]"
      using assms(1) split_slash_name [of p "[]" "[]"] plain_no_slash [of p] by (simp add: Cons)
    ultimately have "components (build_parts True sep ps) = ps"
      unfolding components_def str using Cons True by simp
    moreover have "''..'' \<notin> set ps"
      using assms(1) by (auto simp: plain_name_def)
    ultimately show ?thesis by simp
  next
    case False
    then have sep: "sep = backslash" using assms(2) by (auto simp: is_sep_def)
    have ns: "\<forall>q \<in> set ps. slash \<notin> set q \<and> q \<noteq> []" using assms(1) plain_no_slash by blast
    have no: "slash \<notin> set (build_parts True sep ps)" "build_parts True sep ps \<noteq> []"
      unfolding str using ns sep by (auto simp: Cons)
    then have "components (build_parts True sep ps) = [build_parts True sep ps]"
      using split_slash_name [OF no(1), of "[]" "[]"] by (simp add: components_def)
    moreover have "build_parts True sep ps \<noteq> ''..''"
    proof (cases qs)
      case Nil
      then show ?thesis using assms(1) by (auto simp: str Cons plain_name_def)
    next
      case (Cons q rs)
      then have "backslash \<in> set (build_parts True sep ps)" unfolding str using sep by simp
      then show ?thesis by auto
    qed
    ultimately show ?thesis by simp
  qed
qed (simp add: components_def)

context name_cryptor
begin

lemma stored_path_no_parent:
  assumes "nameCryptor root = Some (encn, decn)" "plain_view env name_ok v" "is_sep (DefaultSystemSeparator env)"
    and "root_GetStorePath env (Some root) v = Inr store"
  shows "''..'' \<notin> set (components store)"
proof -
  obtain info where info: "ParsePathInfoEasy env v = Inr info"
    and v: "v = [] \<or> pathType info = PathTypeLocalRelative \<and> pscheme info = [] \<and> phost info = [] \<and> (\<forall>p \<in> set (pparts info). name_ok p)"
    using assms(2) by (auto simp: plain_view_def split: sum.splits)
  obtain full where check: "viewPathToStorePathCheck env (rootPathInfo root) v (Some (encn, decn)) False = Inr (store, full)"
    using assms(1,4) by (auto simp: root_GetStorePath_def open_root_def split: sum.splits if_splits)
  then obtain info2 where s: "ViewPathToStorePath env v (Some (encn, decn)) = Inr store"
    and p2: "ParsePathInfoEasy env store = Inr info2" "isSafeRelativeStorePath info2"
    by (auto simp: viewPathToStorePathCheck_def Let_def split: sum.splits if_splits)
  show ?thesis
  proof (cases "v = [] \<or> pparts info = []")
    case True
    have "pparts info = []"
      using True info by (auto simp: ParsePathInfoEasy_def ParsePathInfoWithOptions_def)
    moreover from this have "store = []"
      using v s info store_of_view(1) [OF info assms(3)]
      by (auto simp: ViewPathToStorePath_def ParsePathInfoEasy_def ParsePathInfoWithOptions_def pathInfo_Parts_def
          pathInfo_ReplaceParts_def pathInfo_Encode_def buildEncodedPath_def encoded_host_def buildPath_def isFileURIScheme_def)
    ultimately show ?thesis by (simp add: components_def)
  next
    case False
    with v have rel: "pathType info = PathTypeLocalRelative" "pscheme info = []" "phost info = []"
      "\<forall>p \<in> set (pparts info). name_ok p" by auto
    note st = store_of_view [OF info assms(3) rel]
    from False s p2(1) st have store: "store = build_parts True (pseparator info) (map stored_name (pparts info))"
      and pp: "pparts info2 = map stored_name (pparts info)" "pathType info2 = PathTypeLocalRelative" by auto
    have "pathInfo_Parts info2 = pparts info2"
      using relative_parts(1) parse_relative_clean [OF p2(1) pp(2)] by blast
    with safe_parts_plain [OF p2] pp(1) have "\<forall>p \<in> set (map stored_name (pparts info)). plain_name p" by simp
    then show ?thesis
      unfolding store using components_build_parts parse_separator [OF info assms(3)] by blast
  qed
qed

end

text \<open>With the AES-GCM names of any key, or with the names kept as they are (without colons), a
  directory is created inside the root.\<close>
theorem CreateDirectory_confined:
  assumes "\<forall>c \<in> set (root_dir root). \<not> special_part c" "is_sep (DefaultSystemSeparator env)"
    and "nameCryptor root = Some (gcm_EncryptName key, gcm_DecryptName key) \<and> plain_view env (\<lambda>_. True) v \<or>
      nameCryptor root = Some (none_EncryptName, none_DecryptName) \<and> plain_view env (\<lambda>n. colon \<notin> set n) v"
  shows "same_outside (root_dir root) d (fst (CreateDirectory env (Some root) d v))"
  using assms gcm_name.stored_path_no_parent [of root key env v] none_name.stored_path_no_parent [of root env v]
  by (intro CreateDirectory_outside) (auto simp: stays_joined_def split: sum.split)

text \<open>Without a name cryptor the stored path is the view path as written. A backslash hides a
  component from the lexical join: this view path is checked as \<^verbatim>\<open>evil\<close> below the root, and the directory is made
  next to the root.\<close>
theorem CreateDirectory_leaves_root:
  "let v = ''a'' @ backslash # ''b/../../evil''
   in full_path start_env sample_root v = Inr ''/data/evil'' \<and>
      CreateDirectory start_env (Some sample_root) [([''data''], NDir)] v = ([([''data''], NDir), ([''evil''], NDir)], None)"
  by (simp add: Let_def) code_simp

subsection \<open>Renaming\<close>

text \<open>On a well-formed disk the parent of every node is a directory.\<close>

definition disk_wf :: "disk \<Rightarrow> bool" where
  "disk_wf d \<longleftrightarrow> (\<forall>(p, n) \<in> set d. p \<noteq> [] \<and> os_lookup d (butlast p) = Some NDir)"

lemma nothing_below:
  assumes "disk_wf d" "os_lookup d p = None"
  shows "\<forall>(q, n) \<in> set d. \<not> prefix p q"
proof -
  have "os_lookup d (p @ k) = None" for k
  proof (induction k rule: rev_induct)
    case (snoc c k)
    show ?case
    proof (rule ccontr)
      assume "os_lookup d (p @ k @ [c]) \<noteq> None"
      then obtain n where "(p @ k @ [c], n) \<in> set d"
        by (auto simp: os_lookup_def dest: map_of_SomeD)
      with assms(1) have "os_lookup d (butlast (p @ k @ [c])) = Some NDir"
        by (auto simp: disk_wf_def)
      with snoc show False by (simp add: butlast_append)
    qed
  qed (simp add: assms(2))
  moreover have "p \<noteq> []" using assms(2) by (auto simp: os_lookup_def)
  ultimately show ?thesis
    by (auto simp: os_lookup_def prefix_def map_of_eq_None_iff image_iff split_beta)
      (metis append_is_Nil_conv fst_conv image_eqI map_of_eq_None_iff)
qed

lemma map_of_move:
  assumes "\<forall>(q, n) \<in> set d. \<not> prefix new q"
  shows "map_of (map (\<lambda>(q, n). (move_key old new q, n)) d) (new @ k) = map_of d (old @ k)"
    "\<not> prefix old q \<Longrightarrow> \<not> prefix new q \<Longrightarrow>
      map_of (map (\<lambda>(q, n). (move_key old new q, n)) d) q = map_of d q"
proof -
  have 1: "new @ k = move_key old new q \<longleftrightarrow> old @ k = q" if "\<not> prefix new q" for q
    using that by (auto simp: move_key_def prefix_def)
  show "map_of (map (\<lambda>(q, n). (move_key old new q, n)) d) (new @ k) = map_of d (old @ k)"
    using assms by (induction d) (auto simp: 1 eq_commute [of _ "old @ k"] eq_commute [of _ "new @ k"])
  assume q: "\<not> prefix old q" "\<not> prefix new q"
  have 2: "q = move_key old new x \<longleftrightarrow> q = x" for x
    using q by (auto simp: move_key_def)
  show "map_of (map (\<lambda>(q, n). (move_key old new q, n)) d) q = map_of d q"
    by (induction d) (auto simp: 2 eq_commute [of _ q])
qed

lemma no_dir_below:
  assumes "disk_wf d" "os_lookup d p \<noteq> Some NDir"
  shows "os_lookup d (p @ k) \<noteq> Some NDir"
proof (induction k rule: rev_induct)
  case (snoc c k)
  show ?case
  proof
    assume "os_lookup d (p @ k @ [c]) = Some NDir"
    then have "(p @ k @ [c], NDir) \<in> set d"
      by (auto simp: os_lookup_def dest: map_of_SomeD)
    with assms(1) have "os_lookup d (butlast (p @ k @ [c])) = Some NDir"
      by (auto simp: disk_wf_def)
    with snoc show False by (simp add: butlast_append)
  qed
qed (simp add: assms(2))

lemma map_of_moved_away:
  assumes "\<not> prefix new old" "\<not> prefix old new"
  shows "map_of (map (\<lambda>(q, n). (move_key old new q, n)) d) (old @ k) = None"
proof -
  have "old @ k \<noteq> move_key old new q" for q
  proof
    assume *: "old @ k = move_key old new q"
    then have "prefix old q" by (auto simp: move_key_def split: if_splits)
    with * have "prefix new (old @ k)" by (metis move_key_def prefixI)
    with prefix_same_cases [OF this, of old] assms show False by simp
  qed
  from this this [symmetric] show ?thesis by (induction d) (simp_all add: case_prod_beta)
qed

text \<open>C15. A successful Rename between different view paths had no node at the new path; afterwards
  the whole tree of the old path is found below the new one, nothing is left at the old path or
  below it, and every other node is unchanged.\<close>
theorem root_Rename_moves:
  assumes "disk_wf d" "root_Rename env (Some root) d v w = (d', None)" "v \<noteq> w"
  shows "\<exists>old new. full_path env root v = Inr old \<and> full_path env root w = Inr new \<and>
    os_lookup d (components new) = None \<and>
    (\<forall>k. os_lookup d' (components new @ k) = os_lookup d (components old @ k)) \<and>
    (\<forall>k. os_lookup d' (components old @ k) = None) \<and>
    (\<forall>q. \<not> prefix (components old) q \<longrightarrow> \<not> prefix (components new) q \<longrightarrow>
       os_lookup d' q = os_lookup d q)"
proof -
  obtain old new where full: "full_path env root v = Inr old" "full_path env root w = Inr new"
    and free: "os_Lstat d (components new) = Inl ENOENT"
    and ren: "os_Rename d (components old) (components new) = (d', None)"
    using assms(2,3)
    by (auto simp: root_Rename_def open_root_def split: sum.splits if_splits prod.splits)
  let ?o = "components old" and ?n = "components new"
  have none: "os_lookup d ?n = None"
    using free by (auto simp: os_Lstat_def split: option.splits)
  note below = nothing_below [OF assms(1) none]
  have ne: "?n \<noteq> []" using none by (auto simp: os_lookup_def)
  have neo: "?o \<noteq> []"
  proof
    assume "?o = []"
    with ren none show False
      by (auto simp: os_Rename_def os_lookup_def split: option.splits if_splits)
  qed
  have "d' = map (\<lambda>(q, n). (move_key ?o ?n q, n)) d"
    using ren none by (auto simp: os_Rename_def Let_def split: option.splits if_splits)
  moreover have "\<not> prefix ?n ?o"
  proof
    assume "prefix ?n ?o"
    then obtain k where k: "?o = ?n @ k" by (auto simp: prefix_def)
    obtain n where "os_lookup d ?o = Some n"
      using ren by (auto simp: os_Rename_def split: option.splits)
    then have "(?o, n) \<in> set d" using neo by (auto simp: os_lookup_def dest: map_of_SomeD)
    with below k show False by auto
  qed
  moreover have "\<not> prefix ?o ?n"
  proof
    assume pre: "prefix ?o ?n"
    obtain n where n: "os_lookup d ?o = Some n"
      using ren by (auto simp: os_Rename_def split: option.splits)
    with ren pre none have "n \<noteq> NDir" "?o \<noteq> ?n"
      by (auto simp: os_Rename_def split: option.splits if_splits)
    moreover from pre this obtain k where "butlast ?n = ?o @ k"
      by (auto simp: prefix_def butlast_append)
    ultimately have "os_lookup d (butlast ?n) \<noteq> Some NDir"
      using no_dir_below [OF assms(1), of ?o k] n by simp
    with ren n show False by (auto simp: os_Rename_def parent_error_def split: if_splits)
  qed
  ultimately show ?thesis
    using map_of_move [OF below] map_of_moved_away ne neo full none
    by (auto simp: os_lookup_def)
qed

definition renamed_before :: disk where
  "renamed_before = [([''data'', ''a''], NDir), ([''data'', ''a'', ''f''], NFile [7]), ([''data''], NDir)]"

definition renamed_after :: disk where
  "renamed_after = [([''data'', ''b''], NDir), ([''data'', ''b'', ''f''], NFile [7]), ([''data''], NDir)]"

lemma root_Rename_moves_witness:
  "\<exists>old new. full_path start_env sample_root ''a'' = Inr old \<and> full_path start_env sample_root ''b'' = Inr new \<and>
    os_lookup renamed_before (components new) = None \<and>
    (\<forall>k. os_lookup renamed_after (components new @ k) = os_lookup renamed_before (components old @ k)) \<and>
    (\<forall>k. os_lookup renamed_after (components old @ k) = None) \<and>
    (\<forall>q. \<not> prefix (components old) q \<longrightarrow> \<not> prefix (components new) q \<longrightarrow>
       os_lookup renamed_after q = os_lookup renamed_before q)"
  by (rule root_Rename_moves) code_simp+

subsection \<open>The guard of directory deletion\<close>

lemma contains_itself: "pathInfo_ContainsPathInfo info info"
  by (simp add: pathInfo_ContainsPathInfo_def Let_def)

lemma dot_slash_is_root:
  assumes "\<not> rclosed root"
  shows "checked_path env (Some root) ''./'' = Inr (root, root_dir root)"
proof -
  have loc: "local_path ''./''" by (simp add: local_path_def)
  obtain sep where parse: "ParsePathInfoEasy env ''./'' =
      Inr \<lparr>pscheme = [], phost = [], pseparator = sep, pparts = [], pathType = PathTypeLocalRelative\<rparr>"
    by (auto simp: parse_local [OF loc] is_sep_def add_part_def)
  obtain sep' where empty: "ParsePathInfoEasy env [] =
      Inr \<lparr>pscheme = [], phost = [], pseparator = sep', pparts = [], pathType = PathTypeUnknown\<rparr>"
    by (auto simp: ParsePathInfoEasy_def ParsePathInfoWithOptions_def)
  have enc: "pathInfo_Encode \<lparr>pscheme = [], phost = [], pseparator = s, pparts = [], pathType = t\<rparr> = []" for s t
    by (simp add: pathInfo_Encode_def buildEncodedPath_def encoded_host_def buildPath_def
        isFileURIScheme_def)
  have "ViewPathToStorePath env ''./'' nc = Inr (case nc of None \<Rightarrow> ''./'' | Some _ \<Rightarrow> [])" for nc
    by (cases nc) (auto simp: ViewPathToStorePath_def parse pathInfo_Parts_def pathInfo_ReplaceParts_def enc)
  then have "\<exists>store. viewPathToStorePathCheck env (rootPathInfo root) ''./'' nc False =
      Inr (store, pathInfo_Encode (rootPathInfo root))" for nc
    by (cases nc) (simp_all add: viewPathToStorePathCheck_def parse empty isSafeRelativeStorePath_def enc
        pathInfo_Parts_def [of "pathInfo.make _ _ _ _ _"] pathInfo_Parts_def pathInfo_Join_def contains_itself)
  then show ?thesis
    using assms by (auto simp: checked_path_def open_root_def full_path_def root_dir_def split: sum.splits)
      (metis Inr_inject Inr_not_Inl prod.inject)+
qed

text \<open>C24. The guard of DeleteDirectoryTree compares the view path with the empty path and with the
  dot only: the path dot-slash, which means the root as well, deletes the root directory with
  everything in it.\<close>
theorem DeleteDirectoryTree_deletes_root:
  assumes "\<not> rclosed root" "os_lookup d (root_dir root) = Some NDir" "\<forall>(q, n) \<in> set d. n \<noteq> NSymlink"
    and "root_dir root \<noteq> []"
  shows "\<exists>d'. root_DeleteDirectoryTree env (Some root) d ''./'' = (d', None) \<and>
    (\<forall>k. os_lookup d' (root_dir root @ k) = None)"
proof -
  have "os_Lstat d (root_dir root) = Inr NDir"
    using assms(2) by (simp add: os_Lstat_def)
  then have "root_DeleteDirectoryTree env (Some root) d ''./'' = (os_RemoveAll d (root_dir root), None)"
    using assms(3)
    by (auto simp: root_DeleteDirectoryTree_def dot_slash_is_root [OF assms(1)] deleteDirectoryTree_def)
  moreover have "os_lookup (os_RemoveAll d (root_dir root)) (root_dir root @ k) = None" for k
    using assms(4) by (simp add: os_lookup_def map_of_RemoveAll)
  ultimately show ?thesis by blast
qed

lemma DeleteDirectoryTree_deletes_root_witness:
  "\<exists>d'. root_DeleteDirectoryTree start_env (Some sample_root)
      [([''data''], NDir), ([''data'', ''f''], NFile [7])] ''./'' = (d', None) \<and>
    (\<forall>k. os_lookup d' ([''data''] @ k) = None)"
proof -
  let ?d = "[([''data''], NDir), ([''data'', ''f''], NFile [7])]"
  have "os_lookup ?d (root_dir sample_root) = Some NDir"
    unfolding sample_root_facts by (simp add: os_lookup_def)
  moreover have "\<not> rclosed sample_root"
    by (simp add: sample_root_def)
  ultimately show ?thesis
    using DeleteDirectoryTree_deletes_root [of sample_root ?d start_env]
    unfolding sample_root_facts by simp
qed

text \<open>CreateDirectory joins the stored path as text. For a view path written with backslashes
  it makes one directory whose name contains the backslash, where MkdirAll makes the two nested
  directories that every other operation will look for.\<close>
theorem CreateDirectory_backslash_diverges:
  "let root = sample_root\<lparr>nameCryptor := Some (none_EncryptName, none_DecryptName)\<rparr>;
       d = [([''data''], NDir)]; v = [CHR ''a'', backslash, CHR ''b'']
   in CreateDirectory start_env (Some root) d v =
        ([([''data''], NDir), ([''data'', [CHR ''a'', backslash, CHR ''b'']], NDir)], None) \<and>
      root_MkdirAll start_env (Some root) d v =
        ([([''data''], NDir), ([''data'', ''a''], NDir), ([''data'', ''a'', ''b''], NDir)], None)"
  by code_simp

end
