(* ===== verification/SecFile.thy ===== *)
theory SecFile
  imports AesXts Rc4Data
begin

text \<open>
  The file handle of a secure root: \<^verbatim>\<open>secFileImpl\<close> of src/native/sec_fs/file.go. It delegates to
  the cryptor context behind it and adds the closed state. A nil receiver (or one without a
  context) is \<open>None\<close>. The context is given by its step function and its \<^verbatim>\<open>Close\<close>.
\<close>

datatype sec_file_error = ErrFileNotOpen | ErrFileClosed | FileStatError io_error

record 'c secFile =
  impl :: 'c
  storeFile :: "'c \<Rightarrow> osfile"
  implSize :: "'c \<Rightarrow> int"
  relativeViewPath :: string
  fullStorePath :: string
  sfclosed :: bool

type_synonym 'c step_fun = "'c \<Rightarrow> file_op \<Rightarrow> 'c \<times> file_out"

text \<open>The common shape of \<^verbatim>\<open>Read\<close>, \<^verbatim>\<open>Write\<close>, \<^verbatim>\<open>Seek\<close>, \<^verbatim>\<open>Truncate\<close>, \<^verbatim>\<open>Sync\<close>, \<^verbatim>\<open>ReadAt\<close> and
  \<^verbatim>\<open>WriteAt\<close>.\<close>

definition secFile_do ::
  "'c step_fun \<Rightarrow> 'c secFile option \<Rightarrow> file_op \<Rightarrow> 'c secFile option \<times> (sec_file_error + file_out)" where
  "secFile_do step f op =
    (case f of None \<Rightarrow> (f, Inl ErrFileNotOpen)
     | Some sf \<Rightarrow>
       if sfclosed sf then (f, Inl ErrFileClosed)
       else let (c', out) = step (impl sf) op in (Some (sf\<lparr>impl := c'\<rparr>), Inr out))"

definition secFile_Read :: "'c step_fun \<Rightarrow> 'c secFile option \<Rightarrow> nat \<Rightarrow> 'c secFile option \<times> (sec_file_error + file_out)" where
  "secFile_Read step f n = secFile_do step f (FRead n)"

definition secFile_Write :: "'c step_fun \<Rightarrow> 'c secFile option \<Rightarrow> bytes \<Rightarrow> 'c secFile option \<times> (sec_file_error + file_out)" where
  "secFile_Write step f d = secFile_do step f (FWrite d)"

definition secFile_Seek :: "'c step_fun \<Rightarrow> 'c secFile option \<Rightarrow> int \<Rightarrow> whence \<Rightarrow> 'c secFile option \<times> (sec_file_error + file_out)" where
  "secFile_Seek step f off w = secFile_do step f (FSeek off w)"

definition secFile_Truncate :: "'c step_fun \<Rightarrow> 'c secFile option \<Rightarrow> int \<Rightarrow> 'c secFile option \<times> (sec_file_error + file_out)" where
  "secFile_Truncate step f n = secFile_do step f (FTruncate n)"

definition secFile_Sync :: "'c step_fun \<Rightarrow> 'c secFile option \<Rightarrow> 'c secFile option \<times> (sec_file_error + file_out)" where
  "secFile_Sync step f = secFile_do step f FSync"

definition secFile_ReadAt :: "'c step_fun \<Rightarrow> 'c secFile option \<Rightarrow> nat \<Rightarrow> int \<Rightarrow> 'c secFile option \<times> (sec_file_error + file_out)" where
  "secFile_ReadAt step f n off = secFile_do step f (FReadAt n off)"

definition secFile_WriteAt :: "'c step_fun \<Rightarrow> 'c secFile option \<Rightarrow> bytes \<Rightarrow> int \<Rightarrow> 'c secFile option \<times> (sec_file_error + file_out)" where
  "secFile_WriteAt step f d off = secFile_do step f (FWriteAt d off)"

text \<open>\<^verbatim>\<open>Close\<close> marks the file closed whatever the context's \<^verbatim>\<open>Close\<close> returns.\<close>

definition secFile_Close ::
  "('c \<Rightarrow> 'c \<times> io_error option) \<Rightarrow> 'c secFile option \<Rightarrow> 'c secFile option \<times> (sec_file_error + io_error option)" where
  "secFile_Close close f =
    (case f of None \<Rightarrow> (f, Inl ErrFileNotOpen)
     | Some sf \<Rightarrow>
       if sfclosed sf then (f, Inl ErrFileClosed)
       else let (c', err) = close (impl sf) in (Some (sf\<lparr>impl := c', sfclosed := True\<rparr>), Inr err))"

definition secFile_Size :: "'c secFile option \<Rightarrow> int" where
  "secFile_Size f = (case f of None \<Rightarrow> 0 | Some sf \<Rightarrow> if sfclosed sf then 0 else implSize sf (impl sf))"

text \<open>\<^verbatim>\<open>Stat\<close>: the view path as the name and the context's size; the mode and the time are the
  backing file's, whose Stat fails on a closed descriptor.\<close>

definition secFile_Stat :: "'c secFile option \<Rightarrow> sec_file_error + string \<times> int" where
  "secFile_Stat f =
    (case f of None \<Rightarrow> Inl ErrFileNotOpen
     | Some sf \<Rightarrow>
       if sfclosed sf then Inl ErrFileClosed
       else if \<not> fopen (storeFile sf (impl sf)) then Inl (FileStatError ErrClosed)
       else Inr (relativeViewPath sf, implSize sf (impl sf)))"

definition secFile_IsClosed :: "'c secFile option \<Rightarrow> bool" where
  "secFile_IsClosed f = (case f of None \<Rightarrow> True | Some sf \<Rightarrow> sfclosed sf)"

definition secFile_RelativeViewPath :: "'c secFile option \<Rightarrow> string" where
  "secFile_RelativeViewPath f = (case f of None \<Rightarrow> [] | Some sf \<Rightarrow> relativeViewPath sf)"

definition secFile_FullStorePath :: "'c secFile option \<Rightarrow> string" where
  "secFile_FullStorePath f = (case f of None \<Rightarrow> [] | Some sf \<Rightarrow> fullStorePath sf)"

text \<open>The handle that \<^verbatim>\<open>OpenFile\<close> returns for a context.\<close>

definition open_secFile :: "string \<Rightarrow> string \<Rightarrow> 's ctx \<Rightarrow> 's ctx secFile option" where
  "open_secFile view full c = Some \<lparr>impl = c, storeFile = storeFileIo, implSize = ctx_Size,
     relativeViewPath = view, fullStorePath = full, sfclosed = False\<rparr>"

subsection \<open>Runs of a handle\<close>

fun secFile_run ::
  "'c step_fun \<Rightarrow> 'c secFile option \<Rightarrow> file_op list \<Rightarrow> 'c secFile option \<times> (sec_file_error + file_out) list" where
  "secFile_run step f [] = (f, [])"
| "secFile_run step f (op # ops) =
    (let (f1, out) = secFile_do step f op; (f2, outs) = secFile_run step f1 ops in (f2, out # outs))"

lemma secFile_run_open:
  "\<not> sfclosed sf \<Longrightarrow> run_ops step (impl sf) ops = (c', outs) \<Longrightarrow>
    secFile_run step (Some sf) ops = (Some (sf\<lparr>impl := c'\<rparr>), map Inr outs)"
proof (induction ops arbitrary: sf c' outs)
  case (Cons op ops)
  obtain c1 out where c1: "step (impl sf) op = (c1, out)" by fastforce
  obtain outs' where rest: "run_ops step c1 ops = (c', outs')" "outs = out # outs'"
    using Cons.prems c1 by (auto split: prod.splits)
  have "secFile_run step (Some (sf\<lparr>impl := c1\<rparr>)) ops = (Some (sf\<lparr>impl := c'\<rparr>), map Inr outs')"
    using Cons.IH [of "sf\<lparr>impl := c1\<rparr>"] Cons.prems(1) rest(1) by simp
  with c1 rest(2) Cons.prems(1) show ?case
    by (simp add: secFile_do_def)
qed simp

lemma secFile_run_closed:
  "sfclosed sf \<Longrightarrow> secFile_run step (Some sf) ops = (Some sf, map (\<lambda>_. Inl ErrFileClosed) ops)"
  by (induction ops) (auto simp: secFile_do_def)

subsection \<open>Properties\<close>

text \<open>C14. A handle on an AES-XTS file, used and then closed: the operations
  answer as on a plain file, Close succeeds, and from then on every operation, a second Close and
  Stat report the closed file, and Size is 0. Conditions on the operations (\<open>op_fits\<close>): ReadAt and WriteAt have positions
  that are not negative; what is written ends at a position of type int64; and a Write, WriteAt or Truncate
  beyond the end of the file starts, or ends, within the room of the device, so that the gap it fills is not cut
  off. Writes themselves may be short. A handle on
  an AES-CTR file answers differently to a sequential read after a growing Truncate.\<close>
theorem secFile_lifecycle:
  assumes "session_file int64_limit f" "64 \<le> length key"
    and "run_all (op_fits int64_limit (froom f)) (froom f) (file_plain (aes_xts_stream key) f) ops"
  shows "\<exists>c h outs h'. aes_xts_NewContext f key = Inr c \<and>
    secFile_run (aes_xts_step key) (open_secFile view full c) ops = (h, map Inr outs) \<and>
    snd (run_ops (plain_step (froom f)) (file_plain (aes_xts_stream key) f) ops) = outs \<and>
    secFile_Close ctx_Close h = (h', Inr None) \<and>
    secFile_run (aes_xts_step key) h' ops' = (h', map (\<lambda>_. Inl ErrFileClosed) ops') \<and>
    secFile_Close ctx_Close h' = (h', Inl ErrFileClosed) \<and> secFile_Stat h' = Inl ErrFileClosed \<and>
    secFile_Size h' = 0"
proof -
  obtain c where c: "ctx_new () f = Inr c" "ctx_sim (\<lambda>_. True) int64_limit c" "ctx_room c = froom f"
    "ctx_plain (aes_xts_stream key) c = file_plain (aes_xts_stream key) f"
    using ctx_new_ok [where cinv = "\<lambda>_. True" and lim = int64_limit and ks = "aes_xts_stream key" and f = f and s = "()"]
      assms(1)
    by (auto simp: session_file_def file_plain_def ctx_sim_def)
  obtain c1 outs where r: "run_ops (aes_xts_step key) c ops = (c1, outs)"
    "run_ops (plain_step (froom f)) (file_plain (aes_xts_stream key) f) ops =
      (ctx_plain (aes_xts_stream key) c1, outs)" "ctx_sim (\<lambda>_. True) int64_limit c1"
    using aes_xts.run_refines [OF c(2), where reseek = True and ops = ops and key = key] assms(3) c(3,4)
    by (auto simp: aes_xts_step_def)
  define sf where "sf = \<lparr>impl = c1, storeFile = storeFileIo, implSize = ctx_Size,
     relativeViewPath = view, fullStorePath = full, sfclosed = False\<rparr>"
  have run: "secFile_run (aes_xts_step key) (open_secFile view full c) ops = (Some sf, map Inr outs)"
    using secFile_run_open [of "the (open_secFile view full c)" "aes_xts_step key" ops c1 outs] r(1)
    by (simp add: open_secFile_def sf_def)
  have "fopen (storeFileIo c1)"
    using r(3) by (simp add: ctx_sim_def ctx_ok_def rw_file_def)
  then obtain c2 where close: "ctx_Close c1 = (c2, None)"
    by (auto simp: ctx_Close_def os_close_def)
  define h' where "h' = Some (sf\<lparr>impl := c2, sfclosed := True\<rparr>)"
  have "secFile_Close ctx_Close (Some sf) = (h', Inr None)"
    by (simp add: secFile_Close_def sf_def close h'_def)
  moreover have "secFile_run (aes_xts_step key) h' ops' = (h', map (\<lambda>_. Inl ErrFileClosed) ops')"
    unfolding h'_def by (rule secFile_run_closed) simp
  moreover have "secFile_Close ctx_Close h' = (h', Inl ErrFileClosed)" "secFile_Stat h' = Inl ErrFileClosed"
      "secFile_Size h' = 0"
    by (simp_all add: secFile_Close_def secFile_Stat_def secFile_Size_def h'_def)
  moreover have "aes_xts_NewContext f key = Inr c"
    using c(1) assms(2) by (simp add: aes_xts_NewContext_def)
  ultimately show ?thesis
    using run r(2) by fastforce
qed

lemma secFile_lifecycle_witness:
  "\<exists>c h outs h'. aes_xts_NewContext (new_file 60) (replicate 64 3) = Inr c \<and>
    secFile_run (aes_xts_step (replicate 64 3)) (open_secFile ''a'' ''/data/a'' c) [FWrite [1, 2], FSync] = (h, map Inr outs) \<and>
    snd (run_ops (plain_step (froom (new_file 60)))
      (file_plain (aes_xts_stream (replicate 64 3)) (new_file 60)) [FWrite [1, 2], FSync]) = outs \<and>
    secFile_Close ctx_Close h = (h', Inr None) \<and>
    secFile_run (aes_xts_step (replicate 64 3)) h' [FRead 1] = (h', map (\<lambda>_. Inl ErrFileClosed) [FRead 1]) \<and>
    secFile_Close ctx_Close h' = (h', Inl ErrFileClosed) \<and> secFile_Stat h' = Inl ErrFileClosed \<and>
    secFile_Size h' = 0"
  by (rule secFile_lifecycle) (simp_all add: int64_limit_def)

end
