(* ===== verification/Config.thy ===== *)
theory Config
  imports Complex_Main
begin

text \<open>
  Configuration stores: src/native/config (file_config.go, memory_config.go, prefixed.go). A
  store keeps one map per type and a map of all values, which is what \<^verbatim>\<open>save\<close> writes. JSON is
  modelled by what a value becomes when it is written and read again: a number comes back as
  the nearest float64, a string with every byte that is not part of valid UTF-8 replaced by
  U+FFFD. Keys are valid UTF-8 (those of the program are ASCII literals). The file itself is
  missing, empty, not JSON, or a JSON object.
\<close>

subsection \<open>Values\<close>

text \<open>\<open>JInt\<close> is a Go int kept in the data map by \<^verbatim>\<open>SetInt\<close>, \<open>JNum\<close> a float64 read from a file,
  \<open>JOther\<close> an array, an object or null.\<close>

datatype jval = JStr string | JInt int | JNum rat | JBool bool | JOther

text \<open>The integer nearest to \<open>n\<close> that has at most 53 significant bits, ties to even.\<close>

fun bit_length :: "nat \<Rightarrow> nat" where
  "bit_length n = (if n = 0 then 0 else Suc (bit_length (n div 2)))"

declare bit_length.simps [simp del]

definition round53 :: "nat \<Rightarrow> nat" where
  "round53 n =
    (let k = bit_length n in
     if k \<le> 53 then n
     else let u = 2 ^ (k - 53); q = n div u; r = n mod u in
       (if 2 * r < u \<or> 2 * r = u \<and> even q then q else q + 1) * u)"

definition float64_of_int :: "int \<Rightarrow> rat" where
  "float64_of_int i = of_int (if 0 \<le> i then int (round53 (nat i)) else - int (round53 (nat (- i))))"

text \<open>\<^verbatim>\<open>int(v)\<close> drops the fraction.\<close>

definition int_of_float :: "rat \<Rightarrow> int" where
  "int_of_float q = (if 0 \<le> q then \<lfloor>q\<rfloor> else - \<lfloor>- q\<rfloor>)"

text \<open>The length of the UTF-8 sequence at the front of a string, 0 where there is none, by the
  table of package unicode/utf8.\<close>

definition byte_in :: "nat \<Rightarrow> nat \<Rightarrow> char \<Rightarrow> bool" where
  "byte_in lo hi c \<longleftrightarrow> lo \<le> of_char c \<and> of_char c \<le> hi"

definition utf8_len :: "string \<Rightarrow> nat" where
  "utf8_len s =
    (case s of [] \<Rightarrow> 0
     | a # s1 \<Rightarrow>
       if byte_in 0 0x7F a then 1
       else if byte_in 0xC2 0xDF a then (case s1 of b # _ \<Rightarrow> if byte_in 0x80 0xBF b then 2 else 0 | [] \<Rightarrow> 0)
       else if byte_in 0xE0 0xEF a then
         (case s1 of b # c # _ \<Rightarrow>
            if byte_in (if a = CHR 0xE0 then 0xA0 else 0x80) (if a = CHR 0xED then 0x9F else 0xBF) b \<and>
               byte_in 0x80 0xBF c then 3 else 0
          | _ \<Rightarrow> 0)
       else if byte_in 0xF0 0xF4 a then
         (case s1 of b # c # d # _ \<Rightarrow>
            if byte_in (if a = CHR 0xF0 then 0x90 else 0x80) (if a = CHR 0xF4 then 0x8F else 0xBF) b \<and>
               byte_in 0x80 0xBF c \<and> byte_in 0x80 0xBF d then 4 else 0
          | _ \<Rightarrow> 0)
       else 0)"

function utf8_coerce :: "string \<Rightarrow> string" where
  "utf8_coerce [] = []"
| "utf8_coerce (a # s) =
    (case utf8_len (a # s) of 0 \<Rightarrow> [CHR 0xEF, CHR 0xBF, CHR 0xBD] @ utf8_coerce s
     | Suc n \<Rightarrow> a # take n s @ utf8_coerce (drop n s))"
  by pat_completeness auto
termination
  by (relation "measure length") auto

definition json_reread :: "jval \<Rightarrow> jval" where
  "json_reread v = (case v of JInt i \<Rightarrow> JNum (float64_of_int i) | JStr s \<Rightarrow> JStr (utf8_coerce s) | _ \<Rightarrow> v)"

datatype cfg_file = NoFile | EmptyFile | NotJson | JsonObject "string \<rightharpoonup> jval"

subsection \<open>The file store\<close>

record FileConfig =
  cfile :: cfg_file
  cwritable :: bool      \<comment> \<open>whether writing the file succeeds\<close>
  cdata :: "string \<rightharpoonup> jval"
  strMap :: "string \<rightharpoonup> string"
  intMap :: "string \<rightharpoonup> int"
  boolMap :: "string \<rightharpoonup> bool"

datatype cfg_error = ErrKeyNotFound string | ErrBadJson | ErrReadFile | ErrWriteFile

definition str_part :: "jval option \<Rightarrow> string option" where
  "str_part v = (case v of Some (JStr s) \<Rightarrow> Some s | _ \<Rightarrow> None)"

definition int_part :: "jval option \<Rightarrow> int option" where
  "int_part v = (case v of Some (JNum q) \<Rightarrow> Some (int_of_float q) | _ \<Rightarrow> None)"

definition bool_part :: "jval option \<Rightarrow> bool option" where
  "bool_part v = (case v of Some (JBool b) \<Rightarrow> Some b | _ \<Rightarrow> None)"

text \<open>\<^verbatim>\<open>load\<close>: an empty file leaves the store as it is.\<close>

definition FileConfig_load :: "FileConfig \<Rightarrow> FileConfig \<times> cfg_error option" where
  "FileConfig_load f =
    (case cfile f of NoFile \<Rightarrow> (f, Some ErrReadFile)
     | EmptyFile \<Rightarrow> (f, None)
     | NotJson \<Rightarrow> (f, Some ErrBadJson)
     | JsonObject raw \<Rightarrow>
       (f\<lparr>cdata := raw, strMap := (\<lambda>k. str_part (raw k)), intMap := (\<lambda>k. int_part (raw k)),
          boolMap := (\<lambda>k. bool_part (raw k))\<rparr>, None))"

text \<open>\<^verbatim>\<open>save\<close>: WriteFile truncates the file before it writes, so the contents that a crash can leave
  behind are the ones of \<open>save_states\<close>.\<close>

definition saved_object :: "FileConfig \<Rightarrow> cfg_file" where
  "saved_object f = JsonObject (\<lambda>k. map_option json_reread (cdata f k))"

definition save_states :: "FileConfig \<Rightarrow> cfg_file list" where
  "save_states f = [cfile f, EmptyFile, NotJson, saved_object f]"

definition FileConfig_save :: "FileConfig \<Rightarrow> FileConfig \<times> cfg_error option" where
  "FileConfig_save f =
    (if cwritable f then (f\<lparr>cfile := saved_object f\<rparr>, None) else (f, Some ErrWriteFile))"

definition NewFileConfig :: "cfg_file \<Rightarrow> bool \<Rightarrow> cfg_error + FileConfig" where
  "NewFileConfig file writable =
    (let fc = \<lparr>cfile = file, cwritable = writable, cdata = Map.empty, strMap = Map.empty,
               intMap = Map.empty, boolMap = Map.empty\<rparr>
     in if file = NoFile then Inr fc
        else case FileConfig_load fc of (fc', None) \<Rightarrow> Inr fc' | (_, Some e) \<Rightarrow> Inl e)"

definition found :: "string \<Rightarrow> 'a option \<Rightarrow> cfg_error + 'a" where
  "found key v = (case v of None \<Rightarrow> Inl (ErrKeyNotFound key) | Some x \<Rightarrow> Inr x)"

definition FileConfig_GetStr :: "FileConfig \<Rightarrow> string \<Rightarrow> cfg_error + string" where
  "FileConfig_GetStr f key = found key (strMap f key)"

definition FileConfig_GetInt :: "FileConfig \<Rightarrow> string \<Rightarrow> cfg_error + int" where
  "FileConfig_GetInt f key = found key (intMap f key)"

definition FileConfig_GetBool :: "FileConfig \<Rightarrow> string \<Rightarrow> cfg_error + bool" where
  "FileConfig_GetBool f key = found key (boolMap f key)"

definition FileConfig_SetStr :: "FileConfig \<Rightarrow> string \<Rightarrow> string \<Rightarrow> FileConfig \<times> cfg_error option" where
  "FileConfig_SetStr f key val =
    FileConfig_save (f\<lparr>strMap := (strMap f)(key \<mapsto> val), cdata := (cdata f)(key \<mapsto> JStr val)\<rparr>)"

definition FileConfig_SetInt :: "FileConfig \<Rightarrow> string \<Rightarrow> int \<Rightarrow> FileConfig \<times> cfg_error option" where
  "FileConfig_SetInt f key val =
    FileConfig_save (f\<lparr>intMap := (intMap f)(key \<mapsto> val), cdata := (cdata f)(key \<mapsto> JInt val)\<rparr>)"

definition FileConfig_SetBool :: "FileConfig \<Rightarrow> string \<Rightarrow> bool \<Rightarrow> FileConfig \<times> cfg_error option" where
  "FileConfig_SetBool f key val =
    FileConfig_save (f\<lparr>boolMap := (boolMap f)(key \<mapsto> val), cdata := (cdata f)(key \<mapsto> JBool val)\<rparr>)"

definition FileConfig_Reload :: "FileConfig \<Rightarrow> FileConfig \<times> cfg_error option" where
  "FileConfig_Reload f = FileConfig_load f"

subsection \<open>The memory store\<close>

record MemoryConfig =
  mdata :: "string \<rightharpoonup> jval"
  mstr :: "string \<rightharpoonup> string"
  mint :: "string \<rightharpoonup> int"
  mbool :: "string \<rightharpoonup> bool"

definition NewMemoryConfig :: MemoryConfig where
  "NewMemoryConfig = \<lparr>mdata = Map.empty, mstr = Map.empty, mint = Map.empty, mbool = Map.empty\<rparr>"

definition MemoryConfig_GetStr :: "MemoryConfig \<Rightarrow> string \<Rightarrow> cfg_error + string" where
  "MemoryConfig_GetStr m key = found key (mstr m key)"

definition MemoryConfig_GetInt :: "MemoryConfig \<Rightarrow> string \<Rightarrow> cfg_error + int" where
  "MemoryConfig_GetInt m key = found key (mint m key)"

definition MemoryConfig_GetBool :: "MemoryConfig \<Rightarrow> string \<Rightarrow> cfg_error + bool" where
  "MemoryConfig_GetBool m key = found key (mbool m key)"

definition MemoryConfig_SetStr :: "MemoryConfig \<Rightarrow> string \<Rightarrow> string \<Rightarrow> MemoryConfig \<times> cfg_error option" where
  "MemoryConfig_SetStr m key val =
    (m\<lparr>mstr := (mstr m)(key \<mapsto> val), mdata := (mdata m)(key \<mapsto> JStr val)\<rparr>, None)"

definition MemoryConfig_SetInt :: "MemoryConfig \<Rightarrow> string \<Rightarrow> int \<Rightarrow> MemoryConfig \<times> cfg_error option" where
  "MemoryConfig_SetInt m key val =
    (m\<lparr>mint := (mint m)(key \<mapsto> val), mdata := (mdata m)(key \<mapsto> JInt val)\<rparr>, None)"

definition MemoryConfig_SetBool :: "MemoryConfig \<Rightarrow> string \<Rightarrow> bool \<Rightarrow> MemoryConfig \<times> cfg_error option" where
  "MemoryConfig_SetBool m key val =
    (m\<lparr>mbool := (mbool m)(key \<mapsto> val), mdata := (mdata m)(key \<mapsto> JBool val)\<rparr>, None)"

subsection \<open>Prefixed stores\<close>

text \<open>A prefixed store is its prefix and the operations of the store below; a group appends its name
  and an underscore to the prefix.\<close>

definition PrefixedConfig_Get :: "string \<Rightarrow> ('c \<Rightarrow> string \<Rightarrow> 'r) \<Rightarrow> 'c \<Rightarrow> string \<Rightarrow> 'r" where
  "PrefixedConfig_Get pre getv c key = getv c (pre @ key)"

definition PrefixedConfig_Set ::
  "string \<Rightarrow> ('c \<Rightarrow> string \<Rightarrow> 'v \<Rightarrow> 'c \<times> cfg_error option) \<Rightarrow> 'c \<Rightarrow> string \<Rightarrow> 'v \<Rightarrow> 'c \<times> cfg_error option" where
  "PrefixedConfig_Set pre put c key val = put c (pre @ key) val"

definition WithGroup :: "string \<Rightarrow> string \<Rightarrow> string" where
  "WithGroup pre name = pre @ name @ ''_''"

subsection \<open>The contract of a store\<close>

text \<open>One type of value: what was set is found, other keys are untouched.\<close>

locale typed_store =
  fixes getv :: "'c \<Rightarrow> string \<Rightarrow> cfg_error + 'v"
    and put :: "'c \<Rightarrow> string \<Rightarrow> 'v \<Rightarrow> 'c \<times> cfg_error option"
  assumes get_set: "getv (fst (put c key val)) key = Inr val"
    and get_set_other: "key' \<noteq> key \<Longrightarrow> getv (fst (put c key val)) key' = getv c key'"

context typed_store
begin

lemma prefixed_store: "typed_store (PrefixedConfig_Get pre getv) (PrefixedConfig_Set pre put)"
  by unfold_locales (simp_all add: PrefixedConfig_Get_def PrefixedConfig_Set_def get_set get_set_other)

text \<open>Two groups do not see each other's values unless one prefix starts the other.\<close>

lemma groups_independent:
  assumes "\<nexists>r. p1 = p2 @ r" "\<nexists>r. p2 = p1 @ r"
  shows "PrefixedConfig_Get p1 getv (fst (PrefixedConfig_Set p2 put c k v)) key = PrefixedConfig_Get p1 getv c key"
proof -
  have "p1 @ key \<noteq> p2 @ k"
    using assms by (auto simp: append_eq_append_conv2)
  then show ?thesis
    by (simp add: PrefixedConfig_Get_def PrefixedConfig_Set_def get_set_other)
qed

end

lemma FileConfig_save_maps [simp]:
  "strMap (fst (FileConfig_save f)) = strMap f" "intMap (fst (FileConfig_save f)) = intMap f"
  "boolMap (fst (FileConfig_save f)) = boolMap f" "cdata (fst (FileConfig_save f)) = cdata f"
  by (simp_all add: FileConfig_save_def)

interpretation file_str: typed_store FileConfig_GetStr FileConfig_SetStr
  by unfold_locales (simp_all add: FileConfig_GetStr_def FileConfig_SetStr_def found_def)

interpretation file_int: typed_store FileConfig_GetInt FileConfig_SetInt
  by unfold_locales (simp_all add: FileConfig_GetInt_def FileConfig_SetInt_def found_def)

interpretation file_bool: typed_store FileConfig_GetBool FileConfig_SetBool
  by unfold_locales (simp_all add: FileConfig_GetBool_def FileConfig_SetBool_def found_def)

interpretation mem_str: typed_store MemoryConfig_GetStr MemoryConfig_SetStr
  by unfold_locales (simp_all add: MemoryConfig_GetStr_def MemoryConfig_SetStr_def found_def)

interpretation mem_int: typed_store MemoryConfig_GetInt MemoryConfig_SetInt
  by unfold_locales (simp_all add: MemoryConfig_GetInt_def MemoryConfig_SetInt_def found_def)

interpretation mem_bool: typed_store MemoryConfig_GetBool MemoryConfig_SetBool
  by unfold_locales (simp_all add: MemoryConfig_GetBool_def MemoryConfig_SetBool_def found_def)

subsection \<open>Persistence\<close>

lemma bit_length_bound: "n < 2 ^ bit_length n"
proof (induction n rule: less_induct)
  case (less n)
  show ?case
  proof (cases "n = 0")
    case True
    then show ?thesis by (simp add: bit_length.simps)
  next
    case False
    then have "n div 2 < 2 ^ bit_length (n div 2)"
      using less.IH [of "n div 2"] by simp
    then have "n < 2 * 2 ^ bit_length (n div 2)" by linarith
    then show ?thesis
      using False bit_length.simps [of n] by simp
  qed
qed

lemma bit_length_le: "n < 2 ^ k \<Longrightarrow> bit_length n \<le> k"
proof (induction k arbitrary: n)
  case 0
  then show ?case by (simp add: bit_length.simps)
next
  case (Suc k)
  show ?case
  proof (cases "n = 0")
    case True
    then show ?thesis by (simp add: bit_length.simps)
  next
    case False
    have "n div 2 < 2 ^ k" using Suc.prems by simp
    from Suc.IH [OF this] show ?thesis
      using False bit_length.simps [of n] by simp
  qed
qed

lemma bit_length_54: "2 ^ 53 \<le> n \<Longrightarrow> n < 2 ^ 54 \<Longrightarrow> bit_length n = 54"
proof -
  assume n: "2 ^ 53 \<le> n" "n < 2 ^ 54"
  have "(2 :: nat) ^ 53 < 2 ^ bit_length n"
    using n(1) bit_length_bound [of n] by (rule le_less_trans)
  then have "53 < bit_length n"
    by (rule power_less_imp_less_exp [rotated]) simp
  with bit_length_le [OF n(2)] show ?thesis by simp
qed

lemma round53_exact: "n \<le> 2 ^ 53 \<Longrightarrow> round53 n = n"
proof (cases "n = 2 ^ 53")
  case True
  with bit_length_54 [of "2 ^ 53"] show ?thesis by (simp add: round53_def Let_def)
next
  case False
  assume "n \<le> 2 ^ 53"
  with False have "bit_length n \<le> 53"
    by (intro bit_length_le) simp
  then show ?thesis by (simp add: round53_def Let_def)
qed

lemma int_of_float_of_int [simp]: "int_of_float (of_int i) = i"
  by (auto simp: int_of_float_def)

lemma float64_of_int_exact: "\<bar>i\<bar> \<le> 2 ^ 53 \<Longrightarrow> float64_of_int i = of_int i"
  by (auto simp: float64_of_int_def round53_exact abs_le_iff nat_le_iff)

text \<open>C23. A value that was set and saved is found after the store is opened again: booleans
  always, strings of valid UTF-8, integers up to 2^53 in absolute value.\<close>
theorem FileConfig_reopen:
  assumes "cwritable f" "\<bar>n\<bar> \<le> 2 ^ 53" "utf8_coerce s = s"
  shows "\<exists>f1 f2 f3 g1 g2 g3. FileConfig_SetStr f key s = (f1, None) \<and>
    NewFileConfig (cfile f1) w = Inr g1 \<and> FileConfig_GetStr g1 key = Inr s \<and>
    FileConfig_SetInt f key n = (f2, None) \<and>
    NewFileConfig (cfile f2) w = Inr g2 \<and> FileConfig_GetInt g2 key = Inr n \<and>
    FileConfig_SetBool f key b = (f3, None) \<and>
    NewFileConfig (cfile f3) w = Inr g3 \<and> FileConfig_GetBool g3 key = Inr b"
  using assms
  by (simp add: FileConfig_SetStr_def FileConfig_SetInt_def FileConfig_SetBool_def FileConfig_save_def
      NewFileConfig_def saved_object_def FileConfig_load_def FileConfig_GetStr_def FileConfig_GetInt_def
      FileConfig_GetBool_def found_def json_reread_def str_part_def int_part_def bool_part_def
      float64_of_int_exact Let_def)

definition empty_config :: FileConfig where
  "empty_config = \<lparr>cfile = NoFile, cwritable = True, cdata = Map.empty, strMap = Map.empty,
     intMap = Map.empty, boolMap = Map.empty\<rparr>"

lemma FileConfig_reopen_witness:
  "\<exists>f1 f2 f3 g1 g2 g3. FileConfig_SetStr empty_config ''k'' ''v'' = (f1, None) \<and>
    NewFileConfig (cfile f1) True = Inr g1 \<and> FileConfig_GetStr g1 ''k'' = Inr ''v'' \<and>
    FileConfig_SetInt empty_config ''k'' 1000 = (f2, None) \<and>
    NewFileConfig (cfile f2) True = Inr g2 \<and> FileConfig_GetInt g2 ''k'' = Inr 1000 \<and>
    FileConfig_SetBool empty_config ''k'' True = (f3, None) \<and>
    NewFileConfig (cfile f3) True = Inr g3 \<and> FileConfig_GetBool g3 ''k'' = Inr True"
  by (rule FileConfig_reopen) (simp_all add: empty_config_def utf8_len_def byte_in_def)

text \<open>An integer above 2^53 can come back as another integer.\<close>
theorem FileConfig_big_int_changes:
  "\<exists>f g. FileConfig_SetInt empty_config ''n'' (2 ^ 53 + 1) = (f, None) \<and>
    NewFileConfig (cfile f) True = Inr g \<and> FileConfig_GetInt g ''n'' = Inr (2 ^ 53)"
proof -
  have "nat (2 ^ 53 + 1) = 2 ^ 53 + 1" "bit_length (2 ^ 53 + 1) = 54"
    by (simp, rule bit_length_54, simp_all)
  then have "float64_of_int (2 ^ 53 + 1) = of_int (2 ^ 53)"
    by (simp add: float64_of_int_def round53_def Let_def)
  then show ?thesis
    by (simp add: empty_config_def FileConfig_SetInt_def FileConfig_save_def NewFileConfig_def
        saved_object_def FileConfig_load_def FileConfig_GetInt_def found_def json_reread_def int_part_def
        Let_def del: of_int_power of_int_numeral)
qed

text \<open>A key that gets a value of another type keeps its old value in the map of the old type
  until the store is loaded again: both getters answer.\<close>
theorem FileConfig_stale_type:
  assumes "cwritable f"
  shows "\<exists>f1 f2 f3. FileConfig_SetStr f key s = (f1, None) \<and> FileConfig_SetBool f1 key b = (f2, None) \<and>
    FileConfig_GetStr f2 key = Inr s \<and> FileConfig_GetBool f2 key = Inr b \<and>
    FileConfig_Reload f2 = (f3, None) \<and> FileConfig_GetStr f3 key = Inl (ErrKeyNotFound key)"
  using assms
  by (simp add: FileConfig_SetStr_def FileConfig_SetBool_def FileConfig_save_def FileConfig_GetStr_def
      FileConfig_GetBool_def FileConfig_Reload_def FileConfig_load_def saved_object_def found_def
      json_reread_def str_part_def)

lemma FileConfig_stale_type_witness:
  "\<exists>f1 f2 f3. FileConfig_SetStr empty_config ''k'' ''v'' = (f1, None) \<and>
    FileConfig_SetBool f1 ''k'' False = (f2, None) \<and>
    FileConfig_GetStr f2 ''k'' = Inr ''v'' \<and> FileConfig_GetBool f2 ''k'' = Inr False \<and>
    FileConfig_Reload f2 = (f3, None) \<and> FileConfig_GetStr f3 ''k'' = Inl (ErrKeyNotFound ''k'')"
  by (rule FileConfig_stale_type) (simp add: empty_config_def)

text \<open>A crash while a store is saved can leave the empty file, which opens without an error as a
  store that has lost every key.\<close>
theorem FileConfig_crash_loses_keys:
  "EmptyFile \<in> set (save_states f) \<and>
   (\<exists>g. NewFileConfig EmptyFile w = Inr g \<and> FileConfig_GetStr g key = Inl (ErrKeyNotFound key))"
  by (simp add: save_states_def NewFileConfig_def FileConfig_load_def FileConfig_GetStr_def found_def Let_def)

text \<open>Groups of one store: setting a value in a group leaves the values of every group whose
  prefix neither starts nor extends the first group's prefix.\<close>
theorem FileConfig_groups_independent:
  assumes "\<nexists>r. p1 = p2 @ r" "\<nexists>r. p2 = p1 @ r"
  shows "PrefixedConfig_Get p1 FileConfig_GetStr
      (fst (PrefixedConfig_Set p2 FileConfig_SetStr c k v)) key =
    PrefixedConfig_Get p1 FileConfig_GetStr c key"
  by (rule file_str.groups_independent [OF assms])

lemma FileConfig_groups_independent_witness:
  "PrefixedConfig_Get (WithGroup [] ''data'') FileConfig_GetStr
      (fst (PrefixedConfig_Set (WithGroup [] ''name'') FileConfig_SetStr empty_config ''x'' ''1'')) ''x'' =
    PrefixedConfig_Get (WithGroup [] ''data'') FileConfig_GetStr empty_config ''x''"
  by (rule FileConfig_groups_independent) (simp_all add: WithGroup_def)

end
