(* ===== verification/Registry.thy ===== *)
theory Registry
  imports PathUtils "HOL-Library.AList" "HOL-Library.Multiset"
begin

text \<open>
  Registries: src/native/sec_fs/internal/utils/registry.go and name_registry.go, and the global
  registries of crypto_data, crypto_name and crypto_hkdf. The map is an association list whose
  order stands for the order in which Go happens to iterate; the properties show that no
  answer depends on it. Names compare case-insensitively as \<^verbatim>\<open>strings.EqualFold\<close> does against
  ASCII names: two characters outside ASCII fold to ASCII letters, U+017F to s and U+212A to k.
\<close>

subsection \<open>Case folding\<close>

fun fold_special :: "string \<Rightarrow> string" where
  "fold_special (a # b # c # s) =
    (if a = CHR 0xC5 \<and> b = CHR 0xBF then CHR ''s'' # fold_special (c # s)
     else if a = CHR 0xE2 \<and> b = CHR 0x84 \<and> c = CHR 0xAA then CHR ''k'' # fold_special s
     else a # fold_special (b # c # s))"
| "fold_special [a, b] = (if a = CHR 0xC5 \<and> b = CHR 0xBF then ''s'' else [a, b])"
| "fold_special s = s"

definition fold_key :: "string \<Rightarrow> string" where
  "fold_key s = map ascii_lower (fold_special s)"

definition EqualFold :: "string \<Rightarrow> string \<Rightarrow> bool" where
  "EqualFold a b \<longleftrightarrow> fold_key a = fold_key b"

subsection \<open>Registry\<close>

type_synonym ('k, 'v) registry = "('k \<times> 'v) list"

definition NewRegistry :: "('k, 'v) registry" where
  "NewRegistry = []"

definition Registry_Add :: "('k, 'v) registry \<Rightarrow> 'k \<Rightarrow> 'v \<Rightarrow> ('k, 'v) registry" where
  "Registry_Add r key value = AList.update key value r"

definition Registry_Get :: "('k, 'v) registry \<Rightarrow> 'k \<Rightarrow> 'v option" where
  "Registry_Get r key = map_of r key"

definition Registry_Remove :: "('k, 'v) registry \<Rightarrow> 'k \<Rightarrow> ('k, 'v) registry \<times> bool" where
  "Registry_Remove r key =
    (case map_of r key of Some _ \<Rightarrow> (AList.delete key r, True) | None \<Rightarrow> (r, False))"

definition Registry_Contains :: "('k, 'v) registry \<Rightarrow> 'k \<Rightarrow> bool" where
  "Registry_Contains r key \<longleftrightarrow> map_of r key \<noteq> None"

definition Registry_Clear :: "('k, 'v) registry \<Rightarrow> ('k, 'v) registry" where
  "Registry_Clear r = []"

definition Registry_Count :: "('k, 'v) registry \<Rightarrow> nat" where
  "Registry_Count r = length r"

definition Registry_List :: "('k, 'v) registry \<Rightarrow> 'v list" where
  "Registry_List r = map snd r"

definition Registry_Keys :: "('k, 'v) registry \<Rightarrow> 'k list" where
  "Registry_Keys r = map fst r"

text \<open>\<^verbatim>\<open>ForEach\<close> with a callback on a state, which stops when the callback says so.\<close>

fun Registry_ForEach :: "('k \<Rightarrow> 'v \<Rightarrow> 's \<Rightarrow> 's \<times> bool) \<Rightarrow> ('k, 'v) registry \<Rightarrow> 's \<Rightarrow> 's" where
  "Registry_ForEach fn [] s = s"
| "Registry_ForEach fn ((key, value) # r) s =
    (let (s', continue) = fn key value s in if continue then Registry_ForEach fn r s' else s')"

subsection \<open>Name registry\<close>

datatype registry_error = ErrNilFactory | ErrEmptyName | ErrAlreadyRegistered string

definition ContainsFold :: "(string, 'v) registry \<Rightarrow> string \<Rightarrow> bool" where
  "ContainsFold r name =
    (if Registry_Contains r name then True
     else Registry_ForEach (\<lambda>key _ found. if EqualFold key name then (True, False) else (found, True)) r False)"

definition Register ::
  "('v \<Rightarrow> string) \<Rightarrow> (string, 'v) registry \<Rightarrow> 'v option \<Rightarrow> (string, 'v) registry \<times> registry_error option" where
  "Register GetName r factory =
    (case factory of None \<Rightarrow> (r, Some ErrNilFactory)
     | Some v \<Rightarrow>
       let name = GetName v in
       if name = [] then (r, Some ErrEmptyName)
       else if ContainsFold r name then (r, Some (ErrAlreadyRegistered name))
       else (Registry_Add r name v, None))"

definition GetOrNil :: "(string, 'v) registry \<Rightarrow> string \<Rightarrow> 'v option" where
  "GetOrNil r name = Registry_Get r name"

definition GetOrNilFold :: "(string, 'v) registry \<Rightarrow> string \<Rightarrow> 'v option" where
  "GetOrNilFold r name =
    (case Registry_Get r name of Some v \<Rightarrow> Some v
     | None \<Rightarrow>
       Registry_ForEach (\<lambda>key value found. if EqualFold key name then (Some value, False) else (found, True))
         r None)"

definition Unregister :: "(string, 'v) registry \<Rightarrow> string \<Rightarrow> (string, 'v) registry \<times> bool" where
  "Unregister r name = Registry_Remove r name"

text \<open>The lookups of the global registries; two of them know an old name.\<close>

definition GetFactory :: "(string, 'v) registry \<Rightarrow> string \<Rightarrow> 'v option" where
  "GetFactory r name = GetOrNilFold r name"

definition GetNameFactory :: "(string, 'v) registry \<Rightarrow> string \<Rightarrow> 'v option" where
  "GetNameFactory r name =
    (let name = (if EqualFold name ''aes-gcm-name'' then ''AES-256-GCM'' else name) in GetOrNilFold r name)"

definition GetDeriverFactory :: "(string, 'v) registry \<Rightarrow> string \<Rightarrow> 'v option" where
  "GetDeriverFactory r name =
    (let name = (if EqualFold name ''hkdf'' then ''HKDF-SHA-256'' else name) in GetOrNilFold r name)"

subsection \<open>The invariant\<close>

text \<open>Every factory is registered under its name, and no two names are equal up to case.\<close>

definition registry_ok :: "('v \<Rightarrow> string) \<Rightarrow> (string, 'v) registry \<Rightarrow> bool" where
  "registry_ok GetName r \<longleftrightarrow> distinct (map (\<lambda>(k, v). fold_key k) r) \<and> (\<forall>(k, v) \<in> set r. k = GetName v)"

lemma registry_ok_distinct:
  assumes "registry_ok GetName r"
  shows "distinct (map fst r)"
proof -
  have "map (\<lambda>(k, v). fold_key k) r = map fold_key (map fst r)"
    by (simp add: split_beta)
  then show ?thesis
    using assms by (metis distinct_map registry_ok_def)
qed

lemma ForEach_contains:
  "Registry_ForEach (\<lambda>key _ found. if EqualFold key name then (True, False) else (found, True)) r b =
    (b \<or> (\<exists>(k, v) \<in> set r. EqualFold k name))"
proof (induction r arbitrary: b)
  case (Cons kv r)
  then show ?case
    by (cases kv; cases "EqualFold (fst kv) name") simp_all
qed simp

lemma ContainsFold_iff: "ContainsFold r name \<longleftrightarrow> (\<exists>(k, v) \<in> set r. EqualFold k name)"
proof -
  have "Registry_Contains r name \<Longrightarrow> \<exists>(k, v) \<in> set r. EqualFold k name"
    by (auto simp: Registry_Contains_def EqualFold_def dest: map_of_SomeD)
  then show ?thesis
    by (auto simp: ContainsFold_def ForEach_contains)
qed

lemma ForEach_find:
  "Registry_ForEach (\<lambda>key value found. if EqualFold key name then (Some value, False) else (found, True)) r x =
    (case find (\<lambda>(k, v). EqualFold k name) r of None \<Rightarrow> x | Some (k, v) \<Rightarrow> Some v)"
proof (induction r arbitrary: x)
  case (Cons kv r)
  then show ?case
    by (cases kv; cases "EqualFold (fst kv) name") simp_all
qed simp

text \<open>With the invariant, a folded lookup finds the one factory whose name matches.\<close>

lemma GetOrNilFold_iff:
  assumes "registry_ok GetName r"
  shows "GetOrNilFold r name = Some v \<longleftrightarrow> (\<exists>k. (k, v) \<in> set r \<and> EqualFold k name)"
proof -
  have uniq: "v1 = v2" if "(k1, v1) \<in> set r" "EqualFold k1 name" "(k2, v2) \<in> set r" "EqualFold k2 name"
    for k1 v1 k2 v2
  proof -
    have "fold_key k1 = fold_key k2"
      using that by (simp add: EqualFold_def)
    moreover have "inj_on (\<lambda>(k, v). fold_key k) (set r)"
      using assms by (simp add: registry_ok_def distinct_map)
    ultimately have "(k1, v1) = (k2, v2)"
      using that inj_onD [of "\<lambda>(k, v). fold_key k" "set r" "(k1, v1)" "(k2, v2)"] by simp
    then show ?thesis by simp
  qed
  show ?thesis
  proof (cases "map_of r name")
    case (Some w)
    then have "(name, w) \<in> set r" by (rule map_of_SomeD)
    moreover have "GetOrNilFold r name = Some w"
      using Some by (simp add: GetOrNilFold_def Registry_Get_def)
    moreover have "EqualFold name name"
      by (simp add: EqualFold_def)
    ultimately show ?thesis
      using uniq [of name w] by (metis option.inject)
  next
    case None
    then have eq: "GetOrNilFold r name =
        (case find (\<lambda>(k, v). EqualFold k name) r of None \<Rightarrow> None | Some (k, v) \<Rightarrow> Some v)"
      by (simp add: GetOrNilFold_def Registry_Get_def ForEach_find)
    show ?thesis
    proof (cases "find (\<lambda>(k, v). EqualFold k name) r")
      case None': None
      then have "\<not> (\<exists>k. (k, v) \<in> set r \<and> EqualFold k name)"
        by (auto simp: find_None_iff)
      with eq None' show ?thesis by simp
    next
      case (Some kv)
      have kv: "kv \<in> set r" "EqualFold (fst kv) name"
        using Some by (auto simp: find_Some_iff split_beta)
      have "GetOrNilFold r name = Some (snd kv)"
        using eq Some by (simp add: split_beta)
      with kv uniq [of "fst kv" "snd kv"] show ?thesis
        by (metis option.inject prod.collapse)
    qed
  qed
qed

subsection \<open>Properties\<close>

text \<open>Registering keeps the invariant: a factory is added under its own name exactly when no
  registered name equals it up to case, and nothing else changes.\<close>
theorem Register_keeps_invariant:
  assumes "registry_ok GetName r" "GetName v \<noteq> []"
  shows "registry_ok GetName (fst (Register GetName r (Some v))) \<and>
    (if \<exists>(k, w) \<in> set r. EqualFold k (GetName v)
     then Register GetName r (Some v) = (r, Some (ErrAlreadyRegistered (GetName v)))
     else snd (Register GetName r (Some v)) = None \<and>
       set (fst (Register GetName r (Some v))) = insert (GetName v, v) (set r))"
proof (cases "\<exists>(k, w) \<in> set r. EqualFold k (GetName v)")
  case True
  then show ?thesis
    using assms by (simp add: Register_def ContainsFold_iff)
next
  case False
  then have "map_of r (GetName v) = None"
    by (auto simp: map_of_eq_None_iff EqualFold_def)
  then have add: "Registry_Add r (GetName v) v = r @ [(GetName v, v)]"
    unfolding Registry_Add_def by (induction r) (auto split: if_splits)
  have "registry_ok GetName (r @ [(GetName v, v)])"
    using assms(1) False by (auto simp: registry_ok_def EqualFold_def)
  with False assms(2) add show ?thesis
    by (simp add: Register_def ContainsFold_iff)
qed

lemma Register_keeps_invariant_witness:
  "registry_ok id (fst (Register id [(''AES-CTR'', ''AES-CTR'')] (Some ''aes-ctr''))) \<and>
    (if \<exists>(k, w) \<in> set [(''AES-CTR'', ''AES-CTR'')]. EqualFold k (id ''aes-ctr'')
     then Register id [(''AES-CTR'', ''AES-CTR'')] (Some ''aes-ctr'') =
       ([(''AES-CTR'', ''AES-CTR'')], Some (ErrAlreadyRegistered (id ''aes-ctr'')))
     else snd (Register id [(''AES-CTR'', ''AES-CTR'')] (Some ''aes-ctr'')) = None \<and>
       set (fst (Register id [(''AES-CTR'', ''AES-CTR'')] (Some ''aes-ctr''))) =
         insert (id ''aes-ctr'', ''aes-ctr'') (set [(''AES-CTR'', ''AES-CTR'')]))"
  by (rule Register_keeps_invariant) (simp_all add: registry_ok_def)

text \<open>A lookup does not depend on the order of iteration: two registries with the same entries
  answer alike, for every spelling of the name.\<close>
theorem GetOrNilFold_order_free:
  assumes "registry_ok GetName r" "mset r' = mset r"
  shows "GetOrNilFold r' name = GetOrNilFold r name"
proof -
  have set: "set r' = set r"
    using assms(2) by (metis set_mset_mset)
  have "mset (map (\<lambda>(k, v). fold_key k) r') = mset (map (\<lambda>(k, v). fold_key k) r)"
    using assms(2) by simp
  then have "distinct (map (\<lambda>(k, v). fold_key k) r')"
    using assms(1) unfolding registry_ok_def by (metis mset_eq_imp_distinct_iff)
  then have "registry_ok GetName r'"
    using assms(1) set by (simp add: registry_ok_def)
  from GetOrNilFold_iff [OF this] GetOrNilFold_iff [OF assms(1)] set show ?thesis
    by (metis not_Some_eq)
qed

lemma GetOrNilFold_order_free_witness:
  "GetOrNilFold [(''A'', ''A''), (''RC4'', ''RC4'')] ''rc4'' =
    GetOrNilFold [(''RC4'', ''RC4''), (''A'', ''A'')] ''rc4''"
  by (rule GetOrNilFold_order_free [of id]) (simp_all add: registry_ok_def fold_key_def ascii_lower_def byte_of_def)

end
