(* ===== verification/SharedConfig.thy ===== *)
theory SharedConfig
  imports Config GoEncoding
begin

text \<open>
  The interface \<^verbatim>\<open>SharedConfig\<close> of src/native/config/interface.go, for the components that take a
  store as an argument: its operations as a record, and the contract they rely on as a locale. The
  contract has a function \<open>reload\<close> that stands for what happens to the store between writing and
  reading: nothing for a store that stays in memory, closing and opening again for a file.
\<close>

record 'c config_ops =
  GetStr :: "'c \<Rightarrow> string \<Rightarrow> cfg_error + string"
  GetInt :: "'c \<Rightarrow> string \<Rightarrow> cfg_error + int"
  GetBool :: "'c \<Rightarrow> string \<Rightarrow> cfg_error + bool"
  SetStr :: "'c \<Rightarrow> string \<Rightarrow> string \<Rightarrow> 'c \<times> cfg_error option"
  SetInt :: "'c \<Rightarrow> string \<Rightarrow> int \<Rightarrow> 'c \<times> cfg_error option"

definition file_ops :: "FileConfig config_ops" where
  "file_ops = \<lparr>GetStr = FileConfig_GetStr, GetInt = FileConfig_GetInt, GetBool = FileConfig_GetBool,
     SetStr = FileConfig_SetStr, SetInt = FileConfig_SetInt\<rparr>"

definition memory_ops :: "MemoryConfig config_ops" where
  "memory_ops = \<lparr>GetStr = MemoryConfig_GetStr, GetInt = MemoryConfig_GetInt, GetBool = MemoryConfig_GetBool,
     SetStr = MemoryConfig_SetStr, SetInt = MemoryConfig_SetInt\<rparr>"

text \<open>The file store behind \<open>PrefixedConfig\<close>, with the prefix of the group.\<close>

definition group_GetStr :: "'c config_ops \<Rightarrow> string \<Rightarrow> 'c \<Rightarrow> string \<Rightarrow> cfg_error + string" where
  "group_GetStr ops pre = PrefixedConfig_Get pre (GetStr ops)"

definition group_GetInt :: "'c config_ops \<Rightarrow> string \<Rightarrow> 'c \<Rightarrow> string \<Rightarrow> cfg_error + int" where
  "group_GetInt ops pre = PrefixedConfig_Get pre (GetInt ops)"

definition group_SetStr :: "'c config_ops \<Rightarrow> string \<Rightarrow> 'c \<Rightarrow> string \<Rightarrow> string \<Rightarrow> 'c \<times> cfg_error option" where
  "group_SetStr ops pre = PrefixedConfig_Set pre (SetStr ops)"

definition group_SetInt :: "'c config_ops \<Rightarrow> string \<Rightarrow> 'c \<Rightarrow> string \<Rightarrow> int \<Rightarrow> 'c \<times> cfg_error option" where
  "group_SetInt ops pre = PrefixedConfig_Set pre (SetInt ops)"

subsection \<open>ASCII text survives a JSON file\<close>

definition ascii :: "string \<Rightarrow> bool" where
  "ascii s \<longleftrightarrow> (\<forall>c \<in> set s. of_char c < (128 :: nat))"

lemma utf8_coerce_ascii [simp]: "ascii s \<Longrightarrow> utf8_coerce s = s"
  by (induction s rule: utf8_coerce.induct) (auto simp: ascii_def utf8_len_def byte_in_def)

lemma ascii_hex [simp]: "ascii (hex_EncodeToString d)"
proof -
  have "unat b div 16 < 16" "unat b mod 16 < 16" for b :: byte
    using unsigned_less [where 'a = nat and 'b = 8, of b] by (simp_all add: less_mult_imp_div_less)
  then show ?thesis
    by (auto simp: ascii_def hex_EncodeToString_def hex_digit)
qed

lemma ascii_b64 [simp]: "alphabet_ok al \<Longrightarrow> ascii (b64_encode al d)"
  by (auto simp: ascii_def elim!: b64_encode_char dest: alphabet_okD)

lemma ascii_Std [simp]: "ascii (StdEncode d)" "ascii (RawStdEncode d)"
  using ascii_b64 [OF alphabets_ok(2), of d] by (auto simp: ascii_def StdEncode_def RawStdEncode_def)

subsection \<open>The contract\<close>

locale shared_config =
  fixes ops :: "'c config_ops"
    and reload :: "'c \<Rightarrow> 'c"
    and usable :: "'c \<Rightarrow> bool"       \<comment> \<open>writes reach the store\<close>
    and saved :: "'c \<Rightarrow> bool"        \<comment> \<open>the values can be read back\<close>
    and str_of :: "'c \<Rightarrow> string \<Rightarrow> string option"
    and int_of :: "'c \<Rightarrow> string \<Rightarrow> int option"
  assumes usable_put: "usable c \<Longrightarrow> usable (fst (SetStr ops c k s)) \<and> usable (fst (SetInt ops c k n))"
    and saved_put: "usable c \<Longrightarrow> saved (fst (SetStr ops c k s)) \<and> saved (fst (SetInt ops c k n))"
    and put_ok: "usable c \<Longrightarrow> snd (SetStr ops c k s) = None \<and> snd (SetInt ops c k n) = None"
    and str_put: "utf8_coerce s = s \<Longrightarrow> str_of (fst (SetStr ops c k s)) k = Some s"
    and int_put: "\<bar>n\<bar> \<le> 2 ^ 53 \<Longrightarrow> int_of (fst (SetInt ops c k n)) k = Some n"
    and str_other: "k' \<noteq> k \<Longrightarrow> str_of (fst (SetStr ops c k s)) k' = str_of c k' \<and>
      str_of (fst (SetInt ops c k n)) k' = str_of c k'"
    and int_other: "k' \<noteq> k \<Longrightarrow> int_of (fst (SetStr ops c k s)) k' = int_of c k' \<and>
      int_of (fst (SetInt ops c k n)) k' = int_of c k'"
    and str_read: "saved c \<Longrightarrow> GetStr ops (reload c) k = found k (str_of c k)"
    and int_read: "saved c \<Longrightarrow> GetInt ops (reload c) k = found k (int_of c k)"

context shared_config
begin

lemmas put_facts = usable_put [THEN conjunct1] usable_put [THEN conjunct2]
  saved_put [THEN conjunct1] saved_put [THEN conjunct2] put_ok [THEN conjunct1] put_ok [THEN conjunct2]
lemmas other_facts = str_other [THEN conjunct1] str_other [THEN conjunct2]
  int_other [THEN conjunct1] int_other [THEN conjunct2]

text \<open>The same facts for a group.\<close>

lemma group_put [simp]:
  "usable c \<Longrightarrow> usable (fst (group_SetStr ops pre c k s))"
  "usable c \<Longrightarrow> usable (fst (group_SetInt ops pre c k n))"
  "usable c \<Longrightarrow> saved (fst (group_SetStr ops pre c k s))"
  "usable c \<Longrightarrow> saved (fst (group_SetInt ops pre c k n))"
  "ascii s \<Longrightarrow> str_of (fst (group_SetStr ops pre c k s)) (pre @ k) = Some s"
  "\<bar>n\<bar> \<le> 2 ^ 53 \<Longrightarrow> int_of (fst (group_SetInt ops pre c k n)) (pre @ k) = Some n"
  by (simp_all add: group_SetStr_def group_SetInt_def PrefixedConfig_Set_def put_facts str_put int_put)

lemma group_other [simp]:
  "k' \<noteq> pre @ k \<Longrightarrow> str_of (fst (group_SetStr ops pre c k s)) k' = str_of c k'"
  "k' \<noteq> pre @ k \<Longrightarrow> int_of (fst (group_SetStr ops pre c k s)) k' = int_of c k'"
  "k' \<noteq> pre @ k \<Longrightarrow> str_of (fst (group_SetInt ops pre c k n)) k' = str_of c k'"
  "k' \<noteq> pre @ k \<Longrightarrow> int_of (fst (group_SetInt ops pre c k n)) k' = int_of c k'"
  by (simp_all add: group_SetStr_def group_SetInt_def PrefixedConfig_Set_def other_facts)

lemma group_read:
  "saved c \<Longrightarrow> str_of c (pre @ k) = Some s \<Longrightarrow> group_GetStr ops pre (reload c) k = Inr s"
  "saved c \<Longrightarrow> int_of c (pre @ k) = Some n \<Longrightarrow> group_GetInt ops pre (reload c) k = Inr n"
  by (simp_all add: group_GetStr_def group_GetInt_def PrefixedConfig_Get_def str_read int_read found_def)

end

text \<open>The contract with booleans.\<close>

locale typed_config = shared_config +
  fixes bool_of :: "'a \<Rightarrow> string \<Rightarrow> bool option"
  assumes bool_other: "k' \<noteq> k \<Longrightarrow> bool_of (fst (SetStr ops c k s)) k' = bool_of c k' \<and>
      bool_of (fst (SetInt ops c k n)) k' = bool_of c k'"
    and bool_read: "saved c \<Longrightarrow> GetBool ops (reload c) k = found k (bool_of c k)"

text \<open>A store in memory, and a file store as long as it stays open.\<close>

interpretation memory_store: typed_config memory_ops "\<lambda>c. c" "\<lambda>_. True" "\<lambda>_. True" mstr mint mbool
  by unfold_locales
    (simp_all add: memory_ops_def MemoryConfig_SetStr_def MemoryConfig_SetInt_def MemoryConfig_GetStr_def
      MemoryConfig_GetInt_def MemoryConfig_GetBool_def found_def)

interpretation open_file: typed_config file_ops "\<lambda>c. c" cwritable "\<lambda>_. True" strMap intMap boolMap
  by unfold_locales
    (simp_all add: file_ops_def FileConfig_SetStr_def FileConfig_SetInt_def FileConfig_GetStr_def
      FileConfig_GetInt_def FileConfig_GetBool_def FileConfig_save_def found_def)

text \<open>A file store that is closed and opened again.\<close>

definition reopen :: "FileConfig \<Rightarrow> FileConfig" where
  "reopen f = (case NewFileConfig (cfile f) (cwritable f) of Inr g \<Rightarrow> g | Inl _ \<Rightarrow> f)"

definition file_saved :: "FileConfig \<Rightarrow> bool" where
  "file_saved f \<longleftrightarrow> cwritable f \<and> cfile f = saved_object f"

lemma reopen_saved:
  assumes "file_saved f"
  shows "NewFileConfig (cfile f) (cwritable f) = Inr (reopen f)"
    "strMap (reopen f) = (\<lambda>k. str_part (map_option json_reread (cdata f k)))"
    "intMap (reopen f) = (\<lambda>k. int_part (map_option json_reread (cdata f k)))"
    "boolMap (reopen f) = (\<lambda>k. bool_part (map_option json_reread (cdata f k)))"
    "cwritable (reopen f)"
  using assms
  by (simp_all add: file_saved_def reopen_def saved_object_def NewFileConfig_def FileConfig_load_def Let_def)

interpretation file_store: typed_config file_ops reopen cwritable file_saved
    "\<lambda>f k. str_part (map_option json_reread (cdata f k))" "\<lambda>f k. int_part (map_option json_reread (cdata f k))"
    "\<lambda>f k. bool_part (map_option json_reread (cdata f k))"
  by unfold_locales
    (simp_all add: file_ops_def FileConfig_SetStr_def FileConfig_SetInt_def FileConfig_save_def file_saved_def
      saved_object_def FileConfig_GetStr_def FileConfig_GetInt_def FileConfig_GetBool_def found_def reopen_saved file_saved_def
      json_reread_def str_part_def int_part_def float64_of_int_exact)

end
