(* ===== verification/KeyDeriver.thy ===== *)
theory KeyDeriver
  imports SharedConfig
begin

text \<open>
  Key derivation: src/native/sec_fs/crypto_hkdf (interface.go and the four factories under
  algorithm_impl). The derivation functions of golang.org/x/crypto are the fields of a record
  \<open>kdf_lib\<close>; they return \<open>None\<close> where the library returns an error or panics. A store is given by its
  operations, the prefix of the group the deriver was handed, and its state. \<open>rnd n\<close> is what
  \<^verbatim>\<open>rand.Read\<close> puts into a slice of length \<open>n\<close>. As in the code, the errors of the setters are ignored.
\<close>

record kdf_lib =
  argon2_IDKey :: "bytes \<Rightarrow> bytes \<Rightarrow> 32 word \<Rightarrow> 32 word \<Rightarrow> 8 word \<Rightarrow> 32 word \<Rightarrow> bytes option"
  hkdf_New_Read :: "bytes \<Rightarrow> bytes \<Rightarrow> int \<Rightarrow> bytes option"
  pbkdf2_Key :: "bytes \<Rightarrow> bytes \<Rightarrow> int \<Rightarrow> int \<Rightarrow> bytes option"
  scrypt_Key :: "bytes \<Rightarrow> bytes \<Rightarrow> int \<Rightarrow> int \<Rightarrow> int \<Rightarrow> int \<Rightarrow> bytes option"

record MakeKeyParams =
  Password :: string
  KeyStrengthMs :: int
  StaticSalt :: bool
  KeyLength :: int
  ReuseStoredParameters :: bool

datatype kdf_error =
  ErrNilParams | ErrEmptyPassword | ErrMissingSalt | ErrSaltHex | ErrRandom | ErrNeedsConfig
  | ErrStoredParameter string | ErrDerivation

definition STATIC_SALT :: bytes where
  "STATIC_SALT = string_bytes ''SafeDisk''"

type_synonym 'c cfg = "(string \<times> 'c) option"
type_synonym rand = "nat \<Rightarrow> bytes option"

subsection \<open>Reading parameters\<close>

definition read_salt :: "'c config_ops \<Rightarrow> string \<Rightarrow> 'c \<Rightarrow> kdf_error + bytes" where
  "read_salt ops g c =
    (case group_GetStr ops g c ''salt'' of Inl _ \<Rightarrow> Inl ErrMissingSalt
     | Inr saltHex \<Rightarrow> (case hex_DecodeString saltHex of None \<Rightarrow> Inl ErrSaltHex | Some salt \<Rightarrow> Inr salt))"

definition int_or :: "'c config_ops \<Rightarrow> string \<Rightarrow> 'c \<Rightarrow> string \<Rightarrow> int \<Rightarrow> int" where
  "int_or ops g c key dflt = (case group_GetInt ops g c key of Inr n \<Rightarrow> n | Inl _ \<Rightarrow> dflt)"

definition stored_int :: "'c config_ops \<Rightarrow> string \<Rightarrow> 'c \<Rightarrow> string \<Rightarrow> (int \<Rightarrow> bool) \<Rightarrow> kdf_error + int" where
  "stored_int ops g c key ok =
    (case group_GetInt ops g c key of Inr n \<Rightarrow> if ok n then Inr n else Inl (ErrStoredParameter key)
     | Inl _ \<Rightarrow> Inl (ErrStoredParameter key))"

definition key_result :: "bytes option \<Rightarrow> kdf_error + bytes" where
  "key_result r = (case r of None \<Rightarrow> Inl ErrDerivation | Some key \<Rightarrow> Inr key)"

text \<open>The start of every \<^verbatim>\<open>NewKey\<close>.\<close>

definition checked_params :: "MakeKeyParams option \<Rightarrow> kdf_error + MakeKeyParams \<times> int" where
  "checked_params params =
    (case params of None \<Rightarrow> Inl ErrNilParams
     | Some p \<Rightarrow>
       if Password p = [] then Inl ErrEmptyPassword
       else Inr (p, if KeyLength p = 0 then 32 else KeyLength p))"

definition PasswordBytes :: "MakeKeyParams \<Rightarrow> bytes" where
  "PasswordBytes p = string_bytes (Password p)"

subsection \<open>Argon2id\<close>

definition argon2_LoadKey :: "kdf_lib \<Rightarrow> 'c config_ops \<Rightarrow> string \<Rightarrow> string \<Rightarrow> 'c \<Rightarrow> kdf_error + bytes" where
  "argon2_LoadKey lib ops password pre c =
    (let g = WithGroup pre ''argon2'' in
     case read_salt ops g c of Inl e \<Rightarrow> Inl e
     | Inr salt \<Rightarrow>
       let time = int_or ops g c ''time'' 3;
           memory = int_or ops g c ''memory'' (64 * 1024);
           threads = int_or ops g c ''threads'' 4;
           keyLength = int_or ops g c ''key_length'' 32
       in key_result (argon2_IDKey lib (string_bytes password) salt (word_of_int time) (word_of_int memory)
            (word_of_int threads) (word_of_int keyLength)))"

text \<open>The cost for a target time in milliseconds.\<close>

definition argon2_cost :: "int \<Rightarrow> 32 word \<times> 32 word" where
  "argon2_cost ms =
    (if 0 < ms then
       let time = word_of_int (go_div ms 100) :: 32 word;
           time = (if time < 1 then 1 else time);
           time = (if 10 < time then 10 else time);
           memory = word_of_int (64 * 1024 + ms * 64) :: 32 word;
           memory = (if 256 * 1024 < memory then 256 * 1024 else memory)
       in (time, memory)
     else (3, 64 * 1024))"

definition argon2_params ::
  "rand \<Rightarrow> 'c config_ops \<Rightarrow> MakeKeyParams \<Rightarrow> 'c cfg \<Rightarrow> int \<Rightarrow>
    kdf_error + bytes \<times> 32 word \<times> 32 word \<times> 8 word \<times> int" where
  "argon2_params rnd ops p cfg keyLength =
    (if StaticSalt p then Inr (STATIC_SALT, 3, 64 * 1024, 4, keyLength)
     else case rnd 16 of None \<Rightarrow> Inl ErrRandom
     | Some salt \<Rightarrow>
       if ReuseStoredParameters p then
         (case cfg of None \<Rightarrow> Inl ErrNeedsConfig
          | Some (pre, c) \<Rightarrow>
            let g = WithGroup pre ''argon2'' in
            case stored_int ops g c ''time'' (\<lambda>n. 0 < n) of Inl e \<Rightarrow> Inl e
            | Inr storedTime \<Rightarrow>
              (case stored_int ops g c ''memory'' (\<lambda>n. 0 < n) of Inl e \<Rightarrow> Inl e
               | Inr storedMemory \<Rightarrow>
                 (case stored_int ops g c ''threads'' (\<lambda>n. 0 < n \<and> n \<le> 255) of Inl e \<Rightarrow> Inl e
                  | Inr storedThreads \<Rightarrow>
                    (case stored_int ops g c ''key_length'' (\<lambda>n. 0 < n) of Inl e \<Rightarrow> Inl e
                     | Inr storedKeyLength \<Rightarrow>
                       Inr (salt, word_of_int storedTime, word_of_int storedMemory,
                            word_of_int storedThreads, storedKeyLength)))))
       else let (time, memory) = argon2_cost (KeyStrengthMs p) in Inr (salt, time, memory, 4, keyLength))"

definition argon2_save ::
  "'c config_ops \<Rightarrow> bytes \<Rightarrow> 32 word \<Rightarrow> 32 word \<Rightarrow> 8 word \<Rightarrow> int \<Rightarrow> string \<times> 'c \<Rightarrow> string \<times> 'c" where
  "argon2_save ops salt time memory threads keyLength = (\<lambda>(pre, c).
    let g = WithGroup pre ''argon2'';
        c1 = fst (group_SetStr ops g c ''salt'' (hex_EncodeToString salt));
        c2 = fst (group_SetInt ops g c1 ''time'' (uint time));
        c3 = fst (group_SetInt ops g c2 ''memory'' (uint memory));
        c4 = fst (group_SetInt ops g c3 ''threads'' (uint threads));
        c5 = fst (group_SetInt ops g c4 ''key_length'' keyLength)
    in (pre, c5))"

definition argon2_NewKey ::
  "kdf_lib \<Rightarrow> rand \<Rightarrow> 'c config_ops \<Rightarrow> MakeKeyParams option \<Rightarrow> 'c cfg \<Rightarrow> 'c cfg \<times> (kdf_error + bytes)" where
  "argon2_NewKey lib rnd ops params cfg =
    (case checked_params params of Inl e \<Rightarrow> (cfg, Inl e)
     | Inr (p, keyLength) \<Rightarrow>
       (case argon2_params rnd ops p cfg keyLength of Inl e \<Rightarrow> (cfg, Inl e)
        | Inr (salt, time, memory, threads, keyLength) \<Rightarrow>
          (case key_result (argon2_IDKey lib (PasswordBytes p) salt time memory threads (word_of_int keyLength)) of
             Inl e \<Rightarrow> (cfg, Inl e)
           | Inr key \<Rightarrow> (map_option (argon2_save ops salt time memory threads keyLength) cfg, Inr key))))"

subsection \<open>HKDF\<close>

definition hkdf_configGroupForLoad :: "'c config_ops \<Rightarrow> string \<Rightarrow> 'c \<Rightarrow> string" where
  "hkdf_configGroupForLoad ops pre c =
    (case group_GetStr ops (WithGroup pre ''hkdf'') c ''salt'' of Inr _ \<Rightarrow> WithGroup pre ''hkdf''
     | Inl _ \<Rightarrow> WithGroup pre ''HKDF-SHA-256'')"

definition hkdf_LoadKey :: "kdf_lib \<Rightarrow> 'c config_ops \<Rightarrow> string \<Rightarrow> string \<Rightarrow> 'c \<Rightarrow> kdf_error + bytes" where
  "hkdf_LoadKey lib ops password pre c =
    (let g = hkdf_configGroupForLoad ops pre c in
     case read_salt ops g c of Inl e \<Rightarrow> Inl e
     | Inr salt \<Rightarrow>
       key_result (hkdf_New_Read lib (string_bytes password) salt (int_or ops g c ''key_length'' 32)))"

definition hkdf_save :: "'c config_ops \<Rightarrow> bytes \<Rightarrow> int \<Rightarrow> string \<times> 'c \<Rightarrow> string \<times> 'c" where
  "hkdf_save ops salt keyLength = (\<lambda>(pre, c).
    let g = WithGroup pre ''hkdf'';
        c1 = fst (group_SetStr ops g c ''salt'' (hex_EncodeToString salt));
        c2 = fst (group_SetInt ops g c1 ''key_length'' keyLength)
    in (pre, c2))"

definition hkdf_NewKey ::
  "kdf_lib \<Rightarrow> rand \<Rightarrow> 'c config_ops \<Rightarrow> MakeKeyParams option \<Rightarrow> 'c cfg \<Rightarrow> 'c cfg \<times> (kdf_error + bytes)" where
  "hkdf_NewKey lib rnd ops params cfg =
    (case checked_params params of Inl e \<Rightarrow> (cfg, Inl e)
     | Inr (p, keyLength) \<Rightarrow>
       (case (if StaticSalt p then Some STATIC_SALT else rnd 16) of None \<Rightarrow> (cfg, Inl ErrRandom)
        | Some salt \<Rightarrow>
          (case key_result (hkdf_New_Read lib (PasswordBytes p) salt keyLength) of Inl e \<Rightarrow> (cfg, Inl e)
           | Inr key \<Rightarrow> (map_option (hkdf_save ops salt keyLength) cfg, Inr key))))"

subsection \<open>PBKDF2\<close>

definition pbkdf2_configGroupForLoad :: "'c config_ops \<Rightarrow> string \<Rightarrow> 'c \<Rightarrow> string" where
  "pbkdf2_configGroupForLoad ops pre c =
    (case group_GetStr ops (WithGroup pre ''pbkdf2'') c ''salt'' of Inr _ \<Rightarrow> WithGroup pre ''pbkdf2''
     | Inl _ \<Rightarrow> WithGroup pre ''PBKDF2'')"

definition pbkdf2_LoadKey :: "kdf_lib \<Rightarrow> 'c config_ops \<Rightarrow> string \<Rightarrow> string \<Rightarrow> 'c \<Rightarrow> kdf_error + bytes" where
  "pbkdf2_LoadKey lib ops password pre c =
    (let g = pbkdf2_configGroupForLoad ops pre c in
     case read_salt ops g c of Inl e \<Rightarrow> Inl e
     | Inr salt \<Rightarrow>
       let iterations = int_or ops g c ''iterations'' 100000;
           keyLength = int_or ops g c ''key_length'' 32
       in key_result (pbkdf2_Key lib (string_bytes password) salt iterations keyLength))"

definition pbkdf2_params ::
  "rand \<Rightarrow> 'c config_ops \<Rightarrow> MakeKeyParams \<Rightarrow> 'c cfg \<Rightarrow> int \<Rightarrow> kdf_error + bytes \<times> int \<times> int" where
  "pbkdf2_params rnd ops p cfg keyLength =
    (if StaticSalt p then Inr (STATIC_SALT, 100000, keyLength)
     else case rnd 32 of None \<Rightarrow> Inl ErrRandom
     | Some salt \<Rightarrow>
       if ReuseStoredParameters p then
         (case cfg of None \<Rightarrow> Inl ErrNeedsConfig
          | Some (pre, c) \<Rightarrow>
            let g = WithGroup pre ''pbkdf2'' in
            case stored_int ops g c ''iterations'' (\<lambda>n. 0 < n) of Inl e \<Rightarrow> Inl e
            | Inr storedIterations \<Rightarrow>
              (case stored_int ops g c ''key_length'' (\<lambda>n. 0 < n) of Inl e \<Rightarrow> Inl e
               | Inr storedKeyLength \<Rightarrow> Inr (salt, storedIterations, storedKeyLength)))
       else Inr (salt, if 0 < KeyStrengthMs p then 200000 else 100000, keyLength))"

definition pbkdf2_save :: "'c config_ops \<Rightarrow> bytes \<Rightarrow> int \<Rightarrow> int \<Rightarrow> string \<times> 'c \<Rightarrow> string \<times> 'c" where
  "pbkdf2_save ops salt iterations keyLength = (\<lambda>(pre, c).
    let g = WithGroup pre ''pbkdf2'';
        c1 = fst (group_SetStr ops g c ''salt'' (hex_EncodeToString salt));
        c2 = fst (group_SetInt ops g c1 ''iterations'' iterations);
        c3 = fst (group_SetInt ops g c2 ''key_length'' keyLength)
    in (pre, c3))"

definition pbkdf2_NewKey ::
  "kdf_lib \<Rightarrow> rand \<Rightarrow> 'c config_ops \<Rightarrow> MakeKeyParams option \<Rightarrow> 'c cfg \<Rightarrow> 'c cfg \<times> (kdf_error + bytes)" where
  "pbkdf2_NewKey lib rnd ops params cfg =
    (case checked_params params of Inl e \<Rightarrow> (cfg, Inl e)
     | Inr (p, keyLength) \<Rightarrow>
       (case pbkdf2_params rnd ops p cfg keyLength of Inl e \<Rightarrow> (cfg, Inl e)
        | Inr (salt, iterations, keyLength) \<Rightarrow>
          (case key_result (pbkdf2_Key lib (PasswordBytes p) salt iterations keyLength) of Inl e \<Rightarrow> (cfg, Inl e)
           | Inr key \<Rightarrow> (map_option (pbkdf2_save ops salt iterations keyLength) cfg, Inr key))))"

subsection \<open>scrypt\<close>

definition scrypt_LoadKey :: "kdf_lib \<Rightarrow> 'c config_ops \<Rightarrow> string \<Rightarrow> string \<Rightarrow> 'c \<Rightarrow> kdf_error + bytes" where
  "scrypt_LoadKey lib ops password pre c =
    (let g = WithGroup pre ''scrypt'' in
     case read_salt ops g c of Inl e \<Rightarrow> Inl e
     | Inr salt \<Rightarrow>
       let N = int_or ops g c ''n'' 32768;
           r = int_or ops g c ''r'' 8;
           p = int_or ops g c ''p'' 1;
           keyLength = int_or ops g c ''key_length'' 32
       in key_result (scrypt_Key lib (string_bytes password) salt N r p keyLength))"

definition scrypt_cost :: "int \<Rightarrow> int" where
  "scrypt_cost ms =
    (if 0 < ms then
       if 1000 < ms then 131072 else if 500 < ms then 65536 else if 100 < ms then 32768 else 16384
     else 32768)"

definition scrypt_params ::
  "rand \<Rightarrow> 'c config_ops \<Rightarrow> MakeKeyParams \<Rightarrow> 'c cfg \<Rightarrow> int \<Rightarrow>
    kdf_error + bytes \<times> int \<times> int \<times> int \<times> int" where
  "scrypt_params rnd ops p cfg keyLength =
    (if StaticSalt p then Inr (STATIC_SALT, 32768, 8, 1, keyLength)
     else case rnd 16 of None \<Rightarrow> Inl ErrRandom
     | Some salt \<Rightarrow>
       if ReuseStoredParameters p then
         (case cfg of None \<Rightarrow> Inl ErrNeedsConfig
          | Some (pre, c) \<Rightarrow>
            let g = WithGroup pre ''scrypt'' in
            case stored_int ops g c ''n'' (\<lambda>n. 1 < n \<and> n AND (n - 1) = 0) of Inl e \<Rightarrow> Inl e
            | Inr N \<Rightarrow>
              (case stored_int ops g c ''r'' (\<lambda>n. 0 < n) of Inl e \<Rightarrow> Inl e
               | Inr r \<Rightarrow>
                 (case stored_int ops g c ''p'' (\<lambda>n. 0 < n) of Inl e \<Rightarrow> Inl e
                  | Inr par \<Rightarrow>
                    (case stored_int ops g c ''key_length'' (\<lambda>n. 0 < n) of Inl e \<Rightarrow> Inl e
                     | Inr storedKeyLength \<Rightarrow> Inr (salt, N, r, par, storedKeyLength)))))
       else Inr (salt, scrypt_cost (KeyStrengthMs p), 8, 1, keyLength))"

definition scrypt_save ::
  "'c config_ops \<Rightarrow> bytes \<Rightarrow> int \<Rightarrow> int \<Rightarrow> int \<Rightarrow> int \<Rightarrow> string \<times> 'c \<Rightarrow> string \<times> 'c" where
  "scrypt_save ops salt N r p keyLength = (\<lambda>(pre, c).
    let g = WithGroup pre ''scrypt'';
        c1 = fst (group_SetStr ops g c ''salt'' (hex_EncodeToString salt));
        c2 = fst (group_SetInt ops g c1 ''n'' N);
        c3 = fst (group_SetInt ops g c2 ''r'' r);
        c4 = fst (group_SetInt ops g c3 ''p'' p);
        c5 = fst (group_SetInt ops g c4 ''key_length'' keyLength)
    in (pre, c5))"

definition scrypt_NewKey ::
  "kdf_lib \<Rightarrow> rand \<Rightarrow> 'c config_ops \<Rightarrow> MakeKeyParams option \<Rightarrow> 'c cfg \<Rightarrow> 'c cfg \<times> (kdf_error + bytes)" where
  "scrypt_NewKey lib rnd ops params cfg =
    (case checked_params params of Inl e \<Rightarrow> (cfg, Inl e)
     | Inr (p, keyLength) \<Rightarrow>
       (case scrypt_params rnd ops p cfg keyLength of Inl e \<Rightarrow> (cfg, Inl e)
        | Inr (salt, N, r, par, keyLength) \<Rightarrow>
          (case key_result (scrypt_Key lib (PasswordBytes p) salt N r par keyLength) of Inl e \<Rightarrow> (cfg, Inl e)
           | Inr key \<Rightarrow> (map_option (scrypt_save ops salt N r par keyLength) cfg, Inr key))))"

subsection \<open>The interface \<^verbatim>\<open>IKeyDeriver\<close>\<close>

datatype deriver = Argon2id | HKDF_SHA_256 | PBKDF2 | Scrypt

primrec deriver_name :: "deriver \<Rightarrow> string" where
  "deriver_name Argon2id = ''Argon2id''"
| "deriver_name HKDF_SHA_256 = ''HKDF-SHA-256''"
| "deriver_name PBKDF2 = ''PBKDF2''"
| "deriver_name Scrypt = ''scrypt''"

primrec LoadKey :: "kdf_lib \<Rightarrow> 'c config_ops \<Rightarrow> deriver \<Rightarrow> string \<Rightarrow> string \<Rightarrow> 'c \<Rightarrow> kdf_error + bytes" where
  "LoadKey lib ops Argon2id = argon2_LoadKey lib ops"
| "LoadKey lib ops HKDF_SHA_256 = hkdf_LoadKey lib ops"
| "LoadKey lib ops PBKDF2 = pbkdf2_LoadKey lib ops"
| "LoadKey lib ops Scrypt = scrypt_LoadKey lib ops"

primrec NewKey ::
  "kdf_lib \<Rightarrow> rand \<Rightarrow> 'c config_ops \<Rightarrow> deriver \<Rightarrow> MakeKeyParams option \<Rightarrow> 'c cfg \<Rightarrow> 'c cfg \<times> (kdf_error + bytes)" where
  "NewKey lib rnd ops Argon2id = argon2_NewKey lib rnd ops"
| "NewKey lib rnd ops HKDF_SHA_256 = hkdf_NewKey lib rnd ops"
| "NewKey lib rnd ops PBKDF2 = pbkdf2_NewKey lib rnd ops"
| "NewKey lib rnd ops Scrypt = scrypt_NewKey lib rnd ops"

end
