(* ===== verification/KeyDeriverProps.thy ===== *)
theory KeyDeriverProps
  imports KeyDeriver
begin

text \<open>
  Properties of the key derivers: what \<^verbatim>\<open>NewKey\<close> writes to a store is what \<^verbatim>\<open>LoadKey\<close> needs to
  derive the same key, whatever the derivation functions compute; reusing stored parameters
  keeps the cost and fails closed; bounds of the cost of Argon2id.
\<close>

lemma uint_small [simp]: "uint (w :: 32 word) \<le> 9007199254740992" "uint (v :: 8 word) \<le> 9007199254740992"
  using uint_lt2p [of w] uint_lt2p [of v] by simp_all

lemma checked_params_Some:
  "checked_params (Some p) = Inr (q, n) \<Longrightarrow> q = p \<and> n = (if KeyLength p = 0 then 32 else KeyLength p)"
  by (auto simp: checked_params_def split: if_splits)

lemma key_result_Inr [simp]: "key_result r = Inr key \<longleftrightarrow> r = Some key"
  by (simp add: key_result_def split: option.splits)

lemma stored_int_Inr:
  "stored_int ops g c key ok = Inr n \<longleftrightarrow> GetInt ops c (g @ key) = Inr n \<and> ok n"
  by (auto simp: stored_int_def group_GetInt_def PrefixedConfig_Get_def split: sum.splits)

text \<open>The integers of a store are small enough to survive a JSON file.\<close>

definition small_ints :: "'c config_ops \<Rightarrow> 'c \<Rightarrow> bool" where
  "small_ints ops c \<longleftrightarrow> (\<forall>k n. GetInt ops c k = Inr n \<longrightarrow> \<bar>n\<bar> \<le> 2 ^ 53)"

lemma small_intsD: "small_ints ops c \<Longrightarrow> GetInt ops c k = Inr n \<Longrightarrow> n \<le> 9007199254740992"
  by (auto simp: small_ints_def dest!: spec [of _ k])

context shared_config
begin

lemma read_salt_saved:
  "saved c \<Longrightarrow> str_of c (g @ ''salt'') = Some (hex_EncodeToString salt) \<Longrightarrow> read_salt ops g (reload c) = Inr salt"
  by (simp add: read_salt_def group_read)

lemma int_or_saved: "saved c \<Longrightarrow> int_of c (g @ k) = Some n \<Longrightarrow> int_or ops g (reload c) k d = n"
  by (simp add: int_or_def group_read)

lemma argon2_save_load:
  assumes "usable c" "\<bar>len\<bar> \<le> 2 ^ 53" "argon2_save ops salt time memory threads len (pre, c) = (pre', c')"
  shows "pre' = pre \<and> saved c' \<and> usable c' \<and> argon2_LoadKey lib ops pw pre (reload c') =
    key_result (argon2_IDKey lib (string_bytes pw) salt time memory threads (word_of_int len))"
  using assms
  by (auto simp: argon2_save_def argon2_LoadKey_def Let_def read_salt_saved
      int_or_saved [where k = "''time''" and n = "uint time"] int_or_saved [where k = "''memory''" and n = "uint memory"]
      int_or_saved [where k = "''threads''" and n = "uint threads"] int_or_saved [where n = len])

lemma hkdf_save_load:
  assumes "usable c" "\<bar>len\<bar> \<le> 2 ^ 53" "hkdf_save ops salt len (pre, c) = (pre', c')"
  shows "pre' = pre \<and> saved c' \<and> usable c' \<and> hkdf_LoadKey lib ops pw pre (reload c') =
    key_result (hkdf_New_Read lib (string_bytes pw) salt len)"
  using assms
  by (auto simp: hkdf_save_def hkdf_LoadKey_def hkdf_configGroupForLoad_def Let_def read_salt_saved group_read
      int_or_saved [where n = len])

lemma pbkdf2_save_load:
  assumes "usable c" "\<bar>it\<bar> \<le> 2 ^ 53" "\<bar>len\<bar> \<le> 2 ^ 53" "pbkdf2_save ops salt it len (pre, c) = (pre', c')"
  shows "pre' = pre \<and> saved c' \<and> usable c' \<and> pbkdf2_LoadKey lib ops pw pre (reload c') =
    key_result (pbkdf2_Key lib (string_bytes pw) salt it len)"
  using assms
  by (auto simp: pbkdf2_save_def pbkdf2_LoadKey_def pbkdf2_configGroupForLoad_def Let_def read_salt_saved
      group_read int_or_saved [where k = "''iterations''" and n = it] int_or_saved [where n = len])

lemma scrypt_save_load:
  assumes "usable c" "\<bar>N\<bar> \<le> 2 ^ 53" "\<bar>r\<bar> \<le> 2 ^ 53" "\<bar>p\<bar> \<le> 2 ^ 53" "\<bar>len\<bar> \<le> 2 ^ 53"
    and "scrypt_save ops salt N r p len (pre, c) = (pre', c')"
  shows "pre' = pre \<and> saved c' \<and> usable c' \<and> scrypt_LoadKey lib ops pw pre (reload c') =
    key_result (scrypt_Key lib (string_bytes pw) salt N r p len)"
  using assms
  by (auto simp: scrypt_save_def scrypt_LoadKey_def Let_def read_salt_saved
      int_or_saved [where k = "''n''" and n = N] int_or_saved [where k = "''r''" and n = r]
      int_or_saved [where k = "''p''" and n = p] int_or_saved [where n = len])

text \<open>The four derivers: a key that was made can be loaded.\<close>

lemma argon2_NewKey_LoadKey:
  assumes "usable c" "argon2_NewKey lib rnd ops (Some p) (Some (pre, c)) = (cfg', Inr key)"
    and "\<bar>KeyLength p\<bar> \<le> 2 ^ 53" "small_ints ops c"
  shows "\<exists>c'. cfg' = Some (pre, c') \<and> saved c' \<and> usable c' \<and> argon2_LoadKey lib ops (Password p) pre (reload c') = Inr key"
proof -
  obtain salt time memory threads len where
    par: "argon2_params rnd ops p (Some (pre, c)) (if KeyLength p = 0 then 32 else KeyLength p) =
        Inr (salt, time, memory, threads, len)"
    and key: "argon2_IDKey lib (PasswordBytes p) salt time memory threads (word_of_int len) = Some key"
    and cfg: "cfg' = Some (argon2_save ops salt time memory threads len (pre, c))"
    using assms(2) by (auto simp: argon2_NewKey_def split: sum.splits dest!: checked_params_Some)
  have "\<bar>len\<bar> \<le> 2 ^ 53"
    using par assms(3,4)
    by (auto simp: argon2_params_def stored_int_Inr Let_def split: if_splits option.splits sum.splits prod.splits
        dest: small_intsD)
  with argon2_save_load [OF assms(1)] key cfg show ?thesis
    by (cases "argon2_save ops salt time memory threads len (pre, c)") (auto simp: PasswordBytes_def)
qed

lemma hkdf_NewKey_LoadKey:
  assumes "usable c" "hkdf_NewKey lib rnd ops (Some p) (Some (pre, c)) = (cfg', Inr key)" "\<bar>KeyLength p\<bar> \<le> 2 ^ 53"
  shows "\<exists>c'. cfg' = Some (pre, c') \<and> saved c' \<and> usable c' \<and> hkdf_LoadKey lib ops (Password p) pre (reload c') = Inr key"
proof -
  define len where "len = (if KeyLength p = 0 then 32 else KeyLength p)"
  then have len: "\<bar>len\<bar> \<le> 2 ^ 53" "checked_params (Some p) = Inr (q, n) \<Longrightarrow> q = p \<and> n = len" for q n
    using assms(3) by (auto dest!: checked_params_Some)
  then obtain salt where
    "hkdf_New_Read lib (PasswordBytes p) salt len = Some key"
    "cfg' = Some (hkdf_save ops salt len (pre, c))"
    using assms(2) by (auto simp: hkdf_NewKey_def split: sum.splits option.splits)
  with hkdf_save_load [OF assms(1) len(1)] show ?thesis
    by (cases "hkdf_save ops salt len (pre, c)") (auto simp: PasswordBytes_def)
qed

lemma pbkdf2_NewKey_LoadKey:
  assumes "usable c" "pbkdf2_NewKey lib rnd ops (Some p) (Some (pre, c)) = (cfg', Inr key)"
    and "\<bar>KeyLength p\<bar> \<le> 2 ^ 53" "small_ints ops c"
  shows "\<exists>c'. cfg' = Some (pre, c') \<and> saved c' \<and> usable c' \<and> pbkdf2_LoadKey lib ops (Password p) pre (reload c') = Inr key"
proof -
  obtain salt it len where
    par: "pbkdf2_params rnd ops p (Some (pre, c)) (if KeyLength p = 0 then 32 else KeyLength p) = Inr (salt, it, len)"
    and key: "pbkdf2_Key lib (PasswordBytes p) salt it len = Some key"
    and cfg: "cfg' = Some (pbkdf2_save ops salt it len (pre, c))"
    using assms(2) by (auto simp: pbkdf2_NewKey_def split: sum.splits dest!: checked_params_Some)
  have "\<bar>it\<bar> \<le> 2 ^ 53" "\<bar>len\<bar> \<le> 2 ^ 53"
    using par assms(3,4)
    by (auto simp: pbkdf2_params_def stored_int_Inr Let_def split: if_splits option.splits sum.splits
        dest: small_intsD)
  with pbkdf2_save_load [OF assms(1)] key cfg show ?thesis
    by (cases "pbkdf2_save ops salt it len (pre, c)") (auto simp: PasswordBytes_def)
qed

lemma scrypt_NewKey_LoadKey:
  assumes "usable c" "scrypt_NewKey lib rnd ops (Some p) (Some (pre, c)) = (cfg', Inr key)"
    and "\<bar>KeyLength p\<bar> \<le> 2 ^ 53" "small_ints ops c"
  shows "\<exists>c'. cfg' = Some (pre, c') \<and> saved c' \<and> usable c' \<and> scrypt_LoadKey lib ops (Password p) pre (reload c') = Inr key"
proof -
  obtain salt N r q len where
    par: "scrypt_params rnd ops p (Some (pre, c)) (if KeyLength p = 0 then 32 else KeyLength p) =
        Inr (salt, N, r, q, len)"
    and key: "scrypt_Key lib (PasswordBytes p) salt N r q len = Some key"
    and cfg: "cfg' = Some (scrypt_save ops salt N r q len (pre, c))"
    using assms(2) by (auto simp: scrypt_NewKey_def split: sum.splits dest!: checked_params_Some)
  have "\<bar>N\<bar> \<le> 2 ^ 53" "\<bar>r\<bar> \<le> 2 ^ 53" "\<bar>q\<bar> \<le> 2 ^ 53" "\<bar>len\<bar> \<le> 2 ^ 53"
    using par assms(3,4)
    by (auto simp: scrypt_params_def scrypt_cost_def stored_int_Inr Let_def split: if_splits option.splits sum.splits
        dest: small_intsD)
  with scrypt_save_load [OF assms(1)] key cfg show ?thesis
    by (cases "scrypt_save ops salt N r q len (pre, c)") (auto simp: PasswordBytes_def)
qed

lemma NewKey_LoadKey:
  assumes "usable c" "NewKey lib rnd ops dv (Some p) (Some (pre, c)) = (cfg', Inr key)"
    and "\<bar>KeyLength p\<bar> \<le> 2 ^ 53" "small_ints ops c"
  shows "\<exists>c'. cfg' = Some (pre, c') \<and> saved c' \<and> usable c' \<and> LoadKey lib ops dv (Password p) pre (reload c') = Inr key"
  using assms argon2_NewKey_LoadKey hkdf_NewKey_LoadKey pbkdf2_NewKey_LoadKey scrypt_NewKey_LoadKey
  by (cases dv) simp_all

text \<open>A deriver writes to its own group only.\<close>

lemma NewKey_other:
  assumes "NewKey lib rnd ops dv params (Some (pre, c)) = (Some (pre', c'), r)"
    and "\<And>g k. g \<in> {''argon2'', ''hkdf'', ''pbkdf2'', ''scrypt''} \<Longrightarrow> key \<noteq> WithGroup pre g @ k"
  shows "str_of c' key = str_of c key \<and> int_of c' key = int_of c key"
  using assms
  by (cases dv)
    (auto simp: argon2_NewKey_def hkdf_NewKey_def pbkdf2_NewKey_def scrypt_NewKey_def argon2_save_def hkdf_save_def
      pbkdf2_save_def scrypt_save_def Let_def split: sum.splits option.splits prod.splits)

end

text \<open>C28. A key that a deriver makes for a password can be loaded again from the configuration file,
  after the file has been closed and opened, for each of the four derivers and whatever their
  derivation functions compute.\<close>
theorem NewKey_LoadKey_reopened:
  assumes "cwritable f" "NewKey lib rnd file_ops dv (Some p) (Some (pre, f)) = (cfg', Inr key)"
    and "\<bar>KeyLength p\<bar> \<le> 2 ^ 53" "small_ints file_ops f"
  shows "\<exists>f' g. cfg' = Some (pre, f') \<and> NewFileConfig (cfile f') True = Inr g \<and>
    LoadKey lib file_ops dv (Password p) pre g = Inr key"
proof -
  from file_store.NewKey_LoadKey [OF assms]
  obtain f' where f': "cfg' = Some (pre, f')" "file_saved f'"
      "LoadKey lib file_ops dv (Password p) pre (reopen f') = Inr key" by blast
  then have "cwritable f'" by (simp add: file_saved_def)
  with reopen_saved(1) [OF f'(2)] f' show ?thesis by auto
qed

definition sample_lib :: kdf_lib where
  "sample_lib = \<lparr>argon2_IDKey = \<lambda>pw salt t m th n. Some (pw @ salt),
     hkdf_New_Read = \<lambda>pw salt n. Some (take (nat n) (pw @ salt)),
     pbkdf2_Key = \<lambda>pw salt it n. Some (take (nat n) (pw @ salt)),
     scrypt_Key = \<lambda>pw salt N r p n. Some (take (nat n) (pw @ salt))\<rparr>"

definition sample_params :: MakeKeyParams where
  "sample_params = \<lparr>Password = ''pw'', KeyStrengthMs = 200, StaticSalt = False, KeyLength = 32,
     ReuseStoredParameters = False\<rparr>"

definition sample_key :: bytes where
  "sample_key = take 32 (string_bytes ''pw'' @ replicate 32 7)"

lemma small_ints_empty [simp]: "small_ints file_ops empty_config"
  by (simp add: small_ints_def file_ops_def empty_config_def FileConfig_GetInt_def found_def)

lemma NewKey_LoadKey_reopened_witness:
  "\<exists>f' g. fst (NewKey sample_lib (\<lambda>n. Some (replicate n 7)) file_ops PBKDF2 (Some sample_params)
      (Some ([], empty_config))) = Some ([], f') \<and> NewFileConfig (cfile f') True = Inr g \<and>
    LoadKey sample_lib file_ops PBKDF2 (Password sample_params) [] g = Inr sample_key"
  by (rule NewKey_LoadKey_reopened [where rnd = "\<lambda>n. Some (replicate n 7)" and f = empty_config])
    (simp_all add: empty_config_def sample_params_def sample_lib_def sample_key_def pbkdf2_NewKey_def
      checked_params_def pbkdf2_params_def key_result_def PasswordBytes_def
      small_ints_def file_ops_def FileConfig_GetInt_def found_def)

subsection \<open>Reusing stored parameters\<close>

primrec cost_group :: "deriver \<Rightarrow> string" where
  "cost_group Argon2id = ''argon2''"
| "cost_group HKDF_SHA_256 = ''hkdf''"
| "cost_group PBKDF2 = ''pbkdf2''"
| "cost_group Scrypt = ''scrypt''"

primrec cost_keys :: "deriver \<Rightarrow> string list" where
  "cost_keys Argon2id = [''time'', ''memory'', ''threads'', ''key_length'']"
| "cost_keys HKDF_SHA_256 = [''key_length'']"
| "cost_keys PBKDF2 = [''iterations'', ''key_length'']"
| "cost_keys Scrypt = [''n'', ''r'', ''p'', ''key_length'']"

definition stored_cost :: "'c config_ops \<Rightarrow> deriver \<Rightarrow> string \<Rightarrow> 'c \<Rightarrow> (cfg_error + int) list" where
  "stored_cost ops dv pre c = map (group_GetInt ops (WithGroup pre (cost_group dv)) c) (cost_keys dv)"

lemma stored_int_error:
  "group_GetInt ops g c key = Inl e \<Longrightarrow> stored_int ops g c key ok = Inl (ErrStoredParameter key)"
  by (simp add: stored_int_def)

lemma NewKey_fails_closed:
  assumes "dv \<noteq> HKDF_SHA_256" "ReuseStoredParameters p" "\<not> StaticSalt p"
    and "Inl e \<in> set (stored_cost ops dv pre c)"
  shows "\<exists>err. NewKey lib rnd ops dv (Some p) (Some (pre, c)) = (Some (pre, c), Inl err)"
  using assms
  by (cases dv)
    (auto simp: stored_cost_def argon2_NewKey_def pbkdf2_NewKey_def scrypt_NewKey_def argon2_params_def
      pbkdf2_params_def scrypt_params_def checked_params_def stored_int_error Let_def
      split: sum.splits option.splits if_splits dest!: sym [of "Inl e"])

text \<open>A change of the password that is to reuse the stored parameters fails when one of them is
  missing, and then leaves the store as it was (Argon2id, PBKDF2, scrypt).\<close>
theorem NewKey_reuse_fails_closed:
  assumes "dv \<noteq> HKDF_SHA_256" "ReuseStoredParameters p" "\<not> StaticSalt p"
    and "Inl e \<in> set (stored_cost ops dv pre c)"
  shows "\<exists>err. NewKey lib rnd ops dv (Some p) (Some (pre, c)) = (Some (pre, c), Inl err)"
  using assms by (rule NewKey_fails_closed)

lemma NewKey_reuse_fails_closed_witness:
  "\<exists>err. NewKey sample_lib (\<lambda>n. Some (replicate n 7)) file_ops Scrypt
     (Some (sample_params\<lparr>ReuseStoredParameters := True\<rparr>)) (Some ([], empty_config)) =
     (Some ([], empty_config), Inl err)"
  by (rule NewKey_reuse_fails_closed [where e = "ErrKeyNotFound ''scrypt_n''"])
    (simp_all add: sample_params_def stored_cost_def group_GetInt_def PrefixedConfig_Get_def file_ops_def
      FileConfig_GetInt_def found_def empty_config_def WithGroup_def)

context shared_config
begin

text \<open>The cost that a store holds after saving.\<close>

lemma argon2_saved_cost:
  assumes "usable c" "\<bar>len\<bar> \<le> 2 ^ 53" "argon2_save ops salt time memory threads len (pre, c) = (pre', c')"
  shows "stored_cost ops Argon2id pre (reload c') = map Inr [uint time, uint memory, uint threads, len]"
  using assms by (auto simp: argon2_save_def stored_cost_def Let_def intro!: group_read)

lemma pbkdf2_saved_cost:
  assumes "usable c" "\<bar>it\<bar> \<le> 2 ^ 53" "\<bar>len\<bar> \<le> 2 ^ 53" "pbkdf2_save ops salt it len (pre, c) = (pre', c')"
  shows "stored_cost ops PBKDF2 pre (reload c') = map Inr [it, len]"
  using assms by (auto simp: pbkdf2_save_def stored_cost_def Let_def intro!: group_read)

lemma scrypt_saved_cost:
  assumes "usable c" "\<bar>N\<bar> \<le> 2 ^ 53" "\<bar>r\<bar> \<le> 2 ^ 53" "\<bar>p\<bar> \<le> 2 ^ 53" "\<bar>len\<bar> \<le> 2 ^ 53"
    and "scrypt_save ops salt N r p len (pre, c) = (pre', c')"
  shows "stored_cost ops Scrypt pre (reload c') = map Inr [N, r, p, len]"
  using assms by (auto simp: scrypt_save_def stored_cost_def Let_def intro!: group_read)

lemmas reuse_simps = stored_int_Inr stored_cost_def group_GetInt_def PrefixedConfig_Get_def Let_def

lemma argon2_reuse:
  assumes "usable c" "small_ints ops c" "ReuseStoredParameters p" "\<not> StaticSalt p"
    and "argon2_NewKey lib rnd ops (Some p) (Some (pre, c)) = (Some (pre', c'), Inr key)"
    and "\<forall>n. Inr n \<in> set (stored_cost ops Argon2id pre c) \<longrightarrow> n < 2 ^ 32"
  shows "stored_cost ops Argon2id pre (reload c') = stored_cost ops Argon2id pre c"
proof -
  obtain salt time memory threads len where
    cost: "stored_cost ops Argon2id pre c = map Inr [time, memory, threads, len]"
    and pos: "0 < time" "0 < memory" "0 < threads" "threads \<le> 255" "0 < len"
    and save: "argon2_save ops salt (word_of_int time) (word_of_int memory) (word_of_int threads) len (pre, c) = (pre', c')"
    using assms(3-5)
    by (auto simp: argon2_NewKey_def argon2_params_def reuse_simps
        split: sum.splits option.splits if_splits dest!: checked_params_Some)
  have "time < 2 ^ 32" "memory < 2 ^ 32"
    using assms(6) cost by auto
  then have "uint (word_of_int time :: 32 word) = time" "uint (word_of_int memory :: 32 word) = memory"
      "uint (word_of_int threads :: 8 word) = threads"
    using pos by (simp_all add: uint_word_of_int)
  moreover have "\<bar>len\<bar> \<le> 2 ^ 53"
    using cost small_intsD [OF assms(2)] pos(5) by (auto simp: reuse_simps)
  ultimately show ?thesis
    using argon2_saved_cost [OF assms(1) _ save] cost by simp
qed

lemma pbkdf2_reuse:
  assumes "usable c" "small_ints ops c" "ReuseStoredParameters p" "\<not> StaticSalt p"
    and "pbkdf2_NewKey lib rnd ops (Some p) (Some (pre, c)) = (Some (pre', c'), Inr key)"
  shows "stored_cost ops PBKDF2 pre (reload c') = stored_cost ops PBKDF2 pre c"
proof -
  obtain salt it len where
    cost: "stored_cost ops PBKDF2 pre c = map Inr [it, len]" and pos: "0 < it" "0 < len"
    and save: "pbkdf2_save ops salt it len (pre, c) = (pre', c')"
    using assms(3-5)
    by (auto simp: pbkdf2_NewKey_def pbkdf2_params_def reuse_simps
        split: sum.splits option.splits if_splits dest!: checked_params_Some)
  have "\<bar>it\<bar> \<le> 2 ^ 53" "\<bar>len\<bar> \<le> 2 ^ 53"
    using cost small_intsD [OF assms(2)] pos by (auto simp: reuse_simps)
  with pbkdf2_saved_cost [OF assms(1) _ _ save] cost show ?thesis by simp
qed

lemma scrypt_reuse:
  assumes "usable c" "small_ints ops c" "ReuseStoredParameters p" "\<not> StaticSalt p"
    and "scrypt_NewKey lib rnd ops (Some p) (Some (pre, c)) = (Some (pre', c'), Inr key)"
  shows "stored_cost ops Scrypt pre (reload c') = stored_cost ops Scrypt pre c"
proof -
  obtain salt N r q len where
    cost: "stored_cost ops Scrypt pre c = map Inr [N, r, q, len]" and pos: "1 < N" "0 < r" "0 < q" "0 < len"
    and save: "scrypt_save ops salt N r q len (pre, c) = (pre', c')"
    using assms(3-5)
    by (auto simp: scrypt_NewKey_def scrypt_params_def reuse_simps
        split: sum.splits option.splits if_splits dest!: checked_params_Some)
  have "\<bar>N\<bar> \<le> 2 ^ 53" "\<bar>r\<bar> \<le> 2 ^ 53" "\<bar>q\<bar> \<le> 2 ^ 53" "\<bar>len\<bar> \<le> 2 ^ 53"
    using cost small_intsD [OF assms(2)] pos by (auto simp: reuse_simps)
  with scrypt_saved_cost [OF assms(1) _ _ _ _ save] cost show ?thesis by simp
qed

lemma reuse_keeps_cost:
  assumes "usable c" "small_ints ops c" "dv \<noteq> HKDF_SHA_256" "ReuseStoredParameters p" "\<not> StaticSalt p"
    and "NewKey lib rnd ops dv (Some p) (Some (pre, c)) = (Some (pre', c'), Inr key)"
    and "dv = Argon2id \<Longrightarrow> \<forall>n. Inr n \<in> set (stored_cost ops dv pre c) \<longrightarrow> n < 2 ^ 32"
  shows "stored_cost ops dv pre (reload c') = stored_cost ops dv pre c"
  using assms argon2_reuse pbkdf2_reuse scrypt_reuse by (cases dv) simp_all

end

text \<open>A change of the password that reuses the stored parameters keeps the cost of the derivation
  (for Argon2id, whose parameters pass through 32-bit integers, when the stored ones fit).\<close>
theorem NewKey_reuse_keeps_cost:
  assumes "cwritable f" "small_ints file_ops f" "dv \<noteq> HKDF_SHA_256"
    and "ReuseStoredParameters p" "\<not> StaticSalt p"
    and "NewKey lib rnd file_ops dv (Some p) (Some (pre, f)) = (Some (pre', f'), Inr key)"
    and "dv = Argon2id \<Longrightarrow> \<forall>n. Inr n \<in> set (stored_cost file_ops dv pre f) \<longrightarrow> n < 2 ^ 32"
  shows "stored_cost file_ops dv pre (reopen f') = stored_cost file_ops dv pre f"
  using assms by (rule file_store.reuse_keeps_cost)

definition stored_scrypt :: FileConfig where
  "stored_scrypt = empty_config\<lparr>intMap := [''scrypt_n'' \<mapsto> 32768, ''scrypt_r'' \<mapsto> 8, ''scrypt_p'' \<mapsto> 1,
     ''scrypt_key_length'' \<mapsto> 32], strMap := [''scrypt_salt'' \<mapsto> ''0102'']\<rparr>"

definition reuse_params :: MakeKeyParams where
  "reuse_params = sample_params\<lparr>ReuseStoredParameters := True\<rparr>"

lemma stored_scrypt_NewKey:
  "NewKey sample_lib (\<lambda>n. Some (replicate n 7)) file_ops Scrypt (Some reuse_params) (Some ([], stored_scrypt)) =
    (Some ([], snd (scrypt_save file_ops (replicate 16 7) 32768 8 1 32 ([], stored_scrypt))),
     Inr (take 32 (string_bytes ''pw'' @ replicate 16 7)))"
proof -
  have "stored_int file_ops ''scrypt_'' stored_scrypt ''n'' ok = (if ok 32768 then Inr 32768 else Inl (ErrStoredParameter ''n''))"
    "stored_int file_ops ''scrypt_'' stored_scrypt ''r'' ok = (if ok 8 then Inr 8 else Inl (ErrStoredParameter ''r''))"
    "stored_int file_ops ''scrypt_'' stored_scrypt ''p'' ok = (if ok 1 then Inr 1 else Inl (ErrStoredParameter ''p''))"
    "stored_int file_ops ''scrypt_'' stored_scrypt ''key_length'' ok =
      (if ok 32 then Inr 32 else Inl (ErrStoredParameter ''key_length''))" for ok
    by (simp_all add: stored_int_def stored_scrypt_def group_GetInt_def PrefixedConfig_Get_def file_ops_def
        FileConfig_GetInt_def found_def)
  moreover have "(32768 :: int) AND 32767 = 0" by code_simp
  moreover have "fst (scrypt_save file_ops (replicate 16 7) 32768 8 1 32 ([], stored_scrypt)) = []"
    by (simp add: scrypt_save_def Let_def)
  ultimately show ?thesis
    by (simp add: reuse_params_def sample_params_def sample_lib_def scrypt_NewKey_def scrypt_params_def
        checked_params_def key_result_def PasswordBytes_def WithGroup_def prod_eq_iff)
qed

lemma NewKey_reuse_keeps_cost_witness:
  "stored_cost file_ops Scrypt []
      (reopen (snd (scrypt_save file_ops (replicate 16 7) 32768 8 1 32 ([], stored_scrypt)))) =
    stored_cost file_ops Scrypt [] stored_scrypt"
proof (rule NewKey_reuse_keeps_cost [OF _ _ _ _ _ stored_scrypt_NewKey])
  show "cwritable stored_scrypt"
    by (simp add: stored_scrypt_def empty_config_def)
  show "small_ints file_ops stored_scrypt"
    by (auto simp: small_ints_def stored_scrypt_def file_ops_def FileConfig_GetInt_def found_def
        split: option.splits if_splits)
qed (simp_all add: reuse_params_def sample_params_def)

lemma argon2_memory_wraps:
  assumes "0 < ms"
  shows "unat (snd (argon2_cost ms)) = min 262144 (nat ((65536 + ms * 64) mod 2 ^ 32))"
proof -
  let ?w = "word_of_int (65536 + ms * 64) :: 32 word"
  have "unat (word_of_int x :: 32 word) = nat (x mod 2 ^ 32)" for x
    by (simp add: unat_eq_nat_uint uint_word_of_int)
  then have u: "unat ?w = nat ((65536 + ms * 64) mod 2 ^ 32)" .
  have "262144 < ?w \<longleftrightarrow> 262144 < unat ?w" by (simp add: word_less_nat_alt)
  with assms u show ?thesis by (auto simp: argon2_cost_def Let_def min_def not_less)
qed

text \<open>C32. The memory of Argon2id for a target time is computed in 32 bits. Any time gives one to ten
  passes and at most 256 MB. Times of up to 2^25 milliseconds give at least 64 MB, as times do that are
  not positive; beyond, 64 KB for each millisecond are added up modulo 2^32 before the cap, so
  that the memory starts again from 0 at 67107840 milliseconds.\<close>
theorem argon2_cost_bounds:
  assumes "argon2_cost ms = (t, m)"
  shows "1 \<le> t \<and> t \<le> 10 \<and> m \<le> 256 * 1024 \<and> (ms \<le> 2 ^ 25 \<longrightarrow> 64 * 1024 \<le> m) \<and>
    (0 < ms \<longrightarrow> unat m = min 262144 (nat ((65536 + ms * 64) mod 2 ^ 32))) \<and>
    snd (argon2_cost 67107840) = 0"
proof -
  have "64 * 1024 \<le> m" if "ms \<le> 2 ^ 25"
  proof (cases "0 < ms")
    case True
    define x where "x = 64 * 1024 + ms * 64"
    have x: "64 * 1024 \<le> x" "x < 2 ^ 32" using True that by (simp_all add: x_def)
    then have "64 * 1024 \<le> (word_of_int x :: 32 word)"
      by (simp add: word_le_def uint_word_of_int)
    with True assms show ?thesis
      unfolding argon2_cost_def x_def [symmetric] by (auto simp: Let_def)
  qed (use assms in \<open>auto simp: argon2_cost_def\<close>)
  moreover have "1 \<le> w" if "w \<noteq> 0" for w :: "32 word"
    using that linorder_not_less [of w 1] by simp
  then have "1 \<le> t \<and> t \<le> 10 \<and> m \<le> 256 * 1024"
    using assms by (auto simp: argon2_cost_def Let_def not_less split: if_splits)
  moreover have "snd (argon2_cost 67107840) = 0"
    by (simp add: argon2_cost_def Let_def)
  ultimately show ?thesis
    using argon2_memory_wraps [of ms] assms by simp
qed

lemma argon2_cost_bounds_witness:
  "1 \<le> fst (argon2_cost 200) \<and> fst (argon2_cost 200) \<le> 10 \<and> snd (argon2_cost 200) \<le> 256 * 1024 \<and>
    64 * 1024 \<le> snd (argon2_cost 200) \<and> snd (argon2_cost 67107840) = 0"
  using argon2_cost_bounds [of 200 "fst (argon2_cost 200)" "snd (argon2_cost 200)"] by simp

end
