(* ===== verification/PasswordRecord.thy ===== *)
theory PasswordRecord
  imports KeyDeriverProps Registry
begin

text \<open>
  Passwords of a root: src/native/sec_fs/password_verifier.go, password_changeable.go and
  \<^verbatim>\<open>getOpenFactories\<close> of sec_root_factory.go. A root stores a verifier (a random challenge and
  its HMAC under the password's key) and, when its password can be changed, its content key
  sealed under the password's key. Changing the password writes a staged copy of the
  configuration file and renames it over the old one. What \<^verbatim>\<open>rand.Read\<close> returns for the salt,
  the challenge and the nonce are three arguments; the outcomes of the operating system (lock,
  temporary file, rename) are the fields of \<open>os_outcome\<close>.
\<close>

datatype pw_error =
  ErrInvalidConfig string | ErrPasswordVerifierMissing | ErrInvalidPassword | ErrPwRandom
  | ErrPwStore string | ErrPwDerivation kdf_error | ErrPasswordChangeUnsupported | ErrPwPath
  | ErrPwLock | ErrPwOs string

subsection \<open>The verifier\<close>

definition passwordVerifierVersionKey :: string where
  "passwordVerifierVersionKey = ''sec_password_verifier_version''"

definition passwordVerifierChallengeKey :: string where
  "passwordVerifierChallengeKey = ''sec_password_verifier_challenge''"

definition passwordVerifierTagKey :: string where
  "passwordVerifierTagKey = ''sec_password_verifier_tag''"

definition passwordVerifierDomain :: bytes where
  "passwordVerifierDomain = string_bytes ''safe-disk/password-verifier/v1'' @ [0]"

definition calculatePasswordVerifierTag :: "bytes \<Rightarrow> bytes \<Rightarrow> bytes" where
  "calculatePasswordVerifierTag key challenge = hmac_sha256 key (passwordVerifierDomain @ challenge)"

definition writePasswordVerifier ::
  "rand \<Rightarrow> 'c config_ops \<Rightarrow> 'c option \<Rightarrow> bytes \<Rightarrow> 'c option \<times> pw_error option" where
  "writePasswordVerifier rnd ops cfg key =
    (case cfg of None \<Rightarrow> (cfg, Some (ErrInvalidConfig ''password_verifier''))
     | Some c \<Rightarrow>
       if key = [] then (cfg, Some (ErrInvalidConfig ''password_verifier''))
       else case rnd 32 of None \<Rightarrow> (cfg, Some ErrPwRandom)
       | Some challenge \<Rightarrow>
         let tag = calculatePasswordVerifierTag key challenge in
         (case SetStr ops c passwordVerifierChallengeKey (StdEncode challenge) of
            (c1, Some _) \<Rightarrow> (Some c1, Some (ErrPwStore passwordVerifierChallengeKey))
          | (c1, None) \<Rightarrow>
            (case SetStr ops c1 passwordVerifierTagKey (StdEncode tag) of
               (c2, Some _) \<Rightarrow> (Some c2, Some (ErrPwStore passwordVerifierTagKey))
             | (c2, None) \<Rightarrow>
               (case SetInt ops c2 passwordVerifierVersionKey 1 of
                  (c3, Some _) \<Rightarrow> (Some c3, Some (ErrPwStore passwordVerifierVersionKey))
                | (c3, None) \<Rightarrow> (Some c3, None)))))"

definition readPasswordVerifierBytes :: "'c config_ops \<Rightarrow> 'c \<Rightarrow> string \<Rightarrow> nat \<Rightarrow> pw_error + bytes" where
  "readPasswordVerifierBytes ops c key requiredLen =
    (case GetStr ops c key of Inl _ \<Rightarrow> Inl (ErrInvalidConfig key)
     | Inr encoded \<Rightarrow>
       (case StdDecode encoded of None \<Rightarrow> Inl (ErrInvalidConfig key)
        | Some decoded \<Rightarrow>
          if length decoded \<noteq> requiredLen then Inl (ErrInvalidConfig key) else Inr decoded))"

definition verifyPassword :: "'c config_ops \<Rightarrow> 'c option \<Rightarrow> bytes \<Rightarrow> pw_error option" where
  "verifyPassword ops cfg key =
    (case cfg of None \<Rightarrow> Some (ErrInvalidConfig ''password_verifier'')
     | Some c \<Rightarrow>
       if key = [] then Some (ErrInvalidConfig ''password_verifier'')
       else case GetInt ops c passwordVerifierVersionKey of Inl _ \<Rightarrow> Some ErrPasswordVerifierMissing
       | Inr version \<Rightarrow>
         if version \<noteq> 1 then Some (ErrInvalidConfig passwordVerifierVersionKey)
         else case readPasswordVerifierBytes ops c passwordVerifierChallengeKey 32 of Inl e \<Rightarrow> Some e
         | Inr challenge \<Rightarrow>
           (case readPasswordVerifierBytes ops c passwordVerifierTagKey 32 of Inl e \<Rightarrow> Some e
            | Inr storedTag \<Rightarrow>
              if storedTag \<noteq> calculatePasswordVerifierTag key challenge then Some ErrInvalidPassword else None))"

subsection \<open>The key envelope\<close>

definition rootKeyEnvelopeVersionKey :: string where
  "rootKeyEnvelopeVersionKey = ''sec_key_envelope_version''"

definition rootKeyEnvelopeNonceKey :: string where
  "rootKeyEnvelopeNonceKey = ''sec_key_envelope_nonce''"

definition rootKeyEnvelopeCiphertextKey :: string where
  "rootKeyEnvelopeCiphertextKey = ''sec_key_envelope_ciphertext''"

definition rootKeyEnvelopeDomain :: bytes where
  "rootKeyEnvelopeDomain = string_bytes ''safe-disk/root-key-envelope/v1''"

text \<open>The cipher is its AES-256 key.\<close>

definition newRootKeyEnvelopeCipher :: "bytes \<Rightarrow> pw_error + bytes" where
  "newRootKeyEnvelopeCipher key =
    (if length key < 32 then Inl (ErrInvalidConfig ''key_derivation'') else Inr (take 32 key))"

definition writeRootKeyEnvelope ::
  "rand \<Rightarrow> 'c config_ops \<Rightarrow> 'c \<Rightarrow> bytes \<Rightarrow> bytes \<Rightarrow> 'c \<times> pw_error option" where
  "writeRootKeyEnvelope rnd ops c wrappingKey contentKey =
    (if contentKey = [] then (c, Some (ErrInvalidConfig rootKeyEnvelopeCiphertextKey))
     else case newRootKeyEnvelopeCipher wrappingKey of Inl e \<Rightarrow> (c, Some e)
     | Inr gcm \<Rightarrow>
       (case rnd 12 of None \<Rightarrow> (c, Some ErrPwRandom)
        | Some nonce \<Rightarrow>
          let ciphertext = gcm_Seal gcm [] nonce contentKey rootKeyEnvelopeDomain in
          (case SetStr ops c rootKeyEnvelopeNonceKey (RawStdEncode nonce) of
             (c1, Some _) \<Rightarrow> (c1, Some (ErrPwStore rootKeyEnvelopeNonceKey))
           | (c1, None) \<Rightarrow>
             (case SetStr ops c1 rootKeyEnvelopeCiphertextKey (RawStdEncode ciphertext) of
                (c2, Some _) \<Rightarrow> (c2, Some (ErrPwStore rootKeyEnvelopeCiphertextKey))
              | (c2, None) \<Rightarrow>
                (case SetInt ops c2 rootKeyEnvelopeVersionKey 1 of
                   (c3, Some _) \<Rightarrow> (c3, Some (ErrPwStore rootKeyEnvelopeVersionKey))
                 | (c3, None) \<Rightarrow> (c3, None))))))"

definition readRootKeyEnvelopeValue :: "'c config_ops \<Rightarrow> 'c \<Rightarrow> string \<Rightarrow> pw_error + bytes" where
  "readRootKeyEnvelopeValue ops c key =
    (case GetStr ops c key of Inl _ \<Rightarrow> Inl (ErrInvalidConfig key)
     | Inr encoded \<Rightarrow>
       (case RawStdDecode encoded of None \<Rightarrow> Inl (ErrInvalidConfig key)
        | Some v \<Rightarrow> if v = [] then Inl (ErrInvalidConfig key) else Inr v))"

definition unwrapRootKey :: "'c config_ops \<Rightarrow> 'c \<Rightarrow> bytes \<Rightarrow> pw_error + bytes" where
  "unwrapRootKey ops c wrappingKey =
    (case newRootKeyEnvelopeCipher wrappingKey of Inl e \<Rightarrow> Inl e
     | Inr gcm \<Rightarrow>
       (case readRootKeyEnvelopeValue ops c rootKeyEnvelopeNonceKey of Inl e \<Rightarrow> Inl e
        | Inr nonce \<Rightarrow>
          if length nonce \<noteq> 12 then Inl (ErrInvalidConfig rootKeyEnvelopeNonceKey)
          else case readRootKeyEnvelopeValue ops c rootKeyEnvelopeCiphertextKey of Inl e \<Rightarrow> Inl e
          | Inr ciphertext \<Rightarrow>
            (case gcm_Open gcm nonce ciphertext rootKeyEnvelopeDomain of None \<Rightarrow> Inl ErrInvalidPassword
             | Some plaintext \<Rightarrow>
               if length plaintext < 32 then Inl (ErrInvalidConfig rootKeyEnvelopeCiphertextKey)
               else Inr plaintext)))"

text \<open>\<open>None\<close>: the root has no envelope.\<close>

definition rootKeyEnvelopeVersion :: "'c config_ops \<Rightarrow> 'c \<Rightarrow> pw_error + int option" where
  "rootKeyEnvelopeVersion ops c =
    (case GetInt ops c rootKeyEnvelopeVersionKey of Inr version \<Rightarrow> Inr (Some version)
     | Inl _ \<Rightarrow>
       (case GetStr ops c rootKeyEnvelopeVersionKey of Inr _ \<Rightarrow> Inl (ErrInvalidConfig rootKeyEnvelopeVersionKey)
        | Inl _ \<Rightarrow>
          (case GetBool ops c rootKeyEnvelopeVersionKey of Inr _ \<Rightarrow> Inl (ErrInvalidConfig rootKeyEnvelopeVersionKey)
           | Inl _ \<Rightarrow> Inr None)))"

subsection \<open>Opening\<close>

definition loadPasswordWrappingKey :: "kdf_lib \<Rightarrow> 'c config_ops \<Rightarrow> deriver \<Rightarrow> string \<Rightarrow> 'c \<Rightarrow> pw_error + bytes" where
  "loadPasswordWrappingKey lib ops dv password c =
    (case LoadKey lib ops dv password [] c of Inl e \<Rightarrow> Inl (ErrPwDerivation e) | Inr key \<Rightarrow> Inr key)"

definition loadRootKeyForOpen :: "kdf_lib \<Rightarrow> 'c config_ops \<Rightarrow> deriver \<Rightarrow> string \<Rightarrow> 'c \<Rightarrow> pw_error + bytes" where
  "loadRootKeyForOpen lib ops dv password c =
    (case loadPasswordWrappingKey lib ops dv password c of Inl e \<Rightarrow> Inl e
     | Inr wrappingKey \<Rightarrow>
       (case rootKeyEnvelopeVersion ops c of Inl e \<Rightarrow> Inl e
        | Inr None \<Rightarrow>
          (case verifyPassword ops (Some c) wrappingKey of Some e \<Rightarrow> Inl e | None \<Rightarrow> Inr wrappingKey)
        | Inr (Some version) \<Rightarrow>
          if version \<noteq> 1 then Inl (ErrInvalidConfig rootKeyEnvelopeVersionKey)
          else case verifyPassword ops (Some c) wrappingKey of Some e \<Rightarrow> Inl e
          | None \<Rightarrow> unwrapRootKey ops c wrappingKey))"

text \<open>The three registries.\<close>

record ('d, 'n) factories =
  data_factories :: "(string, 'd) registry"
  name_factories :: "(string, 'n) registry"
  deriver_factories :: "(string, deriver) registry"

definition factory_of :: "(string \<Rightarrow> 'v option) \<Rightarrow> 'c config_ops \<Rightarrow> 'c \<Rightarrow> string \<Rightarrow> pw_error + 'v" where
  "factory_of lookup ops c key =
    (case GetStr ops c key of Inl _ \<Rightarrow> Inl (ErrInvalidConfig key)
     | Inr name \<Rightarrow>
       if name = [] then Inl (ErrInvalidConfig key)
       else case lookup name of None \<Rightarrow> Inl (ErrInvalidConfig key) | Some v \<Rightarrow> Inr v)"

definition getOpenFactories :: "('d, 'n) factories \<Rightarrow> 'c config_ops \<Rightarrow> 'c \<Rightarrow> pw_error + 'd \<times> 'n \<times> deriver" where
  "getOpenFactories regs ops c =
    (case factory_of (GetFactory (data_factories regs)) ops c ''sec_fs_factory'' of Inl e \<Rightarrow> Inl e
     | Inr d \<Rightarrow>
       (case factory_of (GetNameFactory (name_factories regs)) ops c ''sec_name_factory'' of Inl e \<Rightarrow> Inl e
        | Inr n \<Rightarrow>
          (case factory_of (GetDeriverFactory (deriver_factories regs)) ops c ''sec_deriver_factory'' of Inl e \<Rightarrow> Inl e
           | Inr dv \<Rightarrow> Inr (d, n, dv))))"

subsection \<open>Changing the password\<close>

record os_outcome =
  lock_ok :: bool
  read_ok :: bool            \<comment> \<open>the current file can be read\<close>
  temp_ok :: bool            \<comment> \<open>the temporary file is made\<close>
  chmod_ok :: bool
  temp_write_ok :: bool
  temp_sync_ok :: bool
  temp_close_ok :: bool
  staged_writable :: bool    \<comment> \<open>the staged store can write its file\<close>
  staged_open_ok :: bool
  staged_sync_ok :: bool
  staged_close_ok :: bool
  rename_ok :: bool

text \<open>The staged store has the content of the file; a failed step removes the temporary file.\<close>

definition stageRootConfig :: "os_outcome \<Rightarrow> cfg_file \<Rightarrow> pw_error + FileConfig" where
  "stageRootConfig os file =
    (if \<not> read_ok os \<or> file = NoFile then Inl (ErrPwOs ''read'')
     else if \<not> temp_ok os then Inl (ErrPwOs ''temp'')
     else if \<not> (chmod_ok os \<and> temp_write_ok os \<and> temp_sync_ok os \<and> temp_close_ok os) then Inl (ErrPwOs ''stage'')
     else case NewFileConfig file (staged_writable os) of Inl _ \<Rightarrow> Inl (ErrPwOs ''load'') | Inr staged \<Rightarrow> Inr staged)"

text \<open>The rename replaces the file as a whole; the later synchronisation of the directory has no
  result.\<close>

definition commitStagedRootConfig :: "os_outcome \<Rightarrow> FileConfig \<Rightarrow> cfg_file \<Rightarrow> cfg_file \<times> pw_error option" where
  "commitStagedRootConfig os staged file =
    (if \<not> staged_open_ok os then (file, Some (ErrPwOs ''open''))
     else if \<not> (staged_sync_ok os \<and> staged_close_ok os) then (file, Some (ErrPwOs ''sync''))
     else if \<not> rename_ok os then (file, Some (ErrPwOs ''rename''))
     else (cfile staged, None))"

definition newRandomRootKey :: "rand \<Rightarrow> nat \<Rightarrow> pw_error + bytes" where
  "newRandomRootKey rnd len = (case rnd (max len 32) of None \<Rightarrow> Inl ErrPwRandom | Some key \<Rightarrow> Inr key)"

definition change_params :: "string \<Rightarrow> MakeKeyParams" where
  "change_params newPassword = \<lparr>Password = newPassword, KeyStrengthMs = 0, StaticSalt = False, KeyLength = 32,
     ReuseStoredParameters = True\<rparr>"

text \<open>Deriving the new key and writing the records into the staged store.\<close>

definition rewrap ::
  "kdf_lib \<Rightarrow> rand \<Rightarrow> rand \<Rightarrow> rand \<Rightarrow> 'c config_ops \<Rightarrow> deriver \<Rightarrow> string \<Rightarrow> bytes \<Rightarrow> 'c \<Rightarrow> pw_error + 'c" where
  "rewrap lib rnd_salt rnd_challenge rnd_nonce ops dv newPassword contentKey c =
    (case NewKey lib rnd_salt ops dv (Some (change_params newPassword)) (Some ([], c)) of
       (_, Inl e) \<Rightarrow> Inl (ErrPwDerivation e)
     | (cfg1, Inr newKey) \<Rightarrow>
       (case writePasswordVerifier rnd_challenge ops (map_option snd cfg1) newKey of
          (_, Some e) \<Rightarrow> Inl e
        | (cfg2, None) \<Rightarrow>
          (case writeRootKeyEnvelope rnd_nonce ops (the cfg2) newKey contentKey of
             (_, Some e) \<Rightarrow> Inl e
           | (c3, None) \<Rightarrow> Inr c3)))"

text \<open>The configuration file afterwards, and the error.\<close>

definition ChangeRootPasswordContext ::
  "kdf_lib \<Rightarrow> rand \<Rightarrow> rand \<Rightarrow> rand \<Rightarrow> ('d, 'n) factories \<Rightarrow> os_outcome \<Rightarrow> cfg_file \<Rightarrow> string \<Rightarrow> string \<Rightarrow> string \<Rightarrow>
    cfg_file \<times> pw_error option" where
  "ChangeRootPasswordContext lib rnd_salt rnd_challenge rnd_nonce regs os file rootPath oldPassword newPassword =
    (if rootPath = [] then (file, Some ErrPwPath)
     else if oldPassword = [] \<or> newPassword = [] then (file, Some ErrInvalidPassword)
     else if \<not> lock_ok os then (file, Some ErrPwLock)
     else case NewFileConfig file True of Inl _ \<Rightarrow> (file, Some (ErrPwOs ''config''))
     | Inr cfg \<Rightarrow>
       (case getOpenFactories regs file_ops cfg of Inl e \<Rightarrow> (file, Some e)
        | Inr (_, _, dv) \<Rightarrow>
          (case rootKeyEnvelopeVersion file_ops cfg of Inl e \<Rightarrow> (file, Some e)
           | Inr None \<Rightarrow> (file, Some ErrPasswordChangeUnsupported)
           | Inr (Some version) \<Rightarrow>
             if version \<noteq> 1 then (file, Some (ErrInvalidConfig rootKeyEnvelopeVersionKey))
             else case loadPasswordWrappingKey lib file_ops dv oldPassword cfg of Inl e \<Rightarrow> (file, Some e)
             | Inr oldKey \<Rightarrow>
               (case verifyPassword file_ops (Some cfg) oldKey of Some e \<Rightarrow> (file, Some e)
                | None \<Rightarrow>
                  (case unwrapRootKey file_ops cfg oldKey of Inl e \<Rightarrow> (file, Some e)
                   | Inr contentKey \<Rightarrow>
                     (case stageRootConfig os file of Inl e \<Rightarrow> (file, Some e)
                      | Inr staged \<Rightarrow>
                        (case rewrap lib rnd_salt rnd_challenge rnd_nonce file_ops dv newPassword contentKey staged of
                           Inl e \<Rightarrow> (file, Some e)
                         | Inr staged' \<Rightarrow> commitStagedRootConfig os staged' file)))))))"

end
