(* ===== verification/PasswordProps.thy ===== *)
theory PasswordProps
  imports PasswordRecord "HOL-Library.Sublist"
begin

text \<open>
  Lemmas on the password records, for every store that keeps the contract of a shared
  configuration: a verifier accepts the keys with the tag of the one it was written for, an
  envelope gives its content back, and a store that was rewrapped opens with the new password.
\<close>

lemmas verifier_keys = passwordVerifierVersionKey_def passwordVerifierChallengeKey_def passwordVerifierTagKey_def
lemmas envelope_keys = rootKeyEnvelopeVersionKey_def rootKeyEnvelopeNonceKey_def rootKeyEnvelopeCiphertextKey_def

text \<open>\<^verbatim>\<open>rand.Read\<close> fills the slice it is given.\<close>

definition fills :: "rand \<Rightarrow> bool" where
  "fills rnd \<longleftrightarrow> (\<forall>n bs. rnd n = Some bs \<longrightarrow> length bs = n)"

lemma length_tag [simp]: "length (calculatePasswordVerifierTag key challenge) = 32"
  by (simp add: calculatePasswordVerifierTag_def)

definition record_keys :: "string set" where
  "record_keys = {passwordVerifierVersionKey, passwordVerifierChallengeKey, passwordVerifierTagKey,
     rootKeyEnvelopeVersionKey, rootKeyEnvelopeNonceKey, rootKeyEnvelopeCiphertextKey}"

lemma record_keys_simps [simp]:
  "passwordVerifierVersionKey \<noteq> passwordVerifierChallengeKey" "passwordVerifierVersionKey \<noteq> passwordVerifierTagKey"
  "passwordVerifierChallengeKey \<noteq> passwordVerifierTagKey" "passwordVerifierChallengeKey \<noteq> passwordVerifierVersionKey"
  "passwordVerifierTagKey \<noteq> passwordVerifierVersionKey" "passwordVerifierTagKey \<noteq> passwordVerifierChallengeKey"
  "rootKeyEnvelopeVersionKey \<noteq> rootKeyEnvelopeNonceKey" "rootKeyEnvelopeVersionKey \<noteq> rootKeyEnvelopeCiphertextKey"
  "rootKeyEnvelopeNonceKey \<noteq> rootKeyEnvelopeVersionKey" "rootKeyEnvelopeNonceKey \<noteq> rootKeyEnvelopeCiphertextKey"
  "rootKeyEnvelopeCiphertextKey \<noteq> rootKeyEnvelopeVersionKey" "rootKeyEnvelopeCiphertextKey \<noteq> rootKeyEnvelopeNonceKey"
  by (simp_all add: verifier_keys envelope_keys)

lemma verifier_not_envelope:
  "v \<in> {passwordVerifierVersionKey, passwordVerifierChallengeKey, passwordVerifierTagKey} \<Longrightarrow>
   e \<in> {rootKeyEnvelopeVersionKey, rootKeyEnvelopeNonceKey, rootKeyEnvelopeCiphertextKey} \<Longrightarrow> v \<noteq> e"
  by (auto simp: verifier_keys envelope_keys)

lemma record_keys_sec: "k \<in> record_keys \<Longrightarrow> prefix ''sec_'' k"
  by (auto simp: record_keys_def verifier_keys envelope_keys)

text \<open>A deriver looks at no key of the records.\<close>

lemma LoadKey_cong:
  assumes "\<forall>k. k \<notin> record_keys \<longrightarrow> GetStr ops c1 k = GetStr ops c2 k \<and> GetInt ops c1 k = GetInt ops c2 k"
  shows "LoadKey lib ops dv pw [] c1 = LoadKey lib ops dv pw [] c2"
proof -
  have eq: "GetStr ops c1 k = GetStr ops c2 k" "GetInt ops c1 k = GetInt ops c2 k" if "\<not> prefix ''sec_'' k" for k
    using assms record_keys_sec that by blast+
  show ?thesis
    by (cases dv)
      (simp_all add: argon2_LoadKey_def hkdf_LoadKey_def pbkdf2_LoadKey_def scrypt_LoadKey_def
        hkdf_configGroupForLoad_def pbkdf2_configGroupForLoad_def read_salt_def int_or_def group_GetStr_def
        group_GetInt_def PrefixedConfig_Get_def WithGroup_def eq Let_def split: sum.splits)
qed

subsection \<open>Writing and reading the records\<close>

context shared_config
begin

lemma put_eq:
  "usable c \<Longrightarrow> SetStr ops c k s = (fst (SetStr ops c k s), None)"
  "usable c \<Longrightarrow> SetInt ops c k n = (fst (SetInt ops c k n), None)"
  by (simp_all add: prod_eq_iff put_facts)

text \<open>After a verifier has been written, exactly the keys with the same tag are accepted.\<close>

lemma writePasswordVerifier_ok:
  assumes "usable c" "key \<noteq> []" "rnd 32 = Some ch" "length ch = 32"
  obtains c' where "writePasswordVerifier rnd ops (Some c) key = (Some c', None)" "usable c'" "saved c'"
    "str_of c' passwordVerifierChallengeKey = Some (StdEncode ch)"
    "str_of c' passwordVerifierTagKey = Some (StdEncode (calculatePasswordVerifierTag key ch))"
    "int_of c' passwordVerifierVersionKey = Some 1"
    "\<And>k. k \<notin> record_keys \<or> prefix ''sec_key'' k \<Longrightarrow> str_of c' k = str_of c k \<and> int_of c' k = int_of c k"
proof -
  define c1 where "c1 = fst (SetStr ops c passwordVerifierChallengeKey (StdEncode ch))"
  define c2 where "c2 = fst (SetStr ops c1 passwordVerifierTagKey (StdEncode (calculatePasswordVerifierTag key ch)))"
  define c3 where "c3 = fst (SetInt ops c2 passwordVerifierVersionKey 1)"
  have u: "usable c1" "usable c2" "usable c3" "saved c3"
    using assms(1) by (simp_all add: c1_def c2_def c3_def put_facts)
  have "writePasswordVerifier rnd ops (Some c) key = (Some c3, None)"
    using assms u put_eq(1) [OF assms(1), of passwordVerifierChallengeKey "StdEncode ch"]
      put_eq(1) [OF u(1), of passwordVerifierTagKey "StdEncode (calculatePasswordVerifierTag key ch)"]
      put_eq(2) [OF u(2), of passwordVerifierVersionKey 1]
    by (simp add: writePasswordVerifier_def Let_def c1_def [symmetric] c2_def [symmetric] c3_def [symmetric])
  moreover have "str_of c3 k = str_of c k \<and> int_of c3 k = int_of c k" if "k \<notin> record_keys \<or> prefix ''sec_key'' k" for k
  proof -
    have "k \<noteq> passwordVerifierChallengeKey" "k \<noteq> passwordVerifierTagKey" "k \<noteq> passwordVerifierVersionKey"
      using that by (auto simp: record_keys_def verifier_keys)
    then show ?thesis by (simp add: c1_def c2_def c3_def other_facts)
  qed
  ultimately show thesis
    using u that [of c3] by (simp add: c1_def c2_def c3_def other_facts str_put int_put)
qed

lemma verify_stored:
  assumes "saved c" "str_of c passwordVerifierChallengeKey = Some (StdEncode ch)" "length ch = 32"
    and "str_of c passwordVerifierTagKey = Some (StdEncode tag)" "length tag = 32"
    and "int_of c passwordVerifierVersionKey = Some 1" "key \<noteq> []"
  shows "verifyPassword ops (Some (reload c)) key =
    (if tag = calculatePasswordVerifierTag key ch then None else Some ErrInvalidPassword)"
  using assms by (simp add: verifyPassword_def readPasswordVerifierBytes_def str_read int_read found_def)

lemma writeRootKeyEnvelope_ok:
  assumes "usable c" "content \<noteq> []" "32 \<le> length key" "rnd 12 = Some nonce"
  obtains c' where "writeRootKeyEnvelope rnd ops c key content = (c', None)" "usable c'" "saved c'"
    "str_of c' rootKeyEnvelopeNonceKey = Some (RawStdEncode nonce)"
    "str_of c' rootKeyEnvelopeCiphertextKey =
       Some (RawStdEncode (gcm_Seal (take 32 key) [] nonce content rootKeyEnvelopeDomain))"
    "int_of c' rootKeyEnvelopeVersionKey = Some 1"
    "\<And>k. k \<notin> record_keys \<or> prefix ''sec_password'' k \<Longrightarrow> str_of c' k = str_of c k \<and> int_of c' k = int_of c k"
proof -
  define c1 where "c1 = fst (SetStr ops c rootKeyEnvelopeNonceKey (RawStdEncode nonce))"
  define c2 where "c2 = fst (SetStr ops c1 rootKeyEnvelopeCiphertextKey
    (RawStdEncode (gcm_Seal (take 32 key) [] nonce content rootKeyEnvelopeDomain)))"
  define c3 where "c3 = fst (SetInt ops c2 rootKeyEnvelopeVersionKey 1)"
  have u: "usable c1" "usable c2" "usable c3" "saved c3"
    using assms(1) by (simp_all add: c1_def c2_def c3_def put_facts)
  have "writeRootKeyEnvelope rnd ops c key content = (c3, None)"
    using assms u put_eq(1) [OF assms(1), of rootKeyEnvelopeNonceKey "RawStdEncode nonce"]
      put_eq(1) [OF u(1), of rootKeyEnvelopeCiphertextKey
        "RawStdEncode (gcm_Seal (take 32 key) [] nonce content rootKeyEnvelopeDomain)"]
      put_eq(2) [OF u(2), of rootKeyEnvelopeVersionKey 1]
    by (simp add: writeRootKeyEnvelope_def newRootKeyEnvelopeCipher_def Let_def c1_def [symmetric]
        c2_def [symmetric] c3_def [symmetric])
  moreover have "str_of c3 k = str_of c k \<and> int_of c3 k = int_of c k"
    if "k \<notin> record_keys \<or> prefix ''sec_password'' k" for k
  proof -
    have "k \<noteq> rootKeyEnvelopeNonceKey" "k \<noteq> rootKeyEnvelopeCiphertextKey" "k \<noteq> rootKeyEnvelopeVersionKey"
      using that by (auto simp: record_keys_def envelope_keys)
    then show ?thesis by (simp add: c1_def c2_def c3_def other_facts)
  qed
  ultimately show thesis
    using u that [of c3] by (simp add: c1_def c2_def c3_def other_facts str_put int_put)
qed

lemma unwrap_stored:
  assumes "saved c" "str_of c rootKeyEnvelopeNonceKey = Some (RawStdEncode nonce)" "length nonce = 12"
    and "str_of c rootKeyEnvelopeCiphertextKey =
       Some (RawStdEncode (gcm_Seal (take 32 key) [] nonce content rootKeyEnvelopeDomain))"
    and "32 \<le> length key" "32 \<le> length content"
  shows "unwrapRootKey ops (reload c) key = Inr content"
proof -
  have "gcm_Seal (take 32 key) [] nonce content rootKeyEnvelopeDomain \<noteq> []"
    by (simp add: gcm_Seal_def Let_def gcm_tag_def flip: length_0_conv)
  moreover have "nonce \<noteq> []" using assms(3) by auto
  ultimately show ?thesis
    using assms
    by (simp add: unwrapRootKey_def newRootKeyEnvelopeCipher_def readRootKeyEnvelopeValue_def str_read found_def
        gcm_Open_Seal)
qed

lemma envelope_version_stored:
  "saved c \<Longrightarrow> int_of c rootKeyEnvelopeVersionKey = Some 1 \<Longrightarrow> rootKeyEnvelopeVersion ops (reload c) = Inr (Some 1)"
  by (simp add: rootKeyEnvelopeVersion_def int_read found_def)

subsection \<open>Wrapping the content key again\<close>

text \<open>The three writes of a successful \<open>rewrap\<close>.\<close>

lemma rewrap_steps:
  assumes "usable c" "small_ints ops c"
    and "rewrap lib rnd_salt rnd_challenge rnd_nonce ops dv pw content c = Inr c'"
  obtains c1 c2 nk where "saved c1" "usable c1" "LoadKey lib ops dv pw [] (reload c1) = Inr nk"
    "NewKey lib rnd_salt ops dv (Some (change_params pw)) (Some ([], c)) = (Some ([], c1), Inr nk)"
    "writePasswordVerifier rnd_challenge ops (Some c1) nk = (Some c2, None)"
    "writeRootKeyEnvelope rnd_nonce ops c2 nk content = (c', None)"
    "\<And>k. prefix ''sec_'' k \<Longrightarrow> str_of c1 k = str_of c k"
proof -
  obtain cfg1 nk cfg2 where
    nk: "NewKey lib rnd_salt ops dv (Some (change_params pw)) (Some ([], c)) = (cfg1, Inr nk)"
    and wv: "writePasswordVerifier rnd_challenge ops (map_option snd cfg1) nk = (cfg2, None)"
    and we: "writeRootKeyEnvelope rnd_nonce ops (the cfg2) nk content = (c', None)"
    using assms(3) by (auto simp: rewrap_def split: prod.splits sum.splits option.splits)
  obtain c1 where c1: "cfg1 = Some ([], c1)" "saved c1" "usable c1" "LoadKey lib ops dv pw [] (reload c1) = Inr nk"
    using NewKey_LoadKey [OF assms(1) nk _ assms(2)] by (auto simp: change_params_def)
  have "str_of c1 k = str_of c k" if "prefix ''sec_'' k" for k
  proof -
    have "k \<noteq> WithGroup [] g @ k'" if "g \<in> {''argon2'', ''hkdf'', ''pbkdf2'', ''scrypt''}" for g k'
      using that \<open>prefix ''sec_'' k\<close> by (auto simp: WithGroup_def)
    then show ?thesis
      using NewKey_other [OF nk [unfolded c1(1)], of k] by blast
  qed
  moreover have "cfg2 = Some (the cfg2)"
    using wv c1(1) by (auto simp: writePasswordVerifier_def Let_def split: if_splits option.splits prod.splits)
  ultimately show thesis
    using that [of c1 nk "the cfg2"] c1 nk wv we by simp
qed

lemma verifier_written:
  assumes "usable c" "fills rnd" "writePasswordVerifier rnd ops (Some c) key = (Some c', None)"
  obtains ch where "key \<noteq> []" "length ch = 32" "usable c'" "saved c'"
    "str_of c' passwordVerifierChallengeKey = Some (StdEncode ch)"
    "str_of c' passwordVerifierTagKey = Some (StdEncode (calculatePasswordVerifierTag key ch))"
    "int_of c' passwordVerifierVersionKey = Some 1"
    "\<And>k. k \<notin> record_keys \<or> prefix ''sec_key'' k \<Longrightarrow> str_of c' k = str_of c k \<and> int_of c' k = int_of c k"
proof -
  obtain ch where ch: "key \<noteq> []" "rnd 32 = Some ch" "length ch = 32"
    using assms(2,3) by (auto simp: writePasswordVerifier_def fills_def split: if_splits option.splits)
  show thesis
    by (rule writePasswordVerifier_ok [where rnd = rnd, OF assms(1) ch]) (rule that [of ch], use ch assms(3) in auto)
qed

lemma envelope_written:
  assumes "usable c" "fills rnd" "writeRootKeyEnvelope rnd ops c key content = (c', None)"
  obtains nonce where "32 \<le> length key" "length nonce = 12" "usable c'" "saved c'"
    "str_of c' rootKeyEnvelopeNonceKey = Some (RawStdEncode nonce)"
    "str_of c' rootKeyEnvelopeCiphertextKey =
       Some (RawStdEncode (gcm_Seal (take 32 key) [] nonce content rootKeyEnvelopeDomain))"
    "int_of c' rootKeyEnvelopeVersionKey = Some 1"
    "\<And>k. k \<notin> record_keys \<or> prefix ''sec_password'' k \<Longrightarrow> str_of c' k = str_of c k \<and> int_of c' k = int_of c k"
proof -
  obtain nonce where no: "content \<noteq> []" "32 \<le> length key" "rnd 12 = Some nonce" "length nonce = 12"
    using assms(2,3)
    by (auto simp: writeRootKeyEnvelope_def newRootKeyEnvelopeCipher_def fills_def split: if_splits option.splits)
  show thesis
    by (rule writeRootKeyEnvelope_ok [where rnd = rnd, OF assms(1) no(1-3)]) (rule that [of nonce], use no assms(3) in auto)
qed

text \<open>The store after a successful \<open>rewrap\<close>: the new password opens it and gives the content key; the
  keys outside the records and the derivers' groups are as before.\<close>

lemma rewrap_opens:
  assumes "usable c" "small_ints ops c" "fills rnd_challenge" "fills rnd_nonce" "32 \<le> length content"
    and "rewrap lib rnd_salt rnd_challenge rnd_nonce ops dv pw content c = Inr c'"
  shows "usable c' \<and> saved c' \<and> loadRootKeyForOpen lib ops dv pw (reload c') = Inr content \<and>
    rootKeyEnvelopeVersion ops (reload c') = Inr (Some 1) \<and>
    (\<forall>k. prefix ''sec_'' k \<longrightarrow> k \<notin> record_keys \<longrightarrow> str_of c' k = str_of c k)"
proof -
  obtain c1 c2 nk where c1: "saved c1" "usable c1" "LoadKey lib ops dv pw [] (reload c1) = Inr nk"
    "writePasswordVerifier rnd_challenge ops (Some c1) nk = (Some c2, None)"
    "writeRootKeyEnvelope rnd_nonce ops c2 nk content = (c', None)"
    "\<And>k. prefix ''sec_'' k \<Longrightarrow> str_of c1 k = str_of c k"
    using rewrap_steps [OF assms(1,2,6)] by metis
  obtain ch where c2: "nk \<noteq> []" "length ch = 32" "usable c2" "saved c2"
    "str_of c2 passwordVerifierChallengeKey = Some (StdEncode ch)"
    "str_of c2 passwordVerifierTagKey = Some (StdEncode (calculatePasswordVerifierTag nk ch))"
    "int_of c2 passwordVerifierVersionKey = Some 1"
    "\<And>k. k \<notin> record_keys \<or> prefix ''sec_key'' k \<Longrightarrow> str_of c2 k = str_of c1 k \<and> int_of c2 k = int_of c1 k"
    using verifier_written [OF c1(2) assms(3) c1(4)] by metis
  obtain nonce where c3: "32 \<le> length nk" "length nonce = 12" "usable c'" "saved c'"
    "str_of c' rootKeyEnvelopeNonceKey = Some (RawStdEncode nonce)"
    "str_of c' rootKeyEnvelopeCiphertextKey =
       Some (RawStdEncode (gcm_Seal (take 32 nk) [] nonce content rootKeyEnvelopeDomain))"
    "int_of c' rootKeyEnvelopeVersionKey = Some 1"
    "\<And>k. k \<notin> record_keys \<or> prefix ''sec_password'' k \<Longrightarrow> str_of c' k = str_of c2 k \<and> int_of c' k = int_of c2 k"
    using envelope_written [OF c2(3) assms(4) c1(5)] by metis
  have "LoadKey lib ops dv pw [] (reload c') = LoadKey lib ops dv pw [] (reload c1)"
    by (rule LoadKey_cong) (simp add: str_read int_read c1(1) c3(4,8) c2(8))
  moreover have "verifyPassword ops (Some (reload c')) nk = None"
    using verify_stored [OF c3(4), where ch = ch and tag = "calculatePasswordVerifierTag nk ch"] c2(1,2,5-7)
      c3(8) [of passwordVerifierChallengeKey] c3(8) [of passwordVerifierTagKey] c3(8) [of passwordVerifierVersionKey]
    by (simp add: verifier_keys)
  ultimately have "loadRootKeyForOpen lib ops dv pw (reload c') = Inr content"
    using c1(3) envelope_version_stored [OF c3(4,7)] unwrap_stored [OF c3(4,5,2,6,1) assms(5)]
    by (simp add: loadRootKeyForOpen_def loadPasswordWrappingKey_def)
  with c1(6) c2(8) c3(3,4,8) envelope_version_stored [OF c3(4,7)] show ?thesis by simp
qed

text \<open>The cost of the derivation is not changed.\<close>

lemma rewrap_cost:
  assumes "usable c" "small_ints ops c" "fills rnd_challenge" "fills rnd_nonce" "dv \<noteq> HKDF_SHA_256"
    and "rewrap lib rnd_salt rnd_challenge rnd_nonce ops dv pw content c = Inr c'"
    and "dv = Argon2id \<Longrightarrow> \<forall>n. Inr n \<in> set (stored_cost ops dv [] c) \<longrightarrow> n < 2 ^ 32"
  shows "stored_cost ops dv [] (reload c') = stored_cost ops dv [] c"
proof -
  obtain c1 c2 nk where c1: "saved c1" "usable c1"
    "NewKey lib rnd_salt ops dv (Some (change_params pw)) (Some ([], c)) = (Some ([], c1), Inr nk)"
    "writePasswordVerifier rnd_challenge ops (Some c1) nk = (Some c2, None)"
    "writeRootKeyEnvelope rnd_nonce ops c2 nk content = (c', None)"
    using rewrap_steps [OF assms(1,2,6)] by metis
  have c2: "usable c2" "k \<notin> record_keys \<Longrightarrow> int_of c2 k = int_of c1 k" for k
    using verifier_written [OF c1(2) assms(3) c1(4)] by metis+
  have c3: "saved c'" "k \<notin> record_keys \<Longrightarrow> int_of c' k = int_of c2 k" for k
    using envelope_written [OF c2(1) assms(4) c1(5)] by metis+
  have "GetInt ops (reload c') k = GetInt ops (reload c1) k" if "\<not> prefix ''sec_'' k" for k
  proof -
    have "k \<notin> record_keys" using that record_keys_sec by blast
    then show ?thesis by (simp add: int_read c1(1) c2(2) c3)
  qed
  then have "stored_cost ops dv [] (reload c') = stored_cost ops dv [] (reload c1)"
    by (cases dv) (simp_all add: stored_cost_def group_GetInt_def PrefixedConfig_Get_def WithGroup_def)
  also have "\<dots> = stored_cost ops dv [] c"
    by (rule reuse_keeps_cost [OF assms(1,2,5) _ _ c1(3) assms(7)]) (simp_all add: change_params_def)
  finally show ?thesis .
qed

lemma rewrap_succeeds:
  assumes "usable c" "small_ints ops c" "content \<noteq> []"
    and "NewKey lib rnd_salt ops dv (Some (change_params pw)) (Some ([], c)) = (cfg1, Inr nk)" "32 \<le> length nk"
    and "rnd_challenge 32 = Some ch" "length ch = 32" "rnd_nonce 12 = Some nonce"
  shows "\<exists>c'. rewrap lib rnd_salt rnd_challenge rnd_nonce ops dv pw content c = Inr c'"
proof -
  obtain c1 where c1: "cfg1 = Some ([], c1)" "usable c1"
    using NewKey_LoadKey [OF assms(1,4) _ assms(2)] by (auto simp: change_params_def)
  have "nk \<noteq> []" using assms(5) by auto
  from writePasswordVerifier_ok [where rnd = rnd_challenge, OF c1(2) this assms(6,7)]
  obtain c2 where c2: "writePasswordVerifier rnd_challenge ops (Some c1) nk = (Some c2, None)" "usable c2"
    by metis
  from writeRootKeyEnvelope_ok [where rnd = rnd_nonce, OF c2(2) assms(3,5,8)]
  obtain c3 where "writeRootKeyEnvelope rnd_nonce ops c2 nk content = (c3, None)"
    by metis
  with assms(4) c1 c2 show ?thesis by (simp add: rewrap_def)
qed

end

end
