(* ===== verification/PasswordChange.thy ===== *)
theory PasswordChange
  imports PasswordProps
begin

text \<open>
  The change of a root's password as a whole: which values survive a configuration file, that
  the change is atomic and keeps the content key, and what an interrupted writer of the
  verifier leaves behind.
\<close>

subsection \<open>Files\<close>

text \<open>A JSON object as it is read from a file: reading it again changes nothing; and its numbers
  are exact integers.\<close>

definition json_object :: "(string \<rightharpoonup> jval) \<Rightarrow> bool" where
  "json_object raw \<longleftrightarrow> (\<forall>k v. raw k = Some v \<longrightarrow> json_reread v = v \<and> (\<forall>q. v = JNum q \<longrightarrow> \<bar>int_of_float q\<bar> \<le> 2 ^ 53))"

lemma NewFileConfig_object:
  assumes "json_object raw" "NewFileConfig (JsonObject raw) w = Inr f"
  shows "cwritable f = w" "cfile f = JsonObject raw" "small_ints file_ops f"
    "GetStr file_ops f k = found k (str_part (map_option json_reread (cdata f k)))"
proof -
  have raw: "map_option json_reread (raw k) = raw k" for k
    using assms(1) by (cases "raw k") (auto simp: json_object_def)
  show "cwritable f = w" "cfile f = JsonObject raw"
    "GetStr file_ops f k = found k (str_part (map_option json_reread (cdata f k)))"
    using assms(2) raw by (auto simp: NewFileConfig_def FileConfig_load_def Let_def file_ops_def FileConfig_GetStr_def)
  show "small_ints file_ops f"
    using assms
    by (auto simp: NewFileConfig_def FileConfig_load_def Let_def file_ops_def FileConfig_GetInt_def found_def
        small_ints_def json_object_def int_part_def split: option.splits jval.splits)
qed

lemma getOpenFactories_cong:
  assumes "\<And>k. k \<in> {''sec_fs_factory'', ''sec_name_factory'', ''sec_deriver_factory''} \<Longrightarrow> GetStr ops c1 k = GetStr ops c2 k"
  shows "getOpenFactories regs ops c1 = getOpenFactories regs ops c2"
proof -
  have f: "factory_of lookup ops c1 k = factory_of lookup ops c2 k"
    if "k \<in> {''sec_fs_factory'', ''sec_name_factory'', ''sec_deriver_factory''}" for k and lookup :: "string \<Rightarrow> 'x option"
    using assms [OF that] by (simp add: factory_of_def)
  show ?thesis
    unfolding getOpenFactories_def by (subst (1 2 3) f) simp_all
qed

lemma group_SetStr_cwritable [simp]:
  "cwritable (fst (group_SetStr file_ops g f k s)) = cwritable f"
  "cwritable (fst (group_SetInt file_ops g f k n)) = cwritable f"
  by (simp_all add: group_SetStr_def group_SetInt_def PrefixedConfig_Set_def file_ops_def FileConfig_SetStr_def
      FileConfig_SetInt_def FileConfig_save_def)

lemma NewKey_cwritable:
  assumes "NewKey lib rnd file_ops dv params (Some (pre, f)) = (Some (pre', f'), r)"
  shows "cwritable f' = cwritable f"
  using assms
  by (cases dv)
    (auto simp: argon2_NewKey_def hkdf_NewKey_def pbkdf2_NewKey_def scrypt_NewKey_def argon2_save_def hkdf_save_def
      pbkdf2_save_def scrypt_save_def Let_def split: sum.splits option.splits prod.splits)

lemma rewrap_cwritable:
  assumes "rewrap lib r1 r2 r3 file_ops dv pw content f = Inr f'"
  shows "cwritable f"
proof (rule ccontr)
  assume ro: "\<not> cwritable f"
  obtain cfg1 nk cfg2 where
    nk: "NewKey lib r1 file_ops dv (Some (change_params pw)) (Some ([], f)) = (cfg1, Inr nk)"
    and wv: "writePasswordVerifier r2 file_ops (map_option snd cfg1) nk = (cfg2, None)"
    using assms by (auto simp: rewrap_def split: prod.splits sum.splits option.splits)
  then obtain pre c1 where c1: "cfg1 = Some (pre, c1)"
    by (cases cfg1) (auto simp: writePasswordVerifier_def)
  with nk have "\<not> cwritable c1"
    using NewKey_cwritable ro by blast
  with wv c1 show False
    by (auto simp: writePasswordVerifier_def file_ops_def FileConfig_SetStr_def FileConfig_save_def Let_def
        split: if_splits option.splits)
qed

text \<open>The values of a store that come back unchanged from a file; every writer keeps this.\<close>

definition exact_value :: "jval \<Rightarrow> bool" where
  "exact_value v = (case v of JStr s \<Rightarrow> utf8_coerce s = s | JInt n \<Rightarrow> \<bar>n\<bar> \<le> 2 ^ 53
     | JNum q \<Rightarrow> \<bar>int_of_float q\<bar> \<le> 2 ^ 53 | _ \<Rightarrow> True)"

definition cdata_ok :: "FileConfig \<Rightarrow> bool" where
  "cdata_ok f \<longleftrightarrow> (\<forall>k v. cdata f k = Some v \<longrightarrow> exact_value v)"

lemma cdata_ok_put [simp]:
  "cdata_ok f \<Longrightarrow> ascii s \<Longrightarrow> cdata_ok (fst (FileConfig_SetStr f k s))"
  "cdata_ok f \<Longrightarrow> \<bar>n\<bar> \<le> 2 ^ 53 \<Longrightarrow> cdata_ok (fst (FileConfig_SetInt f k n))"
  by (auto simp: cdata_ok_def FileConfig_SetStr_def FileConfig_SetInt_def exact_value_def)

lemma cdata_ok_group [simp]:
  "cdata_ok f \<Longrightarrow> ascii s \<Longrightarrow> cdata_ok (fst (group_SetStr file_ops g f k s))"
  "cdata_ok f \<Longrightarrow> \<bar>n\<bar> \<le> 2 ^ 53 \<Longrightarrow> cdata_ok (fst (group_SetInt file_ops g f k n))"
  by (simp_all add: group_SetStr_def group_SetInt_def PrefixedConfig_Set_def file_ops_def)

lemma cdata_ok_file:
  assumes "cdata_ok f" "file_saved f"
  obtains raw where "cfile f = JsonObject raw" "json_object raw"
proof -
  have "json_reread (json_reread v) = json_reread v \<and> (\<forall>q. json_reread v = JNum q \<longrightarrow> \<bar>int_of_float q\<bar> \<le> 2 ^ 53)"
    if "exact_value v" for v
    using that by (cases v) (auto simp: exact_value_def json_reread_def float64_of_int_exact)
  with assms show thesis
    by (intro that [of "\<lambda>k. map_option json_reread (cdata f k)"])
      (auto simp: file_saved_def saved_object_def json_object_def cdata_ok_def)
qed

lemma cdata_ok_loaded:
  assumes "json_object raw" "NewFileConfig (JsonObject raw) w = Inr f"
  shows "cdata_ok f"
proof -
  have "exact_value v" if "raw k = Some v" for k v
  proof -
    have "json_reread v = v" "\<forall>q. v = JNum q \<longrightarrow> \<bar>int_of_float q\<bar> \<le> 2 ^ 53"
      using assms(1) that by (auto simp: json_object_def)
    then show ?thesis by (cases v) (simp_all add: exact_value_def json_reread_def)
  qed
  with assms(2) show ?thesis
    by (auto simp: NewFileConfig_def FileConfig_load_def Let_def cdata_ok_def)
qed

lemma NewKey_cdata_ok:
  assumes "cdata_ok f" "small_ints file_ops f" "\<bar>KeyLength p\<bar> \<le> 2 ^ 53"
    and "NewKey lib rnd file_ops dv (Some p) (Some (pre, f)) = (Some (pre', f'), r)"
  shows "cdata_ok f'"
  using assms
  by (cases dv)
    (auto simp: argon2_NewKey_def hkdf_NewKey_def pbkdf2_NewKey_def scrypt_NewKey_def argon2_save_def hkdf_save_def
      pbkdf2_save_def scrypt_save_def argon2_params_def pbkdf2_params_def scrypt_params_def scrypt_cost_def
      stored_int_Inr Let_def split: sum.splits option.splits prod.splits if_splits
      dest!: checked_params_Some dest: small_intsD intro!: cdata_ok_group)

lemma cdata_ok_putD:
  "FileConfig_SetStr f k s = (f', e) \<Longrightarrow> cdata_ok f \<Longrightarrow> ascii s \<Longrightarrow> cdata_ok f'"
  "FileConfig_SetInt f k n = (f', e) \<Longrightarrow> cdata_ok f \<Longrightarrow> \<bar>n\<bar> \<le> 2 ^ 53 \<Longrightarrow> cdata_ok f'"
  by (metis cdata_ok_put fst_conv)+

lemma rewrap_cdata_ok:
  assumes "cdata_ok f" "small_ints file_ops f" "rewrap lib r1 r2 r3 file_ops dv pw content f = Inr f'"
  shows "cdata_ok f'"
proof -
  from file_store.rewrap_steps [OF rewrap_cwritable [OF assms(3)] assms(2,3)]
  obtain c1 c2 nk where c: "NewKey lib r1 file_ops dv (Some (change_params pw)) (Some ([], f)) = (Some ([], c1), Inr nk)"
    "writePasswordVerifier r2 file_ops (Some c1) nk = (Some c2, None)"
    "writeRootKeyEnvelope r3 file_ops c2 nk content = (f', None)" by metis
  have "cdata_ok c1"
    by (rule NewKey_cdata_ok [OF assms(1,2) _ c(1)]) (simp add: change_params_def)
  moreover have "cdata_ok c2" if "cdata_ok c1"
    using c(2) that
    by (auto simp: writePasswordVerifier_def file_ops_def Let_def split: if_splits option.splits prod.splits
        dest!: cdata_ok_putD)
  moreover have "cdata_ok f'" if "cdata_ok c2"
    using c(3) that
    by (auto simp: writeRootKeyEnvelope_def file_ops_def Let_def split: if_splits option.splits prod.splits sum.splits
        dest!: cdata_ok_putD)
  ultimately show ?thesis by blast
qed

subsection \<open>Properties\<close>

text \<open>C26. Changing the password is atomic: when it fails the configuration file is as it was; when it
  succeeds, the same algorithms are found in the new file, the old password gave a content key in
  the old file, the new password gives the same key in the new file, and the new file is one
  whose password can be changed again.\<close>
theorem ChangeRootPassword_keeps_content_key:
  assumes "ChangeRootPasswordContext lib rs rc rn regs os (JsonObject raw) path old new = (file', err)"
    and "json_object raw" "fills rc" "fills rn"
  shows "case err of Some e \<Rightarrow> file' = JsonObject raw
    | None \<Rightarrow> \<exists>cfg cfg' d n dv key. NewFileConfig (JsonObject raw) True = Inr cfg \<and>
        NewFileConfig file' True = Inr cfg' \<and> getOpenFactories regs file_ops cfg = Inr (d, n, dv) \<and>
        getOpenFactories regs file_ops cfg' = Inr (d, n, dv) \<and>
        loadRootKeyForOpen lib file_ops dv old cfg = Inr key \<and>
        loadRootKeyForOpen lib file_ops dv new cfg' = Inr key \<and>
        (\<exists>raw'. file' = JsonObject raw' \<and> json_object raw')"
proof (cases err)
  case (Some e)
  with assms(1) show ?thesis
    by (auto simp: ChangeRootPasswordContext_def commitStagedRootConfig_def split: if_splits sum.splits option.splits)
next
  case None
  with assms(1) obtain cfg d n dv oldKey content staged staged' where
    cfg: "NewFileConfig (JsonObject raw) True = Inr cfg" "getOpenFactories regs file_ops cfg = Inr (d, n, dv)"
    and opens: "rootKeyEnvelopeVersion file_ops cfg = Inr (Some 1)"
      "loadPasswordWrappingKey lib file_ops dv old cfg = Inr oldKey" "verifyPassword file_ops (Some cfg) oldKey = None"
      "unwrapRootKey file_ops cfg oldKey = Inr content"
    and staged: "NewFileConfig (JsonObject raw) (staged_writable os) = Inr staged"
      "rewrap lib rs rc rn file_ops dv new content staged = Inr staged'" "file' = cfile staged'"
    by (auto simp: ChangeRootPasswordContext_def stageRootConfig_def commitStagedRootConfig_def
        split: if_splits sum.splits option.splits)
  have "32 \<le> length content"
    using opens(4) by (auto simp: unwrapRootKey_def split: if_splits sum.splits option.splits)
  from file_store.rewrap_opens [OF rewrap_cwritable [OF staged(2)] NewFileConfig_object(3) [OF assms(2) staged(1)]
      assms(3,4) this staged(2)]
  have new: "cwritable staged'" "file_saved staged'" "loadRootKeyForOpen lib file_ops dv new (reopen staged') = Inr content"
    "\<And>k. prefix ''sec_'' k \<Longrightarrow> k \<notin> record_keys \<Longrightarrow> str_part (map_option json_reread (cdata staged' k)) =
      str_part (map_option json_reread (cdata staged k))" by blast+
  have "NewFileConfig file' True = Inr (reopen staged')"
    using reopen_saved(1) [OF new(2)] new(1) staged(3) by simp
  moreover have "getOpenFactories regs file_ops (reopen staged') = getOpenFactories regs file_ops cfg"
  proof (rule getOpenFactories_cong)
    fix k assume "k \<in> {''sec_fs_factory'', ''sec_name_factory'', ''sec_deriver_factory''}"
    then have "prefix ''sec_'' k" "k \<notin> record_keys"
      by (auto simp: record_keys_def verifier_keys envelope_keys)
    then have "GetStr file_ops (reopen staged') k = GetStr file_ops staged k"
      by (simp add: file_store.str_read new(2,4) NewFileConfig_object(4) [OF assms(2) staged(1)])
    also have "\<dots> = GetStr file_ops cfg k"
      using cfg(1) staged(1) by (auto simp: NewFileConfig_def FileConfig_load_def Let_def file_ops_def FileConfig_GetStr_def)
    finally show "GetStr file_ops (reopen staged') k = GetStr file_ops cfg k" .
  qed
  moreover have "loadRootKeyForOpen lib file_ops dv old cfg = Inr content"
    using opens by (simp add: loadRootKeyForOpen_def)
  moreover have "\<exists>raw'. file' = JsonObject raw' \<and> json_object raw'"
    using cdata_ok_file [OF rewrap_cdata_ok [OF cdata_ok_loaded [OF assms(2) staged(1)]
        NewFileConfig_object(3) [OF assms(2) staged(1)] staged(2)] new(2)] staged(3) by metis
  ultimately show ?thesis
    using None cfg new(3) by auto
qed

text \<open>A sample root: its configuration is made by the same functions, with the password \<open>old\<close>.\<close>

definition sample_fill :: rand where
  "sample_fill n = Some (replicate n 7)"

definition base_config :: FileConfig where
  "base_config = empty_config\<lparr>
     cdata := [''sec_fs_factory'' \<mapsto> JStr ''AES-CTR'', ''sec_name_factory'' \<mapsto> JStr ''RC4'',
       ''sec_deriver_factory'' \<mapsto> JStr ''PBKDF2'', ''pbkdf2_iterations'' \<mapsto> JInt 1000, ''pbkdf2_key_length'' \<mapsto> JInt 32],
     intMap := [''pbkdf2_iterations'' \<mapsto> 1000, ''pbkdf2_key_length'' \<mapsto> 32]\<rparr>"

definition sample_regs :: "(unit, unit) factories" where
  "sample_regs = \<lparr>data_factories = [(''AES-CTR'', ())], name_factories = [(''RC4'', ())],
     deriver_factories = [(''PBKDF2'', PBKDF2)]\<rparr>"

definition sample_content :: bytes where
  "sample_content = replicate 32 9"

definition sample_vault :: FileConfig where
  "sample_vault = projr (rewrap sample_lib sample_fill sample_fill sample_fill file_ops PBKDF2 ''old'' sample_content base_config)"

lemma sample_fill_fills [simp]: "fills sample_fill"
  by (simp add: fills_def sample_fill_def)

lemma base_config_ok:
  "cwritable base_config" "small_ints file_ops base_config"
  "stored_cost file_ops PBKDF2 [] base_config = [Inr 1000, Inr 32]"
  by (auto simp: base_config_def empty_config_def small_ints_def stored_cost_def group_GetInt_def
      PrefixedConfig_Get_def WithGroup_def file_ops_def FileConfig_GetInt_def found_def split: option.splits if_splits)

text \<open>Rewrapping works on every store with this cost.\<close>

lemma sample_rewrap:
  assumes "cwritable f" "small_ints file_ops f" "stored_cost file_ops PBKDF2 [] f = [Inr 1000, Inr 32]" "pw \<noteq> []"
  shows "\<exists>f'. rewrap sample_lib sample_fill sample_fill sample_fill file_ops PBKDF2 pw sample_content f = Inr f'"
proof -
  let ?key = "take 32 (string_bytes pw @ replicate 32 7)"
  have "stored_int file_ops (WithGroup [] ''pbkdf2'') f ''iterations'' (\<lambda>n. 0 < n) = Inr 1000"
      "stored_int file_ops (WithGroup [] ''pbkdf2'') f ''key_length'' (\<lambda>n. 0 < n) = Inr 32"
    using assms(3) by (simp_all add: stored_cost_def stored_int_def)
  then have "NewKey sample_lib sample_fill file_ops PBKDF2 (Some (change_params pw)) (Some ([], f)) =
      (Some (pbkdf2_save file_ops (replicate 32 7) 1000 32 ([], f)), Inr ?key)"
    using assms(4)
    by (simp add: pbkdf2_NewKey_def checked_params_def change_params_def pbkdf2_params_def sample_fill_def
        sample_lib_def key_result_def PasswordBytes_def Let_def)
  from file_store.rewrap_succeeds [OF assms(1,2) _ this, where content = sample_content and
      rnd_challenge = sample_fill and rnd_nonce = sample_fill]
  show ?thesis by (simp add: sample_content_def sample_fill_def)
qed

lemma sample_vault_ok:
  "rewrap sample_lib sample_fill sample_fill sample_fill file_ops PBKDF2 ''old'' sample_content base_config = Inr sample_vault"
  using sample_rewrap [OF base_config_ok, of "''old''"] unfolding sample_vault_def by auto

definition sample_raw :: "string \<rightharpoonup> jval" where
  "sample_raw = (\<lambda>k. map_option json_reread (cdata sample_vault k))"

lemma sample_vault_facts:
  "cfile sample_vault = JsonObject sample_raw" "json_object sample_raw"
  "NewFileConfig (JsonObject sample_raw) True = Inr (reopen sample_vault)"
  "loadRootKeyForOpen sample_lib file_ops PBKDF2 ''old'' (reopen sample_vault) = Inr sample_content"
  "rootKeyEnvelopeVersion file_ops (reopen sample_vault) = Inr (Some 1)"
  "getOpenFactories sample_regs file_ops (reopen sample_vault) = Inr ((), (), PBKDF2)"
  "cwritable (reopen sample_vault)" "small_ints file_ops (reopen sample_vault)"
  "stored_cost file_ops PBKDF2 [] (reopen sample_vault) = [Inr 1000, Inr 32]"
proof -
  have len: "32 \<le> length sample_content" by (simp add: sample_content_def)
  from file_store.rewrap_opens [OF base_config_ok(1,2) sample_fill_fills sample_fill_fills len sample_vault_ok]
  have o: "cwritable sample_vault" "file_saved sample_vault"
    "loadRootKeyForOpen sample_lib file_ops PBKDF2 ''old'' (reopen sample_vault) = Inr sample_content"
    "rootKeyEnvelopeVersion file_ops (reopen sample_vault) = Inr (Some 1)"
    "\<And>k. prefix ''sec_'' k \<Longrightarrow> k \<notin> record_keys \<Longrightarrow> str_part (map_option json_reread (cdata sample_vault k)) =
      str_part (map_option json_reread (cdata base_config k))" by blast+
  show cf: "cfile sample_vault = JsonObject sample_raw"
    using o(2) by (simp add: file_saved_def saved_object_def sample_raw_def)
  have "cdata_ok base_config"
    by (auto simp: cdata_ok_def base_config_def exact_value_def utf8_len_def byte_in_def)
  from cdata_ok_file [OF rewrap_cdata_ok [OF this base_config_ok(2) sample_vault_ok] o(2)]
  show js: "json_object sample_raw" using cf by (metis cfg_file.inject)
  show re: "NewFileConfig (JsonObject sample_raw) True = Inr (reopen sample_vault)"
    using reopen_saved(1) [OF o(2)] o(1) cf by simp
  show "cwritable (reopen sample_vault)" "small_ints file_ops (reopen sample_vault)"
    using NewFileConfig_object [OF js re] by simp_all
  show "stored_cost file_ops PBKDF2 [] (reopen sample_vault) = [Inr 1000, Inr 32]"
    using file_store.rewrap_cost [OF base_config_ok(1,2) sample_fill_fills sample_fill_fills _ sample_vault_ok]
    by (simp add: base_config_ok(3))
  have "GetStr file_ops (reopen sample_vault) ''sec_fs_factory'' = Inr ''AES-CTR''"
      "GetStr file_ops (reopen sample_vault) ''sec_name_factory'' = Inr ''RC4''"
      "GetStr file_ops (reopen sample_vault) ''sec_deriver_factory'' = Inr ''PBKDF2''"
    using o(5) [of "''sec_fs_factory''"] o(5) [of "''sec_name_factory''"] o(5) [of "''sec_deriver_factory''"]
    by (simp_all add: file_store.str_read o(2) found_def record_keys_def verifier_keys envelope_keys base_config_def
        json_reread_def str_part_def utf8_len_def byte_in_def)
  then show "getOpenFactories sample_regs file_ops (reopen sample_vault) = Inr ((), (), PBKDF2)"
    by (simp add: getOpenFactories_def factory_of_def sample_regs_def GetFactory_def GetNameFactory_def
        GetDeriverFactory_def GetOrNilFold_def Registry_Get_def EqualFold_def fold_key_def ascii_lower_def byte_of_def Let_def)
  show "loadRootKeyForOpen sample_lib file_ops PBKDF2 ''old'' (reopen sample_vault) = Inr sample_content"
    "rootKeyEnvelopeVersion file_ops (reopen sample_vault) = Inr (Some 1)" by (fact o)+
qed

definition os_fine :: os_outcome where
  "os_fine = \<lparr>lock_ok = True, read_ok = True, temp_ok = True, chmod_ok = True, temp_write_ok = True,
     temp_sync_ok = True, temp_close_ok = True, staged_writable = True, staged_open_ok = True, staged_sync_ok = True,
     staged_close_ok = True, rename_ok = True\<rparr>"

lemma sample_change:
  "\<exists>file'. ChangeRootPasswordContext sample_lib sample_fill sample_fill sample_fill sample_regs os_fine
    (JsonObject sample_raw) ''/root'' ''old'' ''new'' = (file', None)"
proof -
  obtain key where "loadPasswordWrappingKey sample_lib file_ops PBKDF2 ''old'' (reopen sample_vault) = Inr key"
    "verifyPassword file_ops (Some (reopen sample_vault)) key = None"
    "unwrapRootKey file_ops (reopen sample_vault) key = Inr sample_content"
    using sample_vault_facts(4,5) by (auto simp: loadRootKeyForOpen_def split: sum.splits option.splits)
  with sample_rewrap [OF sample_vault_facts(7-9), of "''new''"] show ?thesis
    by (auto simp: ChangeRootPasswordContext_def stageRootConfig_def commitStagedRootConfig_def
        sample_vault_facts(3,5,6) os_fine_def)
qed

lemma ChangeRootPassword_keeps_content_key_witness:
  "\<exists>file' cfg cfg' d n dv key. ChangeRootPasswordContext sample_lib sample_fill sample_fill sample_fill sample_regs
      os_fine (JsonObject sample_raw) ''/root'' ''old'' ''new'' = (file', None) \<and>
    NewFileConfig (JsonObject sample_raw) True = Inr cfg \<and> NewFileConfig file' True = Inr cfg' \<and>
    getOpenFactories sample_regs file_ops cfg = Inr (d, n, dv) \<and>
    getOpenFactories sample_regs file_ops cfg' = Inr (d, n, dv) \<and>
    loadRootKeyForOpen sample_lib file_ops dv ''old'' cfg = Inr key \<and>
    loadRootKeyForOpen sample_lib file_ops dv ''new'' cfg' = Inr key"
proof -
  obtain file' where "ChangeRootPasswordContext sample_lib sample_fill sample_fill sample_fill sample_regs os_fine
    (JsonObject sample_raw) ''/root'' ''old'' ''new'' = (file', None)" using sample_change by blast
  from ChangeRootPassword_keeps_content_key [OF this sample_vault_facts(2) sample_fill_fills sample_fill_fills] this
  show ?thesis by (simp only: option.case) blast
qed

text \<open>C29. A root opens only when the derived key reproduces the stored tag of the stored challenge.\<close>
theorem loadRootKeyForOpen_verified:
  assumes "loadRootKeyForOpen lib ops dv password c = Inr key"
  shows "\<exists>derived challenge. LoadKey lib ops dv password [] c = Inr derived \<and>
    readPasswordVerifierBytes ops c passwordVerifierChallengeKey 32 = Inr challenge \<and>
    readPasswordVerifierBytes ops c passwordVerifierTagKey 32 =
      Inr (calculatePasswordVerifierTag derived challenge) \<and>
    (key = derived \<or> unwrapRootKey ops c derived = Inr key)"
  using assms
  by (auto simp: loadRootKeyForOpen_def loadPasswordWrappingKey_def verifyPassword_def
      split: sum.splits option.splits if_splits)

lemma loadRootKeyForOpen_verified_witness:
  "\<exists>derived challenge. LoadKey sample_lib file_ops PBKDF2 ''old'' [] (reopen sample_vault) = Inr derived \<and>
    readPasswordVerifierBytes file_ops (reopen sample_vault) passwordVerifierChallengeKey 32 = Inr challenge \<and>
    readPasswordVerifierBytes file_ops (reopen sample_vault) passwordVerifierTagKey 32 =
      Inr (calculatePasswordVerifierTag derived challenge) \<and>
    (sample_content = derived \<or> unwrapRootKey file_ops (reopen sample_vault) derived = Inr sample_content)"
  by (rule loadRootKeyForOpen_verified [OF sample_vault_facts(4)])

text \<open>The version of a verifier is written last: a writer that stops after the challenge or after
  the tag leaves a new root whose every password is refused, not one that accepts a wrong one.\<close>
theorem interrupted_verifier_refused:
  assumes "cwritable f" "cdata f passwordVerifierVersionKey = None" "key \<noteq> []"
  shows "let f1 = fst (FileConfig_SetStr f passwordVerifierChallengeKey challenge);
      f2 = fst (FileConfig_SetStr f1 passwordVerifierTagKey tag)
    in verifyPassword file_ops (Some (reopen f1)) key = Some ErrPasswordVerifierMissing \<and>
       verifyPassword file_ops (Some (reopen f2)) key = Some ErrPasswordVerifierMissing"
proof -
  define f1 where "f1 = fst (FileConfig_SetStr f passwordVerifierChallengeKey challenge)"
  define f2 where "f2 = fst (FileConfig_SetStr f1 passwordVerifierTagKey tag)"
  have "file_saved f1" "file_saved f2" "cdata f1 passwordVerifierVersionKey = None"
      "cdata f2 passwordVerifierVersionKey = None"
    using assms(1,2) by (simp_all add: f1_def f2_def FileConfig_SetStr_def FileConfig_save_def file_saved_def saved_object_def)
  then show ?thesis
    using assms(3) unfolding Let_def f1_def [symmetric] f2_def [symmetric]
    by (simp add: verifyPassword_def file_store.int_read found_def int_part_def)
qed

lemma interrupted_verifier_refused_witness:
  "let f1 = fst (FileConfig_SetStr base_config passwordVerifierChallengeKey ''AAAA'');
      f2 = fst (FileConfig_SetStr f1 passwordVerifierTagKey ''AAAA'')
    in verifyPassword file_ops (Some (reopen f1)) [1] = Some ErrPasswordVerifierMissing \<and>
       verifyPassword file_ops (Some (reopen f2)) [1] = Some ErrPasswordVerifierMissing"
  by (rule interrupted_verifier_refused) (simp_all add: base_config_def empty_config_def passwordVerifierVersionKey_def)

text \<open>A root whose PBKDF2 parameters are stored in the renamed group opens, but its password cannot
  be changed: the new key is to reuse the parameters of the stable group, which are missing.\<close>
theorem renamed_group_password_stuck:
  assumes "NewFileConfig file True = Inr cfg" "getOpenFactories regs file_ops cfg = Inr (d, n, PBKDF2)"
    and "GetStr file_ops cfg ''pbkdf2_salt'' = Inl e1" "GetInt file_ops cfg ''pbkdf2_iterations'' = Inl e2"
    and "GetStr file_ops cfg ''PBKDF2_salt'' = Inr (hex_EncodeToString salt)"
    and "GetInt file_ops cfg ''PBKDF2_iterations'' = Inr it" "GetInt file_ops cfg ''PBKDF2_key_length'' = Inr len"
  shows "LoadKey lib file_ops PBKDF2 pw [] cfg = key_result (pbkdf2_Key lib (string_bytes pw) salt it len) \<and>
    (\<exists>err. ChangeRootPasswordContext lib rs rc rn regs os file path old new = (file, Some err))"
proof
  show "LoadKey lib file_ops PBKDF2 pw [] cfg = key_result (pbkdf2_Key lib (string_bytes pw) salt it len)"
    using assms(3,5-7)
    by (simp add: pbkdf2_LoadKey_def pbkdf2_configGroupForLoad_def read_salt_def int_or_def group_GetStr_def
        group_GetInt_def PrefixedConfig_Get_def WithGroup_def)
  have "\<exists>err. rewrap lib rs rc rn file_ops PBKDF2 new content staged = Inl err"
    if "stageRootConfig os file = Inr staged" for staged content
  proof -
    have "GetInt file_ops staged ''pbkdf2_iterations'' = Inl e2"
      using assms(1,4) that
      by (cases "file") (auto simp: stageRootConfig_def NewFileConfig_def FileConfig_load_def Let_def
          file_ops_def FileConfig_GetInt_def split: if_splits)
    then have "Inl e2 \<in> set (stored_cost file_ops PBKDF2 [] staged)"
      by (simp add: stored_cost_def group_GetInt_def PrefixedConfig_Get_def WithGroup_def)
    from NewKey_fails_closed [OF _ _ _ this, of "change_params new" lib rs]
    show ?thesis by (auto simp: rewrap_def change_params_def)
  qed
  then show "\<exists>err. ChangeRootPasswordContext lib rs rc rn regs os file path old new = (file, Some err)"
    using assms(1,2)
    by (auto simp: ChangeRootPasswordContext_def split: sum.splits option.splits) (metis sum.simps(4))+
qed

definition renamed_raw :: "string \<rightharpoonup> jval" where
  "renamed_raw = [''sec_fs_factory'' \<mapsto> JStr ''AES-CTR'', ''sec_name_factory'' \<mapsto> JStr ''RC4'',
     ''sec_deriver_factory'' \<mapsto> JStr ''PBKDF2'', ''PBKDF2_salt'' \<mapsto> JStr (hex_EncodeToString [1, 2]),
     ''PBKDF2_iterations'' \<mapsto> JNum 1000, ''PBKDF2_key_length'' \<mapsto> JNum 32]"

lemma renamed_group_password_stuck_witness:
  "\<exists>cfg. NewFileConfig (JsonObject renamed_raw) True = Inr cfg \<and>
    LoadKey sample_lib file_ops PBKDF2 ''pw'' [] cfg = key_result (pbkdf2_Key sample_lib (string_bytes ''pw'') [1, 2] 1000 32) \<and>
    (\<exists>err. ChangeRootPasswordContext sample_lib sample_fill sample_fill sample_fill sample_regs os_fine
      (JsonObject renamed_raw) ''/root'' ''pw'' ''new'' = (JsonObject renamed_raw, Some err))"
proof -
  obtain cfg where cfg: "NewFileConfig (JsonObject renamed_raw) True = Inr cfg"
    "strMap cfg = (\<lambda>k. str_part (renamed_raw k))" "intMap cfg = (\<lambda>k. int_part (renamed_raw k))"
    by (simp add: NewFileConfig_def FileConfig_load_def Let_def)
  have n: "int_of_float 1000 = 1000" "int_of_float 32 = 32"
    using int_of_float_of_int [of 1000] int_of_float_of_int [of 32] by simp_all
  note eval = file_ops_def FileConfig_GetStr_def FileConfig_GetInt_def cfg(2,3) found_def renamed_raw_def
    str_part_def int_part_def n
  have "getOpenFactories sample_regs file_ops cfg = Inr ((), (), PBKDF2)"
    by (simp add: getOpenFactories_def factory_of_def eval sample_regs_def GetFactory_def GetNameFactory_def
        GetDeriverFactory_def GetOrNilFold_def Registry_Get_def EqualFold_def fold_key_def ascii_lower_def byte_of_def Let_def)
  from renamed_group_password_stuck [OF cfg(1) this, where salt = "[1, 2]" and it = 1000 and len = 32]
  show ?thesis using cfg(1) by (simp add: eval)
qed

end
