(* ===== verification/Factories.thy ===== *)
theory Factories
  imports AesCtr AesXts ChaCha20 Rc4Data NameCryptor SecPath PasswordProps
begin

text \<open>
  The algorithms a root can be made of: the factories under src/native/sec_fs/crypto_data,
  crypto_name and crypto_hkdf (algorithm_impl/*/factory.go) and their registration when the program
  starts (init.go of each package, imported by crypto_all/init.go). A data factory builds the
  contexts of theories \<open>AesCtr\<close>, \<open>AesXts\<close>, \<open>ChaCha20\<close> and \<open>Rc4Data\<close>; a context of any of them is a
  \<open>data_ctx\<close>.
\<close>

subsection \<open>Data factories\<close>

datatype data_factory = AES_CTR | AES_XTS | CHACHA20 | RC4_data

datatype ComplexityScore = O1 | OLogN | OSqrtN | ON | Unsupported

datatype CryptMode = CryptModeNormal | CryptModeChunked | CryptModeIncremental

record CryptorCapabilities =
  Mode :: CryptMode
  StreamingComplexity :: ComplexityScore
  RandomAccessComplexity :: ComplexityScore
  ModificationComplexity :: ComplexityScore
  RandomDeleteComplexity :: ComplexityScore
  MemoryOverhead :: ComplexityScore
  MaxFileSize :: int
  RecommendedChunkSize :: int
  RequireMinKeyLength :: nat

primrec data_GetName :: "data_factory \<Rightarrow> string" where
  "data_GetName AES_CTR = ''AES-CTR''"
| "data_GetName AES_XTS = ''AES-XTS''"
| "data_GetName CHACHA20 = ''ChaCha20''"
| "data_GetName RC4_data = ''RC4''"

primrec GetRequireMinKeyLength :: "data_factory \<Rightarrow> nat" where
  "GetRequireMinKeyLength AES_CTR = 32"
| "GetRequireMinKeyLength AES_XTS = 64"
| "GetRequireMinKeyLength CHACHA20 = 32"
| "GetRequireMinKeyLength RC4_data = 1"

definition block_capabilities :: "nat \<Rightarrow> CryptorCapabilities" where
  "block_capabilities n = \<lparr>Mode = CryptModeNormal, StreamingComplexity = O1, RandomAccessComplexity = O1,
     ModificationComplexity = O1, RandomDeleteComplexity = O1, MemoryOverhead = O1, MaxFileSize = 0,
     RecommendedChunkSize = 0, RequireMinKeyLength = n\<rparr>"

primrec GetCapabilities :: "data_factory \<Rightarrow> CryptorCapabilities" where
  "GetCapabilities AES_CTR = block_capabilities 32"
| "GetCapabilities AES_XTS = block_capabilities 64"
| "GetCapabilities CHACHA20 = block_capabilities 32"
| "GetCapabilities RC4_data =
    (block_capabilities 1)\<lparr>RandomAccessComplexity := ON, ModificationComplexity := ON\<rparr>"

datatype data_ctx = CtrCtx "bytes ctx" | XtsCtx "unit ctx" | ChaChaCtx "unit ctx" | Rc4Ctx "rc4_state ctx"

text \<open>A nil key has no bytes.\<close>

definition data_NewContext :: "data_factory \<Rightarrow> osfile \<Rightarrow> bytes option \<Rightarrow> io_error + data_ctx" where
  "data_NewContext fac f keyInfo =
    (let key = (case keyInfo of None \<Rightarrow> [] | Some k \<Rightarrow> k) in
     case fac of
       AES_CTR \<Rightarrow> map_sum id CtrCtx (aes_ctr_NewContext f key)
     | AES_XTS \<Rightarrow> map_sum id XtsCtx (aes_xts_NewContext f key)
     | CHACHA20 \<Rightarrow> map_sum id ChaChaCtx (chacha20_NewContext f key)
     | RC4_data \<Rightarrow> map_sum id Rc4Ctx (rc4_NewContext f key))"

primrec data_step :: "'c chacha20_lib \<Rightarrow> bytes \<Rightarrow> data_ctx \<Rightarrow> file_op \<Rightarrow> data_ctx \<times> file_out" where
  "data_step lib key (CtrCtx c) = (\<lambda>op. map_prod CtrCtx id (aes_ctr_step key c op))"
| "data_step lib key (XtsCtx c) = (\<lambda>op. map_prod XtsCtx id (aes_xts_step key c op))"
| "data_step lib key (ChaChaCtx c) = (\<lambda>op. map_prod ChaChaCtx id (chacha20_step lib key c op))"
| "data_step lib key (Rc4Ctx c) = (\<lambda>op. map_prod Rc4Ctx id (rc4_step key c op))"

subsection \<open>Name factories\<close>

datatype name_factory = NAME_GCM | NAME_None | NAME_RC4

primrec name_GetName :: "name_factory \<Rightarrow> string" where
  "name_GetName NAME_GCM = ''AES-256-GCM''"
| "name_GetName NAME_None = ''None''"
| "name_GetName NAME_RC4 = ''RC4''"

primrec name_NewContext :: "name_factory \<Rightarrow> bytes \<Rightarrow> name_error + name_fun \<times> name_fun" where
  "name_NewContext NAME_GCM key =
    (case gcm_name_NewContext key of Inl e \<Rightarrow> Inl e | Inr k \<Rightarrow> Inr (gcm_EncryptName k, gcm_DecryptName k))"
| "name_NewContext NAME_None key = Inr (none_EncryptName, none_DecryptName)"
| "name_NewContext NAME_RC4 key =
    (case rc4_name_NewContext key of Inl e \<Rightarrow> Inl e | Inr k \<Rightarrow> Inr (rc4_EncryptName k, rc4_DecryptName k))"

subsection \<open>Registration at the start of the program\<close>

text \<open>The packages are initialised in the order of their import paths; the errors of \<^verbatim>\<open>Register\<close> are
  not looked at.\<close>

definition register_all :: "('v \<Rightarrow> string) \<Rightarrow> 'v list \<Rightarrow> (string, 'v) registry" where
  "register_all GetName vs = foldl (\<lambda>r v. fst (Register GetName r (Some v))) NewRegistry vs"

definition crypto_all :: "(data_factory, name_factory) factories" where
  "crypto_all = \<lparr>
     data_factories = register_all data_GetName [AES_CTR, AES_XTS, CHACHA20, RC4_data],
     name_factories = register_all name_GetName [NAME_GCM, NAME_None, NAME_RC4],
     deriver_factories = register_all deriver_name [Argon2id, HKDF_SHA_256, PBKDF2, Scrypt]\<rparr>"

lemma crypto_all_eq:
  "data_factories crypto_all = [(''AES-CTR'', AES_CTR), (''AES-XTS'', AES_XTS), (''ChaCha20'', CHACHA20), (''RC4'', RC4_data)]"
  "name_factories crypto_all = [(''AES-256-GCM'', NAME_GCM), (''None'', NAME_None), (''RC4'', NAME_RC4)]"
  "deriver_factories crypto_all =
    [(''Argon2id'', Argon2id), (''HKDF-SHA-256'', HKDF_SHA_256), (''PBKDF2'', PBKDF2), (''scrypt'', Scrypt)]"
  by (simp_all add: crypto_all_def register_all_def Register_def NewRegistry_def ContainsFold_def Registry_Contains_def
      Registry_Add_def EqualFold_def fold_key_def ascii_lower_def byte_of_def Let_def)

text \<open>Every factory is found under the name it reports, and under the names of older configuration
  files: any mixture of letter case, \<^verbatim>\<open>aes-gcm-name\<close> and \<^verbatim>\<open>hkdf\<close>.\<close>

lemma registry_ok_crypto_all:
  "registry_ok data_GetName (data_factories crypto_all)" "registry_ok name_GetName (name_factories crypto_all)"
  "registry_ok deriver_name (deriver_factories crypto_all)"
  by (simp_all add: registry_ok_def crypto_all_eq fold_key_def ascii_lower_def byte_of_def)

end
