(* ===== verification/RootFactory.thy ===== *)
theory RootFactory
  imports Factories SecRoot
begin

text \<open>
  Creating and opening roots: src/native/sec_fs/sec_root_factory.go and password_hint.go, over the
  stores, the key derivers, the password records and the factories. The directory of a root is seen
  here through its configuration files, a map from file names to their contents; the outcomes of
  \<^verbatim>\<open>os.MkdirAll\<close> and of writing the file are arguments, as are the bytes that \<^verbatim>\<open>rand.Read\<close> gives for
  the salt, the content key, the challenge and the nonce.
\<close>

type_synonym cfg_dir = "string \<Rightarrow> cfg_file"

text \<open>The file that \<^verbatim>\<open>filepath.Join(rootPath, name)\<close> names. An empty name leads to the directory
  itself, which \<^verbatim>\<open>NewFileConfig\<close> fails to read, as it fails on a file that is not JSON.\<close>

definition config_file :: "cfg_dir \<Rightarrow> string \<Rightarrow> cfg_file" where
  "config_file dir name = (if clean_components (components name) = [] then NotJson else dir name)"

datatype factory_error =
    FactoryPathEmpty
  | FactoryConfig string             \<comment> \<open>an error of \<^verbatim>\<open>NewConfigError\<close> for a key\<close>
  | FactoryPassword pw_error
  | FactoryMkdir
  | FactoryName name_error
  | FactoryPath path_error
  | FactoryNoConfigFile

definition IsNoEncryptionErr :: "factory_error \<Rightarrow> bool" where
  "IsNoEncryptionErr e \<longleftrightarrow> e = FactoryNoConfigFile"

definition ConfigFileName :: string where
  "ConfigFileName = ''_cryption.json''"

lemma config_file_default [simp]:
  "config_file dir ''_cryption.json'' = dir ''_cryption.json''" "config_file dir ConfigFileName = dir ConfigFileName"
proof -
  have "clean_components (components ''_cryption.json'') = [''_cryption.json'']" by code_simp
  then show "config_file dir ''_cryption.json'' = dir ''_cryption.json''" "config_file dir ConfigFileName = dir ConfigFileName"
    by (simp_all add: config_file_def ConfigFileName_def)
qed

subsection \<open>Options\<close>

record CreateRootOptions =
  DataFactoryName :: string
  NameFactoryName :: string
  DeriverFactoryName :: string
  CreateKeyStrengthMs :: int
  CreateConfigFileName :: string
  PasswordChangeable :: bool
  PasswordHint :: string

datatype CreateRootOption =
    WithDataFactory string
  | WithNameFactory string
  | WithDeriverFactory string
  | WithKeyStrengthMs int
  | WithConfigFileName string
  | WithPasswordChangeable bool
  | WithPasswordHint string

primrec create_option :: "CreateRootOption \<Rightarrow> CreateRootOptions \<Rightarrow> CreateRootOptions" where
  "create_option (WithDataFactory n) o1 = o1\<lparr>DataFactoryName := n\<rparr>"
| "create_option (WithNameFactory n) o1 = o1\<lparr>NameFactoryName := n\<rparr>"
| "create_option (WithDeriverFactory n) o1 = o1\<lparr>DeriverFactoryName := n\<rparr>"
| "create_option (WithKeyStrengthMs ms) o1 = o1\<lparr>CreateKeyStrengthMs := ms\<rparr>"
| "create_option (WithConfigFileName n) o1 = o1\<lparr>CreateConfigFileName := n\<rparr>"
| "create_option (WithPasswordChangeable b) o1 = o1\<lparr>PasswordChangeable := b\<rparr>"
| "create_option (WithPasswordHint h) o1 = o1\<lparr>PasswordHint := h\<rparr>"

definition applyCreateOptions :: "CreateRootOption list \<Rightarrow> CreateRootOptions" where
  "applyCreateOptions options =
    foldl (\<lambda>o1 option. create_option option o1)
      \<lparr>DataFactoryName = [], NameFactoryName = [], DeriverFactoryName = [], CreateKeyStrengthMs = 100,
       CreateConfigFileName = ConfigFileName, PasswordChangeable = False, PasswordHint = []\<rparr> options"

record OpenOptions =
  open_ignoreMatcher :: "IIgnoreMatcher option"
  configFileName :: string

datatype OpenOption = WithIgnoreMatcher "IIgnoreMatcher option" | WithOpenConfigFileName string

primrec open_option :: "OpenOption \<Rightarrow> OpenOptions \<Rightarrow> OpenOptions" where
  "open_option (WithIgnoreMatcher m) o1 = o1\<lparr>open_ignoreMatcher := m\<rparr>"
| "open_option (WithOpenConfigFileName n) o1 = o1\<lparr>configFileName := n\<rparr>"

definition applyOpenOptions :: "OpenOption list \<Rightarrow> OpenOptions" where
  "applyOpenOptions options =
    foldl (\<lambda>o1 option. open_option option o1)
      \<lparr>open_ignoreMatcher = None, configFileName = ConfigFileName\<rparr> options"

subsection \<open>The default ignore matcher\<close>

definition HasPrefix :: "string \<Rightarrow> string \<Rightarrow> bool" where
  "HasPrefix s pre \<longleftrightarrow> take (length pre) s = pre"

definition newDefaultIgnoreMatcher :: "string \<Rightarrow> IIgnoreMatcher" where
  "newDefaultIgnoreMatcher name =
    (let name = (if name = [] then ConfigFileName else name) in
     \<lparr>ShouldIgnore1 = \<lambda>encryptedName isDir.
        if isDir then encryptedName = ''.transfer_v3''
        else encryptedName = name \<or> HasPrefix encryptedName ''.safe_disk.webdav.'',
      ShouldIgnore2 = \<lambda>decryptedName isDir.
        if isDir then False else decryptedName = name \<or> HasPrefix decryptedName ''.safe_disk.webdav.''\<rparr>)"

subsection \<open>The password hint\<close>

definition passwordHintConfigKey :: string where
  "passwordHintConfigKey = ''sec_password_hint''"

text \<open>\<^verbatim>\<open>utf8.ValidString\<close>: the string is a sequence of UTF-8 sequences.\<close>

function utf8_ValidString :: "string \<Rightarrow> bool" where
  "utf8_ValidString [] = True"
| "utf8_ValidString (a # s) =
    (case utf8_len (a # s) of 0 \<Rightarrow> False | Suc n \<Rightarrow> utf8_ValidString (drop n s))"
  by pat_completeness auto
termination
  by (relation "measure length") auto

definition validatePasswordHint :: "string \<Rightarrow> pw_error option" where
  "validatePasswordHint hint =
    (if \<not> utf8_ValidString hint then Some (ErrInvalidConfig passwordHintConfigKey)
     else if 256 < length hint then Some (ErrInvalidConfig passwordHintConfigKey)
     else None)"

definition setPasswordHint :: "'c config_ops \<Rightarrow> 'c \<Rightarrow> string \<Rightarrow> 'c \<times> pw_error option" where
  "setPasswordHint ops c hint =
    (case validatePasswordHint hint of Some e \<Rightarrow> (c, Some e)
     | None \<Rightarrow>
       (case SetStr ops c passwordHintConfigKey hint of
          (c', Some _) \<Rightarrow> (c', Some (ErrPwStore passwordHintConfigKey))
        | (c', None) \<Rightarrow> (c', None)))"

definition writePasswordHint :: "'c config_ops \<Rightarrow> 'c \<Rightarrow> string \<Rightarrow> 'c \<times> pw_error option" where
  "writePasswordHint ops c hint =
    (case validatePasswordHint hint of Some e \<Rightarrow> (c, Some e)
     | None \<Rightarrow> if hint = [] then (c, None) else setPasswordHint ops c hint)"

text \<open>The getter of a file store has no error but the missing key.\<close>

definition ReadRootPasswordHint :: "cfg_file \<Rightarrow> string \<Rightarrow> pw_error + string" where
  "ReadRootPasswordHint file rootPath =
    (if rootPath = [] then Inl ErrPwPath
     else case NewFileConfig file True of Inl _ \<Rightarrow> Inl (ErrInvalidConfig ''config'')
     | Inr cfg \<Rightarrow>
       (case GetStr file_ops cfg passwordHintConfigKey of
          Inl (ErrKeyNotFound _) \<Rightarrow> Inr []
        | Inl _ \<Rightarrow> Inl (ErrInvalidConfig passwordHintConfigKey)
        | Inr hint \<Rightarrow> (case validatePasswordHint hint of Some e \<Rightarrow> Inl e | None \<Rightarrow> Inr hint)))"

definition UpdateRootPasswordHintContext ::
  "kdf_lib \<Rightarrow> ('d, 'n) factories \<Rightarrow> os_outcome \<Rightarrow> cfg_file \<Rightarrow> string \<Rightarrow> string \<Rightarrow> string \<Rightarrow>
    cfg_file \<times> pw_error option" where
  "UpdateRootPasswordHintContext lib regs os file rootPath password hint =
    (if rootPath = [] then (file, Some ErrPwPath)
     else if password = [] then (file, Some ErrInvalidPassword)
     else case validatePasswordHint hint of Some e \<Rightarrow> (file, Some e)
     | None \<Rightarrow>
       if \<not> lock_ok os then (file, Some ErrPwLock)
       else case NewFileConfig file True of Inl _ \<Rightarrow> (file, Some (ErrInvalidConfig ''config''))
       | Inr cfg \<Rightarrow>
         (case getOpenFactories regs file_ops cfg of Inl e \<Rightarrow> (file, Some e)
          | Inr (_, _, dv) \<Rightarrow>
            (case loadPasswordWrappingKey lib file_ops dv password cfg of Inl e \<Rightarrow> (file, Some e)
             | Inr key \<Rightarrow>
               (case verifyPassword file_ops (Some cfg) key of Some e \<Rightarrow> (file, Some e)
                | None \<Rightarrow>
                  (case stageRootConfig os file of Inl e \<Rightarrow> (file, Some e)
                   | Inr staged \<Rightarrow>
                     (case setPasswordHint file_ops staged hint of
                        (_, Some e) \<Rightarrow> (file, Some e)
                      | (staged', None) \<Rightarrow> commitStagedRootConfig os staged' file))))))"

subsection \<open>Choosing the factories of a new root\<close>

definition DefaultDataFactoryName :: string where
  "DefaultDataFactoryName = ''AES-CTR''"

definition DefaultNameFactoryName :: string where
  "DefaultNameFactoryName = ''None''"

definition DefaultDeriverFactoryName :: string where
  "DefaultDeriverFactoryName = ''Argon2id''"

text \<open>The option, else the configuration, else the default, else the only one registered.\<close>

definition create_factory ::
  "(string \<Rightarrow> 'v option) \<Rightarrow> (string, 'v) registry \<Rightarrow> 'c config_ops \<Rightarrow> 'c \<Rightarrow> string \<Rightarrow> string \<Rightarrow> string \<Rightarrow>
    factory_error + 'v option" where
  "create_factory lookup reg ops c optName key defaultName =
    (if optName \<noteq> [] then
       (case lookup optName of None \<Rightarrow> Inl (FactoryConfig key) | Some v \<Rightarrow> Inr (Some v))
     else let stored = (case GetStr ops c key of Inl _ \<Rightarrow> None
                        | Inr name \<Rightarrow> if name \<noteq> [] then lookup name else None)
       in case stored of Some v \<Rightarrow> Inr (Some v)
        | None \<Rightarrow>
          (case lookup defaultName of Some v \<Rightarrow> Inr (Some v)
           | None \<Rightarrow> (case Registry_Keys reg of [name] \<Rightarrow> Inr (lookup name) | _ \<Rightarrow> Inr None)))"

definition getCreateFactories ::
  "(data_factory, name_factory) factories \<Rightarrow> 'c config_ops \<Rightarrow> 'c \<Rightarrow> CreateRootOptions \<Rightarrow>
    factory_error + data_factory \<times> name_factory \<times> deriver" where
  "getCreateFactories regs ops c opts =
    (case create_factory (GetFactory (data_factories regs)) (data_factories regs) ops c (DataFactoryName opts)
        ''sec_fs_factory'' DefaultDataFactoryName of Inl e \<Rightarrow> Inl e
     | Inr d \<Rightarrow>
       (case create_factory (GetNameFactory (name_factories regs)) (name_factories regs) ops c (NameFactoryName opts)
           ''sec_name_factory'' DefaultNameFactoryName of Inl e \<Rightarrow> Inl e
        | Inr n \<Rightarrow>
          (case create_factory (GetDeriverFactory (deriver_factories regs)) (deriver_factories regs) ops c
              (DeriverFactoryName opts) ''sec_deriver_factory'' DefaultDeriverFactoryName of Inl e \<Rightarrow> Inl e
           | Inr dv \<Rightarrow>
             (case (d, n, dv) of
                (None, _, _) \<Rightarrow> Inl (FactoryConfig ''sec_fs_factory'')
              | (Some _, None, _) \<Rightarrow> Inl (FactoryConfig ''sec_name_factory'')
              | (Some _, Some _, None) \<Rightarrow> Inl (FactoryConfig ''sec_deriver_factory'')
              | (Some d, Some n, Some dv) \<Rightarrow> Inr (d, n, dv)))))"

text \<open>The name is stored as the option spells it; an error of the setter is not looked at.\<close>

definition store_factory :: "'c config_ops \<Rightarrow> string \<Rightarrow> string \<Rightarrow> string \<Rightarrow> 'c \<Rightarrow> 'c" where
  "store_factory ops key optName ownName c =
    (let factoryName = (if optName = [] then ownName else optName) in
     if factoryName \<noteq> [] then fst (SetStr ops c key factoryName) else c)"

definition store_factories ::
  "'c config_ops \<Rightarrow> CreateRootOptions \<Rightarrow> data_factory \<Rightarrow> name_factory \<Rightarrow> deriver \<Rightarrow> 'c \<Rightarrow> 'c" where
  "store_factories ops opts d n dv c =
    store_factory ops ''sec_deriver_factory'' (DeriverFactoryName opts) (deriver_name dv)
      (store_factory ops ''sec_name_factory'' (NameFactoryName opts) (name_GetName n)
        (store_factory ops ''sec_fs_factory'' (DataFactoryName opts) (data_GetName d) c))"

subsection \<open>Creating a root\<close>

record randomness =
  rnd_salt :: rand
  rnd_content :: rand
  rnd_challenge :: rand
  rnd_nonce :: rand

text \<open>The key length that both algorithms accept, at least the one of a wrapping key.\<close>

definition required_key_length :: "data_factory \<Rightarrow> name_factory \<Rightarrow> nat" where
  "required_key_length d n =
    (let requiredKeyLength = GetRequireMinKeyLength d;
         requiredKeyLength = (if name_GetName n = ''AES-256-GCM'' \<and> requiredKeyLength < 32 then 32 else requiredKeyLength)
     in if requiredKeyLength < 32 then 32 else requiredKeyLength)"

definition create_params :: "CreateRootOptions \<Rightarrow> string \<Rightarrow> nat \<Rightarrow> MakeKeyParams" where
  "create_params opts password keyLength =
    \<lparr>Password = password, KeyStrengthMs = CreateKeyStrengthMs opts, StaticSalt = False,
     KeyLength = (if PasswordChangeable opts then 32 else int keyLength), ReuseStoredParameters = False\<rparr>"

text \<open>The records of a new root: verifier, hint and, for a changeable password, the envelope. The
  store is returned in every case: what was written before an error stays.\<close>

definition write_records ::
  "randomness \<Rightarrow> 'c config_ops \<Rightarrow> CreateRootOptions \<Rightarrow> bytes \<Rightarrow> bytes \<Rightarrow> 'c \<Rightarrow> 'c \<times> pw_error option" where
  "write_records rs ops opts key contentKey c =
    (case writePasswordVerifier (rnd_challenge rs) ops (Some c) key of
       (c1, Some e) \<Rightarrow> (the c1, Some e)
     | (c1, None) \<Rightarrow>
       (case writePasswordHint ops (the c1) (PasswordHint opts) of
          (c2, Some e) \<Rightarrow> (c2, Some e)
        | (c2, None) \<Rightarrow>
          if PasswordChangeable opts then writeRootKeyEnvelope (rnd_nonce rs) ops c2 key contentKey
          else (c2, None)))"

text \<open>The name cryptor that the code makes and closes again writes nothing to the store.\<close>

definition create_root_key ::
  "kdf_lib \<Rightarrow> randomness \<Rightarrow> 'c config_ops \<Rightarrow> CreateRootOptions \<Rightarrow> string \<Rightarrow> data_factory \<Rightarrow> name_factory \<Rightarrow> deriver \<Rightarrow>
    'c \<Rightarrow> 'c \<times> (factory_error + bytes)" where
  "create_root_key lib rs ops opts password d n dv c =
    (let keyLength = required_key_length d n in
     case NewKey lib (rnd_salt rs) ops dv (Some (create_params opts password keyLength)) (Some ([], c)) of
       (cfg1, Inl e) \<Rightarrow> (snd (the cfg1), Inl (FactoryPassword (ErrPwDerivation e)))
     | (cfg1, Inr key) \<Rightarrow>
       (case (if PasswordChangeable opts then newRandomRootKey (rnd_content rs) keyLength else Inr key) of
          Inl e \<Rightarrow> (snd (the cfg1), Inl (FactoryPassword e))
        | Inr contentKey \<Rightarrow>
          (case write_records rs ops opts key contentKey (snd (the cfg1)) of
             (c', Some e) \<Rightarrow> (c', Inl (FactoryPassword e))
           | (c', None) \<Rightarrow> (c', Inr contentKey))))"

definition CreateRootConfigQuick ::
  "kdf_lib \<Rightarrow> randomness \<Rightarrow> (data_factory, name_factory) factories \<Rightarrow> bool \<Rightarrow> bool \<Rightarrow> cfg_dir \<Rightarrow> string \<Rightarrow> string \<Rightarrow>
    CreateRootOption list \<Rightarrow> cfg_dir \<times> (factory_error + FileConfig)" where
  "CreateRootConfigQuick lib rs regs mkdir_ok writable dir rootPath password options =
    (let opts = applyCreateOptions options; file = config_file dir (CreateConfigFileName opts) in
     if rootPath = [] then (dir, Inl FactoryPathEmpty)
     else case validatePasswordHint (PasswordHint opts) of Some e \<Rightarrow> (dir, Inl (FactoryPassword e))
     | None \<Rightarrow>
       if \<not> mkdir_ok then (dir, Inl FactoryMkdir)
       else case NewFileConfig file writable of Inl _ \<Rightarrow> (dir, Inl (FactoryConfig ''config''))
       | Inr cfg \<Rightarrow>
         (case getCreateFactories regs file_ops cfg opts of Inl e \<Rightarrow> (dir, Inl e)
          | Inr (d, n, dv) \<Rightarrow>
            let cfg1 = store_factories file_ops opts d n dv cfg in
            (case create_root_key lib rs file_ops opts password d n dv cfg1 of
               (cfg2, Inl e) \<Rightarrow> (dir(CreateConfigFileName opts := cfile cfg2), Inl e)
             | (cfg2, Inr _) \<Rightarrow> (dir(CreateConfigFileName opts := cfile cfg2), Inr cfg2))))"

text \<open>The internal variant for a key the caller has made. \<^verbatim>\<open>NewKey\<close> is called for its stored parameters
  only; its result is not looked at.\<close>

definition createRootConfig ::
  "kdf_lib \<Rightarrow> randomness \<Rightarrow> (data_factory, name_factory) factories \<Rightarrow> bool \<Rightarrow> bool \<Rightarrow> cfg_dir \<Rightarrow> string \<Rightarrow> bytes option \<Rightarrow>
    CreateRootOption list \<Rightarrow> cfg_dir \<times> (factory_error + FileConfig)" where
  "createRootConfig lib rs regs mkdir_ok writable dir rootPath key options =
    (let opts = applyCreateOptions options; name = CreateConfigFileName opts in
     if rootPath = [] then (dir, Inl FactoryPathEmpty)
     else case key of None \<Rightarrow> (dir, Inl (FactoryConfig ''keyInfo''))
     | Some k \<Rightarrow>
       (case validatePasswordHint (PasswordHint opts) of Some e \<Rightarrow> (dir, Inl (FactoryPassword e))
        | None \<Rightarrow>
          if \<not> mkdir_ok then (dir, Inl FactoryMkdir)
          else case NewFileConfig (config_file dir name) writable of Inl _ \<Rightarrow> (dir, Inl (FactoryConfig ''config''))
          | Inr cfg \<Rightarrow>
            (case getCreateFactories regs file_ops cfg opts of Inl e \<Rightarrow> (dir, Inl e)
             | Inr (d, n, dv) \<Rightarrow>
               let cfg1 = store_factories file_ops opts d n dv cfg;
                   params = \<lparr>Password = [], KeyStrengthMs = CreateKeyStrengthMs opts, StaticSalt = True,
                     KeyLength = 0, ReuseStoredParameters = False\<rparr>;
                   cfg2 = snd (the (fst (NewKey lib (rnd_salt rs) file_ops dv (Some params) (Some ([], cfg1)))))
               in
               (case writePasswordVerifier (rnd_challenge rs) file_ops (Some cfg2) k of
                  (cfg3, Some e) \<Rightarrow> (dir(name := cfile (the cfg3)), Inl (FactoryPassword e))
                | (cfg3, None) \<Rightarrow>
                  (case writePasswordHint file_ops (the cfg3) (PasswordHint opts) of
                     (cfg4, Some e) \<Rightarrow> (dir(name := cfile cfg4), Inl (FactoryPassword e))
                   | (cfg4, None) \<Rightarrow> (dir(name := cfile cfg4), Inr cfg4))))))"

subsection \<open>Opening a root\<close>

definition newRoot ::
  "path_env \<Rightarrow> bool \<Rightarrow> string \<Rightarrow> bytes option \<Rightarrow> name_ctx \<Rightarrow> data_factory option \<Rightarrow> 'cfg option \<Rightarrow> IIgnoreMatcher option \<Rightarrow>
    factory_error + data_ctx secRoot" where
  "newRoot env mkdir_ok rootPath key cryptor factory cfg matcher =
    (if rootPath = [] then Inl FactoryPathEmpty
     else case key of None \<Rightarrow> Inl (FactoryConfig ''keyInfo'')
     | Some _ \<Rightarrow>
       (case factory of None \<Rightarrow> Inl (FactoryConfig ''factory'')
        | Some fac \<Rightarrow>
          (case cfg of None \<Rightarrow> Inl (FactoryConfig ''cfg'')
           | Some _ \<Rightarrow>
             let matcher = (case matcher of None \<Rightarrow> newDefaultIgnoreMatcher ConfigFileName | Some m \<Rightarrow> m) in
             (case ParsePathInfoEasy env rootPath of Inl e \<Rightarrow> Inl (FactoryPath e)
              | Inr info \<Rightarrow>
                if \<not> mkdir_ok then Inl FactoryMkdir
                else Inr \<lparr>rootPathInfo = info, nameCryptor = cryptor, ignoreMatcher = Some matcher, keyInfo = key,
                       newContext = data_NewContext fac, rclosed = False\<rparr>))))"

definition openRoot ::
  "path_env \<Rightarrow> (data_factory, name_factory) factories \<Rightarrow> bool \<Rightarrow> cfg_dir \<Rightarrow> string \<Rightarrow> bytes option \<Rightarrow>
    FileConfig option \<Rightarrow> OpenOption list \<Rightarrow> factory_error + data_ctx secRoot" where
  "openRoot env regs mkdir_ok dir rootPath key cfg options =
    (case key of None \<Rightarrow> Inl (FactoryConfig ''keyInfo'')
     | Some k \<Rightarrow>
       let opts = applyOpenOptions options in
       (case (case cfg of Some c \<Rightarrow> Inr c
              | None \<Rightarrow> if config_file dir (configFileName opts) = NoFile then Inl FactoryNoConfigFile
                        else (case NewFileConfig (config_file dir (configFileName opts)) True of
                                Inl _ \<Rightarrow> Inl (FactoryConfig ''config'') | Inr c \<Rightarrow> Inr c)) of
          Inl e \<Rightarrow> Inl e
        | Inr c \<Rightarrow>
          (case getOpenFactories regs file_ops c of Inl e \<Rightarrow> Inl (FactoryPassword e)
           | Inr (d, n, _) \<Rightarrow>
             (case name_NewContext n k of Inl e \<Rightarrow> Inl (FactoryName e)
              | Inr cryptor \<Rightarrow>
                newRoot env mkdir_ok rootPath key (Some cryptor) (Some d) (Some c) (open_ignoreMatcher opts)))))"

definition OpenRootQuick ::
  "path_env \<Rightarrow> kdf_lib \<Rightarrow> (data_factory, name_factory) factories \<Rightarrow> bool \<Rightarrow> cfg_dir \<Rightarrow> string \<Rightarrow> string \<Rightarrow>
    OpenOption list \<Rightarrow> factory_error + data_ctx secRoot" where
  "OpenRootQuick env lib regs mkdir_ok dir rootPath inputPassword options =
    (let opts = applyOpenOptions options in
     case NewFileConfig (config_file dir (configFileName opts)) True of Inl _ \<Rightarrow> Inl (FactoryConfig ''config'')
     | Inr cfg \<Rightarrow>
       (case getOpenFactories regs file_ops cfg of Inl e \<Rightarrow> Inl (FactoryPassword e)
        | Inr (_, _, dv) \<Rightarrow>
          (case loadRootKeyForOpen lib file_ops dv inputPassword cfg of Inl e \<Rightarrow> Inl (FactoryPassword e)
           | Inr key \<Rightarrow> openRoot env regs mkdir_ok dir rootPath (Some key) (Some cfg) options)))"

text \<open>A second root on the same directory, with its own copy of the key and the same matcher.\<close>

definition CloneRootShallow ::
  "path_env \<Rightarrow> (data_factory, name_factory) factories \<Rightarrow> bool \<Rightarrow> cfg_dir \<Rightarrow> data_ctx secRoot option \<Rightarrow> FileConfig \<Rightarrow>
    factory_error + root_error + data_ctx secRoot" where
  "CloneRootShallow env regs mkdir_ok dir r cfg =
    (case r of None \<Rightarrow> Inr (Inl ErrRootIsNil)
     | Some rt \<Rightarrow>
       if rclosed rt then Inr (Inl ErrRootClosed)
       else case openRoot env regs mkdir_ok dir (pathInfo_Encode (rootPathInfo rt)) (keyInfo rt) (Some cfg)
           [WithIgnoreMatcher (ignoreMatcher rt)] of
         Inl e \<Rightarrow> Inl e | Inr cloned \<Rightarrow> Inr (Inr cloned))"

text \<open>The directory is renamed and the root points to the new one. \<^verbatim>\<open>ParsePathInfoMust\<close> panics on a path
  that does not parse, after the rename: \<open>None\<close>.\<close>

definition MoveRoot ::
  "path_env \<Rightarrow> 'c secRoot option \<Rightarrow> disk \<Rightarrow> string \<Rightarrow> disk \<times> ('c secRoot option \<times> root_error option) option" where
  "MoveRoot env r d targetPath =
    (case r of None \<Rightarrow> (d, Some (r, Some ErrRootIsNil))
     | Some rt \<Rightarrow>
       if rclosed rt then (d, Some (r, Some ErrRootClosed))
       else case os_Rename d (components (pathInfo_Encode (rootPathInfo rt))) (components targetPath) of
         (d', Some e) \<Rightarrow> (d', Some (r, Some (RootOsError ''rename'' e)))
       | (d', None) \<Rightarrow>
         (case ParsePathInfoEasy env targetPath of Inl _ \<Rightarrow> (d', None)
          | Inr info \<Rightarrow> (d', Some (Some (rt\<lparr>rootPathInfo := info\<rparr>), None))))"

subsection \<open>Finding the root of a path\<close>

text \<open>The directories from \<open>p\<close> up to the top.\<close>

function find_up :: "disk \<Rightarrow> string \<Rightarrow> fpath \<Rightarrow> fpath option" where
  "find_up d name p =
    (if (case os_Stat d (p @ [name]) of Inr _ \<Rightarrow> True | Inl _ \<Rightarrow> False) then Some p
     else if p = [] then None else find_up d name (butlast p))"
  by pat_completeness auto
termination
  by (relation "measure (\<lambda>(d, name, p). length p)") auto

declare find_up.simps [simp del]

text \<open>\<open>json\<close> reads the content of a configuration file. The result has the store, the root directory and
  the path from there to where the search began.\<close>

definition FindRootConfig ::
  "(bytes \<Rightarrow> cfg_file) \<Rightarrow> disk \<Rightarrow> fpath \<Rightarrow> OpenOption list \<Rightarrow> factory_error + FileConfig \<times> fpath \<times> fpath" where
  "FindRootConfig json d absPath options =
    (let opts = applyOpenOptions options;
         start = (case os_Stat d absPath of Inr NDir \<Rightarrow> absPath | _ \<Rightarrow> butlast absPath)
     in case find_up d (configFileName opts) start of None \<Rightarrow> Inl FactoryNoConfigFile
      | Some currentPath \<Rightarrow>
        (case os_lookup d (currentPath @ [configFileName opts]) of
           Some (NFile content) \<Rightarrow>
             (case NewFileConfig (json content) True of Inl _ \<Rightarrow> Inl (FactoryConfig ''config'')
              | Inr cfg \<Rightarrow> Inr (cfg, currentPath, drop (length currentPath) absPath))
         | _ \<Rightarrow> Inl (FactoryConfig ''config'')))"

end
