(* ===== verification/RootFactoryProps.thy ===== *)
theory RootFactoryProps
  imports RootFactory PasswordChange
begin

text \<open>
  Properties of the root factory: a root that has been created opens with its password and gives
  a key both algorithms accept; changing the hint keeps the root; the search for a configuration
  file finds the nearest one.
\<close>

lemma utf8_coerce_valid [simp]: "utf8_ValidString s \<Longrightarrow> utf8_coerce s = s"
  by (induction s rule: utf8_ValidString.induct) (auto split: nat.splits)

subsection \<open>The records of a new root, over any store\<close>

context typed_config
begin

definition same_at :: "string \<Rightarrow> 'a \<Rightarrow> 'a \<Rightarrow> bool" where
  "same_at k c c' \<longleftrightarrow> str_of c' k = str_of c k \<and> int_of c' k = int_of c k \<and> bool_of c' k = bool_of c k"

lemma same_at_refl [simp]: "same_at k c c"
  by (simp add: same_at_def)

lemma same_at_trans: "same_at k a b \<Longrightarrow> same_at k b c \<Longrightarrow> same_at k a c"
  by (simp add: same_at_def)

lemma same_at_put:
  "k \<noteq> key \<Longrightarrow> same_at k c (fst (SetStr ops c key s))" "k \<noteq> key \<Longrightarrow> same_at k c (fst (SetInt ops c key n))"
  by (simp_all add: same_at_def other_facts bool_other)

lemma same_at_group:
  "k \<noteq> pre @ key \<Longrightarrow> same_at k c (fst (group_SetStr ops pre c key s))"
  "k \<noteq> pre @ key \<Longrightarrow> same_at k c (fst (group_SetInt ops pre c key n))"
  by (simp_all add: group_SetStr_def group_SetInt_def PrefixedConfig_Set_def same_at_put)

lemma NewKey_same_at:
  assumes "NewKey lib rnd ops dv params (Some (pre, c)) = (Some (pre', c'), r)"
    and "\<And>g k. g \<in> {''argon2'', ''hkdf'', ''pbkdf2'', ''scrypt''} \<Longrightarrow> key \<noteq> WithGroup pre g @ k"
  shows "same_at key c c'"
  using assms
  by (cases dv)
    (auto simp: argon2_NewKey_def hkdf_NewKey_def pbkdf2_NewKey_def scrypt_NewKey_def argon2_save_def hkdf_save_def
      pbkdf2_save_def scrypt_save_def Let_def split: sum.splits option.splits prod.splits
      intro!: same_at_trans [OF _ same_at_group(1)] same_at_trans [OF _ same_at_group(2)])

lemma NewKey_keeps_sec:
  assumes "NewKey lib rnd ops dv params (Some ([], c)) = (Some ([], c'), r)" "prefix ''sec_'' key"
  shows "same_at key c c'"
  by (rule NewKey_same_at [OF assms(1)]) (use assms(2) in \<open>auto simp: WithGroup_def\<close>)

lemma put_result:
  "SetStr ops c k s = (c', e) \<Longrightarrow> c' = fst (SetStr ops c k s)" "SetInt ops c k n = (c', e) \<Longrightarrow> c' = fst (SetInt ops c k n)"
  by simp_all

lemma writePasswordVerifier_same_at:
  assumes "writePasswordVerifier rnd ops (Some c) key = (Some c', None)"
    and "k \<notin> {passwordVerifierVersionKey, passwordVerifierChallengeKey, passwordVerifierTagKey}"
  shows "same_at k c c'"
  using assms
  by (auto simp: writePasswordVerifier_def Let_def split: if_splits option.splits prod.splits
      dest!: put_result intro!: same_at_trans [OF _ same_at_put(1)] same_at_trans [OF _ same_at_put(2)])

lemma writePasswordHint_same_at:
  assumes "writePasswordHint ops c hint = (c', None)" "k \<noteq> passwordHintConfigKey"
  shows "same_at k c c'"
  using assms
  by (auto simp: writePasswordHint_def setPasswordHint_def split: if_splits option.splits prod.splits
      dest!: put_result intro!: same_at_put)

lemma setPasswordHint_ok:
  assumes "usable c" "setPasswordHint ops c hint = (c', None)"
  shows "usable c' \<and> saved c' \<and> str_of c' passwordHintConfigKey = Some hint"
proof -
  have "validatePasswordHint hint = None"
    using assms(2) by (auto simp: setPasswordHint_def split: option.splits)
  then have "utf8_coerce hint = hint" "c' = fst (SetStr ops c passwordHintConfigKey hint)"
    using assms(2) by (auto simp: setPasswordHint_def validatePasswordHint_def split: if_splits prod.splits option.splits)
  with assms(1) show ?thesis by (simp add: put_facts str_put)
qed

lemma writePasswordHint_ok:
  assumes "usable c" "saved c" "writePasswordHint ops c hint = (c', None)"
  shows "usable c' \<and> saved c'"
  using assms setPasswordHint_ok [of c hint c']
  by (auto simp: writePasswordHint_def split: if_splits option.splits)

lemma LoadKey_same:
  assumes "saved c" "saved c'" "\<And>k. \<not> prefix ''sec_'' k \<Longrightarrow> same_at k c c'"
  shows "LoadKey lib ops dv pw [] (reload c') = LoadKey lib ops dv pw [] (reload c)"
proof -
  have "GetStr ops (reload c') k = GetStr ops (reload c) k" "GetInt ops (reload c') k = GetInt ops (reload c) k"
    if "\<not> prefix ''sec_'' k" for k
    using assms(3) [OF that] by (simp_all add: str_read int_read assms(1,2) same_at_def)
  then show ?thesis
    by (cases dv)
      (simp_all add: argon2_LoadKey_def hkdf_LoadKey_def pbkdf2_LoadKey_def scrypt_LoadKey_def
        hkdf_configGroupForLoad_def pbkdf2_configGroupForLoad_def read_salt_def int_or_def group_GetStr_def
        group_GetInt_def PrefixedConfig_Get_def WithGroup_def Let_def split: sum.splits)
qed

text \<open>No key of an envelope is stored.\<close>

definition no_envelope :: "'a \<Rightarrow> bool" where
  "no_envelope c \<longleftrightarrow> str_of c rootKeyEnvelopeVersionKey = None \<and> int_of c rootKeyEnvelopeVersionKey = None \<and>
     bool_of c rootKeyEnvelopeVersionKey = None"

lemma no_envelope_version: "saved c \<Longrightarrow> no_envelope c \<Longrightarrow> rootKeyEnvelopeVersion ops (reload c) = Inr None"
  by (simp add: rootKeyEnvelopeVersion_def no_envelope_def str_read int_read bool_read found_def)

lemma no_envelope_same: "no_envelope c \<Longrightarrow> same_at rootKeyEnvelopeVersionKey c c' \<Longrightarrow> no_envelope c'"
  by (simp add: no_envelope_def same_at_def)

lemmas record_key_defs = verifier_keys envelope_keys passwordHintConfigKey_def

text \<open>The store after the verifier and the hint.\<close>

lemma verifier_and_hint:
  assumes "usable c" "fills rnd" "writePasswordVerifier rnd ops (Some c) key = (Some c1, None)"
    and "writePasswordHint ops c1 hint = (c2, None)"
  shows "usable c2" "saved c2"
    "k \<notin> {passwordVerifierVersionKey, passwordVerifierChallengeKey, passwordVerifierTagKey, passwordHintConfigKey} \<Longrightarrow>
      same_at k c c2"
    "saved c' \<Longrightarrow> \<forall>k \<in> {passwordVerifierVersionKey, passwordVerifierChallengeKey, passwordVerifierTagKey}.
      same_at k c2 c' \<Longrightarrow> verifyPassword ops (Some (reload c')) key = None"
proof -
  obtain ch where c1: "key \<noteq> []" "length ch = 32" "usable c1" "saved c1"
    "str_of c1 passwordVerifierChallengeKey = Some (StdEncode ch)"
    "str_of c1 passwordVerifierTagKey = Some (StdEncode (calculatePasswordVerifierTag key ch))"
    "int_of c1 passwordVerifierVersionKey = Some 1"
    using verifier_written [OF assms(1,2,3)] by metis
  have c2: "usable c2" "saved c2"
    using writePasswordHint_ok [OF c1(3,4) assms(4)] by simp_all
  have s2: "same_at k c1 c2" if "k \<noteq> passwordHintConfigKey" for k
    using writePasswordHint_same_at [OF assms(4) that] .
  show "usable c2" "saved c2" by (fact c2)+
  show "same_at k c c2"
    if "k \<notin> {passwordVerifierVersionKey, passwordVerifierChallengeKey, passwordVerifierTagKey, passwordHintConfigKey}"
    using writePasswordVerifier_same_at [OF assms(3), of k] s2 [of k] same_at_trans that by blast
  show "verifyPassword ops (Some (reload c')) key = None"
    if "saved c'" "\<forall>k \<in> {passwordVerifierVersionKey, passwordVerifierChallengeKey, passwordVerifierTagKey}. same_at k c2 c'"
  proof -
    have "same_at k c1 c'" if "k \<in> {passwordVerifierVersionKey, passwordVerifierChallengeKey, passwordVerifierTagKey}" for k
    proof -
      have "k \<noteq> passwordHintConfigKey" using that by (auto simp: record_key_defs)
      then show ?thesis
        using same_at_trans [OF s2] that \<open>\<forall>k \<in> _. same_at k c2 c'\<close> by blast
    qed
    then show ?thesis
      using verify_stored [OF that(1), where ch = ch and tag = "calculatePasswordVerifierTag key ch"] c1
      by (simp add: same_at_def)
  qed
qed

lemma envelope_same_at:
  assumes "writeRootKeyEnvelope rnd ops c key content = (c', None)"
    and "k \<notin> {rootKeyEnvelopeVersionKey, rootKeyEnvelopeNonceKey, rootKeyEnvelopeCiphertextKey}"
  shows "same_at k c c'"
  using assms
  by (auto simp: writeRootKeyEnvelope_def Let_def split: if_splits option.splits prod.splits sum.splits
      dest!: put_result intro!: same_at_trans [OF _ same_at_put(1)] same_at_trans [OF _ same_at_put(2)])

lemma create_root_key_opens:
  assumes "usable c" "small_ints ops c" "fills (rnd_challenge rs)" "fills (rnd_nonce rs)" "fills (rnd_content rs)"
    and new: "\<not> PasswordChangeable opts \<Longrightarrow> no_envelope c"
    and "create_root_key lib rs ops opts pw d n dv c = (c', Inr content)"
  shows "usable c' \<and> saved c' \<and> loadRootKeyForOpen lib ops dv pw (reload c') = Inr content \<and>
    (\<forall>k. prefix ''sec_'' k \<longrightarrow> k \<notin> record_keys \<longrightarrow> k \<noteq> passwordHintConfigKey \<longrightarrow> same_at k c c')"
proof -
  let ?p = "create_params opts pw (required_key_length d n)"
  obtain cfg1 key where nk: "NewKey lib (rnd_salt rs) ops dv (Some ?p) (Some ([], c)) = (cfg1, Inr key)"
    and ck: "(if PasswordChangeable opts then newRandomRootKey (rnd_content rs) (required_key_length d n) else Inr key) = Inr content"
    and wr: "write_records rs ops opts key content (snd (the cfg1)) = (c', None)"
    using assms(7) by (auto simp: create_root_key_def Let_def split: prod.splits sum.splits option.splits)
  have "\<bar>KeyLength ?p\<bar> \<le> 2 ^ 53"
    by (cases d) (auto simp: create_params_def required_key_length_def Let_def)
  from NewKey_LoadKey [OF assms(1) nk this assms(2)]
  obtain c1 where c1: "cfg1 = Some ([], c1)" "saved c1" "usable c1" "LoadKey lib ops dv pw [] (reload c1) = Inr key"
    by (auto simp: create_params_def)
  have s1: "same_at k c c1" if "prefix ''sec_'' k" for k
    using NewKey_keeps_sec [OF nk [unfolded c1(1)] that] .
  obtain c2 c3 where wv: "writePasswordVerifier (rnd_challenge rs) ops (Some c1) key = (Some c2, None)"
    and wh: "writePasswordHint ops c2 (PasswordHint opts) = (c3, None)"
    and we: "(if PasswordChangeable opts then writeRootKeyEnvelope (rnd_nonce rs) ops c3 key content else (c3, None)) = (c', None)"
  proof -
    obtain cc where "writePasswordVerifier (rnd_challenge rs) ops (Some c1) key = (cc, None)"
      using wr c1(1) by (auto simp: write_records_def split: prod.splits option.splits)
    moreover from this have "cc = Some (the cc)"
      by (auto simp: writePasswordVerifier_def Let_def split: if_splits option.splits prod.splits)
    ultimately show thesis
      using wr c1(1) that [of "the cc"] by (auto simp: write_records_def split: prod.splits option.splits)
  qed
  note vh = verifier_and_hint [OF c1(3) assms(3) wv wh]
  have s3: "same_at k c1 c3" if "k \<notin> record_keys" "k \<noteq> passwordHintConfigKey" for k
    using vh(3) [of k] that by (auto simp: record_keys_def)
  have sec: "k \<notin> record_keys" "k \<noteq> passwordHintConfigKey" if "\<not> prefix ''sec_'' k" for k
    using that record_keys_sec by (auto simp: passwordHintConfigKey_def)
  show ?thesis
  proof (cases "PasswordChangeable opts")
    case False
    then have eq: "c' = c3" "content = key" using we ck by simp_all
    have "same_at rootKeyEnvelopeVersionKey c c3"
      by (rule same_at_trans [OF s1 vh(3)]) (simp_all add: record_key_defs)
    then have "rootKeyEnvelopeVersion ops (reload c') = Inr None"
      using no_envelope_version [OF vh(2) no_envelope_same [OF new [OF False]]] eq by simp
    moreover have "LoadKey lib ops dv pw [] (reload c') = Inr key"
      using LoadKey_same [OF c1(2) vh(2) s3 [OF sec], of lib dv pw] c1(4) eq by simp
    moreover have "same_at k c c'" if "prefix ''sec_'' k" "k \<notin> record_keys" "k \<noteq> passwordHintConfigKey" for k
      using same_at_trans [OF s1 [OF that(1)] s3 [OF that(2,3)]] eq by simp
    ultimately show ?thesis
      using vh(1,2) vh(4) [OF vh(2)] eq by (auto simp: loadRootKeyForOpen_def loadPasswordWrappingKey_def)
  next
    case True
    then have we: "writeRootKeyEnvelope (rnd_nonce rs) ops c3 key content = (c', None)" using we by simp
    from envelope_written [OF vh(1) assms(4) we] obtain nonce where c': "32 \<le> length key" "length nonce = 12" "usable c'" "saved c'"
      "str_of c' rootKeyEnvelopeNonceKey = Some (RawStdEncode nonce)"
      "str_of c' rootKeyEnvelopeCiphertextKey =
         Some (RawStdEncode (gcm_Seal (take 32 key) [] nonce content rootKeyEnvelopeDomain))"
      "int_of c' rootKeyEnvelopeVersionKey = Some 1" by metis
    have len: "32 \<le> length content"
      using ck True assms(5) by (auto simp: newRandomRootKey_def fills_def split: option.splits)
    have s4: "same_at k c3 c'" if "k \<notin> {rootKeyEnvelopeVersionKey, rootKeyEnvelopeNonceKey, rootKeyEnvelopeCiphertextKey}" for k
      using envelope_same_at [OF we that] .
    have "verifyPassword ops (Some (reload c')) key = None"
      by (rule vh(4) [OF c'(4)]) (use s4 verifier_not_envelope in blast)
    moreover have "LoadKey lib ops dv pw [] (reload c') = Inr key"
    proof -
      have "same_at k c1 c'" if "\<not> prefix ''sec_'' k" for k
        by (rule same_at_trans [OF s3 [OF sec [OF that]] s4]) (use sec(1) [OF that] in \<open>simp add: record_keys_def\<close>)
      then show ?thesis using LoadKey_same [OF c1(2) c'(4)] c1(4) by simp
    qed
    ultimately have "loadRootKeyForOpen lib ops dv pw (reload c') = Inr content"
      using envelope_version_stored [OF c'(4,7)] unwrap_stored [OF c'(4,5,2,6,1) len]
      by (simp add: loadRootKeyForOpen_def loadPasswordWrappingKey_def)
    moreover have "same_at k c c'" if "prefix ''sec_'' k" "k \<notin> record_keys" "k \<noteq> passwordHintConfigKey" for k
      by (rule same_at_trans [OF same_at_trans [OF s1 [OF that(1)] s3 [OF that(2,3)]] s4])
        (use that(2) in \<open>simp add: record_keys_def\<close>)
    ultimately show ?thesis using c'(3,4) by simp
  qed
qed

end

subsection \<open>A new root opens\<close>

text \<open>The derivation functions return a key of the length they are asked for.\<close>

definition kdf_lengths :: "kdf_lib \<Rightarrow> bool" where
  "kdf_lengths lib \<longleftrightarrow>
    (\<forall>pw salt t m th n k. argon2_IDKey lib pw salt t m th n = Some k \<longrightarrow> length k = unat n) \<and>
    (\<forall>pw salt n k. hkdf_New_Read lib pw salt n = Some k \<longrightarrow> length k = nat n) \<and>
    (\<forall>pw salt it n k. pbkdf2_Key lib pw salt it n = Some k \<longrightarrow> length k = nat n) \<and>
    (\<forall>pw salt N r p n k. scrypt_Key lib pw salt N r p n = Some k \<longrightarrow> length k = nat n)"

lemma required_key_length_cases: "required_key_length d n = 32 \<or> required_key_length d n = 64"
  by (cases d) (simp_all add: required_key_length_def Let_def)

lemma required_key_length_min: "GetRequireMinKeyLength d \<le> required_key_length d n"
  by (cases d) (simp_all add: required_key_length_def Let_def)

lemma create_root_key_length:
  assumes "kdf_lengths lib" "fills (rnd_content rs)"
    and "create_root_key lib rs ops opts pw d n dv c = (c', Inr content)"
  shows "length content = required_key_length d n"
proof (cases "PasswordChangeable opts")
  case True
  with assms(2,3) required_key_length_cases [of d n] show ?thesis
    by (auto simp: create_root_key_def newRandomRootKey_def fills_def Let_def split: prod.splits sum.splits option.splits)
next
  case False
  let ?p = "create_params opts pw (required_key_length d n)"
  obtain cfg1 where "NewKey lib (rnd_salt rs) ops dv (Some ?p) (Some ([], c)) = (cfg1, Inr content)"
    using assms(3) False by (auto simp: create_root_key_def Let_def split: prod.splits sum.splits option.splits)
  with assms(1) False required_key_length_cases [of d n] show ?thesis
    by (cases dv)
      (auto simp: argon2_NewKey_def hkdf_NewKey_def pbkdf2_NewKey_def scrypt_NewKey_def argon2_params_def
        pbkdf2_params_def scrypt_params_def create_params_def kdf_lengths_def Let_def
        split: sum.splits option.splits prod.splits if_splits dest!: checked_params_Some)
qed

text \<open>A key of the required length suits both algorithms.\<close>

lemma ctx_new_open:
  assumes "fopen f"
  shows "\<exists>c. map_sum id g (ctx_new s f) = Inr c"
  using assms by (simp add: ctx_new_def os_seek_def Let_def)

lemma data_NewContext_ok:
  assumes "fopen f" "length key = required_key_length d n"
  shows "\<exists>c. data_NewContext d f (Some key) = Inr c"
proof -
  have len: "length key = 32 \<or> length key = 64" "GetRequireMinKeyLength d \<le> length key"
    using assms(2) required_key_length_cases required_key_length_min by metis+
  show ?thesis
  proof (cases d)
    case RC4_data
    moreover have "key \<noteq> []" using len by auto
    ultimately obtain s where "NewCipherState key = Inr s"
      using len by (auto simp: NewCipherState_def rc4_NewCipher_def)
    with RC4_data len ctx_new_open [OF assms(1), of Rc4Ctx "(s, s)"] show ?thesis
      by (auto simp: data_NewContext_def rc4_NewContext_def)
  qed (use len assms(1) ctx_new_open in
      \<open>auto simp: data_NewContext_def aes_ctr_NewContext_def aes_xts_NewContext_def chacha20_NewContext_def\<close>)
qed

lemma name_NewContext_ok:
  assumes "length key = required_key_length d n"
  shows "\<exists>ctx. name_NewContext n key = Inr ctx"
proof -
  have "length key = 32 \<or> length key = 64" "key \<noteq> []"
    using assms required_key_length_cases [of d n] by auto
  then show ?thesis
    by (cases n) (auto simp: gcm_name_NewContext_def rc4_name_NewContext_def rc4_NewCipher_def)
qed

lemma create_root_key_cwritable:
  assumes "create_root_key lib rs file_ops opts pw d n dv f = (f', Inr content)"
  shows "cwritable f"
proof (rule ccontr)
  assume ro: "\<not> cwritable f"
  obtain cfg1 key where
    nk: "NewKey lib (rnd_salt rs) file_ops dv (Some (create_params opts pw (required_key_length d n))) (Some ([], f)) =
      (cfg1, Inr key)"
    and wr: "write_records rs file_ops opts key content (snd (the cfg1)) = (f', None)"
    using assms by (auto simp: create_root_key_def Let_def split: prod.splits sum.splits option.splits)
  obtain c1 where c1: "cfg1 = Some ([], c1)"
    using nk by (cases dv) (auto simp: argon2_NewKey_def hkdf_NewKey_def pbkdf2_NewKey_def scrypt_NewKey_def
        argon2_save_def hkdf_save_def pbkdf2_save_def scrypt_save_def Let_def split: sum.splits option.splits prod.splits)
  with nk have "\<not> cwritable c1"
    using NewKey_cwritable ro by blast
  with wr c1 show False
    by (auto simp: write_records_def writePasswordVerifier_def file_ops_def FileConfig_SetStr_def FileConfig_save_def Let_def
        split: if_splits option.splits prod.splits)
qed

text \<open>The names of the factories in the store.\<close>

definition stored_name_of :: "string \<Rightarrow> string \<Rightarrow> string" where
  "stored_name_of optName ownName = (if optName = [] then ownName else optName)"

lemma own_names:
  "data_GetName d \<noteq> []" "name_GetName n \<noteq> []" "deriver_name dv \<noteq> []"
  "ascii (data_GetName d)" "ascii (name_GetName n)" "ascii (deriver_name dv)"
proof -
  show "data_GetName d \<noteq> []" "ascii (data_GetName d)" by (cases d; simp add: ascii_def)+
  show "name_GetName n \<noteq> []" "ascii (name_GetName n)" by (cases n; simp add: ascii_def)+
  show "deriver_name dv \<noteq> []" "ascii (deriver_name dv)" by (cases dv; simp add: ascii_def)+
qed

context typed_config
begin

lemma store_factory_str:
  assumes "ownName \<noteq> []" "ascii optName" "ascii ownName"
  shows "str_of (store_factory ops key optName ownName c) key = Some (stored_name_of optName ownName)"
    "usable c \<Longrightarrow> usable (store_factory ops key optName ownName c)"
    "k \<noteq> key \<Longrightarrow> same_at k c (store_factory ops key optName ownName c)"
  using assms by (simp_all add: store_factory_def stored_name_of_def Let_def str_put put_facts same_at_put)

lemma store_factories_str:
  assumes "ascii (DataFactoryName opts)" "ascii (NameFactoryName opts)" "ascii (DeriverFactoryName opts)"
  shows "str_of (store_factories ops opts d n dv c) ''sec_fs_factory'' = Some (stored_name_of (DataFactoryName opts) (data_GetName d))"
    "str_of (store_factories ops opts d n dv c) ''sec_name_factory'' = Some (stored_name_of (NameFactoryName opts) (name_GetName n))"
    "str_of (store_factories ops opts d n dv c) ''sec_deriver_factory'' = Some (stored_name_of (DeriverFactoryName opts) (deriver_name dv))"
    "usable c \<Longrightarrow> usable (store_factories ops opts d n dv c)"
    "k \<notin> {''sec_fs_factory'', ''sec_name_factory'', ''sec_deriver_factory''} \<Longrightarrow> same_at k c (store_factories ops opts d n dv c)"
proof -
  let ?c1 = "store_factory ops ''sec_fs_factory'' (DataFactoryName opts) (data_GetName d) c"
  let ?c2 = "store_factory ops ''sec_name_factory'' (NameFactoryName opts) (name_GetName n) ?c1"
  note facts = store_factory_str [OF own_names(1) assms(1) own_names(4)] store_factory_str [OF own_names(2) assms(2) own_names(5)]
    store_factory_str [OF own_names(3) assms(3) own_names(6)]
  have "same_at ''sec_fs_factory'' ?c1 ?c2" "same_at ''sec_fs_factory'' ?c2 (store_factories ops opts d n dv c)"
      "same_at ''sec_name_factory'' ?c2 (store_factories ops opts d n dv c)"
    unfolding store_factories_def by (rule facts; simp)+
  then show "str_of (store_factories ops opts d n dv c) ''sec_fs_factory'' = Some (stored_name_of (DataFactoryName opts) (data_GetName d))"
    "str_of (store_factories ops opts d n dv c) ''sec_name_factory'' = Some (stored_name_of (NameFactoryName opts) (name_GetName n))"
    by (simp_all add: same_at_def facts(1,4))
  show "str_of (store_factories ops opts d n dv c) ''sec_deriver_factory'' = Some (stored_name_of (DeriverFactoryName opts) (deriver_name dv))"
    by (simp add: store_factories_def facts(7))
  show "usable (store_factories ops opts d n dv c)" if "usable c"
    using that by (simp add: store_factories_def facts(2,5,8))
  show "same_at k c (store_factories ops opts d n dv c)"
    if "k \<notin> {''sec_fs_factory'', ''sec_name_factory'', ''sec_deriver_factory''}"
    unfolding store_factories_def
    by (rule same_at_trans [OF same_at_trans [OF facts(3) facts(6)] facts(9)]) (use that in auto)
qed

end

lemma lookup_own_name:
  "GetFactory (data_factories crypto_all) (data_GetName d) = Some d"
  "GetNameFactory (name_factories crypto_all) (name_GetName n) = Some n"
  "GetDeriverFactory (deriver_factories crypto_all) (deriver_name dv) = Some dv"
proof -
  note defs = crypto_all_eq GetOrNilFold_def Registry_Get_def EqualFold_def fold_key_def ascii_lower_def byte_of_def
  show "GetFactory (data_factories crypto_all) (data_GetName d) = Some d"
    by (cases d) (simp_all add: GetFactory_def defs)
  show "GetNameFactory (name_factories crypto_all) (name_GetName n) = Some n"
    by (cases n) (simp_all add: GetNameFactory_def defs)
  show "GetDeriverFactory (deriver_factories crypto_all) (deriver_name dv) = Some dv"
    by (cases dv) (simp_all add: GetDeriverFactory_def defs)
qed

text \<open>The stored name finds the factory again.\<close>

lemma create_factory_stored:
  assumes "create_factory lookup reg ops c optName key defaultName = Inr (Some v)" "\<And>v. lookup (own v) = Some v"
  shows "lookup (stored_name_of optName (own v)) = Some v"
  using assms by (auto simp: create_factory_def stored_name_of_def split: if_splits option.splits)

lemma getCreateFactories_stored:
  assumes "getCreateFactories crypto_all ops c opts = Inr (d, n, dv)"
  shows "GetFactory (data_factories crypto_all) (stored_name_of (DataFactoryName opts) (data_GetName d)) = Some d"
    "GetNameFactory (name_factories crypto_all) (stored_name_of (NameFactoryName opts) (name_GetName n)) = Some n"
    "GetDeriverFactory (deriver_factories crypto_all) (stored_name_of (DeriverFactoryName opts) (deriver_name dv)) = Some dv"
  using assms create_factory_stored [OF _ lookup_own_name(1)] create_factory_stored [OF _ lookup_own_name(2)]
    create_factory_stored [OF _ lookup_own_name(3)]
  by (auto simp: getCreateFactories_def split: sum.splits option.splits)

lemma small_ints_store_factories:
  assumes "small_ints file_ops f"
  shows "small_ints file_ops (store_factories file_ops opts d n dv f)"
proof -
  have "intMap (store_factory file_ops key a b g) = intMap g" for key a b g
    by (simp add: store_factory_def file_ops_def FileConfig_SetStr_def FileConfig_save_def Let_def)
  then show ?thesis
    using assms by (simp add: small_ints_def file_ops_def FileConfig_GetInt_def store_factories_def)
qed

lemma NewFileConfig_NoFile: "NewFileConfig NoFile w = Inr (empty_config\<lparr>cwritable := w\<rparr>)"
  by (simp add: NewFileConfig_def empty_config_def)

lemma NewFileConfig_NotJson: "NewFileConfig NotJson w = Inl ErrBadJson"
  by (simp add: NewFileConfig_def FileConfig_load_def)

text \<open>C27. A root that has been created in an empty place, with any algorithms, opens with its password:
  the algorithms chosen at creation are the ones of the opened root, its key has the length both
  of them need, and every file of it gets a context.\<close>
theorem CreateRoot_OpenRoot:
  fixes options :: "CreateRootOption list"
  defines "opts \<equiv> applyCreateOptions options"
  assumes create: "CreateRootConfigQuick lib rs crypto_all mk w dir path pw options = (dir', Inr cfg)"
    and new: "dir (CreateConfigFileName opts) = NoFile"
    and "ascii (DataFactoryName opts)" "ascii (NameFactoryName opts)" "ascii (DeriverFactoryName opts)"
    and "kdf_lengths lib" "fills (rnd_challenge rs)" "fills (rnd_nonce rs)" "fills (rnd_content rs)"
    and "ParsePathInfoEasy env path = Inr info"
  shows "\<exists>rt d n dv key cryptor.
    OpenRootQuick env lib crypto_all True dir' path pw [WithOpenConfigFileName (CreateConfigFileName opts)] = Inr rt \<and>
    getCreateFactories crypto_all file_ops (empty_config\<lparr>cwritable := w\<rparr>) opts = Inr (d, n, dv) \<and>
    keyInfo rt = Some key \<and> length key = required_key_length d n \<and>
    name_NewContext n key = Inr cryptor \<and> nameCryptor rt = Some cryptor \<and>
    newContext rt = data_NewContext d \<and> rootPathInfo rt = info \<and> \<not> rclosed rt \<and>
    (\<forall>f. fopen f \<longrightarrow> (\<exists>c. newContext rt f (keyInfo rt) = Inr c))"
proof -
  let ?c0 = "empty_config\<lparr>cwritable := w\<rparr>"
  obtain d n dv c2 content where path: "path \<noteq> []"
    and fac: "getCreateFactories crypto_all file_ops ?c0 opts = Inr (d, n, dv)"
    and crk: "create_root_key lib rs file_ops opts pw d n dv (store_factories file_ops opts d n dv ?c0) = (c2, Inr content)"
    and dir': "dir' = dir(CreateConfigFileName opts := cfile c2)"
    and fname: "clean_components (components (CreateConfigFileName opts)) \<noteq> []"
    using create new
    by (auto simp: CreateRootConfigQuick_def config_file_def NewFileConfig_NoFile NewFileConfig_NotJson Let_def opts_def [symmetric]
        split: if_splits option.splits sum.splits prod.splits)
  let ?c1 = "store_factories file_ops opts d n dv ?c0"
  note names = file_store.store_factories_str [OF assms(4-6)]
  have usable: "cwritable ?c1" by (rule create_root_key_cwritable [OF crk])
  have "file_store.no_envelope ?c0"
    unfolding file_store.no_envelope_def by (simp add: empty_config_def str_part_def int_part_def bool_part_def)
  then have "file_store.no_envelope ?c1"
    by (rule file_store.no_envelope_same) (rule names(5), simp add: envelope_keys)
  moreover have "small_ints file_ops ?c1"
    by (rule small_ints_store_factories) (simp add: small_ints_def file_ops_def FileConfig_GetInt_def found_def empty_config_def)
  ultimately have opens: "cwritable c2" "file_saved c2" "loadRootKeyForOpen lib file_ops dv pw (reopen c2) = Inr content"
      "\<And>k. prefix ''sec_'' k \<Longrightarrow> k \<notin> record_keys \<Longrightarrow> k \<noteq> passwordHintConfigKey \<Longrightarrow> file_store.same_at k ?c1 c2"
    using file_store.create_root_key_opens [OF usable _ assms(8-10) _ crk] by blast+
  have load: "NewFileConfig (config_file dir' (CreateConfigFileName opts)) True = Inr (reopen c2)"
    using reopen_saved(1) [OF opens(2)] opens(1) dir' fname by (simp add: config_file_def)
  have "GetStr file_ops (reopen c2) k = found k (str_part (map_option json_reread (cdata ?c1 k)))"
    if "k \<in> {''sec_fs_factory'', ''sec_name_factory'', ''sec_deriver_factory''}" for k
    using opens(4) [of k] that
    by (auto simp: file_store.str_read opens(2) file_store.same_at_def record_keys_def verifier_keys envelope_keys passwordHintConfigKey_def)
  then have factories: "getOpenFactories crypto_all file_ops (reopen c2) = Inr (d, n, dv)"
    using getCreateFactories_stored [OF fac] own_names(1-3) names(1-3)
    by (simp add: getOpenFactories_def factory_of_def found_def stored_name_of_def)
  have len: "length content = required_key_length d n"
    by (rule create_root_key_length [OF assms(7,10) crk])
  obtain cryptor where "name_NewContext n content = Inr cryptor"
    using name_NewContext_ok [OF len] by blast
  with load factories opens(3) fac len path assms(11) data_NewContext_ok [OF _ len]
  show ?thesis
    by (simp add: OpenRootQuick_def openRoot_def newRoot_def applyOpenOptions_def Let_def)
qed

text \<open>A library that keeps the contract, and a root created with it.\<close>

definition full_key :: "bytes \<Rightarrow> bytes \<Rightarrow> nat \<Rightarrow> bytes" where
  "full_key pw salt n = take n (pw @ salt @ replicate n 0)"

definition full_lib :: kdf_lib where
  "full_lib = \<lparr>argon2_IDKey = \<lambda>pw salt t m th n. Some (full_key pw salt (unat n)),
     hkdf_New_Read = \<lambda>pw salt n. Some (full_key pw salt (nat n)),
     pbkdf2_Key = \<lambda>pw salt it n. Some (full_key pw salt (nat n)),
     scrypt_Key = \<lambda>pw salt N r p n. Some (full_key pw salt (nat n))\<rparr>"

lemma full_lib_lengths: "kdf_lengths full_lib"
  by (auto simp: kdf_lengths_def full_lib_def full_key_def)

definition full_rand :: randomness where
  "full_rand = \<lparr>rnd_salt = sample_fill, rnd_content = sample_fill, rnd_challenge = sample_fill, rnd_nonce = sample_fill\<rparr>"

lemma full_rand_fills: "fills (rnd_challenge full_rand)" "fills (rnd_nonce full_rand)" "fills (rnd_content full_rand)"
  by (simp_all add: full_rand_def)

lemma default_factories:
  assumes "GetStr ops c ''sec_fs_factory'' = Inl e1" "GetStr ops c ''sec_name_factory'' = Inl e2"
    and "GetStr ops c ''sec_deriver_factory'' = Inl e3"
  shows "getCreateFactories crypto_all ops c (applyCreateOptions []) = Inr (AES_CTR, NAME_None, Argon2id)"
  using assms lookup_own_name(1) [of AES_CTR] lookup_own_name(2) [of NAME_None] lookup_own_name(3) [of Argon2id]
  by (simp add: getCreateFactories_def create_factory_def applyCreateOptions_def DefaultDataFactoryName_def
      DefaultNameFactoryName_def DefaultDeriverFactoryName_def)

lemma create_root_key_sample:
  assumes "cwritable f"
  shows "\<exists>f'. create_root_key full_lib full_rand file_ops (applyCreateOptions []) ''pw'' AES_CTR NAME_None Argon2id f =
    (f', Inr (full_key (string_bytes ''pw'') (replicate 16 7) 32))"
proof -
  let ?key = "full_key (string_bytes ''pw'') (replicate 16 7) 32"
  define f1 where "f1 = snd (argon2_save file_ops (replicate 16 7) 1 71936 4 32 ([], f))"
  have opts: "PasswordChangeable (applyCreateOptions []) = False" "PasswordHint (applyCreateOptions []) = []"
      "CreateKeyStrengthMs (applyCreateOptions []) = 100"
    by (simp_all add: applyCreateOptions_def)
  have nk: "NewKey full_lib sample_fill file_ops Argon2id (Some (create_params (applyCreateOptions []) ''pw'' 32)) (Some ([], f)) =
      (Some (argon2_save file_ops (replicate 16 7) 1 71936 4 32 ([], f)), Inr ?key)"
    by (simp add: argon2_NewKey_def checked_params_def create_params_def opts argon2_params_def sample_fill_def
        argon2_cost_def full_lib_def key_result_def PasswordBytes_def Let_def)
  have "cwritable f1"
    using assms by (simp add: f1_def argon2_save_def Let_def)
  moreover have "?key \<noteq> []" by (simp add: full_key_def)
  ultimately obtain f2 where "writePasswordVerifier sample_fill file_ops (Some f1) ?key = (Some f2, None)"
    using file_store.writePasswordVerifier_ok [of f1 ?key sample_fill "replicate 32 7"] by (auto simp: sample_fill_def)
  with nk opts show ?thesis
    by (auto simp: create_root_key_def required_key_length_def full_rand_def write_records_def writePasswordHint_def
        validatePasswordHint_def f1_def [symmetric] Let_def)
qed

lemma CreateRoot_OpenRoot_witness:
  "\<exists>dir' cfg rt. CreateRootConfigQuick full_lib full_rand crypto_all True True (\<lambda>_. NoFile) ''/data'' ''pw'' [] = (dir', Inr cfg) \<and>
    OpenRootQuick start_env full_lib crypto_all True dir' ''/data'' ''pw'' [WithOpenConfigFileName ConfigFileName] = Inr rt \<and>
    newContext rt = data_NewContext AES_CTR"
proof -
  let ?c0 = "empty_config\<lparr>cwritable := True\<rparr>"
  have opts: "CreateConfigFileName (applyCreateOptions []) = ConfigFileName" "PasswordHint (applyCreateOptions []) = []"
      "ascii (DataFactoryName (applyCreateOptions []))" "ascii (NameFactoryName (applyCreateOptions []))"
      "ascii (DeriverFactoryName (applyCreateOptions []))"
    by (simp_all add: applyCreateOptions_def ascii_def)
  have fac: "getCreateFactories crypto_all file_ops ?c0 (applyCreateOptions []) = Inr (AES_CTR, NAME_None, Argon2id)"
    by (rule default_factories) (simp_all add: file_ops_def FileConfig_GetStr_def found_def empty_config_def)
  have "cwritable (store_factories file_ops (applyCreateOptions []) AES_CTR NAME_None Argon2id ?c0)"
    by (rule file_store.store_factories_str(4) [OF opts(3-5)]) simp
  from create_root_key_sample [OF this] fac obtain dir' cfg where
    c: "CreateRootConfigQuick full_lib full_rand crypto_all True True (\<lambda>_. NoFile) ''/data'' ''pw'' [] = (dir', Inr cfg)"
    by (auto simp: CreateRootConfigQuick_def NewFileConfig_NoFile opts validatePasswordHint_def Let_def)
  have "ParsePathInfoEasy start_env ''/data'' = Inr data_root" by code_simp
  from CreateRoot_OpenRoot [OF c _ opts(3-5) full_lib_lengths full_rand_fills this] c fac opts(1)
  show ?thesis by auto
qed

end
