(* ===== verification/RootLifecycle.thy ===== *)
theory RootLifecycle
  imports RootFactoryProps SecRootProps
begin

text \<open>
  What happens to a root after it has been created: its hint is changed, it is looked for from a
  path inside it, it is moved; and what the factory does where there is no root.
\<close>

subsection \<open>The hint\<close>

lemma hint_staged:
  assumes "setPasswordHint file_ops f hint = (f', None)"
  shows "validatePasswordHint hint = None" "cwritable f" "cfile f' = saved_object f'"
    "cdata f' = (cdata f)(passwordHintConfigKey \<mapsto> JStr hint)"
  using assms
  by (auto simp: setPasswordHint_def file_ops_def FileConfig_SetStr_def FileConfig_save_def saved_object_def
      split: option.splits prod.splits if_splits)

text \<open>C30. Changing the hint is atomic and touches nothing but the hint: after an error the file is as
  it was; otherwise the hint can be read back and every other value of the file is unchanged, so
  the root opens as before.\<close>
theorem UpdateRootPasswordHint_effect:
  assumes "UpdateRootPasswordHintContext lib regs os (JsonObject raw) path password hint = (file', err)"
    and "json_object raw"
  shows "case err of Some e \<Rightarrow> file' = JsonObject raw
    | None \<Rightarrow> ReadRootPasswordHint file' path = Inr hint \<and>
        (\<exists>raw'. file' = JsonObject raw' \<and> json_object raw' \<and> (\<forall>k. k \<noteq> passwordHintConfigKey \<longrightarrow> raw' k = raw k))"
proof (cases err)
  case (Some e)
  with assms(1) show ?thesis
    by (auto simp: UpdateRootPasswordHintContext_def commitStagedRootConfig_def
        split: if_splits sum.splits option.splits prod.splits)
next
  case None
  with assms(1) obtain staged staged' where
    st: "stageRootConfig os (JsonObject raw) = Inr staged" "setPasswordHint file_ops staged hint = (staged', None)"
      "file' = cfile staged'" and path: "path \<noteq> []"
    by (auto simp: UpdateRootPasswordHintContext_def commitStagedRootConfig_def
        split: if_splits sum.splits option.splits prod.splits)
  note h = hint_staged [OF st(2)]
  have valid: "utf8_coerce hint = hint" using h(1) by (auto simp: validatePasswordHint_def split: if_splits)
  have "cdata staged = raw"
    using st(1) by (auto simp: stageRootConfig_def NewFileConfig_def FileConfig_load_def Let_def split: if_splits)
  moreover have "map_option json_reread (raw k) = raw k" for k
    using assms(2) by (cases "raw k") (auto simp: json_object_def)
  ultimately have file': "file' = JsonObject (raw(passwordHintConfigKey \<mapsto> JStr hint))"
    using st(3) h(3,4) valid by (auto simp: saved_object_def json_reread_def fun_eq_iff)
  moreover have "json_object (raw(passwordHintConfigKey \<mapsto> JStr hint))"
    using assms(2) valid by (auto simp: json_object_def json_reread_def)
  moreover have "ReadRootPasswordHint file' path = Inr hint"
    using h(1) path
    by (simp add: file' ReadRootPasswordHint_def NewFileConfig_def FileConfig_load_def file_ops_def
        FileConfig_GetStr_def found_def str_part_def Let_def)
  ultimately show ?thesis using None by simp
qed

lemma UpdateRootPasswordHint_effect_witness:
  "\<exists>file'. UpdateRootPasswordHintContext sample_lib sample_regs os_fine (JsonObject sample_raw) ''/root'' ''old'' ''a pet'' =
      (file', None) \<and> ReadRootPasswordHint file' ''/root'' = Inr ''a pet''"
proof -
  obtain key where key: "loadPasswordWrappingKey sample_lib file_ops PBKDF2 ''old'' (reopen sample_vault) = Inr key"
    "verifyPassword file_ops (Some (reopen sample_vault)) key = None"
    using sample_vault_facts(4,5) by (auto simp: loadRootKeyForOpen_def split: sum.splits option.splits)
  have valid: "validatePasswordHint ''a pet'' = None"
    by code_simp
  obtain f' where "setPasswordHint file_ops (reopen sample_vault) ''a pet'' = (f', None)"
    using sample_vault_facts(7)
    by (simp add: setPasswordHint_def valid file_ops_def FileConfig_SetStr_def FileConfig_save_def)
  with key valid obtain file' where
    u: "UpdateRootPasswordHintContext sample_lib sample_regs os_fine (JsonObject sample_raw) ''/root'' ''old'' ''a pet'' = (file', None)"
    by (auto simp: UpdateRootPasswordHintContext_def stageRootConfig_def commitStagedRootConfig_def
        sample_vault_facts(3,6) os_fine_def)
  with UpdateRootPasswordHint_effect [OF u sample_vault_facts(2)] show ?thesis by auto
qed

subsection \<open>Where is the root?\<close>

definition config_at :: "disk \<Rightarrow> string \<Rightarrow> fpath \<Rightarrow> bool" where
  "config_at d name p \<longleftrightarrow> (case os_Stat d (p @ [name]) of Inr _ \<Rightarrow> True | Inl _ \<Rightarrow> False)"

lemma find_up_nearest:
  "case find_up d name p of
     Some q \<Rightarrow> prefix q p \<and> config_at d name q \<and> (\<forall>q'. prefix q' p \<longrightarrow> length q < length q' \<longrightarrow> \<not> config_at d name q')
   | None \<Rightarrow> \<forall>q'. prefix q' p \<longrightarrow> \<not> config_at d name q'"
proof (induction d name p rule: find_up.induct)
  case (1 d name p)
  show ?case
  proof (cases "config_at d name p")
    case True
    then show ?thesis
      by (subst find_up.simps) (auto simp: config_at_def dest: prefix_length_le)
  next
    case no: False
    show ?thesis
    proof (cases "p = []")
      case True
      with no show ?thesis by (subst find_up.simps) (auto simp: config_at_def)
    next
      case False
      have up: "find_up d name p = find_up d name (butlast p)"
        using no False by (subst find_up.simps) (simp add: config_at_def)
      have pre: "prefix q' p \<longleftrightarrow> q' = p \<or> prefix q' (butlast p)" for q'
        using False by (metis append_butlast_last_id prefix_snoc)
      have "\<not> (case os_Stat d (p @ [name]) of Inr _ \<Rightarrow> True | Inl _ \<Rightarrow> False)"
        using no by (simp add: config_at_def)
      from "1.IH" [OF this False] no show ?thesis
        by (auto simp: up pre split: option.splits)
    qed
  qed
qed

text \<open>C31. The search for a configuration file ends, and what it finds is the nearest one above the
  path: no directory of the path below it has one, and the path is the root followed by the relative
  path. It fails only when no directory of the path has a configuration file, or the one found
  cannot be loaded.\<close>
theorem FindRootConfig_nearest:
  "let name = configFileName (applyOpenOptions options) in
   case FindRootConfig json d path options of
     Inr (cfg, rt, rel) \<Rightarrow> rt @ rel = path \<and> config_at d name rt \<and>
       (\<forall>q. prefix q path \<longrightarrow> os_Stat d q = Inr NDir \<longrightarrow> length rt < length q \<longrightarrow> \<not> config_at d name q)
   | Inl FactoryNoConfigFile \<Rightarrow> \<forall>q. prefix q path \<longrightarrow> os_Stat d q = Inr NDir \<longrightarrow> \<not> config_at d name q
   | Inl e \<Rightarrow> e = FactoryConfig ''config''"
proof -
  define name where "name = configFileName (applyOpenOptions options)"
  define start where "start = (case os_Stat d path of Inr NDir \<Rightarrow> path | _ \<Rightarrow> butlast path)"
  have start: "prefix start path" "prefix q path \<Longrightarrow> os_Stat d q = Inr NDir \<Longrightarrow> prefix q start" for q
  proof -
    show "prefix start path" by (auto simp: start_def prefixeq_butlast split: sum.splits node.splits)
    assume "prefix q path" "os_Stat d q = Inr NDir"
    then show "prefix q start"
      by (auto simp: start_def split: sum.splits node.splits)
        (metis append_butlast_last_id butlast.simps(1) prefix_snoc sum.inject(2) sum.distinct(1) node.distinct)+
  qed
  have app: "q @ drop (length q) path = path" if "prefix q start" for q
    using prefix_order.trans [OF that start(1)] by (auto simp: prefix_def)
  show ?thesis
    unfolding Let_def name_def [symmetric]
    using find_up_nearest [where d = d and name = name and p = start] start(2) app
    by (auto simp: FindRootConfig_def Let_def name_def [symmetric] start_def [symmetric]
        split: option.splits sum.splits node.splits)
qed

definition nested_disk :: disk where
  "nested_disk = [([''data''], NDir), ([''data'', ''_cryption.json''], NFile [1]), ([''data'', ''sub''], NDir),
     ([''data'', ''sub'', ''f''], NFile [7])]"

lemma FindRootConfig_nearest_witness:
  "\<exists>cfg. FindRootConfig (\<lambda>_. EmptyFile) nested_disk [''data'', ''sub'', ''f''] [] = Inr (cfg, [''data''], [''sub'', ''f'']) \<and>
    \<not> config_at nested_disk ''_cryption.json'' [''data'', ''sub'']"
proof -
  have opts: "configFileName (applyOpenOptions []) = ''_cryption.json''"
    by (simp add: applyOpenOptions_def ConfigFileName_def)
  have up: "find_up nested_disk ''_cryption.json'' [''data'', ''sub''] = Some [''data'']" by code_simp
  obtain cfg where f: "FindRootConfig (\<lambda>_. EmptyFile) nested_disk [''data'', ''sub'', ''f''] [] = Inr (cfg, [''data''], [''sub'', ''f''])"
    by (simp add: FindRootConfig_def opts up Let_def)
      (simp add: nested_disk_def os_Stat_def os_lookup_def opts up [unfolded nested_disk_def] NewFileConfig_def
        FileConfig_load_def Let_def)
  have "prefix [''data'', ''sub''] [''data'', ''sub'', ''f'']" "os_Stat nested_disk [''data'', ''sub''] = Inr NDir"
    by (simp_all add: nested_disk_def os_Stat_def os_lookup_def)
  with FindRootConfig_nearest [where options = "[]" and json = "\<lambda>_. EmptyFile" and d = nested_disk and
      path = "[''data'', ''sub'', ''f'']"] f opts
  show ?thesis by (auto simp: Let_def)
qed

subsection \<open>Moving\<close>

text \<open>A root that has been moved is the directory tree at the target: every node of it is found
  there under its old relative path, and the root remains open.\<close>
theorem MoveRoot_moves:
  assumes "disk_wf d" "MoveRoot env (Some rt) d target = (d', Some (r', None))"
    and "os_lookup d (components target) = None"
  shows "\<exists>info. ParsePathInfoEasy env target = Inr info \<and> r' = Some (rt\<lparr>rootPathInfo := info\<rparr>) \<and> \<not> rclosed rt \<and>
    (\<forall>k. os_lookup d' (components target @ k) = os_lookup d (root_dir rt @ k))"
proof -
  obtain info where info: "ParsePathInfoEasy env target = Inr info" "r' = Some (rt\<lparr>rootPathInfo := info\<rparr>)" "\<not> rclosed rt"
    and ren: "os_Rename d (root_dir rt) (components target) = (d', None)"
    using assms(2) by (auto simp: MoveRoot_def root_dir_def split: if_splits prod.splits option.splits sum.splits)
  have ne: "components target \<noteq> []" "root_dir rt \<noteq> []"
    using assms(3) ren by (auto simp: os_lookup_def os_Rename_def split: option.splits if_splits)
  have "d' = map (\<lambda>(q, n). (move_key (root_dir rt) (components target) q, n)) d"
    using ren assms(3) by (auto simp: os_Rename_def Let_def split: option.splits if_splits)
  with map_of_move(1) [OF nothing_below [OF assms(1,3)]] ne info show ?thesis
    by (simp add: os_lookup_def)
qed

lemma MoveRoot_moves_witness:
  "\<exists>d' r'. MoveRoot start_env (Some sample_root) [([''data''], NDir), ([''data'', ''f''], NFile [7])] ''/new'' = (d', Some (r', None)) \<and>
    (\<forall>k. os_lookup d' ([''new''] @ k) = os_lookup [([''data''], NDir), ([''data'', ''f''], NFile [7])] ([''data''] @ k))"
proof -
  let ?d = "[([''data''], NDir), ([''data'', ''f''], NFile [7])] :: disk"
  have c: "components ''/new'' = [''new'']" by code_simp
  have wf: "disk_wf ?d" by (simp add: disk_wf_def os_lookup_def)
  have free: "os_lookup ?d (components ''/new'') = None" by (simp add: c os_lookup_def)
  have ren: "os_Rename ?d (components (pathInfo_Encode (rootPathInfo sample_root))) (components ''/new'') =
      ([([''new''], NDir), ([''new'', ''f''], NFile [7])], None)" by code_simp
  moreover obtain info where "ParsePathInfoEasy start_env ''/new'' = Inr info"
  proof -
    have "\<not> (case ParsePathInfoEasy start_env ''/new'' of Inl _ \<Rightarrow> True | Inr _ \<Rightarrow> False)" by code_simp
    then show thesis using that by (auto split: sum.splits)
  qed
  ultimately obtain d' r' where m: "MoveRoot start_env (Some sample_root) ?d ''/new'' = (d', Some (r', None))"
    by (auto simp: MoveRoot_def sample_root_def)
  from MoveRoot_moves [OF wf m free]
  have "\<forall>k. os_lookup d' (components ''/new'' @ k) = os_lookup ?d (root_dir sample_root @ k)" by blast
  with m show ?thesis unfolding c sample_root_facts by blast
qed

subsection \<open>No root\<close>

text \<open>Opening a directory without a configuration file is reported as an invalid configuration,
  not as a missing encryption.\<close>

theorem OpenRoot_without_config:
  assumes "config_file dir (configFileName (applyOpenOptions options)) = NoFile"
  shows "\<exists>e. OpenRootQuick env lib regs mk dir path pw options = Inl e \<and> \<not> IsNoEncryptionErr e"
  using assms
  by (simp add: OpenRootQuick_def NewFileConfig_NoFile getOpenFactories_def factory_of_def file_ops_def
      FileConfig_GetStr_def found_def empty_config_def IsNoEncryptionErr_def Let_def)

text \<open>The internal creation with a given key never stores parameters of the deriver: it calls the
  deriver with an empty password, which every deriver refuses.\<close>

lemma NewKey_empty_password:
  "Password p = [] \<Longrightarrow> NewKey lib rnd ops dv (Some p) cfg = (cfg, Inl ErrEmptyPassword)"
  by (cases dv) (simp_all add: argon2_NewKey_def hkdf_NewKey_def pbkdf2_NewKey_def scrypt_NewKey_def checked_params_def)

end
