(* ===== verification/DirWalker.thy ===== *)
theory DirWalker
  imports SecRoot
begin

text \<open>
  The directory walker: src/native/sec_fs/sec_dir_walker.go, the walk options and entries of
  define.go, and \<^verbatim>\<open>WalkDir\<close> and \<^verbatim>\<open>ReadDir\<close> of sec_root.go. The disk does not change during a walk. An
  open directory is its path with the entries that have not been read; \<^verbatim>\<open>ReadDir(n)\<close> gives them in
  the order of the disk. The stack has its top in front. A walk need not end, so the loops are
  partial functions whose value is \<open>None\<close> when they do not return.
\<close>

subsection \<open>Joining paths\<close>

text \<open>\<^verbatim>\<open>filepath.Clean\<close> and \<^verbatim>\<open>filepath.Join\<close> of two elements.\<close>

definition clean_step :: "bool \<Rightarrow> string \<Rightarrow> string list \<Rightarrow> string list" where
  "clean_step rooted c acc =
    (if c = ''.'' then acc
     else if c = ''..'' then
       (if acc \<noteq> [] \<and> last acc \<noteq> ''..'' then butlast acc else if rooted then acc else acc @ [c])
     else acc @ [c])"

fun join_slash :: "string list \<Rightarrow> string" where
  "join_slash [] = []"
| "join_slash [c] = c"
| "join_slash (c # cs) = c @ slash # join_slash cs"

definition filepath_Clean :: "string \<Rightarrow> string" where
  "filepath_Clean p =
    (if p = [] then ''.''
     else let rooted = (hd p = slash); out = join_slash (fold (clean_step rooted) (components p) []) in
       if rooted then slash # out else if out = [] then ''.'' else out)"

definition filepath_Join :: "string \<Rightarrow> string \<Rightarrow> string" where
  "filepath_Join a b =
    (if a = [] \<and> b = [] then []
     else if a = [] then filepath_Clean b
     else if b = [] then filepath_Clean a
     else filepath_Clean (a @ slash # b))"

subsection \<open>Options and entries\<close>

record WalkOptions =
  Recursive :: bool
  MaxDepth :: int
  SkipFiles :: bool
  SkipDirs :: bool
  IncludeHidden :: bool
  MaxPendingDirectories :: int

datatype WalkOption =
    WithRecursive
  | WithMaxDepth int
  | WithSkipFiles
  | WithSkipDirs
  | WithIncludeHidden
  | WithMaxPendingDirectories int

primrec walk_option :: "WalkOption \<Rightarrow> WalkOptions \<Rightarrow> WalkOptions" where
  "walk_option WithRecursive o1 = o1\<lparr>Recursive := True\<rparr>"
| "walk_option (WithMaxDepth depth) o1 = o1\<lparr>MaxDepth := depth\<rparr>"
| "walk_option WithSkipFiles o1 = o1\<lparr>SkipFiles := True\<rparr>"
| "walk_option WithSkipDirs o1 = o1\<lparr>SkipDirs := True\<rparr>"
| "walk_option WithIncludeHidden o1 = o1\<lparr>IncludeHidden := True\<rparr>"
| "walk_option (WithMaxPendingDirectories limit) o1 = o1\<lparr>MaxPendingDirectories := limit\<rparr>"

definition default_walk_options :: WalkOptions where
  "default_walk_options = \<lparr>Recursive = False, MaxDepth = 0, SkipFiles = False, SkipDirs = False,
     IncludeHidden = False, MaxPendingDirectories = 0\<rparr>"

definition apply_walk_options :: "WalkOption list \<Rightarrow> WalkOptions" where
  "apply_walk_options opts = foldl (\<lambda>o1 option. walk_option option o1) default_walk_options opts"

text \<open>Times and permission bits are left out; the size of a directory is taken to be 0.\<close>

record secDirEntry =
  viewName :: string
  entryIsDir :: bool
  entrySize :: nat
  relativeViewPath :: string
  relativeStorePath :: string

definition secDirEntry_StoreName :: "secDirEntry \<Rightarrow> string" where
  "secDirEntry_StoreName e = (if relativeStorePath e = [] then [] else filepath_Base (relativeStorePath e))"

subsection \<open>Directories of the operating system\<close>

type_synonym raw_entry = "string \<times> node"

record dir_handle =
  h_isdir :: bool
  h_all :: "raw_entry list"
  h_rest :: "raw_entry list"

definition dir_children :: "disk \<Rightarrow> fpath \<Rightarrow> raw_entry list" where
  "dir_children d p = map (\<lambda>(q, n). (last q, n)) (filter (\<lambda>(q, n). q \<noteq> [] \<and> butlast q = p) d)"

text \<open>A file can be opened as well; only reading entries from it fails.\<close>

definition os_OpenDir :: "disk \<Rightarrow> fpath \<Rightarrow> os_error + dir_handle" where
  "os_OpenDir d p =
    (case os_Stat d p of Inl e \<Rightarrow> Inl e
     | Inr NDir \<Rightarrow> Inr \<lparr>h_isdir = True, h_all = dir_children d p, h_rest = dir_children d p\<rparr>
     | Inr _ \<Rightarrow> Inr \<lparr>h_isdir = False, h_all = [], h_rest = []\<rparr>)"

datatype read_dir = ReadEntries "raw_entry list" dir_handle | ReadEOF | ReadError os_error

text \<open>A nil handle reports an invalid argument.\<close>

definition os_ReadDir :: "dir_handle option \<Rightarrow> nat \<Rightarrow> read_dir" where
  "os_ReadDir h n =
    (case h of None \<Rightarrow> ReadError EINVAL_os
     | Some dh \<Rightarrow>
       if \<not> h_isdir dh then ReadError ENOTDIR
       else if h_rest dh = [] then ReadEOF
       else ReadEntries (take n (h_rest dh)) (dh\<lparr>h_rest := drop n (h_rest dh)\<rparr>))"

subsection \<open>The walker\<close>

record secDirWalker =
  w_rootPathInfo :: pathInfo
  w_relativePath :: string
  w_options :: WalkOptions
  dirFile :: "dir_handle option"
  rawEntries :: "raw_entry list"
  rawIndex :: nat
  batchSize :: nat
  initialized :: bool
  w_closed :: bool
  w_nameCryptor :: name_ctx
  w_ignoreMatcher :: "IIgnoreMatcher option"
  dirStack :: "(string \<times> int) list"
  currentDepth :: int

datatype walk_err =
    ErrWalkerClosed
  | ErrDirectoryNotFound
  | ErrWalkPath sec_error
  | ErrWalkOs os_error
  | ErrCorruptedEntry name_error
  | ErrWalkerWorkLimit int
  | WalkEOF

definition newSecDirWalker ::
  "pathInfo \<Rightarrow> string \<Rightarrow> name_ctx \<Rightarrow> IIgnoreMatcher option \<Rightarrow> WalkOption list \<Rightarrow> secDirWalker" where
  "newSecDirWalker rootInfo rel cryptor matcher opts =
    \<lparr>w_rootPathInfo = rootInfo, w_relativePath = rel, w_options = apply_walk_options opts, dirFile = None,
     rawEntries = [], rawIndex = 0, batchSize = 100, initialized = False, w_closed = False,
     w_nameCryptor = cryptor, w_ignoreMatcher = matcher, dirStack = [], currentDepth = 0\<rparr>"

text \<open>Opening the directory of a view path: the path check, then the operating system.\<close>

definition open_view_dir :: "path_env \<Rightarrow> disk \<Rightarrow> secDirWalker \<Rightarrow> string \<Rightarrow> walk_err + dir_handle" where
  "open_view_dir env d w rel =
    (case viewPathToStorePathCheck env (w_rootPathInfo w) rel (w_nameCryptor w) False of
       Inl e \<Rightarrow> Inl (ErrWalkPath e)
     | Inr (_, full) \<Rightarrow>
       (case os_OpenDir d (components full) of
          Inl ENOENT \<Rightarrow> Inl ErrDirectoryNotFound
        | Inl e \<Rightarrow> Inl (ErrWalkOs e)
        | Inr h \<Rightarrow> Inr h))"

definition walker_init :: "path_env \<Rightarrow> disk \<Rightarrow> secDirWalker \<Rightarrow> secDirWalker \<times> walk_err option" where
  "walker_init env d w =
    (let w = w\<lparr>initialized := True, batchSize := 100\<rparr> in
     case open_view_dir env d w (w_relativePath w) of Inl e \<Rightarrow> (w, Some e)
     | Inr h \<Rightarrow> (w\<lparr>dirFile := Some h, rawEntries := [], rawIndex := 0\<rparr>, None))"

text \<open>\<^verbatim>\<open>loadNextDirectory\<close>: the loop over the stack, with the stack as an argument.\<close>

fun load_directories :: "path_env \<Rightarrow> disk \<Rightarrow> (string \<times> int) list \<Rightarrow> secDirWalker \<Rightarrow> secDirWalker \<times> walk_err option" where
  "load_directories env d [] w = (w\<lparr>dirStack := [], rawEntries := []\<rparr>, Some WalkEOF)"
| "load_directories env d ((rel, depth) # stack) w =
    (let w = w\<lparr>dirStack := stack, dirFile := None\<rparr> in
     case open_view_dir env d w rel of Inl e \<Rightarrow> (w, Some e)
     | Inr h \<Rightarrow>
       let w = w\<lparr>w_relativePath := rel, dirFile := Some h, currentDepth := depth, rawEntries := [], rawIndex := 0\<rparr> in
       (case os_ReadDir (dirFile w) (batchSize w) of
          ReadEOF \<Rightarrow> load_directories env d stack w
        | ReadError e \<Rightarrow> (w, Some (ErrWalkOs e))
        | ReadEntries es h' \<Rightarrow> (w\<lparr>dirFile := Some h', rawEntries := es\<rparr>, None)))"

definition loadNextDirectory :: "path_env \<Rightarrow> disk \<Rightarrow> secDirWalker \<Rightarrow> secDirWalker \<times> walk_err option" where
  "loadNextDirectory env d w =
    (if Recursive (w_options w) then load_directories env d (dirStack w) w
     else (w\<lparr>rawEntries := []\<rparr>, Some WalkEOF))"

definition loadNextBatch :: "path_env \<Rightarrow> disk \<Rightarrow> secDirWalker \<Rightarrow> secDirWalker \<times> walk_err option" where
  "loadNextBatch env d w =
    (case os_ReadDir (dirFile w) (batchSize w) of
       ReadEOF \<Rightarrow> loadNextDirectory env d w
     | ReadError e \<Rightarrow> (w, Some (ErrWalkOs e))
     | ReadEntries es h' \<Rightarrow> (w\<lparr>dirFile := Some h', rawEntries := es, rawIndex := 0\<rparr>, None))"

definition maxPendingDirectories :: "secDirWalker \<Rightarrow> int" where
  "maxPendingDirectories w =
    (let limit = MaxPendingDirectories (w_options w) in
     if limit < 1 then 1024 else if 4096 < limit then 4096 else limit)"

datatype outcome = Emit secDirEntry | Skip | Fail walk_err

fun node_size :: "node \<Rightarrow> nat" where
  "node_size (NFile data) = length data"
| "node_size _ = 0"

definition ignored :: "(IIgnoreMatcher \<Rightarrow> string \<Rightarrow> bool \<Rightarrow> bool) \<Rightarrow> secDirWalker \<Rightarrow> string \<Rightarrow> bool \<Rightarrow> bool" where
  "ignored f w name isDir = (case w_ignoreMatcher w of None \<Rightarrow> False | Some m \<Rightarrow> f m name isDir)"

definition decrypt_entry :: "secDirWalker \<Rightarrow> string \<Rightarrow> name_error + string" where
  "decrypt_entry w name = (case w_nameCryptor w of None \<Rightarrow> Inr name | Some (_, decn) \<Rightarrow> decn name)"

text \<open>The directory is put on the stack before the skip options are looked at.\<close>

definition push_directory :: "secDirWalker \<Rightarrow> string \<Rightarrow> bool \<Rightarrow> secDirWalker \<times> walk_err option" where
  "push_directory w name isDir =
    (if isDir \<and> Recursive (w_options w) \<and> (MaxDepth (w_options w) = 0 \<or> currentDepth w < MaxDepth (w_options w)) then
       if maxPendingDirectories w \<le> int (length (dirStack w)) then (w, Some (ErrWalkerWorkLimit (maxPendingDirectories w)))
       else (w\<lparr>dirStack := (filepath_Join (w_relativePath w) name, currentDepth w + 1) # dirStack w\<rparr>, None)
     else (w, None))"

definition processEntry :: "secDirWalker \<Rightarrow> raw_entry \<Rightarrow> secDirWalker \<times> outcome" where
  "processEntry w entry =
    (case entry of (storeName, n) \<Rightarrow>
     let isDir = (n = NDir) in
     if ignored ShouldIgnore1 w storeName isDir then (w, Skip)
     else case decrypt_entry w storeName of Inl e \<Rightarrow> (w, Fail (ErrCorruptedEntry e))
     | Inr name \<Rightarrow>
       if \<not> IncludeHidden (w_options w) \<and> name \<noteq> [] \<and> hd name = CHR ''.'' then (w, Skip)
       else if ignored ShouldIgnore2 w name isDir then (w, Skip)
       else case push_directory w name isDir of (w, Some e) \<Rightarrow> (w, Fail e)
       | (w, None) \<Rightarrow>
         if SkipFiles (w_options w) \<and> \<not> isDir then (w, Skip)
         else if SkipDirs (w_options w) \<and> isDir then (w, Skip)
         else (w, Emit \<lparr>viewName = name, entryIsDir = isDir, entrySize = node_size n,
                relativeViewPath = filepath_Join (w_relativePath w) name, relativeStorePath = []\<rparr>))"

text \<open>One turn of the loop of \<^verbatim>\<open>Next\<close> and \<^verbatim>\<open>NextBatch\<close>.\<close>

definition walker_turn :: "path_env \<Rightarrow> disk \<Rightarrow> secDirWalker \<Rightarrow> secDirWalker \<times> outcome" where
  "walker_turn env d w =
    (case (if length (rawEntries w) \<le> rawIndex w then loadNextBatch env d w else (w, None)) of
       (w, Some e) \<Rightarrow> (w, Fail e)
     | (w, None) \<Rightarrow>
       if rawEntries w = [] then (w, Fail WalkEOF)
       else processEntry (w\<lparr>rawIndex := rawIndex w + 1\<rparr>) (rawEntries w ! rawIndex w))"

partial_function (option) next_loop ::
  "path_env \<Rightarrow> disk \<Rightarrow> secDirWalker \<Rightarrow> (secDirWalker \<times> (walk_err + secDirEntry)) option" where
  "next_loop env d w =
    (case walker_turn env d w of
       (w', Emit e) \<Rightarrow> Some (w', Inr e)
     | (w', Fail e) \<Rightarrow> Some (w', Inl e)
     | (w', Skip) \<Rightarrow> next_loop env d w')"

text \<open>\<open>None\<close> is a nil walker.\<close>

definition ensure_init :: "path_env \<Rightarrow> disk \<Rightarrow> secDirWalker \<Rightarrow> secDirWalker \<times> walk_err option" where
  "ensure_init env d w = (if initialized w then (w, None) else walker_init env d w)"

definition walker_Next ::
  "path_env \<Rightarrow> disk \<Rightarrow> secDirWalker option \<Rightarrow> (secDirWalker option \<times> (walk_err + secDirEntry)) option" where
  "walker_Next env d w =
    (case w of None \<Rightarrow> Some (None, Inl ErrWalkerClosed)
     | Some w \<Rightarrow>
       if w_closed w then Some (Some w, Inl ErrWalkerClosed)
       else case ensure_init env d w of (w, Some e) \<Rightarrow> Some (Some w, Inl e)
       | (w, None) \<Rightarrow> map_option (map_prod Some id) (next_loop env d w))"

partial_function (option) batch_loop ::
  "path_env \<Rightarrow> disk \<Rightarrow> nat \<Rightarrow> secDirEntry list \<Rightarrow> secDirWalker \<Rightarrow> (secDirWalker \<times> (walk_err + secDirEntry list)) option" where
  "batch_loop env d n batch w =
    (if n \<le> length batch then Some (w, Inr batch)
     else case walker_turn env d w of
       (w', Emit e) \<Rightarrow> batch_loop env d n (batch @ [e]) w'
     | (w', Fail e) \<Rightarrow> Some (w', if e = WalkEOF then Inr batch else Inl e)
     | (w', Skip) \<Rightarrow> batch_loop env d n batch w')"

definition walker_NextBatch ::
  "path_env \<Rightarrow> disk \<Rightarrow> secDirWalker option \<Rightarrow> int \<Rightarrow> (secDirWalker option \<times> (walk_err + secDirEntry list)) option" where
  "walker_NextBatch env d w count =
    (case w of None \<Rightarrow> Some (None, Inl ErrWalkerClosed)
     | Some w \<Rightarrow>
       if w_closed w then Some (Some w, Inl ErrWalkerClosed)
       else case ensure_init env d w of (w, Some e) \<Rightarrow> Some (Some w, Inl e)
       | (w, None) \<Rightarrow>
         if count \<le> 0 then Some (Some w, Inr [])
         else map_option (\<lambda>(w', r). (Some w', case r of Inr [] \<Rightarrow> Inl WalkEOF | _ \<Rightarrow> r)) (batch_loop env d (nat count) [] w))"

definition walker_HasNext :: "path_env \<Rightarrow> disk \<Rightarrow> secDirWalker option \<Rightarrow> secDirWalker option \<times> bool" where
  "walker_HasNext env d w =
    (case w of None \<Rightarrow> (None, False)
     | Some w \<Rightarrow>
       if w_closed w then (Some w, False)
       else if \<not> initialized w then (Some w, True)
       else if rawIndex w < length (rawEntries w) then (Some w, True)
       else case loadNextBatch env d w of
         (w, Some _) \<Rightarrow> (Some w, False)
       | (w, None) \<Rightarrow> (Some w, rawEntries w \<noteq> []))"

definition walker_Reset :: "secDirWalker option \<Rightarrow> secDirWalker option \<times> walk_err option" where
  "walker_Reset w =
    (case w of None \<Rightarrow> (None, Some ErrWalkerClosed)
     | Some w \<Rightarrow>
       if w_closed w then (Some w, Some ErrWalkerClosed)
       else (Some (w\<lparr>rawIndex := 0, rawEntries := [],
               dirFile := map_option (\<lambda>h. h\<lparr>h_rest := h_all h\<rparr>) (dirFile w)\<rparr>), None))"

definition walker_Close :: "secDirWalker option \<Rightarrow> secDirWalker option" where
  "walker_Close w =
    (case w of None \<Rightarrow> None
     | Some w \<Rightarrow> Some (w\<lparr>w_closed := True, rawEntries := [], dirStack := [], dirFile := None\<rparr>))"

subsection \<open>The root's methods\<close>

datatype walk_or_root = WalkErr walk_err | RootErr root_error

definition root_WalkDir ::
  "path_env \<Rightarrow> disk \<Rightarrow> 'c secRoot option \<Rightarrow> string \<Rightarrow> WalkOption list \<Rightarrow> walk_or_root + secDirWalker" where
  "root_WalkDir env d r path opts =
    (case open_root r of Inl e \<Rightarrow> Inl (RootErr e)
     | Inr rt \<Rightarrow>
       (case walker_init env d (newSecDirWalker (rootPathInfo rt) path (nameCryptor rt) (ignoreMatcher rt) opts) of
          (_, Some e) \<Rightarrow> Inl (WalkErr e)
        | (w, None) \<Rightarrow> Inr w))"

partial_function (option) read_all ::
  "path_env \<Rightarrow> disk \<Rightarrow> secDirEntry list \<Rightarrow> secDirWalker \<Rightarrow> (walk_err + secDirEntry list) option" where
  "read_all env d entries w =
    Option.bind (next_loop env d w) (\<lambda>(w', r).
      case r of Inl e \<Rightarrow> Some (if e = WalkEOF then Inr entries else Inl e)
      | Inr e \<Rightarrow> read_all env d (entries @ [e]) w')"

text \<open>\<^verbatim>\<open>ReadDir\<close> makes its own walker, with the default options.\<close>

definition root_ReadDir ::
  "path_env \<Rightarrow> disk \<Rightarrow> 'c secRoot option \<Rightarrow> string \<Rightarrow> (walk_or_root + secDirEntry list) option" where
  "root_ReadDir env d r path =
    (case r of None \<Rightarrow> Some (Inl (RootErr ErrRootIsNil))
     | Some rt \<Rightarrow>
       if rclosed rt then Some (Inl (RootErr ErrRootClosed))
       else case full_path env rt path of Inl e \<Rightarrow> Some (Inl (RootErr e))
       | Inr _ \<Rightarrow>
         (case walker_init env d (newSecDirWalker (rootPathInfo rt) path (nameCryptor rt) (ignoreMatcher rt) []) of
            (_, Some e) \<Rightarrow> Some (Inl (WalkErr e))
          | (w, None) \<Rightarrow> map_option (map_sum WalkErr id) (read_all env d [] w)))"

end
