(* ===== verification/PlainRoot.thy ===== *)
theory PlainRoot
  imports DirWalker "HOL-Library.List_Lexorder" "HOL-Library.Char_ord"
begin

text \<open>
  The plain root: src/native/sec_fs/plainfs.go, a directory behind the interface of a secure root
  without any encryption, its files and its directory walker. Its disk is that of theory
  SecRoot; the receiver \<open>None\<close> is a nil root. Errors of package os that the source hands on
  unchanged carry the operation package os gives them. \<^verbatim>\<open>os.ReadDir\<close> sorts the entries by name.
\<close>

record PlainFS =
  pl_rootPath :: string
  pl_rootPathInfo :: pathInfo
  pl_closed :: bool

datatype new_plain = NewPlain PlainFS | PlainFail root_error | PlainPanic

text \<open>\<^verbatim>\<open>filepath.Abs\<close>, with the working directory as a parameter.\<close>

definition filepath_Abs :: "string \<Rightarrow> string \<Rightarrow> string" where
  "filepath_Abs cwd p = (if p \<noteq> [] \<and> hd p = slash then filepath_Clean p else filepath_Join cwd p)"

definition NewPlainFS :: "path_env \<Rightarrow> string \<Rightarrow> disk \<Rightarrow> string \<Rightarrow> new_plain" where
  "NewPlainFS env cwd d rootPath =
    (let absPath = filepath_Abs cwd rootPath in
     case os_Stat d (components absPath) of Inl e \<Rightarrow> PlainFail (RootOsError ''stat'' e)
     | Inr n \<Rightarrow>
       if n \<noteq> NDir then PlainFail (RootOsError ''not_dir'' ENOENT)
       else (case ParsePathInfoEasy env absPath of Inl _ \<Rightarrow> PlainPanic
         | Inr info \<Rightarrow> NewPlain \<lparr>pl_rootPath = absPath, pl_rootPathInfo = info, pl_closed = False\<rparr>))"

definition resolvePath :: "path_env \<Rightarrow> PlainFS \<Rightarrow> string \<Rightarrow> root_error + string" where
  "resolvePath env p path =
    (case fullPathFromRelativeStorePath env (pl_rootPathInfo p) path of Inl e \<Rightarrow> Inl (RootPathError e)
     | Inr full \<Rightarrow> Inr full)"

text \<open>The common head of the methods; the error of a nil receiver depends on the method.\<close>

definition plain_path :: "path_env \<Rightarrow> root_error \<Rightarrow> PlainFS option \<Rightarrow> string \<Rightarrow> root_error + fpath" where
  "plain_path env nil r path =
    (case r of None \<Rightarrow> Inl nil
     | Some p \<Rightarrow> if pl_closed p then Inl ErrRootClosed
       else (case resolvePath env p path of Inl e \<Rightarrow> Inl e | Inr full \<Rightarrow> Inr (components full)))"

subsection \<open>Files\<close>

record plainFile =
  pf_file :: opened
  pf_relativePath :: string
  pf_fullStorePath :: string

definition plain_OpenFile ::
  "path_env \<Rightarrow> nat \<Rightarrow> PlainFS option \<Rightarrow> disk \<Rightarrow> string \<Rightarrow> open_mode \<Rightarrow> disk \<times> (root_error + plainFile)" where
  "plain_OpenFile env room r d path m =
    (case r of None \<Rightarrow> (d, Inl ErrRootIsNil)
     | Some p \<Rightarrow>
       if pl_closed p then (d, Inl ErrRootClosed)
       else (case resolvePath env p path of Inl e \<Rightarrow> (d, Inl e)
         | Inr full \<Rightarrow>
           let q = components full;
               (d1, merr) = (if o_wronly m \<or> o_rdwr m \<or> o_create m then os_MkdirAll d (butlast q) else (d, None))
           in case merr of Some e \<Rightarrow> (d1, Inl (RootOsError ''mkdir'' e))
            | None \<Rightarrow>
              (case os_OpenFile room d1 q m of
                 (d2, Inl e) \<Rightarrow> (d2, Inl (RootOsError ''open'' e))
               | (d2, Inr f) \<Rightarrow> (d2, Inr \<lparr>pf_file = f, pf_relativePath = path, pf_fullStorePath = full\<rparr>))))"

definition plain_Open :: "path_env \<Rightarrow> nat \<Rightarrow> PlainFS option \<Rightarrow> disk \<Rightarrow> string \<Rightarrow> disk \<times> (root_error + plainFile)" where
  "plain_Open env room r d name =
    (case r of None \<Rightarrow> (d, Inl ErrRootIsNil)
     | Some p \<Rightarrow>
       if pl_closed p then (d, Inl ErrRootClosed)
       else plain_OpenFile env room r d name
         \<lparr>o_wronly = False, o_rdwr = False, o_create = False, o_excl = False, o_trunc = False, o_append = False\<rparr>)"

text \<open>The size of a directory is taken to be 0.\<close>

definition plainFile_Size :: "plainFile \<Rightarrow> int" where
  "plainFile_Size f = (case pf_file f of OpenedDir \<Rightarrow> 0 | OpenedFile g \<Rightarrow> fileContext_Size g)"

definition plainFile_Truncate :: "plainFile \<Rightarrow> int \<Rightarrow> plainFile \<times> io_error option" where
  "plainFile_Truncate f n =
    (case pf_file f of OpenedDir \<Rightarrow> (f, Some EINVAL)
     | OpenedFile g \<Rightarrow> (case os_truncate g n of (g', err) \<Rightarrow> (f\<lparr>pf_file := OpenedFile g'\<rparr>, err)))"

definition plainFile_Sync :: "plainFile \<Rightarrow> io_error option" where
  "plainFile_Sync f = (case pf_file f of OpenedDir \<Rightarrow> None | OpenedFile g \<Rightarrow> os_sync g)"

text \<open>\<^verbatim>\<open>Close\<close> is the method of the embedded file, which keeps its pointer: a plain file is never seen
  as closed.\<close>

definition plainFile_Close :: "plainFile \<Rightarrow> plainFile \<times> io_error option" where
  "plainFile_Close f =
    (case pf_file f of OpenedDir \<Rightarrow> (f, None)
     | OpenedFile g \<Rightarrow> (case os_close g of (g', err) \<Rightarrow> (f\<lparr>pf_file := OpenedFile g'\<rparr>, err)))"

definition plainFile_IsClosed :: "plainFile \<Rightarrow> bool" where
  "plainFile_IsClosed f = False"

subsection \<open>Operations\<close>

definition plain_Close :: "PlainFS option \<Rightarrow> PlainFS option" where
  "plain_Close r = (case r of None \<Rightarrow> None
     | Some p \<Rightarrow> if pl_closed p then Some p else Some (p\<lparr>pl_closed := True\<rparr>))"

definition plain_DeleteFile :: "path_env \<Rightarrow> PlainFS option \<Rightarrow> disk \<Rightarrow> string \<Rightarrow> disk \<times> root_error option" where
  "plain_DeleteFile env r d path =
    (case plain_path env ErrRootClosed r path of Inl e \<Rightarrow> (d, Some e)
     | Inr q \<Rightarrow> (case os_Remove d q of (d', err) \<Rightarrow> (d', map_option (RootOsError ''remove'') err)))"

definition plain_DeleteDirectoryTree :: "path_env \<Rightarrow> PlainFS option \<Rightarrow> disk \<Rightarrow> string \<Rightarrow> disk \<times> root_error option" where
  "plain_DeleteDirectoryTree env r d path =
    (case plain_path env ErrRootClosed r path of Inl e \<Rightarrow> (d, Some e)
     | Inr q \<Rightarrow> deleteDirectoryTree d path q)"

definition plain_FileExists :: "path_env \<Rightarrow> PlainFS option \<Rightarrow> disk \<Rightarrow> string \<Rightarrow> bool" where
  "plain_FileExists env r d path =
    (case plain_path env ErrRootClosed r path of Inl _ \<Rightarrow> False
     | Inr q \<Rightarrow> (case os_Stat d q of Inl _ \<Rightarrow> False | Inr _ \<Rightarrow> True))"

definition plain_MkdirAll :: "path_env \<Rightarrow> PlainFS option \<Rightarrow> disk \<Rightarrow> string \<Rightarrow> disk \<times> root_error option" where
  "plain_MkdirAll env r d path =
    (case plain_path env ErrRootClosed r path of Inl e \<Rightarrow> (d, Some e)
     | Inr q \<Rightarrow> (case os_MkdirAll d q of (d', err) \<Rightarrow> (d', map_option (RootOsError ''mkdir'') err)))"

definition plain_Rename :: "path_env \<Rightarrow> PlainFS option \<Rightarrow> disk \<Rightarrow> string \<Rightarrow> string \<Rightarrow> disk \<times> root_error option" where
  "plain_Rename env r d oldPath newPath =
    (case r of None \<Rightarrow> (d, Some ErrRootClosed)
     | Some p \<Rightarrow>
       if pl_closed p then (d, Some ErrRootClosed)
       else if oldPath = newPath then (d, None)
       else (case resolvePath env p oldPath of Inl e \<Rightarrow> (d, Some e)
         | Inr old \<Rightarrow>
           (case resolvePath env p newPath of Inl e \<Rightarrow> (d, Some e)
            | Inr new \<Rightarrow>
              (case os_Lstat d (components new) of
                 Inr _ \<Rightarrow> (d, Some ErrFileAlreadyExists)
               | Inl e \<Rightarrow>
                 if e \<noteq> ENOENT then (d, Some (RootOsError ''stat_rename_target'' e))
                 else (case os_Rename d (components old) (components new) of
                     (d', err) \<Rightarrow> (d', map_option (RootOsError ''rename'') err))))))"

definition plain_RenameByStorePath ::
  "path_env \<Rightarrow> PlainFS option \<Rightarrow> disk \<Rightarrow> string \<Rightarrow> string \<Rightarrow> disk \<times> root_error option" where
  "plain_RenameByStorePath env r d oldPath newPath =
    (case r of None \<Rightarrow> (d, Some ErrRootClosed)
     | Some p \<Rightarrow>
       if pl_closed p then (d, Some ErrRootClosed)
       else (case resolvePath env p oldPath of Inl e \<Rightarrow> (d, Some e)
         | Inr old \<Rightarrow>
           (case resolvePath env p newPath of Inl e \<Rightarrow> (d, Some e)
            | Inr new \<Rightarrow>
              (case os_Rename d (components old) (components new) of
                 (d', err) \<Rightarrow> (d', map_option (RootOsError ''rename_by_store_path'') err)))))"

definition plain_GetStorePath :: "path_env \<Rightarrow> PlainFS option \<Rightarrow> string \<Rightarrow> root_error + string" where
  "plain_GetStorePath env r viewPath =
    (case r of None \<Rightarrow> Inl ErrRootClosed
     | Some p \<Rightarrow>
       if pl_closed p then Inl ErrRootClosed
       else (case ParsePathInfoEasy env viewPath of Inl _ \<Rightarrow> Inl (RootPathError ErrPathTraversal)
         | Inr info \<Rightarrow> if \<not> isSafeRelativeStorePath info then Inl (RootPathError ErrPathTraversal)
           else Inr (pathInfo_Encode info)))"

definition plain_GetRootPath :: "PlainFS option \<Rightarrow> string" where
  "plain_GetRootPath r = (case r of None \<Rightarrow> [] | Some p \<Rightarrow> pl_rootPath p)"

text \<open>\<^verbatim>\<open>os.Stat\<close> reports the last component of the full path as the name.\<close>

definition plain_Stat :: "path_env \<Rightarrow> PlainFS option \<Rightarrow> disk \<Rightarrow> string \<Rightarrow> root_error + string \<times> node" where
  "plain_Stat env r d path =
    (case r of None \<Rightarrow> Inl ErrRootIsNil
     | Some p \<Rightarrow>
       if pl_closed p then Inl ErrRootClosed
       else (case resolvePath env p path of Inl e \<Rightarrow> Inl e
         | Inr full \<Rightarrow> (case os_Stat d (components full) of Inl e \<Rightarrow> Inl (RootOsError ''stat'' e)
           | Inr n \<Rightarrow> Inr (filepath_Base full, n))))"

subsection \<open>Reading directories\<close>

record plainDirEntry =
  pe_name :: string
  pe_isDir :: bool
  pe_relativePath :: string

definition plainDirEntry_StoreName :: "plainDirEntry \<Rightarrow> string" where
  "plainDirEntry_StoreName e = pe_name e"

text \<open>\<^verbatim>\<open>os.ReadDir\<close>: opening works for a file too, reading entries from it does not. The error has the
  operation that failed.\<close>

definition os_ReadDirAll :: "disk \<Rightarrow> fpath \<Rightarrow> (string \<times> os_error) + raw_entry list" where
  "os_ReadDirAll d p =
    (case os_Stat d p of Inl e \<Rightarrow> Inl (''open'', e)
     | Inr NDir \<Rightarrow> Inr (sort_key fst (dir_children d p))
     | Inr _ \<Rightarrow> Inl (''readdirent'', ENOTDIR))"

definition plain_entry :: "string \<Rightarrow> raw_entry \<Rightarrow> plainDirEntry" where
  "plain_entry rel e = \<lparr>pe_name = fst e, pe_isDir = (snd e = NDir), pe_relativePath = filepath_Join rel (fst e)\<rparr>"

definition plain_ReadDir :: "path_env \<Rightarrow> PlainFS option \<Rightarrow> disk \<Rightarrow> string \<Rightarrow> root_error + plainDirEntry list" where
  "plain_ReadDir env r d name =
    (case plain_path env ErrRootIsNil r name of Inl e \<Rightarrow> Inl e
     | Inr q \<Rightarrow> (case os_ReadDirAll d q of Inl (op, e) \<Rightarrow> Inl (RootOsError op e)
       | Inr es \<Rightarrow> Inr (map (plain_entry name) es)))"

subsection \<open>The walker\<close>

record plainDirWalker =
  pw_rootPath :: string
  pw_startPath :: string
  pw_entries :: "plainDirEntry list"
  pw_index :: nat
  pw_options :: WalkOptions
  pw_recursive :: bool
  pw_maxDepth :: int

text \<open>Unlike the walker of a secure root it is recursive by default, and no option turns that off.\<close>

definition newPlainDirWalker :: "string \<Rightarrow> string \<Rightarrow> WalkOption list \<Rightarrow> plainDirWalker" where
  "newPlainDirWalker root start opts =
    (let options = foldl (\<lambda>o1 option. walk_option option o1) (default_walk_options\<lparr>Recursive := True\<rparr>) opts in
     \<lparr>pw_rootPath = root, pw_startPath = start, pw_entries = [], pw_index = 0, pw_options = options,
      pw_recursive = Recursive options, pw_maxDepth = MaxDepth options\<rparr>)"

text \<open>The loop of \<^verbatim>\<open>walkDir\<close> over the entries of one directory, with the call for a subdirectory in it;
  the collected entries are an argument.\<close>

partial_function (option) walk_entries ::
  "disk \<Rightarrow> plainDirWalker \<Rightarrow> string \<Rightarrow> string \<Rightarrow> int \<Rightarrow> raw_entry list \<Rightarrow> plainDirEntry list \<Rightarrow>
   ((string \<times> os_error) + plainDirEntry list) option" where
  "walk_entries d w full rel depth entries acc =
    (case entries of [] \<Rightarrow> Some (Inr acc)
     | e # es \<Rightarrow>
       let isDir = (snd e = NDir) in
       if SkipFiles (pw_options w) \<and> \<not> isDir then walk_entries d w full rel depth es acc
       else if SkipDirs (pw_options w) \<and> isDir then walk_entries d w full rel depth es acc
       else if isDir \<and> pw_recursive w \<and> \<not> (0 < pw_maxDepth w \<and> pw_maxDepth w \<le> depth) then
         (let child = filepath_Join full (fst e) in
          case os_ReadDirAll d (components child) of Inl err \<Rightarrow> Some (Inl err)
          | Inr ces \<Rightarrow>
            Option.bind (walk_entries d w child (filepath_Join rel (fst e)) (depth + 1) ces (acc @ [plain_entry rel e]))
              (\<lambda>r. case r of Inl err \<Rightarrow> Some (Inl err) | Inr acc' \<Rightarrow> walk_entries d w full rel depth es acc'))
       else walk_entries d w full rel depth es (acc @ [plain_entry rel e]))"

definition walkDir :: "disk \<Rightarrow> plainDirWalker \<Rightarrow> string \<Rightarrow> string \<Rightarrow> int \<Rightarrow> ((string \<times> os_error) + plainDirEntry list) option" where
  "walkDir d w full rel depth =
    (case os_ReadDirAll d (components full) of Inl e \<Rightarrow> Some (Inl e)
     | Inr es \<Rightarrow> walk_entries d w full rel depth es (pw_entries w))"

definition plain_walker_init :: "disk \<Rightarrow> plainDirWalker \<Rightarrow> ((string \<times> os_error) + plainDirWalker) option" where
  "plain_walker_init d w =
    map_option (map_sum id (\<lambda>es. w\<lparr>pw_entries := es\<rparr>))
      (walkDir d w (filepath_Join (pw_rootPath w) (pw_startPath w)) (pw_startPath w) 0)"

definition plain_WalkDir ::
  "path_env \<Rightarrow> disk \<Rightarrow> PlainFS option \<Rightarrow> string \<Rightarrow> WalkOption list \<Rightarrow> (root_error + plainDirWalker) option" where
  "plain_WalkDir env d r path opts =
    (case r of None \<Rightarrow> Some (Inl ErrRootClosed)
     | Some p \<Rightarrow>
       if pl_closed p then Some (Inl ErrRootClosed)
       else (case resolvePath env p path of Inl e \<Rightarrow> Some (Inl e)
         | Inr _ \<Rightarrow> map_option (map_sum (\<lambda>(op, e). RootOsError op e) id)
             (plain_walker_init d (newPlainDirWalker (pl_rootPath p) path opts))))"

definition plain_walker_Next :: "plainDirWalker \<Rightarrow> plainDirWalker \<times> (walk_err + plainDirEntry)" where
  "plain_walker_Next w =
    (if length (pw_entries w) \<le> pw_index w then (w, Inl WalkEOF)
     else (w\<lparr>pw_index := pw_index w + 1\<rparr>, Inr (pw_entries w ! pw_index w)))"

text \<open>\<open>None\<close> is the panic of a slice whose end lies before its start: the batch size is not checked,
  and the sum of the index and the batch size wraps in 64 bits.\<close>

definition plain_walker_NextBatch ::
  "plainDirWalker \<Rightarrow> int \<Rightarrow> (plainDirWalker \<times> (walk_err + plainDirEntry list)) option" where
  "plain_walker_NextBatch w n =
    (if length (pw_entries w) \<le> pw_index w then Some (w, Inl WalkEOF)
     else let end1 = sint (word_of_int (int (pw_index w) + n) :: 64 word); end2 = min end1 (int (length (pw_entries w))) in
       if end2 < int (pw_index w) then None
       else Some (w\<lparr>pw_index := nat end2\<rparr>, Inr (drop (pw_index w) (take (nat end2) (pw_entries w)))))"

definition plain_walker_HasNext :: "plainDirWalker \<Rightarrow> bool" where
  "plain_walker_HasNext w \<longleftrightarrow> pw_index w < length (pw_entries w)"

definition plain_walker_Close :: "plainDirWalker \<Rightarrow> plainDirWalker" where
  "plain_walker_Close w = w\<lparr>pw_entries := []\<rparr>"

end
