(* ===== verification/DirWalkerProps.thy ===== *)
theory DirWalkerProps
  imports DirWalker SecRootProps
begin

text \<open>
  Properties of the directory walker. The batches in which a directory is read do not show; on a
  tree whose names the name cryptor has made, a recursive walk ends and gives every node once;
  with a name that decrypts to the parent directory it never ends.
\<close>

subsection \<open>Paths of plain names\<close>

lemma join_slash_build: "\<forall>v \<in> set vs. v \<noteq> [] \<Longrightarrow> join_slash vs = build_parts True slash vs"
proof (induction vs rule: join_slash.induct)
  case (3 c e cs)
  have "build_parts False slash (e # cs) = slash # build_parts True slash (e # cs)" if "e \<noteq> []" for e cs
    using that by simp
  with 3 show ?case by simp
qed simp_all

lemma components_join:
  assumes "\<forall>v \<in> set vs. plain_name v"
  shows "components (join_slash vs) = vs"
  using assms
proof (induction vs rule: join_slash.induct)
  case (3 c e cs)
  then show ?case
    using split_slash_name [of c "[]" "slash # join_slash (e # cs)"] plain_no_slash [of c]
    by (simp add: components_def split_slash_append)
next
  case (2 c)
  then show ?case
    using split_slash_name [of c "[]" "[]"] plain_no_slash [of c] by (simp add: components_def)
qed (simp add: components_def)

lemma join_slash_append: "us \<noteq> [] \<Longrightarrow> join_slash (us @ [v]) = join_slash us @ slash # v"
proof (induction us rule: join_slash.induct)
  case (3 c e cs)
  then show ?case by (cases cs) auto
qed simp_all

lemma join_slash_ne: "\<forall>v \<in> set vs. plain_name v \<Longrightarrow> vs \<noteq> [] \<Longrightarrow> join_slash vs \<noteq> [] \<and> hd (join_slash vs) \<noteq> slash"
  by (cases vs rule: join_slash.cases) (auto simp: plain_name_def no_sep_def is_sep_def hd_append)

lemma fold_clean_plain:
  assumes "\<forall>v \<in> set vs. plain_name v"
  shows "fold (clean_step b) vs acc = acc @ vs"
  using assms by (induction vs arbitrary: acc) (auto simp: clean_step_def plain_name_def)

lemma filepath_Clean_plain:
  assumes "\<forall>v \<in> set vs. plain_name v" "vs \<noteq> []"
  shows "filepath_Clean (join_slash vs) = join_slash vs"
  using join_slash_ne [OF assms]
  by (simp add: filepath_Clean_def components_join [OF assms(1)] fold_clean_plain [OF assms(1)] Let_def)

lemma filepath_Join_plain:
  assumes "\<forall>v \<in> set us. plain_name v" "plain_name v"
  shows "filepath_Join (join_slash us) v = join_slash (us @ [v])"
proof -
  have all: "\<forall>w \<in> set (us @ [v]). plain_name w" using assms by simp
  have "filepath_Clean (join_slash (us @ [v])) = join_slash (us @ [v])"
    by (rule filepath_Clean_plain [OF all]) simp
  moreover have "join_slash us = [] \<longleftrightarrow> us = []"
    using join_slash_ne [OF assms(1)] by auto
  ultimately show ?thesis
    using assms(2) join_slash_append [of us v] by (auto simp: filepath_Join_def plain_name_def)
qed

lemma join_slash_inj:
  "\<forall>v \<in> set vs. plain_name v \<Longrightarrow> \<forall>v \<in> set ws. plain_name v \<Longrightarrow> join_slash vs = join_slash ws \<Longrightarrow> vs = ws"
  by (metis components_join)

lemma contains_join:
  assumes "\<exists>p \<in> set (pparts info). p \<noteq> []"
  shows "pathInfo_ContainsPathInfo info (pathInfo_Join info qs)"
proof -
  let ?ps = "pathInfo_Parts info"
  have ne: "\<exists>p \<in> set ?ps. p \<noteq> []"
    using assms by (cases "pparts info") (auto simp: pathInfo_Parts_def)
  have "pathInfo_Parts (pathInfo_Join info qs) = ?ps @ qs"
    using assms by (cases "pparts info") (auto simp: pathInfo_Parts_def pathInfo_Join_def)
  moreover have "?ps \<noteq> []" "\<not> is_root_parts ?ps"
    using ne by (auto simp: is_root_parts_def)
  moreover have "pscheme (pathInfo_Join info qs) = pscheme info" "phost (pathInfo_Join info qs) = phost info"
    by (simp_all add: pathInfo_Join_def)
  ultimately show ?thesis
    by (simp add: pathInfo_ContainsPathInfo_def nth_append Let_def)
qed

context name_cryptor
begin

text \<open>View names whose paths the parser reads back.\<close>

definition good :: "string \<Rightarrow> bool" where
  "good v \<longleftrightarrow> plain_name v \<and> name_ok v \<and> colon \<notin> set v"

text \<open>The path check takes a path of good names to the directory of their stored names.\<close>

lemma check_good:
  assumes "pseparator info = slash" "\<exists>p \<in> set (pparts info). p \<noteq> []" "is_sep (DefaultSystemSeparator env)"
    and vs: "\<forall>v \<in> set vs. good v"
  shows "\<exists>store full. viewPathToStorePathCheck env info (join_slash vs) (Some (encn, decn)) False = Inr (store, full) \<and>
    components full = components (pathInfo_Encode info) @ map stored_name vs"
proof (cases "vs = []")
  case True
  have empty: "ParsePathInfoEasy env [] = Inr \<lparr>pscheme = [], phost = [], pseparator = DefaultSystemSeparator env,
      pparts = [], pathType = PathTypeUnknown\<rparr>"
    by (simp add: ParsePathInfoEasy_def ParsePathInfoWithOptions_def)
  have enc: "pathInfo_Encode \<lparr>pscheme = [], phost = [], pseparator = s, pparts = [], pathType = t\<rparr> = []" for s t
    by (simp add: pathInfo_Encode_def buildEncodedPath_def encoded_host_def buildPath_def isFileURIScheme_def)
  show ?thesis
    using contains_join [OF assms(2), of "[]"]
    by (simp add: True viewPathToStorePathCheck_def ViewPathToStorePath_def empty enc pathInfo_Parts_def
        pathInfo_ReplaceParts_def isSafeRelativeStorePath_def pathInfo_Join_def)
next
  case False
  have plain: "\<forall>v \<in> set vs. plain_name v" and ok: "\<forall>v \<in> set vs. name_ok v" and colon: "\<forall>v \<in> set vs. colon \<notin> set v"
    using vs by (auto simp: good_def)
  have ne: "\<forall>v \<in> set vs. v \<noteq> []" using plain by (auto simp: plain_name_def)
  note clean = clean_parts_plain [OF plain]
  note crypt = crypt_clean_parts [OF clean ok]
  have sl: "is_sep slash" by (simp add: is_sep_def)
  define sep where "sep = (if 1 < length vs then slash else DefaultSystemSeparator env)"
  have sep: "is_sep sep" using assms(3) sl by (simp add: sep_def)
  define vinfo where "vinfo = \<lparr>pscheme = [], phost = [], pseparator = sep, pparts = vs, pathType = PathTypeLocalRelative\<rparr>"
  have parse: "ParsePathInfoEasy env (join_slash vs) = Inr vinfo"
    using parse_print_relative [OF clean False colon sl] by (simp add: join_slash_build [OF ne] vinfo_def sep_def)
  let ?qs = "map stored_name vs"
  have qplain: "\<forall>q \<in> set ?qs. plain_name q" using plain ok stored_name_plain(2) by auto
  have rel: "pathInfo_Parts vinfo = vs" "pathInfo_ReplaceParts vinfo ?qs = vinfo\<lparr>pparts := ?qs\<rparr>"
    using relative_parts [of vinfo] clean False by (auto simp: vinfo_def pathInfo_ReplaceParts_def)
  have store: "ViewPathToStorePath env (join_slash vs) (Some (encn, decn)) = Inr (build_parts True sep ?qs)"
    using parse crypt(1,2) encode_relative [of "vinfo\<lparr>pparts := ?qs\<rparr>"]
    by (simp add: ViewPathToStorePath_def rel) (simp add: vinfo_def)
  define sinfo where "sinfo = \<lparr>pscheme = [], phost = [],
      pseparator = (if 1 < length ?qs then sep else DefaultSystemSeparator env), pparts = ?qs, pathType = PathTypeLocalRelative\<rparr>"
  have parse2: "ParsePathInfoEasy env (build_parts True sep ?qs) = Inr sinfo"
    unfolding sinfo_def using False crypt(2,3) sep by (intro parse_print_relative) auto
  have parts: "pathInfo_Parts sinfo = ?qs"
    using relative_parts(1) [of sinfo] crypt(2) by (simp add: sinfo_def)
  have "isSafeRelativeStorePath sinfo"
    using qplain plain_not_special by (auto simp: isSafeRelativeStorePath_def parts) (auto simp: sinfo_def)
  moreover have "\<forall>q \<in> set ?qs. q \<noteq> []" using qplain by (auto simp: plain_name_def)
  note encode_Join [OF assms(2) this]
  ultimately have "viewPathToStorePathCheck env info (join_slash vs) (Some (encn, decn)) False =
      Inr (build_parts True sep ?qs, pathInfo_Encode info @ concat (map (\<lambda>q. slash # q) ?qs))"
    using contains_join [OF assms(2)] assms(1)
    by (simp add: viewPathToStorePathCheck_def store parse2 parts Let_def)
  moreover have "components (pathInfo_Encode info @ concat (map (\<lambda>q. slash # q) ?qs)) = components (pathInfo_Encode info) @ ?qs"
    unfolding components_def by (rule split_slash_names [OF qplain])
  ultimately show ?thesis by blast
qed

end

subsection \<open>Turns of the loop\<close>

text \<open>The entries of the current directory that have not been processed.\<close>

definition todo :: "secDirWalker \<Rightarrow> raw_entry list" where
  "todo w = drop (rawIndex w) (rawEntries w) @ (case dirFile w of None \<Rightarrow> [] | Some h \<Rightarrow> h_rest h)"

definition reading :: "secDirWalker \<Rightarrow> bool" where
  "reading w \<longleftrightarrow> initialized w \<and> \<not> w_closed w \<and> 0 < batchSize w \<and> (\<exists>h. dirFile w = Some h \<and> h_isdir h)"

definition same_conf :: "secDirWalker \<Rightarrow> secDirWalker \<Rightarrow> bool" where
  "same_conf w w1 \<longleftrightarrow> w_rootPathInfo w1 = w_rootPathInfo w \<and> w_relativePath w1 = w_relativePath w \<and>
     w_options w1 = w_options w \<and> w_nameCryptor w1 = w_nameCryptor w \<and> w_ignoreMatcher w1 = w_ignoreMatcher w \<and>
     dirStack w1 = dirStack w \<and> currentDepth w1 = currentDepth w"

text \<open>An entry that is left is processed next, wherever the batches end.\<close>

lemma turn_todo:
  assumes "reading w" "todo w = x # xs"
  shows "\<exists>w1. walker_turn env d w = processEntry w1 x \<and> todo w1 = xs \<and> reading w1 \<and> same_conf w w1"
proof -
  obtain h where h: "dirFile w = Some h" "h_isdir h" "0 < batchSize w"
    using assms(1) by (auto simp: reading_def)
  show ?thesis
  proof (cases "length (rawEntries w) \<le> rawIndex w")
    case False
    then have "rawEntries w \<noteq> []" "x = rawEntries w ! rawIndex w" "xs = drop (Suc (rawIndex w)) (rawEntries w) @ h_rest h"
      using assms(2) h(1) by (auto simp: todo_def Cons_nth_drop_Suc [symmetric] not_le)
    with False h(1) assms(1) show ?thesis
      by (intro exI [of _ "w\<lparr>rawIndex := rawIndex w + 1\<rparr>"])
        (auto simp: walker_turn_def todo_def reading_def same_conf_def)
  next
    case True
    then have rest: "h_rest h = x # xs" using assms(2) h(1) by (simp add: todo_def)
    let ?h = "h\<lparr>h_rest := drop (batchSize w) (h_rest h)\<rparr>"
    let ?w1 = "w\<lparr>dirFile := Some ?h, rawEntries := take (batchSize w) (h_rest h), rawIndex := 0\<rparr>"
    have "loadNextBatch env d w = (?w1, None)"
      using h rest by (simp add: loadNextBatch_def os_ReadDir_def)
    moreover have "rawEntries ?w1 \<noteq> []" "rawEntries ?w1 ! 0 = x"
      using h(3) rest by (cases "batchSize w"; simp)+
    ultimately have "walker_turn env d w = processEntry (?w1\<lparr>rawIndex := 1\<rparr>) x"
      using True by (simp add: walker_turn_def)
    moreover have "todo (?w1\<lparr>rawIndex := 1\<rparr>) = xs"
      using h(3) rest by (cases "batchSize w") (simp_all add: todo_def)
    moreover have "reading (?w1\<lparr>rawIndex := 1\<rparr>)"
      using assms(1) h by (simp add: reading_def)
    moreover have "same_conf w (?w1\<lparr>rawIndex := 1\<rparr>)"
      by (auto simp: same_conf_def)
    ultimately show ?thesis by blast
  qed
qed

text \<open>At the end of the directory the stack gives the next one.\<close>

lemma turn_done:
  assumes "reading w" "todo w = []"
  shows "walker_turn env d w =
    (case loadNextDirectory env d w of (w1, Some e) \<Rightarrow> (w1, Fail e)
     | (w1, None) \<Rightarrow> if rawEntries w1 = [] then (w1, Fail WalkEOF)
                     else processEntry (w1\<lparr>rawIndex := rawIndex w1 + 1\<rparr>) (rawEntries w1 ! rawIndex w1))"
proof -
  have "length (rawEntries w) \<le> rawIndex w" "loadNextBatch env d w = loadNextDirectory env d w"
    using assms by (auto simp: todo_def reading_def loadNextBatch_def os_ReadDir_def)
  then show ?thesis by (simp add: walker_turn_def)
qed

subsection \<open>Runs\<close>

text \<open>The entries a walker gives until its first error, as a relation over the turns.\<close>

inductive walk_run :: "path_env \<Rightarrow> disk \<Rightarrow> secDirWalker \<Rightarrow> secDirEntry list \<Rightarrow> walk_err \<Rightarrow> secDirWalker \<Rightarrow> bool" for env d where
  stop: "walker_turn env d w = (w', Fail e) \<Longrightarrow> walk_run env d w [] e w'"
| skip: "walker_turn env d w = (w1, Skip) \<Longrightarrow> walk_run env d w1 es e w' \<Longrightarrow> walk_run env d w es e w'"
| emit: "walker_turn env d w = (w1, Emit x) \<Longrightarrow> walk_run env d w1 es e w' \<Longrightarrow> walk_run env d w (x # es) e w'"

text \<open>What \<^verbatim>\<open>Next\<close>, \<^verbatim>\<open>ReadDir\<close> and \<^verbatim>\<open>NextBatch\<close> make of a run.\<close>

lemma next_loop_run:
  assumes "walk_run env d w es e w'"
  shows "case es of [] \<Rightarrow> next_loop env d w = Some (w', Inl e)
    | x # xs \<Rightarrow> \<exists>w1. next_loop env d w = Some (w1, Inr x) \<and> walk_run env d w1 xs e w'"
  using assms
proof induction
  case (stop w w' e)
  then show ?case by (simp add: next_loop.simps)
next
  case (skip w w1 es e w')
  then have "next_loop env d w = next_loop env d w1" by (subst next_loop.simps) simp
  with skip.IH show ?case by (simp split: list.splits)
next
  case (emit w w1 x es e w')
  then show ?case by (simp add: next_loop.simps)
qed

lemma read_all_run:
  assumes "walk_run env d w es e w'"
  shows "read_all env d acc w = Some (if e = WalkEOF then Inr (acc @ es) else Inl e)"
  using assms
proof (induction es arbitrary: acc w)
  case Nil
  with next_loop_run [OF Nil] show ?case by (simp add: read_all.simps)
next
  case (Cons x xs)
  from next_loop_run [OF Cons.prems] obtain w1 where
    "next_loop env d w = Some (w1, Inr x)" "walk_run env d w1 xs e w'" by auto
  with Cons.IH [of w1 "acc @ [x]"] show ?case by (simp add: read_all.simps)
qed

lemma batch_loop_run:
  assumes "walk_run env d w es e w'" "length batch \<le> n"
  shows "if n \<le> length batch + length es
    then \<exists>w1. batch_loop env d n batch w = Some (w1, Inr (batch @ take (n - length batch) es)) \<and>
      walk_run env d w1 (drop (n - length batch) es) e w'
    else batch_loop env d n batch w = Some (w', if e = WalkEOF then Inr (batch @ es) else Inl e)"
  using assms
proof (induction arbitrary: batch)
  case (stop w w' e)
  then show ?case
    by (auto simp: batch_loop.simps [of _ _ "length batch" batch w] batch_loop.simps [of _ _ n batch w] walk_run.stop)
next
  case (skip w w1 es e w')
  show ?case
  proof (cases "n \<le> length batch")
    case True
    with skip.hyps skip.prems show ?thesis by (auto simp: batch_loop.simps [of _ _ n batch w] intro: walk_run.skip)
  next
    case False
    then have "batch_loop env d n batch w = batch_loop env d n batch w1"
      using skip.hyps(1) by (subst batch_loop.simps) simp
    with skip.IH [OF skip.prems] show ?thesis by simp
  qed
next
  case (emit w w1 x es e w')
  show ?case
  proof (cases "n \<le> length batch")
    case True
    with emit.hyps emit.prems show ?thesis by (auto simp: batch_loop.simps [of _ _ n batch w] intro: walk_run.emit)
  next
    case False
    then have eq: "batch_loop env d n batch w = batch_loop env d n (batch @ [x]) w1"
      using emit.hyps(1) by (subst batch_loop.simps) simp
    have "n - length batch = Suc (n - length (batch @ [x]))" using False by simp
    with emit.IH [of "batch @ [x]"] False show ?thesis by (auto simp: eq)
  qed
qed

lemma walk_run_same_turn:
  assumes "walker_turn env d w = walker_turn env d w1" "walk_run env d w1 es e w'"
  shows "walk_run env d w es e w'"
  using assms(2,1) by (cases rule: walk_run.cases) (auto intro: walk_run.intros)

subsection \<open>Directories on a well-formed disk\<close>

lemma child_above:
  assumes "disk_wf d" "(q, n) \<in> set d" "strict_prefix p q"
  shows "\<exists>s m. (p @ [s], m) \<in> set d \<and> prefix (p @ [s]) q"
  using assms(2,3)
proof (induction q arbitrary: n rule: rev_induct)
  case (snoc c q)
  show ?case
  proof (cases "p = q")
    case True
    with snoc.prems show ?thesis by auto
  next
    case False
    with snoc.prems(2) have sp: "strict_prefix p q"
      by (metis prefix_order.le_neq_trans prefix_snoc prefix_order.less_imp_le prefix_order.less_irrefl)
    have "q \<noteq> []" using sp by auto
    moreover have "os_lookup d q = Some NDir"
      using assms(1) snoc.prems(1) by (force simp: disk_wf_def)
    ultimately have "(q, NDir) \<in> set d" by (auto simp: os_lookup_def dest: map_of_SomeD)
    from snoc.IH [OF this sp] show ?thesis by (metis prefix_snoc)
  qed
qed simp

lemma dir_children_iff: "(s, n) \<in> set (dir_children d p) \<longleftrightarrow> (p @ [s], n) \<in> set d"
proof
  assume "(s, n) \<in> set (dir_children d p)"
  then show "(p @ [s], n) \<in> set d"
    by (auto simp: dir_children_def)
qed (force simp: dir_children_def)

lemma dir_children_distinct:
  assumes "distinct (map fst d)"
  shows "distinct (map fst (dir_children d p))"
proof -
  let ?f = "\<lambda>(q :: fpath, n :: node). q \<noteq> [] \<and> butlast q = p"
  have "map fst (dir_children d p) = map last (map fst (filter ?f d))"
    by (simp add: dir_children_def split_beta)
  moreover have "distinct (map fst (filter ?f d))"
    using assms by (simp add: distinct_map_filter)
  moreover have "inj_on last (set (map fst (filter ?f d)))"
  proof (rule inj_onI)
    fix x y assume "x \<in> set (map fst (filter ?f d))" "y \<in> set (map fst (filter ?f d))" "last x = last y"
    then have "x \<noteq> []" "butlast x = p" "y \<noteq> []" "butlast y = p" "last x = last y" by auto
    then show "x = y" by (metis append_butlast_last_id)
  qed
  ultimately show ?thesis by (simp add: distinct_map comp_inj_on)
qed

lemma nothing_below_empty:
  assumes "disk_wf d" "dir_children d p = []" "(q, n) \<in> set d"
  shows "\<not> strict_prefix p q"
  using child_above [OF assms(1,3), of p] assms(2) dir_children_iff [of _ _ d p] by fastforce

lemma below_children:
  assumes "disk_wf d" "(q, n) \<in> set d"
  shows "strict_prefix p q \<longleftrightarrow> (\<exists>s \<in> fst ` set (dir_children d p). prefix (p @ [s]) q)"
proof
  assume "strict_prefix p q"
  from child_above [OF assms this] show "\<exists>s \<in> fst ` set (dir_children d p). prefix (p @ [s]) q"
    using dir_children_iff by (metis fst_conv image_eqI)
next
  assume "\<exists>s \<in> fst ` set (dir_children d p). prefix (p @ [s]) q"
  then obtain s where "prefix (p @ [s]) q" by blast
  then show "strict_prefix p q"
    by (auto simp: prefix_def strict_prefix_def)
qed

subsection \<open>A recursive walk over a tree\<close>

definition hidden_file :: "IIgnoreMatcher option \<Rightarrow> string \<Rightarrow> node \<Rightarrow> bool" where
  "hidden_file m s n \<longleftrightarrow> n \<noteq> NDir \<and> (case m of None \<Rightarrow> False | Some m \<Rightarrow> ShouldIgnore1 m s False)"

definition shown :: "IIgnoreMatcher option \<Rightarrow> string \<Rightarrow> string \<Rightarrow> node \<Rightarrow> bool" where
  "shown m s v n \<longleftrightarrow> (case m of None \<Rightarrow> True
     | Some m \<Rightarrow> \<not> ShouldIgnore1 m s (n = NDir) \<and> \<not> ShouldIgnore2 m v (n = NDir))"

definition entry_of :: "string list \<Rightarrow> node \<Rightarrow> secDirEntry" where
  "entry_of vs n = \<lparr>viewName = last vs, entryIsDir = (n = NDir), entrySize = node_size n,
     relativeViewPath = join_slash vs, relativeStorePath = []\<rparr>"

definition wanted :: "WalkOptions \<Rightarrow> node \<Rightarrow> bool" where
  "wanted opts n \<longleftrightarrow> (if n = NDir then \<not> SkipDirs opts else \<not> SkipFiles opts)"

context name_cryptor
begin

text \<open>Below the root every node is a file the matcher ignores by its stored name, or has a path of
  stored good names that the matcher lets through.\<close>

definition tree_ok :: "disk \<Rightarrow> fpath \<Rightarrow> IIgnoreMatcher option \<Rightarrow> bool" where
  "tree_ok d R m \<longleftrightarrow> distinct (map fst d) \<and> disk_wf d \<and>
     (\<forall>(q, n) \<in> set d. strict_prefix R q \<longrightarrow> hidden_file m (last q) n \<or>
       (\<exists>vs. q = R @ map stored_name vs \<and> (\<forall>v \<in> set vs. good v) \<and> shown m (last q) (last vs) n))"

definition walk_conf :: "path_env \<Rightarrow> disk \<Rightarrow> fpath \<Rightarrow> IIgnoreMatcher option \<Rightarrow> secDirWalker \<Rightarrow> bool" where
  "walk_conf env d R m w \<longleftrightarrow> reading w \<and> w_nameCryptor w = Some (encn, decn) \<and> w_ignoreMatcher w = m \<and>
     is_sep (DefaultSystemSeparator env) \<and> pseparator (w_rootPathInfo w) = slash \<and>
     (\<exists>p \<in> set (pparts (w_rootPathInfo w)). p \<noteq> []) \<and> components (pathInfo_Encode (w_rootPathInfo w)) = R \<and>
     Recursive (w_options w) \<and> MaxDepth (w_options w) = 0 \<and> IncludeHidden (w_options w)"

lemma stored_name_inj:
  assumes "\<forall>v \<in> set vs. good v" "\<forall>v \<in> set us. good v" "map stored_name vs = map stored_name us"
  shows "vs = us"
proof (rule map_inj_on [OF assms(3)])
  show "inj_on stored_name (set vs \<union> set us)"
    using assms(1,2) stored_name_plain(4) by (intro inj_onI) (metis Inr_inject UnE good_def)
qed

lemma good_plain: "\<forall>v \<in> set vs. good v \<Longrightarrow> \<forall>v \<in> set vs. plain_name v"
  by (simp add: good_def)

lemma open_good:
  assumes "walk_conf env d R m w" "\<forall>v \<in> set vs. good v" "os_lookup d (R @ map stored_name vs) = Some NDir"
  shows "open_view_dir env d w (join_slash vs) =
    Inr \<lparr>h_isdir = True, h_all = dir_children d (R @ map stored_name vs), h_rest = dir_children d (R @ map stored_name vs)\<rparr>"
proof -
  obtain store full where "viewPathToStorePathCheck env (w_rootPathInfo w) (join_slash vs) (Some (encn, decn)) False = Inr (store, full)"
    "components full = R @ map stored_name vs"
    using check_good [of "w_rootPathInfo w" env vs] assms(1,2) by (auto simp: walk_conf_def)
  with assms show ?thesis
    by (simp add: open_view_dir_def walk_conf_def os_OpenDir_def os_Stat_def)
qed

text \<open>The stack gives the first directory on it that is not empty.\<close>

definition loaded ::
  "path_env \<Rightarrow> disk \<Rightarrow> fpath \<Rightarrow> IIgnoreMatcher option \<Rightarrow> WalkOptions \<Rightarrow> string list list \<Rightarrow> secDirWalker \<times> walk_err option \<Rightarrow> bool" where
  "loaded env d R m opts ts res \<longleftrightarrow>
    (case snd res of Some e \<Rightarrow> e = WalkEOF \<and> (\<forall>t \<in> set ts. dir_children d (R @ map stored_name t) = [])
     | None \<Rightarrow> \<exists>ts1 t ts2. ts = ts1 @ t # ts2 \<and> (\<forall>u \<in> set ts1. dir_children d (R @ map stored_name u) = []) \<and>
         walk_conf env d R m (fst res) \<and> w_options (fst res) = opts \<and> w_relativePath (fst res) = join_slash t \<and>
         map fst (dirStack (fst res)) = map join_slash ts2 \<and> rawIndex (fst res) = 0 \<and> rawEntries (fst res) \<noteq> [] \<and>
         todo (fst res) = dir_children d (R @ map stored_name t) \<and> dir_children d (R @ map stored_name t) \<noteq> [])"

lemma loaded_Cons:
  assumes "dir_children d (R @ map stored_name t) = []" "loaded env d R m opts ts res"
  shows "loaded env d R m opts (t # ts) res"
proof (cases "snd res")
  case (Some e)
  with assms show ?thesis by (simp add: loaded_def)
next
  case None
  with assms(2) obtain ts1 u ts2 where ts: "ts = ts1 @ u # ts2" "\<forall>u \<in> set ts1. dir_children d (R @ map stored_name u) = []"
    and rest: "walk_conf env d R m (fst res) \<and> w_options (fst res) = opts \<and> w_relativePath (fst res) = join_slash u \<and>
         map fst (dirStack (fst res)) = map join_slash ts2 \<and> rawIndex (fst res) = 0 \<and> rawEntries (fst res) \<noteq> [] \<and>
         todo (fst res) = dir_children d (R @ map stored_name u) \<and> dir_children d (R @ map stored_name u) \<noteq> []"
    by (auto simp: loaded_def)
  have "t # ts = (t # ts1) @ u # ts2" "\<forall>u \<in> set (t # ts1). dir_children d (R @ map stored_name u) = []"
    using ts assms(1) by simp_all
  with rest show ?thesis
    unfolding loaded_def None option.case by blast
qed

lemma load_good:
  assumes "walk_conf env d R m w" "map fst stack = map join_slash ts"
    and "\<forall>t \<in> set ts. (\<forall>v \<in> set t. good v) \<and> os_lookup d (R @ map stored_name t) = Some NDir"
  shows "loaded env d R m (w_options w) ts (load_directories env d stack w)"
  using assms
proof (induction stack arbitrary: w ts)
  case Nil
  then show ?case by (simp add: loaded_def)
next
  case (Cons item stack)
  obtain rel depth where item: "item = (rel, depth)" by fastforce
  obtain t ts' where ts: "ts = t # ts'" "rel = join_slash t" "map fst stack = map join_slash ts'"
    using Cons.prems(2) item by auto
  let ?cs = "dir_children d (R @ map stored_name t)"
  let ?w0 = "w\<lparr>dirStack := stack, dirFile := None\<rparr>"
  let ?h = "\<lparr>h_isdir = True, h_all = ?cs, h_rest = ?cs\<rparr>"
  let ?w1 = "?w0\<lparr>w_relativePath := rel, dirFile := Some ?h, currentDepth := depth, rawEntries := [], rawIndex := 0\<rparr>"
  have op: "open_view_dir env d ?w0 rel = Inr ?h"
    using open_good [OF Cons.prems(1), of t] Cons.prems(3) ts by (simp add: open_view_dir_def)
  have bs: "0 < batchSize w" using Cons.prems(1) by (simp add: walk_conf_def reading_def)
  show ?case
  proof (cases "?cs = []")
    case True
    then have ld: "load_directories env d (item # stack) w = load_directories env d stack ?w1"
      by (simp add: item op os_ReadDir_def Let_def)
    have c1: "walk_conf env d R m ?w1"
      using Cons.prems(1) by (simp add: walk_conf_def reading_def)
    have "loaded env d R m (w_options ?w1) ts' (load_directories env d stack ?w1)"
      by (rule Cons.IH [OF c1 ts(3)]) (use Cons.prems(3) ts(1) in simp)
    then show ?thesis
      unfolding ld ts(1) by (intro loaded_Cons [OF True]) simp
  next
    case False
    define w2 where "w2 = ?w1\<lparr>dirFile := Some (?h\<lparr>h_rest := drop (batchSize w) ?cs\<rparr>), rawEntries := take (batchSize w) ?cs\<rparr>"
    have ld: "load_directories env d (item # stack) w = (w2, None)"
      using False by (simp add: item op os_ReadDir_def w2_def Let_def)
    have "walk_conf env d R m w2" "todo w2 = ?cs" "rawEntries w2 \<noteq> []" "w_options w2 = w_options w"
        "w_relativePath w2 = join_slash t" "dirStack w2 = stack" "rawIndex w2 = 0"
      using Cons.prems(1) False bs ts(2) by (simp_all add: walk_conf_def reading_def todo_def w2_def)
    with False ts show ?thesis
      unfolding loaded_def ld fst_conv snd_conv option.case
      by (intro exI [of _ "[]"] exI [of _ t] exI [of _ ts']) simp
  qed
qed

text \<open>What one entry does.\<close>

lemma process_hidden:
  "walk_conf env d R m w \<Longrightarrow> hidden_file m s n \<Longrightarrow> processEntry w (s, n) = (w, Skip)"
  by (auto simp: processEntry_def walk_conf_def hidden_file_def ignored_def split: option.splits)

lemma process_shown:
  assumes "walk_conf env d R m w" "w_relativePath w = join_slash us" "\<forall>u \<in> set us. good u" "good v"
    and "shown m (stored_name v) v n" "n = NDir \<Longrightarrow> int (length (dirStack w)) < maxPendingDirectories w"
  shows "processEntry w (stored_name v, n) =
    (if n = NDir then w\<lparr>dirStack := (join_slash (us @ [v]), currentDepth w + 1) # dirStack w\<rparr> else w,
     if wanted (w_options w) n then Emit (entry_of (us @ [v]) n) else Skip)"
proof -
  have "decn (stored_name v) = Inr v" "filepath_Join (join_slash us) v = join_slash (us @ [v])"
    using assms(3,4) stored_name_plain(4) [of v] filepath_Join_plain [of us v] by (auto simp: good_def)
  with assms show ?thesis
    by (auto simp: processEntry_def walk_conf_def shown_def ignored_def decrypt_entry_def push_directory_def wanted_def
        entry_of_def Let_def split: option.splits)
qed

subsection \<open>The nodes that are still to come\<close>

definition at :: "fpath \<Rightarrow> string list \<Rightarrow> fpath" where
  "at R vs = R @ map stored_name vs"

definition pend :: "disk \<Rightarrow> fpath \<Rightarrow> string list \<Rightarrow> string list list \<Rightarrow> raw_entry list \<Rightarrow> (fpath \<times> node) set" where
  "pend d R us ts xs = {(q, n) \<in> set d. (\<exists>s \<in> fst ` set xs. prefix (at R us @ [s]) q) \<or>
     (\<exists>t \<in> set ts. strict_prefix (at R t) q)}"

definition winv :: "disk \<Rightarrow> fpath \<Rightarrow> string list \<Rightarrow> string list list \<Rightarrow> raw_entry list \<Rightarrow> bool" where
  "winv d R us ts xs \<longleftrightarrow> (\<forall>u \<in> set us. good u) \<and> (\<forall>(s, n) \<in> set xs. (at R us @ [s], n) \<in> set d) \<and>
     distinct (map fst xs) \<and> distinct ts \<and> (\<forall>t \<in> set ts. t \<noteq> [] \<and> (\<forall>v \<in> set t. good v) \<and> (at R t, NDir) \<in> set d) \<and>
     (\<forall>t \<in> set ts. \<forall>u \<in> set ts. t \<noteq> u \<longrightarrow> \<not> prefix (at R t) (at R u)) \<and>
     (\<forall>t \<in> set ts. \<forall>s \<in> fst ` set xs. \<not> prefix (at R t) (at R us @ [s]) \<and> \<not> prefix (at R us @ [s]) (at R t))"

lemma at_snoc: "at R (us @ [v]) = at R us @ [stored_name v]"
  by (simp add: at_def)

lemma prefix_snoc_eq: "prefix (p @ [a]) (p @ [b]) \<longleftrightarrow> a = b"
  by simp

lemma file_leaf:
  assumes "disk_wf d" "distinct (map fst d)" "(q, n) \<in> set d" "n \<noteq> NDir" "(r, k) \<in> set d"
  shows "prefix q r \<longleftrightarrow> r = q"
proof
  assume "prefix q r"
  show "r = q"
  proof (rule ccontr)
    assume "r \<noteq> q"
    then have "strict_prefix q r" using \<open>prefix q r\<close> by (metis prefix_order.le_neq_trans)
    from child_above [OF assms(1,5) this] obtain s j where "(q @ [s], j) \<in> set d" by blast
    then have "os_lookup d q = Some NDir"
      using assms(1) by (force simp: disk_wf_def)
    moreover have "q \<noteq> []" using assms(1,3) by (force simp: disk_wf_def)
    moreover have "map_of d q = Some n" using assms(2,3) by simp
    ultimately show False using assms(4) by (simp add: os_lookup_def)
  qed
qed simp

lemma pend_file:
  assumes "winv d R us ts ((s, n) # xs)" "disk_wf d" "distinct (map fst d)" "n \<noteq> NDir"
  shows "pend d R us ts ((s, n) # xs) = insert (at R us @ [s], n) (pend d R us ts xs)"
    "(at R us @ [s], n) \<notin> pend d R us ts xs" "winv d R us ts xs"
proof -
  have k: "(at R us @ [s], n) \<in> set d" using assms(1) by (simp add: winv_def)
  have "(q, m) \<in> set d \<and> prefix (at R us @ [s]) q \<longleftrightarrow> (q, m) = (at R us @ [s], n)" for q m
    using file_leaf [OF assms(2,3) k assms(4), of q m] k assms(3) by (auto dest: eq_key_imp_eq_value)
  then show "pend d R us ts ((s, n) # xs) = insert (at R us @ [s], n) (pend d R us ts xs)"
    by (auto simp: pend_def)
  show "(at R us @ [s], n) \<notin> pend d R us ts xs"
    using assms(1) by (auto simp: pend_def winv_def dest: prefix_order.less_imp_le)
  show "winv d R us ts xs"
    using assms(1) by (simp add: winv_def)
qed

lemma pend_dir:
  assumes "winv d R us ts ((stored_name v, NDir) # xs)" "distinct (map fst d)" "good v"
  shows "pend d R us ts ((stored_name v, NDir) # xs) = insert (at R (us @ [v]), NDir) (pend d R us ((us @ [v]) # ts) xs)"
    "(at R (us @ [v]), NDir) \<notin> pend d R us ((us @ [v]) # ts) xs" "winv d R us ((us @ [v]) # ts) xs"
proof -
  have k: "(at R (us @ [v]), NDir) \<in> set d" using assms(1) by (simp add: winv_def at_snoc)
  have "(q, m) \<in> set d \<and> prefix (at R us @ [stored_name v]) q \<longleftrightarrow>
      (q, m) = (at R (us @ [v]), NDir) \<or> (q, m) \<in> set d \<and> strict_prefix (at R (us @ [v])) q" for q m
    using k assms(2) by (auto simp: at_snoc strict_prefix_def dest: eq_key_imp_eq_value)
  then show "pend d R us ts ((stored_name v, NDir) # xs) = insert (at R (us @ [v]), NDir) (pend d R us ((us @ [v]) # ts) xs)"
    by (auto simp: pend_def)
  show "(at R (us @ [v]), NDir) \<notin> pend d R us ((us @ [v]) # ts) xs"
  proof
    have new: "stored_name v \<notin> fst ` set xs" "\<forall>t \<in> set ts. \<not> prefix (at R t) (at R us @ [stored_name v])"
      using assms(1) by (simp_all add: winv_def)
    assume "(at R (us @ [v]), NDir) \<in> pend d R us ((us @ [v]) # ts) xs"
    then consider s where "s \<in> fst ` set xs" "prefix (at R us @ [s]) (at R us @ [stored_name v])"
      | t where "t \<in> set ts" "strict_prefix (at R t) (at R us @ [stored_name v])"
      by (auto simp only: pend_def at_snoc mem_Collect_eq case_prod_conv list.set insert_iff prefix_order.less_irrefl)
    then show False
      using new by cases (simp_all only: prefix_snoc_eq, metis prefix_order.less_imp_le)
  qed
  show "winv d R us ((us @ [v]) # ts) xs"
    using assms(1,3) k by (auto simp: winv_def at_snoc intro: rev_image_eqI)
qed

lemma pend_none:
  assumes "disk_wf d" "\<forall>t \<in> set ts. dir_children d (at R t) = []"
  shows "pend d R us ts [] = {}"
  using nothing_below_empty [OF assms(1)] assms(2) by (auto simp: pend_def)

lemma pend_pop:
  assumes "winv d R us ts []" "disk_wf d" "distinct (map fst d)" "ts = ts1 @ t # ts2"
    and "\<forall>u \<in> set ts1. dir_children d (at R u) = []"
  shows "pend d R us ts [] = pend d R t ts2 (dir_children d (at R t))" "winv d R t ts2 (dir_children d (at R t))"
proof -
  note below = below_children [OF assms(2)]
  show "pend d R us ts [] = pend d R t ts2 (dir_children d (at R t))"
  proof -
    have "strict_prefix (at R u) q \<Longrightarrow> u \<notin> set ts1" if "(q, n) \<in> set d" for q n u
      using nothing_below_empty [OF assms(2) _ that] assms(5) by blast
    then have step: "(\<exists>u \<in> set ts. strict_prefix (at R u) q) \<longleftrightarrow>
        (\<exists>s \<in> fst ` set (dir_children d (at R t)). prefix (at R t @ [s]) q) \<or> (\<exists>u \<in> set ts2. strict_prefix (at R u) q)"
      if "(q, n) \<in> set d" for q n
      unfolding below [OF that, symmetric] assms(4) set_append list.set using that by blast
    have "x \<in> pend d R us ts [] \<longleftrightarrow> x \<in> pend d R t ts2 (dir_children d (at R t))" for x
      using step [of "fst x" "snd x"] by (cases x) (simp add: pend_def cong: conj_cong)
    then show ?thesis by (rule set_eqI)
  qed
  have no: "\<not> prefix (at R u) (at R t) \<and> \<not> prefix (at R t) (at R u)" if "u \<in> set ts2" for u
    using assms(1) that unfolding winv_def assms(4) by auto
  have "\<not> prefix (at R u) (at R t @ [s]) \<and> \<not> prefix (at R t @ [s]) (at R u)" if "u \<in> set ts2" for u s
    using no [OF that] by (metis append_prefixD prefix_order.refl prefix_snoc)
  then show "winv d R t ts2 (dir_children d (at R t))"
    using assms(1) dir_children_distinct [OF assms(3)] unfolding winv_def assms(4) by (auto simp: dir_children_iff)
qed

text \<open>What a set of nodes shows, and a walk that gives it, each entry once.\<close>

definition expected :: "fpath \<Rightarrow> IIgnoreMatcher option \<Rightarrow> WalkOptions \<Rightarrow> (fpath \<times> node) set \<Rightarrow> secDirEntry set" where
  "expected R m opts P = {entry_of vs n | vs n. (at R vs, n) \<in> P \<and> vs \<noteq> [] \<and> (\<forall>v \<in> set vs. good v) \<and>
     \<not> hidden_file m (stored_name (last vs)) n \<and> wanted opts n}"

definition walks ::
  "path_env \<Rightarrow> disk \<Rightarrow> fpath \<Rightarrow> IIgnoreMatcher option \<Rightarrow> WalkOptions \<Rightarrow> secDirWalker \<Rightarrow> (fpath \<times> node) set \<Rightarrow> bool" where
  "walks env d R m opts w P \<longleftrightarrow>
     (\<exists>es w'. walk_run env d w es WalkEOF w' \<and> distinct es \<and> set es = expected R m opts P)"

definition walk_at ::
  "path_env \<Rightarrow> disk \<Rightarrow> fpath \<Rightarrow> IIgnoreMatcher option \<Rightarrow> WalkOptions \<Rightarrow> secDirWalker \<Rightarrow>
   string list \<Rightarrow> string list list \<Rightarrow> raw_entry list \<Rightarrow> bool" where
  "walk_at env d R m opts w us ts xs \<longleftrightarrow> walk_conf env d R m w \<and> w_options w = opts \<and> winv d R us ts xs \<and>
     w_relativePath w = join_slash us \<and> map fst (dirStack w) = map join_slash ts \<and> todo w = xs"

definition dirs_below :: "disk \<Rightarrow> fpath \<Rightarrow> fpath set" where
  "dirs_below d R = {q. (q, NDir) \<in> set d \<and> strict_prefix R q}"

lemma pend_subset: "pend d R us ts xs \<subseteq> set d"
  by (auto simp: pend_def)

lemma card_pend_insert:
  assumes "P = insert x (pend d R us ts xs)" "x \<notin> pend d R us ts xs"
  shows "card (pend d R us ts xs) < card P"
  using assms finite_subset [OF pend_subset] by (simp add: card_insert_if)

lemma expected_hidden:
  assumes "hidden_file m s n"
  shows "expected R m opts (insert (at R us @ [s], n) P) = expected R m opts P"
proof -
  have "(at R vs, k) = (at R us @ [s], n) \<Longrightarrow> vs \<noteq> [] \<Longrightarrow> hidden_file m (stored_name (last vs)) k" for vs k
    using assms by (cases vs rule: rev_cases) (auto simp: at_def)
  then show ?thesis
    unfolding expected_def by (intro Collect_cong) (metis insert_iff)
qed

lemma at_inj: "\<forall>v \<in> set vs. good v \<Longrightarrow> \<forall>v \<in> set us. good v \<Longrightarrow> at R vs = at R us \<Longrightarrow> vs = us"
  using stored_name_inj by (simp add: at_def)

lemma expected_shown:
  assumes "\<forall>v \<in> set vs. good v" "vs \<noteq> []" "\<not> hidden_file m (stored_name (last vs)) n"
  shows "expected R m opts (insert (at R vs, n) P) =
    (if wanted opts n then insert (entry_of vs n) (expected R m opts P) else expected R m opts P)"
proof -
  have "x \<in> expected R m opts (insert (at R vs, n) P) \<longleftrightarrow>
      wanted opts n \<and> x = entry_of vs n \<or> x \<in> expected R m opts P" for x
  proof
    assume "x \<in> expected R m opts (insert (at R vs, n) P)"
    then obtain us k where x: "x = entry_of us k" "(at R us, k) = (at R vs, n) \<or> (at R us, k) \<in> P" "us \<noteq> []"
      "\<forall>v \<in> set us. good v" "\<not> hidden_file m (stored_name (last us)) k" "wanted opts k"
      unfolding expected_def by blast
    from x(2) show "wanted opts n \<and> x = entry_of vs n \<or> x \<in> expected R m opts P"
    proof
      assume "(at R us, k) = (at R vs, n)"
      then have "us = vs" "k = n" using at_inj [OF x(4) assms(1)] by auto
      with x show ?thesis by simp
    next
      assume "(at R us, k) \<in> P"
      with x show ?thesis unfolding expected_def by blast
    qed
  next
    assume "wanted opts n \<and> x = entry_of vs n \<or> x \<in> expected R m opts P"
    with assms show "x \<in> expected R m opts (insert (at R vs, n) P)"
      unfolding expected_def by blast
  qed
  then show ?thesis by (auto simp: set_eq_iff)
qed

lemma entry_new:
  assumes "distinct (map fst d)" "(at R vs, n) \<in> set d" "(at R vs, n) \<notin> P" "P \<subseteq> set d" "\<forall>v \<in> set vs. good v"
  shows "entry_of vs n \<notin> expected R m opts P"
proof
  assume "entry_of vs n \<in> expected R m opts P"
  then obtain us k where us: "entry_of vs n = entry_of us k" "(at R us, k) \<in> P" "\<forall>v \<in> set us. good v"
    by (auto simp: expected_def)
  then have "vs = us"
    using join_slash_inj [of vs us] good_plain assms(5) by (simp add: entry_of_def)
  with us assms show False
    by (metis eq_key_imp_eq_value subsetD)
qed

lemma walks_skip: "walker_turn env d w = (w1, Skip) \<Longrightarrow> walks env d R m opts w1 P \<Longrightarrow> walks env d R m opts w P"
  by (auto simp: walks_def intro: walk_run.skip)

lemma walks_emit:
  assumes "walker_turn env d w = (w1, Emit x)" "walks env d R m opts w1 P" "x \<notin> expected R m opts P"
    and "expected R m opts Q = insert x (expected R m opts P)"
  shows "walks env d R m opts w Q"
proof -
  from assms(2) obtain es w' where "walk_run env d w1 es WalkEOF w'" "distinct es" "set es = expected R m opts P"
    by (auto simp: walks_def)
  with assms show ?thesis
    unfolding walks_def by (intro exI [of _ "x # es"] exI [of _ w']) (auto intro: walk_run.emit)
qed

lemma node_below:
  assumes "tree_ok d R m" "\<forall>u \<in> set us. good u" "(at R us @ [s], n) \<in> set d"
  shows "hidden_file m s n \<or> (\<exists>v. s = stored_name v \<and> good v \<and> shown m s v n)"
proof -
  have "strict_prefix R (at R us @ [s])" by (auto simp: at_def prefix_def strict_prefix_def)
  with assms(1,3) have "hidden_file m s n \<or>
      (\<exists>vs. at R us @ [s] = R @ map stored_name vs \<and> (\<forall>v \<in> set vs. good v) \<and> shown m s (last vs) n)"
    unfolding tree_ok_def by (drule_tac conjunct2 [OF conjunct2]) (drule (1) bspec, simp)
  then show ?thesis
  proof
    assume "\<exists>vs. at R us @ [s] = R @ map stored_name vs \<and> (\<forall>v \<in> set vs. good v) \<and> shown m s (last vs) n"
    then obtain vs where vs: "at R us @ [s] = R @ map stored_name vs" "\<forall>v \<in> set vs. good v" "shown m s (last vs) n"
      by blast
    then show ?thesis
      by (cases vs rule: rev_cases) (auto simp: at_def)
  qed simp
qed

lemma stack_bound:
  assumes "winv d R us ts ((s, NDir) # xs)" "\<forall>u \<in> set us. good u"
  shows "length ts < card (dirs_below d R)"
proof -
  have sp: "strict_prefix R (at R t)" if "t \<noteq> []" for t
    using that by (auto simp: at_def prefix_def strict_prefix_def)
  have "dirs_below d R \<subseteq> fst ` set d" by (force simp: dirs_below_def)
  then have fin: "finite (dirs_below d R)" by (rule finite_subset) simp
  have inj: "inj_on (at R) (set ts)"
    using assms(1) at_inj by (intro inj_onI) (auto simp: winv_def)
  have new: "at R us @ [s] \<in> dirs_below d R"
    using assms(1) by (auto simp: winv_def dirs_below_def at_def prefix_def strict_prefix_def)
  have "at R us @ [s] \<notin> at R ` set ts"
    using assms(1) by (auto simp: winv_def)
  with new have "at R ` set ts \<subset> dirs_below d R"
    using assms(1) sp by (auto simp: winv_def dirs_below_def)
  then have "card (at R ` set ts) < card (dirs_below d R)"
    by (rule psubset_card_mono [OF fin])
  moreover have "distinct ts" using assms(1) by (simp add: winv_def)
  ultimately show ?thesis
    by (simp add: card_image [OF inj] distinct_card)
qed

text \<open>A name that is shown: the node leaves the pending ones, a directory goes on the stack.\<close>

lemma shown_step:
  assumes disk: "disk_wf d" "distinct (map fst d)"
    and lim: "\<And>w. w_options w = opts \<Longrightarrow> int (card (dirs_below d R)) \<le> maxPendingDirectories w"
    and inv: "winv d R us ts ((s, n) # xs)" and us: "\<forall>u \<in> set us. good u"
    and conf1: "walk_conf env d R m w1" "w_options w1 = opts" "w_relativePath w1 = join_slash us"
      "map fst (dirStack w1) = map join_slash ts" "todo w1 = xs"
    and shown: "s = stored_name v" "good v" "shown m s v n"
  shows "\<exists>ts' w2. pend d R us ts ((s, n) # xs) = insert (at R (us @ [v]), n) (pend d R us ts' xs) \<and>
    (at R (us @ [v]), n) \<notin> pend d R us ts' xs \<and> walk_at env d R m opts w2 us ts' xs \<and>
    processEntry w1 (s, n) = (w2, if wanted opts n then Emit (entry_of (us @ [v]) n) else Skip)"
proof (cases "n = NDir")
  let ?vs = "us @ [v]"
  case True
  let ?w2 = "w1\<lparr>dirStack := (join_slash ?vs, currentDepth w1 + 1) # dirStack w1\<rparr>"
  have inv1: "winv d R us ts ((stored_name v, NDir) # xs)" using inv shown(1) True by simp
  note step = pend_dir [OF inv1 disk(2) shown(2)]
  have "length (dirStack w1) = length ts" using conf1(4) by (metis length_map)
  then have "int (length (dirStack w1)) < maxPendingDirectories w1"
    using stack_bound [OF inv1 us] lim [OF conf1(2)] by simp
  from process_shown [OF conf1(1,3) us shown(2) _ this, of n] shown(1,3) True
  have "processEntry w1 (s, n) = (?w2, if wanted opts n then Emit (entry_of ?vs n) else Skip)"
    by (simp add: conf1(2))
  moreover have "walk_at env d R m opts ?w2 us (?vs # ts) xs"
    using conf1 step(3) by (simp add: walk_at_def walk_conf_def reading_def todo_def)
  ultimately show ?thesis
    using step(1,2) True shown(1) by (intro exI [of _ "?vs # ts"] exI [of _ ?w2]) simp
next
  case False
  note step = pend_file [OF inv disk False]
  from process_shown [OF conf1(1,3) us shown(2), of n] shown(1,3) False
  have "processEntry w1 (s, n) = (w1, if wanted opts n then Emit (entry_of (us @ [v]) n) else Skip)"
    by (simp add: conf1(2))
  moreover have "walk_at env d R m opts w1 us ts xs"
    using conf1 step(3) by (simp add: walk_at_def)
  ultimately show ?thesis
    using step(1,2) shown(1) by (intro exI [of _ ts] exI [of _ w1]) (simp add: at_snoc)
qed

text \<open>One entry of the current directory, when the walk goes on as expected from smaller states.\<close>

lemma walks_Cons:
  assumes tree: "tree_ok d R m" and lim: "\<And>w. w_options w = opts \<Longrightarrow> int (card (dirs_below d R)) \<le> maxPendingDirectories w"
    and IH: "\<And>w us ts xs. card (pend d R us ts xs) < k \<Longrightarrow> walk_at env d R m opts w us ts xs \<Longrightarrow>
      walks env d R m opts w (pend d R us ts xs)"
    and w: "walk_at env d R m opts w us ts (x # xs)" and k: "card (pend d R us ts (x # xs)) = k"
  shows "walks env d R m opts w (pend d R us ts (x # xs))"
proof -
  have disk: "disk_wf d" "distinct (map fst d)" using tree by (simp_all add: tree_ok_def)
  obtain s n where x: "x = (s, n)" by fastforce
  note inv = w [unfolded walk_at_def x]
  from turn_todo [of w x xs] w obtain w1 where w1: "walker_turn env d w = processEntry w1 (s, n)"
    "todo w1 = xs" "reading w1" "same_conf w w1"
    unfolding walk_at_def walk_conf_def x by blast
  have conf1: "walk_conf env d R m w1" "w_options w1 = opts" "w_relativePath w1 = join_slash us"
      "map fst (dirStack w1) = map join_slash ts"
    using w w1(3,4) by (auto simp: walk_at_def walk_conf_def same_conf_def)
  have us: "\<forall>u \<in> set us. good u" and mem: "(at R us @ [s], n) \<in> set d"
    using inv by (auto simp: winv_def)
  have inv1: "winv d R us ts ((s, n) # xs)" using inv by simp
  consider (hidden) "hidden_file m s n" | (shown) v where "s = stored_name v" "good v" "shown m s v n"
    using node_below [OF tree us mem] by blast
  then show ?thesis
  proof cases
    case hidden
    then have n: "n \<noteq> NDir" by (simp add: hidden_file_def)
    note step = pend_file [OF inv1 disk n]
    have "walk_at env d R m opts w1 us ts xs" using step(3) w1(2) conf1 by (simp add: walk_at_def)
    moreover have "card (pend d R us ts xs) < k"
      using card_pend_insert [OF step(1,2)] k x by simp
    ultimately have "walks env d R m opts w1 (pend d R us ts xs)" by (rule IH [rotated])
    moreover have "walker_turn env d w = (w1, Skip)"
      using process_hidden [OF conf1(1) hidden] w1(1) by simp
    ultimately have "walks env d R m opts w (pend d R us ts xs)" by (rule walks_skip [rotated])
    then show ?thesis
      unfolding x step(1) walks_def expected_hidden [OF hidden] .
  next
    case shown
    let ?vs = "us @ [v]"
    have vs: "\<forall>v \<in> set ?vs. good v" using us shown(2) by simp
    have vis: "\<not> hidden_file m (stored_name (last ?vs)) n"
      using shown by (auto simp: hidden_file_def shown_def split: option.splits)
    have at_vs: "(at R ?vs, n) \<in> set d" using mem by (simp add: at_snoc shown(1))
    from shown_step [OF disk lim inv1 us conf1 w1(2) shown]
    obtain ts' w2 where eq: "pend d R us ts (x # xs) = insert (at R ?vs, n) (pend d R us ts' xs)"
      "(at R ?vs, n) \<notin> pend d R us ts' xs" and w2: "walk_at env d R m opts w2 us ts' xs"
      "processEntry w1 (s, n) = (w2, if wanted opts n then Emit (entry_of ?vs n) else Skip)"
      unfolding x by blast
    have "card (pend d R us ts' xs) < k" using card_pend_insert [OF eq] k by simp
    from IH [OF this w2(1)] have nxt: "walks env d R m opts w2 (pend d R us ts' xs)" .
    note ins = expected_shown [OF vs _ vis, of R opts "pend d R us ts' xs"]
    show ?thesis
    proof (cases "wanted opts n")
      case True
      show ?thesis
        using walks_emit [OF _ nxt entry_new [OF disk(2) at_vs eq(2) pend_subset vs]] ins True w1(1) w2(2) eq(1) by simp
    next
      case False
      have "walks env d R m opts w (pend d R us ts' xs)"
        using walks_skip [OF _ nxt] w1(1) w2(2) False by simp
      with False show ?thesis
        using ins by (simp add: walks_def eq(1))
    qed
  qed
qed

text \<open>At the end of a directory the walk is over, or is at the first entry of another.\<close>

lemma next_directory:
  assumes tree: "tree_ok d R m" and w: "walk_at env d R m opts w us ts []"
  shows "(\<exists>w1. walker_turn env d w = (w1, Fail WalkEOF)) \<and> pend d R us ts [] = {} \<or>
    (\<exists>w1 t ts2 x xs. walker_turn env d w = walker_turn env d w1 \<and> walk_at env d R m opts w1 t ts2 (x # xs) \<and>
      pend d R us ts [] = pend d R t ts2 (x # xs))"
proof -
  have disk: "disk_wf d" "distinct (map fst d)" using tree by (simp_all add: tree_ok_def)
  note w = w [unfolded walk_at_def]
  have tsd: "\<forall>t \<in> set ts. (\<forall>v \<in> set t. good v) \<and> os_lookup d (R @ map stored_name t) = Some NDir"
    using w disk by (auto simp: winv_def at_def os_lookup_def)
  obtain w1 r where res: "load_directories env d (dirStack w) w = (w1, r)" by fastforce
  have ld: "loaded env d R m opts ts (w1, r)"
    using load_good [of env d R m w "dirStack w" ts] w tsd by (simp add: res)
  have turn: "walker_turn env d w = (case r of Some e \<Rightarrow> (w1, Fail e)
      | None \<Rightarrow> if rawEntries w1 = [] then (w1, Fail WalkEOF)
          else processEntry (w1\<lparr>rawIndex := rawIndex w1 + 1\<rparr>) (rawEntries w1 ! rawIndex w1))"
  proof -
    have "reading w" "Recursive (w_options w)" "todo w = []" using w by (auto simp: walk_conf_def)
    with turn_done [of w env d] show ?thesis by (simp add: loadNextDirectory_def res split: option.splits)
  qed
  show ?thesis
  proof (cases r)
    case (Some e)
    then show ?thesis
      using turn ld pend_none [OF disk(1), of ts R us] by (simp add: loaded_def at_def)
  next
    case None
    with ld obtain ts1 t ts2 where ts: "ts = ts1 @ t # ts2" "\<forall>u \<in> set ts1. dir_children d (at R u) = []"
      and w1: "walk_conf env d R m w1" "w_options w1 = opts" "w_relativePath w1 = join_slash t"
        "map fst (dirStack w1) = map join_slash ts2" "rawIndex w1 = 0" "rawEntries w1 \<noteq> []"
        "todo w1 = dir_children d (at R t)" "dir_children d (at R t) \<noteq> []"
      by (auto simp: loaded_def at_def)
    have "winv d R us ts []" using w by simp
    note pop = pend_pop [OF this disk ts]
    obtain x xs where xs: "dir_children d (at R t) = x # xs"
      using w1(8) by (cases "dir_children d (at R t)") auto
    have "walk_at env d R m opts w1 t ts2 (x # xs)"
      using w1 pop(2) xs by (simp add: walk_at_def)
    moreover have "walker_turn env d w = walker_turn env d w1"
      using turn None w1(5,6) by (simp add: walker_turn_def)
    ultimately show ?thesis
      using pop(1) xs by metis
  qed
qed

text \<open>From any state of a walk the pending nodes are given once, and the walk ends.\<close>

lemma run_pend:
  assumes "tree_ok d R m" "\<And>w. w_options w = opts \<Longrightarrow> int (card (dirs_below d R)) \<le> maxPendingDirectories w"
    and "walk_at env d R m opts w us ts xs"
  shows "walks env d R m opts w (pend d R us ts xs)"
  using assms(3)
proof (induction "card (pend d R us ts xs)" arbitrary: w us ts xs rule: less_induct)
  case less
  show ?case
  proof (cases xs)
    case (Cons x xs')
    then show ?thesis
      using less.prems walks_Cons [OF assms(1,2) less.hyps] by metis
  next
    case Nil
    from next_directory [OF assms(1) less.prems [unfolded Nil]] show ?thesis
    proof (elim disjE conjE exE)
      fix w1 assume "walker_turn env d w = (w1, Fail WalkEOF)" "pend d R us ts [] = {}"
      then show ?thesis
        by (auto simp: Nil walks_def expected_def intro!: exI [of _ "[]"] exI [of _ w1] walk_run.stop)
    next
      fix w1 t ts2 x xs'
      assume a: "walker_turn env d w = walker_turn env d w1" "walk_at env d R m opts w1 t ts2 (x # xs')"
        "pend d R us ts [] = pend d R t ts2 (x # xs')"
      then have "walks env d R m opts w1 (pend d R t ts2 (x # xs'))"
        using walks_Cons [OF assms(1,2) less.hyps] Nil by metis
      then show ?thesis
        using walk_run_same_turn [OF a(1)] a(3) Nil unfolding walks_def by metis
    qed
  qed
qed

text \<open>A new walker at the root has everything below it to come.\<close>

lemma walk_from_root:
  assumes "is_sep (DefaultSystemSeparator env)" "pseparator info = slash" "\<exists>p \<in> set (pparts info). p \<noteq> []"
    and R: "R = components (pathInfo_Encode info)" "os_lookup d R = Some NDir" and tree: "tree_ok d R m"
    and opts: "opts = apply_walk_options os" "Recursive opts" "IncludeHidden opts" "MaxDepth opts = 0"
  shows "\<exists>w. walker_init env d (newSecDirWalker info [] (Some (encn, decn)) m os) = (w, None) \<and>
    walk_at env d R m opts w [] [] (dir_children d R) \<and>
    pend d R [] [] (dir_children d R) = {(q, n) \<in> set d. strict_prefix R q}"
proof -
  let ?w0 = "newSecDirWalker info [] (Some (encn, decn)) m os"
  let ?h = "\<lparr>h_isdir = True, h_all = dir_children d R, h_rest = dir_children d R\<rparr>"
  define w where "w = ?w0\<lparr>initialized := True, batchSize := 100, dirFile := Some ?h, rawEntries := [], rawIndex := 0\<rparr>"
  obtain store full where "viewPathToStorePathCheck env info (join_slash []) (Some (encn, decn)) False = Inr (store, full)"
      "components full = R"
    using check_good [of info env "[]"] assms(1-3) R(1) by auto
  then have init: "walker_init env d ?w0 = (w, None)"
    using R(2) by (simp add: walker_init_def open_view_dir_def newSecDirWalker_def os_OpenDir_def os_Stat_def w_def Let_def)
  have disk: "disk_wf d" "distinct (map fst d)" using tree by (simp_all add: tree_ok_def)
  have "winv d R [] [] (dir_children d R)"
    using dir_children_distinct [OF disk(2)] by (auto simp: winv_def at_def dir_children_iff)
  then have "walk_at env d R m opts w [] [] (dir_children d R)"
    using assms by (simp add: walk_at_def walk_conf_def reading_def todo_def w_def newSecDirWalker_def)
  moreover have "strict_prefix R q \<longleftrightarrow> (\<exists>s \<in> fst ` set (dir_children d R). prefix (R @ [s]) q)" if "(q, n) \<in> set d" for q n
    by (rule below_children [OF disk(1) that])
  then have "pend d R [] [] (dir_children d R) = {(q, n) \<in> set d. strict_prefix R q}"
    by (auto simp: pend_def at_def)
  ultimately show ?thesis using init by blast
qed

lemma recursive_walk:
  assumes "is_sep (DefaultSystemSeparator env)" "pseparator info = slash" "\<exists>p \<in> set (pparts info). p \<noteq> []"
    and R: "R = components (pathInfo_Encode info)" "os_lookup d R = Some NDir" and tree: "tree_ok d R m"
    and opts: "opts = apply_walk_options os" "Recursive opts" "IncludeHidden opts" "MaxDepth opts = 0"
    and lim: "\<And>w. w_options w = opts \<Longrightarrow> int (card (dirs_below d R)) \<le> maxPendingDirectories w"
  shows "\<exists>w es. walker_init env d (newSecDirWalker info [] (Some (encn, decn)) m os) = (w, None) \<and>
    read_all env d [] w = Some (Inr es) \<and> distinct es \<and>
    set es = expected R m opts {(q, n) \<in> set d. strict_prefix R q}"
proof -
  obtain w where w: "walker_init env d (newSecDirWalker info [] (Some (encn, decn)) m os) = (w, None)"
    "walk_at env d R m opts w [] [] (dir_children d R)"
    "pend d R [] [] (dir_children d R) = {(q, n) \<in> set d. strict_prefix R q}"
    using walk_from_root [OF assms(1-10)] by blast
  from run_pend [OF tree lim w(2)] w(3) obtain es w' where
    "walk_run env d w es WalkEOF w'" "distinct es" "set es = expected R m opts {(q, n) \<in> set d. strict_prefix R q}"
    by (auto simp: walks_def)
  with read_all_run [of env d w es WalkEOF w' "[]"] w(1) show ?thesis by auto
qed

end

end
