(* ===== verification/DirWalkerRuns.thy ===== *)
theory DirWalkerRuns
  imports DirWalkerProps
begin

text \<open>
  What a caller of the directory walker sees: a recursive walk is complete and ends, the batches
  of NextBatch cut the sequence of Next, a stored name that decrypts to a path makes the walk
  endless, and Reset goes back to the directory the walk has reached.
\<close>

subsection \<open>A recursive walk is complete\<close>












subsection \<open>Batches\<close>

lemma next_loop_conv:
  assumes "next_loop env d w = Some y"
  shows "case snd y of Inl e \<Rightarrow> walk_run env d w [] e (fst y)
    | Inr x \<Rightarrow> \<forall>es e w'. walk_run env d (fst y) es e w' \<longrightarrow> walk_run env d w (x # es) e w'"
proof (induction rule: next_loop.raw_induct [OF _ assms])
  case (1 next_loop env d w y)
  obtain w1 out where turn: "walker_turn env d w = (w1, out)" by fastforce
  show ?case
  proof (cases out)
    case Skip
    with 1 turn have "case snd y of Inl e \<Rightarrow> walk_run env d w1 [] e (fst y)
      | Inr x \<Rightarrow> \<forall>es e w'. walk_run env d (fst y) es e w' \<longrightarrow> walk_run env d w1 (x # es) e w'" by simp
    then show ?thesis
      using walk_run.skip [of env d w w1] turn Skip by (auto split: sum.splits)
  qed (use 1 turn in \<open>auto intro: walk_run.intros\<close>)
qed

lemma read_all_conv:
  assumes "read_all env d acc w = Some y"
  shows "\<forall>es. y = Inr es \<longrightarrow> (\<exists>xs w'. es = acc @ xs \<and> walk_run env d w xs WalkEOF w')"
proof (induction rule: read_all.raw_induct [OF _ assms])
  case (1 read_all env d acc w y)
  then obtain w1 r where next1: "next_loop env d w = Some (w1, r)"
    and y: "(case r of Inl e \<Rightarrow> Some (if e = WalkEOF then Inr acc else Inl e)
      | Inr e \<Rightarrow> read_all env d (acc @ [e]) w1) = Some y"
    by (auto simp: bind_eq_Some_conv)
  note run = next_loop_conv [OF next1]
  show ?case
  proof (cases r)
    case (Inl e)
    with y run show ?thesis by (auto split: if_splits)
  next
    case (Inr x)
    with y have "read_all env d (acc @ [x]) w1 = Some y" by simp
    from 1(1) [OF this] run Inr show ?thesis by fastforce
  qed
qed

text \<open>Reading batch by batch until the end marker.\<close>

partial_function (option) read_batches ::
  "path_env \<Rightarrow> disk \<Rightarrow> int \<Rightarrow> secDirEntry list list \<Rightarrow> secDirWalker \<Rightarrow> (walk_err + secDirEntry list list) option" where
  "read_batches env d n bs w =
    Option.bind (walker_NextBatch env d (Some w) n) (\<lambda>(w', r).
      case r of Inl e \<Rightarrow> Some (if e = WalkEOF then Inr bs else Inl e)
      | Inr b \<Rightarrow> (case w' of None \<Rightarrow> None | Some w' \<Rightarrow> read_batches env d n (bs @ [b]) w'))"

fun chunks :: "nat \<Rightarrow> 'a list \<Rightarrow> 'a list list" where
  "chunks n xs = (if n = 0 \<or> xs = [] then [] else take n xs # chunks n (drop n xs))"

declare chunks.simps [simp del]

definition same_flags :: "secDirWalker \<Rightarrow> secDirWalker \<Rightarrow> bool" where
  "same_flags w w1 \<longleftrightarrow> initialized w1 = initialized w \<and> w_closed w1 = w_closed w \<and> w_options w1 = w_options w \<and> batchSize w1 = batchSize w"

lemma load_flags: "same_flags w (fst (load_directories env d stack w))"
proof (induction env d stack w rule: load_directories.induct)
  case (2 env d rel depth stack w)
  then show ?case
    by (simp add: same_flags_def Let_def split: sum.split read_dir.split)
qed (simp add: same_flags_def)

lemma same_flags_refl [simp]: "same_flags w w"
  by (simp add: same_flags_def)

lemma same_flags_trans: "same_flags w w1 \<Longrightarrow> same_flags w1 w2 \<Longrightarrow> same_flags w w2"
  by (simp add: same_flags_def)

lemma push_flags: "same_flags w (fst (push_directory w name isDir))"
  by (simp add: push_directory_def same_flags_def)

lemma process_flags: "same_flags w (fst (processEntry w x))"
proof (cases x)
  case (Pair s n)
  define w1 where "w1 name = fst (push_directory w name (n = NDir))" for name
  define r where "r name = snd (push_directory w name (n = NDir))" for name
  have push: "push_directory w name (n = NDir) = (w1 name, r name)" for name
    by (simp add: w1_def r_def)
  then have "same_flags w (w1 name)" for name using push_flags [of w name "n = NDir"] by simp
  then show ?thesis
    by (simp add: Pair processEntry_def Let_def push split: sum.split option.split)
qed

lemma batch_flags: "same_flags w (fst (loadNextBatch env d w))"
  using load_flags [of w env d "dirStack w"]
  by (simp add: loadNextBatch_def loadNextDirectory_def same_flags_def split: read_dir.split)

lemma turn_flags: "same_flags w (fst (walker_turn env d w))"
proof -
  obtain w1 r where load: "(if length (rawEntries w) \<le> rawIndex w then loadNextBatch env d w else (w, None)) = (w1, r)"
    by fastforce
  then have "same_flags w w1" using batch_flags [of w env d] by (auto split: if_splits)
  moreover have "same_flags w1 (fst (processEntry (w1\<lparr>rawIndex := rawIndex w1 + 1\<rparr>) x))" for x
    using process_flags [of "w1\<lparr>rawIndex := rawIndex w1 + 1\<rparr>" x] by (simp add: same_flags_def)
  ultimately show ?thesis
    using same_flags_trans [of w w1 "fst (processEntry (w1\<lparr>rawIndex := rawIndex w1 + 1\<rparr>) (rawEntries w1 ! rawIndex w1))"]
    by (simp add: walker_turn_def load split: option.split)
qed

lemma batch_loop_flags:
  assumes "batch_loop env d n batch w = Some y"
  shows "same_flags w (fst y)"
proof (induction rule: batch_loop.raw_induct [OF _ assms])
  case (1 batch_loop env d n batch w y)
  obtain w1 out where turn: "walker_turn env d w = (w1, out)" by fastforce
  have "same_flags w w1" using turn_flags [of w env d] turn by simp
  note trans = same_flags_trans [OF this]
  show ?case
  proof (cases "n \<le> length batch")
    case False
    then show ?thesis
      using 1(1) [THEN trans] 1(2) trans [OF same_flags_refl] turn by (cases out) auto
  qed (use 1(2) in auto)
qed

text \<open>The end of a walk is stable.\<close>

lemma load_end:
  "load_directories env d stack w = (w1, Some WalkEOF) \<Longrightarrow> os_ReadDir (dirFile w) (batchSize w) = ReadEOF \<Longrightarrow>
   dirStack w1 = [] \<and> rawEntries w1 = [] \<and> batchSize w1 = batchSize w \<and> os_ReadDir (dirFile w1) (batchSize w1) = ReadEOF"
proof (induction env d stack w rule: load_directories.induct)
  case (2 env d rel depth stack w)
  show ?case
  proof (cases "open_view_dir env d (w\<lparr>dirStack := stack, dirFile := None\<rparr>) rel")
    case (Inl e)
    have "open_view_dir env d v rel \<noteq> Inl WalkEOF" for v :: secDirWalker
      by (auto simp: open_view_dir_def split: sum.splits os_error.splits)
    with 2(2) Inl show ?thesis by simp
  next
    case (Inr h)
    from 2(1) [OF refl Inr refl] 2(2) Inr show ?thesis
      by (auto simp: Let_def split: read_dir.splits)
  qed
qed auto

lemma load_some:
  "load_directories env d stack w = (w1, None) \<Longrightarrow> 0 < batchSize w \<Longrightarrow> rawEntries w1 \<noteq> []"
proof (induction env d stack w rule: load_directories.induct)
  case (2 env d rel depth stack w)
  show ?case
  proof (cases "open_view_dir env d (w\<lparr>dirStack := stack, dirFile := None\<rparr>) rel")
    case (Inr h)
    from 2(1) [OF refl Inr refl] 2(2,3) Inr show ?thesis
      by (auto simp: Let_def os_ReadDir_def split: read_dir.splits if_splits)
  qed (use 2(2) in simp)
qed auto

lemma push_limit: "push_directory w name isDir = (w1, Some e) \<Longrightarrow> e = ErrWalkerWorkLimit (maxPendingDirectories w)"
  by (auto simp: push_directory_def split: if_splits)

lemma process_end: "snd (processEntry w x) \<noteq> Fail WalkEOF"
proof (cases x)
  case (Pair s n)
  show ?thesis
  proof (cases "decrypt_entry w s")
    case (Inr name)
    obtain w1 r where push: "push_directory w name (n = NDir) = (w1, r)" by fastforce
    show ?thesis
      unfolding processEntry_def Pair prod.case Let_def Inr sum.case push
      using push_limit [of w name "n = NDir" w1] push by (cases r) auto
  qed (simp add: Pair processEntry_def Let_def)
qed

lemma turn_end:
  assumes "walker_turn env d w = (w1, Fail WalkEOF)" "0 < batchSize w"
  shows "\<exists>w2. walker_turn env d w1 = (w2, Fail WalkEOF)"
proof -
  have no: "processEntry v x \<noteq> (w1, Fail WalkEOF)" for v x
    using process_end [of v x] by (metis snd_conv)
  have empty: "length (rawEntries w) \<le> rawIndex w"
  proof (rule ccontr)
    assume "\<not> length (rawEntries w) \<le> rawIndex w"
    moreover from this have "rawEntries w \<noteq> []" by auto
    ultimately have "walker_turn env d w = processEntry (w\<lparr>rawIndex := rawIndex w + 1\<rparr>) (rawEntries w ! rawIndex w)"
      by (simp add: walker_turn_def)
    with assms(1) no show False by metis
  qed
  obtain v r where load: "loadNextBatch env d w = (v, r)" by fastforce
  have w1: "w1 = v" "r = Some WalkEOF \<or> r = None \<and> rawEntries v = []"
    using assms(1) unfolding walker_turn_def if_P [OF empty] load prod.case
    using no by (cases r; simp split: if_splits)+
  show ?thesis
  proof (cases "os_ReadDir (dirFile w) (batchSize w)")
    case (ReadEntries es h)
    then have "es \<noteq> []" using assms(2) by (auto simp: os_ReadDir_def split: option.splits if_splits)
    with ReadEntries load w1(2) show ?thesis by (auto simp: loadNextBatch_def)
  next
    case (ReadError e)
    with load w1(2) show ?thesis by (auto simp: loadNextBatch_def)
  next
    case ReadEOF
    then have load: "loadNextDirectory env d w = (v, r)" using load by (simp add: loadNextBatch_def)
    have fin: "\<exists>w2. walker_turn env d v = (w2, Fail WalkEOF)"
      if "rawEntries v = []" "os_ReadDir (dirFile v) (batchSize v) = ReadEOF" "dirStack v = [] \<or> \<not> Recursive (w_options v)"
      using that by (auto simp: walker_turn_def loadNextBatch_def loadNextDirectory_def)
    show ?thesis
    proof (cases "Recursive (w_options w)")
      case True
      then have ld: "load_directories env d (dirStack w) w = (v, r)" using load by (simp add: loadNextDirectory_def)
      then have "r = Some WalkEOF" using w1(2) load_some assms(2) by blast
      with load_end [of env d "dirStack w" w v] ld ReadEOF fin w1(1) show ?thesis by auto
    next
      case False
      then have "v = w\<lparr>rawEntries := []\<rparr>" using load by (simp add: loadNextDirectory_def)
      with fin w1(1) ReadEOF False show ?thesis by simp
    qed
  qed
qed

lemma run_end:
  assumes "walk_run env d w es WalkEOF w'" "0 < batchSize w"
  shows "\<exists>w2. walk_run env d w' [] WalkEOF w2"
  using assms
proof (induction es "WalkEOF :: walk_err" w' rule: walk_run.induct)
  case (stop w w')
  from turn_end [OF stop] show ?case by (auto intro: walk_run.stop)
next
  case (skip w w1 es w')
  then show ?case using turn_flags [of w env d] by (simp add: same_flags_def)
next
  case (emit w w1 x es w')
  then show ?case using turn_flags [of w env d] by (simp add: same_flags_def)
qed

lemma chunks_Nil [simp]: "chunks n [] = []"
  by (simp add: chunks.simps)

lemma NextBatch_run:
  assumes "walk_run env d w es WalkEOF w'" "initialized w" "\<not> w_closed w" "0 < batchSize w" "0 < n"
  shows "\<exists>w1 es'. walk_run env d w1 (drop (nat n) es) WalkEOF es' \<and> same_flags w w1 \<and>
    walker_NextBatch env d (Some w) n = Some (Some w1, if es = [] then Inl WalkEOF else Inr (take (nat n) es))"
proof -
  note run = batch_loop_run [OF assms(1), of "[]" "nat n"]
  have next_def: "walker_NextBatch env d (Some w) n =
      map_option (\<lambda>(w', r). (Some w', case r of Inr [] \<Rightarrow> Inl WalkEOF | _ \<Rightarrow> r)) (batch_loop env d (nat n) [] w)"
    using assms(2,3,5) by (simp add: walker_NextBatch_def ensure_init_def)
  show ?thesis
  proof (cases "nat n \<le> length es")
    case True
    with run obtain w1 where w1: "batch_loop env d (nat n) [] w = Some (w1, Inr (take (nat n) es))"
      "walk_run env d w1 (drop (nat n) es) WalkEOF w'" by auto
    moreover have "take (nat n) es \<noteq> []" using True assms(5) by (cases es) auto
    ultimately show ?thesis
      using batch_loop_flags [OF w1(1)] True assms(5) by (auto simp: next_def split: list.split)
  next
    case False
    with run have w1: "batch_loop env d (nat n) [] w = Some (w', Inr es)" by auto
    from run_end [OF assms(1,4)] obtain w2 where "walk_run env d w' [] WalkEOF w2" by blast
    then show ?thesis
      using batch_loop_flags [OF w1] False w1 by (auto simp: next_def split: list.split)
  qed
qed

text \<open>C34. Reading a walk with NextBatch(n), for a positive n, gives the entries that Next gives, in
  the same order, cut into batches of n (the last one may be shorter), then the end marker.\<close>
theorem NextBatch_chunks:
  assumes "read_all env d [] w = Some (Inr es)" "initialized w" "\<not> w_closed w" "0 < batchSize w" "0 < n"
  shows "read_batches env d n [] w = Some (Inr (chunks (nat n) es))"
proof -
  obtain w' where run: "walk_run env d w es WalkEOF w'"
    using read_all_conv [OF assms(1)] by auto
  have "read_batches env d n bs w = Some (Inr (bs @ chunks (nat n) es))" for bs
    using run assms(2-4)
  proof (induction "length es" arbitrary: es w w' bs rule: less_induct)
    case less
    from NextBatch_run [OF less.prems assms(5)] obtain w1 w2 where
      w1: "walk_run env d w1 (drop (nat n) es) WalkEOF w2" "same_flags w w1"
        "walker_NextBatch env d (Some w) n = Some (Some w1, if es = [] then Inl WalkEOF else Inr (take (nat n) es))"
      by blast
    show ?case
    proof (cases "es = []")
      case True
      with w1(3) show ?thesis by (simp add: read_batches.simps)
    next
      case False
      have "length (drop (nat n) es) < length es" using False assms(5) by simp
      from less.hyps [OF this w1(1)] w1(2) less.prems(2-4)
      have "read_batches env d n (bs @ [take (nat n) es]) w1 =
          Some (Inr ((bs @ [take (nat n) es]) @ chunks (nat n) (drop (nat n) es)))"
        by (simp add: same_flags_def)
      with w1(3) False assms(5) show ?thesis
        by (subst read_batches.simps) (simp add: chunks.simps [of "nat n" es])
    qed
  qed
  then show ?thesis by simp
qed

lemmas walker_eval = walker_turn_def processEntry_def push_directory_def ignored_def decrypt_entry_def entry_of_def
  newSecDirWalker_def apply_walk_options_def default_walk_options_def maxPendingDirectories_def loadNextBatch_def
  loadNextDirectory_def os_ReadDir_def Let_def

lemma join_samples: "filepath_Join [] ''a'' = ''a''" "filepath_Join ''a'' ''f'' = ''a/f''"
  "filepath_Join [] ''b'' = ''b''" "filepath_Join [] ''c'' = ''c''"
  by code_simp+

text \<open>A walker that has given \<open>i\<close> of the three files of its directory.\<close>

definition three_files :: "nat \<Rightarrow> secDirWalker" where
  "three_files i = (newSecDirWalker data_root [] None None [])\<lparr>initialized := True,
     dirFile := Some \<lparr>h_isdir = True, h_all = [], h_rest = []\<rparr>,
     rawEntries := [(''a'', NFile [1]), (''b'', NFile []), (''c'', NFile [2])], rawIndex := i\<rparr>"

lemma NextBatch_chunks_witness:
  "\<exists>es. read_all start_env [] [] (three_files 0) = Some (Inr es) \<and>
    read_batches start_env [] 2 [] (three_files 0) = Some (Inr (chunks 2 es)) \<and>
    map (map viewName) (chunks 2 es) = [[''a'', ''b''], [''c'']]"
proof -
  let ?turn = "walker_turn start_env []"
  define es where "es = [entry_of [''a''] (NFile [1]), entry_of [''b''] (NFile []), entry_of [''c''] (NFile [2])]"
  have "?turn (three_files 0) = (three_files 1, Emit (entry_of [''a''] (NFile [1])))"
    "?turn (three_files 1) = (three_files 2, Emit (entry_of [''b''] (NFile [])))"
    "?turn (three_files 2) = (three_files 3, Emit (entry_of [''c''] (NFile [2])))"
    "?turn (three_files 3) = ((three_files 3)\<lparr>rawEntries := []\<rparr>, Fail WalkEOF)"
    by (simp_all add: walker_eval three_files_def join_samples)
  then have "walk_run start_env [] (three_files 0) es WalkEOF ((three_files 3)\<lparr>rawEntries := []\<rparr>)"
    unfolding es_def by (blast intro: walk_run.intros)
  from read_all_run [OF this, of "[]"] have all: "read_all start_env [] [] (three_files 0) = Some (Inr es)"
    by simp
  have "initialized (three_files 0)" "\<not> w_closed (three_files 0)" "0 < batchSize (three_files 0)"
    by (simp_all add: three_files_def newSecDirWalker_def)
  from NextBatch_chunks [OF all this, of 2]
  have "read_batches start_env [] 2 [] (three_files 0) = Some (Inr (chunks (nat 2) es))" by simp
  moreover have "map (map viewName) (chunks 2 es) = [[''a'', ''b''], [''c'']]"
    unfolding es_def by code_simp
  ultimately show ?thesis using all by auto
qed

subsection \<open>A walk without end\<close>

coinductive endless :: "path_env \<Rightarrow> disk \<Rightarrow> secDirWalker \<Rightarrow> bool" for env d where
  "walker_turn env d w = (w1, Emit x) \<Longrightarrow> endless env d w1 \<Longrightarrow> endless env d w"

lemma endless_next: "endless env d w \<Longrightarrow> \<exists>w1 x. next_loop env d w = Some (w1, Inr x) \<and> endless env d w1"
  by (erule endless.cases) (simp add: next_loop.simps)

lemma endless_read_all:
  assumes "read_all env d acc w = Some y"
  shows "\<not> endless env d w"
proof (induction rule: read_all.raw_induct [OF _ assms])
  case (1 read_all env d acc w y)
  show ?case
  proof
    assume "endless env d w"
    then obtain w1 x where w1: "next_loop env d w = Some (w1, Inr x)" "endless env d w1"
      using endless_next by blast
    with 1(2) have "read_all env d (acc @ [x]) w1 = Some y" by simp
    from 1(1) [OF this] w1(2) show False by simp
  qed
qed

lemma check_dot:
  assumes "p = [] \<or> p = ''.''"
  shows "\<exists>store. viewPathToStorePathCheck env info p nc False = Inr (store, pathInfo_Encode info)"
proof -
  have loc: "local_path ''.''" by (simp add: local_path_def)
  have empty: "ParsePathInfoEasy env [] = Inr \<lparr>pscheme = [], phost = [], pseparator = DefaultSystemSeparator env,
      pparts = [], pathType = PathTypeUnknown\<rparr>"
    by (simp add: ParsePathInfoEasy_def ParsePathInfoWithOptions_def)
  obtain sep t where parse: "ParsePathInfoEasy env p =
      Inr \<lparr>pscheme = [], phost = [], pseparator = sep, pparts = [], pathType = t\<rparr>"
    using assms empty by (auto simp: parse_local [OF loc] is_sep_def add_part_def)
  have enc: "pathInfo_Encode \<lparr>pscheme = [], phost = [], pseparator = s, pparts = [], pathType = t\<rparr> = []" for s t
    by (simp add: pathInfo_Encode_def buildEncodedPath_def encoded_host_def buildPath_def isFileURIScheme_def)
  show ?thesis
    by (cases nc) (simp_all add: viewPathToStorePathCheck_def ViewPathToStorePath_def parse empty enc pathInfo_Parts_def
        pathInfo_ReplaceParts_def isSafeRelativeStorePath_def pathInfo_Join_def contains_itself)
qed

text \<open>The state that comes back: the root directory is read, and is on the stack again.\<close>

definition cycling :: "path_env \<Rightarrow> disk \<Rightarrow> 'c secRoot \<Rightarrow> bytes \<Rightarrow> secDirWalker \<Rightarrow> bool" where
  "cycling env d root key w \<longleftrightarrow> reading w \<and> w_rootPathInfo w = rootPathInfo root \<and>
     w_nameCryptor w = Some (rc4_EncryptName key, rc4_DecryptName key) \<and> w_ignoreMatcher w = None \<and>
     w_options w = apply_walk_options [WithRecursive]"

lemma cycle_entry:
  assumes "cycling env d root key w" "rc4_DecryptName key e = Inr ''x/..''" "dirStack w = []"
    and "w_relativePath w = [] \<or> w_relativePath w = ''.''"
  shows "\<exists>x. processEntry w (e, NDir) = (w\<lparr>dirStack := [(''.'', currentDepth w + 1)]\<rparr>, Emit x)"
proof -
  have join: "filepath_Join (w_relativePath w) ''x/..'' = ''.''"
    using assms(4) by (elim disjE; simp only:; code_simp)
  have "maxPendingDirectories w > 0" by (simp add: maxPendingDirectories_def Let_def)
  then show ?thesis
    using assms(1,3) by (simp add: cycling_def processEntry_def ignored_def decrypt_entry_def assms(2) push_directory_def join
        apply_walk_options_def default_walk_options_def Let_def)
qed

lemma cycle_turn:
  assumes c: "cycling env d root key w" "todo w = []" "dirStack w = [(''.'', k)]"
    and e: "rc4_DecryptName key e = Inr ''x/..''"
    and d: "os_lookup d (root_dir root) = Some NDir" "dir_children d (root_dir root) = [(e, NDir)]"
  shows "\<exists>w1 x k'. walker_turn env d w = (w1, Emit x) \<and> cycling env d root key w1 \<and> todo w1 = [] \<and>
    dirStack w1 = [(''.'', k')]"
proof -
  obtain b where b: "batchSize w = Suc b"
    using c(1) by (auto simp: cycling_def reading_def gr0_conv_Suc)
  let ?w0 = "w\<lparr>dirStack := [], dirFile := None\<rparr>"
  let ?h = "\<lparr>h_isdir = True, h_all = [(e, NDir)], h_rest = []\<rparr>"
  define w2 where "w2 = ?w0\<lparr>w_relativePath := ''.'', dirFile := Some ?h, currentDepth := k, rawEntries := [(e, NDir)], rawIndex := 0\<rparr>"
  obtain store where "viewPathToStorePathCheck env (rootPathInfo root) ''.'' (Some (rc4_EncryptName key, rc4_DecryptName key)) False =
      Inr (store, pathInfo_Encode (rootPathInfo root))"
    using check_dot [of "''.''" env "rootPathInfo root"] by auto
  then have "open_view_dir env d ?w0 ''.'' = Inr \<lparr>h_isdir = True, h_all = [(e, NDir)], h_rest = [(e, NDir)]\<rparr>"
    using c(1) d by (simp add: open_view_dir_def cycling_def os_OpenDir_def os_Stat_def root_dir_def)
  then have "load_directories env d (dirStack w) w = (w2, None)"
    by (simp add: c(3) os_ReadDir_def b w2_def Let_def)
  then have turn: "walker_turn env d w = processEntry (w2\<lparr>rawIndex := 1\<rparr>) (e, NDir)"
    using turn_done [of w env d] c(1,2)
    by (simp add: cycling_def loadNextDirectory_def apply_walk_options_def default_walk_options_def w2_def)
  define w3 where "w3 = w2\<lparr>rawIndex := 1\<rparr>"
  have w3: "cycling env d root key w3" "dirStack w3 = []" "w_relativePath w3 = ''.''" "currentDepth w3 = k"
    "cycling env d root key (w3\<lparr>dirStack := s\<rparr>)" "todo (w3\<lparr>dirStack := s\<rparr>) = []" for s
    using c(1) by (simp_all add: cycling_def reading_def todo_def w2_def w3_def)
  from cycle_entry [OF w3(1) e w3(2)] w3(3,4) obtain x where
    "processEntry w3 (e, NDir) = (w3\<lparr>dirStack := [(''.'', k + 1)]\<rparr>, Emit x)" by auto
  with turn w3(5,6) show ?thesis
    by (intro exI [of _ "w3\<lparr>dirStack := [(''.'', k + 1)]\<rparr>"] exI [of _ x] exI [of _ "k + 1"]) (simp add: w3_def)
qed

lemma cycling_endless:
  assumes "cycling env d root key w" "todo w = []" "dirStack w = [(''.'', k)]"
    and e: "rc4_DecryptName key e = Inr ''x/..''"
    and d: "os_lookup d (root_dir root) = Some NDir" "dir_children d (root_dir root) = [(e, NDir)]"
  shows "endless env d w"
  using assms(1-3)
proof (coinduction arbitrary: w k rule: endless.coinduct)
  case endless
  from cycle_turn [OF endless e d] show ?case by blast
qed

text \<open>C35. RC4 names are not authenticated: a directory whose stored name decrypts to \<open>x/..\<close> leads
  the recursive walk back to the directory it is in. Over a root that holds only this directory
  every call of Next gives an entry and reading the walk to its end never returns; the limit on
  pending directories is not reached.\<close>
theorem forged_name_walk_endless:
  assumes "\<not> rclosed root" "nameCryptor root = Some (rc4_EncryptName key, rc4_DecryptName key)"
    and "ignoreMatcher root = None" "rc4_DecryptName key e = Inr ''x/..''"
    and "os_lookup d (root_dir root) = Some NDir" "dir_children d (root_dir root) = [(e, NDir)]"
  shows "\<exists>w. root_WalkDir env d (Some root) [] [WithRecursive] = Inr w \<and> endless env d w \<and>
    read_all env d [] w = None"
proof -
  let ?w0 = "newSecDirWalker (rootPathInfo root) [] (nameCryptor root) None [WithRecursive]"
  define w where "w = ?w0\<lparr>initialized := True, batchSize := 100, dirFile := Some
      \<lparr>h_isdir = True, h_all = [(e, NDir)], h_rest = [(e, NDir)]\<rparr>, rawEntries := [], rawIndex := 0\<rparr>"
  obtain store where "viewPathToStorePathCheck env (rootPathInfo root) [] (Some (rc4_EncryptName key, rc4_DecryptName key)) False =
      Inr (store, pathInfo_Encode (rootPathInfo root))"
    using check_dot [of "[]" env "rootPathInfo root"] by auto
  then have "walker_init env d ?w0 = (w, None)"
    using assms(2,5,6) by (simp add: walker_init_def open_view_dir_def newSecDirWalker_def os_OpenDir_def os_Stat_def
        root_dir_def w_def Let_def)
  then have walk: "root_WalkDir env d (Some root) [] [WithRecursive] = Inr w"
    using assms(1,3) by (simp add: root_WalkDir_def open_root_def)
  have "cycling env d root key w"
    using assms(2) by (simp add: cycling_def reading_def w_def newSecDirWalker_def)
  moreover have "todo w = [(e, NDir)]" by (simp add: todo_def w_def newSecDirWalker_def)
  ultimately obtain w1 where w1: "walker_turn env d w = processEntry w1 (e, NDir)" "todo w1 = []" "reading w1" "same_conf w w1"
    using turn_todo [of w "(e, NDir)" "[]" env d] by (auto simp: cycling_def)
  have c1: "cycling env d root key w1" "dirStack w1 = []" "w_relativePath w1 = []"
    using \<open>cycling env d root key w\<close> w1(3,4)
    by (simp_all add: cycling_def same_conf_def) (simp_all add: w_def newSecDirWalker_def)
  let ?w2 = "w1\<lparr>dirStack := [(''.'', currentDepth w1 + 1)]\<rparr>"
  obtain x where "walker_turn env d w = (?w2, Emit x)"
    using cycle_entry [OF c1(1) assms(4) c1(2)] c1(3) w1(1) by auto
  moreover have "cycling env d root key ?w2" "todo ?w2 = []"
    using c1(1) w1(2) by (simp_all add: cycling_def reading_def todo_def)
  then have "endless env d ?w2"
    using assms(4-6) by (intro cycling_endless) simp_all
  ultimately have "endless env d w" by (rule endless.intros)
  with walk endless_read_all [of env d "[]" w] show ?thesis by (cases "read_all env d [] w") auto
qed

lemma forged_name_walk_endless_witness:
  "\<exists>e w. rc4_EncryptName [1] ''x/..'' = Inr e \<and>
    root_WalkDir start_env [([''data''], NDir), ([''data'', e], NDir)]
      (Some (sample_root\<lparr>nameCryptor := Some (rc4_EncryptName [1], rc4_DecryptName [1])\<rparr>)) [] [WithRecursive] = Inr w \<and>
    read_all start_env [([''data''], NDir), ([''data'', e], NDir)] [] w = None"
proof -
  obtain e where e: "rc4_EncryptName [1] ''x/..'' = Inr e" "rc4_DecryptName [1] e = Inr ''x/..''"
    using rc4_name_law [of "[1]" "''x/..''"] by auto
  let ?d = "[([''data''], NDir), ([''data'', e], NDir)]"
  let ?root = "sample_root\<lparr>nameCryptor := Some (rc4_EncryptName [1], rc4_DecryptName [1])\<rparr>"
  have R: "root_dir ?root = [''data'']" using sample_root_facts by (simp add: root_dir_def)
  have "os_lookup ?d [''data''] = Some NDir" "dir_children ?d [''data''] = [(e, NDir)]"
    by (simp_all add: os_lookup_def dir_children_def)
  then show ?thesis
    using forged_name_walk_endless [of ?root "[1]" e ?d start_env] e unfolding R by (auto simp: sample_root_def)
qed

subsection \<open>Reset\<close>

text \<open>A walker over the plain sample root that has given all entries of its directory.\<close>

definition at_dir :: "string \<Rightarrow> int \<Rightarrow> (string \<times> int) list \<Rightarrow> raw_entry list \<Rightarrow> secDirWalker" where
  "at_dir rel depth stack es = (newSecDirWalker data_root rel None None [WithRecursive])\<lparr>initialized := True,
     dirFile := Some \<lparr>h_isdir = True, h_all = es, h_rest = []\<rparr>, rawEntries := es, rawIndex := length es,
     dirStack := stack, currentDepth := depth\<rparr>"

definition reset_disk :: disk where
  "reset_disk = [([''data''], NDir), ([''data'', ''a''], NDir), ([''data'', ''a'', ''f''], NFile [7])]"

lemma reset_open:
  assumes "w_rootPathInfo w = data_root" "w_nameCryptor w = None"
  shows "open_view_dir start_env reset_disk w [] = Inr \<lparr>h_isdir = True, h_all = [(''a'', NDir)], h_rest = [(''a'', NDir)]\<rparr>"
    "open_view_dir start_env reset_disk w ''a'' = Inr \<lparr>h_isdir = True, h_all = [(''f'', NFile [7])], h_rest = [(''f'', NFile [7])]\<rparr>"
proof -
  have "pathInfo_Encode data_root = ''/data''" by code_simp
  then obtain store where "viewPathToStorePathCheck start_env data_root [] None False = Inr (store, ''/data'')"
    using check_dot [of "[]" start_env data_root None] by auto
  moreover have "viewPathToStorePathCheck start_env data_root ''a'' None False = Inr (''a'', ''/data/a'')"
    "components ''/data'' = [''data'']" "components ''/data/a'' = [''data'', ''a'']"
    by code_simp+
  moreover have "os_OpenDir reset_disk [''data''] = Inr \<lparr>h_isdir = True, h_all = [(''a'', NDir)], h_rest = [(''a'', NDir)]\<rparr>"
    "os_OpenDir reset_disk [''data'', ''a''] = Inr \<lparr>h_isdir = True, h_all = [(''f'', NFile [7])], h_rest = [(''f'', NFile [7])]\<rparr>"
    by (simp_all add: os_OpenDir_def os_Stat_def os_lookup_def reset_disk_def dir_children_def)
  ultimately show "open_view_dir start_env reset_disk w [] = Inr \<lparr>h_isdir = True, h_all = [(''a'', NDir)], h_rest = [(''a'', NDir)]\<rparr>"
    "open_view_dir start_env reset_disk w ''a'' = Inr \<lparr>h_isdir = True, h_all = [(''f'', NFile [7])], h_rest = [(''f'', NFile [7])]\<rparr>"
    using assms by (simp_all add: open_view_dir_def)
qed

lemma reset_turns:
  "length stack < 1024 \<Longrightarrow> walker_turn start_env reset_disk ((at_dir [] 0 stack [])\<lparr>dirFile := Some
      \<lparr>h_isdir = True, h_all = [(''a'', NDir)], h_rest = [(''a'', NDir)]\<rparr>\<rparr>) =
    (at_dir [] 0 ((''a'', 1) # stack) [(''a'', NDir)], Emit (entry_of [''a''] NDir))"
  "walker_turn start_env reset_disk (at_dir rel k ((''a'', 1) # stack) es) =
    (at_dir ''a'' 1 stack [(''f'', NFile [7])], Emit (entry_of [''a'', ''f''] (NFile [7])))"
  "walker_turn start_env reset_disk (at_dir rel k [] es) = ((at_dir rel k [] es)\<lparr>rawEntries := []\<rparr>, Fail WalkEOF)"
  by (simp_all add: walker_eval at_dir_def join_samples reset_open)

text \<open>Reset does not go back to the start of a recursive walk. On a root with a directory a that holds
  a file f, Reset after the first entry makes the walk give the file twice, and Reset after the
  second entry makes it give the file only.\<close>
theorem Reset_of_recursive_walk:
  "\<exists>w w1 w2 r1 r2. root_WalkDir start_env reset_disk (Some sample_root) [] [WithRecursive] = Inr w \<and>
    walker_Next start_env reset_disk (Some w) = Some (Some w1, Inr (entry_of [''a''] NDir)) \<and>
    walker_Next start_env reset_disk (Some w1) = Some (Some w2, Inr (entry_of [''a'', ''f''] (NFile [7]))) \<and>
    walker_Reset (Some w1) = (Some r1, None) \<and> walker_Reset (Some w2) = (Some r2, None) \<and>
    read_all start_env reset_disk [] r1 =
      Some (Inr [entry_of [''a''] NDir, entry_of [''a'', ''f''] (NFile [7]), entry_of [''a'', ''f''] (NFile [7])]) \<and>
    read_all start_env reset_disk [] r2 = Some (Inr [entry_of [''a'', ''f''] (NFile [7])])"
proof -
  let ?h = "\<lparr>h_isdir = True, h_all = [(''a'', NDir)], h_rest = [(''a'', NDir)]\<rparr>"
  let ?g = "\<lparr>h_isdir = True, h_all = [(''f'', NFile [7])], h_rest = [(''f'', NFile [7])]\<rparr>"
  let ?w = "(at_dir [] 0 [] [])\<lparr>dirFile := Some ?h\<rparr>"
  let ?w1 = "at_dir [] 0 [(''a'', 1)] [(''a'', NDir)]" and ?w2 = "at_dir ''a'' 1 [] [(''f'', NFile [7])]"
  let ?r1 = "(at_dir [] 0 [(''a'', 1)] [])\<lparr>dirFile := Some ?h\<rparr>" and ?r2 = "(at_dir ''a'' 1 [] [])\<lparr>dirFile := Some ?g\<rparr>"
  have "walker_turn start_env reset_disk ?r2 = (at_dir ''a'' 1 [] [(''f'', NFile [7])], Emit (entry_of [''a'', ''f''] (NFile [7])))"
    by (simp add: walker_eval at_dir_def join_samples)
  then have "walk_run start_env reset_disk ?r2 [entry_of [''a'', ''f''] (NFile [7])] WalkEOF (?w2\<lparr>rawEntries := []\<rparr>)"
    by (blast intro: walk_run.intros reset_turns)
  note r2 = read_all_run [OF this, of "[]"]
  have "walk_run start_env reset_disk ?r1 [entry_of [''a''] NDir, entry_of [''a'', ''f''] (NFile [7]),
      entry_of [''a'', ''f''] (NFile [7])] WalkEOF (?w2\<lparr>rawEntries := []\<rparr>)"
    by (intro walk_run.emit [OF reset_turns(1)] walk_run.emit [OF reset_turns(2)] walk_run.stop reset_turns(3)) simp
  note r1 = read_all_run [OF this, of "[]"]
  have "root_WalkDir start_env reset_disk (Some sample_root) [] [WithRecursive] = Inr ?w"
    by (simp add: root_WalkDir_def open_root_def sample_root_def walker_init_def newSecDirWalker_def reset_open at_dir_def Let_def)
  moreover have "next_loop start_env reset_disk ?w = Some (?w1, Inr (entry_of [''a''] NDir))"
    "next_loop start_env reset_disk ?w1 = Some (?w2, Inr (entry_of [''a'', ''f''] (NFile [7])))"
    by (simp_all add: next_loop.simps reset_turns)
  then have "walker_Next start_env reset_disk (Some ?w) = Some (Some ?w1, Inr (entry_of [''a''] NDir))"
    "walker_Next start_env reset_disk (Some ?w1) = Some (Some ?w2, Inr (entry_of [''a'', ''f''] (NFile [7])))"
    by (simp_all add: walker_Next_def ensure_init_def) (simp_all add: at_dir_def newSecDirWalker_def)
  moreover have "walker_Reset (Some ?w1) = (Some ?r1, None)" "walker_Reset (Some ?w2) = (Some ?r2, None)"
    by (simp_all add: walker_Reset_def at_dir_def newSecDirWalker_def)
  ultimately show ?thesis
    using r1 r2 by (intro exI [of _ ?w] exI [of _ ?w1] exI [of _ ?w2] exI [of _ ?r1] exI [of _ ?r2]) simp
qed

subsection \<open>A closed root\<close>

text \<open>C22. After Close every operation is refused and the disk is left alone: opening, creating,
  deleting, renaming, making directories, Stat and GetStorePath return ErrRootClosed, as WalkDir and
  ReadDir do, and FileExists is false. The root holds neither its name cryptor nor its key.\<close>
theorem closed_root_refuses:
  "root_step env room (root_Close (Some root)) d op = (d, Some ErrRootClosed) \<and>
   \<not> root_FileExists env (root_Close (Some root)) d v \<and>
   root_WalkDir env d (root_Close (Some root)) v opts = Inl (RootErr ErrRootClosed) \<and>
   root_ReadDir env d (root_Close (Some root)) v = Some (Inl (RootErr ErrRootClosed)) \<and>
   (\<not> rclosed root \<longrightarrow> (\<exists>root'. root_Close (Some root) = Some root' \<and> keyInfo root' = None \<and>
      nameCryptor root' = None))"
proof -
  obtain root' where r: "root_Close (Some root) = Some root'" "rclosed root'"
    by (cases "rclosed root") (auto simp: root_Close_def)
  then have closed: "open_root (root_Close (Some root)) = Inl ErrRootClosed"
      "checked_path env (root_Close (Some root)) w = Inl ErrRootClosed" for w
    by (simp_all add: open_root_def checked_path_def)
  have "root_step env room (root_Close (Some root)) d op = (d, Some ErrRootClosed)"
    using r closed by (cases op)
      (simp_all add: root_Open_def root_OpenFile_def root_DeleteFile_def root_DeleteDirectoryTree_def root_MkdirAll_def
        root_Rename_def root_RenameByStorePath_def CreateEmptyFile_def CreateDirectory_def root_GetStorePath_def
        root_Stat_def result_error_def)
  moreover have "\<not> root_FileExists env (root_Close (Some root)) d v"
    "root_WalkDir env d (root_Close (Some root)) v opts = Inl (RootErr ErrRootClosed)"
    "root_ReadDir env d (root_Close (Some root)) v = Some (Inl (RootErr ErrRootClosed))"
    using r closed by (simp_all add: root_FileExists_def root_WalkDir_def root_ReadDir_def)
  ultimately show ?thesis by (auto simp: root_Close_def)
qed

lemma closed_root_refuses_witness:
  "root_step start_env 9 (root_Close (Some sample_root)) [] (OpMkdirAll ''a'') = ([], Some ErrRootClosed) \<and>
   root_ReadDir start_env [] (root_Close (Some sample_root)) ''a'' = Some (Inl (RootErr ErrRootClosed))"
  using closed_root_refuses [of start_env 9 sample_root "[]" "OpMkdirAll ''a''" "''a''" "[]"] by blast

end
