(* ===== verification/PlainRootProps.thy ===== *)
theory PlainRootProps
  imports PlainRoot DirWalkerRuns
begin

text \<open>
  The plain root does on the disk what a secure root without name encryption does, and its
  walker gives every node below its start once.
\<close>

subsection \<open>The plain root as a secure root without encryption\<close>














definition sample_plain :: PlainFS where
  "sample_plain = \<lparr>pl_rootPath = ''/data'', pl_rootPathInfo = data_root, pl_closed = False\<rparr>"



subsection \<open>The walk of a plain root\<close>

definition plain_disk :: "disk \<Rightarrow> bool" where
  "plain_disk d \<longleftrightarrow> disk_wf d \<and> distinct (map fst d) \<and> (\<forall>(q, n) \<in> set d. \<forall>c \<in> set q. plain_name c)"

definition abs_path :: "fpath \<Rightarrow> string" where
  "abs_path p = slash # join_slash p"

text \<open>The entry of a node below \<open>p\<close>, when the relative path of \<open>p\<close> is \<open>us\<close>.\<close>

definition node_entry :: "string list \<Rightarrow> fpath \<Rightarrow> fpath \<times> node \<Rightarrow> plainDirEntry" where
  "node_entry us p = (\<lambda>(q, n). let vs = us @ drop (length p) q in
     \<lparr>pe_name = last vs, pe_isDir = (n = NDir), pe_relativePath = join_slash vs\<rparr>)"

definition below :: "disk \<Rightarrow> fpath \<Rightarrow> raw_entry list \<Rightarrow> (fpath \<times> node) set" where
  "below d p es = {(q, n) \<in> set d. \<exists>s \<in> fst ` set es. prefix (p @ [s]) q}"

lemma components_abs: "\<forall>v \<in> set p. plain_name v \<Longrightarrow> components (abs_path p) = p"
  using components_join [of p] by (simp add: abs_path_def components_def)

lemma Join_abs:
  assumes "\<forall>v \<in> set p. plain_name v" "plain_name s"
  shows "filepath_Join (abs_path p) s = abs_path (p @ [s])"
proof -
  have s: "s \<noteq> []" using assms(2) by (simp add: plain_name_def)
  have all: "\<forall>v \<in> set (p @ [s]). plain_name v" using assms by simp
  have "components (abs_path p @ slash # s) = p @ [s]"
  proof (cases "p = []")
    case True
    then show ?thesis using components_join [of "[s]"] assms(2) by (simp add: abs_path_def components_def)
  next
    case False
    then have "abs_path p @ slash # s = abs_path (p @ [s])" by (simp add: abs_path_def join_slash_append)
    then show ?thesis using components_abs [OF all] by simp
  qed
  moreover have "fold (clean_step True) (p @ [s]) [] = p @ [s]"
    using fold_clean_plain [OF all] by (metis append_Nil)
  ultimately show ?thesis
    using s by (simp add: filepath_Join_def filepath_Clean_def abs_path_def Let_def del: fold_append)
qed

lemma node_entry_step:
  "prefix (p @ [s]) q \<Longrightarrow> node_entry (us @ [s]) (p @ [s]) (q, n) = node_entry us p (q, n)"
  by (auto simp: node_entry_def prefix_def)

lemma node_entry_inj:
  assumes "plain_disk d" "\<forall>u \<in> set us. plain_name u"
  shows "inj_on (node_entry us p) {(q, n) \<in> set d. prefix p q}"
proof (rule inj_onI, clarify)
  fix q n q' n'
  assume *: "(q, n) \<in> set d" "prefix p q" "(q', n') \<in> set d" "prefix p q'" "node_entry us p (q, n) = node_entry us p (q', n')"
  have plain: "\<forall>v \<in> set (us @ drop (length p) r). plain_name v" if "(r, k) \<in> set d" for r k
    using assms that by (fastforce simp: plain_disk_def dest: in_set_dropD)
  have "us @ drop (length p) q = us @ drop (length p) q'"
    using * by (intro join_slash_inj plain) (auto simp: node_entry_def Let_def)
  then have "q = q'" using *(2,4) by (auto simp: prefix_def)
  moreover from this have "n = n'"
    using *(1,3) assms(1) by (auto simp: plain_disk_def dest: eq_key_imp_eq_value)
  ultimately show "q = q' \<and> n = n'" by simp
qed

lemma below_Cons:
  "below d p ((s, n) # es) = {(q, k) \<in> set d. prefix (p @ [s]) q} \<union> below d p es"
  by (auto simp: below_def)

lemma below_disjoint:
  "s \<notin> fst ` set es \<Longrightarrow> {(q, k) \<in> set d. prefix (p @ [s]) q} \<inter> below d p es = {}"
  by (auto simp: below_def prefix_def)

lemma below_prefix: "below d p es \<subseteq> {(q, n) \<in> set d. prefix p q}"
  by (auto simp: below_def dest: append_prefixD)

lemma below_all:
  assumes "disk_wf d"
  shows "below d p (sort_key fst (dir_children d p)) = {(q, n) \<in> set d. strict_prefix p q}"
  using below_children [OF assms] by (auto simp: below_def)

lemma os_ReadDirAll_node:
  assumes "plain_disk d" "(p, NDir) \<in> set d \<or> p = []"
  shows "os_ReadDirAll d p = Inr (sort_key fst (dir_children d p))"
  using assms by (auto simp: os_ReadDirAll_def os_Stat_def os_lookup_def plain_disk_def)

text \<open>What the loop over the entries \<open>es\<close> of \<open>p\<close> is to append: the nodes below them, each once.\<close>

definition appends ::
  "disk \<Rightarrow> plainDirWalker \<Rightarrow> fpath \<Rightarrow> string list \<Rightarrow> int \<Rightarrow> raw_entry list \<Rightarrow> bool" where
  "appends d w p us k es \<longleftrightarrow> (\<forall>acc. \<exists>out. walk_entries d w (abs_path p) (join_slash us) k es acc = Some (Inr (acc @ out)) \<and>
     distinct out \<and> set out = node_entry us p ` below d p es)"

definition full_walk :: "plainDirWalker \<Rightarrow> bool" where
  "full_walk w \<longleftrightarrow> pw_recursive w \<and> pw_maxDepth w = 0 \<and> \<not> SkipFiles (pw_options w) \<and> \<not> SkipDirs (pw_options w)"

lemma file_below:
  assumes "plain_disk d" "(p @ [s], n) \<in> set d" "n \<noteq> NDir"
  shows "{(q, m) \<in> set d. prefix (p @ [s]) q} = {(p @ [s], n)}"
  using none_name.file_leaf [OF _ _ assms(2,3)] assms(1,2)
  by (auto simp: plain_disk_def dest: eq_key_imp_eq_value)

lemma dir_below:
  assumes "plain_disk d" "(p @ [s], NDir) \<in> set d"
  shows "{(q, m) \<in> set d. prefix (p @ [s]) q} =
      insert (p @ [s], NDir) (below d (p @ [s]) (sort_key fst (dir_children d (p @ [s]))))"
    "(p @ [s], NDir) \<notin> below d (p @ [s]) (sort_key fst (dir_children d (p @ [s])))"
proof -
  have "disk_wf d" "distinct (map fst d)" using assms(1) by (simp_all add: plain_disk_def)
  with assms(2) show "{(q, m) \<in> set d. prefix (p @ [s]) q} =
      insert (p @ [s], NDir) (below d (p @ [s]) (sort_key fst (dir_children d (p @ [s]))))"
    "(p @ [s], NDir) \<notin> below d (p @ [s]) (sort_key fst (dir_children d (p @ [s])))"
    unfolding below_all [OF \<open>disk_wf d\<close>] by (auto simp: strict_prefix_def dest: eq_key_imp_eq_value)
qed

lemma walk_one_entry:
  assumes d: "plain_disk d" and w: "full_walk w"
    and sub: "n = NDir \<Longrightarrow> appends d w (p @ [s]) (us @ [s]) (k + 1) (sort_key fst (dir_children d (p @ [s])))"
    and node: "(p @ [s], n) \<in> set d" and us: "\<forall>u \<in> set us. plain_name u" and p: "\<forall>c \<in> set p. plain_name c"
  shows "\<exists>out. walk_entries d w (abs_path p) (join_slash us) k ((s, n) # es) acc =
      walk_entries d w (abs_path p) (join_slash us) k es (acc @ out) \<and> distinct out \<and>
      set out = node_entry us p ` {(q, m) \<in> set d. prefix (p @ [s]) q}"
proof -
  have s: "plain_name s" using node d by (auto simp: plain_disk_def)
  have entry: "plain_entry (join_slash us) (s, n) = node_entry us p (p @ [s], n)"
    using us s by (simp add: plain_entry_def node_entry_def filepath_Join_plain)
  show ?thesis
  proof (cases "n = NDir")
    case False
    then show ?thesis
      using w entry by (intro exI [of _ "[node_entry us p (p @ [s], n)]"])
        (simp add: file_below [OF d node] full_walk_def walk_entries.simps [of d w _ _ _ "_ # _"])
  next
    case True
    let ?e = "node_entry us p (p @ [s], NDir)" and ?ces = "sort_key fst (dir_children d (p @ [s]))"
    note sets = dir_below [OF d node [unfolded True]]
    obtain out where out: "walk_entries d w (abs_path (p @ [s])) (join_slash (us @ [s])) (k + 1) ?ces (acc @ [?e]) =
        Some (Inr ((acc @ [?e]) @ out))" "distinct out" "set out = node_entry (us @ [s]) (p @ [s]) ` below d (p @ [s]) ?ces"
      using sub [OF True] unfolding appends_def by blast
    have same: "set out = node_entry us p ` below d (p @ [s]) ?ces"
      unfolding out(3) using below_prefix [of d "p @ [s]" ?ces] by (intro image_cong) (auto simp: node_entry_step)
    have "inj_on (node_entry us p) {(q, m) \<in> set d. prefix (p @ [s]) q}"
      by (rule inj_on_subset [OF node_entry_inj [OF d us, of p]]) (auto dest: append_prefixD)
    with sets same have new: "?e \<notin> set out" by (auto simp: inj_on_def)
    have "walk_entries d w (abs_path p) (join_slash us) k ((s, n) # es) acc =
        walk_entries d w (abs_path p) (join_slash us) k es (acc @ (?e # out))"
      using w out(1) entry True os_ReadDirAll_node [OF d, of "p @ [s]"] node components_abs [of "p @ [s]"] p s
      by (subst walk_entries.simps) (simp add: full_walk_def Join_abs filepath_Join_plain us Let_def)
    with out(2) new same sets(1) show ?thesis
      by (intro exI [of _ "?e # out"]) simp
  qed
qed

lemma walk_entries_below:
  assumes d: "plain_disk d" and w: "full_walk w"
    and "set es \<subseteq> set (dir_children d p)" "distinct (map fst es)" "\<forall>c \<in> set p. plain_name c" "\<forall>u \<in> set us. plain_name u"
  shows "appends d w p us k es"
  using assms(3-)
proof (induction "card (below d p es)" arbitrary: p us k es rule: less_induct)
  case less
  have fin: "finite (below d p es)" for p es by (rule finite_subset [of _ "set d"]) (auto simp: below_def)
  show ?case
  proof (cases es)
    case Nil
    then show ?thesis by (auto simp: appends_def walk_entries.simps [of d w _ _ _ "[]"] below_def)
  next
    case (Cons e es')
    obtain s n where e: "e = (s, n)" by fastforce
    have node: "(p @ [s], n) \<in> set d" using less.prems(1) by (auto simp: Cons e dir_children_iff)
    define Q where "Q = {(q, m) \<in> set d. prefix (p @ [s]) q}"
    have split: "below d p es = Q \<union> below d p es'" and disj: "Q \<inter> below d p es' = {}"
      using below_disjoint [of s es'] less.prems(2) by (simp_all add: Cons e below_Cons Q_def)
    have mem: "(p @ [s], n) \<in> Q" using node by (simp add: Q_def)
    have "below d p es' \<subset> below d p es" using mem disj split by blast
    then have rest: "appends d w p us k es'"
      using less.hyps [OF psubset_card_mono [OF fin]] less.prems by (simp add: Cons)
    have sub: "appends d w (p @ [s]) (us @ [s]) (k + 1) (sort_key fst (dir_children d (p @ [s])))" if "n = NDir"
    proof (rule less.hyps [OF psubset_card_mono [OF fin]])
      show "below d (p @ [s]) (sort_key fst (dir_children d (p @ [s]))) \<subset> below d p es"
        using dir_below [OF d] node split that unfolding Q_def by blast
    qed (use node less.prems d dir_children_distinct [of d "p @ [s]"] in \<open>auto simp: plain_disk_def distinct_map\<close>)
    have inj: "inj_on (node_entry us p) (Q \<union> below d p es')"
      unfolding split [symmetric] by (rule inj_on_subset [OF node_entry_inj [OF d less.prems(4)] below_prefix])
    show ?thesis
      unfolding appends_def
    proof
      fix acc
      obtain out1 where out1: "walk_entries d w (abs_path p) (join_slash us) k es acc =
          walk_entries d w (abs_path p) (join_slash us) k es' (acc @ out1)" "distinct out1" "set out1 = node_entry us p ` Q"
        using walk_one_entry [OF d w sub node less.prems(4,3), of es' acc] unfolding Q_def Cons e by blast
      obtain out2 where out2: "walk_entries d w (abs_path p) (join_slash us) k es' (acc @ out1) = Some (Inr ((acc @ out1) @ out2))"
        "distinct out2" "set out2 = node_entry us p ` below d p es'"
        using rest unfolding appends_def by blast
      have "set out1 \<inter> set out2 = {}"
        unfolding out1(3) out2(3) using inj disj by (simp add: inj_on_image_Int [symmetric])
      with out1 out2 split show "\<exists>out. walk_entries d w (abs_path p) (join_slash us) k es acc = Some (Inr (acc @ out)) \<and>
          distinct out \<and> set out = node_entry us p ` below d p es"
        by (intro exI [of _ "out1 @ out2"]) auto
    qed
  qed
qed

lemma Clean_abs:
  assumes "\<forall>c \<in> set p. plain_name c"
  shows "filepath_Join (abs_path p) [] = abs_path p"
  using components_abs [OF assms] fold_clean_plain [OF assms, of True "[]"]
  by (simp add: filepath_Join_def filepath_Clean_def abs_path_def Let_def)

lemma resolve_empty: "\<exists>full. resolvePath env p [] = Inr full"
  using check_dot [of "[]" env "pl_rootPathInfo p" None]
  by (auto simp: resolvePath_def viewPathToStorePathCheck_def fullPathFromRelativeStorePath_def ViewPathToStorePath_def
      Let_def split: sum.splits if_splits)

text \<open>C37. Over a disk of plain names the walker of a plain root, opened without options, ends and
  holds every node below the root exactly once, with its path: without the option for
  recursion it is recursive, where the walker of a secure root is not.\<close>
theorem plain_walk_complete:
  assumes "plain_disk d" "\<not> pl_closed p" "pl_rootPath p = abs_path R" "\<forall>c \<in> set R. plain_name c"
    and "os_lookup d R = Some NDir"
  shows "\<exists>w. plain_WalkDir env d (Some p) [] [] = Some (Inr w) \<and> distinct (pw_entries w) \<and>
    set (pw_entries w) = {\<lparr>pe_name = last vs, pe_isDir = (n = NDir), pe_relativePath = join_slash vs\<rparr> | vs n.
      vs \<noteq> [] \<and> (R @ vs, n) \<in> set d}"
proof -
  let ?w = "newPlainDirWalker (pl_rootPath p) [] []" and ?es = "sort_key fst (dir_children d R)"
  have disk: "disk_wf d" "distinct (map fst d)" using assms(1) by (simp_all add: plain_disk_def)
  have "(R, NDir) \<in> set d \<or> R = []" using assms(5) by (auto simp: os_lookup_def dest: map_of_SomeD split: if_splits)
  then have dir: "os_ReadDirAll d R = Inr ?es" by (rule os_ReadDirAll_node [OF assms(1)])
  have "full_walk ?w" by (simp add: full_walk_def newPlainDirWalker_def default_walk_options_def Let_def)
  then have "appends d ?w R [] 0 ?es"
    using dir_children_distinct [OF disk(2), of R] assms(4)
    by (intro walk_entries_below [OF assms(1)]) (auto simp: distinct_map)
  then obtain out where out: "walk_entries d ?w (abs_path R) [] 0 ?es [] = Some (Inr out)" "distinct out"
    "set out = node_entry [] R ` below d R ?es"
    unfolding appends_def join_slash.simps by (metis append_Nil)
  have "set out = {\<lparr>pe_name = last vs, pe_isDir = (n = NDir), pe_relativePath = join_slash vs\<rparr> | vs n.
      vs \<noteq> [] \<and> (R @ vs, n) \<in> set d}"
  proof -
    have nodes: "{(q, n) \<in> set d. strict_prefix R q} = {(R @ vs, n) | vs n. vs \<noteq> [] \<and> (R @ vs, n) \<in> set d}"
      by (auto simp: strict_prefix_def prefix_def)
    have entry: "node_entry [] R (R @ vs, n) = \<lparr>pe_name = last vs, pe_isDir = (n = NDir), pe_relativePath = join_slash vs\<rparr>" for vs n
      by (simp add: node_entry_def)
    then show ?thesis
      unfolding out(3) below_all [OF disk(1)] nodes entry [symmetric] by blast
  qed
  moreover have "plain_WalkDir env d (Some p) [] [] = Some (Inr (?w\<lparr>pw_entries := out\<rparr>))"
  proof -
    obtain full where "resolvePath env p [] = Inr full" using resolve_empty by blast
    moreover have "pw_rootPath ?w = abs_path R" "pw_startPath ?w = []" "pw_entries ?w = []"
      using assms(3) by (simp_all add: newPlainDirWalker_def Let_def)
    ultimately show ?thesis
      using assms(2) dir out(1) components_abs [OF assms(4)]
      by (simp add: plain_WalkDir_def plain_walker_init_def walkDir_def Clean_abs [OF assms(4)])
  qed
  ultimately show ?thesis
    using out(2) by (intro exI [of _ "?w\<lparr>pw_entries := out\<rparr>"]) simp
qed

lemma plain_walk_complete_witness:
  "\<exists>w. plain_WalkDir start_env reset_disk (Some sample_plain) [] [] = Some (Inr w) \<and> distinct (pw_entries w) \<and>
    \<lparr>pe_name = ''f'', pe_isDir = False, pe_relativePath = ''a/f''\<rparr> \<in> set (pw_entries w)"
proof -
  have "plain_disk reset_disk"
    by (auto simp: plain_disk_def reset_disk_def disk_wf_def os_lookup_def plain_name_def no_sep_def is_sep_def)
  moreover have "pl_rootPath sample_plain = abs_path [''data'']" "\<not> pl_closed sample_plain"
    by (simp_all add: sample_plain_def abs_path_def)
  moreover have "\<forall>c \<in> set [''data'']. plain_name c" "os_lookup reset_disk [''data''] = Some NDir"
    by (simp_all add: plain_name_def no_sep_def is_sep_def reset_disk_def os_lookup_def)
  ultimately obtain w where w: "plain_WalkDir start_env reset_disk (Some sample_plain) [] [] = Some (Inr w)" "distinct (pw_entries w)"
    "set (pw_entries w) = {\<lparr>pe_name = last vs, pe_isDir = (n = NDir), pe_relativePath = join_slash vs\<rparr> | vs n.
      vs \<noteq> [] \<and> ([''data''] @ vs, n) \<in> set reset_disk}"
    using plain_walk_complete [of reset_disk sample_plain "[''data'']" start_env] by blast
  have "\<lparr>pe_name = ''f'', pe_isDir = False, pe_relativePath = ''a/f''\<rparr> \<in> set (pw_entries w)"
    unfolding w(3) by (rule CollectI, rule exI [of _ "[''a'', ''f'']"], rule exI [of _ "NFile [7]"]) (simp add: reset_disk_def)
  with w show ?thesis by blast
qed

text \<open>A closed plain file does not know that it is closed.\<close>

lemma plainFile_IsClosed_never:
  "plainFile_Close \<lparr>pf_file = OpenedFile (new_file 9), pf_relativePath = r, pf_fullStorePath = s\<rparr> = (f, None) \<Longrightarrow>
    \<not> plainFile_IsClosed f \<and> plainFile_Sync f = Some ErrClosed"
  by (auto simp: plainFile_Close_def plainFile_IsClosed_def plainFile_Sync_def os_close_def os_sync_def new_file_def)

end
