(* ===== verification/CopyEntry.thy ===== *)
theory CopyEntry
  imports PlainRoot GoEncoding
begin

text \<open>
  Copying between roots: src/native/sec_fs/copy.go. A root is a value of the interface
  \<^verbatim>\<open>ISecRoot\<close>: a record with the operations the copy calls, over the common disk. An open file
  belongs to its root; \<open>f_store\<close> gives the disk that has the content of the file, as it is after
  \<^verbatim>\<open>Close\<close>. The bytes of \<^verbatim>\<open>crypto/rand\<close> are a list of draws; a draw that is missing is an error.
\<close>

subsection \<open>The interface\<close>

record 'f ISecRoot =
  i_GetRootPath :: string
  i_FileExists :: "disk \<Rightarrow> string \<Rightarrow> bool"
  i_Stat :: "disk \<Rightarrow> string \<Rightarrow> root_error + node"
  i_MkdirAll :: "disk \<Rightarrow> string \<Rightarrow> disk \<times> root_error option"
  i_ReadDir :: "disk \<Rightarrow> string \<Rightarrow> (root_error + (string \<times> bool) list) option"
  i_OpenFile :: "disk \<Rightarrow> string \<Rightarrow> open_mode \<Rightarrow> disk \<times> (root_error + 'f)"
  i_DeleteFile :: "disk \<Rightarrow> string \<Rightarrow> disk \<times> root_error option"
  i_Rename :: "disk \<Rightarrow> string \<Rightarrow> string \<Rightarrow> disk \<times> root_error option"
  f_Read :: "nat \<Rightarrow> 'f \<Rightarrow> 'f \<times> bytes \<times> io_error option"
  f_Write :: "bytes \<Rightarrow> 'f \<Rightarrow> 'f \<times> nat \<times> io_error option"
  f_Close :: "'f \<Rightarrow> 'f \<times> io_error option"
  f_store :: "'f \<Rightarrow> disk \<Rightarrow> disk"

datatype copy_error =
    CopyRootNil
  | CopyRoot string root_error
  | CopyIo string io_error
  | CopyShortWrite
  | CopyExists string
  | CopyTraversal string
  | CopyOfRoot
  | CopyInside string string
  | CopyOverFile string
  | CopyOverDirectory string
  | CopyRandom
  | CopyNoName string

subsection \<open>Paths\<close>

text \<open>\<^verbatim>\<open>path.Clean\<close> and \<^verbatim>\<open>path.Join\<close> are those of filepath on a system with the slash.\<close>

definition path_Dir :: "string \<Rightarrow> string" where
  "path_Dir p = filepath_Clean (rev (dropWhile (\<lambda>c. c \<noteq> slash) (rev p)))"

definition cleanCopyPath :: "string \<Rightarrow> copy_error + string" where
  "cleanCopyPath value =
    (let normalized = map (\<lambda>c. if c = backslash then slash else c) value in
     if normalized \<noteq> [] \<and> hd normalized = slash then Inl (CopyTraversal value)
     else let cleaned = filepath_Clean normalized in
       if cleaned = ''..'' \<or> take 3 cleaned = ''../'' then Inl (CopyTraversal value)
       else if cleaned = ''.'' then Inr [] else Inr cleaned)"

definition isPathWithin :: "string \<Rightarrow> string \<Rightarrow> bool" where
  "isPathWithin candidate parent \<longleftrightarrow> take (length parent + 1) candidate = parent @ [slash]"

text \<open>The name of a temporary file: at most \<open>n\<close> draws.\<close>

fun unique_loop :: "'f ISecRoot \<Rightarrow> disk \<Rightarrow> string \<Rightarrow> string \<Rightarrow> nat \<Rightarrow> bytes list \<Rightarrow> bytes list \<times> (copy_error + string)" where
  "unique_loop root d dst sfx 0 rnd = (rnd, Inl (CopyNoName dst))"
| "unique_loop root d dst sfx (Suc n) [] = ([], Inl CopyRandom)"
| "unique_loop root d dst sfx (Suc n) (random # rnd) =
    (let parent = path_Dir dst;
         name = ''.safe_disk'' @ sfx @ ''.'' @ hex_EncodeToString random;
         candidate = (if parent \<noteq> ''.'' \<and> parent \<noteq> [] then filepath_Join parent name else name)
     in if \<not> i_FileExists root d candidate then (rnd, Inr candidate)
        else unique_loop root d dst sfx n rnd)"

definition uniqueCopyPath :: "'f ISecRoot \<Rightarrow> disk \<Rightarrow> string \<Rightarrow> string \<Rightarrow> bytes list \<Rightarrow> bytes list \<times> (copy_error + string)" where
  "uniqueCopyPath root d dst sfx rnd = unique_loop root d dst sfx 8 rnd"

subsection \<open>Content\<close>

text \<open>\<^verbatim>\<open>io.Copy\<close> with its buffer of 32 KiB: the target, and the error of the read or the write.\<close>

partial_function (option) io_Copy ::
  "'a ISecRoot \<Rightarrow> 'b ISecRoot \<Rightarrow> 'a \<Rightarrow> 'b \<Rightarrow> ('b \<times> copy_error option) option" where
  "io_Copy srcRoot dstRoot source target =
    (case f_Read srcRoot 32768 source of (source', buf, rerr) \<Rightarrow>
       (case (if buf = [] then (target, 0, None) else f_Write dstRoot buf target) of (target', n, werr) \<Rightarrow>
          if werr \<noteq> None then Some (target', Some (CopyIo ''write'' (the werr)))
          else if n \<noteq> length buf then Some (target', Some CopyShortWrite)
          else case rerr of
            Some e \<Rightarrow> Some (target', if e = EOF then None else Some (CopyIo ''read'' e))
          | None \<Rightarrow> io_Copy srcRoot dstRoot source' target'))"

definition read_mode :: open_mode where
  "read_mode = \<lparr>o_wronly = False, o_rdwr = False, o_create = False, o_excl = False, o_trunc = False, o_append = False\<rparr>"

definition temp_mode :: open_mode where
  "temp_mode = \<lparr>o_wronly = True, o_rdwr = False, o_create = True, o_excl = True, o_trunc = True, o_append = False\<rparr>"

text \<open>What is checked of the destination of a file: the error, or whether it exists.\<close>

definition check_file_dst :: "'b ISecRoot \<Rightarrow> disk \<Rightarrow> string \<Rightarrow> bool \<Rightarrow> copy_error + bool" where
  "check_file_dst dstRoot d dst ow =
    (if \<not> i_FileExists dstRoot d dst then Inr False
     else case i_Stat dstRoot d dst of Inl e \<Rightarrow> Inl (CopyRoot ''stat'' e)
     | Inr n \<Rightarrow>
       if n = NDir then Inl (CopyOverDirectory dst)
       else if \<not> ow then Inl (CopyExists dst) else Inr True)"

text \<open>The temporary file is complete: it takes the place of the destination.\<close>

definition commit_copy ::
  "'b ISecRoot \<Rightarrow> string \<Rightarrow> string \<Rightarrow> bool \<Rightarrow> disk \<Rightarrow> bytes list \<Rightarrow> disk \<times> bytes list \<times> copy_error option" where
  "commit_copy dstRoot temp dst dstExists d rnd =
    (if \<not> dstExists then
       (case i_Rename dstRoot d temp dst of
          (d', Some e) \<Rightarrow> (fst (i_DeleteFile dstRoot d' temp), rnd, Some (CopyRoot ''commit'' e))
        | (d', None) \<Rightarrow> (d', rnd, None))
     else case uniqueCopyPath dstRoot d dst ''.replaced'' rnd of
       (rnd', Inl e) \<Rightarrow> (fst (i_DeleteFile dstRoot d temp), rnd', Some e)
     | (rnd', Inr backup) \<Rightarrow>
       (case i_Rename dstRoot d dst backup of
          (d1, Some e) \<Rightarrow> (fst (i_DeleteFile dstRoot d1 temp), rnd', Some (CopyRoot ''backup'' e))
        | (d1, None) \<Rightarrow>
          (case i_Rename dstRoot d1 temp dst of
             (d2, Some e) \<Rightarrow>
               let d3 = fst (i_Rename dstRoot d2 backup dst) in
               (fst (i_DeleteFile dstRoot d3 temp), rnd', Some (CopyRoot ''replace'' e))
           | (d2, None) \<Rightarrow>
             (case i_DeleteFile dstRoot d2 backup of
                (d3, err) \<Rightarrow> (d3, rnd', map_option (CopyRoot ''remove'') err)))))"

definition copyFileEntry ::
  "'a ISecRoot \<Rightarrow> string \<Rightarrow> 'b ISecRoot \<Rightarrow> string \<Rightarrow> bool \<Rightarrow> disk \<Rightarrow> bytes list \<Rightarrow>
   (disk \<times> bytes list \<times> copy_error option) option" where
  "copyFileEntry srcRoot src dstRoot dst ow d rnd =
    (case check_file_dst dstRoot d dst ow of Inl e \<Rightarrow> Some (d, rnd, Some e)
     | Inr dstExists \<Rightarrow>
       (case i_OpenFile srcRoot d src read_mode of
          (d, Inl e) \<Rightarrow> Some (d, rnd, Some (CopyRoot ''open'' e))
        | (d, Inr source) \<Rightarrow>
          let parent = path_Dir dst;
              (d, merr) = (if parent \<noteq> ''.'' \<and> parent \<noteq> [] then i_MkdirAll dstRoot d parent else (d, None))
          in case merr of Some e \<Rightarrow> Some (d, rnd, Some (CopyRoot ''parent'' e))
          | None \<Rightarrow>
            (case uniqueCopyPath dstRoot d dst ''.copying'' rnd of
               (rnd, Inl e) \<Rightarrow> Some (d, rnd, Some e)
             | (rnd, Inr temp) \<Rightarrow>
               (case i_OpenFile dstRoot d temp temp_mode of
                  (d, Inl e) \<Rightarrow> Some (d, rnd, Some (CopyRoot ''create'' e))
                | (d, Inr target) \<Rightarrow>
                  (case io_Copy srcRoot dstRoot source target of None \<Rightarrow> None
                   | Some (target, copyErr) \<Rightarrow>
                     (case f_Close dstRoot target of (target, closeErr) \<Rightarrow>
                        let d = f_store dstRoot target d in
                        (case copyErr of Some e \<Rightarrow> Some (fst (i_DeleteFile dstRoot d temp), rnd, Some e)
                         | None \<Rightarrow>
                           (case closeErr of
                              Some e \<Rightarrow> Some (fst (i_DeleteFile dstRoot d temp), rnd, Some (CopyIo ''close'' e))
                            | None \<Rightarrow> Some (commit_copy dstRoot temp dst dstExists d rnd)))))))))"

subsection \<open>Directories\<close>

text \<open>The destination directory is checked or made, then the source is read.\<close>

definition open_directories ::
  "'a ISecRoot \<Rightarrow> string \<Rightarrow> 'b ISecRoot \<Rightarrow> string \<Rightarrow> bool \<Rightarrow> disk \<Rightarrow>
   (disk \<times> (copy_error + (string \<times> bool) list)) option" where
  "open_directories srcRoot src dstRoot dst ow d =
    (case (if i_FileExists dstRoot d dst then
             (case i_Stat dstRoot d dst of Inl e \<Rightarrow> (d, Some (CopyRoot ''stat'' e))
              | Inr n \<Rightarrow>
                if n \<noteq> NDir then (d, Some (CopyOverFile dst))
                else if \<not> ow then (d, Some (CopyExists dst)) else (d, None))
           else map_prod id (map_option (CopyRoot ''mkdir'')) (i_MkdirAll dstRoot d dst)) of
       (d, Some e) \<Rightarrow> Some (d, Inl e)
     | (d, None) \<Rightarrow> map_option (\<lambda>r. (d, map_sum (CopyRoot ''readdir'') id r)) (i_ReadDir srcRoot d src))"

text \<open>The loop over the entries of a directory, with the call for a subdirectory in it.\<close>

partial_function (option) copy_entries ::
  "'a ISecRoot \<Rightarrow> string \<Rightarrow> 'b ISecRoot \<Rightarrow> string \<Rightarrow> bool \<Rightarrow> (string \<times> bool) list \<Rightarrow> disk \<Rightarrow> bytes list \<Rightarrow>
   (disk \<times> bytes list \<times> copy_error option) option" where
  "copy_entries srcRoot src dstRoot dst ow entries d rnd =
    (case entries of [] \<Rightarrow> Some (d, rnd, None)
     | (name, isDir) # es \<Rightarrow>
       let srcChild = filepath_Join src name; dstChild = filepath_Join dst name in
       Option.bind
         (if isDir then
            Option.bind (open_directories srcRoot srcChild dstRoot dstChild ow d) (\<lambda>(d, r).
              case r of Inl e \<Rightarrow> Some (d, rnd, Some e)
              | Inr ces \<Rightarrow> copy_entries srcRoot srcChild dstRoot dstChild ow ces d rnd)
          else copyFileEntry srcRoot srcChild dstRoot dstChild ow d rnd)
         (\<lambda>(d, rnd, err). if err \<noteq> None then Some (d, rnd, err)
            else copy_entries srcRoot src dstRoot dst ow es d rnd))"

definition copyDirectoryEntry ::
  "'a ISecRoot \<Rightarrow> string \<Rightarrow> 'b ISecRoot \<Rightarrow> string \<Rightarrow> bool \<Rightarrow> disk \<Rightarrow> bytes list \<Rightarrow>
   (disk \<times> bytes list \<times> copy_error option) option" where
  "copyDirectoryEntry srcRoot src dstRoot dst ow d rnd =
    Option.bind (open_directories srcRoot src dstRoot dst ow d) (\<lambda>(d, r).
      case r of Inl e \<Rightarrow> Some (d, rnd, Some e)
      | Inr es \<Rightarrow> copy_entries srcRoot src dstRoot dst ow es d rnd)"

definition CopyEntry ::
  "'a ISecRoot option \<Rightarrow> string \<Rightarrow> 'b ISecRoot option \<Rightarrow> string \<Rightarrow> bool \<Rightarrow> disk \<Rightarrow> bytes list \<Rightarrow>
   (disk \<times> bytes list \<times> copy_error option) option" where
  "CopyEntry srcRoot src dstRoot dst ow d rnd =
    (case (srcRoot, dstRoot) of (Some srcRoot, Some dstRoot) \<Rightarrow>
       (case cleanCopyPath src of Inl e \<Rightarrow> Some (d, rnd, Some e)
        | Inr src \<Rightarrow>
          (case cleanCopyPath dst of Inl e \<Rightarrow> Some (d, rnd, Some e)
           | Inr dst \<Rightarrow>
             if src = [] \<or> dst = [] then Some (d, rnd, Some CopyOfRoot)
             else let sameRoot = (i_GetRootPath srcRoot = i_GetRootPath dstRoot) in
               if sameRoot \<and> src = dst then Some (d, rnd, Some (CopyExists dst))
               else if sameRoot \<and> isPathWithin dst src then Some (d, rnd, Some (CopyInside dst src))
               else case i_Stat srcRoot d src of Inl e \<Rightarrow> Some (d, rnd, Some (CopyRoot ''stat'' e))
               | Inr n \<Rightarrow>
                 if n = NDir then copyDirectoryEntry srcRoot src dstRoot dst ow d rnd
                 else copyFileEntry srcRoot src dstRoot dst ow d rnd))
     | _ \<Rightarrow> Some (d, rnd, Some CopyRootNil))"

subsection \<open>The interface of a plain root\<close>

definition plain_read :: "nat \<Rightarrow> plainFile \<Rightarrow> plainFile \<times> bytes \<times> io_error option" where
  "plain_read n f =
    (case pf_file f of OpenedDir \<Rightarrow> (f, [], Some EINVAL)
     | OpenedFile g \<Rightarrow> (case os_read n g of (g', r) \<Rightarrow> (f\<lparr>pf_file := OpenedFile g'\<rparr>, r)))"

definition plain_write :: "bytes \<Rightarrow> plainFile \<Rightarrow> plainFile \<times> nat \<times> io_error option" where
  "plain_write b f =
    (case pf_file f of OpenedDir \<Rightarrow> (f, 0, Some EBADF)
     | OpenedFile g \<Rightarrow> (case os_write g b of (g', r) \<Rightarrow> (f\<lparr>pf_file := OpenedFile g'\<rparr>, r)))"

definition plain_store :: "plainFile \<Rightarrow> disk \<Rightarrow> disk" where
  "plain_store f d =
    (case pf_file f of OpenedDir \<Rightarrow> d
     | OpenedFile g \<Rightarrow> AList.update (components (pf_fullStorePath f)) (NFile (fdata g)) d)"

definition plain_iface :: "path_env \<Rightarrow> nat \<Rightarrow> PlainFS \<Rightarrow> plainFile ISecRoot" where
  "plain_iface env room p = \<lparr>
     i_GetRootPath = plain_GetRootPath (Some p),
     i_FileExists = plain_FileExists env (Some p),
     i_Stat = (\<lambda>d v. map_sum id snd (plain_Stat env (Some p) d v)),
     i_MkdirAll = plain_MkdirAll env (Some p),
     i_ReadDir = (\<lambda>d v. Some (map_sum id (map (\<lambda>e. (pe_name e, pe_isDir e))) (plain_ReadDir env (Some p) d v))),
     i_OpenFile = plain_OpenFile env room (Some p),
     i_DeleteFile = plain_DeleteFile env (Some p),
     i_Rename = plain_Rename env (Some p),
     f_Read = plain_read, f_Write = plain_write, f_Close = plainFile_Close, f_store = plain_store\<rparr>"

end
