(* ===== verification/CopyProps.thy ===== *)
theory CopyProps
  imports CopyEntry PlainRootProps
begin

text \<open>
  Copying one file between plain roots is all or nothing. The disk is read through \<open>os_lookup\<close>; the
  operations of package os on files are updates of that map.
\<close>

subsection \<open>Disks as maps\<close>

lemma key_lookup: "[] \<notin> fst ` set d \<Longrightarrow> q \<in> fst ` set d \<longleftrightarrow> q \<noteq> [] \<and> os_lookup d q \<noteq> None"
  by (metis map_of_eq_None_iff os_lookup_def)

lemma disk_wf_lookup:
  "disk_wf d \<longleftrightarrow> [] \<notin> fst ` set d \<and>
    (\<forall>q. q \<noteq> [] \<longrightarrow> os_lookup d q \<noteq> None \<longrightarrow> os_lookup d (butlast q) = Some NDir)"
proof
  assume wf: "disk_wf d"
  then have "[] \<notin> fst ` set d" by (fastforce simp: disk_wf_def)
  with wf show "[] \<notin> fst ` set d \<and> (\<forall>q. q \<noteq> [] \<longrightarrow> os_lookup d q \<noteq> None \<longrightarrow> os_lookup d (butlast q) = Some NDir)"
    using key_lookup [of d] by (fastforce simp: disk_wf_def)
next
  assume "[] \<notin> fst ` set d \<and> (\<forall>q. q \<noteq> [] \<longrightarrow> os_lookup d q \<noteq> None \<longrightarrow> os_lookup d (butlast q) = Some NDir)"
  then have keys: "[] \<notin> fst ` set d"
    and parent: "\<And>q. q \<noteq> [] \<Longrightarrow> os_lookup d q \<noteq> None \<Longrightarrow> os_lookup d (butlast q) = Some NDir" by blast+
  show "disk_wf d"
    unfolding disk_wf_def
  proof clarify
    fix q n assume "(q, n) \<in> set d"
    then have "q \<in> fst ` set d" by force
    with key_lookup [OF keys] parent show "q \<noteq> [] \<and> os_lookup d (butlast q) = Some NDir" by blast
  qed
qed

lemma disk_wf_keys: "disk_wf d \<Longrightarrow> [] \<notin> fst ` set d"
  by (simp add: disk_wf_lookup)

lemma lookup_parent: "disk_wf d \<Longrightarrow> q \<noteq> [] \<Longrightarrow> os_lookup d q = Some n \<Longrightarrow> os_lookup d (butlast q) = Some NDir"
  by (simp add: disk_wf_lookup)

lemma lookup_root [simp]: "os_lookup d [] = Some NDir"
  by (simp add: os_lookup_def)

lemma lookup_update: "p \<noteq> [] \<Longrightarrow> os_lookup (AList.update p n d) = (os_lookup d)(p \<mapsto> n)"
  by (auto simp: os_lookup_def update_conv')

lemma lookup_delete: "p \<noteq> [] \<Longrightarrow> os_lookup (AList.delete p d) = (os_lookup d)(p := None)"
  by (auto simp: os_lookup_def delete_conv')

text \<open>A disk whose map arises by setting one name keeps the tree shape.\<close>

lemma disk_wf_set:
  assumes "disk_wf d" "os_lookup d' = (os_lookup d)(p := n)" "[] \<notin> fst ` set d'" "p \<noteq> []"
    and "n = None \<or> os_lookup d (butlast p) = Some NDir" "os_lookup d p \<noteq> Some NDir"
  shows "disk_wf d'"
  unfolding disk_wf_lookup
proof (intro conjI allI impI)
  fix q assume q: "q \<noteq> []" "os_lookup d' q \<noteq> None"
  have "os_lookup d (butlast q) = Some NDir"
  proof (cases "q = p")
    case True
    with q assms(2,5) show ?thesis by auto
  next
    case False
    with q assms(1,2) show ?thesis by (auto simp: disk_wf_lookup)
  qed
  moreover from this have "butlast q \<noteq> p" using assms(6) by auto
  ultimately show "os_lookup d' (butlast q) = Some NDir" using assms(2) by simp
qed (fact assms(3))

subsection \<open>Files\<close>

lemma update_file:
  assumes "disk_wf d" "p \<noteq> []" "os_lookup d (butlast p) = Some NDir" "os_lookup d p \<noteq> Some NDir"
  shows "os_lookup (AList.update p (NFile x) d) = (os_lookup d)(p \<mapsto> NFile x)" "disk_wf (AList.update p (NFile x) d)"
proof -
  show l: "os_lookup (AList.update p (NFile x) d) = (os_lookup d)(p \<mapsto> NFile x)" by (rule lookup_update [OF assms(2)])
  have "[] \<notin> fst ` set (AList.update p (NFile x) d)"
    using disk_wf_keys [OF assms(1)] assms(2) by (auto simp: dom_update)
  then show "disk_wf (AList.update p (NFile x) d)"
    by (rule disk_wf_set [OF assms(1) l _ assms(2)]) (use assms(3,4) in auto)
qed

lemma remove_file:
  assumes "disk_wf d" "p \<noteq> []" "os_lookup d p = Some (NFile x)"
  shows "\<exists>d'. os_Remove d p = (d', None) \<and> os_lookup d' = (os_lookup d)(p := None) \<and> disk_wf d'"
proof -
  have l: "os_lookup (AList.delete p d) = (os_lookup d)(p := None)" by (rule lookup_delete [OF assms(2)])
  have "[] \<notin> fst ` set (AList.delete p d)"
    using disk_wf_keys [OF assms(1)] by (auto simp: AList.delete_eq)
  then have "disk_wf (AList.delete p d)"
    by (rule disk_wf_set [OF assms(1) l _ assms(2)]) (use assms(3) in auto)
  with l assms(3) show ?thesis by (simp add: os_Remove_def)
qed

lemma not_found:
  assumes "os_lookup d p = None" "os_lookup d (butlast p) = Some NDir" "disk_wf d"
  shows "os_Lstat d p = Inl ENOENT"
proof -
  have "os_lookup d q = Some NDir" if "prefix q (butlast p)" for q
    using that assms(2)
  proof (induction "butlast p" arbitrary: p rule: rev_induct)
    case Nil
    then show ?case by simp
  next
    case (snoc c cs)
    have bl: "butlast p = cs @ [c]" using snoc.hyps(2) by simp
    show ?case
    proof (cases "q = butlast p")
      case False
      with snoc.prems(1) bl have "prefix q cs" by (metis prefix_snoc)
      moreover have "os_lookup d cs = Some NDir"
        using lookup_parent [OF assms(3), of "cs @ [c]" NDir] bl snoc.prems(2) by simp
      ultimately show ?thesis using snoc.hyps(1) [of "cs @ [c]"] by simp
    qed (use snoc.prems(2) in simp)
  qed
  then have "find (\<lambda>q. os_lookup d q \<noteq> Some NDir) (prefixes (butlast p)) = None"
    by (auto simp: find_None_iff)
  with assms(1) show ?thesis by (simp add: os_Lstat_def walk_error_def)
qed

lemma rename_file:
  assumes "disk_wf d" "os_lookup d old = Some (NFile x)" "os_lookup d new = None" "os_lookup d (butlast new) = Some NDir"
  shows "\<exists>d'. os_Rename d old new = (d', None) \<and> os_lookup d' = (os_lookup d)(old := None, new \<mapsto> NFile x) \<and> disk_wf d'"
proof -
  have ne: "old \<noteq> []" "new \<noteq> []" "old \<noteq> new" using assms(2,3) by auto
  let ?d = "map (\<lambda>(q, n). (move_key old new q, n)) d"
  have ren: "os_Rename d old new = (?d, None)"
    using assms(2-4) ne by (simp add: os_Rename_def parent_error_def)
  note none = nothing_below [OF assms(1,3)]
  note move = map_of_move [OF none, of old]
  have leaf: "os_lookup d (old @ k) = None" if "k \<noteq> []" for k
  proof (rule ccontr)
    assume "os_lookup d (old @ k) \<noteq> None"
    then obtain n where "(old @ k, n) \<in> set d" using that ne(1) by (auto simp: os_lookup_def dest: map_of_SomeD)
    then have "\<exists>s m. (old @ [s], m) \<in> set d"
      using child_above [OF assms(1), of "old @ k" n old] that by (auto simp: strict_prefix_def)
    then have "os_lookup d old = Some NDir" using assms(1) by (force simp: disk_wf_def)
    with assms(2) show False by simp
  qed
  have l: "os_lookup ?d = (os_lookup d)(old := None, new \<mapsto> NFile x)"
  proof
    fix q
    consider (new) k where "q = new @ k" | (old) k where "q = old @ k" "\<not> prefix new q"
      | (other) "\<not> prefix old q" "\<not> prefix new q"
      unfolding prefix_def by blast
    then show "os_lookup ?d q = ((os_lookup d)(old := None, new \<mapsto> NFile x)) q"
    proof cases
      case (new k)
      then have "os_lookup ?d q = os_lookup d (old @ k)"
        using move(1) [of k] ne by (simp add: os_lookup_def)
      moreover have "os_lookup d (new @ k) = None"
        using none new ne by (auto simp: os_lookup_def map_of_eq_None_iff image_iff split_beta) (metis fst_conv prefixI)
      moreover have "q \<noteq> old" using new assms(2) \<open>os_lookup d (new @ k) = None\<close> by auto
      ultimately show ?thesis
        using leaf assms(2) new by (cases "k = []") auto
    next
      case (old k)
      have "move_key old new a \<noteq> q" for a
      proof (cases "prefix old a")
        case True
        then have "prefix new (move_key old new a)" by (simp add: move_key_def)
        with old(2) show ?thesis by auto
      next
        case False
        with old(1) show ?thesis by (auto simp: move_key_def)
      qed
      then have "q \<notin> fst ` set ?d" by fastforce
      then have "os_lookup ?d q = None" using old(1) ne by (simp add: os_lookup_def map_of_eq_None_iff)
      then show ?thesis
        using leaf old ne by (cases "k = []") auto
    next
      case other
      then have "os_lookup ?d q = os_lookup d q"
        using move(2) [OF other] ne by (cases "q = []") (auto simp: os_lookup_def)
      with other show ?thesis by auto
    qed
  qed
  have keys: "[] \<notin> fst ` set ?d"
  proof
    assume "[] \<in> fst ` set ?d"
    then obtain a n where "(a, n) \<in> set d" "move_key old new a = []" by auto
    with disk_wf_keys [OF assms(1)] ne show False by (auto simp: move_key_def split: if_splits) force
  qed
  have "disk_wf ?d"
    unfolding disk_wf_lookup
  proof (intro conjI allI impI)
    fix q assume q: "q \<noteq> []" "os_lookup ?d q \<noteq> None"
    then have "os_lookup d (butlast q) = Some NDir"
      using assms(1,4) by (cases "q = new") (auto simp: l disk_wf_lookup split: if_splits)
    moreover from this have "butlast q \<noteq> old" "butlast q \<noteq> new" using assms(2,3) by auto
    ultimately show "os_lookup ?d (butlast q) = Some NDir" by (simp add: l)
  qed (rule keys)
  with ren l show ?thesis by blast
qed

text \<open>Making directories touches only names on the path that did not exist.\<close>

definition new_dirs :: "fpath \<Rightarrow> disk \<Rightarrow> disk \<Rightarrow> bool" where
  "new_dirs p d d' \<longleftrightarrow> (\<forall>q. os_lookup d' q = os_lookup d q \<or>
     prefix q p \<and> os_lookup d q = None \<and> os_lookup d' q = Some NDir)"

lemma mkdir_from_new_dirs:
  "disk_wf d \<Longrightarrow> os_lookup d done = Some NDir \<Longrightarrow> mkdir_from d done cs = (d', err) \<Longrightarrow>
    disk_wf d' \<and> new_dirs (done @ cs) d d' \<and> (err = None \<longrightarrow> os_lookup d' (done @ cs) = Some NDir)"
proof (induction d "done" cs rule: mkdir_from.induct)
  case (1 d "done")
  then show ?case by (auto simp: new_dirs_def)
next
  case (2 d "done" c cs)
  show ?case
  proof (cases "os_lookup d (done @ [c])")
    case None
    let ?d = "AList.update (done @ [c]) NDir d"
    have l: "os_lookup ?d = (os_lookup d)(done @ [c] \<mapsto> NDir)" by (rule lookup_update) simp
    have "[] \<notin> fst ` set ?d" using disk_wf_keys [OF 2(3)] by (auto simp: dom_update)
    then have "disk_wf ?d"
      by (rule disk_wf_set [OF 2(3) l]) (use 2(4) None in auto)
    from 2(1) [OF None this] 2(5) None l have "disk_wf d' \<and> new_dirs (done @ c # cs) ?d d' \<and>
        (err = None \<longrightarrow> os_lookup d' (done @ c # cs) = Some NDir)" by simp
    moreover
    have "new_dirs (done @ c # cs) d d'" if nd: "new_dirs (done @ c # cs) ?d d'"
      unfolding new_dirs_def
    proof
      fix q
      have "os_lookup d' q = os_lookup ?d q \<or> prefix q (done @ c # cs) \<and> os_lookup ?d q = None \<and> os_lookup d' q = Some NDir"
        using nd by (simp add: new_dirs_def)
      then show "os_lookup d' q = os_lookup d q \<or> prefix q (done @ c # cs) \<and> os_lookup d q = None \<and> os_lookup d' q = Some NDir"
        by (cases "q = done @ [c]") (simp_all add: l None)
    qed
    ultimately show ?thesis by blast
  next
    case (Some n)
    then show ?thesis
      using 2 by (cases n) (auto simp: new_dirs_def)
  qed
qed

lemma MkdirAll_new_dirs:
  assumes "disk_wf d" "os_MkdirAll d p = (d', err)"
  shows "disk_wf d'" "new_dirs p d d'" "err = None \<Longrightarrow> os_lookup d' p = Some NDir"
  using mkdir_from_new_dirs [OF assms(1), of "[]" p d' err] assms(2) by (simp_all add: os_MkdirAll_def)

lemma MkdirAll_exists:
  assumes "disk_wf d" "os_lookup d p = Some NDir"
  shows "os_MkdirAll d p = (d, None)"
proof -
  have "mkdir_from d done cs = (d, None)" if "os_lookup d (done @ cs) = Some NDir" for "done" cs
    using that
  proof (induction cs arbitrary: "done")
    case (Cons c cs)
    have "os_lookup d (done @ [c]) = Some NDir"
      using Cons.prems
    proof (induction cs rule: rev_induct)
      case (snoc x xs)
      then show ?case using lookup_parent [OF assms(1), of "done @ c # xs @ [x]" NDir] by (simp add: butlast_append)
    qed simp
    with Cons.IH [of "done @ [c]"] Cons.prems show ?case by simp
  qed simp
  with assms(2) show ?thesis by (simp add: os_MkdirAll_def)
qed

lemma new_dirs_refl [simp]: "new_dirs p d d"
  by (simp add: new_dirs_def)

lemma new_dirs_trans: "new_dirs p d d1 \<Longrightarrow> new_dirs p d1 d2 \<Longrightarrow> new_dirs p d d2"
  unfolding new_dirs_def by (metis option.distinct(1))

subsection \<open>The content\<close>

lemma io_Copy_plain:
  assumes src: "pf_file source = OpenedFile f" "fopen f" "freadable f" "foff f = int k" "fdata f = data" "k \<le> length data"
    and tgt: "pf_file target = OpenedFile g" "fopen g" "fwritable g" "\<not> fappend g" "foff g = int k" "fdata g = take k data"
  shows "\<exists>g' err. io_Copy (plain_iface env room1 p1) (plain_iface env room2 p2) source target =
      Some (target\<lparr>pf_file := OpenedFile g'\<rparr>, err) \<and> fopen g' \<and> (err = None \<longrightarrow> fdata g' = data)"
  using assms
proof (induction "length data - k" arbitrary: source f k target g rule: less_induct)
  case less
  let ?S = "plain_iface env room1 p1" and ?T = "plain_iface env room2 p2"
  define buf where "buf = take 32768 (drop k data)"
  define f' where "f' = f\<lparr>foff := foff f + int (length buf)\<rparr>"
  have read: "plain_read 32768 source = (source\<lparr>pf_file := OpenedFile f'\<rparr>, buf, if buf = [] then Some EOF else None)"
    using less.prems by (simp add: plain_read_def os_read_def buf_def f'_def Let_def)
  show ?case
  proof (cases "buf = []")
    case True
    then have "take k data = data" using less.prems(6) by (simp add: buf_def)
    then show ?thesis
      using less.prems True read by (subst io_Copy.simps) (auto simp: plain_iface_def intro!: exI [of _ g])
  next
    case False
    define n where "n = os_fits g k (length buf)"
    obtain g1 where wr: "os_write g buf = (g1, n, if n < length buf then Some ENOSPC else None)" "fopen g1"
      "n = length buf \<Longrightarrow> fdata g1 = overwrite (fdata g) k buf \<and> foff g1 = int (k + n) \<and> fwritable g1 \<and> \<not> fappend g1"
      using less.prems False by (auto simp: os_write_def os_store_def n_def Let_def split: if_splits)
    have step: "io_Copy ?S ?T source target =
        (if n < length buf then Some (target\<lparr>pf_file := OpenedFile g1\<rparr>, Some (CopyIo ''write'' ENOSPC))
         else io_Copy ?S ?T (source\<lparr>pf_file := OpenedFile f'\<rparr>) (target\<lparr>pf_file := OpenedFile g1\<rparr>))"
      using less.prems(7) wr(1) read False os_fits_le [of g k "length buf"]
      by (subst io_Copy.simps) (auto simp: plain_iface_def plain_write_def n_def)
    show ?thesis
    proof (cases "n < length buf")
      case True
      with step wr(2) show ?thesis by auto
    next
      case n: False
      then have n: "n = length buf" using os_fits_le [of g k "length buf"] by (simp add: n_def)
      have k: "k + n \<le> length data" "length data - (k + n) < length data - k"
        using False less.prems(6) by (auto simp: n buf_def)
      have "take (k + n) data = take k data @ buf"
        using k(1) by (auto simp: n buf_def take_add min_def)
      then have "fdata g1 = take (k + n) data"
        using wr(3) [OF n] less.prems(6,12) overwrite_at_end [of "take k data" buf] by (simp add: min_absorb2)
      then obtain g' err where "io_Copy ?S ?T (source\<lparr>pf_file := OpenedFile f'\<rparr>) (target\<lparr>pf_file := OpenedFile g1\<rparr>) =
          Some ((target\<lparr>pf_file := OpenedFile g1\<rparr>)\<lparr>pf_file := OpenedFile g'\<rparr>, err)" "fopen g'" "err = None \<longrightarrow> fdata g' = data"
        using less.hyps [OF k(2), of "source\<lparr>pf_file := OpenedFile f'\<rparr>" f' "target\<lparr>pf_file := OpenedFile g1\<rparr>" g1]
          less.prems wr(2) wr(3) [OF n] k(1) by (auto simp: f'_def n)
      with step n show ?thesis by auto
    qed
  qed
qed

subsection \<open>Operations of a plain root on names\<close>

definition copy_name :: "string \<Rightarrow> bool" where
  "copy_name v \<longleftrightarrow> plain_name v \<and> colon \<notin> set v"

definition usual_plain :: "path_env \<Rightarrow> PlainFS \<Rightarrow> bool" where
  "usual_plain env p \<longleftrightarrow> \<not> pl_closed p \<and> pseparator (pl_rootPathInfo p) = slash \<and>
     (\<exists>c \<in> set (pparts (pl_rootPathInfo p)). c \<noteq> []) \<and> is_sep (DefaultSystemSeparator env)"

definition plain_dir :: "PlainFS \<Rightarrow> fpath" where
  "plain_dir p = components (pathInfo_Encode (pl_rootPathInfo p))"

lemma resolve_names:
  assumes p: "usual_plain env p" and vs: "\<forall>v \<in> set vs. copy_name v" "vs \<noteq> []"
  shows "\<exists>full. resolvePath env p (join_slash vs) = Inr full \<and> components full = plain_dir p @ vs"
proof -
  let ?info = "pl_rootPathInfo p"
  have plain: "\<forall>v \<in> set vs. plain_name v" and colon: "\<forall>v \<in> set vs. colon \<notin> set v"
    using vs by (auto simp: copy_name_def)
  have ne: "\<forall>v \<in> set vs. v \<noteq> []" using plain by (auto simp: plain_name_def)
  note clean = clean_parts_plain [OF plain]
  define sinfo where "sinfo = \<lparr>pscheme = [], phost = [],
      pseparator = (if 1 < length vs then slash else DefaultSystemSeparator env), pparts = vs, pathType = PathTypeLocalRelative\<rparr>"
  have parse: "ParsePathInfoEasy env (join_slash vs) = Inr sinfo"
    using parse_print_relative [OF clean vs(2) colon, of slash] by (simp add: join_slash_build [OF ne] sinfo_def is_sep_def)
  have parts: "pathInfo_Parts sinfo = vs" using relative_parts(1) [of sinfo] clean by (simp add: sinfo_def)
  have "isSafeRelativeStorePath sinfo"
    using plain none_name.plain_not_special by (auto simp: isSafeRelativeStorePath_def parts) (auto simp: sinfo_def)
  moreover have root: "\<exists>c \<in> set (pparts ?info). c \<noteq> []" "pseparator ?info = slash" using p by (auto simp: usual_plain_def)
  ultimately have "resolvePath env p (join_slash vs) = Inr (pathInfo_Encode ?info @ concat (map (\<lambda>q. slash # q) vs))"
    using contains_join [OF root(1)] encode_Join [OF root(1) ne]
    by (simp add: resolvePath_def fullPathFromRelativeStorePath_def parse parts Let_def)
  moreover have "components (pathInfo_Encode ?info @ concat (map (\<lambda>q. slash # q) vs)) = plain_dir p @ vs"
    unfolding components_def plain_dir_def by (rule split_slash_names [OF plain])
  ultimately show ?thesis by blast
qed

lemma plain_path_names:
  assumes "usual_plain env p" "\<forall>v \<in> set vs. copy_name v" "vs \<noteq> []"
  shows "plain_path env e (Some p) (join_slash vs) = Inr (plain_dir p @ vs)"
  using resolve_names [OF assms] assms(1) by (auto simp: plain_path_def usual_plain_def)

end
