(* ===== verification/CopyFile.thy ===== *)
theory CopyFile
  imports CopyProps
begin

text \<open>
  One file between plain roots: the temporary file, the exchange with the destination, and the whole
  of \<open>CopyEntry\<close> for a file.
\<close>

subsection \<open>The names of the copy\<close>

lemma hex_chars: "c \<in> set (hex_EncodeToString r) \<Longrightarrow> \<not> is_sep c \<and> c \<noteq> colon"
proof -
  assume "c \<in> set (hex_EncodeToString r)"
  then obtain b :: byte where "c = hex_digits ! (unat b div 16) \<or> c = hex_digits ! (unat b mod 16)"
    by (auto simp: hex_EncodeToString_def)
  moreover have "unat b div 16 < 16"
    using unsigned_less [where 'a = nat and 'b = 8, of b] by (simp add: less_mult_imp_div_less)
  moreover have "length hex_digits = 16" by (simp add: hex_digits_def)
  then have "i < 16 \<Longrightarrow> hex_digits ! i \<in> set hex_digits" for i by simp
  ultimately have "c \<in> set hex_digits" by auto
  then show ?thesis by (auto simp: hex_digits_def is_sep_def)
qed

definition temp_name :: "string \<Rightarrow> string \<Rightarrow> bool" where
  "temp_name sfx t \<longleftrightarrow> (\<exists>r. t = ''.safe_disk'' @ sfx @ ''.'' @ hex_EncodeToString r)"

lemma temp_name_ok:
  assumes "temp_name sfx t" "sfx = ''.copying'' \<or> sfx = ''.replaced''"
  shows "copy_name t"
  using assms hex_chars by (fastforce simp: temp_name_def copy_name_def plain_name_def no_sep_def is_sep_def)

lemma temp_names_differ: "temp_name ''.copying'' t \<Longrightarrow> temp_name ''.replaced'' b \<Longrightarrow> t \<noteq> b"
  by (auto simp: temp_name_def)

lemma copy_plain: "\<forall>v \<in> set vs. copy_name v \<Longrightarrow> \<forall>v \<in> set vs. plain_name v"
  by (simp add: copy_name_def)

lemma path_Dir_names:
  assumes "\<forall>v \<in> set (init @ [l]). plain_name v"
  shows "path_Dir (join_slash (init @ [l])) = (if init = [] then ''.'' else join_slash init)"
proof -
  have l: "slash \<notin> set l" using assms plain_no_slash by simp
  have drop: "dropWhile (\<lambda>c. c \<noteq> slash) (rev l @ w) = dropWhile (\<lambda>c. c \<noteq> slash) w" for w
    by (rule dropWhile_append2) (use l in auto)
  show ?thesis
  proof (cases "init = []")
    case True
    then show ?thesis using drop [of "[]"] by (simp add: path_Dir_def filepath_Clean_def)
  next
    case False
    have plain: "\<forall>v \<in> set init. plain_name v" using assms by simp
    have "components (join_slash init @ [slash]) = init"
      using components_join [OF plain] by (simp add: components_def split_slash_append)
    with join_slash_ne [OF plain False] have "filepath_Clean (join_slash init @ [slash]) = join_slash init"
      by (simp add: filepath_Clean_def fold_clean_plain [OF plain] Let_def)
    moreover have "rev (join_slash (init @ [l])) = rev l @ slash # rev (join_slash init)"
      using join_slash_append [OF False] by simp
    ultimately show ?thesis
      using False drop by (simp add: path_Dir_def)
  qed
qed

lemma unique_names:
  assumes "\<forall>v \<in> set (init @ [l]). copy_name v" "sfx = ''.copying'' \<or> sfx = ''.replaced''"
  shows "unique_loop root d (join_slash (init @ [l])) sfx n rnd = (rnd', Inr c) \<Longrightarrow>
    \<exists>t. temp_name sfx t \<and> copy_name t \<and> c = join_slash (init @ [t]) \<and> \<not> i_FileExists root d c"
proof (induction n arbitrary: rnd)
  case (Suc n)
  show ?case
  proof (cases rnd)
    case (Cons r rs)
    let ?t = "''.safe_disk'' @ sfx @ ''.'' @ hex_EncodeToString r"
    have t: "temp_name sfx ?t" by (auto simp: temp_name_def)
    have ok: "copy_name ?t" by (rule temp_name_ok [OF t assms(2)])
    have plain: "\<forall>v \<in> set init. plain_name v" using copy_plain [OF assms(1)] by simp
    have nt: "plain_name ?t" using ok by (simp add: copy_name_def)
    have "join_slash init \<noteq> ''.''"
    proof
      assume "join_slash init = ''.''"
      moreover have "components ''.'' = [''.'']" by (simp add: components_def)
      ultimately have "init = [''.'']" using components_join [OF plain] by simp
      with plain show False by (simp add: plain_name_def)
    qed
    then have "(if path_Dir (join_slash (init @ [l])) \<noteq> ''.'' \<and> path_Dir (join_slash (init @ [l])) \<noteq> []
        then filepath_Join (path_Dir (join_slash (init @ [l]))) ?t else ?t) = join_slash (init @ [?t])"
      using path_Dir_names [OF copy_plain [OF assms(1)]] filepath_Join_plain [OF plain nt] join_slash_ne [OF plain]
      by auto
    with Suc Cons t ok show ?thesis by (auto simp: Let_def split: if_splits)
  qed (use Suc in auto)
qed simp

subsection \<open>The operations on names\<close>

lemma plain_ops:
  assumes p: "usual_plain env p" and vs: "\<forall>v \<in> set vs. copy_name v" "vs \<noteq> []"
  defines "Q \<equiv> plain_dir p @ vs"
  shows plain_exists: "i_FileExists (plain_iface env room p) d (join_slash vs) \<longleftrightarrow> os_lookup d Q \<notin> {None, Some NSymlink}"
    and plain_stat: "i_Stat (plain_iface env room p) d (join_slash vs) = map_sum (RootOsError ''stat'') id (os_Stat d Q)"
    and plain_mkdir: "i_MkdirAll (plain_iface env room p) d (join_slash vs) = map_prod id (map_option (RootOsError ''mkdir'')) (os_MkdirAll d Q)"
    and plain_delete: "i_DeleteFile (plain_iface env room p) d (join_slash vs) = map_prod id (map_option (RootOsError ''remove'')) (os_Remove d Q)"
proof -
  obtain full where full: "resolvePath env p (join_slash vs) = Inr full" "components full = Q"
    using resolve_names [OF p vs] by (auto simp: Q_def)
  have open_p: "\<not> pl_closed p" using p by (simp add: usual_plain_def)
  note path = plain_path_names [OF p vs, folded Q_def]
  show "i_FileExists (plain_iface env room p) d (join_slash vs) \<longleftrightarrow> os_lookup d Q \<notin> {None, Some NSymlink}"
    by (auto simp: plain_iface_def plain_FileExists_def path os_Stat_def split: option.splits node.splits)
  show "i_Stat (plain_iface env room p) d (join_slash vs) = map_sum (RootOsError ''stat'') id (os_Stat d Q)"
    by (auto simp: plain_iface_def plain_Stat_def open_p full split: sum.splits)
  show "i_MkdirAll (plain_iface env room p) d (join_slash vs) = map_prod id (map_option (RootOsError ''mkdir'')) (os_MkdirAll d Q)"
    by (auto simp: plain_iface_def plain_MkdirAll_def path split: prod.splits)
  show "i_DeleteFile (plain_iface env room p) d (join_slash vs) = map_prod id (map_option (RootOsError ''remove'')) (os_Remove d Q)"
    by (auto simp: plain_iface_def plain_DeleteFile_def path split: prod.splits)
qed

lemma plain_delete_file:
  assumes "usual_plain env p" "\<forall>v \<in> set vs. copy_name v" "vs \<noteq> []"
    and "disk_wf d" "os_lookup d (plain_dir p @ vs) = Some (NFile x)"
  shows "\<exists>d'. i_DeleteFile (plain_iface env room p) d (join_slash vs) = (d', None) \<and>
    os_lookup d' = (os_lookup d)(plain_dir p @ vs := None) \<and> disk_wf d'"
  using remove_file [OF assms(4) _ assms(5)] assms(3) by (auto simp: plain_delete [OF assms(1-3)])

lemma plain_rename_file:
  assumes "usual_plain env p" "\<forall>v \<in> set vs. copy_name v" "vs \<noteq> []" "\<forall>v \<in> set ws. copy_name v" "ws \<noteq> []" "vs \<noteq> ws"
    and "disk_wf d" "os_lookup d (plain_dir p @ vs) = Some (NFile x)" "os_lookup d (butlast (plain_dir p @ ws)) = Some NDir"
  shows "os_lookup d (plain_dir p @ ws) = None \<Longrightarrow>
      \<exists>d'. i_Rename (plain_iface env room p) d (join_slash vs) (join_slash ws) = (d', None) \<and>
        os_lookup d' = (os_lookup d)(plain_dir p @ vs := None, plain_dir p @ ws \<mapsto> NFile x) \<and> disk_wf d'"
    and "os_lookup d (plain_dir p @ ws) \<noteq> None \<Longrightarrow>
      i_Rename (plain_iface env room p) d (join_slash vs) (join_slash ws) = (d, Some ErrFileAlreadyExists)"
proof -
  obtain f1 f2 where full: "resolvePath env p (join_slash vs) = Inr f1" "components f1 = plain_dir p @ vs"
      "resolvePath env p (join_slash ws) = Inr f2" "components f2 = plain_dir p @ ws"
    using resolve_names [OF assms(1-3)] resolve_names [OF assms(1,4,5)] by auto
  have open_p: "\<not> pl_closed p" using assms(1) by (simp add: usual_plain_def)
  have ne: "join_slash vs \<noteq> join_slash ws"
    using join_slash_inj [OF copy_plain [OF assms(2)] copy_plain [OF assms(4)]] assms(6) by blast
  {
    assume none: "os_lookup d (plain_dir p @ ws) = None"
    show "\<exists>d'. i_Rename (plain_iface env room p) d (join_slash vs) (join_slash ws) = (d', None) \<and>
        os_lookup d' = (os_lookup d)(plain_dir p @ vs := None, plain_dir p @ ws \<mapsto> NFile x) \<and> disk_wf d'"
      using rename_file [OF assms(7,8) none assms(9)] not_found [OF none assms(9,7)]
      by (auto simp: plain_iface_def plain_Rename_def open_p ne full)
  next
    assume "os_lookup d (plain_dir p @ ws) \<noteq> None"
    then show "i_Rename (plain_iface env room p) d (join_slash vs) (join_slash ws) = (d, Some ErrFileAlreadyExists)"
      by (auto simp: plain_iface_def plain_Rename_def open_p ne full os_Lstat_def)
  }
qed

text \<open>Opening the temporary file.\<close>

lemma open_excl:
  "os_OpenFile room d q temp_mode = (d', r) \<Longrightarrow>
    (case r of Inl e \<Rightarrow> d' = d
     | Inr f \<Rightarrow> os_lookup d q = None \<and> os_lookup d (butlast q) = Some NDir \<and>
         d' = AList.update q (NFile []) d \<and> f = OpenedFile (handle temp_mode [] room))"
  by (auto simp: os_OpenFile_def parent_error_def temp_mode_def Let_def split: option.splits node.splits if_splits)

lemma plain_open_temp:
  assumes "usual_plain env p" "\<forall>v \<in> set (init @ [t]). copy_name v" "disk_wf d"
    and "i_OpenFile (plain_iface env room p) d (join_slash (init @ [t])) temp_mode = (d', r)"
  shows "\<exists>d0. disk_wf d0 \<and> new_dirs (plain_dir p @ init) d d0 \<and>
    (case r of Inl e \<Rightarrow> d' = d0
     | Inr target \<Rightarrow> os_lookup d0 (plain_dir p @ init) = Some NDir \<and> os_lookup d0 (plain_dir p @ init @ [t]) = None \<and>
         d' = AList.update (plain_dir p @ init @ [t]) (NFile []) d0 \<and>
         pf_file target = OpenedFile (handle temp_mode [] room) \<and> components (pf_fullStorePath target) = plain_dir p @ init @ [t])"
proof -
  obtain full where full: "resolvePath env p (join_slash (init @ [t])) = Inr full" "components full = plain_dir p @ init @ [t]"
    using resolve_names [OF assms(1,2)] by auto
  have open_p: "\<not> pl_closed p" using assms(1) by (simp add: usual_plain_def)
  obtain d0 merr where mk: "os_MkdirAll d (plain_dir p @ init) = (d0, merr)" by fastforce
  note dirs = MkdirAll_new_dirs [OF assms(3) mk]
  have bl: "butlast (plain_dir p @ init @ [t]) = plain_dir p @ init" by (simp add: butlast_append)
  have "plain_OpenFile env room (Some p) d (join_slash (init @ [t])) temp_mode = (d', r)"
    using assms(4) by (simp add: plain_iface_def)
  then have "case merr of Some e \<Rightarrow> d' = d0 \<and> r = Inl (RootOsError ''mkdir'' e)
    | None \<Rightarrow> (case os_OpenFile room d0 (plain_dir p @ init @ [t]) temp_mode of
        (d2, Inl e) \<Rightarrow> d' = d2 \<and> r = Inl (RootOsError ''open'' e)
      | (d2, Inr f) \<Rightarrow> d' = d2 \<and> r = Inr \<lparr>pf_file = f, pf_relativePath = join_slash (init @ [t]), pf_fullStorePath = full\<rparr>)"
    by (cases merr)
      (simp_all add: plain_OpenFile_def open_p full bl mk temp_mode_def Let_def split: prod.splits sum.splits)
  then show ?thesis
    using dirs open_excl [of room d0 "plain_dir p @ init @ [t]"]
    by (intro exI [of _ d0]) (fastforce simp: bl full split: option.splits prod.splits sum.splits)
qed

subsection \<open>The exchange\<close>

lemma commit_copy_plain:
  assumes p: "usual_plain env p" and names: "\<forall>v \<in> set (init @ [l]). copy_name v" and t: "temp_name ''.copying'' t"
    and d: "disk_wf d" "os_lookup d (plain_dir p @ init) = Some NDir"
  defines "T \<equiv> plain_dir p @ init @ [t]" and "Q \<equiv> plain_dir p @ init @ [l]"
  assumes T: "os_lookup d T = Some (NFile data)" and ex: "ex \<Longrightarrow> t \<noteq> l \<and> os_lookup d Q = Some (NFile x)"
  shows "\<exists>d' rnd' err.
    commit_copy (plain_iface env room p) (join_slash (init @ [t])) (join_slash (init @ [l])) ex d rnd = (d', rnd', err) \<and>
    os_lookup d' = (if err = None then (os_lookup d)(T := None, Q \<mapsto> NFile data) else (os_lookup d)(T := None)) \<and>
    (err = None \<longrightarrow> ex \<or> t = l \<or> os_lookup d Q = None)"
proof -
  let ?P = "plain_iface env room p"
  have tn: "\<forall>v \<in> set (init @ [t]). copy_name v" using names temp_name_ok [OF t] by simp
  have up: "butlast (plain_dir p @ init @ [v]) = plain_dir p @ init" for v by (simp add: butlast_append)
  have del: "\<exists>d'. i_DeleteFile ?P d1 (join_slash (init @ [t])) = (d', None) \<and> os_lookup d' = (os_lookup d1)(T := None)"
    if "disk_wf d1" "os_lookup d1 T = Some (NFile data)" for d1
    using plain_delete_file [OF p tn _ that(1)] that(2) by (auto simp: T_def)
  obtain dd where dd: "i_DeleteFile ?P d (join_slash (init @ [t])) = (dd, None)" "os_lookup dd = (os_lookup d)(T := None)"
    using del [OF d(1) T] by blast
  show ?thesis
  proof (cases ex)
    case False
    consider (same) "t = l" | (free) "t \<noteq> l" "os_lookup d Q = None" | (taken) "t \<noteq> l" "os_lookup d Q \<noteq> None" by blast
    then show ?thesis
    proof cases
      case same
      then have "i_Rename ?P d (join_slash (init @ [t])) (join_slash (init @ [l])) = (d, None)"
        using p by (simp add: plain_iface_def plain_Rename_def usual_plain_def)
      with False same T show ?thesis by (auto simp: commit_copy_def T_def Q_def)
    next
      case free
      obtain d' where "i_Rename ?P d (join_slash (init @ [t])) (join_slash (init @ [l])) = (d', None)"
          "os_lookup d' = (os_lookup d)(T := None, Q \<mapsto> NFile data)"
        using plain_rename_file(1) [OF p tn _ names _ _ d(1) T [unfolded T_def], of room] d(2) free
        by (auto simp: T_def Q_def up)
      with False free show ?thesis by (simp add: commit_copy_def)
    next
      case taken
      with False plain_rename_file(2) [OF p tn _ names _ _ d(1) T [unfolded T_def], of room] d(2) dd show ?thesis
        by (auto simp: commit_copy_def T_def Q_def up)
    qed
  next
    case True
    obtain rnd' r where u: "uniqueCopyPath ?P d (join_slash (init @ [l])) ''.replaced'' rnd = (rnd', r)" by fastforce
    show ?thesis
    proof (cases r)
      case (Inl e)
      with True u dd show ?thesis by (auto simp: commit_copy_def)
    next
      case (Inr c)
      then obtain b where b: "temp_name ''.replaced'' b" "copy_name b" "c = join_slash (init @ [b])" "\<not> i_FileExists ?P d c"
        using unique_names [OF names] u by (force simp: uniqueCopyPath_def)
      have bn: "\<forall>v \<in> set (init @ [b]). copy_name v" using names b(2) by simp
      define B where "B = plain_dir p @ init @ [b]"
      have free: "os_lookup d B = None \<or> os_lookup d B = Some NSymlink"
        using b(4) plain_exists [OF p bn] by (auto simp: b(3) B_def)
      have neq: "b \<noteq> t" "b \<noteq> l" "t \<noteq> l"
        using temp_names_differ [OF t b(1)] ex [OF True] free by (auto simp: B_def Q_def)
      note exQ = conjunct2 [OF ex [OF True]]
      have keys: "B \<noteq> T" "B \<noteq> Q" "T \<noteq> Q" "plain_dir p @ init \<noteq> B" "plain_dir p @ init \<noteq> Q" "plain_dir p @ init \<noteq> T"
        using neq by (auto simp: B_def T_def Q_def)
      show ?thesis
      proof (cases "os_lookup d B = None")
        case False
        have "i_Rename ?P d (join_slash (init @ [l])) c = (d, Some ErrFileAlreadyExists)"
          unfolding b(3) by (rule plain_rename_file(2) [OF p names _ bn _ _ d(1) exQ [unfolded Q_def]])
            (use False neq d(2) in \<open>auto simp: B_def up\<close>)
        with True u Inr dd show ?thesis by (auto simp: commit_copy_def)
      next
        case none: True
        obtain d1 where d1: "i_Rename ?P d (join_slash (init @ [l])) c = (d1, None)"
            "os_lookup d1 = (os_lookup d)(Q := None, B \<mapsto> NFile x)" "disk_wf d1"
          using plain_rename_file(1) [OF p names _ bn _ _ d(1) exQ [unfolded Q_def], of room] none neq d(2)
          by (auto simp: B_def Q_def up b(3))
        have T1: "os_lookup d1 (plain_dir p @ init @ [t]) = Some (NFile data)" "os_lookup d1 (plain_dir p @ init) = Some NDir"
            "os_lookup d1 (plain_dir p @ init @ [l]) = None"
          using d1(2) T d(2) keys unfolding T_def Q_def by auto
        obtain d2 where d2: "i_Rename ?P d1 (join_slash (init @ [t])) (join_slash (init @ [l])) = (d2, None)"
            "os_lookup d2 = (os_lookup d1)(T := None, Q \<mapsto> NFile data)" "disk_wf d2"
          using plain_rename_file(1) [OF p tn _ names _ _ d1(3) T1(1), of room] T1 neq by (auto simp: T_def Q_def up)
        have "os_lookup d2 (plain_dir p @ init @ [b]) = Some (NFile x)"
          using d1(2) d2(2) keys unfolding B_def by auto
        then obtain d3 where d3: "i_DeleteFile ?P d2 c = (d3, None)" "os_lookup d3 = (os_lookup d2)(B := None)"
          using plain_delete_file [OF p bn _ d2(3), of x room] by (auto simp: B_def b(3))
        have "os_lookup d3 = (os_lookup d)(T := None, Q \<mapsto> NFile data)"
          using none keys by (auto simp: d3(2) d2(2) d1(2) fun_eq_iff)
        with True u Inr d1(1) d2(1) d3(1) show ?thesis by (auto simp: commit_copy_def)
      qed
    qed
  qed
qed

subsection \<open>A file\<close>

text \<open>All or nothing: with an error nothing but new directories above the destination is left.\<close>

definition copied :: "fpath \<Rightarrow> bytes \<Rightarrow> bool \<Rightarrow> disk \<Rightarrow> disk \<Rightarrow> copy_error option \<Rightarrow> bool" where
  "copied Q data ow d d' err \<longleftrightarrow> (\<exists>d0. new_dirs (butlast Q) d d0 \<and>
     os_lookup d' = (if err = None then (os_lookup d0)(Q \<mapsto> NFile data) else os_lookup d0)) \<and>
     (err = None \<longrightarrow> ow \<or> os_lookup d Q = None)"

lemma copied_error: "new_dirs (butlast Q) d d' \<Longrightarrow> copied Q data ow d d' (Some e)"
  by (auto simp: copied_def)

lemma check_file_plain:
  assumes "usual_plain env p" "\<forall>v \<in> set ws. copy_name v" "ws \<noteq> []"
    and "check_file_dst (plain_iface env room p) d (join_slash ws) ow = Inr ex"
  shows "if ex then ow \<and> (\<exists>x. os_lookup d (plain_dir p @ ws) = Some (NFile x))
    else os_lookup d (plain_dir p @ ws) = None \<or> os_lookup d (plain_dir p @ ws) = Some NSymlink"
  using assms(4)
  by (auto simp: check_file_dst_def plain_exists [OF assms(1-3)] plain_stat [OF assms(1-3)] os_Stat_def
      split: if_splits option.splits node.splits)

lemma new_dirs_other: "new_dirs p d d' \<Longrightarrow> \<not> prefix q p \<Longrightarrow> os_lookup d' q = os_lookup d q"
  by (auto simp: new_dirs_def)

text \<open>From the temporary file that is open to the end.\<close>

lemma finish_plain:
  assumes p: "usual_plain env p" and names: "\<forall>v \<in> set (init @ [l]). copy_name v" and t: "temp_name ''.copying'' t"
  defines "T \<equiv> plain_dir p @ init @ [t]" and "Q \<equiv> plain_dir p @ init @ [l]"
  assumes d0: "disk_wf d0" "os_lookup d0 (plain_dir p @ init) = Some NDir" "os_lookup d0 T = None"
    and d2: "disk_wf d2" "os_lookup d2 = (os_lookup d0)(T \<mapsto> NFile data)"
    and dirs: "new_dirs (plain_dir p @ init) d d0"
    and ex: "if ex then ow \<and> (\<exists>x. os_lookup d Q = Some (NFile x)) else os_lookup d Q = None \<or> os_lookup d Q = Some NSymlink"
  shows "\<exists>d' rnd' err.
    commit_copy (plain_iface env room p) (join_slash (init @ [t])) (join_slash (init @ [l])) ex d2 rnd = (d', rnd', err) \<and>
    copied Q data ow d d' err"
proof -
  have Qd: "os_lookup d0 Q = os_lookup d Q"
    by (rule new_dirs_other [OF dirs]) (auto simp: Q_def prefix_def)
  have keys: "T \<noteq> plain_dir p @ init" "T = Q \<longleftrightarrow> t = l" by (simp_all add: T_def Q_def)
  obtain x where x: "ex \<Longrightarrow> t \<noteq> l \<and> os_lookup d2 Q = Some (NFile x)"
    using ex Qd d0(3) keys d2(2) by (cases ex) auto
  have "os_lookup d2 (plain_dir p @ init) = Some NDir" "os_lookup d2 T = Some (NFile data)"
    using d2(2) d0(2) keys by simp_all
  then obtain d' rnd' err where c:
      "commit_copy (plain_iface env room p) (join_slash (init @ [t])) (join_slash (init @ [l])) ex d2 rnd = (d', rnd', err)"
      "os_lookup d' = (if err = None then (os_lookup d2)(T := None, Q \<mapsto> NFile data) else (os_lookup d2)(T := None))"
      "err = None \<longrightarrow> ex \<or> t = l \<or> os_lookup d2 Q = None"
    using commit_copy_plain [where room = room and rnd = rnd and data = data, OF p names t d2(1) _ _ x [unfolded Q_def]]
    unfolding T_def Q_def by blast
  have "os_lookup d' = (if err = None then (os_lookup d0)(Q \<mapsto> NFile data) else os_lookup d0)"
    using c(2) d2(2) d0(3) by (auto simp: fun_eq_iff)
  moreover have "err = None \<longrightarrow> ow \<or> os_lookup d Q = None"
    using c(3) ex Qd d0(3) d2(2) keys by (auto split: if_splits)
  moreover have "butlast Q = plain_dir p @ init" by (simp add: Q_def butlast_append)
  ultimately show ?thesis using c(1) dirs by (auto simp: copied_def)
qed

lemma open_source_plain:
  assumes "usual_plain env p" "\<forall>v \<in> set us. copy_name v" "us \<noteq> []" "os_lookup d (plain_dir p @ us) = Some (NFile data)"
  shows "\<exists>source. i_OpenFile (plain_iface env room p) d (join_slash us) read_mode = (d, Inr source) \<and>
    pf_file source = OpenedFile (handle read_mode data room)"
  using resolve_names [OF assms(1-3)] assms(1,4)
  by (auto simp: plain_iface_def plain_OpenFile_def usual_plain_def read_mode_def os_OpenFile_def Let_def)

lemma parent_plain:
  assumes p: "usual_plain env p" and names: "\<forall>v \<in> set (init @ [l]). copy_name v" and d: "disk_wf d"
  defines "parent \<equiv> path_Dir (join_slash (init @ [l]))"
  assumes mk: "(if parent \<noteq> ''.'' \<and> parent \<noteq> [] then i_MkdirAll (plain_iface env room p) d parent else (d, None)) = (dm, merr)"
  shows "disk_wf dm \<and> new_dirs (plain_dir p @ init) d dm"
proof (cases "init = []")
  case True
  then show ?thesis using mk d path_Dir_names [OF copy_plain [OF names]] by (simp add: parent_def)
next
  case False
  have i: "\<forall>v \<in> set init. copy_name v" using names by simp
  obtain dd e where dd: "os_MkdirAll d (plain_dir p @ init) = (dd, e)" by fastforce
  have "dm = dd \<or> dm = d"
    using mk False path_Dir_names [OF copy_plain [OF names]] plain_mkdir [OF p i False] dd
    by (auto simp: parent_def split: if_splits)
  then show ?thesis using MkdirAll_new_dirs [OF d dd] d by auto
qed

lemma store_temp_plain:
  assumes d: "disk_wf d" "T \<noteq> []" "os_lookup d (butlast T) = Some NDir" "os_lookup d T = None"
    and source: "pf_file source = OpenedFile (handle read_mode data room1)"
    and target: "pf_file target = OpenedFile (handle temp_mode [] room2)" "components (pf_fullStorePath target) = T"
  shows "\<exists>t1 t2 cerr x. io_Copy (plain_iface env room1 p1) (plain_iface env room2 p2) source target = Some (t1, cerr) \<and>
    f_Close (plain_iface env room2 p2) t1 = (t2, None) \<and>
    disk_wf (f_store (plain_iface env room2 p2) t2 (AList.update T (NFile []) d)) \<and>
    os_lookup (f_store (plain_iface env room2 p2) t2 (AList.update T (NFile []) d)) = (os_lookup d)(T \<mapsto> NFile x) \<and>
    (cerr = None \<longrightarrow> x = data)"
proof -
  obtain g cerr where g: "io_Copy (plain_iface env room1 p1) (plain_iface env room2 p2) source target =
      Some (target\<lparr>pf_file := OpenedFile g\<rparr>, cerr)" "fopen g" "cerr = None \<longrightarrow> fdata g = data"
  proof -
    have "\<exists>g cerr. io_Copy (plain_iface env room1 p1) (plain_iface env room2 p2) source target =
        Some (target\<lparr>pf_file := OpenedFile g\<rparr>, cerr) \<and> fopen g \<and> (cerr = None \<longrightarrow> fdata g = data)"
      by (rule io_Copy_plain [OF source, of 0, OF _ _ _ _ _ target(1)]) (simp_all add: handle_def read_mode_def temp_mode_def)
    then show ?thesis using that by blast
  qed
  define t2 where "t2 = target\<lparr>pf_file := OpenedFile (g\<lparr>fopen := False\<rparr>)\<rparr>"
  have "f_Close (plain_iface env room2 p2) (target\<lparr>pf_file := OpenedFile g\<rparr>) = (t2, None)"
    using g(2) by (simp add: plain_iface_def plainFile_Close_def os_close_def t2_def)
  moreover have "f_store (plain_iface env room2 p2) t2 (AList.update T (NFile []) d) =
      AList.update T (NFile (fdata g)) (AList.update T (NFile []) d)"
    by (simp add: plain_iface_def plain_store_def target(2) t2_def)
  moreover have one: "os_lookup (AList.update T (NFile []) d) = (os_lookup d)(T \<mapsto> NFile [])" "disk_wf (AList.update T (NFile []) d)"
    using update_file [OF d(1-3)] d(4) by simp_all
  have "butlast T \<noteq> T" using d(3,4) by auto
  then have "os_lookup (AList.update T (NFile (fdata g)) (AList.update T (NFile []) d)) = (os_lookup d)(T \<mapsto> NFile (fdata g))"
      "disk_wf (AList.update T (NFile (fdata g)) (AList.update T (NFile []) d))"
    using update_file [OF one(2) d(2)] one(1) d(3) by simp_all
  ultimately show ?thesis using g by metis
qed

lemma copyFileEntry_plain:
  assumes p1: "usual_plain env p1" "\<forall>v \<in> set us. copy_name v" "us \<noteq> []"
    and p2: "usual_plain env p2" and names: "\<forall>v \<in> set (init @ [l]). copy_name v"
    and d: "disk_wf d" "os_lookup d (plain_dir p1 @ us) = Some (NFile data)"
  shows "\<exists>d' rnd' err.
    copyFileEntry (plain_iface env room1 p1) (join_slash us) (plain_iface env room2 p2) (join_slash (init @ [l])) ow d rnd =
      Some (d', rnd', err) \<and> copied (plain_dir p2 @ init @ [l]) data ow d d' err"
proof -
  let ?P1 = "plain_iface env room1 p1" and ?P2 = "plain_iface env room2 p2" and ?dst = "join_slash (init @ [l])"
  let ?Q = "plain_dir p2 @ init @ [l]"
  have up: "butlast ?Q = plain_dir p2 @ init" by (simp add: butlast_append)
  note copied_error = copied_error [of ?Q, unfolded up]
  show ?thesis
  proof (cases "check_file_dst ?P2 d ?dst ow")
    case (Inl e)
    then show ?thesis using copied_error [OF new_dirs_refl] by (auto simp: copyFileEntry_def)
  next
    case check: (Inr ex)
    note ex = check_file_plain [OF p2 names _ check, simplified]
    obtain source where opened: "i_OpenFile ?P1 d (join_slash us) read_mode = (d, Inr source)"
        "pf_file source = OpenedFile (handle read_mode data room1)"
      using open_source_plain [OF p1 d(2)] by blast
    obtain dm merr where mk: "(if path_Dir ?dst \<noteq> ''.'' \<and> path_Dir ?dst \<noteq> [] then i_MkdirAll ?P2 d (path_Dir ?dst) else (d, None)) = (dm, merr)"
      by fastforce
    note dm = parent_plain [OF p2 names d(1) mk]
    show ?thesis
    proof (cases merr)
      case (Some e)
      then show ?thesis
        using check opened mk dm copied_error by (auto simp: copyFileEntry_def Let_def)
    next
      case None
      note upto = check opened(1) mk [unfolded None]
      obtain rnd1 r where u: "uniqueCopyPath ?P2 dm ?dst ''.copying'' rnd = (rnd1, r)" by fastforce
      show ?thesis
      proof (cases r)
        case (Inl e)
        then show ?thesis
          using upto u dm copied_error by (auto simp: copyFileEntry_def Let_def)
      next
        case (Inr c)
        then obtain t where t: "temp_name ''.copying'' t" "copy_name t" "c = join_slash (init @ [t])"
          using unique_names [OF names] u by (force simp: uniqueCopyPath_def)
        have tn: "\<forall>v \<in> set (init @ [t]). copy_name v" using names t(2) by simp
        let ?T = "plain_dir p2 @ init @ [t]"
        obtain d1 o1 where o1: "i_OpenFile ?P2 dm c temp_mode = (d1, o1)" by fastforce
        from plain_open_temp [OF p2 tn conjunct1 [OF dm] o1 [unfolded t(3)]]
        obtain d0 where d0: "disk_wf d0" "new_dirs (plain_dir p2 @ init) dm d0"
          and r: "case o1 of Inl e \<Rightarrow> d1 = d0
            | Inr target \<Rightarrow> os_lookup d0 (plain_dir p2 @ init) = Some NDir \<and> os_lookup d0 ?T = None \<and>
                d1 = AList.update ?T (NFile []) d0 \<and>
                pf_file target = OpenedFile (handle temp_mode [] room2) \<and> components (pf_fullStorePath target) = ?T"
          by blast
        note dirs = new_dirs_trans [OF conjunct2 [OF dm] d0(2)]
        show ?thesis
        proof (cases o1)
          case (Inl e)
          then show ?thesis
            using upto u \<open>r = Inr c\<close> o1 r copied_error [OF dirs] by (auto simp: copyFileEntry_def Let_def)
        next
          case target: (Inr target)
          from r target have up0: "os_lookup d0 (plain_dir p2 @ init) = Some NDir" "os_lookup d0 ?T = None"
            and d1: "d1 = AList.update ?T (NFile []) d0"
            and tgt: "pf_file target = OpenedFile (handle temp_mode [] room2)" "components (pf_fullStorePath target) = ?T"
            by simp_all
          have tup: "?T \<noteq> []" "os_lookup d0 (butlast ?T) = Some NDir" using up0 by (simp_all add: butlast_append)
          from store_temp_plain [OF d0(1) tup up0(2) opened(2) tgt, of env p1 p2]
          obtain t1 t2 cerr x where io: "io_Copy ?P1 ?P2 source target = Some (t1, cerr)" "f_Close ?P2 t1 = (t2, None)"
            and d2: "disk_wf (f_store ?P2 t2 d1)" "os_lookup (f_store ?P2 t2 d1) = (os_lookup d0)(?T \<mapsto> NFile x)"
            and x: "cerr = None \<longrightarrow> x = data"
            unfolding d1 by blast
          note upto = upto u Inr o1 target io
          show ?thesis
          proof (cases cerr)
            case (Some e)
            obtain d3 where d3: "i_DeleteFile ?P2 (f_store ?P2 t2 d1) c = (d3, None)" "os_lookup d3 = (os_lookup d0)(?T := None)"
              using plain_delete_file [OF p2 tn _ d2(1), of x room2] d2(2) by (auto simp: t(3))
            have "os_lookup d3 = os_lookup d0" using d3(2) up0(2) by auto
            then have "copied ?Q data ow d d3 (Some e)" using dirs by (auto simp: copied_def up)
            with upto Some d3(1) show ?thesis by (simp add: copyFileEntry_def Let_def)
          next
            case none: None
            from finish_plain [OF p2 names t(1) d0(1) up0 d2(1) _ dirs ex, of data room2 rnd1] d2(2) x none
            show ?thesis using upto none by (auto simp: copyFileEntry_def Let_def t(3))
          qed
        qed
      qed
    qed
  qed
qed

subsection \<open>The whole operation\<close>

lemma cleanCopyPath_names:
  assumes "\<forall>v \<in> set vs. copy_name v" "vs \<noteq> []"
  shows "cleanCopyPath (join_slash vs) = Inr (join_slash vs)"
proof -
  note plain = copy_plain [OF assms(1)]
  have chars: "c \<noteq> backslash" if "c \<in> set (join_slash ws)" "\<forall>v \<in> set ws. plain_name v" for c ws
    using that by (induction ws rule: join_slash.induct) (auto simp: plain_name_def no_sep_def is_sep_def)
  have "map (\<lambda>c. if c = backslash then slash else c) (join_slash vs) = join_slash vs"
    by (rule map_idI) (use chars [OF _ plain] in auto)
  moreover have "join_slash vs \<noteq> ''.'' \<and> join_slash vs \<noteq> ''..''"
  proof -
    have "components ''.'' = [''.'']" "components ''..'' = [''..'']" by (simp_all add: components_def)
    with components_join [OF plain] plain show ?thesis by (metis list.set_intros(1) plain_name_def)
  qed
  moreover have "take 3 (join_slash vs) \<noteq> ''../''"
  proof
    assume "take 3 (join_slash vs) = ''../''"
    then have "join_slash vs = ''..'' @ slash # drop 3 (join_slash vs)"
      using append_take_drop_id [of 3 "join_slash vs"] by simp
    then obtain r where "join_slash vs = ''..'' @ slash # r" by blast
    then have "components (''..'' @ slash # r) = vs" using components_join [OF plain] by simp
    moreover have "''..'' \<in> set (components (''..'' @ slash # r))" by (simp add: components_def)
    ultimately have "''..'' \<in> set vs" by simp
    with plain show False by (auto simp: plain_name_def)
  qed
  ultimately show ?thesis
    using filepath_Clean_plain [OF plain assms(2)] join_slash_ne [OF plain assms(2)]
    by (simp add: cleanCopyPath_def Let_def)
qed

lemma copied_names:
  assumes "copied Q data ow d d' err"
  shows "err = None \<Longrightarrow> os_lookup d' Q = Some (NFile data) \<and> (ow \<or> os_lookup d Q = None)"
    and "err = None \<and> q = Q \<or> os_lookup d' q = os_lookup d q \<or>
      prefix q (butlast Q) \<and> os_lookup d q = None \<and> os_lookup d' q = Some NDir"
  using assms by (auto simp: copied_def new_dirs_def split: if_splits)

text \<open>C39 (safety): copying a file between plain roots always returns and is all or nothing, whatever
  the random names, the room on the disk and the state of the destination. Without an error the
  destination holds exactly the bytes of the source, and it was free or the caller asked to
  overwrite it. With an error it is as it was. No other name of the disk changes, so that no temporary
  file and no saved copy is left, but for directories above the destination that did not exist.
\<close>

theorem CopyEntry_file_all_or_nothing:
  assumes "usual_plain env p1" "usual_plain env p2" "disk_wf d"
    and "us \<noteq> []" "\<forall>v \<in> set us. copy_name v" "vs \<noteq> []" "\<forall>v \<in> set vs. copy_name v"
    and "os_lookup d (plain_dir p1 @ us) = Some (NFile data)"
  shows "\<exists>d' rnd' err.
    CopyEntry (Some (plain_iface env room1 p1)) (join_slash us) (Some (plain_iface env room2 p2)) (join_slash vs) ow d rnd =
      Some (d', rnd', err) \<and>
    (err = None \<longrightarrow> os_lookup d' (plain_dir p2 @ vs) = Some (NFile data) \<and>
       (ow \<or> os_lookup d (plain_dir p2 @ vs) = None)) \<and>
    (\<forall>q. err = None \<and> q = plain_dir p2 @ vs \<or> os_lookup d' q = os_lookup d q \<or>
       prefix q (butlast (plain_dir p2 @ vs)) \<and> os_lookup d q = None \<and> os_lookup d' q = Some NDir)"
proof -
  let ?P1 = "plain_iface env room1 p1" and ?P2 = "plain_iface env room2 p2"
  obtain init l where vs: "vs = init @ [l]" using assms(6) by (cases vs rule: rev_cases) auto
  have ne: "join_slash us \<noteq> []" "join_slash vs \<noteq> []"
    using join_slash_ne copy_plain assms(4-7) by blast+
  have stat: "i_Stat ?P1 d (join_slash us) = Inr (NFile data)"
    using plain_stat [OF assms(1,5,4)] assms(8) by (simp add: os_Stat_def)
  have entry: "CopyEntry (Some ?P1) (join_slash us) (Some ?P2) (join_slash vs) ow d rnd =
      (if i_GetRootPath ?P1 = i_GetRootPath ?P2 \<and> join_slash us = join_slash vs then Some (d, rnd, Some (CopyExists (join_slash vs)))
       else if i_GetRootPath ?P1 = i_GetRootPath ?P2 \<and> isPathWithin (join_slash vs) (join_slash us)
       then Some (d, rnd, Some (CopyInside (join_slash vs) (join_slash us)))
       else case i_Stat ?P1 d (join_slash us) of Inl e \<Rightarrow> Some (d, rnd, Some (CopyRoot ''stat'' e))
         | Inr n \<Rightarrow> if n = NDir then copyDirectoryEntry ?P1 (join_slash us) ?P2 (join_slash vs) ow d rnd
             else copyFileEntry ?P1 (join_slash us) ?P2 (join_slash vs) ow d rnd)"
    using ne cleanCopyPath_names assms(4-7) by (simp add: CopyEntry_def Let_def)
  obtain d' rnd' err where "CopyEntry (Some ?P1) (join_slash us) (Some ?P2) (join_slash vs) ow d rnd = Some (d', rnd', err)"
      "copied (plain_dir p2 @ vs) data ow d d' err"
  proof (cases "i_GetRootPath ?P1 = i_GetRootPath ?P2 \<and> (join_slash us = join_slash vs \<or> isPathWithin (join_slash vs) (join_slash us))")
    case True
    then obtain e where "CopyEntry (Some ?P1) (join_slash us) (Some ?P2) (join_slash vs) ow d rnd = Some (d, rnd, Some e)"
      unfolding entry by (cases "join_slash us = join_slash vs") auto
    then show ?thesis by (rule that) (rule copied_error [OF new_dirs_refl])
  next
    case False
    then have "CopyEntry (Some ?P1) (join_slash us) (Some ?P2) (join_slash vs) ow d rnd =
        copyFileEntry ?P1 (join_slash us) ?P2 (join_slash vs) ow d rnd"
      unfolding entry using stat by auto
    then show ?thesis
      using that copyFileEntry_plain [OF assms(1,5,4,2) assms(7) [unfolded vs] assms(3,8), of room1 room2 ow rnd]
      by (auto simp: vs)
  qed
  then show ?thesis using copied_names [of "plain_dir p2 @ vs" data ow d d' err] by blast
qed

definition copy_disk :: disk where
  "copy_disk = [([''data''], NDir), ([''data'', ''a''], NFile [1, 2])]"

definition copy_root :: "plainFile ISecRoot" where
  "copy_root = plain_iface start_env 9 sample_plain"

definition copy_source :: plainFile where
  "copy_source = \<lparr>pf_file = OpenedFile (handle read_mode [1, 2] 9), pf_relativePath = ''a'', pf_fullStorePath = ''/data/a''\<rparr>"

definition copy_target :: "bytes \<Rightarrow> nat \<Rightarrow> bool \<Rightarrow> plainFile" where
  "copy_target b n op = \<lparr>pf_file = OpenedFile ((handle temp_mode b 9)\<lparr>foff := int n, fopen := op\<rparr>),
     pf_relativePath = ''b/.safe_disk.copying.07'', pf_fullStorePath = ''/data/b/.safe_disk.copying.07''\<rparr>"

lemma copy_content:
  "io_Copy copy_root copy_root copy_source (copy_target [] 0 True) = Some (copy_target [1, 2] 2 True, None)"
proof -
  let ?s = "copy_source\<lparr>pf_file := OpenedFile ((handle read_mode [1, 2] 9)\<lparr>foff := 2\<rparr>)\<rparr>"
  note [simp] = copy_root_def copy_source_def copy_target_def plain_iface_def plain_read_def plain_write_def
    os_read_def os_write_def os_store_def os_fits_def overwrite_def handle_def read_mode_def temp_mode_def Let_def
  have "io_Copy copy_root copy_root ?s (copy_target [1, 2] 2 True) = Some (copy_target [1, 2] 2 True, None)"
    by (subst io_Copy.simps) simp
  then show ?thesis by (subst io_Copy.simps) simp
qed

lemma copy_steps:
  "cleanCopyPath ''a'' = Inr ''a''" "cleanCopyPath ''b/c'' = Inr ''b/c''"
  "i_Stat copy_root copy_disk ''a'' = Inr (NFile [1, 2])"
  "check_file_dst copy_root copy_disk ''b/c'' False = Inr False"
  "i_OpenFile copy_root copy_disk ''a'' read_mode = (copy_disk, Inr copy_source)"
  "path_Dir ''b/c'' = ''b''"
  "i_MkdirAll copy_root copy_disk ''b'' = (copy_disk @ [([''data'', ''b''], NDir)], None)"
  "uniqueCopyPath copy_root (copy_disk @ [([''data'', ''b''], NDir)]) ''b/c'' ''.copying'' [[7]] = ([], Inr ''b/.safe_disk.copying.07'')"
  "i_OpenFile copy_root (copy_disk @ [([''data'', ''b''], NDir)]) ''b/.safe_disk.copying.07'' temp_mode =
    (copy_disk @ [([''data'', ''b''], NDir), ([''data'', ''b'', ''.safe_disk.copying.07''], NFile [])], Inr (copy_target [] 0 True))"
  "f_Close copy_root (copy_target [1, 2] 2 True) = (copy_target [1, 2] 2 False, None)"
  "snd (snd (commit_copy copy_root ''b/.safe_disk.copying.07'' ''b/c'' False
     (f_store copy_root (copy_target [1, 2] 2 False)
       (copy_disk @ [([''data'', ''b''], NDir), ([''data'', ''b'', ''.safe_disk.copying.07''], NFile [])])) [])) = None"
  by code_simp+

lemma copy_run: "map_option (snd \<circ> snd) (CopyEntry (Some copy_root) ''a'' (Some copy_root) ''b/c'' False copy_disk [[7]]) = Some None"
  by (simp add: CopyEntry_def copyFileEntry_def isPathWithin_def copy_steps copy_content Let_def)

lemma CopyEntry_file_all_or_nothing_witness:
  "\<exists>d' rnd'. CopyEntry (Some copy_root) ''a'' (Some copy_root) ''b/c'' False copy_disk [[7]] = Some (d', rnd', None) \<and>
    os_lookup d' [''data'', ''b'', ''c''] = Some (NFile [1, 2])"
proof -
  have p: "usual_plain start_env sample_plain" "plain_dir sample_plain = [''data'']" by code_simp+
  have n: "\<forall>v \<in> set [''a'']. copy_name v" "\<forall>v \<in> set [''b'', ''c'']. copy_name v"
    by (simp_all add: copy_name_def plain_name_def no_sep_def is_sep_def)
  have wf: "disk_wf copy_disk" "os_lookup copy_disk (plain_dir sample_plain @ [''a'']) = Some (NFile [1, 2])"
    by (auto simp: copy_disk_def disk_wf_def os_lookup_def p)
  from CopyEntry_file_all_or_nothing [OF p(1) p(1) wf(1) _ n(1) _ n(2) wf(2), of 9 9 False "[[7]]"]
  show ?thesis using copy_run by (fastforce simp: p copy_root_def)
qed

end
