(* ===== verification/GoGlob.thy ===== *)
theory GoGlob
  imports PlainRoot
begin

text \<open>
  Shell patterns of package path/filepath, as the recovery of a conversion and the ignore rules use
  them: \<^verbatim>\<open>filepath.Match\<close> and \<^verbatim>\<open>filepath.Glob\<close> on a system with the slash. A pattern is parsed into
  tokens first; a malformed pattern is an error (\<open>None\<close>). Characters are bytes: a question mark or a
  class takes one byte.
\<close>

subsection \<open>Match\<close>

datatype glob_tok = GStar | GAny | GChar char | GClass bool "(char \<times> char) list"

abbreviation glob_caret :: char where "glob_caret \<equiv> CHR ''^''"
abbreviation glob_minus :: char where "glob_minus \<equiv> CHR ''-''"
abbreviation glob_open :: char where "glob_open \<equiv> CHR 0x5B"
abbreviation glob_close :: char where "glob_close \<equiv> CHR 0x5D"

fun getEsc :: "string \<Rightarrow> (char \<times> string) option" where
  "getEsc [] = None"
| "getEsc (c # s) =
    (if c = glob_minus \<or> c = glob_close then None
     else case (if c = backslash then s else c # s) of [] \<Rightarrow> None
       | r # t \<Rightarrow> if t = [] then None else Some (r, t))"

lemma getEsc_shorter: "getEsc s = Some (r, t) \<Longrightarrow> length t < length s"
  by (cases s) (auto split: if_splits list.splits)

text \<open>The ranges of a class up to the bracket that closes it; the bracket cannot come first.\<close>

function class_ranges :: "bool \<Rightarrow> string \<Rightarrow> ((char \<times> char) list \<times> string) option" where
  "class_ranges first s =
    (if \<not> first \<and> s \<noteq> [] \<and> hd s = glob_close then Some ([], tl s)
     else case getEsc s of None \<Rightarrow> None
     | Some (lo, t) \<Rightarrow>
       if hd t = glob_minus then
         (case getEsc (tl t) of None \<Rightarrow> None
          | Some (hi, u) \<Rightarrow> map_option (map_prod (Cons (lo, hi)) id) (class_ranges False u))
       else map_option (map_prod (Cons (lo, lo)) id) (class_ranges False t))"
  by pat_completeness auto
termination
  by (relation "measure (\<lambda>(first, s). length s)") (fastforce dest: getEsc_shorter)+

declare class_ranges.simps [simp del]

lemma class_ranges_shorter: "class_ranges first s = Some (rs, t) \<Longrightarrow> length t < length s"
proof (induction first s arbitrary: rs t rule: class_ranges.induct)
  case (1 first s)
  show ?case
  proof (cases "\<not> first \<and> s \<noteq> [] \<and> hd s = glob_close")
    case True
    then show ?thesis using 1(3) by (subst (asm) class_ranges.simps) (cases s; auto)
  next
    case False
    then obtain lo u where u: "getEsc s = Some (lo, u)"
      using 1(3) by (subst (asm) class_ranges.simps) (auto split: option.splits)
    note l = getEsc_shorter [OF u]
    show ?thesis
    proof (cases "hd u = glob_minus")
      case True
      then obtain hi v rs' where v: "getEsc (tl u) = Some (hi, v)" "class_ranges False v = Some (rs', t)"
        using 1(3) u False by (subst (asm) class_ranges.simps) (auto split: option.splits if_splits)
      from 1(1) [OF False u refl True v(1) refl v(2)] getEsc_shorter [OF v(1)] l show ?thesis by simp
    next
      case nm: False
      then obtain rs' where v: "class_ranges False u = Some (rs', t)"
        using 1(3) u False by (subst (asm) class_ranges.simps) (auto split: option.splits if_splits)
      from 1(2) [OF False u refl nm v] l show ?thesis by simp
    qed
  qed
qed

definition class_tail :: "string \<Rightarrow> (bool \<times> (char \<times> char) list \<times> string) option" where
  "class_tail s =
    (if s \<noteq> [] \<and> hd s = glob_caret then map_option (Pair True) (class_ranges True (tl s))
     else map_option (Pair False) (class_ranges True s))"

lemma class_tail_shorter: "class_tail s = Some (neg, rs, t) \<Longrightarrow> length t < length s"
  by (cases s) (auto simp: class_tail_def split: if_splits dest: class_ranges_shorter)

function glob_parse :: "string \<Rightarrow> glob_tok list option" where
  "glob_parse [] = Some []"
| "glob_parse (c # s) =
    (if c = CHR ''*'' then map_option (Cons GStar) (glob_parse s)
     else if c = CHR 0x3F then map_option (Cons GAny) (glob_parse s)
     else if c = glob_open then
       (case class_tail s of None \<Rightarrow> None
        | Some (neg, rs, t) \<Rightarrow> map_option (Cons (GClass neg rs)) (glob_parse t))
     else if c = backslash then
       (case s of [] \<Rightarrow> None | e # t \<Rightarrow> map_option (Cons (GChar e)) (glob_parse t))
     else map_option (Cons (GChar c)) (glob_parse s))"
  by pat_completeness auto
termination
  by (relation "measure length") (auto dest: class_tail_shorter)

fun glob_match :: "glob_tok list \<Rightarrow> string \<Rightarrow> bool" where
  "glob_match [] s = (s = [])"
| "glob_match (GStar # ts) [] = glob_match ts []"
| "glob_match (GStar # ts) (c # s) = (glob_match ts (c # s) \<or> c \<noteq> slash \<and> glob_match (GStar # ts) s)"
| "glob_match (t # ts) [] = False"
| "glob_match (GAny # ts) (c # s) = (c \<noteq> slash \<and> glob_match ts s)"
| "glob_match (GChar e # ts) (c # s) = (c = e \<and> glob_match ts s)"
| "glob_match (GClass neg rs # ts) (c # s) =
    ((\<exists>(lo, hi) \<in> set rs. (of_char lo :: nat) \<le> of_char c \<and> (of_char c :: nat) \<le> of_char hi) \<noteq> neg \<and> glob_match ts s)"

definition filepath_Match :: "string \<Rightarrow> string \<Rightarrow> bool option" where
  "filepath_Match pattern name = map_option (\<lambda>ts. glob_match ts name) (glob_parse pattern)"

subsection \<open>Glob\<close>

definition is_meta :: "char \<Rightarrow> bool" where
  "is_meta c \<longleftrightarrow> c = CHR ''*'' \<or> c = CHR 0x3F \<or> c = glob_open \<or> c = backslash"

definition hasMeta :: "string \<Rightarrow> bool" where
  "hasMeta p \<longleftrightarrow> list_ex is_meta p"

definition split_dir :: "string \<Rightarrow> string" where
  "split_dir p = rev (dropWhile (\<lambda>c. c \<noteq> slash) (rev p))"

definition split_file :: "string \<Rightarrow> string" where
  "split_file p = rev (takeWhile (\<lambda>c. c \<noteq> slash) (rev p))"

definition cleanGlobPath :: "string \<Rightarrow> string" where
  "cleanGlobPath p = (if p = [] then ''.'' else if p = [slash] then p else butlast p)"

lemma split_dir_length: "length (split_dir p) \<le> length p"
  using length_dropWhile_le [of _ "rev p"] by (simp add: split_dir_def)

text \<open>The matching names of one directory. A directory that cannot be read has none.\<close>

definition glob_names :: "disk \<Rightarrow> string \<Rightarrow> string list" where
  "glob_names d dir =
    (case os_Stat d (components dir) of Inr NDir \<Rightarrow> sort (map fst (dir_children d (components dir))) | _ \<Rightarrow> [])"

definition glob_dir :: "disk \<Rightarrow> string \<Rightarrow> string \<Rightarrow> string list option" where
  "glob_dir d pattern dir =
    (let ns = glob_names d dir in
     if list_ex (\<lambda>n. filepath_Match pattern n = None) ns then None
     else Some (map (filepath_Join dir) (filter (\<lambda>n. filepath_Match pattern n = Some True) ns)))"

fun glob_dirs :: "disk \<Rightarrow> string \<Rightarrow> string list \<Rightarrow> string list option" where
  "glob_dirs d pattern [] = Some []"
| "glob_dirs d pattern (dir # dirs) =
    (case glob_dir d pattern dir of None \<Rightarrow> None
     | Some ms \<Rightarrow> map_option (append ms) (glob_dirs d pattern dirs))"

function filepath_Glob :: "disk \<Rightarrow> string \<Rightarrow> string list option" where
  "filepath_Glob d pattern =
    (if filepath_Match pattern [] = None then None
     else if \<not> hasMeta pattern then Some (case os_Lstat d (components pattern) of Inl _ \<Rightarrow> [] | Inr _ \<Rightarrow> [pattern])
     else let dir = cleanGlobPath (split_dir pattern); file = split_file pattern in
       if \<not> hasMeta dir then glob_dir d file dir
       else if dir = pattern then None
       else (case filepath_Glob d dir of None \<Rightarrow> None | Some ms \<Rightarrow> glob_dirs d file ms))"
  by pat_completeness auto
termination
proof (relation "measure (\<lambda>(d, p). length p)")
  fix d :: disk and pattern x xa
  assume a: "\<not> \<not> hasMeta pattern" "x = cleanGlobPath (split_dir pattern)" "\<not> \<not> hasMeta x"
  have "split_dir pattern \<noteq> [] \<and> split_dir pattern \<noteq> [slash]"
    using a(2,3) by (auto simp: cleanGlobPath_def hasMeta_def is_meta_def)
  then have "length x < length (split_dir pattern)"
    using a(2) by (simp add: cleanGlobPath_def)
  with split_dir_length [of pattern] show "((d, x), (d, pattern)) \<in> measure (\<lambda>(d, p). length p)" by simp
qed simp

declare filepath_Glob.simps [simp del]

subsection \<open>Patterns of literal characters and one star\<close>

lemma parse_literal:
  assumes "\<not> hasMeta p"
  shows "glob_parse (p @ s) = map_option (append (map GChar p)) (glob_parse s)"
  using assms by (induction p; cases "glob_parse s") (auto simp: hasMeta_def is_meta_def)

lemma match_star: "slash \<notin> set s \<Longrightarrow> glob_match [GStar] s"
  by (induction s) auto

lemma match_literal_star: "slash \<notin> set n \<Longrightarrow> glob_match (map GChar p @ [GStar]) n \<longleftrightarrow> prefix p n"
proof (induction p arbitrary: n)
  case Nil
  then show ?case by (simp add: match_star)
next
  case (Cons c p)
  then show ?case by (cases n) auto
qed

lemma Match_prefix_star:
  assumes "\<not> hasMeta p" "slash \<notin> set n"
  shows "filepath_Match (p @ ''*'') n = Some (prefix p n)"
  using parse_literal [OF assms(1), of "''*''"] match_literal_star [OF assms(2), of p] by (simp add: filepath_Match_def)

end
