(* ===== verification/TransferDisk.thy ===== *)
theory TransferDisk
  imports CopyEntry CopyProps "HOL-Library.State_Monad"
begin

text \<open>
  The disk below the transfer operations, for src/native/sec_fs/sec_transfer/v3: durability.go and
  marker.go. The operations are programs of the state monad over the disk. The state has every disk
  there was since the start, so a crash is one of them, and the faults to come: a call of package os
  that is given a fault fails, after having done the part the fault says. The programs return the
  error of the Go function, \<open>None\<close> for nil.
\<close>

subsection \<open>Programs\<close>

datatype call_error = OsError os_error | Faulted

record io_state =
  dsk :: disk
  seen :: "disk list"
  faults :: "nat option list"
  clock :: nat

type_synonym 'a io = "(io_state, 'a) state"

definition io_return :: "'a \<Rightarrow> 'a io" where
  "io_return a = State (\<lambda>s. (a, s))"

text \<open>A call that changes the disk: what is done of it by a fault, and what it does.\<close>

definition os_call :: "(nat \<Rightarrow> disk \<Rightarrow> disk) \<Rightarrow> (disk \<Rightarrow> disk \<times> os_error option) \<Rightarrow> call_error option io" where
  "os_call part f = State (\<lambda>s.
    case faults s of
      Some n # fs \<Rightarrow> (let d = part n (dsk s) in (Some Faulted, s\<lparr>dsk := d, seen := d # seen s, faults := fs\<rparr>))
    | fs \<Rightarrow> (case f (dsk s) of (d, e) \<Rightarrow>
        (map_option OsError e, s\<lparr>dsk := d, seen := d # seen s, faults := tl fs\<rparr>)))"

text \<open>A call that only reads.\<close>

definition os_query :: "(disk \<Rightarrow> os_error + 'a) \<Rightarrow> (call_error + 'a) io" where
  "os_query f = State (\<lambda>s.
    case faults s of Some n # fs \<Rightarrow> (Inl Faulted, s\<lparr>faults := fs\<rparr>)
    | fs \<Rightarrow> (map_sum OsError id (f (dsk s)), s\<lparr>faults := tl fs\<rparr>))"

definition time_Now :: "nat io" where
  "time_Now = State (\<lambda>s. (clock s, s\<lparr>clock := Suc (clock s)\<rparr>))"

datatype transfer_error =
    TCall string call_error
  | TOpID string
  | TDurability string
  | TCorrupt string
  | TRequest string
  | TUnsafe string
  | TGlob
  | TWork string
  | TVerify string
  | TRoot string root_error
  | TIo string io_error
  | TExists string
  | TWalk walk_err
  | TWalkOpen walk_or_root
  | TEndless

text \<open>The Go idiom: call, return the wrapped error if there is one, otherwise go on.\<close>

definition check :: "string \<Rightarrow> call_error option io \<Rightarrow> transfer_error option io \<Rightarrow> transfer_error option io" where
  "check op m k = State_Monad.bind m (\<lambda>e. case e of Some x \<Rightarrow> io_return (Some (TCall op x)) | None \<Rightarrow> k)"

definition attempt :: "transfer_error option io \<Rightarrow> transfer_error option io \<Rightarrow> transfer_error option io" where
  "attempt m k = State_Monad.bind m (\<lambda>e. case e of Some x \<Rightarrow> io_return (Some x) | None \<Rightarrow> k)"

text \<open>The same with a clean-up before the return; its error is dropped.\<close>

definition check_or :: "string \<Rightarrow> call_error option io \<Rightarrow> call_error option io \<Rightarrow> transfer_error option io \<Rightarrow> transfer_error option io" where
  "check_or op m undo k = State_Monad.bind m (\<lambda>e. case e of
     Some x \<Rightarrow> State_Monad.bind undo (\<lambda>_. io_return (Some (TCall op x))) | None \<Rightarrow> k)"

subsection \<open>Calls of package os\<close>

definition call_MkdirAll :: "string \<Rightarrow> call_error option io" where
  "call_MkdirAll p = os_call (\<lambda>n d. fst (os_MkdirAll d (take n (components p)))) (\<lambda>d. os_MkdirAll d (components p))"

definition call_Chmod :: "string \<Rightarrow> call_error option io" where
  "call_Chmod p = os_call (\<lambda>n d. d) (\<lambda>d. (d, case os_Stat d (components p) of Inl e \<Rightarrow> Some e | Inr _ \<Rightarrow> None))"

definition trunc_mode :: open_mode where
  "trunc_mode = \<lparr>o_wronly = True, o_rdwr = False, o_create = True, o_excl = False, o_trunc = True, o_append = False\<rparr>"

definition call_Create :: "string \<Rightarrow> call_error option io" where
  "call_Create p = os_call (\<lambda>n d. d) (\<lambda>d. case os_OpenFile 0 d (components p) trunc_mode of
     (d', Inl e) \<Rightarrow> (d', Some e) | (d', Inr _) \<Rightarrow> (d', None))"

text \<open>Writing to the file just created; a fault leaves the first bytes in it.\<close>

definition call_Write :: "string \<Rightarrow> bytes \<Rightarrow> call_error option io" where
  "call_Write p b = os_call (\<lambda>n d. AList.update (components p) (NFile (take n b)) d)
     (\<lambda>d. (AList.update (components p) (NFile b) d, None))"

text \<open>Calls on an open file that leave the disk alone: Chmod, Sync and Close.\<close>

definition call_Handle :: "call_error option io" where
  "call_Handle = os_call (\<lambda>n d. d) (\<lambda>d. (d, None))"

definition call_Rename :: "string \<Rightarrow> string \<Rightarrow> call_error option io" where
  "call_Rename p q = os_call (\<lambda>n d. d) (\<lambda>d. os_Rename d (components p) (components q))"

definition call_Remove :: "string \<Rightarrow> call_error option io" where
  "call_Remove p = os_call (\<lambda>n d. d) (\<lambda>d. os_Remove d (components p))"

text \<open>\<^verbatim>\<open>RemoveAll\<close> removes the entries of a directory before it; a fault leaves the rest.\<close>

fun remove_leaves :: "nat \<Rightarrow> disk \<Rightarrow> fpath \<Rightarrow> disk" where
  "remove_leaves 0 d p = d"
| "remove_leaves (Suc n) d p =
    (case find (\<lambda>(q, _). prefix p q \<and> \<not> has_children d q) d of None \<Rightarrow> d
     | Some (q, _) \<Rightarrow> remove_leaves n (AList.delete q d) p)"

definition call_RemoveAll :: "string \<Rightarrow> call_error option io" where
  "call_RemoveAll p = os_call (\<lambda>n d. remove_leaves n d (components p)) (\<lambda>d. (os_RemoveAll d (components p), None))"

definition call_Stat :: "string \<Rightarrow> (call_error + node) io" where
  "call_Stat p = os_query (\<lambda>d. os_Stat d (components p))"

definition call_ReadDir :: "string \<Rightarrow> (call_error + raw_entry list) io" where
  "call_ReadDir p = os_query (\<lambda>d. map_sum snd id (os_ReadDirAll d (components p)))"

definition call_ReadFile :: "string \<Rightarrow> (call_error + bytes) io" where
  "call_ReadFile p = os_query (\<lambda>d. case os_Stat d (components p) of
     Inl e \<Rightarrow> Inl e | Inr (NFile b) \<Rightarrow> Inr b | Inr _ \<Rightarrow> Inl EISDIR)"

subsection \<open>Durability\<close>

text \<open>The hooks of a manager are for tests and are left out.\<close>

record Manager =
  durability :: string

definition DurabilityNone :: string where "DurabilityNone = ''none''"
definition DurabilityData :: string where "DurabilityData = ''data''"
definition DurabilityFull :: string where "DurabilityFull = ''full''"

definition New :: Manager where
  "New = \<lparr>durability = DurabilityFull\<rparr>"

definition withDurability :: "Manager \<Rightarrow> string \<Rightarrow> Manager" where
  "withDurability m level = (if level = [] \<or> level = durability m then m else m\<lparr>durability := level\<rparr>)"

definition validateDurability :: "Manager \<Rightarrow> transfer_error option" where
  "validateDurability m =
    (if durability m \<in> {DurabilityNone, DurabilityData, DurabilityFull} then None else Some (TDurability (durability m)))"

definition syncOSFile :: "Manager \<Rightarrow> call_error option io" where
  "syncOSFile m = (if durability m = DurabilityNone then io_return None else call_Handle)"

text \<open>Opening a directory and syncing it.\<close>

definition syncDir :: "Manager \<Rightarrow> string \<Rightarrow> call_error option io" where
  "syncDir m p =
    (if durability m \<noteq> DurabilityFull then io_return None
     else os_call (\<lambda>n d. d) (\<lambda>d. (d, case os_Stat d (components p) of Inl e \<Rightarrow> Some e | Inr _ \<Rightarrow> None)))"

text \<open>The missing directories of \<open>mkdirAllPath\<close>, the deepest first. The path is absolute and clean, so its
  parent is shorter until the top is reached.\<close>

function missing_dirs :: "string \<Rightarrow> (call_error + string list) io" where
  "missing_dirs current =
    State_Monad.bind (call_Stat current) (\<lambda>r. case r of
      Inr _ \<Rightarrow> io_return (Inr [])
    | Inl e \<Rightarrow>
      if e \<noteq> OsError ENOENT then io_return (Inl e)
      else if length (path_Dir current) < length current
      then State_Monad.bind (missing_dirs (path_Dir current)) (\<lambda>ms. io_return (map_sum id (Cons current) ms))
      else io_return (Inr [current]))"
  by pat_completeness auto
termination by (relation "measure length") auto

fun sync_dirs :: "Manager \<Rightarrow> string list \<Rightarrow> transfer_error option io" where
  "sync_dirs m [] = io_return None"
| "sync_dirs m (p # ps) =
    check ''sync directory'' (syncDir m p) (check ''sync directory parent'' (syncDir m (path_Dir p)) (sync_dirs m ps))"

definition mkdirAllPath :: "Manager \<Rightarrow> string \<Rightarrow> transfer_error option io" where
  "mkdirAllPath m p =
    State_Monad.bind (missing_dirs (filepath_Clean p)) (\<lambda>r. case r of
      Inl e \<Rightarrow> io_return (Some (TCall ''stat'' e))
    | Inr missing \<Rightarrow>
      check ''mkdir'' (call_MkdirAll p)
        (if durability m \<noteq> DurabilityFull then io_return None else sync_dirs m missing))"

definition renamePath :: "Manager \<Rightarrow> string \<Rightarrow> string \<Rightarrow> transfer_error option io" where
  "renamePath m p q =
    check ''rename'' (call_Rename p q) (check ''sync rename parent'' (syncDir m (path_Dir q)) (io_return None))"

definition removePath :: "Manager \<Rightarrow> string \<Rightarrow> transfer_error option io" where
  "removePath m p = State_Monad.bind (call_Remove p) (\<lambda>e.
     if e = Some (OsError ENOENT) then io_return None
     else case e of Some x \<Rightarrow> io_return (Some (TCall ''remove'' x))
     | None \<Rightarrow> check ''sync remove parent'' (syncDir m (path_Dir p)) (io_return None))"

definition removeAllPath :: "Manager \<Rightarrow> string \<Rightarrow> transfer_error option io" where
  "removeAllPath m p =
    check ''remove'' (call_RemoveAll p) (check ''sync remove-all parent'' (syncDir m (path_Dir p)) (io_return None))"

end
