(* ===== verification/Marker.thy ===== *)
theory Marker
  imports TransferDisk Config
begin

text \<open>
  The markers of unfinished operations: src/native/sec_fs/sec_transfer/v3/marker.go, with the types of
  sec_transfer/v3_interface.go. A marker is a JSON file; encoding/json is a pair of functions, of which
  the proofs use that a marker whose strings are valid UTF-8 is read back as it was written.
\<close>

subsection \<open>Types\<close>

definition OperationImport :: string where "OperationImport = ''import''"
definition OperationExport :: string where "OperationExport = ''export''"
definition OperationConvertEncrypt :: string where "OperationConvertEncrypt = ''convert_encrypt''"
definition OperationConvertDecrypt :: string where "OperationConvertDecrypt = ''convert_decrypt''"
definition EntryKindFile :: string where "EntryKindFile = ''file''"
definition EntryKindDirectory :: string where "EntryKindDirectory = ''directory''"

record VerificationReport =
  ExpectedDirectories :: nat
  ActualDirectories :: nat
  ExpectedFiles :: nat
  ActualFiles :: nat
  MissingDirectories :: "string list"
  MissingDirectoryCount :: nat
  UnexpectedDirectories :: "string list"
  UnexpectedDirectoryCount :: nat
  MissingFiles :: "string list"
  MissingFileCount :: nat
  UnexpectedFiles :: "string list"
  UnexpectedFileCount :: nat
  DigestMismatches :: "string list"
  DigestMismatchCount :: nat
  Truncated :: bool

text \<open>A time is a number; zero is the zero time.\<close>

record OperationMarker =
  mVersion :: int
  mOpID :: string
  mType :: string
  mEntryKind :: string
  mStatus :: string
  mPhase :: string
  mSrc :: string
  mDst :: string
  mOverwrite :: bool
  mDestinationInitiallyExisted :: "bool option"
  mRoot :: string
  mWork :: string
  mBackup :: string
  mVerification :: "VerificationReport option"
  mCreatedAt :: nat
  mUpdatedAt :: nat

definition empty_marker :: OperationMarker where
  "empty_marker = \<lparr>mVersion = 0, mOpID = [], mType = [], mEntryKind = [], mStatus = [], mPhase = [], mSrc = [],
     mDst = [], mOverwrite = False, mDestinationInitiallyExisted = None, mRoot = [], mWork = [], mBackup = [],
     mVerification = None, mCreatedAt = 0, mUpdatedAt = 0\<rparr>"

record marker_json =
  j_Marshal :: "OperationMarker \<Rightarrow> bytes"
  j_Unmarshal :: "bytes \<Rightarrow> OperationMarker option"

definition report_strings :: "VerificationReport \<Rightarrow> string list" where
  "report_strings r = MissingDirectories r @ UnexpectedDirectories r @ MissingFiles r @ UnexpectedFiles r @ DigestMismatches r"

definition marker_strings :: "OperationMarker \<Rightarrow> string list" where
  "marker_strings m = [mOpID m, mType m, mEntryKind m, mStatus m, mPhase m, mSrc m, mDst m, mRoot m, mWork m, mBackup m] @
     (case mVerification m of None \<Rightarrow> [] | Some r \<Rightarrow> report_strings r)"

definition json_reads :: "marker_json \<Rightarrow> bool" where
  "json_reads J \<longleftrightarrow> (\<forall>m. (\<forall>s \<in> set (marker_strings m). utf8_coerce s = s) \<longrightarrow> j_Unmarshal J (j_Marshal J m) = Some m)"

subsection \<open>Paths\<close>

definition markerVersion :: int where "markerVersion = 3"
definition baseDirName :: string where "baseDirName = ''.transfer_v3''"
definition activeDirName :: string where "activeDirName = ''active''"

definition baseDir :: "string \<Rightarrow> string" where
  "baseDir rootPath = filepath_Join rootPath baseDirName"

definition activeDir :: "string \<Rightarrow> string" where
  "activeDir rootPath = filepath_Join (baseDir rootPath) activeDirName"

definition markerPath :: "string \<Rightarrow> string \<Rightarrow> string" where
  "markerPath rootPath opID = filepath_Join (activeDir rootPath) (opID @ ''.json'')"

definition op_char :: "char \<Rightarrow> bool" where
  "op_char c \<longleftrightarrow> (let n = of_char c :: nat in
     97 \<le> n \<and> n \<le> 122 \<or> 65 \<le> n \<and> n \<le> 90 \<or> 48 \<le> n \<and> n \<le> 57 \<or> c = CHR ''-'' \<or> c = CHR ''_'')"

definition validateOpID :: "string \<Rightarrow> transfer_error option" where
  "validateOpID opID =
    (if opID = [] then Some (TOpID opID)
     else if slash \<in> set opID \<or> backslash \<in> set opID \<or> opID = ''.'' \<or> opID = ''..'' then Some (TOpID opID)
     else if \<not> list_all op_char opID then Some (TOpID opID) else None)"

subsection \<open>Writing and removing\<close>

definition stamp :: "nat \<Rightarrow> OperationMarker \<Rightarrow> OperationMarker" where
  "stamp now m =
    (let m1 = (if mVersion m = 0 then m\<lparr>mVersion := markerVersion\<rparr> else m);
         m2 = (if mCreatedAt m1 = 0 then m1\<lparr>mCreatedAt := now\<rparr> else m1)
     in m2\<lparr>mUpdatedAt := now\<rparr>)"

definition sync_marker :: "Manager \<Rightarrow> string \<Rightarrow> transfer_error option io" where
  "sync_marker m rootPath =
    check ''sync marker directory'' (syncDir m (activeDir rootPath)) (
    check ''sync marker base directory'' (syncDir m (baseDir rootPath)) (
    check ''sync marker root directory'' (syncDir m rootPath) (
    io_return None)))"

text \<open>The temporary file has the data: it is synced, closed and renamed. The result of Close is looked at
  after that of Sync.\<close>

definition install_marker :: "Manager \<Rightarrow> string \<Rightarrow> string \<Rightarrow> transfer_error option io" where
  "install_marker m rootPath path =
    (let tmp = path @ ''.tmp'' in
     State_Monad.bind (syncOSFile m) (\<lambda>syncErr.
     State_Monad.bind call_Handle (\<lambda>closeErr.
     if syncErr \<noteq> None \<or> closeErr \<noteq> None then
       State_Monad.bind (call_Remove tmp) (\<lambda>_. io_return (Some
         (case syncErr of Some x \<Rightarrow> TCall ''sync marker'' x | None \<Rightarrow> TCall ''close marker'' (the closeErr))))
     else check_or ''commit marker'' (call_Rename tmp path) (call_Remove tmp) (sync_marker m rootPath))))"

definition commit_marker :: "Manager \<Rightarrow> string \<Rightarrow> string \<Rightarrow> bytes \<Rightarrow> transfer_error option io" where
  "commit_marker m rootPath path data =
    (let tmp = path @ ''.tmp'' in
     check ''write marker'' (call_Create tmp) (
     check_or ''protect marker'' call_Handle (call_Remove tmp) (
     check_or ''write marker'' (call_Write tmp data) (call_Remove tmp) (
     install_marker m rootPath path))))"

definition writeMarker :: "marker_json \<Rightarrow> Manager \<Rightarrow> string \<Rightarrow> OperationMarker \<Rightarrow> transfer_error option io" where
  "writeMarker J m rootPath marker =
    (case validateOpID (mOpID marker) of Some e \<Rightarrow> io_return (Some e)
     | None \<Rightarrow>
       State_Monad.bind time_Now (\<lambda>now.
       check ''create transfer marker dir'' (call_MkdirAll (activeDir rootPath)) (
       check ''protect transfer marker dir'' (call_Chmod (baseDir rootPath)) (
       check ''protect transfer marker dir'' (call_Chmod (activeDir rootPath)) (
       commit_marker m rootPath (markerPath rootPath (mOpID marker)) (j_Marshal J (stamp now marker)))))))"

definition removeMarker :: "Manager \<Rightarrow> string \<Rightarrow> string \<Rightarrow> transfer_error option io" where
  "removeMarker m rootPath opID =
    (case validateOpID opID of Some e \<Rightarrow> io_return (Some e)
     | None \<Rightarrow>
       State_Monad.bind (call_Remove (markerPath rootPath opID)) (\<lambda>err.
       if err = Some (OsError ENOENT) then io_return None
       else case err of Some x \<Rightarrow> io_return (Some (TCall ''remove marker'' x))
       | None \<Rightarrow> check ''sync marker directory'' (syncDir m (activeDir rootPath)) (io_return None)))"

subsection \<open>Reading\<close>

definition readMarker :: "marker_json \<Rightarrow> string \<Rightarrow> (unit + OperationMarker) io" where
  "readMarker J path = State_Monad.bind (call_ReadFile path) (\<lambda>r. io_return (case r of Inl _ \<Rightarrow> Inl ()
     | Inr data \<Rightarrow> (case j_Unmarshal J data of None \<Rightarrow> Inl () | Some m \<Rightarrow> Inr m)))"

definition is_convert :: "OperationMarker \<Rightarrow> bool" where
  "is_convert m \<longleftrightarrow> mType m = OperationConvertEncrypt \<or> mType m = OperationConvertDecrypt"

definition validateListedMarker :: "OperationMarker \<Rightarrow> bool" where
  "validateListedMarker m \<longleftrightarrow>
    mVersion m = markerVersion \<and> validateOpID (mOpID m) = None \<and>
    (if mType m = OperationImport \<or> mType m = OperationExport then
       (mEntryKind m = EntryKindFile \<or> mEntryKind m = EntryKindDirectory) \<and> mStatus m \<noteq> []
     else is_convert m)"

text \<open>\<^verbatim>\<open>filepath.Ext\<close>: from the last dot on, when no slash follows it.\<close>

definition filepath_Ext :: "string \<Rightarrow> string" where
  "filepath_Ext p =
    (let suf = takeWhile (\<lambda>c. c \<noteq> CHR ''.'' \<and> c \<noteq> slash) (rev p); rest = drop (length suf) (rev p) in
     if rest \<noteq> [] \<and> hd rest = CHR ''.'' then CHR ''.'' # rev suf else [])"

text \<open>The loop over the entries; \<open>only\<close> says which markers take part.\<close>

fun list_loop :: "marker_json \<Rightarrow> (OperationMarker \<Rightarrow> bool) \<Rightarrow> string \<Rightarrow> raw_entry list \<Rightarrow> (transfer_error + OperationMarker list) io" where
  "list_loop J only dir [] = io_return (Inr [])"
| "list_loop J only dir ((name, n) # es) =
    (if n = NDir \<or> filepath_Ext name \<noteq> ''.json'' then list_loop J only dir es
     else State_Monad.bind (readMarker J (filepath_Join dir name)) (\<lambda>r. case r of
         Inl _ \<Rightarrow> io_return (Inl (TCorrupt name))
       | Inr marker \<Rightarrow>
         if \<not> only marker then list_loop J only dir es
         else if \<not> validateListedMarker marker \<or> name \<noteq> mOpID marker @ ''.json'' then io_return (Inl (TCorrupt name))
         else State_Monad.bind (list_loop J only dir es) (\<lambda>ms. io_return (map_sum id (Cons marker) ms))))"

definition list_with :: "marker_json \<Rightarrow> (OperationMarker \<Rightarrow> bool) \<Rightarrow> string \<Rightarrow> (transfer_error + OperationMarker list) io" where
  "list_with J only rootPath = State_Monad.bind (call_ReadDir (activeDir rootPath)) (\<lambda>r. case r of
     Inl e \<Rightarrow> io_return (if e = OsError ENOENT \<or> e = OsError ENOTDIR then Inr [] else Inl (TCall ''readdir'' e))
   | Inr es \<Rightarrow> list_loop J only (activeDir rootPath) es)"

definition listMarkers :: "marker_json \<Rightarrow> string \<Rightarrow> (transfer_error + OperationMarker list) io" where
  "listMarkers J rootPath = list_with J (\<lambda>m. True) rootPath"

definition listConvertMarkers :: "marker_json \<Rightarrow> string \<Rightarrow> (transfer_error + OperationMarker list) io" where
  "listConvertMarkers J rootPath = list_with J is_convert rootPath"

text \<open>Cleaning up the markers of imports and exports.\<close>

fun remove_markers :: "Manager \<Rightarrow> string \<Rightarrow> OperationMarker list \<Rightarrow> transfer_error option io" where
  "remove_markers m rootPath [] = io_return None"
| "remove_markers m rootPath (marker # ms) =
    (if mType marker = OperationImport \<or> mType marker = OperationExport
     then attempt (removeMarker m rootPath (mOpID marker)) (remove_markers m rootPath ms)
     else remove_markers m rootPath ms)"

definition CleanUnfinishedImportExport :: "marker_json \<Rightarrow> Manager \<Rightarrow> string \<Rightarrow> string \<Rightarrow> transfer_error option io" where
  "CleanUnfinishedImportExport J m rootPath opID =
    (case validateDurability m of Some e \<Rightarrow> io_return (Some e)
     | None \<Rightarrow>
       if opID \<noteq> [] then removeMarker m rootPath opID
       else State_Monad.bind (listMarkers J rootPath) (\<lambda>r. case r of Inl e \<Rightarrow> io_return (Some e)
         | Inr ms \<Rightarrow> remove_markers m rootPath ms))"

end
