(* ===== verification/Convert.thy ===== *)
theory Convert
  imports GoGlob Marker
begin

text \<open>
  Converting a directory to a vault and back, and recovering an interrupted conversion:
  src/native/sec_fs/sec_transfer/v3/convert.go. The steps that fill and compare the work tree are the
  operations of package sec_fs and of the import and export; here they are the fields of \<open>work_calls\<close>.
  The lock of an operation and the test hooks are left out; the paths are absolute.
\<close>

subsection \<open>Constants and requests\<close>

definition phaseCreatingWork :: string where "phaseCreatingWork = ''creating_work''"
definition phaseCopyingToWork :: string where "phaseCopyingToWork = ''copying_to_work''"
definition phaseVerifyingWork :: string where "phaseVerifyingWork = ''verifying_work''"
definition phaseRenamingRootToBackup :: string where "phaseRenamingRootToBackup = ''renaming_root_to_backup''"
definition phaseRenamingWorkToRoot :: string where "phaseRenamingWorkToRoot = ''renaming_work_to_root''"
definition phaseCompleted :: string where "phaseCompleted = ''completed''"
definition phaseNeedsAttention :: string where "phaseNeedsAttention = ''needs_attention''"

lemmas phase_defs = phaseCreatingWork_def phaseCopyingToWork_def phaseVerifyingWork_def
  phaseRenamingRootToBackup_def phaseRenamingWorkToRoot_def phaseCompleted_def phaseNeedsAttention_def

record ConvertRequest =
  cr_Kind :: string
  cr_RootPath :: string
  cr_Password :: string
  cr_Overwrite :: bool
  cr_Durability :: string

datatype verify_error = VerifyMismatch VerificationReport | VerifyOther string

record 'r work_calls =
  wc_CreateRootConfig :: "string \<Rightarrow> string \<Rightarrow> transfer_error option io"
  wc_OpenRoot :: "string \<Rightarrow> string \<Rightarrow> (transfer_error + 'r) io"
  wc_Close :: "'r \<Rightarrow> transfer_error option io"
  wc_importDirectory :: "'r \<Rightarrow> string \<Rightarrow> bool \<Rightarrow> transfer_error option io"
  wc_exportDirectory :: "'r \<Rightarrow> string \<Rightarrow> bool \<Rightarrow> transfer_error option io"
  wc_verifyPlainAndRoot :: "string \<Rightarrow> 'r \<Rightarrow> verify_error option io"
  wc_verifyRootAndPlain :: "'r \<Rightarrow> string \<Rightarrow> verify_error option io"

text \<open>The decimal digits of a number, as \<^verbatim>\<open>%d\<close> prints it.\<close>

fun decimal :: "nat \<Rightarrow> string" where
  "decimal n = (if n < 10 then [char_of (48 + n)] else decimal (n div 10) @ [char_of (48 + n mod 10)])"

definition newOpID :: "string \<Rightarrow> string io" where
  "newOpID pfx = State_Monad.bind time_Now (\<lambda>now. io_return (pfx @ ''-'' @ decimal now))"

definition work_path :: "string \<Rightarrow> string \<Rightarrow> string" where
  "work_path rootPath opID = rootPath @ ''.safe_disk.work.'' @ opID"

definition backup_path :: "string \<Rightarrow> string \<Rightarrow> string" where
  "backup_path rootPath opID = rootPath @ ''.safe_disk.backup.'' @ opID"

subsection \<open>Converting\<close>

definition commitConvertRename :: "marker_json \<Rightarrow> Manager \<Rightarrow> OperationMarker \<Rightarrow> transfer_error option io" where
  "commitConvertRename J m marker0 =
    (let root = mRoot marker0; work = mWork marker0; backup = mBackup marker0;
         marker1 = marker0\<lparr>mPhase := phaseRenamingRootToBackup\<rparr>;
         marker2 = marker1\<lparr>mPhase := phaseRenamingWorkToRoot\<rparr>;
         marker3 = marker2\<lparr>mPhase := phaseCompleted, mStatus := ''completed''\<rparr>
     in attempt (writeMarker J m root marker1) (
        attempt (renamePath m root backup) (
        attempt (writeMarker J m backup marker1) (
        attempt (writeMarker J m backup marker2) (
        attempt (renamePath m work root) (
        attempt (writeMarker J m root marker3) (
        State_Monad.bind (removeMarker m root (mOpID marker3)) (\<lambda>_.
        State_Monad.bind (removeMarker m backup (mOpID marker3)) (\<lambda>_.
        io_return None)))))))))"

definition recordVerificationFailure :: "marker_json \<Rightarrow> Manager \<Rightarrow> OperationMarker \<Rightarrow> verify_error \<Rightarrow> transfer_error option io" where
  "recordVerificationFailure J m marker verifyErr =
    (case verifyErr of VerifyOther e \<Rightarrow> io_return (Some (TVerify e))
     | VerifyMismatch report \<Rightarrow>
       attempt (writeMarker J m (mRoot marker)
           (marker\<lparr>mPhase := phaseNeedsAttention, mStatus := ''failed'', mVerification := Some report\<rparr>))
         (io_return (Some (TVerify ''mismatch''))))"

text \<open>The work directory and the marker that says that it is filled.\<close>

definition prepare_work :: "marker_json \<Rightarrow> Manager \<Rightarrow> OperationMarker \<Rightarrow> transfer_error option io" where
  "prepare_work J m marker =
    attempt (mkdirAllPath m (mWork marker)) (
    check ''protect convert work'' (call_Chmod (mWork marker)) (
    writeMarker J m (mRoot marker) marker))"

definition convertEncrypt ::
  "marker_json \<Rightarrow> 'r work_calls \<Rightarrow> Manager \<Rightarrow> OperationMarker \<Rightarrow> string \<Rightarrow> bool \<Rightarrow> transfer_error option io" where
  "convertEncrypt J W m marker0 password ow =
    (let marker1 = marker0\<lparr>mPhase := phaseCopyingToWork\<rparr>; marker2 = marker1\<lparr>mPhase := phaseVerifyingWork\<rparr>;
         root = mRoot marker0; work = mWork marker0
     in attempt (prepare_work J m marker1) (
        attempt (wc_CreateRootConfig W work password) (
        State_Monad.bind (wc_OpenRoot W work password) (\<lambda>r. case r of Inl e \<Rightarrow> io_return (Some e)
        | Inr workRoot \<Rightarrow>
          State_Monad.bind (wc_importDirectory W workRoot root ow) (\<lambda>e. case e of
            Some x \<Rightarrow> State_Monad.bind (wc_Close W workRoot) (\<lambda>_. io_return (Some x))
          | None \<Rightarrow>
            attempt (wc_Close W workRoot) (
            attempt (writeMarker J m root marker2) (
            State_Monad.bind (wc_OpenRoot W work password) (\<lambda>r. case r of Inl e \<Rightarrow> io_return (Some e)
            | Inr verifyRoot \<Rightarrow>
              State_Monad.bind (wc_verifyPlainAndRoot W root verifyRoot) (\<lambda>v. case v of
                Some x \<Rightarrow> State_Monad.bind (wc_Close W verifyRoot) (\<lambda>_. recordVerificationFailure J m marker2 x)
              | None \<Rightarrow> attempt (wc_Close W verifyRoot) (commitConvertRename J m marker2))))))))))"

definition convertDecrypt ::
  "marker_json \<Rightarrow> 'r work_calls \<Rightarrow> Manager \<Rightarrow> OperationMarker \<Rightarrow> string \<Rightarrow> bool \<Rightarrow> transfer_error option io" where
  "convertDecrypt J W m marker0 password ow =
    (let marker1 = marker0\<lparr>mPhase := phaseCopyingToWork\<rparr>; marker2 = marker1\<lparr>mPhase := phaseVerifyingWork\<rparr>;
         root = mRoot marker0; work = mWork marker0
     in attempt (prepare_work J m marker1) (
        State_Monad.bind (wc_OpenRoot W root password) (\<lambda>r. case r of Inl e \<Rightarrow> io_return (Some e)
        | Inr source \<Rightarrow>
          State_Monad.bind (wc_exportDirectory W source work ow) (\<lambda>e. case e of
            Some x \<Rightarrow> State_Monad.bind (wc_Close W source) (\<lambda>_. io_return (Some x))
          | None \<Rightarrow>
            State_Monad.bind (writeMarker J m root marker2) (\<lambda>e. case e of
              Some x \<Rightarrow> State_Monad.bind (wc_Close W source) (\<lambda>_. io_return (Some x))
            | None \<Rightarrow>
              State_Monad.bind (wc_verifyRootAndPlain W source work) (\<lambda>v. case v of
                Some x \<Rightarrow> State_Monad.bind (wc_Close W source) (\<lambda>_. recordVerificationFailure J m marker2 x)
              | None \<Rightarrow> attempt (wc_Close W source) (commitConvertRename J m marker2)))))))"

definition convertRoot ::
  "marker_json \<Rightarrow> 'r work_calls \<Rightarrow> Manager \<Rightarrow> string \<Rightarrow> ConvertRequest \<Rightarrow> transfer_error option io" where
  "convertRoot J W m rootPath req =
    (case validateDurability m of Some e \<Rightarrow> io_return (Some e)
     | None \<Rightarrow>
       State_Monad.bind (newOpID (cr_Kind req)) (\<lambda>opID.
         let marker = empty_marker\<lparr>mOpID := opID,
               mType := (if cr_Kind req = OperationConvertDecrypt then OperationConvertDecrypt else OperationConvertEncrypt),
               mStatus := ''running'', mPhase := phaseCreatingWork, mRoot := rootPath,
               mWork := work_path rootPath opID, mBackup := backup_path rootPath opID\<rparr>
         in attempt (writeMarker J m rootPath marker)
           (if cr_Kind req = OperationConvertEncrypt then convertEncrypt J W m marker (cr_Password req) (cr_Overwrite req)
            else if cr_Kind req = OperationConvertDecrypt then convertDecrypt J W m marker (cr_Password req) (cr_Overwrite req)
            else io_return None)))"

definition ConvertRoot ::
  "marker_json \<Rightarrow> 'r work_calls \<Rightarrow> Manager \<Rightarrow> string \<Rightarrow> ConvertRequest \<Rightarrow> transfer_error option io" where
  "ConvertRoot J W m cwd req =
    (if cr_RootPath req = [] then io_return (Some (TRequest ''root path is required''))
     else if cr_Password req = [] then io_return (Some (TRequest ''password is required''))
     else if cr_Kind req \<noteq> OperationConvertEncrypt \<and> cr_Kind req \<noteq> OperationConvertDecrypt
     then io_return (Some (TRequest ''unsupported convert kind''))
     else convertRoot J W (withDurability m (cr_Durability req)) (filepath_Abs cwd (cr_RootPath req)) req)"

subsection \<open>Recovery\<close>

datatype RecoverAction = RecoverNone | RecoverRerun | RecoverContinueRename | RecoverNeedsAttention | RecoverCompleted

definition pathExists :: "string \<Rightarrow> bool io" where
  "pathExists p = State_Monad.bind (call_Stat p) (\<lambda>r. io_return (case r of Inl _ \<Rightarrow> False | Inr _ \<Rightarrow> True))"

definition validateConvertMarker :: "string \<Rightarrow> OperationMarker \<Rightarrow> bool" where
  "validateConvertMarker rootPath marker \<longleftrightarrow>
    validateOpID (mOpID marker) = None \<and>
    (let expectedRoot = filepath_Clean rootPath in
     filepath_Clean (mRoot marker) = expectedRoot \<and>
     filepath_Clean (mWork marker) = work_path expectedRoot (mOpID marker) \<and>
     filepath_Clean (mBackup marker) = backup_path expectedRoot (mOpID marker))"

definition finishRecoveredWorkRename :: "Manager \<Rightarrow> OperationMarker \<Rightarrow> RecoverAction io" where
  "finishRecoveredWorkRename m marker =
    State_Monad.bind (renamePath m (mWork marker) (mRoot marker)) (\<lambda>e.
      if e \<noteq> None then io_return RecoverNeedsAttention
      else State_Monad.bind (removeMarker m (mRoot marker) (mOpID marker)) (\<lambda>_.
        State_Monad.bind (removeMarker m (mBackup marker) (mOpID marker)) (\<lambda>_. io_return RecoverContinueRename)))"

text \<open>The phases of \<open>recoverFromMarker\<close>; the result keeps the action only.\<close>

definition recover_discard :: "Manager \<Rightarrow> OperationMarker \<Rightarrow> bool \<Rightarrow> bool \<Rightarrow> bool \<Rightarrow> RecoverAction io" where
  "recover_discard m marker rootExists workExists backupExists =
    (if \<not> rootExists \<or> backupExists then io_return RecoverNeedsAttention
     else State_Monad.bind (if workExists then removeAllPath m (mWork marker) else io_return None) (\<lambda>e.
       if e \<noteq> None then io_return RecoverNeedsAttention
       else State_Monad.bind (removeMarker m (mRoot marker) (mOpID marker)) (\<lambda>e.
         io_return (if e \<noteq> None then RecoverNeedsAttention else RecoverRerun))))"

definition recover_cleanup :: "Manager \<Rightarrow> OperationMarker \<Rightarrow> RecoverAction io" where
  "recover_cleanup m marker =
    State_Monad.bind (removeMarker m (mRoot marker) (mOpID marker)) (\<lambda>_.
    State_Monad.bind (removeMarker m (mBackup marker) (mOpID marker)) (\<lambda>_. io_return RecoverCompleted))"

definition recover_renames :: "Manager \<Rightarrow> OperationMarker \<Rightarrow> bool \<Rightarrow> bool \<Rightarrow> bool \<Rightarrow> RecoverAction io" where
  "recover_renames m marker rootExists workExists backupExists =
    (if \<not> rootExists \<and> workExists \<and> backupExists then finishRecoveredWorkRename m marker
     else if rootExists \<and> \<not> workExists \<and> backupExists then recover_cleanup m marker
     else io_return RecoverNeedsAttention)"

definition recover_phase :: "marker_json \<Rightarrow> Manager \<Rightarrow> OperationMarker \<Rightarrow> bool \<Rightarrow> bool \<Rightarrow> bool \<Rightarrow> RecoverAction io" where
  "recover_phase J m marker rootExists workExists backupExists =
    (if mPhase marker \<in> {phaseCreatingWork, phaseCopyingToWork, phaseVerifyingWork}
     then recover_discard m marker rootExists workExists backupExists
     else if mPhase marker = phaseRenamingRootToBackup then
       (if rootExists \<and> workExists \<and> \<not> backupExists then
          State_Monad.bind (renamePath m (mRoot marker) (mBackup marker)) (\<lambda>e.
            if e \<noteq> None then io_return RecoverNeedsAttention
            else let marker' = marker\<lparr>mPhase := phaseRenamingWorkToRoot\<rparr> in
              State_Monad.bind (writeMarker J m (mBackup marker') marker') (\<lambda>e.
                if e \<noteq> None then io_return RecoverNeedsAttention
                else finishRecoveredWorkRename m marker'))
        else recover_renames m marker rootExists workExists backupExists)
     else if mPhase marker = phaseRenamingWorkToRoot then recover_renames m marker rootExists workExists backupExists
     else if mPhase marker = phaseCompleted then recover_cleanup m marker
     else io_return RecoverNeedsAttention)"

definition recoverFromMarker :: "marker_json \<Rightarrow> Manager \<Rightarrow> string \<Rightarrow> OperationMarker \<Rightarrow> RecoverAction io" where
  "recoverFromMarker J m rootPath marker =
    State_Monad.bind (pathExists (mRoot marker)) (\<lambda>rootExists.
    State_Monad.bind (pathExists (mWork marker)) (\<lambda>workExists.
    State_Monad.bind (pathExists (mBackup marker)) (\<lambda>backupExists.
      if \<not> validateConvertMarker rootPath marker then io_return RecoverNeedsAttention
      else recover_phase J m marker rootExists workExists backupExists)))"

text \<open>A pattern is expanded on the disk.\<close>

definition call_Glob :: "string \<Rightarrow> (transfer_error + string list) io" where
  "call_Glob pattern = State (\<lambda>s. (case filepath_Glob (dsk s) pattern of None \<Rightarrow> Inl TGlob | Some ms \<Rightarrow> Inr ms, s))"

definition marker_key :: "OperationMarker \<Rightarrow> string list" where
  "marker_key m = [mOpID m, mPhase m, mRoot m, mWork m, mBackup m]"

fun collect_markers :: "marker_json \<Rightarrow> string list \<Rightarrow> OperationMarker list \<Rightarrow> (transfer_error + OperationMarker list) io" where
  "collect_markers J [] acc = io_return (Inr acc)"
| "collect_markers J (c # cs) acc =
    State_Monad.bind (listConvertMarkers J c) (\<lambda>r. case r of Inl e \<Rightarrow> io_return (Inl e)
    | Inr ms \<Rightarrow> collect_markers J cs
        (fold (\<lambda>marker acc. if marker_key marker \<in> marker_key ` set acc then acc else acc @ [marker]) ms acc))"

definition findConvertMarkers :: "marker_json \<Rightarrow> string \<Rightarrow> (transfer_error + OperationMarker list) io" where
  "findConvertMarkers J rootPath =
    State_Monad.bind (call_Glob (rootPath @ ''.safe_disk.backup.*'')) (\<lambda>r. case r of Inl e \<Rightarrow> io_return (Inl e)
    | Inr backups \<Rightarrow>
      State_Monad.bind (call_Glob (rootPath @ ''.safe_disk.work.*'')) (\<lambda>r. case r of Inl e \<Rightarrow> io_return (Inl e)
      | Inr works \<Rightarrow> collect_markers J (rootPath # sort backups @ sort works) []))"

definition recoverConvert :: "marker_json \<Rightarrow> Manager \<Rightarrow> string \<Rightarrow> (transfer_error + RecoverAction) io" where
  "recoverConvert J m rootPath =
    (case validateDurability m of Some e \<Rightarrow> io_return (Inl e)
     | None \<Rightarrow>
       State_Monad.bind (findConvertMarkers J rootPath) (\<lambda>r. case r of Inl e \<Rightarrow> io_return (Inl e)
       | Inr markers \<Rightarrow>
         if markers = [] then io_return (Inr RecoverNone)
         else if 1 < card (mOpID ` set markers) then io_return (Inr RecoverNeedsAttention)
         else (case find is_convert markers of None \<Rightarrow> io_return (Inr RecoverNone)
           | Some marker \<Rightarrow> State_Monad.bind (recoverFromMarker J m rootPath marker) (\<lambda>a. io_return (Inr a)))))"

definition RecoverConvert :: "marker_json \<Rightarrow> Manager \<Rightarrow> string \<Rightarrow> string \<Rightarrow> (transfer_error + RecoverAction) io" where
  "RecoverConvert J m cwd rootPath = recoverConvert J m (filepath_Abs cwd rootPath)"

end
