(* ===== verification/TransferLogic.thy ===== *)
theory TransferLogic
  imports Marker PlainRootProps
begin

text \<open>
  A calculus for the programs of TransferDisk: the weakest precondition of a result, together with a
  predicate on every disk there is meanwhile, for a run with faults or for one without. Below it, what
  the calls do to the map of a disk.
\<close>

subsection \<open>Preconditions\<close>

text \<open>With \<open>fl\<close> the run has no faults to come.\<close>

definition wp :: "bool \<Rightarrow> (disk \<Rightarrow> bool) \<Rightarrow> 'a io \<Rightarrow> ('a \<Rightarrow> disk \<Rightarrow> bool) \<Rightarrow> disk \<Rightarrow> bool" where
  "wp fl I m Q d \<longleftrightarrow> (\<forall>s. dsk s = d \<longrightarrow> (fl \<longrightarrow> faults s = []) \<longrightarrow>
     (case run_state m s of (a, s') \<Rightarrow> Q a (dsk s') \<and> (fl \<longrightarrow> faults s' = []) \<and>
        (\<exists>ds. seen s' = ds @ seen s \<and> (\<forall>d \<in> set ds. I d))))"

named_theorems wp_rules

lemma wpI:
  assumes "\<And>s. dsk s = d \<Longrightarrow> (fl \<Longrightarrow> faults s = []) \<Longrightarrow>
    \<exists>a s' ds. run_state m s = (a, s') \<and> Q a (dsk s') \<and> (fl \<longrightarrow> faults s' = []) \<and> seen s' = ds @ seen s \<and> (\<forall>d \<in> set ds. I d)"
  shows "wp fl I m Q d"
  unfolding wp_def
proof (intro allI impI)
  fix s :: io_state assume s: "dsk s = d" "fl \<longrightarrow> faults s = []"
  from assms [of s] s obtain a s' ds where "run_state m s = (a, s')" "Q a (dsk s')" "fl \<longrightarrow> faults s' = []"
    "seen s' = ds @ seen s" "\<forall>d \<in> set ds. I d" by blast
  then show "case run_state m s of (a, s') \<Rightarrow> Q a (dsk s') \<and> (fl \<longrightarrow> faults s' = []) \<and>
      (\<exists>ds. seen s' = ds @ seen s \<and> (\<forall>d \<in> set ds. I d))" by auto
qed

lemma wpD:
  fixes s :: io_state
  assumes "wp fl I m Q (dsk s)" "fl \<Longrightarrow> faults s = []"
  obtains a s' ds where "run_state m s = (a, s')" "Q a (dsk s')" "fl \<Longrightarrow> faults s' = []"
    "seen s' = ds @ seen s" "\<forall>d \<in> set ds. I d"
proof -
  obtain a s' where r: "run_state m s = (a, s')" by fastforce
  with assms have "Q a (dsk s')" "fl \<longrightarrow> faults s' = []" "\<exists>ds. seen s' = ds @ seen s \<and> (\<forall>d \<in> set ds. I d)"
    unfolding wp_def by auto
  with r that show ?thesis by blast
qed

lemma wp_mono:
  assumes "wp fl I m Q d" "\<And>a d'. Q a d' \<Longrightarrow> Q' a d'"
  shows "wp fl I m Q' d"
proof (rule wpI)
  fix s :: io_state assume s: "dsk s = d" "fl \<Longrightarrow> faults s = []"
  show "\<exists>a s' ds. run_state m s = (a, s') \<and> Q' a (dsk s') \<and> (fl \<longrightarrow> faults s' = []) \<and>
      seen s' = ds @ seen s \<and> (\<forall>d \<in> set ds. I d)"
    using wpD [of fl I m Q s] assms s by metis
qed

lemma wp_inv_mono:
  assumes "wp fl I m Q d" "\<And>d'. I d' \<Longrightarrow> I' d'"
  shows "wp fl I' m Q d"
proof (rule wpI)
  fix s :: io_state assume s: "dsk s = d" "fl \<Longrightarrow> faults s = []"
  show "\<exists>a s' ds. run_state m s = (a, s') \<and> Q a (dsk s') \<and> (fl \<longrightarrow> faults s' = []) \<and>
      seen s' = ds @ seen s \<and> (\<forall>d \<in> set ds. I' d)"
    using wpD [of fl I m Q s] assms s by metis
qed

lemma wp_return [wp_rules]: "Q a d \<Longrightarrow> wp fl I (io_return a) Q d"
  by (auto simp: wp_def io_return_def)

lemma wp_bind [wp_rules]:
  assumes "wp fl I m (\<lambda>a. wp fl I (k a) Q) d"
  shows "wp fl I (State_Monad.bind m k) Q d"
proof (rule wpI)
  fix s :: io_state assume s: "dsk s = d" "fl \<Longrightarrow> faults s = []"
  obtain a s1 ds1 where 1: "run_state m s = (a, s1)" "wp fl I (k a) Q (dsk s1)" "fl \<Longrightarrow> faults s1 = []"
    "seen s1 = ds1 @ seen s" "\<forall>d \<in> set ds1. I d"
    using wpD [of fl I m _ s] assms s by blast
  obtain b s2 ds2 where 2: "run_state (k a) s1 = (b, s2)" "Q b (dsk s2)" "fl \<Longrightarrow> faults s2 = []"
    "seen s2 = ds2 @ seen s1" "\<forall>d \<in> set ds2. I d"
    using wpD [OF 1(2,3)] by blast
  from 1 2 show "\<exists>b s' ds. run_state (State_Monad.bind m k) s = (b, s') \<and> Q b (dsk s') \<and> (fl \<longrightarrow> faults s' = []) \<and>
      seen s' = ds @ seen s \<and> (\<forall>d \<in> set ds. I d)"
    by (intro exI [of _ b] exI [of _ s2] exI [of _ "ds2 @ ds1"]) auto
qed

lemma wp_check [wp_rules]:
  assumes "wp fl I m (\<lambda>e d. case e of Some x \<Rightarrow> Q (Some (TCall op x)) d | None \<Rightarrow> wp fl I k Q d) d"
  shows "wp fl I (check op m k) Q d"
  unfolding check_def by (rule wp_bind, rule wp_mono [OF assms]) (auto intro: wp_return split: option.splits)

lemma wp_attempt [wp_rules]:
  assumes "wp fl I m (\<lambda>e d. case e of Some x \<Rightarrow> Q (Some x) d | None \<Rightarrow> wp fl I k Q d) d"
  shows "wp fl I (attempt m k) Q d"
  unfolding attempt_def by (rule wp_bind, rule wp_mono [OF assms]) (auto intro: wp_return split: option.splits)

lemma wp_check_or [wp_rules]:
  assumes "wp fl I m (\<lambda>e d. case e of Some x \<Rightarrow> wp fl I undo (\<lambda>_. Q (Some (TCall op x))) d | None \<Rightarrow> wp fl I k Q d) d"
  shows "wp fl I (check_or op m undo k) Q d"
  unfolding check_or_def
  by (rule wp_bind, rule wp_mono [OF assms]) (auto intro: wp_bind wp_mono wp_return split: option.splits)

lemma wp_os_call:
  assumes "\<And>d' e. f d = (d', e) \<Longrightarrow> I d' \<and> Q (map_option OsError e) d'"
    and "\<And>n. \<not> fl \<Longrightarrow> I (part n d) \<and> Q (Some Faulted) (part n d)"
  shows "wp fl I (os_call part f) Q d"
proof (rule wpI)
  fix s :: io_state assume s: "dsk s = d" "fl \<Longrightarrow> faults s = []"
  obtain d' e where f: "f d = (d', e)" by fastforce
  note ok = assms(1) [OF f]
  show "\<exists>a s' ds. run_state (os_call part f) s = (a, s') \<and> Q a (dsk s') \<and> (fl \<longrightarrow> faults s' = []) \<and>
      seen s' = ds @ seen s \<and> (\<forall>d \<in> set ds. I d)"
  proof (cases "\<exists>n fs. faults s = Some n # fs")
    case True
    then obtain n fs where fs: "faults s = Some n # fs" by blast
    with s have "\<not> fl" by auto
    from assms(2) [OF this, of n] show ?thesis
      using fs s(1) \<open>\<not> fl\<close> by (auto simp: os_call_def Let_def intro!: exI [of _ "[part n d]"])
  next
    case False
    then have "run_state (os_call part f) s = (map_option OsError e, s\<lparr>dsk := d', seen := d' # seen s, faults := tl (faults s)\<rparr>)"
      using f s(1) by (auto simp: os_call_def split: list.splits option.splits)
    with ok s show ?thesis by (auto intro!: exI [of _ "[d']"])
  qed
qed

lemma wp_os_query:
  assumes "\<And>r. f d = r \<Longrightarrow> Q (map_sum OsError id r) d" and "\<not> fl \<Longrightarrow> Q (Inl Faulted) d"
  shows "wp fl I (os_query f) Q d"
proof (rule wpI)
  fix s :: io_state assume s: "dsk s = d" "fl \<Longrightarrow> faults s = []"
  show "\<exists>a s' ds. run_state (os_query f) s = (a, s') \<and> Q a (dsk s') \<and> (fl \<longrightarrow> faults s' = []) \<and>
      seen s' = ds @ seen s \<and> (\<forall>d \<in> set ds. I d)"
    using assms s by (cases fl) (auto simp: os_query_def split: list.splits option.splits)
qed

lemma wp_time_Now [wp_rules]: "(\<And>now. Q now d) \<Longrightarrow> wp fl I time_Now Q d"
  by (auto simp: wp_def time_Now_def)

subsection \<open>What the calls do\<close>

text \<open>A call that leaves the disk alone.\<close>

lemma wp_still:
  assumes "I d" "\<And>e. (fl \<Longrightarrow> e = map_option OsError (snd (f d))) \<Longrightarrow> Q e d" "fst (f d) = d"
  shows "wp fl I (os_call (\<lambda>n d. d) f) Q d"
  by (rule wp_os_call) (use assms in \<open>auto simp: prod_eq_iff\<close>)

lemma wp_Handle: "I d \<Longrightarrow> (\<And>e. (fl \<Longrightarrow> e = None) \<Longrightarrow> Q e d) \<Longrightarrow> wp fl I call_Handle Q d"
  unfolding call_Handle_def by (rule wp_still) auto

lemma wp_syncOSFile: "I d \<Longrightarrow> (\<And>e. (fl \<Longrightarrow> e = None) \<Longrightarrow> Q e d) \<Longrightarrow> wp fl I (syncOSFile m) Q d"
  unfolding syncOSFile_def by (auto intro: wp_Handle wp_return)

lemma wp_Chmod:
  "I d \<Longrightarrow> (\<And>e. (fl \<Longrightarrow> os_lookup d (components p) \<notin> {None, Some NSymlink} \<Longrightarrow> e = None) \<Longrightarrow> Q e d) \<Longrightarrow> wp fl I (call_Chmod p) Q d"
  unfolding call_Chmod_def by (rule wp_still) (auto simp: os_Stat_def split: option.splits node.splits sum.splits)

lemma wp_syncDir:
  "I d \<Longrightarrow> (\<And>e. (fl \<Longrightarrow> os_lookup d (components p) \<notin> {None, Some NSymlink} \<Longrightarrow> e = None) \<Longrightarrow> Q e d) \<Longrightarrow> wp fl I (syncDir m p) Q d"
  unfolding syncDir_def
  by (auto intro!: wp_return wp_still simp: os_Stat_def split: option.splits node.splits sum.splits)

subsection \<open>Disks of plain names as maps\<close>

lemma plain_disk_iff:
  "plain_disk d \<longleftrightarrow> disk_wf d \<and> distinct (map fst d) \<and> (\<forall>q. os_lookup d q \<noteq> None \<longrightarrow> (\<forall>c \<in> set q. plain_name c))"
proof -
  have "(\<forall>(q, n) \<in> set d. \<forall>c \<in> set q. plain_name c) \<longleftrightarrow> (\<forall>q. os_lookup d q \<noteq> None \<longrightarrow> (\<forall>c \<in> set q. plain_name c))"
    if "disk_wf d"
  proof -
    note keys = key_lookup [OF disk_wf_keys [OF that]]
    have "(\<forall>(q, n) \<in> set d. \<forall>c \<in> set q. plain_name c) \<longleftrightarrow> (\<forall>q \<in> fst ` set d. \<forall>c \<in> set q. plain_name c)" by auto
    also have "\<dots> \<longleftrightarrow> (\<forall>q. q \<noteq> [] \<and> os_lookup d q \<noteq> None \<longrightarrow> (\<forall>c \<in> set q. plain_name c))"
      using keys by blast
    also have "\<dots> \<longleftrightarrow> (\<forall>q. os_lookup d q \<noteq> None \<longrightarrow> (\<forall>c \<in> set q. plain_name c))"
      by (metis empty_iff list.set(1))
    finally show ?thesis .
  qed
  then show ?thesis by (auto simp: plain_disk_def)
qed

lemma plain_disk_set:
  assumes "plain_disk d" "p \<noteq> []" "os_lookup d (butlast p) = Some NDir" "os_lookup d p \<noteq> Some NDir" "\<forall>c \<in> set p. plain_name c"
  shows "plain_disk (AList.update p n d)" "os_lookup (AList.update p n d) = (os_lookup d)(p \<mapsto> n)"
proof -
  have wf: "disk_wf d" using assms(1) by (simp add: plain_disk_def)
  show l: "os_lookup (AList.update p n d) = (os_lookup d)(p \<mapsto> n)" by (rule lookup_update [OF assms(2)])
  have "[] \<notin> fst ` set (AList.update p n d)" using disk_wf_keys [OF wf] assms(2) by (auto simp: dom_update)
  then have "disk_wf (AList.update p n d)" by (rule disk_wf_set [OF wf l _ assms(2)]) (use assms(3,4) in auto)
  then show "plain_disk (AList.update p n d)"
    using assms(1,5) distinct_update [of d p n] by (auto simp: plain_disk_iff l split: if_splits)
qed

lemma plain_disk_delete:
  assumes "plain_disk d" "p \<noteq> []" "os_lookup d p = Some NDir \<Longrightarrow> \<not> has_children d p"
  shows "plain_disk (AList.delete p d)" "os_lookup (AList.delete p d) = (os_lookup d)(p := None)"
proof -
  have wf: "disk_wf d" using assms(1) by (simp add: plain_disk_def)
  show l: "os_lookup (AList.delete p d) = (os_lookup d)(p := None)" by (rule lookup_delete [OF assms(2)])
  have "disk_wf (AList.delete p d)"
    unfolding disk_wf_lookup
  proof (intro conjI allI impI)
    show "[] \<notin> fst ` set (AList.delete p d)" using disk_wf_keys [OF wf] by (auto simp: AList.delete_eq)
    fix q assume q: "q \<noteq> []" "os_lookup (AList.delete p d) q \<noteq> None"
    then have up: "os_lookup d q \<noteq> None" "os_lookup d (butlast q) = Some NDir"
      using wf by (auto simp: l disk_wf_lookup split: if_splits)
    have "butlast q \<noteq> p"
    proof
      assume "butlast q = p"
      with q(1) have "strict_prefix p q" by (metis append_butlast_last_id prefix_order.less_le prefixI not_Cons_self2 append_self_conv)
      moreover have "q \<in> fst ` set d" using up(1) q(1) key_lookup [OF disk_wf_keys [OF wf]] by blast
      ultimately have "has_children d p" by (auto simp: has_children_def)
      with assms(3) up(2) \<open>butlast q = p\<close> show False by simp
    qed
    with up show "os_lookup (AList.delete p d) (butlast q) = Some NDir" by (simp add: l)
  qed
  then show "plain_disk (AList.delete p d)"
    using assms(1) distinct_delete [of d p] by (auto simp: plain_disk_iff l split: if_splits)
qed

lemma plain_disk_mkdir:
  "plain_disk d \<Longrightarrow> os_lookup d done = Some NDir \<Longrightarrow> \<forall>c \<in> set (done @ cs). plain_name c \<Longrightarrow>
    plain_disk (fst (mkdir_from d done cs)) \<and>
    ((\<forall>k. prefix k cs \<longrightarrow> os_lookup d (done @ k) \<in> {None, Some NDir}) \<longrightarrow> snd (mkdir_from d done cs) = None)"
proof (induction d "done" cs rule: mkdir_from.induct)
  case (2 d "done" c cs)
  show ?case
  proof (cases "os_lookup d (done @ [c])")
    case None
    let ?d = "AList.update (done @ [c]) NDir d"
    have d': "plain_disk ?d" "os_lookup ?d = (os_lookup d)(done @ [c] \<mapsto> NDir)"
      using plain_disk_set [OF 2(3), of "done @ [c]" NDir] 2(4,5) None by auto
    from 2(1) [OF None d'(1)] d' 2(5) have ih: "plain_disk (fst (mkdir_from ?d (done @ [c]) cs)) \<and>
        ((\<forall>k. prefix k cs \<longrightarrow> os_lookup ?d ((done @ [c]) @ k) \<in> {None, Some NDir}) \<longrightarrow> snd (mkdir_from ?d (done @ [c]) cs) = None)"
      by simp
    have "os_lookup ?d ((done @ [c]) @ k) \<in> {None, Some NDir}"
      if "\<forall>k. prefix k (c # cs) \<longrightarrow> os_lookup d (done @ k) \<in> {None, Some NDir}" "prefix k cs" for k
      using that(1) [rule_format, of "c # k"] that(2) d'(2) by auto
    with ih None show ?thesis by auto
  next
    case (Some n)
    show ?thesis
    proof (cases n)
      case NDir
      with Some 2(2) [OF Some NDir 2(3)] 2(5) have ih: "plain_disk (fst (mkdir_from d (done @ [c]) cs)) \<and>
        ((\<forall>k. prefix k cs \<longrightarrow> os_lookup d ((done @ [c]) @ k) \<in> {None, Some NDir}) \<longrightarrow> snd (mkdir_from d (done @ [c]) cs) = None)"
        by simp
      have "os_lookup d ((done @ [c]) @ k) \<in> {None, Some NDir}"
        if "\<forall>k. prefix k (c # cs) \<longrightarrow> os_lookup d (done @ k) \<in> {None, Some NDir}" "prefix k cs" for k
        using that(1) [rule_format, of "c # k"] that(2) by auto
      with ih Some NDir show ?thesis by auto
    next
      case (NFile x)
      then have "\<not> (\<forall>k. prefix k (c # cs) \<longrightarrow> os_lookup d (done @ k) \<in> {None, Some NDir})"
        using Some by (auto intro!: exI [of _ "[c]"])
      with NFile Some 2(3) show ?thesis by simp
    next
      case NSymlink
      then have "\<not> (\<forall>k. prefix k (c # cs) \<longrightarrow> os_lookup d (done @ k) \<in> {None, Some NDir})"
        using Some by (auto intro!: exI [of _ "[c]"])
      with NSymlink Some 2(3) show ?thesis by simp
    qed
  qed
qed simp

lemma plain_MkdirAll:
  assumes "plain_disk d" "\<forall>c \<in> set p. plain_name c" "os_MkdirAll d p = (d', e)"
  shows "plain_disk d'" "new_dirs p d d'" "e = None \<Longrightarrow> os_lookup d' p = Some NDir"
    "(\<And>k. prefix k p \<Longrightarrow> os_lookup d k \<in> {None, Some NDir}) \<Longrightarrow> e = None"
  using plain_disk_mkdir [OF assms(1), of "[]" p] assms(2,3) MkdirAll_new_dirs [of d p d' e] assms(1)
  by (auto simp: os_MkdirAll_def plain_disk_def)

text \<open>Renaming a tree to a name that is free, and a file over a file.\<close>

lemma plain_rename_tree:
  assumes "plain_disk d" "os_lookup d old = Some NDir" "os_lookup d new = None" "os_lookup d (butlast new) = Some NDir"
    and "\<not> prefix old new" "\<forall>c \<in> set new. plain_name c"
  shows "\<exists>d'. os_Rename d old new = (d', None) \<and> plain_disk d' \<and>
    (\<forall>k. os_lookup d' (new @ k) = os_lookup d (old @ k)) \<and> (\<forall>k. os_lookup d' (old @ k) = None) \<and>
    (\<forall>q. \<not> prefix old q \<longrightarrow> \<not> prefix new q \<longrightarrow> os_lookup d' q = os_lookup d q)"
proof -
  have wf: "disk_wf d" using assms(1) by (simp add: plain_disk_def)
  have new: "new \<noteq> []" using assms(3) by auto
  have old: "old \<noteq> []" using assms(5) by auto
  have nold: "\<not> prefix new old"
  proof
    assume "prefix new old"
    then obtain k where k: "old = new @ k" by (auto simp: prefix_def)
    have "(old, NDir) \<in> set d" using assms(2) old by (auto simp: os_lookup_def dest: map_of_SomeD)
    with nothing_below [OF wf assms(3)] k show False by auto
  qed
  let ?d = "map (\<lambda>(q, n). (move_key old new q, n)) d"
  have ren: "os_Rename d old new = (?d, None)"
    using assms(2-5) new old by (auto simp: os_Rename_def parent_error_def)
  note none = nothing_below [OF wf assms(3)]
  note move = map_of_move [OF none, of old]
  have at_new: "os_lookup ?d (new @ k) = os_lookup d (old @ k)" for k
    using move(1) [of k] new old by (simp add: os_lookup_def)
  have others: "os_lookup ?d q = os_lookup d q" if "\<not> prefix old q" "\<not> prefix new q" for q
    using move(2) [OF that] new old that by (cases "q = []") (simp_all add: os_lookup_def)
  have at_old: "os_lookup ?d (old @ k) = None" for k
  proof -
    have "move_key old new a \<noteq> old @ k" if "a \<in> fst ` set d" for a
    proof (cases "prefix old a")
      case True
      then have "prefix new (move_key old new a)" by (simp add: move_key_def)
      moreover have "\<not> prefix new (old @ k)"
        using assms(5) nold by (metis prefixI prefix_same_cases)
      ultimately show ?thesis by auto
    next
      case False
      then show ?thesis by (auto simp: move_key_def)
    qed
    then have "old @ k \<notin> fst ` set ?d" by fastforce
    with old show ?thesis by (simp add: os_lookup_def map_of_eq_None_iff)
  qed
  have dom: "os_lookup ?d q \<noteq> None \<Longrightarrow> (\<exists>k. q = new @ k \<and> os_lookup d (old @ k) \<noteq> None) \<or> os_lookup d q \<noteq> None \<and> \<not> prefix old q \<and> \<not> prefix new q" for q
    using at_new at_old others by (metis prefix_def)
  have inj: "inj_on (move_key old new) (fst ` set d)"
  proof (rule inj_onI)
    fix a b assume ab: "a \<in> fst ` set d" "b \<in> fst ` set d" "move_key old new a = move_key old new b"
    then have "\<not> prefix new a" "\<not> prefix new b" using none by auto
    with ab(3) show "a = b" by (auto simp: move_key_def prefix_def split: if_splits)
  qed
  have keys: "map fst ?d = map (move_key old new) (map fst d)" by auto
  have dist: "distinct (map fst ?d)"
    unfolding keys using inj assms(1) by (simp add: distinct_map plain_disk_def comp_inj_on)
  have "disk_wf ?d"
    unfolding disk_wf_lookup
  proof (intro conjI allI impI)
    show "[] \<notin> fst ` set ?d"
    proof
      assume "[] \<in> fst ` set ?d"
      then obtain a n where "(a, n) \<in> set d" "move_key old new a = []" by auto
      with disk_wf_keys [OF wf] new show False by (auto simp: move_key_def split: if_splits) force
    qed
    fix q assume q: "q \<noteq> []" "os_lookup ?d q \<noteq> None"
    from dom [OF q(2)] show "os_lookup ?d (butlast q) = Some NDir"
    proof (elim disjE exE conjE)
      fix k assume k: "q = new @ k" "os_lookup d (old @ k) \<noteq> None"
      show ?thesis
      proof (cases "k = []")
        case True
        have "\<not> prefix new (butlast new)" using new prefix_length_le [of new "butlast new"] by (cases new rule: rev_cases) auto
        moreover have "\<not> prefix old (butlast new)" using assms(5) by (meson prefix_order.trans prefixeq_butlast)
        ultimately show ?thesis using True k(1) others [of "butlast new"] assms(4) by simp
      next
        case False
        then have "os_lookup d (old @ butlast k) = Some NDir"
          using k(2) wf old by (auto simp: disk_wf_lookup butlast_append)
        with at_new [of "butlast k"] False k(1) show ?thesis by (simp add: butlast_append)
      qed
    next
      assume o: "os_lookup d q \<noteq> None" "\<not> prefix old q" "\<not> prefix new q"
      then have "os_lookup d (butlast q) = Some NDir" using wf q(1) by (auto simp: disk_wf_lookup)
      moreover have "\<not> prefix old (butlast q)" "\<not> prefix new (butlast q)"
        using o(2,3) by (meson prefix_order.trans prefixeq_butlast)+
      ultimately show ?thesis using others by simp
    qed
  qed
  moreover have "\<forall>c \<in> set q. plain_name c" if "os_lookup ?d q \<noteq> None" for q
  proof -
    have names: "\<And>q. os_lookup d q \<noteq> None \<Longrightarrow> \<forall>c \<in> set q. plain_name c" using assms(1) by (simp add: plain_disk_iff)
    from dom [OF that] show ?thesis using names assms(6) by fastforce
  qed
  ultimately have "plain_disk ?d" using dist by (simp add: plain_disk_iff)
  with ren at_new at_old others show ?thesis by blast
qed

lemma plain_rename_free:
  assumes "plain_disk d" "os_lookup d old = Some (NFile x)" "os_lookup d new = None" "os_lookup d (butlast new) = Some NDir"
    and "\<forall>c \<in> set new. plain_name c"
  shows "\<exists>d'. os_Rename d old new = (d', None) \<and> plain_disk d' \<and> os_lookup d' = (os_lookup d)(old := None, new \<mapsto> NFile x)"
proof -
  have wf: "disk_wf d" using assms(1) by (simp add: plain_disk_def)
  from rename_file [OF wf assms(2-4)] obtain d' where d': "os_Rename d old new = (d', None)"
    "os_lookup d' = (os_lookup d)(old := None, new \<mapsto> NFile x)" "disk_wf d'" by blast
  have ne: "old \<noteq> []" "new \<noteq> []" "old \<noteq> new" using assms(2,3) by auto
  then have "d' = map (\<lambda>(q, n). (move_key old new q, n)) d"
    using d'(1) assms(2-4) by (simp add: os_Rename_def parent_error_def)
  then have keys: "map fst d' = map (move_key old new) (map fst d)" by auto
  have "inj_on (move_key old new) (fst ` set d)"
  proof (rule inj_onI)
    fix a b assume ab: "a \<in> fst ` set d" "b \<in> fst ` set d" "move_key old new a = move_key old new b"
    then have "\<not> prefix new a" "\<not> prefix new b" using nothing_below [OF wf assms(3)] by auto
    with ab(3) show "a = b" by (auto simp: move_key_def prefix_def split: if_splits)
  qed
  then have "distinct (map fst d')"
    unfolding keys using assms(1) by (simp add: distinct_map plain_disk_def comp_inj_on)
  then have "plain_disk d'"
    using d'(2,3) assms(1,5) by (auto simp: plain_disk_iff split: if_splits)
  with d' show ?thesis by blast
qed

lemma plain_rename_file_over:
  assumes d: "plain_disk d" "os_lookup d old = Some (NFile x)" "os_lookup d (butlast new) = Some NDir"
    and new: "os_lookup d new = None \<or> (\<exists>y. os_lookup d new = Some (NFile y))" "old \<noteq> new" "\<forall>c \<in> set new. plain_name c" "new \<noteq> []"
  shows "\<exists>d'. os_Rename d old new = (d', None) \<and> plain_disk d' \<and> os_lookup d' = (os_lookup d)(old := None, new \<mapsto> NFile x)"
proof (cases "os_lookup d new = None")
  case True
  then show ?thesis using plain_rename_free [OF d(1,2) True d(3) new(3)] by blast
next
  case False
  with new(1) obtain y where y: "os_lookup d new = Some (NFile y)" by blast
  have del: "plain_disk (AList.delete new d)" "os_lookup (AList.delete new d) = (os_lookup d)(new := None)"
    using plain_disk_delete [OF d(1) new(4)] y by auto
  have "butlast new \<noteq> new" using new(4) by (metis append_butlast_last_id not_Cons_self2 append_self_conv)
  then obtain d' where d': "os_Rename (AList.delete new d) old new = (d', None)" "plain_disk d'"
    "os_lookup d' = ((os_lookup d)(new := None))(old := None, new \<mapsto> NFile x)"
    using plain_rename_free [OF del(1), of old x new] del(2) d(2,3) new by auto
  moreover have "os_Rename d old new = os_Rename (AList.delete new d) old new"
    using d(2,3) y new(2) del(2) \<open>butlast new \<noteq> new\<close> by (simp add: os_Rename_def parent_error_def Let_def)
  moreover have "((os_lookup d)(new := None))(old := None, new \<mapsto> NFile x) = (os_lookup d)(old := None, new \<mapsto> NFile x)"
    by auto
  ultimately show ?thesis by metis
qed

text \<open>Removing a tree, wholly or in part.\<close>

lemma find_Some: "find P xs = Some x \<Longrightarrow> x \<in> set xs \<and> P x"
  by (induction xs) (auto split: if_splits)

lemma plain_remove_leaves:
  "plain_disk d \<Longrightarrow> plain_disk (remove_leaves n d p) \<and>
    (\<forall>q. os_lookup (remove_leaves n d p) q = os_lookup d q \<or> prefix p q \<and> os_lookup (remove_leaves n d p) q = None)"
proof (induction n d p rule: remove_leaves.induct)
  case (2 n d p)
  show ?case
  proof (cases "find (\<lambda>(q, _). prefix p q \<and> \<not> has_children d q) d")
    case (Some qn)
    obtain q m where qm: "qn = (q, m)" by fastforce
    then have q: "(q, m) \<in> set d" "prefix p q" "\<not> has_children d q"
      using find_Some [OF Some] by auto
    have "q \<noteq> []" using q(1) 2(2) by (auto simp: plain_disk_def disk_wf_def)
    note del = plain_disk_delete [OF 2(2) this q(3)]
    from 2(1) [OF Some qm [symmetric] del(1)] Some qm q(2) show ?thesis by (auto simp: del(2)) metis+
  qed (use 2 in simp)
qed simp

lemma plain_RemoveAll:
  assumes "plain_disk d" "p \<noteq> []"
  shows "plain_disk (os_RemoveAll d p)" "os_lookup (os_RemoveAll d p) q = (if prefix p q then None else os_lookup d q)"
proof -
  have m: "map_of (os_RemoveAll d p) q = (if prefix p q then None else map_of d q)" for q
    by (induction d) (auto simp: os_RemoveAll_def)
  then show l: "os_lookup (os_RemoveAll d p) q = (if prefix p q then None else os_lookup d q)" for q
    using assms(2) by (simp add: os_lookup_def)
  have wf: "disk_wf d" using assms(1) by (simp add: plain_disk_def)
  have "disk_wf (os_RemoveAll d p)"
    unfolding disk_wf_lookup
  proof (intro conjI allI impI)
    show "[] \<notin> fst ` set (os_RemoveAll d p)" using disk_wf_keys [OF wf] by (force simp: os_RemoveAll_def)
    fix q assume "q \<noteq> []" "os_lookup (os_RemoveAll d p) q \<noteq> None"
    then have "os_lookup d (butlast q) = Some NDir" "\<not> prefix p (butlast q)"
      using wf by (auto simp: l disk_wf_lookup split: if_splits) (meson prefix_order.trans prefixeq_butlast)
    then show "os_lookup (os_RemoveAll d p) (butlast q) = Some NDir" by (simp add: l)
  qed
  moreover have "distinct (map fst (os_RemoveAll d p))"
    using assms(1) by (auto simp: os_RemoveAll_def plain_disk_def intro: distinct_map_filter)
  ultimately show "plain_disk (os_RemoveAll d p)"
    using assms(1) by (auto simp: plain_disk_iff l split: if_splits)
qed

end
