(* ===== verification/MarkerProps.thy ===== *)
theory MarkerProps
  imports TransferLogic
begin

text \<open>
  What writing, removing and listing markers does to the marker directory of a tree, and that it does
  nothing else: a marker is replaced as a whole, also when a fault or a crash interrupts the writing.
\<close>

subsection \<open>The marker directory\<close>

definition other_entry :: "marker_json \<Rightarrow> string \<Rightarrow> bytes \<Rightarrow> bool" where
  "other_entry J name x \<longleftrightarrow> filepath_Ext name \<noteq> ''.json'' \<or> (\<exists>m. j_Unmarshal J x = Some m \<and> \<not> is_convert m)"

text \<open>The tree at \<open>p\<close> has, of conversions, the marker \<open>mo\<close> of the operation \<open>op\<close> and no other.\<close>

definition area :: "marker_json \<Rightarrow> string \<Rightarrow> disk \<Rightarrow> fpath \<Rightarrow> OperationMarker option \<Rightarrow> bool" where
  "area J op d p mo \<longleftrightarrow>
    (\<forall>k n. os_lookup d (p @ baseDirName # k) = Some n \<longrightarrow>
       (k = [] \<or> k = [activeDirName]) \<and> n = NDir \<or>
       (\<exists>name x. k = [activeDirName, name] \<and> n = NFile x \<and>
          (if name = op @ ''.json'' then \<exists>m. mo = Some m \<and> x = j_Marshal J m else other_entry J name x))) \<and>
    (\<forall>m. mo = Some m \<longrightarrow> os_lookup d (p @ [baseDirName, activeDirName, op @ ''.json'']) = Some (NFile (j_Marshal J m)))"

definition same_but :: "fpath list \<Rightarrow> disk \<Rightarrow> disk \<Rightarrow> bool" where
  "same_but ps d d' \<longleftrightarrow> (\<forall>q. (\<forall>p \<in> set ps. \<not> prefix p q) \<longrightarrow> os_lookup d' q = os_lookup d q)"

definition site :: "marker_json \<Rightarrow> string \<Rightarrow> fpath \<Rightarrow> OperationMarker option \<Rightarrow> disk \<Rightarrow> bool" where
  "site J op p mo d \<longleftrightarrow> validateOpID op = None \<and> (\<forall>v \<in> set p. plain_name v) \<and> plain_disk d \<and>
     os_lookup d p = Some NDir \<and> area J op d p mo"

text \<open>A state on the way from \<open>d\<close>: only the marker directory differs.\<close>

definition marked :: "marker_json \<Rightarrow> string \<Rightarrow> fpath \<Rightarrow> disk \<Rightarrow> OperationMarker option \<Rightarrow> disk \<Rightarrow> bool" where
  "marked J op p d mo d' \<longleftrightarrow> site J op p mo d' \<and> same_but [p @ [baseDirName]] d d'"

lemma op_char_plain: "op_char c \<Longrightarrow> \<not> is_sep c \<and> c \<noteq> CHR ''.'' \<and> c \<noteq> colon"
  by (auto simp: op_char_def is_sep_def)

lemma op_facts:
  assumes "validateOpID op = None"
  shows "op \<noteq> []" "plain_name op" "plain_name (op @ ''.json'')" "plain_name (op @ ''.json.tmp'')"
proof -
  show ne: "op \<noteq> []" using assms by (auto simp: validateOpID_def)
  have "\<forall>c \<in> set op. op_char c" using assms by (auto simp: validateOpID_def list_all_iff split: if_splits)
  then have c: "\<forall>c \<in> set op. \<not> is_sep c \<and> c \<noteq> CHR ''.''" using op_char_plain by blast
  with ne show "plain_name op" "plain_name (op @ ''.json'')" "plain_name (op @ ''.json.tmp'')"
    by (cases op; auto simp: plain_name_def no_sep_def is_sep_def)+
qed

lemma Ext_json: "filepath_Ext (s @ ''.json'') = ''.json''"
  by (simp add: filepath_Ext_def Let_def)

lemma Ext_tmp: "filepath_Ext (s @ ''.json.tmp'') = ''.tmp''"
  by (simp add: filepath_Ext_def Let_def)

lemma dir_names: "plain_name baseDirName" "plain_name activeDirName"
  by (simp_all add: plain_name_def no_sep_def is_sep_def baseDirName_def activeDirName_def)

lemma abs_append: "p \<noteq> [] \<Longrightarrow> abs_path (p @ [c]) = abs_path p @ slash # c"
  using join_slash_append by (simp add: abs_path_def)

lemma marker_paths:
  assumes p: "\<forall>v \<in> set p. plain_name v" and op: "validateOpID op = None"
  shows "baseDir (abs_path p) = abs_path (p @ [baseDirName])"
    "activeDir (abs_path p) = abs_path (p @ [baseDirName, activeDirName])"
    "markerPath (abs_path p) op = abs_path (p @ [baseDirName, activeDirName, op @ ''.json''])"
    "markerPath (abs_path p) op @ ''.tmp'' = abs_path (p @ [baseDirName, activeDirName, op @ ''.json.tmp''])"
proof -
  show 1: "baseDir (abs_path p) = abs_path (p @ [baseDirName])"
    using Join_abs [OF p dir_names(1)] by (simp add: baseDir_def)
  show 2: "activeDir (abs_path p) = abs_path (p @ [baseDirName, activeDirName])"
    using Join_abs [of "p @ [baseDirName]" activeDirName] p dir_names 1 by (simp add: activeDir_def)
  show 3: "markerPath (abs_path p) op = abs_path (p @ [baseDirName, activeDirName, op @ ''.json''])"
    using Join_abs [of "p @ [baseDirName, activeDirName]" "op @ ''.json''"] p dir_names 2 op_facts(3) [OF op]
    by (simp add: markerPath_def)
  show "markerPath (abs_path p) op @ ''.tmp'' = abs_path (p @ [baseDirName, activeDirName, op @ ''.json.tmp''])"
    using abs_append [of "p @ [baseDirName, activeDirName]" "op @ ''.json''"]
      abs_append [of "p @ [baseDirName, activeDirName]" "op @ ''.json.tmp''"] by (simp add: 3)
qed

lemma marker_components:
  assumes p: "\<forall>v \<in> set p. plain_name v" and op: "validateOpID op = None"
  shows "components (abs_path p) = p"
    "components (baseDir (abs_path p)) = p @ [baseDirName]"
    "components (activeDir (abs_path p)) = p @ [baseDirName, activeDirName]"
    "components (markerPath (abs_path p) op) = p @ [baseDirName, activeDirName, op @ ''.json'']"
    "components (markerPath (abs_path p) op @ ''.tmp'') = p @ [baseDirName, activeDirName, op @ ''.json.tmp'']"
proof -
  show "components (markerPath (abs_path p) op @ ''.tmp'') = p @ [baseDirName, activeDirName, op @ ''.json.tmp'']"
    unfolding marker_paths(4) [OF assms] by (rule components_abs) (use p dir_names op_facts [OF op] in auto)
qed (use components_abs p dir_names op_facts [OF op] in \<open>auto simp: marker_paths [OF assms]\<close>)

subsection \<open>Steps inside the marker directory\<close>

lemma same_but_refl [simp]: "same_but ps d d"
  by (simp add: same_but_def)

lemma same_but_trans: "same_but ps d d1 \<Longrightarrow> same_but ps d1 d2 \<Longrightarrow> same_but ps d d2"
  by (simp add: same_but_def)

lemma marked_start: "site J op p mo d \<Longrightarrow> marked J op p d mo d"
  by (simp add: marked_def)

lemma marked_trans: "marked J op p d mo d1 \<Longrightarrow> marked J op p d1 mo' d2 \<Longrightarrow> marked J op p d mo' d2"
  unfolding marked_def by (blast intro: same_but_trans)

lemma area_mono:
  assumes "area J op d p mo" "\<And>k n. os_lookup d' (p @ baseDirName # k) = Some n \<Longrightarrow>
      os_lookup d (p @ baseDirName # k) = Some n \<or> (k = [] \<or> k = [activeDirName]) \<and> n = NDir \<or>
      (\<exists>x. k = [activeDirName, op @ ''.json.tmp''] \<and> n = NFile x)"
    and "os_lookup d' (p @ [baseDirName, activeDirName, op @ ''.json'']) = os_lookup d (p @ [baseDirName, activeDirName, op @ ''.json''])"
  shows "area J op d' p mo"
  unfolding area_def
proof (intro conjI allI impI)
  fix k n assume n: "os_lookup d' (p @ baseDirName # k) = Some n"
  let ?ok = "(k = [] \<or> k = [activeDirName]) \<and> n = NDir \<or>
       (\<exists>name x. k = [activeDirName, name] \<and> n = NFile x \<and>
          (if name = op @ ''.json'' then \<exists>m. mo = Some m \<and> x = j_Marshal J m else other_entry J name x))"
  from assms(2) [OF n] show ?ok
  proof (elim disjE)
    assume "os_lookup d (p @ baseDirName # k) = Some n"
    with assms(1) show ?ok unfolding area_def by blast
  next
    assume "\<exists>x. k = [activeDirName, op @ ''.json.tmp''] \<and> n = NFile x"
    moreover have "other_entry J (op @ ''.json.tmp'') x" for x by (simp add: other_entry_def Ext_tmp)
    ultimately show ?ok by auto
  qed blast
qed (use assms(1,3) in \<open>simp add: area_def\<close>)

lemma mark_mkdirs:
  assumes s: "site J op p mo d" and "os_MkdirAll d (take n (p @ [baseDirName, activeDirName])) = (d', e)"
  shows "marked J op p d mo d'"
    "length p + 2 \<le> n \<Longrightarrow> e = None \<and> os_lookup d' (p @ [baseDirName, activeDirName]) = Some NDir"
proof -
  let ?A = "p @ [baseDirName, activeDirName]"
  note s' = s [unfolded site_def]
  have names: "\<forall>c \<in> set (take n ?A). plain_name c"
    using s' dir_names in_set_takeD [of _ n ?A] by fastforce
  note mk = plain_MkdirAll [OF _ names assms(2)]
  have d': "plain_disk d'" "new_dirs (take n ?A) d d'" using mk s' by blast+
  have pre: "prefix q ?A" if "prefix q (take n ?A)" for q
    using that take_is_prefix prefix_order.trans by blast
  have dirs: "os_lookup d q = Some NDir" if q: "prefix q p" for q
  proof -
    have "disk_wf d" using s' by (simp add: plain_disk_def)
    obtain k where "p = q @ k" using q by (rule prefixE)
    moreover have "os_lookup d (q @ k) = Some NDir \<Longrightarrow> os_lookup d q = Some NDir" for k
    proof (induction k rule: rev_induct)
      case (snoc c k)
      then show ?case using lookup_parent [OF \<open>disk_wf d\<close>, of "q @ k @ [c]" NDir] by (simp add: butlast_append)
    qed simp
    ultimately show ?thesis using s' by blast
  qed
  have cases: "prefix q ?A \<Longrightarrow> prefix q p \<or> q = p @ [baseDirName] \<or> q = ?A" for q
    by (auto simp: prefix_append prefix_Cons)
  have new: "os_lookup d' q = os_lookup d q \<or> (q = p @ [baseDirName] \<or> q = ?A) \<and> os_lookup d q = None \<and> os_lookup d' q = Some NDir" for q
    using d'(2) pre cases dirs unfolding new_dirs_def by (metis option.distinct(1))
  have outside: "same_but [p @ [baseDirName]] d d'"
    unfolding same_but_def using new by (auto simp: prefix_def)
  have "area J op d' p mo"
  proof (rule area_mono)
    show "area J op d p mo" using s' by blast
    show "os_lookup d (p @ baseDirName # k) = Some n \<or> (k = [] \<or> k = [activeDirName]) \<and> n = NDir \<or>
        (\<exists>x. k = [activeDirName, op @ ''.json.tmp''] \<and> n = NFile x)"
      if "os_lookup d' (p @ baseDirName # k) = Some n" for k n
      using new [of "p @ baseDirName # k"] that by auto
    show "os_lookup d' (p @ [baseDirName, activeDirName, op @ ''.json'']) = os_lookup d (p @ [baseDirName, activeDirName, op @ ''.json''])"
      using new [of "p @ [baseDirName, activeDirName, op @ ''.json'']"] by auto
  qed
  moreover have "os_lookup d' p = Some NDir" using new [of p] s' by auto
  ultimately show "marked J op p d mo d'" using outside d'(1) s' by (simp add: marked_def site_def)
  assume n: "length p + 2 \<le> n"
  have all: "take n ?A = ?A" using n by simp
  have "os_lookup d k \<in> {None, Some NDir}" if "prefix k (take n ?A)" for k
  proof -
    have "os_lookup d (p @ [baseDirName]) \<in> {None, Some NDir}" "os_lookup d ?A \<in> {None, Some NDir}"
      using s' unfolding area_def by (metis (no_types, lifting) insertCI list.distinct(1) list.inject not_None_eq)+
    with cases [OF pre [OF that]] dirs show ?thesis by auto
  qed
  with mk s' all show "e = None \<and> os_lookup d' ?A = Some NDir" by metis
qed

text \<open>The temporary file and the marker itself.\<close>

abbreviation active_at :: "fpath \<Rightarrow> fpath" where "active_at p \<equiv> p @ [baseDirName, activeDirName]"
abbreviation marker_at :: "string \<Rightarrow> fpath \<Rightarrow> fpath" where "marker_at op p \<equiv> p @ [baseDirName, activeDirName, op @ ''.json'']"
abbreviation tmp_at :: "string \<Rightarrow> fpath \<Rightarrow> fpath" where "tmp_at op p \<equiv> p @ [baseDirName, activeDirName, op @ ''.json.tmp'']"

lemma at_facts:
  "butlast (tmp_at op p) = active_at p" "butlast (marker_at op p) = active_at p"
  "tmp_at op p \<noteq> []" "marker_at op p \<noteq> []" "tmp_at op p \<noteq> active_at p" "marker_at op p \<noteq> active_at p"
  "tmp_at op p \<noteq> p" "marker_at op p \<noteq> p" "tmp_at op p \<noteq> marker_at op p" "marker_at op p \<noteq> tmp_at op p"
  by (simp_all add: butlast_append)

lemma site_names:
  assumes "site J op p mo d"
  shows "\<forall>c \<in> set (tmp_at op p). plain_name c" "\<forall>c \<in> set (marker_at op p). plain_name c"
  using assms dir_names op_facts [of op] by (auto simp: site_def)

lemma area_file:
  "area J op d p mo \<Longrightarrow> os_lookup d (p @ [baseDirName, activeDirName, name]) = None \<or>
    (\<exists>x. os_lookup d (p @ [baseDirName, activeDirName, name]) = Some (NFile x))"
  unfolding area_def by (cases "os_lookup d (p @ [baseDirName, activeDirName, name])") fastforce+

lemma below_base: "same_but [p @ [baseDirName]] d (AList.update (p @ baseDirName # k) n d)"
  by (auto simp: same_but_def lookup_update prefix_def)

lemma mark_set_tmp:
  assumes m: "marked J op p d mo d1" "os_lookup d1 (active_at p) = Some NDir"
  shows "marked J op p d mo (AList.update (tmp_at op p) (NFile x) d1)"
    "os_lookup (AList.update (tmp_at op p) (NFile x) d1) = (os_lookup d1)(tmp_at op p \<mapsto> NFile x)"
proof -
  note s = m(1) [unfolded marked_def, THEN conjunct1]
  note s' = s [unfolded site_def]
  have reg: "os_lookup d1 (tmp_at op p) \<noteq> Some NDir"
    using area_file [of J op d1 p mo "op @ ''.json.tmp''"] s' by auto
  note set = plain_disk_set [OF _ _ _ reg site_names(1) [OF s], unfolded at_facts(1), of "NFile x"]
  show l: "os_lookup (AList.update (tmp_at op p) (NFile x) d1) = (os_lookup d1)(tmp_at op p \<mapsto> NFile x)"
    using set m(2) s' at_facts(3) by blast
  have "plain_disk (AList.update (tmp_at op p) (NFile x) d1)" using set m(2) s' at_facts(3) by blast
  moreover have "area J op (AList.update (tmp_at op p) (NFile x) d1) p mo"
  proof (rule area_mono)
    show "area J op d1 p mo" using s' by blast
  qed (auto simp: l split: if_splits)
  ultimately have "site J op p mo (AList.update (tmp_at op p) (NFile x) d1)"
    using s' by (simp add: site_def l)
  moreover have "same_but [p @ [baseDirName]] d1 (AList.update (tmp_at op p) (NFile x) d1)" by (rule below_base)
  ultimately show "marked J op p d mo (AList.update (tmp_at op p) (NFile x) d1)"
    using m(1) same_but_trans unfolding marked_def by blast
qed

lemma mark_remove_tmp:
  assumes m: "marked J op p d mo d1" and r: "os_Remove d1 (tmp_at op p) = (d2, e)"
  shows "marked J op p d mo d2"
proof -
  note s = m [unfolded marked_def, THEN conjunct1]
  note s' = s [unfolded site_def]
  consider "os_lookup d1 (tmp_at op p) = None" | x where "os_lookup d1 (tmp_at op p) = Some (NFile x)"
    using area_file [of J op d1 p mo "op @ ''.json.tmp''"] s' by auto
  then show ?thesis
  proof cases
    case 1
    then show ?thesis using r m by (simp add: os_Remove_def)
  next
    case 2
    then have d2: "d2 = AList.delete (tmp_at op p) d1" using r by (simp add: os_Remove_def)
    note del = plain_disk_delete [of d1 "tmp_at op p", folded d2]
    have l: "os_lookup d2 = (os_lookup d1)(tmp_at op p := None)" "plain_disk d2" using del 2 s' by auto
    have "area J op d2 p mo"
    proof (rule area_mono)
      show "area J op d1 p mo" using s' by blast
    qed (auto simp: l split: if_splits)
    moreover have "same_but [p @ [baseDirName]] d1 d2" by (auto simp: same_but_def l prefix_def)
    ultimately show ?thesis
      using m s' l same_but_trans unfolding marked_def site_def by fastforce
  qed
qed

lemma mark_commit:
  assumes m: "marked J op p d mo d1" "os_lookup d1 (active_at p) = Some NDir"
    and tmp: "os_lookup d1 (tmp_at op p) = Some (NFile (j_Marshal J mk))"
  shows "\<exists>d2. os_Rename d1 (tmp_at op p) (marker_at op p) = (d2, None) \<and> marked J op p d (Some mk) d2 \<and>
    os_lookup d2 (active_at p) = Some NDir"
proof -
  note s = m(1) [unfolded marked_def, THEN conjunct1]
  note s' = s [unfolded site_def]
  obtain d2 where d2: "os_Rename d1 (tmp_at op p) (marker_at op p) = (d2, None)" "plain_disk d2"
    "os_lookup d2 = (os_lookup d1)(tmp_at op p := None, marker_at op p \<mapsto> NFile (j_Marshal J mk))"
  proof -
    have "\<exists>d2. os_Rename d1 (tmp_at op p) (marker_at op p) = (d2, None) \<and> plain_disk d2 \<and>
        os_lookup d2 = (os_lookup d1)(tmp_at op p := None, marker_at op p \<mapsto> NFile (j_Marshal J mk))"
    proof (rule plain_rename_file_over)
      show "os_lookup d1 (marker_at op p) = None \<or> (\<exists>y. os_lookup d1 (marker_at op p) = Some (NFile y))"
        by (rule area_file) (use s' in blast)
    qed (use tmp m(2) s' site_names(2) [OF s] in \<open>auto simp: butlast_append\<close>)
    then show ?thesis using that by blast
  qed
  have "area J op d2 p (Some mk)"
    unfolding area_def
  proof (intro conjI allI impI)
    fix k n assume n: "os_lookup d2 (p @ baseDirName # k) = Some n"
    show "(k = [] \<or> k = [activeDirName]) \<and> n = NDir \<or>
       (\<exists>name x. k = [activeDirName, name] \<and> n = NFile x \<and>
          (if name = op @ ''.json'' then \<exists>m. Some mk = Some m \<and> x = j_Marshal J m else other_entry J name x))"
    proof (cases "k = [activeDirName, op @ ''.json'']")
      case True
      with n show ?thesis by (simp add: d2(3))
    next
      case False
      then have "os_lookup d1 (p @ baseDirName # k) = Some n" using n by (auto simp: d2(3) split: if_splits)
      moreover have "area J op d1 p mo" using s' by blast
      ultimately have "(k = [] \<or> k = [activeDirName]) \<and> n = NDir \<or>
         (\<exists>name x. k = [activeDirName, name] \<and> n = NFile x \<and>
            (if name = op @ ''.json'' then \<exists>m. mo = Some m \<and> x = j_Marshal J m else other_entry J name x))"
        unfolding area_def by blast
      with False show ?thesis by (elim disjE exE conjE) auto
    qed
  qed (simp add: d2(3))
  moreover have "same_but [p @ [baseDirName]] d1 d2" by (auto simp: same_but_def d2(3) prefix_def)
  ultimately have "marked J op p d (Some mk) d2"
    using m s' d2(2,3) same_but_trans unfolding marked_def site_def by fastforce
  moreover have "os_lookup d2 (active_at p) = Some NDir" using m(2) by (simp add: d2(3))
  ultimately show ?thesis using d2(1) by blast
qed

subsection \<open>The calls of writing and removing\<close>

lemma wp_mark_mkdirs:
  assumes m: "marked J op p d mo d1" and I: "\<And>d2. marked J op p d mo d2 \<Longrightarrow> I d2"
    and Q: "\<And>e d2. marked J op p d mo d2 \<Longrightarrow> (fl \<Longrightarrow> e = None) \<Longrightarrow> (e = None \<Longrightarrow> os_lookup d2 (active_at p) = Some NDir) \<Longrightarrow> Q e d2"
  shows "wp fl I (call_MkdirAll (activeDir (abs_path p))) Q d1"
proof -
  note s = m [unfolded marked_def, THEN conjunct1]
  have c: "components (activeDir (abs_path p)) = active_at p"
    using marker_components(3) [of p op] s by (simp add: site_def)
  show ?thesis
    unfolding call_MkdirAll_def c
  proof (rule wp_os_call)
    fix d' e assume mk: "os_MkdirAll d1 (active_at p) = (d', e)"
    have all: "take (length p + 2) (active_at p) = active_at p" by simp
    note step = mark_mkdirs [OF s, of "length p + 2", unfolded all, OF mk]
    have "marked J op p d mo d'" by (rule marked_trans [OF m step(1)])
    with I Q step(2) show "I d' \<and> Q (map_option OsError e) d'" by simp
  next
    fix n assume "\<not> fl"
    obtain d' e where "os_MkdirAll d1 (take n (active_at p)) = (d', e)" by fastforce
    with marked_trans [OF m mark_mkdirs(1) [OF s this]] I Q \<open>\<not> fl\<close>
    show "I (fst (os_MkdirAll d1 (take n (active_at p)))) \<and> Q (Some Faulted) (fst (os_MkdirAll d1 (take n (active_at p))))"
      by (metis fst_conv option.distinct(1))
  qed
qed

text \<open>The directory is there.\<close>

definition opened_at :: "marker_json \<Rightarrow> string \<Rightarrow> fpath \<Rightarrow> disk \<Rightarrow> OperationMarker option \<Rightarrow> disk \<Rightarrow> bool" where
  "opened_at J op p d mo d1 \<longleftrightarrow> marked J op p d mo d1 \<and> os_lookup d1 (active_at p) = Some NDir"

lemma opened_base: "opened_at J op p d mo d1 \<Longrightarrow> os_lookup d1 (p @ [baseDirName]) = Some NDir"
  using lookup_parent [of d1 "active_at p" NDir] by (simp add: opened_at_def marked_def site_def plain_disk_def butlast_append)

lemma opened_root: "opened_at J op p d mo d1 \<Longrightarrow> os_lookup d1 p = Some NDir"
  by (simp add: opened_at_def marked_def site_def)

lemma opened_components:
  assumes "opened_at J op p d mo d1"
  shows "components (abs_path p) = p" "components (baseDir (abs_path p)) = p @ [baseDirName]"
    "components (activeDir (abs_path p)) = active_at p" "components (markerPath (abs_path p) op) = marker_at op p"
    "components (markerPath (abs_path p) op @ ''.tmp'') = tmp_at op p"
  using marker_components [of p op] assms by (simp_all add: opened_at_def marked_def site_def)

lemma wp_tmp_create:
  assumes o: "opened_at J op p d mo d1" and I: "\<And>d2. marked J op p d mo d2 \<Longrightarrow> I d2"
    and Q: "\<And>e d2. opened_at J op p d mo d2 \<Longrightarrow> (fl \<Longrightarrow> e = None) \<Longrightarrow> Q e d2"
  shows "wp fl I (call_Create (markerPath (abs_path p) op @ ''.tmp'')) Q d1"
proof -
  have m: "marked J op p d mo d1" "os_lookup d1 (active_at p) = Some NDir" using o by (simp_all add: opened_at_def)
  have reg: "os_lookup d1 (tmp_at op p) = None \<or> (\<exists>x. os_lookup d1 (tmp_at op p) = Some (NFile x))"
    by (rule area_file [of J op d1 p mo]) (use m(1) in \<open>simp add: marked_def site_def\<close>)
  have f: "os_OpenFile 0 d1 (tmp_at op p) trunc_mode =
      (AList.update (tmp_at op p) (NFile []) d1, Inr (OpenedFile (handle trunc_mode [] 0)))"
    using reg m(2) by (auto simp: os_OpenFile_def trunc_mode_def parent_error_def butlast_append)
  note set = mark_set_tmp [OF m, of "[]"]
  have "opened_at J op p d mo (AList.update (tmp_at op p) (NFile []) d1)"
    using set m(2) by (simp add: opened_at_def)
  then show ?thesis
    unfolding call_Create_def opened_components(5) [OF o]
    by (intro wp_os_call) (use I Q m o f set in \<open>auto simp: opened_at_def\<close>)
qed

lemma wp_tmp_write:
  assumes o: "opened_at J op p d mo d1" and I: "\<And>d2. marked J op p d mo d2 \<Longrightarrow> I d2"
    and Q: "\<And>e d2. opened_at J op p d mo d2 \<Longrightarrow> (fl \<Longrightarrow> e = None) \<Longrightarrow>
      (e = None \<Longrightarrow> os_lookup d2 (tmp_at op p) = Some (NFile b)) \<Longrightarrow> Q e d2"
  shows "wp fl I (call_Write (markerPath (abs_path p) op @ ''.tmp'') b) Q d1"
proof -
  have m: "marked J op p d mo d1" "os_lookup d1 (active_at p) = Some NDir" using o by (simp_all add: opened_at_def)
  have set: "opened_at J op p d mo (AList.update (tmp_at op p) (NFile x) d1)"
      "os_lookup (AList.update (tmp_at op p) (NFile x) d1) (tmp_at op p) = Some (NFile x)" for x
    using mark_set_tmp [OF m, of x] m(2) by (simp_all add: opened_at_def)
  then show ?thesis
    unfolding call_Write_def opened_components(5) [OF o]
    by (intro wp_os_call) (use I Q set in \<open>auto simp: opened_at_def\<close>)
qed

lemma wp_tmp_remove:
  assumes o: "opened_at J op p d mo d1" and I: "\<And>d2. marked J op p d mo d2 \<Longrightarrow> I d2"
    and Q: "\<And>e d2. marked J op p d mo d2 \<Longrightarrow> Q e d2"
  shows "wp fl I (call_Remove (markerPath (abs_path p) op @ ''.tmp'')) Q d1"
proof -
  have m: "marked J op p d mo d1" using o by (simp add: opened_at_def)
  show ?thesis
    unfolding call_Remove_def opened_components(5) [OF o]
    by (intro wp_os_call) (use I Q mark_remove_tmp [OF m] m in auto)
qed

lemma wp_marker_rename:
  assumes o: "opened_at J op p d mo d1" and tmp: "os_lookup d1 (tmp_at op p) = Some (NFile (j_Marshal J mk))"
    and I: "\<And>d2. marked J op p d mo d2 \<or> marked J op p d (Some mk) d2 \<Longrightarrow> I d2"
    and Q: "\<And>e d2. (fl \<Longrightarrow> e = None) \<Longrightarrow> (e = None \<Longrightarrow> opened_at J op p d (Some mk) d2) \<Longrightarrow>
      (e \<noteq> None \<Longrightarrow> opened_at J op p d mo d2) \<Longrightarrow> Q e d2"
  shows "wp fl I (call_Rename (markerPath (abs_path p) op @ ''.tmp'') (markerPath (abs_path p) op)) Q d1"
proof -
  have m: "marked J op p d mo d1" "os_lookup d1 (active_at p) = Some NDir" using o by (simp_all add: opened_at_def)
  obtain d2 where d2: "os_Rename d1 (tmp_at op p) (marker_at op p) = (d2, None)" "marked J op p d (Some mk) d2"
      "os_lookup d2 (active_at p) = Some NDir" using mark_commit [OF m tmp] by blast
  show ?thesis
    unfolding call_Rename_def opened_components(4,5) [OF o]
    by (intro wp_os_call) (use I Q d2 m in \<open>auto simp: opened_at_def\<close>)
qed

lemma wp_opened_sync:
  assumes o: "opened_at J op p d mo d1" and I: "I d1" and Q: "\<And>e. (fl \<Longrightarrow> e = None) \<Longrightarrow> Q e d1"
    and q: "q = activeDir (abs_path p) \<or> q = baseDir (abs_path p) \<or> q = abs_path p"
  shows "wp fl I (syncDir m q) Q d1" "wp fl I (call_Chmod q) Q d1"
proof -
  have "os_lookup d1 (components q) = Some NDir"
    using q opened_components [OF o] opened_base [OF o] opened_root [OF o] o by (auto simp: opened_at_def)
  then show "wp fl I (syncDir m q) Q d1" "wp fl I (call_Chmod q) Q d1"
    using I Q by (auto intro!: wp_syncDir wp_Chmod)
qed

text \<open>The whole of writing a marker: afterwards it is the new one, or an error is reported and it is still
  the old one; an error of the last syncs is reported too.\<close>

lemma wp_sync_marker:
  assumes o: "opened_at J op p d mo d1" and I: "I d1" and Q: "\<And>e. (fl \<Longrightarrow> e = None) \<Longrightarrow> Q e d1"
  shows "wp fl I (sync_marker m (abs_path p)) Q d1"
proof -
  have step: "wp fl I (check op' (syncDir m q) k) Q d1"
    if "wp fl I k Q d1" "q = activeDir (abs_path p) \<or> q = baseDir (abs_path p) \<or> q = abs_path p" for op' q k
    by (rule wp_check, rule wp_opened_sync(1) [OF o]) (use that I Q in \<open>auto split: option.splits\<close>)
  show ?thesis
    unfolding sync_marker_def by (intro step wp_return) (use Q in auto)
qed

lemma wp_install_marker:
  assumes o: "opened_at J op p d mo d1" and tmp: "os_lookup d1 (tmp_at op p) = Some (NFile (j_Marshal J mk))"
    and I: "\<And>d2. marked J op p d mo d2 \<or> marked J op p d (Some mk) d2 \<Longrightarrow> I d2"
    and Q: "\<And>e d2. (fl \<Longrightarrow> e = None) \<Longrightarrow> opened_at J op p d (Some mk) d2 \<Longrightarrow> Q e d2"
      "\<And>e d2. \<not> fl \<Longrightarrow> e \<noteq> None \<Longrightarrow> marked J op p d mo d2 \<Longrightarrow> Q e d2"
  shows "wp fl I (install_marker m (abs_path p) (markerPath (abs_path p) op)) Q d1"
proof -
  have undo: "wp fl I (call_Remove (markerPath (abs_path p) op @ ''.tmp'')) (\<lambda>_. Q (Some x)) d2"
    if "\<not> fl" "opened_at J op p d mo d2" for x d2
    by (rule wp_tmp_remove [OF that(2)]) (use I Q(2) that(1) in auto)
  have sync: "wp fl I (sync_marker m (abs_path p)) Q d2" if "opened_at J op p d (Some mk) d2" for d2
    by (rule wp_sync_marker [OF that]) (use I Q(1) that in \<open>auto simp: opened_at_def\<close>)
  have commit: "wp fl I (check_or ''commit marker'' (call_Rename (markerPath (abs_path p) op @ ''.tmp'') (markerPath (abs_path p) op))
      (call_Remove (markerPath (abs_path p) op @ ''.tmp'')) (sync_marker m (abs_path p))) Q d1"
  proof (rule wp_check_or, rule wp_marker_rename [OF o tmp I])
    fix e :: "call_error option" and d2 assume e: "fl \<Longrightarrow> e = None" "e = None \<Longrightarrow> opened_at J op p d (Some mk) d2" "e \<noteq> None \<Longrightarrow> opened_at J op p d mo d2"
    show "case e of None \<Rightarrow> wp fl I (sync_marker m (abs_path p)) Q d2
      | Some x \<Rightarrow> wp fl I (call_Remove (markerPath (abs_path p) op @ ''.tmp'')) (\<lambda>_. Q (Some (TCall ''commit marker'' x))) d2"
      using e sync undo by (cases e; cases fl) auto
  qed
  have undo': "wp fl I (State_Monad.bind (call_Remove (markerPath (abs_path p) op @ ''.tmp'')) (\<lambda>_. io_return (Some x))) Q d1"
    if "\<not> fl" for x
    by (rule wp_bind, rule wp_mono [OF undo [OF that o]]) (rule wp_return)
  have "I d1" using I o by (simp add: opened_at_def)
  then show ?thesis
    unfolding install_marker_def Let_def
  proof (intro wp_bind wp_syncOSFile wp_Handle)
    fix s c :: "call_error option" assume e: "fl \<Longrightarrow> s = None" "fl \<Longrightarrow> c = None"
    show "wp fl I (if s \<noteq> None \<or> c \<noteq> None
        then State_Monad.bind (call_Remove (markerPath (abs_path p) op @ ''.tmp''))
               (\<lambda>_. io_return (Some (case s of None \<Rightarrow> TCall ''close marker'' (the c) | Some x \<Rightarrow> TCall ''sync marker'' x)))
        else check_or ''commit marker'' (call_Rename (markerPath (abs_path p) op @ ''.tmp'') (markerPath (abs_path p) op))
            (call_Remove (markerPath (abs_path p) op @ ''.tmp'')) (sync_marker m (abs_path p))) Q d1"
      using commit undo' e by (cases fl) auto
  qed
qed

lemma wp_commit_marker:
  assumes o: "opened_at J op p d mo d1"
    and I: "\<And>d2. marked J op p d mo d2 \<or> marked J op p d (Some mk) d2 \<Longrightarrow> I d2"
    and Q: "\<And>e d2. (fl \<Longrightarrow> e = None) \<Longrightarrow> opened_at J op p d (Some mk) d2 \<Longrightarrow> Q e d2"
      "\<And>e d2. \<not> fl \<Longrightarrow> e \<noteq> None \<Longrightarrow> marked J op p d mo d2 \<Longrightarrow> Q e d2"
  shows "wp fl I (commit_marker m (abs_path p) (markerPath (abs_path p) op) (j_Marshal J mk)) Q d1"
proof -
  let ?tmp = "markerPath (abs_path p) op @ ''.tmp''"
  let ?install = "install_marker m (abs_path p) (markerPath (abs_path p) op)"
  have Im: "marked J op p d mo d2 \<Longrightarrow> I d2" for d2 using I by simp
  have undo: "wp fl I (call_Remove ?tmp) (\<lambda>_. Q (Some x)) d2" if "\<not> fl" "opened_at J op p d mo d2" for x d2
    by (rule wp_tmp_remove [OF that(2)]) (use I Q(2) that(1) in auto)
  have put: "wp fl I (check_or ''write marker'' (call_Write ?tmp (j_Marshal J mk)) (call_Remove ?tmp) ?install) Q d2"
    if o2: "opened_at J op p d mo d2" for d2
  proof (rule wp_check_or, rule wp_tmp_write [OF o2 Im])
    fix e :: "call_error option" and d3 assume e: "opened_at J op p d mo d3" "fl \<Longrightarrow> e = None" "e = None \<Longrightarrow> os_lookup d3 (tmp_at op p) = Some (NFile (j_Marshal J mk))"
    show "case e of None \<Rightarrow> wp fl I ?install Q d3 | Some x \<Rightarrow> wp fl I (call_Remove ?tmp) (\<lambda>_. Q (Some (TCall ''write marker'' x))) d3"
    proof (cases e)
      case None
      have "wp fl I ?install Q d3" by (rule wp_install_marker [OF e(1) e(3) [OF None]]) (use I Q in auto)
      with None show ?thesis by simp
    qed (use e undo in \<open>cases fl; auto\<close>)
  qed
  have protect: "wp fl I (check_or ''protect marker'' call_Handle (call_Remove ?tmp)
      (check_or ''write marker'' (call_Write ?tmp (j_Marshal J mk)) (call_Remove ?tmp) ?install)) Q d2"
    if o2: "opened_at J op p d mo d2" for d2
  proof (rule wp_check_or, rule wp_Handle)
    show "I d2" using Im o2 by (simp add: opened_at_def)
    fix e :: "call_error option" assume e: "fl \<Longrightarrow> e = None"
    show "case e of None \<Rightarrow> wp fl I (check_or ''write marker'' (call_Write ?tmp (j_Marshal J mk)) (call_Remove ?tmp) ?install) Q d2
      | Some x \<Rightarrow> wp fl I (call_Remove ?tmp) (\<lambda>_. Q (Some (TCall ''protect marker'' x))) d2"
      using e undo [OF _ o2] put [OF o2] by (cases e; cases fl) auto
  qed
  show ?thesis
    unfolding commit_marker_def Let_def
  proof (rule wp_check, rule wp_tmp_create [OF o Im])
    fix e :: "call_error option" and d2 assume e: "opened_at J op p d mo d2" "fl \<Longrightarrow> e = None"
    then show "case e of None \<Rightarrow> wp fl I (check_or ''protect marker'' call_Handle (call_Remove ?tmp)
        (check_or ''write marker'' (call_Write ?tmp (j_Marshal J mk)) (call_Remove ?tmp) ?install)) Q d2
      | Some x \<Rightarrow> Q (Some (TCall ''write marker'' x)) d2"
      using protect Q(2) by (cases e; cases fl) (auto simp: opened_at_def)
  qed
qed

lemma wp_writeMarker:
  assumes m: "marked J op p d mo d1" and op: "mOpID mk = op"
    and I: "\<And>d2. marked J op p d mo d2 \<Longrightarrow> I d2" "\<And>now d2. marked J op p d (Some (stamp now mk)) d2 \<Longrightarrow> I d2"
    and Q: "\<And>e d2 now. (fl \<Longrightarrow> e = None) \<Longrightarrow> marked J op p d (Some (stamp now mk)) d2 \<Longrightarrow> Q e d2"
      "\<And>e d2. \<not> fl \<Longrightarrow> e \<noteq> None \<Longrightarrow> marked J op p d mo d2 \<Longrightarrow> Q e d2"
  shows "wp fl I (writeMarker J m (abs_path p) mk) Q d1"
proof -
  have valid: "validateOpID (mOpID mk) = None" using m op by (simp add: marked_def site_def)
  let ?commit = "\<lambda>now. commit_marker m (abs_path p) (markerPath (abs_path p) (mOpID mk)) (j_Marshal J (stamp now mk))"
  have commit: "wp fl I (?commit now) Q d2" if o: "opened_at J op p d mo d2" for now d2
    unfolding op by (rule wp_commit_marker [OF o]) (use I Q in \<open>auto simp: opened_at_def\<close>)
  have Io: "opened_at J op p d mo d2 \<Longrightarrow> I d2" for d2 using I(1) by (simp add: opened_at_def)
  have chmods: "wp fl I (check ''protect transfer marker dir'' (call_Chmod (baseDir (abs_path p)))
      (check ''protect transfer marker dir'' (call_Chmod (activeDir (abs_path p))) (?commit now))) Q d2"
    if o: "opened_at J op p d mo d2" for now d2
  proof -
    have step: "wp fl I (check ''protect transfer marker dir'' (call_Chmod q) k) Q d2"
      if "wp fl I k Q d2" "q = activeDir (abs_path p) \<or> q = baseDir (abs_path p) \<or> q = abs_path p" for q k
    proof (rule wp_check, rule wp_opened_sync(2) [OF o])
      show "I d2" by (rule Io [OF o])
      fix e :: "call_error option" assume e: "fl \<Longrightarrow> e = None"
      show "case e of None \<Rightarrow> wp fl I k Q d2 | Some x \<Rightarrow> Q (Some (TCall ''protect transfer marker dir'' x)) d2"
        using e that(1) Q(2) [OF _ _ o [unfolded opened_at_def, THEN conjunct1]] by (cases e; cases fl) auto
    qed (rule that(2))
    show ?thesis by (intro step commit [OF o]) auto
  qed
  show ?thesis
    unfolding writeMarker_def valid option.case
  proof (intro wp_bind wp_time_Now wp_check wp_mark_mkdirs [OF m I(1)])
    fix now and e :: "call_error option" and d2 assume e: "marked J op p d mo d2" "fl \<Longrightarrow> e = None" "e = None \<Longrightarrow> os_lookup d2 (active_at p) = Some NDir"
    then show "case e of None \<Rightarrow> wp fl I (check ''protect transfer marker dir'' (call_Chmod (baseDir (abs_path p)))
        (check ''protect transfer marker dir'' (call_Chmod (activeDir (abs_path p))) (?commit now))) Q d2
      | Some x \<Rightarrow> Q (Some (TCall ''create transfer marker dir'' x)) d2"
      using chmods Q(2) by (cases e; cases fl) (auto simp: opened_at_def)
  qed
qed

subsection \<open>Removing a marker\<close>

lemma walk_error_ENOENT:
  assumes "\<And>q. prefix q (butlast p) \<Longrightarrow> os_lookup d q = None \<or> os_lookup d q = Some NDir"
  shows "walk_error d p = ENOENT"
proof (cases "find (\<lambda>q. os_lookup d q \<noteq> Some NDir) (prefixes (butlast p))")
  case (Some q)
  then have "prefix q (butlast p)" "os_lookup d q \<noteq> Some NDir" using find_Some [OF Some] by auto
  with assms have "os_lookup d q = None" by blast
  with Some show ?thesis by (simp add: walk_error_def)
qed (simp add: walk_error_def)

lemma dirs_above:
  assumes "disk_wf d" "os_lookup d p = Some NDir" "prefix q p"
  shows "os_lookup d q = Some NDir"
proof -
  obtain k where "p = q @ k" using assms(3) by (rule prefixE)
  moreover have "os_lookup d (q @ k) = Some NDir \<Longrightarrow> os_lookup d q = Some NDir" for k
  proof (induction k rule: rev_induct)
    case (snoc c k)
    then show ?case using lookup_parent [OF assms(1), of "q @ k @ [c]" NDir] by (simp add: butlast_append)
  qed simp
  ultimately show ?thesis using assms(2) by blast
qed

lemma area_dirs:
  "area J op d p mo \<Longrightarrow> os_lookup d (p @ [baseDirName]) = None \<or> os_lookup d (p @ [baseDirName]) = Some NDir"
  "area J op d p mo \<Longrightarrow> os_lookup d (active_at p) = None \<or> os_lookup d (active_at p) = Some NDir"
  unfolding area_def by (cases "os_lookup d (p @ [baseDirName])"; fastforce) (cases "os_lookup d (active_at p)"; fastforce)

lemma site_walk_error:
  assumes "site J op p mo d" "q = active_at p \<or> q = active_at p @ [c]"
  shows "walk_error d q = ENOENT"
proof (rule walk_error_ENOENT)
  fix r assume "prefix r (butlast q)"
  then have "prefix r p \<or> r = p @ [baseDirName] \<or> r = active_at p"
    using assms(2) by (auto simp: butlast_append prefix_append prefix_Cons)
  then show "os_lookup d r = None \<or> os_lookup d r = Some NDir"
    using dirs_above [of d p r] area_dirs [of J op d p mo] assms(1) by (auto simp: site_def plain_disk_def)
qed

lemma mark_remove:
  assumes m: "marked J op p d mo d1" and x: "os_lookup d1 (marker_at op p) = Some (NFile x)"
  shows "os_Remove d1 (marker_at op p) = (AList.delete (marker_at op p) d1, None)"
    "marked J op p d None (AList.delete (marker_at op p) d1)"
proof -
  note s' = m [unfolded marked_def site_def, THEN conjunct1]
  let ?d = "AList.delete (marker_at op p) d1"
  have l: "plain_disk ?d" "os_lookup ?d = (os_lookup d1)(marker_at op p := None)"
    using plain_disk_delete [of d1 "marker_at op p"] s' x by auto
  show "os_Remove d1 (marker_at op p) = (?d, None)" using x by (simp add: os_Remove_def)
  have "area J op ?d p None"
    unfolding area_def
  proof (intro conjI allI impI)
    fix k n assume n: "os_lookup ?d (p @ baseDirName # k) = Some n"
    then have k: "k \<noteq> [activeDirName, op @ ''.json'']" "os_lookup d1 (p @ baseDirName # k) = Some n"
      by (auto simp: l split: if_splits)
    moreover have "area J op d1 p mo" using s' by blast
    ultimately have "(k = [] \<or> k = [activeDirName]) \<and> n = NDir \<or>
       (\<exists>name x. k = [activeDirName, name] \<and> n = NFile x \<and>
          (if name = op @ ''.json'' then \<exists>m. mo = Some m \<and> x = j_Marshal J m else other_entry J name x))"
      unfolding area_def by blast
    with k(1) show "(k = [] \<or> k = [activeDirName]) \<and> n = NDir \<or>
       (\<exists>name x. k = [activeDirName, name] \<and> n = NFile x \<and>
          (if name = op @ ''.json'' then \<exists>m. None = Some m \<and> x = j_Marshal J m else other_entry J name x))"
      by (elim disjE exE conjE) auto
  qed simp
  moreover have "same_but [p @ [baseDirName]] d1 ?d" by (auto simp: same_but_def l prefix_def)
  moreover have "os_lookup ?d p = Some NDir" using s' by (simp add: l)
  ultimately show "marked J op p d None ?d"
    using m s' l(1) same_but_trans unfolding marked_def site_def by blast
qed

lemma marked_none:
  assumes m: "marked J op p d mo d1" and x: "os_lookup d1 (marker_at op p) = None"
  shows "mo = None"
  using m x by (cases mo) (auto simp: marked_def site_def area_def)

lemma wp_removeMarker:
  assumes m: "marked J op p d mo d1"
    and I: "\<And>d2. marked J op p d mo d2 \<or> marked J op p d None d2 \<Longrightarrow> I d2"
    and Q: "\<And>e d2. (fl \<Longrightarrow> e = None) \<Longrightarrow> marked J op p d None d2 \<Longrightarrow> Q e d2"
      "\<And>e d2. \<not> fl \<Longrightarrow> e \<noteq> None \<Longrightarrow> marked J op p d mo d2 \<Longrightarrow> Q e d2"
  shows "wp fl I (removeMarker m0 (abs_path p) op) Q d1"
proof -
  note s = m [unfolded marked_def, THEN conjunct1]
  have c: "components (markerPath (abs_path p) op) = marker_at op p"
    "components (activeDir (abs_path p)) = active_at p"
    using marker_components(3,4) [of p op] s by (simp_all add: site_def)
  have sync: "wp fl I (check ''sync marker directory'' (syncDir m0 (activeDir (abs_path p))) (io_return None)) Q d2"
    if d2: "marked J op p d None d2" "os_lookup d2 (active_at p) = Some NDir" for d2
    by (intro wp_check wp_syncDir) (use I Q(1) d2 c(2) in \<open>auto split: option.splits intro!: wp_return\<close>)
  let ?k = "\<lambda>err. if err = Some (OsError ENOENT) then io_return None
       else case err of Some x \<Rightarrow> io_return (Some (TCall ''remove marker'' x))
       | None \<Rightarrow> check ''sync marker directory'' (syncDir m0 (activeDir (abs_path p))) (io_return None)"
  have step: "I d2 \<and> wp fl I (?k e) Q d2" if r: "os_Remove d1 (marker_at op p) = (d2, e')" "e = map_option OsError e'" for d2 e e'
  proof (cases "os_lookup d1 (marker_at op p)")
    case None
    have "e' = Some ENOENT" "d2 = d1"
      using r(1) None site_walk_error [OF s, of "marker_at op p" "op @ ''.json''"] by (simp_all add: os_Remove_def)
    then show ?thesis
      using r(2) m marked_none [OF m None] I Q(1) by (auto intro: wp_return)
  next
    case (Some n)
    then obtain x where x: "os_lookup d1 (marker_at op p) = Some (NFile x)"
      using area_file [of J op d1 p mo "op @ ''.json''"] s by (auto simp: site_def)
    have "os_lookup d1 (active_at p) = Some NDir"
      using lookup_parent [of d1 "marker_at op p" "NFile x"] x s by (simp add: site_def plain_disk_def butlast_append)
    then have "os_lookup (AList.delete (marker_at op p) d1) (active_at p) = Some NDir"
      using lookup_delete [of "marker_at op p" d1] by simp
    with sync mark_remove [OF m x] r I show ?thesis by auto
  qed
  have valid: "validateOpID op = None" using s by (simp add: site_def)
  show ?thesis
    unfolding removeMarker_def valid option.case
  proof (rule wp_bind)
    show "wp fl I (call_Remove (markerPath (abs_path p) op)) (\<lambda>err. wp fl I (?k err) Q) d1"
      unfolding call_Remove_def c by (rule wp_os_call) (use step I Q(2) m in \<open>auto intro: wp_return\<close>)
  qed
qed

subsection \<open>Listing\<close>

text \<open>A marker that a listing accepts.\<close>

definition readable :: "marker_json \<Rightarrow> string \<Rightarrow> OperationMarker \<Rightarrow> bool" where
  "readable J op m \<longleftrightarrow> j_Unmarshal J (j_Marshal J m) = Some m \<and> is_convert m \<and> validateListedMarker m \<and> mOpID m = op"

lemma wp_list_loop:
  assumes s: "site J op p mo d" and mo: "\<And>m. mo = Some m \<Longrightarrow> readable J op m"
  shows "distinct (map fst es) \<Longrightarrow> \<forall>(name, n) \<in> set es. os_lookup d (active_at p @ [name]) = Some n \<Longrightarrow>
    wp fl I (list_loop J is_convert (activeDir (abs_path p)) es)
      (\<lambda>r d'. d' = d \<and> (\<not> fl \<and> (\<exists>e. r = Inl e) \<or> r = Inr (if op @ ''.json'' \<in> fst ` set es then [the mo] else []))) d"
proof (induction es)
  case Nil
  then show ?case by (auto intro!: wp_return)
next
  case (Cons e es)
  obtain name n where e: "e = (name, n)" by fastforce
  let ?Q = "\<lambda>es r d'. d' = d \<and> (\<not> fl \<and> (\<exists>e. r = Inl e) \<or> r = Inr (if op @ ''.json'' \<in> fst ` set es then [the mo] else []))"
  have n: "os_lookup d (active_at p @ [name]) = Some n" using Cons.prems(2) e by simp
  have ih: "wp fl I (list_loop J is_convert (activeDir (abs_path p)) es) (?Q es) d" using Cons e by simp
  have "area J op d p mo" using s by (simp add: site_def)
  with n obtain x where x: "n = NFile x"
    and ent: "if name = op @ ''.json'' then \<exists>m. mo = Some m \<and> x = j_Marshal J m else other_entry J name x"
    unfolding area_def by fastforce
  have plain: "plain_name name" using s n by (fastforce simp: site_def plain_disk_iff)
  have c: "components (filepath_Join (activeDir (abs_path p)) name) = active_at p @ [name]"
    using Join_abs [of "active_at p" name] components_abs [of "active_at p @ [name]"] plain s dir_names
      marker_paths(2) [of p op] by (simp add: site_def)
  have rd: "wp fl I (readMarker J (filepath_Join (activeDir (abs_path p)) name))
      (\<lambda>r d'. d' = d \<and> (\<not> fl \<and> r = Inl () \<or> r = (case j_Unmarshal J x of None \<Rightarrow> Inl () | Some m \<Rightarrow> Inr m))) d"
    unfolding readMarker_def call_ReadFile_def c
    by (intro wp_bind wp_os_query) (use n x in \<open>auto simp: os_Stat_def intro!: wp_return\<close>)
  have list_step: "list_loop J is_convert (activeDir (abs_path p)) ((name, n) # es) =
      State_Monad.bind (readMarker J (filepath_Join (activeDir (abs_path p)) name)) (\<lambda>r. case r of
         Inl _ \<Rightarrow> io_return (Inl (TCorrupt name))
       | Inr marker \<Rightarrow>
         if \<not> is_convert marker then list_loop J is_convert (activeDir (abs_path p)) es
         else if \<not> validateListedMarker marker \<or> name \<noteq> mOpID marker @ ''.json'' then io_return (Inl (TCorrupt name))
         else State_Monad.bind (list_loop J is_convert (activeDir (abs_path p)) es) (\<lambda>ms. io_return (map_sum id (Cons marker) ms)))"
    if "filepath_Ext name = ''.json''"
    using that by (simp add: x)
  show ?case
  proof (cases "name = op @ ''.json''")
    case False
    have skip: "?Q (e # es) = ?Q es" using False e by (simp add: eq_commute [of name])
    show ?thesis
    proof (cases "filepath_Ext name = ''.json''")
      case True
      with ent False obtain m where m: "j_Unmarshal J x = Some m" "\<not> is_convert m" by (auto simp: other_entry_def)
      show ?thesis
        unfolding skip unfolding e list_step [OF True]
      proof (rule wp_bind, rule wp_mono [OF rd])
        fix r d' assume "d' = d \<and> (\<not> fl \<and> r = Inl () \<or> r = (case j_Unmarshal J x of None \<Rightarrow> Inl () | Some m \<Rightarrow> Inr m))"
        then consider "d' = d" "\<not> fl" "r = Inl ()" | "d' = d" "r = Inr m" using m by auto
        then show "wp fl I (case r of Inl u \<Rightarrow> io_return (Inl (TCorrupt name))
          | Inr marker \<Rightarrow> if \<not> is_convert marker then list_loop J is_convert (activeDir (abs_path p)) es
              else if \<not> validateListedMarker marker \<or> name \<noteq> mOpID marker @ ''.json'' then io_return (Inl (TCorrupt name))
              else State_Monad.bind (list_loop J is_convert (activeDir (abs_path p)) es)
                (\<lambda>ms. io_return (map_sum id (Cons marker) ms))) (?Q es) d'"
        proof cases
          case 1
          then show ?thesis by (simp add: wp_return)
        next
          case 2
          with m ih show ?thesis by (simp only: sum.case not_False_eq_True if_True)
        qed
      qed
    next
      case ext: False
      then have "list_loop J is_convert (activeDir (abs_path p)) ((name, n) # es) = list_loop J is_convert (activeDir (abs_path p)) es"
        by simp
      then show ?thesis unfolding skip unfolding e using ih by (simp only:)
    qed
  next
    case True
    with ent obtain m where m: "mo = Some m" "x = j_Marshal J m" by auto
    note r = mo [OF m(1), unfolded readable_def]
    have no: "op @ ''.json'' \<notin> fst ` set es" using Cons.prems(1) e True by simp
    have ext: "filepath_Ext name = ''.json''" by (simp add: True Ext_json)
    show ?thesis
      unfolding e list_step [OF ext]
      by (rule wp_bind, rule wp_mono [OF rd])
        (use r m no ih True in \<open>auto intro!: wp_return wp_bind elim!: wp_mono\<close>)
  qed
qed

lemma wp_listConvertMarkers:
  assumes s: "site J op p mo d" and mo: "\<And>m. mo = Some m \<Longrightarrow> readable J op m"
  shows "wp fl I (listConvertMarkers J (abs_path p))
    (\<lambda>r d'. d' = d \<and> (\<not> fl \<and> (\<exists>e. r = Inl e) \<or> r = Inr (case mo of None \<Rightarrow> [] | Some m \<Rightarrow> [m]))) d"
proof -
  note s' = s [unfolded site_def]
  have c: "components (activeDir (abs_path p)) = active_at p" by (rule marker_components(3) [of p op]) (use s' in auto)
  show ?thesis
  proof (cases "os_lookup d (active_at p)")
    case None
    have "mo = None"
    proof (rule ccontr)
      assume "mo \<noteq> None"
      then have "os_lookup d (marker_at op p) \<noteq> None" using s' by (auto simp: area_def)
      then have "os_lookup d (active_at p) = Some NDir"
        using lookup_parent [of d "marker_at op p"] s' by (auto simp: plain_disk_def butlast_append)
      with None show False by simp
    qed
    moreover have "os_ReadDirAll d (active_at p) = Inl (''open'', ENOENT)"
      using None site_walk_error [OF s] by (simp add: os_ReadDirAll_def os_Stat_def)
    ultimately show ?thesis
      unfolding listConvertMarkers_def list_with_def call_ReadDir_def c
      by (intro wp_bind wp_os_query) (auto intro!: wp_return)
  next
    case (Some n)
    then have dir: "os_lookup d (active_at p) = Some NDir" using area_dirs(2) [of J op d p mo] s' by auto
    let ?es = "sort_key fst (dir_children d (active_at p))"
    have ok: "distinct (map fst ?es)" "\<forall>(name, n) \<in> set ?es. os_lookup d (active_at p @ [name]) = Some n"
      using dir_children_distinct [of d "active_at p"] s'
      by (auto simp: plain_disk_def dir_children_iff os_lookup_def distinct_map)
    have "op @ ''.json'' \<in> fst ` set ?es \<longleftrightarrow> mo \<noteq> None"
    proof
      assume "op @ ''.json'' \<in> fst ` set ?es"
      then have "os_lookup d (marker_at op p) \<noteq> None" using ok(2) by force
      then show "mo \<noteq> None" using s' unfolding area_def by fastforce
    next
      assume "mo \<noteq> None"
      then obtain m where "os_lookup d (marker_at op p) = Some (NFile (j_Marshal J m))" using s' by (auto simp: area_def)
      then have "(active_at p @ [op @ ''.json''], NFile (j_Marshal J m)) \<in> set d" by (auto simp: os_lookup_def dest: map_of_SomeD)
      then have "(op @ ''.json'', NFile (j_Marshal J m)) \<in> set ?es" by (simp add: dir_children_iff)
      then show "op @ ''.json'' \<in> fst ` set ?es" by (rule rev_image_eqI) simp
    qed
    then have res: "(if op @ ''.json'' \<in> fst ` set ?es then [the mo] else []) = (case mo of None \<Rightarrow> [] | Some m \<Rightarrow> [m])"
      by (cases mo) auto
    have "os_ReadDirAll d (active_at p) = Inr ?es" using dir by (simp add: os_ReadDirAll_def os_Stat_def)
    then show ?thesis
      unfolding listConvertMarkers_def list_with_def call_ReadDir_def c
      by (intro wp_bind wp_os_query)
        (use wp_list_loop [OF s mo ok, of fl I] res in \<open>auto intro!: wp_return\<close>)
  qed
qed

end
