(* ===== verification/ConvertStages.thy ===== *)
theory ConvertStages
  imports Convert MarkerProps
begin

text \<open>
  An interrupted conversion loses nothing. The states a conversion can stop in, by a crash or by an
  error, are described by an invariant with three stages; every call of the conversion and of the
  recovery keeps it, and a recovery that is not interrupted itself ends in a final state.
\<close>

subsection \<open>The conversion and its paths\<close>

text \<open>The root is the directory \<open>cv_name\<close> of \<open>cv_par\<close>; \<open>cv_disk\<close> is the disk before, \<open>cv_good\<close> what the
  verification accepts as content of the work tree.\<close>

record conv =
  cv_json :: marker_json
  cv_par :: fpath
  cv_name :: string
  cv_op :: string
  cv_disk :: disk
  cv_good :: "(fpath \<Rightarrow> node option) \<Rightarrow> bool"

definition rp :: "conv \<Rightarrow> fpath" where "rp c = cv_par c @ [cv_name c]"
definition wkp :: "conv \<Rightarrow> fpath" where "wkp c = cv_par c @ [cv_name c @ ''.safe_disk.work.'' @ cv_op c]"
definition bkp :: "conv \<Rightarrow> fpath" where "bkp c = cv_par c @ [cv_name c @ ''.safe_disk.backup.'' @ cv_op c]"

definition leftover :: "conv \<Rightarrow> string \<Rightarrow> bool" where
  "leftover c s \<longleftrightarrow> prefix (cv_name c @ ''.safe_disk.work.'') s \<or> prefix (cv_name c @ ''.safe_disk.backup.'') s"

definition conv_ok :: "conv \<Rightarrow> bool" where
  "conv_ok c \<longleftrightarrow> json_reads (cv_json c) \<and> validateOpID (cv_op c) = None \<and>
     (\<forall>v \<in> set (rp c). plain_name v \<and> \<not> hasMeta v) \<and>
     utf8_coerce (abs_path (rp c)) = abs_path (rp c) \<and> utf8_coerce (abs_path (wkp c)) = abs_path (wkp c) \<and>
     utf8_coerce (abs_path (bkp c)) = abs_path (bkp c) \<and> utf8_coerce (cv_op c) = cv_op c \<and>
     os_lookup (cv_disk c) (cv_par c) = Some NDir \<and>
     (\<forall>s. leftover c s \<longrightarrow> cv_par c @ [s] \<notin> {wkp c, bkp c} \<longrightarrow> os_lookup (cv_disk c) (cv_par c @ [s]) \<noteq> None \<longrightarrow>
        os_lookup (cv_disk c) (cv_par c @ [s]) = Some NDir \<and> area (cv_json c) (cv_op c) (cv_disk c) (cv_par c @ [s]) None)"

lemma suffix_plain: "plain_name v \<Longrightarrow> plain_name op \<Longrightarrow> plain_name (v @ ''.safe_disk.work.'' @ op) \<and> plain_name (v @ ''.safe_disk.backup.'' @ op)"
  by (cases v) (auto simp: plain_name_def no_sep_def is_sep_def)

lemma conv_names:
  assumes "conv_ok c"
  shows "\<forall>v \<in> set (rp c). plain_name v" "\<forall>v \<in> set (wkp c). plain_name v" "\<forall>v \<in> set (bkp c). plain_name v"
    "\<forall>v \<in> set (cv_par c). plain_name v" "plain_name (cv_op c)"
  using assms suffix_plain [of "cv_name c" "cv_op c"] op_facts(2) [of "cv_op c"]
  by (auto simp: conv_ok_def rp_def wkp_def bkp_def)

lemma abs_last: "abs_path (p @ [s @ u]) = abs_path (p @ [s]) @ u"
  by (cases "p = []") (simp_all add: abs_path_def join_slash_append)

lemma conv_paths:
  "work_path (abs_path (rp c)) (cv_op c) = abs_path (wkp c)" "backup_path (abs_path (rp c)) (cv_op c) = abs_path (bkp c)"
  using abs_last [of "cv_par c" "cv_name c"] by (simp_all add: work_path_def backup_path_def rp_def wkp_def bkp_def)

lemma conv_components:
  assumes "conv_ok c"
  shows "components (abs_path (rp c)) = rp c" "components (abs_path (wkp c)) = wkp c" "components (abs_path (bkp c)) = bkp c"
  using conv_names [OF assms] by (simp_all add: components_abs)

lemma conv_distinct:
  "rp c \<noteq> wkp c" "wkp c \<noteq> rp c" "rp c \<noteq> bkp c" "bkp c \<noteq> rp c" "wkp c \<noteq> bkp c" "bkp c \<noteq> wkp c"
  "\<not> prefix (rp c) (wkp c)" "\<not> prefix (rp c) (bkp c)" "\<not> prefix (wkp c) (rp c)" "\<not> prefix (wkp c) (bkp c)"
  "\<not> prefix (bkp c) (rp c)" "\<not> prefix (bkp c) (wkp c)"
  "butlast (rp c) = cv_par c" "butlast (wkp c) = cv_par c" "butlast (bkp c) = cv_par c"
  "rp c \<noteq> []" "wkp c \<noteq> []" "bkp c \<noteq> []"
  by (simp_all add: rp_def wkp_def bkp_def)

lemma below_distinct:
  "\<not> prefix (rp c) (wkp c @ k)" "\<not> prefix (rp c) (bkp c @ k)" "\<not> prefix (wkp c) (rp c @ k)" "\<not> prefix (wkp c) (bkp c @ k)"
  "\<not> prefix (bkp c) (rp c @ k)" "\<not> prefix (bkp c) (wkp c @ k)"
  by (simp_all add: rp_def wkp_def bkp_def prefix_def)

lemma conv_Dir:
  assumes "conv_ok c"
  shows "path_Dir (abs_path (rp c)) = abs_path (cv_par c)" "path_Dir (abs_path (wkp c)) = abs_path (cv_par c)"
    "path_Dir (abs_path (bkp c)) = abs_path (cv_par c)"
proof -
  have one: "path_Dir (abs_path (p @ [v])) = abs_path p" if "\<forall>u \<in> set (p @ [v]). plain_name u" for p v
  proof -
    have v: "slash \<notin> set v" using that plain_no_slash by simp
    have p: "\<forall>u \<in> set p. plain_name u" using that by simp
    have drop: "dropWhile (\<lambda>c. c \<noteq> slash) (rev v @ slash # z) = slash # z" for z
      using v by (subst dropWhile_append2) auto
    have "rev (abs_path (p @ [v])) = rev v @ slash # rev (if p = [] then [] else abs_path p)"
      by (cases "p = []") (simp_all add: abs_append, simp add: abs_path_def)
    then have "path_Dir (abs_path (p @ [v])) = filepath_Clean ((if p = [] then [] else abs_path p) @ [slash])"
      by (simp add: path_Dir_def drop)
    also have "\<dots> = abs_path p"
    proof (cases "p = []")
      case False
      have "components (abs_path p @ [slash]) = p"
        using components_abs [OF p] by (simp add: components_def split_slash_append)
      with False fold_clean_plain [OF p, of True "[]"] show ?thesis
        by (simp add: filepath_Clean_def abs_path_def Let_def)
    qed (simp add: filepath_Clean_def abs_path_def components_def Let_def)
    finally show ?thesis .
  qed
  show "path_Dir (abs_path (rp c)) = abs_path (cv_par c)" "path_Dir (abs_path (wkp c)) = abs_path (cv_par c)"
    "path_Dir (abs_path (bkp c)) = abs_path (cv_par c)"
    using one conv_names [OF assms] by (simp_all add: rp_def wkp_def bkp_def)
qed

lemma Clean_abs_path:
  assumes "\<forall>v \<in> set p. plain_name v"
  shows "filepath_Clean (abs_path p) = abs_path p"
  using components_abs [OF assms] fold_clean_plain [OF assms, of True "[]"]
  by (simp add: filepath_Clean_def abs_path_def Let_def)

subsection \<open>Markers\<close>

definition cmark0 :: "conv \<Rightarrow> OperationMarker \<Rightarrow> bool" where
  "cmark0 c m \<longleftrightarrow> mOpID m = cv_op c \<and> is_convert m \<and> mRoot m = abs_path (rp c) \<and> mWork m = abs_path (wkp c) \<and>
     mBackup m = abs_path (bkp c) \<and> (mVersion m = 0 \<or> mVersion m = markerVersion) \<and>
     (\<forall>s \<in> set (marker_strings m). utf8_coerce s = s)"

definition cmark :: "conv \<Rightarrow> OperationMarker \<Rightarrow> bool" where
  "cmark c m \<longleftrightarrow> cmark0 c m \<and> mVersion m = markerVersion"

lemma stamp_fields [simp]:
  "mOpID (stamp now m) = mOpID m" "mType (stamp now m) = mType m" "mPhase (stamp now m) = mPhase m"
  "mRoot (stamp now m) = mRoot m" "mWork (stamp now m) = mWork m" "mBackup (stamp now m) = mBackup m"
  "marker_strings (stamp now m) = marker_strings m" "is_convert (stamp now m) = is_convert m"
  "mVersion (stamp now m) = (if mVersion m = 0 then markerVersion else mVersion m)"
  by (simp_all add: stamp_def marker_strings_def is_convert_def Let_def)

lemma cmark_stamp: "cmark0 c m \<Longrightarrow> cmark c (stamp now m)"
  by (auto simp: cmark_def cmark0_def)

lemma utf8_phases:
  "utf8_coerce phaseCreatingWork = phaseCreatingWork" "utf8_coerce phaseCopyingToWork = phaseCopyingToWork"
  "utf8_coerce phaseVerifyingWork = phaseVerifyingWork" "utf8_coerce phaseRenamingRootToBackup = phaseRenamingRootToBackup"
  "utf8_coerce phaseRenamingWorkToRoot = phaseRenamingWorkToRoot" "utf8_coerce phaseCompleted = phaseCompleted"
  "utf8_coerce phaseNeedsAttention = phaseNeedsAttention" "utf8_coerce ''completed'' = ''completed''"
  "utf8_coerce ''failed'' = ''failed''" "utf8_coerce ''running'' = ''running''" "utf8_coerce [] = []"
  "utf8_coerce OperationConvertEncrypt = OperationConvertEncrypt" "utf8_coerce OperationConvertDecrypt = OperationConvertDecrypt"
  by code_simp+

lemma cmark0_phase:
  assumes "cmark0 c m" "utf8_coerce ph = ph"
  shows "cmark0 c (m\<lparr>mPhase := ph\<rparr>)"
  using assms by (auto simp: cmark0_def marker_strings_def is_convert_def split: option.splits)

lemma cmark_cmark0: "cmark c m \<Longrightarrow> cmark0 c m"
  by (simp add: cmark_def)

lemma cmark_readable:
  assumes "conv_ok c" "cmark c m"
  shows "readable (cv_json c) (cv_op c) m"
proof -
  have "validateListedMarker m"
    using assms by (auto simp: validateListedMarker_def cmark_def cmark0_def conv_ok_def is_convert_def
        OperationImport_def OperationExport_def OperationConvertEncrypt_def OperationConvertDecrypt_def)
  then show ?thesis using assms by (auto simp: readable_def cmark_def cmark0_def conv_ok_def json_reads_def)
qed

lemma cmark_valid:
  assumes "conv_ok c" "cmark c m"
  shows "validateConvertMarker (abs_path (rp c)) m"
  using assms conv_names [OF assms(1)] conv_paths [of c]
  by (simp add: validateConvertMarker_def cmark_def cmark0_def conv_ok_def Clean_abs_path Let_def)


subsection \<open>Trees\<close>

text \<open>The content of a directory without its marker directory.\<close>

definition tree :: "disk \<Rightarrow> fpath \<Rightarrow> fpath \<Rightarrow> node option" where
  "tree d p k = (if prefix [baseDirName] k then None else os_lookup d (p @ k))"

text \<open>What was below \<open>p\<close> is now below \<open>q\<close>.\<close>

definition moved :: "fpath \<Rightarrow> fpath \<Rightarrow> disk \<Rightarrow> disk \<Rightarrow> bool" where
  "moved p q d d' \<longleftrightarrow> (\<forall>k. os_lookup d' (q @ k) = os_lookup d (p @ k))"

lemma moved_lookup: "moved p q d d' \<Longrightarrow> os_lookup d' q = os_lookup d p"
  unfolding moved_def by (metis append_Nil2)

lemma moved_tree: "moved p q d d' \<Longrightarrow> tree d' q = tree d p"
  by (rule ext) (simp add: tree_def moved_def)

lemma moved_area:
  assumes "moved p q d d'"
  shows "area J op d' q mo = area J op d p mo"
proof -
  have "os_lookup d' (q @ k) = os_lookup d (p @ k)" for k using assms by (simp add: moved_def)
  then show ?thesis by (simp add: area_def)
qed

lemma moved_site:
  "moved p q d d' \<Longrightarrow> site J op p mo d \<Longrightarrow> plain_disk d' \<Longrightarrow> \<forall>v \<in> set q. plain_name v \<Longrightarrow> site J op q mo d'"
  by (simp add: site_def moved_lookup moved_area)

lemma moved_trans: "moved p p d d1 \<Longrightarrow> moved p p d1 d2 \<Longrightarrow> moved p p d d2"
  by (simp add: moved_def)

lemma marked_tree: "marked J op p d mo d' \<Longrightarrow> tree d' p = tree d p"
  by (rule ext) (auto simp: marked_def same_but_def tree_def)

lemma marked_moved: "marked J op p d mo d' \<Longrightarrow> (\<And>k. \<not> prefix p (q @ k)) \<Longrightarrow> moved q q d d'"
  unfolding marked_def same_but_def moved_def by (auto dest: append_prefixD)

subsection \<open>The stages\<close>

definition around :: "conv \<Rightarrow> disk \<Rightarrow> bool" where
  "around c d \<longleftrightarrow> plain_disk d \<and> same_but [rp c, wkp c, bkp c] (cv_disk c) d"

definition at_site :: "conv \<Rightarrow> fpath \<Rightarrow> OperationMarker option \<Rightarrow> disk \<Rightarrow> bool" where
  "at_site c p mo d \<longleftrightarrow> site (cv_json c) (cv_op c) p mo d"

definition orig :: "conv \<Rightarrow> fpath \<Rightarrow> node option" where
  "orig c = tree (cv_disk c) (rp c)"

definition early_phases :: "string set" where
  "early_phases = {phaseCreatingWork, phaseCopyingToWork, phaseVerifyingWork}"

text \<open>The work tree is complete.\<close>

definition work_good :: "conv \<Rightarrow> disk \<Rightarrow> bool" where
  "work_good c d \<longleftrightarrow> at_site c (wkp c) None d \<and> cv_good c (tree d (wkp c))"

text \<open>Stage A: the root is untouched.\<close>

definition marker_A :: "conv \<Rightarrow> disk \<Rightarrow> OperationMarker \<Rightarrow> bool" where
  "marker_A c d m \<longleftrightarrow> cmark c m \<and>
     (mPhase m \<in> early_phases \<or> mPhase m = phaseNeedsAttention \<or> mPhase m = phaseRenamingRootToBackup \<and> work_good c d)"

definition stageA :: "conv \<Rightarrow> OperationMarker option \<Rightarrow> disk \<Rightarrow> bool" where
  "stageA c mo d \<longleftrightarrow> around c d \<and> at_site c (rp c) mo d \<and> tree d (rp c) = orig c \<and> os_lookup d (bkp c) = None \<and>
     (os_lookup d (wkp c) = None \<or> at_site c (wkp c) None d) \<and> (\<forall>m. mo = Some m \<longrightarrow> marker_A c d m)"

text \<open>Stage B: the root is the backup, the work tree has not taken its place yet.\<close>

definition stageB :: "conv \<Rightarrow> OperationMarker \<Rightarrow> disk \<Rightarrow> bool" where
  "stageB c m d \<longleftrightarrow> around c d \<and> os_lookup d (rp c) = None \<and> at_site c (bkp c) (Some m) d \<and> tree d (bkp c) = orig c \<and>
     work_good c d \<and> cmark c m \<and> mPhase m \<in> {phaseRenamingRootToBackup, phaseRenamingWorkToRoot}"

text \<open>Stage C: the work tree is the root.\<close>

definition stageC :: "conv \<Rightarrow> OperationMarker option \<Rightarrow> OperationMarker option \<Rightarrow> disk \<Rightarrow> bool" where
  "stageC c mr mb d \<longleftrightarrow> around c d \<and> os_lookup d (wkp c) = None \<and>
     at_site c (rp c) mr d \<and> cv_good c (tree d (rp c)) \<and> at_site c (bkp c) mb d \<and> tree d (bkp c) = orig c \<and>
     (\<forall>m. mr = Some m \<longrightarrow> cmark c m \<and> mPhase m = phaseCompleted) \<and>
     (\<forall>m. mb = Some m \<longrightarrow> cmark c m \<and> mPhase m \<in> {phaseRenamingRootToBackup, phaseRenamingWorkToRoot})"

definition stages :: "conv \<Rightarrow> disk \<Rightarrow> bool" where
  "stages c d \<longleftrightarrow> (\<exists>mo. stageA c mo d) \<or> (\<exists>m. stageB c m d) \<or> (\<exists>mr mb. stageC c mr mb d)"

lemma stagesI: "stageA c mo d \<Longrightarrow> stages c d" "stageB c m d \<Longrightarrow> stages c d" "stageC c mr mb d \<Longrightarrow> stages c d"
  by (auto simp: stages_def)

lemma at_site_dir: "at_site c p mo d \<Longrightarrow> os_lookup d p = Some NDir"
  by (simp add: at_site_def site_def)

lemma at_site_plain: "at_site c p mo d \<Longrightarrow> plain_disk d"
  by (simp add: at_site_def site_def)

lemma around_parent:
  assumes "conv_ok c" "around c d"
  shows "os_lookup d (cv_par c) = Some NDir"
proof -
  have "\<not> prefix q (cv_par c)" if "q \<in> set [rp c, wkp c, bkp c]" for q
    using that prefix_length_le [of q "cv_par c"] by (auto simp: rp_def wkp_def bkp_def)
  then show ?thesis using assms by (simp add: around_def same_but_def conv_ok_def)
qed

lemma around_step:
  assumes "around c d" "same_but [p] d d'" "plain_disk d'" "\<exists>q \<in> {rp c, wkp c, bkp c}. prefix q p"
  shows "around c d'"
  using assms unfolding around_def same_but_def by (auto dest: prefix_order.trans)

lemma around_marked: "around c d \<Longrightarrow> marked J op p d mo d' \<Longrightarrow> p \<in> {rp c, wkp c, bkp c} \<Longrightarrow> around c d'"
  by (rule around_step [of c d "p @ [baseDirName]"]) (auto simp: marked_def site_def)


subsection \<open>Markers keep the stage\<close>

lemma marker_A_moved:
  assumes "moved (wkp c) (wkp c) d d'" "plain_disk d'" "marker_A c d m"
  shows "marker_A c d' m"
  using assms moved_site [OF assms(1) _ assms(2)]
  by (auto simp: marker_A_def work_good_def at_site_def moved_tree [OF assms(1)] site_def)

lemma work_good_moved:
  assumes "moved (wkp c) (wkp c) d d'" "plain_disk d'" "work_good c d"
  shows "work_good c d'"
  using assms moved_site [OF assms(1) _ assms(2)] by (auto simp: work_good_def at_site_def moved_tree [OF assms(1)] site_def)

lemma stageA_marked:
  assumes A: "stageA c mo d" and m: "marked (cv_json c) (cv_op c) (rp c) d mo' d'"
    and mo: "\<And>m. mo' = Some m \<Longrightarrow> mo = Some m \<or> marker_A c d m"
  shows "stageA c mo' d'" "moved (wkp c) (wkp c) d d'"
proof -
  have pl: "plain_disk d'" using m by (simp add: marked_def site_def)
  show w: "moved (wkp c) (wkp c) d d'" by (rule marked_moved [OF m]) (rule below_distinct)
  have b: "moved (bkp c) (bkp c) d d'" by (rule marked_moved [OF m]) (rule below_distinct)
  have "around c d'" using around_marked [OF _ m] A by (simp add: stageA_def)
  moreover have "at_site c (rp c) mo' d'" using m by (simp add: at_site_def marked_def)
  moreover have "tree d' (rp c) = orig c" using marked_tree [OF m] A by (simp add: stageA_def)
  moreover have "os_lookup d' (bkp c) = None" using moved_lookup [OF b] A by (simp add: stageA_def)
  moreover have "os_lookup d' (wkp c) = None \<or> at_site c (wkp c) None d'"
    using moved_lookup [OF w] moved_site [OF w _ pl] A by (auto simp: stageA_def at_site_def site_def)
  moreover have "\<forall>m. mo' = Some m \<longrightarrow> marker_A c d' m"
    using mo A marker_A_moved [OF w pl] by (auto simp: stageA_def)
  ultimately show "stageA c mo' d'" by (simp add: stageA_def)
qed

lemma stageB_marked:
  assumes B: "stageB c m d" and k: "marked (cv_json c) (cv_op c) (bkp c) d (Some m') d'"
    and m': "cmark c m'" "mPhase m' \<in> {phaseRenamingRootToBackup, phaseRenamingWorkToRoot}"
  shows "stageB c m' d'"
proof -
  have pl: "plain_disk d'" using k by (simp add: marked_def site_def)
  have w: "moved (wkp c) (wkp c) d d'" by (rule marked_moved [OF k]) (rule below_distinct)
  have r: "moved (rp c) (rp c) d d'" by (rule marked_moved [OF k]) (rule below_distinct)
  show ?thesis
    using B m' around_marked [OF _ k] k marked_tree [OF k] moved_lookup [OF r] work_good_moved [OF w pl]
    by (simp add: stageB_def at_site_def marked_def)
qed

lemma stageC_marked_root:
  assumes C: "stageC c mr mb d" and k: "marked (cv_json c) (cv_op c) (rp c) d mr' d'"
    and m': "\<And>m. mr' = Some m \<Longrightarrow> mr = Some m \<or> cmark c m \<and> mPhase m = phaseCompleted"
  shows "stageC c mr' mb d'"
proof -
  have pl: "plain_disk d'" using k by (simp add: marked_def site_def)
  have w: "moved (wkp c) (wkp c) d d'" by (rule marked_moved [OF k]) (rule below_distinct)
  have b: "moved (bkp c) (bkp c) d d'" by (rule marked_moved [OF k]) (rule below_distinct)
  have "site (cv_json c) (cv_op c) (bkp c) mb d'"
    by (rule moved_site [OF b _ pl]) (use C in \<open>auto simp: stageC_def at_site_def site_def\<close>)
  then show ?thesis
    using C m' around_marked [OF _ k] k marked_tree [OF k] moved_lookup [OF w] moved_tree [OF b]
    by (auto simp: stageC_def at_site_def marked_def)
qed

lemma stageC_marked_backup:
  assumes C: "stageC c mr mb d" and k: "marked (cv_json c) (cv_op c) (bkp c) d mb' d'"
    and m': "\<And>m. mb' = Some m \<Longrightarrow> mb = Some m"
  shows "stageC c mr mb' d'"
proof -
  have pl: "plain_disk d'" using k by (simp add: marked_def site_def)
  have w: "moved (wkp c) (wkp c) d d'" by (rule marked_moved [OF k]) (rule below_distinct)
  have r: "moved (rp c) (rp c) d d'" by (rule marked_moved [OF k]) (rule below_distinct)
  have "site (cv_json c) (cv_op c) (rp c) mr d'"
    by (rule moved_site [OF r _ pl]) (use C in \<open>auto simp: stageC_def at_site_def site_def\<close>)
  then show ?thesis
    using C m' around_marked [OF _ k] k marked_tree [OF k] moved_lookup [OF w] moved_tree [OF r]
    by (auto simp: stageC_def at_site_def marked_def)
qed

subsection \<open>The renames\<close>

lemma rename_tree_moved:
  assumes d: "plain_disk d" "os_lookup d p = Some NDir" "os_lookup d q = None" "os_lookup d (butlast q) = Some NDir"
    and n: "\<not> prefix p q" "\<forall>v \<in> set q. plain_name v"
  obtains d' where "os_Rename d p q = (d', None)" "plain_disk d'" "moved p q d d'" "os_lookup d' p = None"
    "same_but [p, q] d d'"
proof -
  from plain_rename_tree [OF d n] obtain d' where d': "os_Rename d p q = (d', None)" "plain_disk d'"
    "\<forall>k. os_lookup d' (q @ k) = os_lookup d (p @ k)" "\<forall>k. os_lookup d' (p @ k) = None"
    "\<forall>r. \<not> prefix p r \<longrightarrow> \<not> prefix q r \<longrightarrow> os_lookup d' r = os_lookup d r" by blast
  have "os_lookup d' p = None" using d'(4) by (metis append_Nil2)
  with d' that show ?thesis by (auto simp: moved_def same_but_def)
qed

lemma rename_moved:
  "same_but [p, q] d d' \<Longrightarrow> (\<And>k. \<not> prefix p (r @ k)) \<Longrightarrow> (\<And>k. \<not> prefix q (r @ k)) \<Longrightarrow> moved r r d d'"
  by (simp add: same_but_def moved_def)

lemma around_rename:
  assumes "around c d" "same_but [p, q] d d'" "plain_disk d'" "p \<in> {rp c, wkp c, bkp c}" "q \<in> {rp c, wkp c, bkp c}"
  shows "around c d'"
  using assms unfolding around_def same_but_def by auto

lemma rename_root:
  assumes c: "conv_ok c" and A: "stageA c (Some m) d" and ph: "mPhase m = phaseRenamingRootToBackup"
  obtains d' where "os_Rename d (rp c) (bkp c) = (d', None)" "stageB c m d'"
proof -
  have r: "at_site c (rp c) (Some m) d" "around c d" "os_lookup d (bkp c) = None" "tree d (rp c) = orig c" "marker_A c d m"
    using A by (simp_all add: stageA_def)
  obtain d' where d': "os_Rename d (rp c) (bkp c) = (d', None)" "plain_disk d'" "moved (rp c) (bkp c) d d'"
      "os_lookup d' (rp c) = None" "same_but [rp c, bkp c] d d'"
    by (rule rename_tree_moved [of d "rp c" "bkp c"])
      (use r at_site_plain at_site_dir around_parent [OF c] conv_names [OF c] in \<open>auto simp: conv_distinct\<close>)
  have w: "moved (wkp c) (wkp c) d d'" by (rule rename_moved [OF d'(5)]) (rule below_distinct)+
  have good: "work_good c d" "cmark c m"
    using r(5) ph by (auto simp: marker_A_def early_phases_def phase_defs)
  have "site (cv_json c) (cv_op c) (bkp c) (Some m) d'"
    by (rule moved_site [OF d'(3) _ d'(2)]) (use r(1) conv_names [OF c] in \<open>auto simp: at_site_def\<close>)
  then have "stageB c m d'"
    using around_rename [OF r(2) d'(5,2)] d'(4) moved_tree [OF d'(3)] r(4) work_good_moved [OF w d'(2) good(1)] good(2) ph
    by (simp add: stageB_def at_site_def)
  with d'(1) that show ?thesis by blast
qed

lemma rename_work:
  assumes c: "conv_ok c" and B: "stageB c m d"
  obtains d' where "os_Rename d (wkp c) (rp c) = (d', None)" "stageC c None (Some m) d'"
proof -
  have b: "at_site c (bkp c) (Some m) d" "around c d" "os_lookup d (rp c) = None" "tree d (bkp c) = orig c" "work_good c d"
    using B by (simp_all add: stageB_def)
  have w: "at_site c (wkp c) None d" "cv_good c (tree d (wkp c))" using b(5) by (simp_all add: work_good_def)
  obtain d' where d': "os_Rename d (wkp c) (rp c) = (d', None)" "plain_disk d'" "moved (wkp c) (rp c) d d'"
      "os_lookup d' (wkp c) = None" "same_but [wkp c, rp c] d d'"
    by (rule rename_tree_moved [of d "wkp c" "rp c"])
      (use b w at_site_plain at_site_dir around_parent [OF c] conv_names [OF c] in \<open>auto simp: conv_distinct\<close>)
  have mb: "moved (bkp c) (bkp c) d d'" by (rule rename_moved [OF d'(5)]) (rule below_distinct)+
  have "site (cv_json c) (cv_op c) (rp c) None d'" "site (cv_json c) (cv_op c) (bkp c) (Some m) d'"
    using moved_site [OF d'(3) _ d'(2)] moved_site [OF mb _ d'(2)] b(1) w(1) conv_names [OF c] by (auto simp: at_site_def)
  then have "stageC c None (Some m) d'"
    using around_rename [OF b(2) d'(5,2)] d'(4) moved_tree [OF d'(3)] moved_tree [OF mb] b(4) w(2) B
    by (simp add: stageC_def stageB_def at_site_def)
  with d'(1) that show ?thesis by blast
qed

end
