(* ===== verification/ConvertRuns.thy ===== *)
theory ConvertRuns
  imports ConvertStages
begin

text \<open>
  The programs of a conversion on the stages: whatever fails and wherever the run stops, the disk is in
  a stage, and a conversion that reports success has put the work tree in the place of the root.
\<close>

subsection \<open>Writing markers\<close>

text \<open>The marker of the root, in stage A.\<close>

lemma wp_write_A:
  assumes A: "stageA c mo d" and mk: "cmark0 c mk"
    and ph: "mPhase mk \<in> early_phases \<or> mPhase mk = phaseNeedsAttention \<or> mPhase mk = phaseRenamingRootToBackup \<and> work_good c d"
    and Q: "\<And>e d' now. (fl \<Longrightarrow> e = None) \<Longrightarrow> stageA c (Some (stamp now mk)) d' \<Longrightarrow> moved (wkp c) (wkp c) d d' \<Longrightarrow> Q e d'"
      "\<And>e d'. \<not> fl \<Longrightarrow> e \<noteq> None \<Longrightarrow> stageA c mo d' \<Longrightarrow> moved (wkp c) (wkp c) d d' \<Longrightarrow> Q e d'"
  shows "wp fl (stages c) (writeMarker (cv_json c) m (abs_path (rp c)) mk) Q d"
proof -
  have start: "marked (cv_json c) (cv_op c) (rp c) d mo d"
    using A by (intro marked_start) (simp add: stageA_def at_site_def)
  have new: "marker_A c d (stamp now mk)" for now
    using ph cmark_stamp [OF mk] by (auto simp: marker_A_def)
  have st: "stageA c mo d'" "moved (wkp c) (wkp c) d d'" if "marked (cv_json c) (cv_op c) (rp c) d mo d'" for d'
    by (rule stageA_marked [OF A that]; simp)+
  have st': "stageA c (Some (stamp now mk)) d'" "moved (wkp c) (wkp c) d d'"
    if "marked (cv_json c) (cv_op c) (rp c) d (Some (stamp now mk)) d'" for d' now
    by (rule stageA_marked [OF A that]; use new in simp)+
  have op: "mOpID mk = cv_op c" using mk by (simp add: cmark0_def)
  show ?thesis by (rule wp_writeMarker [OF start op]) (use st st' stagesI(1) Q in blast)+
qed

lemma wp_write_B:
  assumes B: "stageB c m0 d" and mk: "cmark0 c mk" and ph: "mPhase mk \<in> {phaseRenamingRootToBackup, phaseRenamingWorkToRoot}"
    and Q: "\<And>e d' m'. (fl \<Longrightarrow> e = None) \<Longrightarrow> stageB c m' d' \<Longrightarrow> Q e d'"
  shows "wp fl (stages c) (writeMarker (cv_json c) m (abs_path (bkp c)) mk) Q d"
proof -
  have start: "marked (cv_json c) (cv_op c) (bkp c) d (Some m0) d"
    using B by (intro marked_start) (simp add: stageB_def at_site_def)
  have st: "stageB c m0 d'" if "marked (cv_json c) (cv_op c) (bkp c) d (Some m0) d'" for d'
    by (rule stageB_marked [OF B that]) (use B in \<open>auto simp: stageB_def\<close>)
  have st': "stageB c (stamp now mk) d'" if "marked (cv_json c) (cv_op c) (bkp c) d (Some (stamp now mk)) d'" for d' now
    by (rule stageB_marked [OF B that]) (use cmark_stamp [OF mk] ph in auto)
  have op: "mOpID mk = cv_op c" using mk by (simp add: cmark0_def)
  show ?thesis by (rule wp_writeMarker [OF start op]) (use st st' stagesI(2) Q in blast)+
qed

lemma wp_write_C:
  assumes C: "stageC c mr mb d" and mk: "cmark0 c mk" and ph: "mPhase mk = phaseCompleted"
    and Q: "\<And>e d' mr'. (fl \<Longrightarrow> e = None) \<Longrightarrow> stageC c mr' mb d' \<Longrightarrow> Q e d'"
  shows "wp fl (stages c) (writeMarker (cv_json c) m (abs_path (rp c)) mk) Q d"
proof -
  have start: "marked (cv_json c) (cv_op c) (rp c) d mr d"
    using C by (intro marked_start) (simp add: stageC_def at_site_def)
  have st: "stageC c mr mb d'" if "marked (cv_json c) (cv_op c) (rp c) d mr d'" for d'
    by (rule stageC_marked_root [OF C that]) simp
  have st': "stageC c (Some (stamp now mk)) mb d'" if "marked (cv_json c) (cv_op c) (rp c) d (Some (stamp now mk)) d'" for d' now
    by (rule stageC_marked_root [OF C that]) (use cmark_stamp [OF mk] ph in auto)
  have op: "mOpID mk = cv_op c" using mk by (simp add: cmark0_def)
  show ?thesis by (rule wp_writeMarker [OF start op]) (use st st' stagesI(3) Q in blast)+
qed

subsection \<open>Removing markers\<close>

lemma wp_remove_A:
  assumes A: "stageA c mo d"
    and Q: "\<And>e d'. (fl \<Longrightarrow> e = None) \<Longrightarrow> stageA c None d' \<Longrightarrow> moved (wkp c) (wkp c) d d' \<Longrightarrow> Q e d'"
      "\<And>e d'. \<not> fl \<Longrightarrow> e \<noteq> None \<Longrightarrow> stages c d' \<Longrightarrow> Q e d'"
  shows "wp fl (stages c) (removeMarker m (abs_path (rp c)) (cv_op c)) Q d"
proof -
  have start: "marked (cv_json c) (cv_op c) (rp c) d mo d"
    using A by (intro marked_start) (simp add: stageA_def at_site_def)
  have st: "stageA c mo' d'" "moved (wkp c) (wkp c) d d'"
    if "marked (cv_json c) (cv_op c) (rp c) d mo' d'" "mo' = mo \<or> mo' = None" for mo' d'
    by (rule stageA_marked [OF A that(1)]; use that(2) in auto)+
  show ?thesis by (rule wp_removeMarker [OF start]) (use st stagesI(1) Q in blast)+
qed

text \<open>In stage C the errors are dropped.\<close>

lemma wp_remove_C_root:
  assumes C: "stageC c mr mb d"
    and Q: "\<And>e d' mr'. (fl \<Longrightarrow> mr' = None) \<Longrightarrow> stageC c mr' mb d' \<Longrightarrow> Q e d'"
  shows "wp fl (stages c) (removeMarker m (abs_path (rp c)) (cv_op c)) Q d"
proof -
  have start: "marked (cv_json c) (cv_op c) (rp c) d mr d"
    using C by (intro marked_start) (simp add: stageC_def at_site_def)
  have st: "stageC c mr' mb d'" if "marked (cv_json c) (cv_op c) (rp c) d mr' d'" "mr' = mr \<or> mr' = None" for mr' d'
    by (rule stageC_marked_root [OF C that(1)]) (use that(2) in auto)
  show ?thesis by (rule wp_removeMarker [OF start]) (use st stagesI(3) Q in blast)+
qed

lemma wp_remove_C_backup:
  assumes C: "stageC c mr mb d"
    and Q: "\<And>e d' mb'. (fl \<Longrightarrow> mb' = None) \<Longrightarrow> stageC c mr mb' d' \<Longrightarrow> Q e d'"
  shows "wp fl (stages c) (removeMarker m (abs_path (bkp c)) (cv_op c)) Q d"
proof -
  have start: "marked (cv_json c) (cv_op c) (bkp c) d mb d"
    using C by (intro marked_start) (simp add: stageC_def at_site_def)
  have st: "stageC c mr mb' d'" if "marked (cv_json c) (cv_op c) (bkp c) d mb' d'" "mb' = mb \<or> mb' = None" for mb' d'
    by (rule stageC_marked_backup [OF C that(1)]) (use that(2) in auto)
  show ?thesis by (rule wp_removeMarker [OF start]) (use st stagesI(3) Q in blast)+
qed

text \<open>Both, as the end of a conversion and of a recovery do it.\<close>

lemma wp_remove_both:
  assumes C: "stageC c mr mb d"
    and Q: "\<And>d' mr' mb'. (fl \<Longrightarrow> mr' = None \<and> mb' = None) \<Longrightarrow> stageC c mr' mb' d' \<Longrightarrow> Q a d'"
  shows "wp fl (stages c) (State_Monad.bind (removeMarker m (abs_path (rp c)) (cv_op c)) (\<lambda>_.
    State_Monad.bind (removeMarker m (abs_path (bkp c)) (cv_op c)) (\<lambda>_. io_return a))) Q d"
  by (rule wp_bind, rule wp_remove_C_root [OF C], rule wp_bind, erule wp_remove_C_backup, rule wp_return,
      rule Q [rotated], assumption, blast)

subsection \<open>Renaming\<close>

lemma wp_renamePath:
  assumes c: "conv_ok c" and p: "p \<in> {rp c, wkp c, bkp c}" "q \<in> {rp c, wkp c, bkp c}"
    and r: "os_Rename d p q = (d', None)" and d': "stages c d'" "around c d'" and d: "stages c d"
    and Q: "\<And>e. (fl \<Longrightarrow> e = None) \<Longrightarrow> Q e d'" "\<And>e. \<not> fl \<Longrightarrow> e \<noteq> None \<Longrightarrow> Q e d"
  shows "wp fl (stages c) (renamePath m (abs_path p) (abs_path q)) Q d"
proof -
  have cp: "components (abs_path p) = p" "components (abs_path q) = q" "path_Dir (abs_path q) = abs_path (cv_par c)"
    using p conv_components [OF c] conv_Dir [OF c] by auto
  have par: "components (abs_path (cv_par c)) = cv_par c" "os_lookup d' (cv_par c) = Some NDir"
    using components_abs conv_names(4) [OF c] around_parent [OF c d'(2)] by auto
  have sync: "wp fl (stages c) (check ''sync rename parent'' (syncDir m (path_Dir (abs_path q))) (io_return None)) Q d'"
    unfolding cp(3)
    by (rule wp_check, rule wp_syncDir) (use d'(1) par Q in \<open>auto split: option.splits intro!: wp_return\<close>)
  show ?thesis
    unfolding renamePath_def call_Rename_def cp(1,2)
    by (rule wp_check, rule wp_os_call) (use r d d' sync Q in auto)
qed

lemma wp_rename_root:
  assumes c: "conv_ok c" and A: "stageA c (Some mk) d" and ph: "mPhase mk = phaseRenamingRootToBackup"
    and Q: "\<And>e d'. (fl \<Longrightarrow> e = None) \<Longrightarrow> stageB c mk d' \<Longrightarrow> Q e d'" "\<And>e. \<not> fl \<Longrightarrow> e \<noteq> None \<Longrightarrow> Q e d"
  shows "wp fl (stages c) (renamePath m (abs_path (rp c)) (abs_path (bkp c))) Q d"
proof -
  obtain d' where d': "os_Rename d (rp c) (bkp c) = (d', None)" "stageB c mk d'" by (rule rename_root [OF c A ph])
  have "around c d'" using d'(2) by (simp add: stageB_def)
  with d' stagesI A show ?thesis by (intro wp_renamePath [OF c _ _ d'(1)] Q) auto
qed

lemma wp_rename_work:
  assumes c: "conv_ok c" and B: "stageB c mk d"
    and Q: "\<And>e d'. (fl \<Longrightarrow> e = None) \<Longrightarrow> stageC c None (Some mk) d' \<Longrightarrow> Q e d'" "\<And>e. \<not> fl \<Longrightarrow> e \<noteq> None \<Longrightarrow> Q e d"
  shows "wp fl (stages c) (renamePath m (abs_path (wkp c)) (abs_path (rp c))) Q d"
proof -
  obtain d' where d': "os_Rename d (wkp c) (rp c) = (d', None)" "stageC c None (Some mk) d'" by (rule rename_work [OF c B])
  have "around c d'" using d'(2) by (simp add: stageC_def)
  with d' stagesI B show ?thesis by (intro wp_renamePath [OF c _ _ d'(1)] Q) auto
qed


subsection \<open>The commit\<close>

lemma cmark0_paths: "cmark0 c m \<Longrightarrow> mRoot m = abs_path (rp c) \<and> mWork m = abs_path (wkp c) \<and> mBackup m = abs_path (bkp c) \<and> mOpID m = cv_op c"
  by (simp add: cmark0_def)

lemma cmark0_status:
  assumes "cmark0 c m" "utf8_coerce ph = ph" "utf8_coerce st = st"
  shows "cmark0 c (m\<lparr>mPhase := ph, mStatus := st\<rparr>)"
  using assms by (auto simp: cmark0_def marker_strings_def is_convert_def split: option.splits)

lemma cmark0_verification:
  assumes "cmark0 c m" "utf8_coerce ph = ph" "utf8_coerce st = st" "\<forall>s \<in> set (report_strings r). utf8_coerce s = s"
  shows "cmark0 c (m\<lparr>mPhase := ph, mStatus := st, mVerification := Some r\<rparr>)"
  using assms by (auto simp: cmark0_def marker_strings_def is_convert_def split: option.splits)

text \<open>The result of a conversion: an error, in some stage, or the work tree in the place of the root.\<close>

definition outcome :: "conv \<Rightarrow> transfer_error option \<Rightarrow> disk \<Rightarrow> bool" where
  "outcome c e d \<longleftrightarrow> (if e = None then \<exists>mr mb. stageC c mr mb d else stages c d)"

lemma outcomeI: "stages c d \<Longrightarrow> outcome c (Some x) d"
  by (simp add: outcome_def)

lemma case_outcome:
  "(e \<noteq> None \<Longrightarrow> stages c d) \<Longrightarrow> (e = None \<Longrightarrow> wp fl I k (outcome c) d) \<Longrightarrow>
    case e of Some x \<Rightarrow> outcome c (Some x) d | None \<Rightarrow> wp fl I k (outcome c) d"
  by (cases e) (simp_all add: outcomeI)

lemma wp_commit:
  assumes c: "conv_ok c" and A: "stageA c mo d" and m0: "cmark0 c m0" and good: "work_good c d"
  shows "wp fl (stages c) (commitConvertRename (cv_json c) m m0) (outcome c) d"
proof -
  define m1 where "m1 = m0\<lparr>mPhase := phaseRenamingRootToBackup\<rparr>"
  define m2 where "m2 = m1\<lparr>mPhase := phaseRenamingWorkToRoot\<rparr>"
  define m3 where "m3 = m2\<lparr>mPhase := phaseCompleted, mStatus := ''completed''\<rparr>"
  have m: "cmark0 c m1" "cmark0 c m2" "cmark0 c m3"
    unfolding m1_def m2_def m3_def using m0 utf8_phases by (blast intro: cmark0_phase cmark0_status)+
  have ph: "mPhase m1 = phaseRenamingRootToBackup" "mPhase m2 = phaseRenamingWorkToRoot" "mPhase m3 = phaseCompleted"
    by (simp_all add: m1_def m2_def m3_def)
  have op: "mOpID m3 = cv_op c" using m(3) by (simp add: cmark0_def)
  note p = cmark0_paths [OF m0]
  let ?J = "cv_json c" and ?r = "abs_path (rp c)" and ?w = "abs_path (wkp c)" and ?b = "abs_path (bkp c)"
  let ?clean = "State_Monad.bind (removeMarker m ?r (cv_op c)) (\<lambda>_. State_Monad.bind (removeMarker m ?b (cv_op c)) (\<lambda>_. io_return None))"
  have clean: "wp fl (stages c) ?clean (outcome c) d'" if "stageC c mr mb d'" for mr mb d'
    by (rule wp_remove_both [OF that]) (auto simp: outcome_def)
  let ?last = "attempt (writeMarker ?J m ?r m3) ?clean"
  have fin: "wp fl (stages c) ?last (outcome c) d'" if "stageC c mr mb d'" for mr mb d'
    by (rule wp_attempt, rule wp_write_C [OF that m(3) ph(3)], rule case_outcome) (blast intro: stagesI clean)+
  let ?two = "attempt (writeMarker ?J m ?b m2) (attempt (renamePath m ?w ?r) ?last)"
  have ren: "wp fl (stages c) (attempt (renamePath m ?w ?r) ?last) (outcome c) d'" if "stageB c mk d'" for mk d'
    by (rule wp_attempt, rule wp_rename_work [OF c that]; rule case_outcome) (blast intro: stagesI fin that)+
  have two: "wp fl (stages c) ?two (outcome c) d'" if "stageB c mk d'" for mk d'
    by (rule wp_attempt, rule wp_write_B [OF that m(2)], simp add: ph, rule case_outcome) (blast intro: stagesI ren)+
  let ?one = "attempt (writeMarker ?J m ?b m1) ?two"
  have one: "wp fl (stages c) ?one (outcome c) d'" if "stageB c mk d'" for mk d'
    by (rule wp_attempt, rule wp_write_B [OF that m(1)], simp add: ph, rule case_outcome) (blast intro: stagesI two)+
  have root: "wp fl (stages c) (attempt (renamePath m ?r ?b) ?one) (outcome c) d'"
    if "stageA c (Some mk) d'" "mPhase mk = phaseRenamingRootToBackup" for mk d'
    by (rule wp_attempt, rule wp_rename_root [OF c that]; rule case_outcome) (blast intro: stagesI one that(1))+
  have "wp fl (stages c) (attempt (writeMarker ?J m ?r m1) (attempt (renamePath m ?r ?b) ?one)) (outcome c) d"
    by (rule wp_attempt, rule wp_write_A [OF A m(1)], simp add: ph good; rule case_outcome)
      (use ph(1) root stagesI(1) in \<open>simp_all, blast?\<close>)
  then show ?thesis
    unfolding commitConvertRename_def Let_def m1_def [symmetric] m2_def [symmetric] m3_def [symmetric] using p op by simp
qed

lemma wp_recordVerificationFailure:
  assumes A: "stageA c mo d" and m0: "cmark0 c m0" and v: "\<And>r. v = VerifyMismatch r \<Longrightarrow> \<forall>s \<in> set (report_strings r). utf8_coerce s = s"
  shows "wp fl (stages c) (recordVerificationFailure (cv_json c) m m0 v) (outcome c) d"
proof (cases v)
  case (VerifyMismatch r)
  let ?m = "m0\<lparr>mPhase := phaseNeedsAttention, mStatus := ''failed'', mVerification := Some r\<rparr>"
  have m: "cmark0 c ?m" "mPhase ?m = phaseNeedsAttention"
    using m0 v [OF VerifyMismatch] utf8_phases by (simp_all add: cmark0_verification)
  have "wp fl (stages c) (attempt (writeMarker (cv_json c) m (abs_path (rp c)) ?m) (io_return (Some (TVerify ''mismatch'')))) (outcome c) d"
    by (rule wp_attempt, rule wp_write_A [OF A m(1)], simp add: m(2); rule case_outcome)
      (auto intro: outcomeI wp_return stagesI(1))
  with VerifyMismatch cmark0_paths [OF m0] show ?thesis by (simp add: recordVerificationFailure_def)
next
  case (VerifyOther x)
  with A show ?thesis by (auto simp: recordVerificationFailure_def intro!: wp_return outcomeI stagesI(1))
qed


subsection \<open>The work tree\<close>

text \<open>Changes in the work tree, and of markers of other operations in the root.\<close>

definition in_work :: "conv \<Rightarrow> disk \<Rightarrow> disk \<Rightarrow> bool" where
  "in_work c d d' \<longleftrightarrow> same_but [wkp c, rp c @ [baseDirName]] d d' \<and> at_site c (wkp c) None d' \<and>
     (\<forall>mo. at_site c (rp c) mo d \<longrightarrow> at_site c (rp c) mo d')"

text \<open>A root with an early marker, and a work tree beside it.\<close>

definition filling :: "conv \<Rightarrow> disk \<Rightarrow> bool" where
  "filling c d \<longleftrightarrow> (\<exists>m. stageA c (Some m) d \<and> mPhase m \<in> early_phases) \<and> at_site c (wkp c) None d"

lemma filling_stages: "filling c d \<Longrightarrow> stages c d"
  by (auto simp: filling_def intro: stagesI)

lemma stageA_changed:
  assumes A: "stageA c (Some m) d" "mPhase m \<in> early_phases" and same: "same_but [wkp c, rp c @ [baseDirName]] d d'"
    and d': "plain_disk d'" "at_site c (rp c) (Some m) d'" "os_lookup d' (wkp c) = None \<or> at_site c (wkp c) None d'"
  shows "stageA c (Some m) d'"
proof -
  have "\<not> prefix (rp c @ [baseDirName]) (bkp c @ k)" for k using below_distinct(2) [of c k] append_prefixD by blast
  then have b: "moved (bkp c) (bkp c) d d'" using same below_distinct by (simp add: same_but_def moved_def)
  have "tree d' (rp c) = tree d (rp c)"
    using same below_distinct by (auto simp: tree_def same_but_def fun_eq_iff)
  moreover have "around c d'"
    using A(1) same d'(1) append_prefixD unfolding stageA_def around_def same_but_def by (auto dest: append_prefixD)
  ultimately show ?thesis
    using A d'(2,3) moved_lookup [OF b] by (simp add: stageA_def marker_A_def)
qed

lemma stageA_in_work:
  assumes A: "stageA c (Some m) d" "mPhase m \<in> early_phases" and w: "same_but [wkp c] d d'" "plain_disk d'"
    "os_lookup d' (wkp c) = None \<or> at_site c (wkp c) None d'"
  shows "stageA c (Some m) d'"
proof (rule stageA_changed [OF A _ w(2) _ w(3)])
  have "moved (rp c) (rp c) d d'" using w(1) below_distinct by (simp add: same_but_def moved_def)
  then have "site (cv_json c) (cv_op c) (rp c) (Some m) d'"
    by (rule moved_site [OF _ _ w(2)]) (use A(1) in \<open>auto simp: stageA_def at_site_def site_def\<close>)
  then show "at_site c (rp c) (Some m) d'" by (simp add: at_site_def)
qed (use w(1) in \<open>simp add: same_but_def\<close>)

lemma filling_in_work:
  assumes "filling c d" "in_work c d d'"
  shows "filling c d'"
proof -
  obtain m where A: "stageA c (Some m) d" "mPhase m \<in> early_phases" using assms(1) by (auto simp: filling_def)
  have w: "same_but [wkp c, rp c @ [baseDirName]] d d'" "at_site c (wkp c) None d'" "at_site c (rp c) (Some m) d'"
    using assms(2) A(1) by (simp_all add: in_work_def stageA_def)
  have "stageA c (Some m) d'" by (rule stageA_changed [OF A w(1) at_site_plain [OF w(2)] w(3)]) (use w(2) in blast)
  with A(2) w(2) show ?thesis by (auto simp: filling_def)
qed

subsection \<open>Making the work directory\<close>

lemma lookup_below_None:
  assumes "disk_wf d" "os_lookup d p = None"
  shows "os_lookup d (p @ k) = None"
proof (induction k rule: rev_induct)
  case (snoc x k)
  then show ?case
    using lookup_parent [OF assms(1), of "p @ k @ [x]"] by (cases "os_lookup d (p @ k @ [x])") (auto simp: butlast_append)
qed (use assms in simp)

lemma mkdir_A:
  assumes c: "conv_ok c" and A: "stageA c (Some m) d" "mPhase m \<in> early_phases" and w: "os_lookup d (wkp c) = None"
    and mk: "os_MkdirAll d (take n (wkp c)) = (d', e)"
  shows "stageA c (Some m) d'" "length (wkp c) \<le> n \<Longrightarrow> e = None \<and> os_lookup d' (wkp c) = Some NDir"
proof -
  have d: "plain_disk d" "around c d" using A(1) by (simp_all add: stageA_def around_def)
  have wf: "disk_wf d" using d(1) by (simp add: plain_disk_def)
  have names: "\<forall>v \<in> set (take n (wkp c)). plain_name v" using conv_names(2) [OF c] by (auto dest: in_set_takeD)
  note mkd = plain_MkdirAll [OF d(1) names mk]
  have dirs: "os_lookup d q = Some NDir" if "prefix q (cv_par c)" for q
    by (rule dirs_above [OF wf around_parent [OF c d(2)] that])
  have pre: "prefix q (cv_par c) \<or> q = wkp c" if "prefix q (take n (wkp c))" for q
  proof -
    have "prefix q (wkp c)" using that take_is_prefix prefix_order.trans by blast
    then show ?thesis by (auto simp: wkp_def)
  qed
  have new: "os_lookup d' q = os_lookup d q \<or> q = wkp c \<and> os_lookup d' q = Some NDir" for q
    using mkd(2) pre [of q] dirs [of q] unfolding new_dirs_def by (metis option.distinct(1))
  have same: "same_but [wkp c] d d'" unfolding same_but_def using new by auto
  have below: "os_lookup d' (wkp c @ baseDirName # k) = None" for k
    using new [of "wkp c @ baseDirName # k"] lookup_below_None [OF wf w] by auto
  have "os_lookup d' (wkp c) = None \<or> at_site c (wkp c) None d'"
    using new [of "wkp c"] w mkd(1) below conv_names [OF c] c by (auto simp: at_site_def site_def area_def conv_ok_def)
  with same mkd(1) show "stageA c (Some m) d'" by (intro stageA_in_work [OF A])
  assume "length (wkp c) \<le> n"
  then have all: "take n (wkp c) = wkp c" by simp
  have "os_lookup d k \<in> {None, Some NDir}" if "prefix k (take n (wkp c))" for k
    using pre [OF that] dirs w by auto
  with mkd(3,4) all show "e = None \<and> os_lookup d' (wkp c) = Some NDir" by metis
qed

lemma wp_missing_dirs:
  assumes c: "conv_ok c" and d: "around c d" and w: "os_lookup d (wkp c) = None"
  shows "wp fl I (missing_dirs (abs_path (wkp c))) (\<lambda>r d'. d' = d \<and> (\<not> fl \<and> (\<exists>e. r = Inl e) \<or> r = Inr [abs_path (wkp c)])) d"
proof -
  have wf: "disk_wf d" using d by (simp add: around_def plain_disk_def)
  note par = around_parent [OF c d]
  have enoent: "walk_error d (wkp c) = ENOENT"
    by (rule walk_error_ENOENT) (use dirs_above [OF wf par] conv_distinct in auto)
  have stat: "os_Stat d (wkp c) = Inl ENOENT" "os_Stat d (cv_par c) = Inr NDir"
    using w par enoent by (simp_all add: os_Stat_def)
  have cp: "components (abs_path (cv_par c)) = cv_par c" using components_abs conv_names(4) [OF c] by blast
  have short: "length (abs_path (cv_par c)) < length (abs_path (wkp c))"
    by (cases "cv_par c = []") (simp_all add: wkp_def abs_append, simp add: abs_path_def)
  let ?Q = "\<lambda>r d'. d' = d \<and> (\<not> fl \<and> (\<exists>e. r = Inl e) \<or> r = Inr [])"
  have up: "wp fl I (missing_dirs (abs_path (cv_par c))) ?Q d"
    unfolding missing_dirs.simps [of "abs_path (cv_par c)"] call_Stat_def cp
    by (rule wp_bind, rule wp_os_query) (use stat in \<open>auto intro!: wp_return\<close>)
  show ?thesis
    unfolding missing_dirs.simps [of "abs_path (wkp c)"] call_Stat_def conv_components(2) [OF c] conv_Dir(2) [OF c]
    by (rule wp_bind, rule wp_os_query)
      (use stat short in \<open>auto simp del: missing_dirs.simps intro!: wp_return wp_bind wp_mono [OF up]\<close>)
qed

definition made :: "conv \<Rightarrow> OperationMarker \<Rightarrow> transfer_error option \<Rightarrow> disk \<Rightarrow> bool" where
  "made c mk e d \<longleftrightarrow> (if e = None then stageA c (Some mk) d \<and> os_lookup d (wkp c) = Some NDir else stages c d)"

definition ready :: "conv \<Rightarrow> transfer_error option \<Rightarrow> disk \<Rightarrow> bool" where
  "ready c e d \<longleftrightarrow> (if e = None then filling c d else stages c d)"

lemma readyI: "stages c d \<Longrightarrow> ready c (Some x) d" "stages c d \<Longrightarrow> made c mk (Some x) d"
  by (simp_all add: ready_def made_def)

lemma case_ready:
  "(e \<noteq> None \<Longrightarrow> stages c d) \<Longrightarrow> (e = None \<Longrightarrow> wp fl I k (ready c) d) \<Longrightarrow>
    case e of Some x \<Rightarrow> ready c (Some (TCall op x)) d | None \<Rightarrow> wp fl I k (ready c) d"
  by (cases e) (simp_all add: readyI)

lemma case_made:
  "(e \<noteq> None \<Longrightarrow> stages c d) \<Longrightarrow> (e = None \<Longrightarrow> wp fl I k (made c mk) d) \<Longrightarrow>
    case e of Some x \<Rightarrow> made c mk (Some (TCall op x)) d | None \<Rightarrow> wp fl I k (made c mk) d"
  by (cases e) (simp_all add: readyI)

lemma wp_prepare_work:
  assumes c: "conv_ok c" and A: "stageA c (Some mk0) d" "mPhase mk0 \<in> early_phases" and w: "os_lookup d (wkp c) = None"
    and mk: "cmark0 c mk" "mPhase mk \<in> early_phases"
  shows "wp fl (stages c) (prepare_work (cv_json c) m mk) (ready c) d"
proof -
  note p = cmark0_paths [OF mk(1)]
  have d: "around c d" using A(1) by (simp add: stageA_def)
  have cw: "filepath_Clean (abs_path (wkp c)) = abs_path (wkp c)" by (rule Clean_abs_path [OF conv_names(2) [OF c]])
  let ?put = "writeMarker (cv_json c) m (abs_path (rp c)) mk"
  let ?chmod = "check ''protect convert work'' (call_Chmod (abs_path (wkp c))) ?put"
  have put: "wp fl (stages c) ?put (ready c) d'" if "stageA c (Some mk0) d'" "os_lookup d' (wkp c) = Some NDir" for d'
  proof (rule wp_write_A [OF that(1) mk(1)])
    fix e d2 and now :: nat
    assume st: "stageA c (Some (stamp now mk)) d2" "moved (wkp c) (wkp c) d' d2"
    have "at_site c (wkp c) None d2" using st moved_lookup [OF st(2)] that(2) by (simp add: stageA_def)
    with st(1) mk(2) show "ready c e d2" by (auto simp: filling_def ready_def intro: stagesI)
  qed (use mk stagesI(1) in \<open>auto simp: ready_def\<close>)
  have chmod: "wp fl (stages c) ?chmod (ready c) d'" if "stageA c (Some mk0) d'" "os_lookup d' (wkp c) = Some NDir" for d'
    by (rule wp_check, rule wp_Chmod, rule stagesI(1) [OF that(1)], rule case_ready) (rule stagesI(1) [OF that(1)], rule put [OF that])
  have sync: "wp fl (stages c) (check op (syncDir m q) k) (made c mk0) d'"
    if "stageA c (Some mk0) d'" "wp fl (stages c) k (made c mk0) d'" for op q k d'
    by (rule wp_check, rule wp_syncDir, rule stagesI(1) [OF that(1)], rule case_made) (rule stagesI(1) [OF that(1)], rule that(2))
  let ?sync = "if durability m \<noteq> DurabilityFull then io_return None else sync_dirs m [abs_path (wkp c)]"
  have after: "wp fl (stages c) ?sync (made c mk0) d'" if "stageA c (Some mk0) d'" "os_lookup d' (wkp c) = Some NDir" for d'
  proof -
    have "made c mk0 None d'" using that by (simp add: made_def)
    then show ?thesis using that(1) by (auto intro!: wp_return sync)
  qed
  have mkdir: "wp fl (stages c) (check ''mkdir'' (call_MkdirAll (abs_path (wkp c))) ?sync) (made c mk0) d"
    unfolding call_MkdirAll_def conv_components(2) [OF c]
  proof (rule wp_check, rule wp_os_call)
    fix d' e assume "os_MkdirAll d (wkp c) = (d', e)"
    then have "os_MkdirAll d (take (length (wkp c)) (wkp c)) = (d', e)" by simp
    note mk = mkdir_A [OF c A w this]
    have "case map_option OsError e of Some x \<Rightarrow> made c mk0 (Some (TCall ''mkdir'' x)) d' | None \<Rightarrow> wp fl (stages c) ?sync (made c mk0) d'"
      by (rule case_made) (use stagesI(1) [OF mk(1)] after [OF mk(1)] mk(2) in auto)
    then show "stages c d' \<and> (case map_option OsError e of Some x \<Rightarrow> made c mk0 (Some (TCall ''mkdir'' x)) d'
        | None \<Rightarrow> wp fl (stages c) ?sync (made c mk0) d')" using stagesI(1) [OF mk(1)] by blast
  next
    fix n
    obtain d' e where r: "os_MkdirAll d (take n (wkp c)) = (d', e)" by fastforce
    from stagesI(1) [OF mkdir_A(1) [OF c A w r]]
    show "stages c (fst (os_MkdirAll d (take n (wkp c)))) \<and> (case Some Faulted of
          Some x \<Rightarrow> made c mk0 (Some (TCall ''mkdir'' x)) (fst (os_MkdirAll d (take n (wkp c))))
        | None \<Rightarrow> wp fl (stages c) ?sync (made c mk0) (fst (os_MkdirAll d (take n (wkp c)))))"
      by (simp add: r readyI)
  qed
  have "wp fl (stages c) (mkdirAllPath m (abs_path (wkp c))) (made c mk0) d"
    unfolding mkdirAllPath_def cw
    by (rule wp_bind, rule wp_mono [OF wp_missing_dirs [OF c d w]])
      (use mkdir readyI(2) [OF stagesI(1) [OF A(1)]] in \<open>auto simp del: sync_dirs.simps intro!: wp_return\<close>)
  then have mkd: "wp fl (stages c) (mkdirAllPath m (abs_path (wkp c))) (\<lambda>e d'. case e of
      Some x \<Rightarrow> ready c (Some x) d' | None \<Rightarrow> wp fl (stages c) ?chmod (ready c) d') d"
    by (rule wp_mono) (auto simp: made_def ready_def intro!: chmod split: option.splits)
  have pw: "mRoot mk = abs_path (rp c)" "mWork mk = abs_path (wkp c)" using p by simp_all
  show ?thesis unfolding prepare_work_def pw by (rule wp_attempt, rule mkd)
qed


subsection \<open>The conversions\<close>

text \<open>What is used of the calls that fill and compare the work tree: they change nothing outside of it but
  markers of imports and exports in the root, and leave no conversion marker in it. A comparison that finds no difference means that the tree is
  good; closing a root leaves the disk alone. File names that a comparison reports are UTF-8.\<close>

definition compared :: "conv \<Rightarrow> disk \<Rightarrow> verify_error option \<Rightarrow> disk \<Rightarrow> bool" where
  "compared c d v d' \<longleftrightarrow> in_work c d d' \<and> (v = None \<longrightarrow> cv_good c (tree d' (wkp c))) \<and>
     (\<forall>r. v = Some (VerifyMismatch r) \<longrightarrow> (\<forall>s \<in> set (report_strings r). utf8_coerce s = s))"

definition works_ok :: "conv \<Rightarrow> 'r work_calls \<Rightarrow> string \<Rightarrow> bool \<Rightarrow> bool" where
  "works_ok c W password ow \<longleftrightarrow> (\<forall>d r. at_site c (wkp c) None d \<longrightarrow>
     wp False (in_work c d) (wc_CreateRootConfig W (abs_path (wkp c)) password) (\<lambda>_. in_work c d) d \<and>
     wp False (in_work c d) (wc_OpenRoot W (abs_path (wkp c)) password) (\<lambda>_. in_work c d) d \<and>
     wp False (in_work c d) (wc_OpenRoot W (abs_path (rp c)) password) (\<lambda>_. in_work c d) d \<and>
     wp False (in_work c d) (wc_importDirectory W r (abs_path (rp c)) ow) (\<lambda>_. in_work c d) d \<and>
     wp False (in_work c d) (wc_exportDirectory W r (abs_path (wkp c)) ow) (\<lambda>_. in_work c d) d \<and>
     wp False (\<lambda>d'. d' = d) (wc_Close W r) (\<lambda>_ d'. d' = d) d \<and>
     wp False (in_work c d) (wc_verifyPlainAndRoot W (abs_path (rp c)) r) (compared c d) d \<and>
     wp False (in_work c d) (wc_verifyRootAndPlain W r (abs_path (wkp c))) (compared c d) d)"

lemma fill_step:
  assumes "filling c d" "wp False (in_work c d) m (\<lambda>_. in_work c d) d" "\<And>a d'. filling c d' \<Longrightarrow> Q a d'"
  shows "wp False (stages c) m Q d"
  by (rule wp_inv_mono [OF wp_mono [OF assms(2)]]) (use assms filling_in_work filling_stages in blast)+

lemma close_step:
  assumes "filling c d" "wp False (\<lambda>d'. d' = d) m (\<lambda>_ d'. d' = d) d" "\<And>a. Q a d"
  shows "wp False (stages c) m Q d"
  by (rule wp_inv_mono [OF wp_mono [OF assms(2)]]) (use assms filling_stages in blast)+

lemma compare_step:
  assumes "filling c d" "wp False (in_work c d) m (compared c d) d"
    and "\<And>v d'. filling c d' \<Longrightarrow> (v = None \<Longrightarrow> work_good c d') \<Longrightarrow>
      (\<And>r. v = Some (VerifyMismatch r) \<Longrightarrow> \<forall>s \<in> set (report_strings r). utf8_coerce s = s) \<Longrightarrow> Q v d'"
  shows "wp False (stages c) m Q d"
proof (rule wp_inv_mono [OF wp_mono [OF assms(2)]])
  fix v d' assume v: "compared c d v d'"
  then have "in_work c d d'" by (simp add: compared_def)
  with assms(1) have "filling c d'" by (rule filling_in_work)
  with v show "Q v d'" by (intro assms(3)) (auto simp: compared_def filling_def work_good_def)
qed (use assms(1) filling_in_work filling_stages in blast)

lemma filling_works:
  assumes "filling c d" "works_ok c W password ow"
  shows "wp False (in_work c d) (wc_CreateRootConfig W (abs_path (wkp c)) password) (\<lambda>_. in_work c d) d"
    "wp False (in_work c d) (wc_OpenRoot W (abs_path (wkp c)) password) (\<lambda>_. in_work c d) d"
    "wp False (in_work c d) (wc_OpenRoot W (abs_path (rp c)) password) (\<lambda>_. in_work c d) d"
    "wp False (in_work c d) (wc_importDirectory W r (abs_path (rp c)) ow) (\<lambda>_. in_work c d) d"
    "wp False (in_work c d) (wc_exportDirectory W r (abs_path (wkp c)) ow) (\<lambda>_. in_work c d) d"
    "wp False (\<lambda>d'. d' = d) (wc_Close W r) (\<lambda>_ d'. d' = d) d"
    "wp False (in_work c d) (wc_verifyPlainAndRoot W (abs_path (rp c)) r) (compared c d) d"
    "wp False (in_work c d) (wc_verifyRootAndPlain W r (abs_path (wkp c))) (compared c d) d"
  using assms unfolding works_ok_def filling_def by blast+

lemma filling_kept:
  assumes "at_site c (wkp c) None d" "stageA c (Some m) d'" "mPhase m \<in> early_phases" "moved (wkp c) (wkp c) d d'"
  shows "filling c d'"
  using assms moved_lookup [OF assms(4)] at_site_dir [OF assms(1)] by (auto simp: filling_def stageA_def)

lemma wp_write_filling:
  assumes f: "filling c d" and mk: "cmark0 c mk" "mPhase mk \<in> early_phases"
  shows "wp fl (stages c) (writeMarker (cv_json c) m (abs_path (rp c)) mk) (\<lambda>_. filling c) d"
proof -
  obtain m0 where A: "stageA c (Some m0) d" "at_site c (wkp c) None d" "mPhase m0 \<in> early_phases"
    using f by (auto simp: filling_def)
  show ?thesis
    by (rule wp_write_A [OF A(1) mk(1)]) (use mk A filling_kept in auto)
qed

text \<open>The end of both: the roots are closed and the result of the comparison decides.\<close>

lemma wp_finish:
  assumes c: "conv_ok c" and f: "filling c d" and mk: "cmark0 c mk"
    and cl: "wp False (\<lambda>d'. d' = d) cl (\<lambda>_ d'. d' = d) d"
    and v: "v = None \<Longrightarrow> work_good c d" "\<And>r. v = Some (VerifyMismatch r) \<Longrightarrow> \<forall>s \<in> set (report_strings r). utf8_coerce s = s"
  shows "wp False (stages c) (case v of Some x \<Rightarrow> State_Monad.bind cl (\<lambda>_. recordVerificationFailure (cv_json c) m mk x)
    | None \<Rightarrow> attempt cl (commitConvertRename (cv_json c) m mk)) (outcome c) d"
proof -
  obtain m0 where A: "stageA c (Some m0) d" using f by (auto simp: filling_def)
  show ?thesis
  proof (cases v)
    case None
    have "wp False (stages c) cl (\<lambda>e d'. case e of Some x \<Rightarrow> outcome c (Some x) d'
        | None \<Rightarrow> wp False (stages c) (commitConvertRename (cv_json c) m mk) (outcome c) d') d"
      by (rule close_step [OF f cl], rule case_outcome) (rule stagesI(1) [OF A], rule wp_commit [OF c A mk v(1) [OF None]])
    with None show ?thesis by (simp add: wp_attempt)
  next
    case (Some x)
    have "wp False (stages c) cl (\<lambda>_. wp False (stages c) (recordVerificationFailure (cv_json c) m mk x) (outcome c)) d"
      by (rule close_step [OF f cl], rule wp_recordVerificationFailure [OF A mk]) (use v(2) Some in auto)
    with Some show ?thesis by (simp add: wp_bind)
  qed
qed

end
