(* ===== verification/ConvertSafety.thy ===== *)
theory ConvertSafety
  imports ConvertRuns
begin

text \<open>
  The whole of a conversion, from the request on.
\<close>

subsection \<open>The two directions\<close>

lemma case_outcome_plain:
  "(e \<noteq> None \<Longrightarrow> stages c d) \<Longrightarrow> (e = None \<Longrightarrow> wp fl I k (outcome c) d) \<Longrightarrow>
    wp fl I (case e of Some x \<Rightarrow> io_return (Some x) | None \<Rightarrow> k) (outcome c) d"
  by (cases e) (simp_all add: outcomeI wp_return)

lemma case_close:
  assumes "filling c d" "wp False (\<lambda>d'. d' = d) cl (\<lambda>_ d'. d' = d) d" "e = None \<Longrightarrow> wp False (stages c) k (outcome c) d"
  shows "wp False (stages c) (case e of Some x \<Rightarrow> State_Monad.bind cl (\<lambda>_. io_return (Some x)) | None \<Rightarrow> k) (outcome c) d"
proof (cases e)
  case (Some x)
  have "wp False (stages c) (State_Monad.bind cl (\<lambda>_. io_return (Some x))) (outcome c) d"
    by (rule wp_bind, rule close_step [OF assms(1,2)], rule wp_return) (use filling_stages [OF assms(1)] in \<open>rule outcomeI\<close>)
  with Some show ?thesis by simp
qed (use assms(3) in simp)

lemma wp_convertEncrypt:
  assumes c: "conv_ok c" and W: "works_ok c W password ow" and A: "stageA c (Some mk0) d" "mPhase mk0 \<in> early_phases"
    and w: "os_lookup d (wkp c) = None" and m0: "cmark0 c m0"
  shows "wp False (stages c) (convertEncrypt (cv_json c) W m m0 password ow) (outcome c) d"
proof -
  define m1 where "m1 = m0\<lparr>mPhase := phaseCopyingToWork\<rparr>"
  define m2 where "m2 = m1\<lparr>mPhase := phaseVerifyingWork\<rparr>"
  have m: "cmark0 c m1" "cmark0 c m2" unfolding m1_def m2_def using m0 utf8_phases by (blast intro: cmark0_phase)+
  have ph: "mPhase m1 \<in> early_phases" "mPhase m2 \<in> early_phases" by (simp_all add: m1_def m2_def early_phases_def)
  have p: "mRoot m0 = abs_path (rp c)" "mWork m0 = abs_path (wkp c)" using cmark0_paths [OF m0] by simp_all
  note works = filling_works [OF _ W]
  let ?r = "abs_path (rp c)" and ?w = "abs_path (wkp c)"
  let ?k6 = "\<lambda>vault. State_Monad.bind (wc_verifyPlainAndRoot W ?r vault) (\<lambda>v. case v of
      Some x \<Rightarrow> State_Monad.bind (wc_Close W vault) (\<lambda>_. recordVerificationFailure (cv_json c) m m2 x)
    | None \<Rightarrow> attempt (wc_Close W vault) (commitConvertRename (cv_json c) m m2))"
  have s6: "wp False (stages c) (?k6 vault) (outcome c) d'" if f: "filling c d'" for vault d'
    by (rule wp_bind, rule compare_step [OF f works(7) [OF f]], rule wp_finish [OF c _ m(2)]) (use works(6) in blast)+
  let ?k5 = "State_Monad.bind (wc_OpenRoot W ?w password) (\<lambda>r. case r of Inl e \<Rightarrow> io_return (Some e) | Inr vault \<Rightarrow> ?k6 vault)"
  have s5: "wp False (stages c) ?k5 (outcome c) d'" if f: "filling c d'" for d'
    by (rule wp_bind, rule fill_step [OF f works(2) [OF f]])
      (auto split: sum.splits intro!: wp_return s6 outcomeI filling_stages)
  let ?k4 = "attempt (writeMarker (cv_json c) m ?r m2) ?k5"
  have s4: "wp False (stages c) ?k4 (outcome c) d'" if f: "filling c d'" for d'
    by (rule wp_attempt, rule wp_mono [OF wp_write_filling [OF f m(2) ph(2)]], rule case_outcome) (use s5 filling_stages in auto)
  let ?k3 = "\<lambda>vault. State_Monad.bind (wc_importDirectory W vault ?r ow) (\<lambda>e. case e of
      Some x \<Rightarrow> State_Monad.bind (wc_Close W vault) (\<lambda>_. io_return (Some x)) | None \<Rightarrow> attempt (wc_Close W vault) ?k4)"
  have cl: "wp False (stages c) (attempt (wc_Close W vault) ?k4) (outcome c) d'" if f: "filling c d'" for vault d'
    by (rule wp_attempt, rule close_step [OF f works(6) [OF f]], rule case_outcome) (use s4 f filling_stages in auto)
  have s3: "wp False (stages c) (?k3 vault) (outcome c) d'" if f: "filling c d'" for vault d'
    by (rule wp_bind, rule fill_step [OF f works(4) [OF f]], rule case_close) (use works(6) cl in blast)+
  let ?k2 = "State_Monad.bind (wc_OpenRoot W ?w password) (\<lambda>r. case r of Inl e \<Rightarrow> io_return (Some e) | Inr vault \<Rightarrow> ?k3 vault)"
  have s2: "wp False (stages c) ?k2 (outcome c) d'" if f: "filling c d'" for d'
    by (rule wp_bind, rule fill_step [OF f works(2) [OF f]])
      (auto split: sum.splits intro!: wp_return s3 outcomeI filling_stages)
  have s1: "wp False (stages c) (attempt (wc_CreateRootConfig W ?w password) ?k2) (outcome c) d'" if f: "filling c d'" for d'
    by (rule wp_attempt, rule fill_step [OF f works(1) [OF f]], rule case_outcome) (use s2 filling_stages in auto)
  have "wp False (stages c) (attempt (prepare_work (cv_json c) m m1) (attempt (wc_CreateRootConfig W ?w password) ?k2)) (outcome c) d"
    by (rule wp_attempt, rule wp_mono [OF wp_prepare_work [OF c A w m(1) ph(1)]])
      (auto simp: ready_def split: option.splits intro!: s1 outcomeI)
  then show ?thesis
    unfolding convertEncrypt_def Let_def m1_def [symmetric] m2_def [symmetric] p .
qed

lemma wp_convertDecrypt:
  assumes c: "conv_ok c" and W: "works_ok c W password ow" and A: "stageA c (Some mk0) d" "mPhase mk0 \<in> early_phases"
    and w: "os_lookup d (wkp c) = None" and m0: "cmark0 c m0"
  shows "wp False (stages c) (convertDecrypt (cv_json c) W m m0 password ow) (outcome c) d"
proof -
  define m1 where "m1 = m0\<lparr>mPhase := phaseCopyingToWork\<rparr>"
  define m2 where "m2 = m1\<lparr>mPhase := phaseVerifyingWork\<rparr>"
  have m: "cmark0 c m1" "cmark0 c m2" unfolding m1_def m2_def using m0 utf8_phases by (blast intro: cmark0_phase)+
  have ph: "mPhase m1 \<in> early_phases" "mPhase m2 \<in> early_phases" by (simp_all add: m1_def m2_def early_phases_def)
  have p: "mRoot m0 = abs_path (rp c)" "mWork m0 = abs_path (wkp c)" using cmark0_paths [OF m0] by simp_all
  note works = filling_works [OF _ W]
  let ?r = "abs_path (rp c)" and ?w = "abs_path (wkp c)"
  let ?k4 = "\<lambda>source. State_Monad.bind (wc_verifyRootAndPlain W source ?w) (\<lambda>v. case v of
      Some x \<Rightarrow> State_Monad.bind (wc_Close W source) (\<lambda>_. recordVerificationFailure (cv_json c) m m2 x)
    | None \<Rightarrow> attempt (wc_Close W source) (commitConvertRename (cv_json c) m m2))"
  have s4: "wp False (stages c) (?k4 source) (outcome c) d'" if f: "filling c d'" for source d'
    by (rule wp_bind, rule compare_step [OF f works(8) [OF f]], rule wp_finish [OF c _ m(2)]) (use works(6) in blast)+
  let ?k3 = "\<lambda>source. State_Monad.bind (writeMarker (cv_json c) m ?r m2) (\<lambda>e. case e of
      Some x \<Rightarrow> State_Monad.bind (wc_Close W source) (\<lambda>_. io_return (Some x)) | None \<Rightarrow> ?k4 source)"
  have s3: "wp False (stages c) (?k3 source) (outcome c) d'" if f: "filling c d'" for source d'
    by (rule wp_bind, rule wp_mono [OF wp_write_filling [OF f m(2) ph(2)]], rule case_close) (use works(6) s4 in blast)+
  let ?k2 = "\<lambda>source. State_Monad.bind (wc_exportDirectory W source ?w ow) (\<lambda>e. case e of
      Some x \<Rightarrow> State_Monad.bind (wc_Close W source) (\<lambda>_. io_return (Some x)) | None \<Rightarrow> ?k3 source)"
  have s2: "wp False (stages c) (?k2 source) (outcome c) d'" if f: "filling c d'" for source d'
    by (rule wp_bind, rule fill_step [OF f works(5) [OF f]], rule case_close) (use works(6) s3 in blast)+
  let ?k1 = "State_Monad.bind (wc_OpenRoot W ?r password) (\<lambda>r. case r of Inl e \<Rightarrow> io_return (Some e) | Inr source \<Rightarrow> ?k2 source)"
  have s1: "wp False (stages c) ?k1 (outcome c) d'" if f: "filling c d'" for d'
    by (rule wp_bind, rule fill_step [OF f works(3) [OF f]])
      (auto split: sum.splits intro!: wp_return s2 outcomeI filling_stages)
  have "wp False (stages c) (attempt (prepare_work (cv_json c) m m1) ?k1) (outcome c) d"
    by (rule wp_attempt, rule wp_mono [OF wp_prepare_work [OF c A w m(1) ph(1)]])
      (auto simp: ready_def split: option.splits intro!: s1 outcomeI)
  then show ?thesis
    unfolding convertDecrypt_def Let_def m1_def [symmetric] m2_def [symmetric] p .
qed

end
