(* ===== verification/ConvertRecovery.thy ===== *)
theory ConvertRecovery
  imports ConvertSafety
begin

text \<open>
  The recovery of a conversion on the stages: it finds the markers that are there, and from every stage
  it goes on to a state in which nothing is lost.
\<close>

subsection \<open>Finding the directories beside the root\<close>

lemma abs_dir_split:
  assumes "\<forall>u \<in> set p. plain_name u" "slash \<notin> set v"
  shows "cleanGlobPath (split_dir (abs_path (p @ [v]))) = abs_path p" "split_file (abs_path (p @ [v])) = v"
proof -
  have e: "rev (abs_path (p @ [v])) = rev v @ slash # rev (if p = [] then [] else abs_path p)"
    by (cases "p = []") (simp_all add: abs_append, simp add: abs_path_def)
  have "dropWhile (\<lambda>c. c \<noteq> slash) (rev v @ slash # z) = slash # z" for z
    using assms(2) by (subst dropWhile_append2) auto
  moreover have "takeWhile (\<lambda>c. c \<noteq> slash) (rev v @ slash # z) = rev v" for z
    using assms(2) by (subst takeWhile_append2) auto
  ultimately have s: "split_dir (abs_path (p @ [v])) = (if p = [] then [] else abs_path p) @ [slash]"
      "split_file (abs_path (p @ [v])) = v"
    by (simp_all add: split_dir_def split_file_def e)
  show "split_file (abs_path (p @ [v])) = v" by (rule s(2))
  have "abs_path p \<noteq> []" by (simp add: abs_path_def)
  then show "cleanGlobPath (split_dir (abs_path (p @ [v]))) = abs_path p"
    unfolding s(1) by (cases "p = []") (simp_all add: cleanGlobPath_def, simp add: abs_path_def)
qed

lemma hasMeta_append [simp]: "hasMeta (a @ b) \<longleftrightarrow> hasMeta a \<or> hasMeta b"
  by (simp add: hasMeta_def)

lemma hasMeta_abs: "(\<forall>v \<in> set p. \<not> hasMeta v) \<Longrightarrow> \<not> hasMeta (abs_path p)"
proof (induction p rule: rev_induct)
  case (snoc v p)
  then show ?case
    by (cases "p = []") (simp_all add: abs_append, simp_all add: abs_path_def hasMeta_def is_meta_def)
qed (simp add: abs_path_def hasMeta_def is_meta_def)

lemma glob_beside:
  assumes d: "plain_disk d" "os_lookup d p = Some NDir" and p: "\<forall>u \<in> set p. plain_name u \<and> \<not> hasMeta u"
    and v: "slash \<notin> set v" "\<not> hasMeta v"
  obtains ns where "filepath_Glob d (abs_path (p @ [v @ ''*''])) = Some (map (\<lambda>n. abs_path (p @ [n])) ns)"
    "set ns = {n. prefix v n \<and> os_lookup d (p @ [n]) \<noteq> None}"
proof -
  let ?pat = "abs_path (p @ [v @ ''*''])"
  have abs: "?pat = abs_path (p @ [v]) @ ''*''" by (rule abs_last)
  have nm: "\<not> hasMeta (abs_path (p @ [v]))" by (rule hasMeta_abs) (use p v in auto)
  obtain y where parse: "filepath_Match ?pat [] = Some y"
    unfolding abs using parse_literal [OF nm, of "''*''"] by (simp add: filepath_Match_def)
  have meta: "hasMeta ?pat" unfolding abs by (simp add: hasMeta_def is_meta_def)
  have split: "cleanGlobPath (split_dir ?pat) = abs_path p" "split_file ?pat = v @ ''*''"
    using abs_dir_split [of p "v @ ''*''"] p v(1) by auto
  have cp: "components (abs_path p) = p" using components_abs p by blast
  let ?ns = "sort (map fst (dir_children d p))"
  have names: "glob_names d (abs_path p) = ?ns" using d(2) by (simp add: glob_names_def cp os_Stat_def)
  have mem: "n \<in> set ?ns \<longleftrightarrow> os_lookup d (p @ [n]) \<noteq> None" for n
  proof -
    have "n \<in> set ?ns \<longleftrightarrow> (\<exists>x. (n, x) \<in> set (dir_children d p))" by force
    also have "\<dots> \<longleftrightarrow> (\<exists>x. (p @ [n], x) \<in> set d)" by (simp add: dir_children_iff)
    also have "\<dots> \<longleftrightarrow> p @ [n] \<in> fst ` set d" by force
    also have "\<dots> \<longleftrightarrow> os_lookup d (p @ [n]) \<noteq> None"
      using key_lookup [OF disk_wf_keys, of d "p @ [n]"] d(1) by (simp add: plain_disk_def)
    finally show ?thesis .
  qed
  have plain: "plain_name n" if "n \<in> set ?ns" for n
    using d(1) that mem [of n] by (fastforce simp: plain_disk_iff)
  have match: "filepath_Match (v @ ''*'') n = Some (prefix v n)" if "n \<in> set ?ns" for n
    by (rule Match_prefix_star [OF v(2)]) (use plain [OF that] plain_no_slash in auto)
  let ?ms = "filter (\<lambda>n. filepath_Match (v @ ''*'') n = Some True) ?ns"
  have "glob_dir d (v @ ''*'') (abs_path p) = Some (map (filepath_Join (abs_path p)) ?ms)"
    using match by (auto simp: glob_dir_def names Let_def list_ex_iff simp del: set_sort)
  moreover have "map (filepath_Join (abs_path p)) ?ms = map (\<lambda>n. abs_path (p @ [n])) ?ms"
    using p plain by (intro map_cong refl Join_abs) (auto simp del: set_sort)
  moreover have "filepath_Glob d ?pat = glob_dir d (v @ ''*'') (abs_path p)"
    using parse meta split hasMeta_abs [of p] p by (subst filepath_Glob.simps) (simp add: Let_def)
  moreover have "set ?ms = {n. prefix v n \<and> os_lookup d (p @ [n]) \<noteq> None}"
    using match mem by auto
  ultimately show ?thesis using that by metis
qed

lemma wp_Glob: "(\<And>ms. filepath_Glob d pat = Some ms \<Longrightarrow> Q (Inr ms) d) \<Longrightarrow> filepath_Glob d pat \<noteq> None \<Longrightarrow> wp fl I (call_Glob pat) Q d"
  by (auto simp: wp_def call_Glob_def split: option.splits)

subsection \<open>Collecting the markers\<close>

text \<open>A directory that may have a marker, or is not there.\<close>

definition holds_marker :: "conv \<Rightarrow> disk \<Rightarrow> fpath \<Rightarrow> OperationMarker option \<Rightarrow> bool" where
  "holds_marker c d p mo \<longleftrightarrow> p \<noteq> [] \<and> butlast p = cv_par c \<and> (\<forall>v \<in> set p. plain_name v) \<and> (\<forall>m. mo = Some m \<longrightarrow> cmark c m) \<and>
     (at_site c p mo d \<or> os_lookup d p = None \<and> mo = None)"

definition opt_list :: "'a option \<Rightarrow> 'a list" where
  "opt_list mo = (case mo of None \<Rightarrow> [] | Some m \<Rightarrow> [m])"

lemma opt_list_simps [simp]: "opt_list None = []" "opt_list (Some m) = [m]"
  by (simp_all add: opt_list_def)

lemma wp_list_marker:
  assumes c: "conv_ok c" and d: "around c d" and h: "holds_marker c d p mo"
  shows "wp fl I (listConvertMarkers (cv_json c) (abs_path p))
    (\<lambda>r d'. d' = d \<and> (\<not> fl \<and> (\<exists>e. r = Inl e) \<or> r = Inr (opt_list mo))) d"
proof (cases "at_site c p mo d")
  case True
  then show ?thesis
    unfolding opt_list_def
    by (intro wp_listConvertMarkers) (use h cmark_readable [OF c] in \<open>auto simp: at_site_def holds_marker_def\<close>)
next
  case False
  then have none: "os_lookup d p = None" "mo = None" using h by (simp_all add: holds_marker_def)
  have wf: "disk_wf d" using d by (simp add: around_def plain_disk_def)
  have names: "\<forall>v \<in> set p. plain_name v" using h by (simp add: holds_marker_def)
  have cp: "components (activeDir (abs_path p)) = active_at p"
    by (rule marker_components(3) [OF names, of "cv_op c"]) (use c in \<open>simp add: conv_ok_def\<close>)
  have "walk_error d (active_at p) = ENOENT"
  proof (rule walk_error_ENOENT)
    fix q assume "prefix q (butlast (active_at p))"
    then have q: "prefix q p \<or> q = p @ [baseDirName]" by (auto simp: butlast_append prefix_append prefix_Cons)
    have "prefix q p \<Longrightarrow> prefix q (cv_par c) \<or> q = p"
      using h by (metis append_butlast_last_id holds_marker_def prefix_snoc)
    with q show "os_lookup d q = None \<or> os_lookup d q = Some NDir"
      using dirs_above [OF wf around_parent [OF c d]] none(1) lookup_below_None [OF wf none(1), of "[baseDirName]"] by auto
  qed
  then have "os_ReadDirAll d (active_at p) = Inl (''open'', ENOENT)"
    using lookup_below_None [OF wf none(1)] by (simp add: os_ReadDirAll_def os_Stat_def)
  then show ?thesis
    unfolding listConvertMarkers_def list_with_def call_ReadDir_def cp
    by (intro wp_bind wp_os_query) (use none(2) in \<open>auto intro!: wp_return\<close>)
qed

definition add_marker :: "OperationMarker \<Rightarrow> OperationMarker list \<Rightarrow> OperationMarker list" where
  "add_marker marker acc = (if marker_key marker \<in> marker_key ` set acc then acc else acc @ [marker])"

lemma beside_holds:
  assumes c: "conv_ok c" and d: "around c d" and n: "leftover c n" "os_lookup d (cv_par c @ [n]) \<noteq> None"
    and out: "cv_par c @ [n] \<notin> {rp c, wkp c, bkp c}"
  shows "holds_marker c d (cv_par c @ [n]) None"
proof -
  let ?p = "cv_par c @ [n]"
  have pl: "plain_disk d" using d by (simp add: around_def)
  have names: "\<forall>v \<in> set ?p. plain_name v" using n(2) pl by (auto simp: plain_disk_iff)
  have out': "\<not> prefix q (?p @ k)" if "q \<in> {rp c, wkp c, bkp c}" for q k
    using that out by (auto simp: rp_def wkp_def bkp_def prefix_def)
  have mv: "moved ?p ?p (cv_disk c) d"
    unfolding moved_def using d out' by (auto simp: around_def same_but_def)
  have "os_lookup (cv_disk c) ?p = Some NDir" "area (cv_json c) (cv_op c) (cv_disk c) ?p None"
    using c n out moved_lookup [OF mv] by (auto simp: conv_ok_def)
  then have "at_site c ?p None d"
    using c pl names moved_lookup [OF mv] moved_area [OF mv] by (simp add: at_site_def site_def conv_ok_def)
  with names show ?thesis by (simp add: holds_marker_def)
qed

lemma abs_inj: "\<forall>v \<in> set p. plain_name v \<Longrightarrow> \<forall>v \<in> set q. plain_name v \<Longrightarrow> abs_path p = abs_path q \<longleftrightarrow> p = q"
  by (metis components_abs)

lemma fold_add_same: "set ms \<subseteq> {m} \<Longrightarrow> fold add_marker ms acc = (if ms = [] then acc else add_marker m acc)"
proof (induction ms arbitrary: acc)
  case (Cons x ms)
  then show ?case by (cases ms) (auto simp: add_marker_def)
qed simp

lemma fold_add_opt:
  assumes "set ms \<subseteq> set (opt_list mb)" "mb \<noteq> None \<Longrightarrow> ms \<noteq> []"
    and "\<And>m m'. mr = Some m \<Longrightarrow> mb = Some m' \<Longrightarrow> mPhase m \<noteq> mPhase m'"
  shows "fold add_marker ms (opt_list mr) = opt_list mr @ opt_list mb"
proof (cases mb)
  case (Some m')
  then have "fold add_marker ms (opt_list mr) = add_marker m' (opt_list mr)"
    using fold_add_same [of ms m'] assms by simp
  moreover have "add_marker m' [m] = [m, m']" if "mr = Some m" for m
    using assms(3) [OF that Some] by (auto simp: add_marker_def marker_key_def)
  ultimately show ?thesis using Some by (cases mr) (auto simp: add_marker_def)
qed (use assms(1) in simp)

lemma concat_map_not_Nil: "x \<in> set xs \<Longrightarrow> f x \<noteq> [] \<Longrightarrow> concat (map f xs) \<noteq> []"
  by (induction xs) auto

lemma wp_collect:
  assumes "\<And>s. s \<in> set cs \<Longrightarrow> wp fl I (listConvertMarkers J s) (\<lambda>r d'. d' = d \<and> (\<not> fl \<and> (\<exists>e. r = Inl e) \<or> r = Inr (f s))) d"
  shows "wp fl I (collect_markers J cs acc)
    (\<lambda>r d'. d' = d \<and> (\<not> fl \<and> (\<exists>e. r = Inl e) \<or> r = Inr (fold add_marker (concat (map f cs)) acc))) d"
  using assms
proof (induction cs arbitrary: acc)
  case (Cons s cs)
  have s: "wp fl I (listConvertMarkers J s) (\<lambda>r d'. d' = d \<and> (\<not> fl \<and> (\<exists>e. r = Inl e) \<or> r = Inr (f s))) d"
    using Cons.prems by simp
  have add: "(\<lambda>marker acc. if marker_key marker \<in> marker_key ` set acc then acc else acc @ [marker]) = add_marker"
    by (simp add: add_marker_def fun_eq_iff)
  show ?case
    unfolding collect_markers.simps add
    by (rule wp_bind, rule wp_mono [OF s]) (use Cons in \<open>auto intro!: wp_return\<close>)
qed (auto intro!: wp_return)

text \<open>All that is found are the marker of the root and that of the backup, in this order.\<close>

lemma wp_find:
  assumes c: "conv_ok c" and d: "around c d"
    and r: "holds_marker c d (rp c) mr" and b: "holds_marker c d (bkp c) mb" and w: "holds_marker c d (wkp c) None"
    and differ: "\<And>m m'. mr = Some m \<Longrightarrow> mb = Some m' \<Longrightarrow> mPhase m \<noteq> mPhase m'"
  shows "wp fl I (findConvertMarkers (cv_json c) (abs_path (rp c)))
    (\<lambda>r d'. d' = d \<and> (\<not> fl \<and> (\<exists>e. r = Inl e) \<or> r = Inr (opt_list mr @ opt_list mb))) d"
proof -
  let ?n = "cv_name c"
  have pl: "plain_disk d" using d by (simp add: around_def)
  have names: "\<forall>u \<in> set (cv_par c). plain_name u \<and> \<not> hasMeta u" "\<not> hasMeta ?n" "slash \<notin> set ?n"
    using c plain_no_slash by (auto simp: conv_ok_def rp_def)
  have lit: "\<not> hasMeta ''.safe_disk.backup.''" "\<not> hasMeta ''.safe_disk.work.''"
    by (simp_all add: hasMeta_def is_meta_def)
  obtain bs where bs: "filepath_Glob d (abs_path (rp c) @ ''.safe_disk.backup.*'') = Some (map (\<lambda>n. abs_path (cv_par c @ [n])) bs)"
    "set bs = {n. prefix (?n @ ''.safe_disk.backup.'') n \<and> os_lookup d (cv_par c @ [n]) \<noteq> None}"
    using glob_beside [OF pl around_parent [OF c d] names(1), of "?n @ ''.safe_disk.backup.''"] names(2,3) lit
      abs_last [of "cv_par c" ?n "''.safe_disk.backup.*''"] by (auto simp: rp_def)
  obtain ws where ws: "filepath_Glob d (abs_path (rp c) @ ''.safe_disk.work.*'') = Some (map (\<lambda>n. abs_path (cv_par c @ [n])) ws)"
    "set ws = {n. prefix (?n @ ''.safe_disk.work.'') n \<and> os_lookup d (cv_par c @ [n]) \<noteq> None}"
    using glob_beside [OF pl around_parent [OF c d] names(1), of "?n @ ''.safe_disk.work.''"] names(2,3) lit
      abs_last [of "cv_par c" ?n "''.safe_disk.work.*''"] by (auto simp: rp_def)
  let ?bs = "sort (map (\<lambda>n. abs_path (cv_par c @ [n])) bs)" and ?ws = "sort (map (\<lambda>n. abs_path (cv_par c @ [n])) ws)"
  let ?mk = "\<lambda>p. if p = rp c then mr else if p = bkp c then mb else None"
  let ?f = "\<lambda>s. opt_list (?mk (components s))"
  have beside: "\<exists>p. s = abs_path p \<and> holds_marker c d p (?mk p) \<and> p \<noteq> rp c" if s: "s \<in> set (?bs @ ?ws)" for s
  proof -
    obtain n where n: "s = abs_path (cv_par c @ [n])" "leftover c n" "os_lookup d (cv_par c @ [n]) \<noteq> None"
      using s bs(2) ws(2) by (auto simp: leftover_def)
    have "cv_par c @ [n] \<noteq> rp c" using n(2) by (auto simp: rp_def leftover_def prefix_def)
    moreover have "holds_marker c d (cv_par c @ [n]) (?mk (cv_par c @ [n]))"
    proof (cases "cv_par c @ [n] \<in> {bkp c, wkp c}")
      case True
      then consider "cv_par c @ [n] = bkp c" | "cv_par c @ [n] = wkp c" by blast
      then show ?thesis
      proof cases
        case 1
        show ?thesis unfolding 1 using b conv_distinct(4) [of c] by simp
      next
        case 2
        show ?thesis unfolding 2 using w conv_distinct(2,5) [of c] by simp
      qed
    next
      case False
      with \<open>cv_par c @ [n] \<noteq> rp c\<close> beside_holds [OF c d n(2,3)] show ?thesis by simp
    qed
    ultimately show ?thesis using n(1) by blast
  qed
  have list: "wp fl I (listConvertMarkers (cv_json c) s) (\<lambda>r d'. d' = d \<and> (\<not> fl \<and> (\<exists>e. r = Inl e) \<or> r = Inr (?f s))) d"
    if s: "s \<in> set (abs_path (rp c) # ?bs @ ?ws)" for s
  proof -
    have "\<exists>p. s = abs_path p \<and> holds_marker c d p (?mk p)"
    proof (cases "s = abs_path (rp c)")
      case True
      with r show ?thesis by (intro exI [of _ "rp c"]) simp
    next
      case False
      with s have "s \<in> set (?bs @ ?ws)" by simp
      then show ?thesis using beside by blast
    qed
    then obtain p where p: "s = abs_path p" "holds_marker c d p (?mk p)" by blast
    then have cp: "components s = p" using components_abs by (simp add: holds_marker_def)
    show ?thesis unfolding cp unfolding p(1) by (rule wp_list_marker [OF c d p(2)])
  qed
  have root: "?f (abs_path (rp c)) = opt_list mr" using conv_components(1) [OF c] by simp
  let ?rest = "concat (map ?f (?bs @ ?ws))"
  have sub: "set ?rest \<subseteq> set (opt_list mb)"
  proof
    fix x assume "x \<in> set ?rest"
    then obtain s where s: "s \<in> set (?bs @ ?ws)" "x \<in> set (?f s)" by auto
    then obtain p where p: "s = abs_path p" "holds_marker c d p (?mk p)" "p \<noteq> rp c" using beside by blast
    then have "components s = p" using components_abs by (simp add: holds_marker_def)
    with s(2) p(3) show "x \<in> set (opt_list mb)" by (auto split: if_splits)
  qed
  have sup: "?rest \<noteq> []" if "mb \<noteq> None"
  proof -
    have "os_lookup d (bkp c) \<noteq> None" using b that at_site_dir by (auto simp: holds_marker_def)
    then have "cv_name c @ ''.safe_disk.backup.'' @ cv_op c \<in> set bs" by (simp add: bs(2) bkp_def)
    then have "abs_path (bkp c) \<in> set ?bs" by (auto simp: bkp_def)
    moreover have "?f (abs_path (bkp c)) \<noteq> []" using that conv_components(3) [OF c] conv_distinct(4) [of c] by auto
    ultimately show ?thesis by (intro concat_map_not_Nil [of "abs_path (bkp c)"]) (simp del: set_sort, blast)
  qed
  have res: "fold add_marker (concat (map ?f (abs_path (rp c) # ?bs @ ?ws))) [] = opt_list mr @ opt_list mb"
  proof -
    have "concat (map ?f (abs_path (rp c) # ?bs @ ?ws)) = opt_list mr @ ?rest" using root by simp
    moreover have "fold add_marker (opt_list mr) [] = opt_list mr" by (cases mr) (simp_all add: add_marker_def)
    moreover have "fold add_marker ?rest (opt_list mr) = opt_list mr @ opt_list mb"
      by (rule fold_add_opt [OF sub sup differ])
    ultimately show ?thesis by (simp only: fold_append comp_apply)
  qed
  have coll: "wp fl I (collect_markers (cv_json c) (abs_path (rp c) # ?bs @ ?ws) [])
      (\<lambda>r d'. d' = d \<and> (\<not> fl \<and> (\<exists>e. r = Inl e) \<or> r = Inr (opt_list mr @ opt_list mb))) d"
    using wp_collect [where cs = "abs_path (rp c) # ?bs @ ?ws" and f = ?f and acc = "[]", OF list] unfolding res .
  have works: "wp fl I (State_Monad.bind (call_Glob (abs_path (rp c) @ ''.safe_disk.work.*'')) (\<lambda>r. case r of Inl e \<Rightarrow> io_return (Inl e)
      | Inr works \<Rightarrow> collect_markers (cv_json c) (abs_path (rp c) # ?bs @ sort works) []))
      (\<lambda>r d'. d' = d \<and> (\<not> fl \<and> (\<exists>e. r = Inl e) \<or> r = Inr (opt_list mr @ opt_list mb))) d"
  proof (rule wp_bind, rule wp_Glob)
    fix ms assume "filepath_Glob d (abs_path (rp c) @ ''.safe_disk.work.*'') = Some ms"
    then have ms: "sort ms = ?ws" using ws(1) by simp
    show "wp fl I (case Inr ms of Inl e \<Rightarrow> io_return (Inl e)
        | Inr works \<Rightarrow> collect_markers (cv_json c) (abs_path (rp c) # ?bs @ sort works) [])
        (\<lambda>r d'. d' = d \<and> (\<not> fl \<and> (\<exists>e. r = Inl e) \<or> r = Inr (opt_list mr @ opt_list mb))) d"
      unfolding sum.case ms by (rule coll)
  qed (simp add: ws(1))
  show ?thesis
    unfolding findConvertMarkers_def
  proof (rule wp_bind, rule wp_Glob)
    fix ms assume "filepath_Glob d (abs_path (rp c) @ ''.safe_disk.backup.*'') = Some ms"
    then have ms: "sort ms = ?bs" using bs(1) by simp
    show "wp fl I (case Inr ms of Inl e \<Rightarrow> io_return (Inl e)
        | Inr backups \<Rightarrow> State_Monad.bind (call_Glob (abs_path (rp c) @ ''.safe_disk.work.*'')) (\<lambda>r. case r of Inl e \<Rightarrow> io_return (Inl e)
          | Inr works \<Rightarrow> collect_markers (cv_json c) (abs_path (rp c) # sort backups @ sort works) []))
        (\<lambda>r d'. d' = d \<and> (\<not> fl \<and> (\<exists>e. r = Inl e) \<or> r = Inr (opt_list mr @ opt_list mb))) d"
      unfolding sum.case ms by (rule works)
  qed (simp add: bs(1))
qed


subsection \<open>The steps of the recovery\<close>

text \<open>What a recovery that was not interrupted ends with.\<close>

definition settled :: "conv \<Rightarrow> RecoverAction \<Rightarrow> disk \<Rightarrow> bool" where
  "settled c a d \<longleftrightarrow> (case a of
     RecoverNone \<Rightarrow> stageA c None d \<or> stageC c None None d
   | RecoverRerun \<Rightarrow> stageA c None d \<and> os_lookup d (wkp c) = None
   | RecoverContinueRename \<Rightarrow> stageC c None None d
   | RecoverCompleted \<Rightarrow> stageC c None None d
   | RecoverNeedsAttention \<Rightarrow> (\<exists>m. stageA c (Some m) d \<and> mPhase m = phaseNeedsAttention))"

definition recovered :: "bool \<Rightarrow> conv \<Rightarrow> RecoverAction \<Rightarrow> disk \<Rightarrow> bool" where
  "recovered fl c a d \<longleftrightarrow> stages c d \<and> (fl \<longrightarrow> settled c a d)"

lemma recovered_faulty: "(fl \<Longrightarrow> False) \<Longrightarrow> stages c d \<Longrightarrow> recovered fl c a d"
  by (auto simp: recovered_def)

lemma recovered_C: "stageC c mr mb d \<Longrightarrow> (fl \<Longrightarrow> mr = None \<and> mb = None) \<Longrightarrow> recovered fl c RecoverCompleted d \<and> recovered fl c RecoverContinueRename d"
  by (auto simp: recovered_def settled_def intro: stagesI)

lemma wp_recover_cleanup:
  assumes C: "stageC c mr mb d" and mk: "cmark c mk"
  shows "wp fl (stages c) (recover_cleanup m mk) (recovered fl c) d"
proof -
  note p = cmark0_paths [OF cmark_cmark0 [OF mk]]
  have paths: "mRoot mk = abs_path (rp c)" "mBackup mk = abs_path (bkp c)" "mOpID mk = cv_op c" using p by simp_all
  show ?thesis
    unfolding recover_cleanup_def paths by (rule wp_remove_both [OF C]) (use recovered_C in blast)
qed

lemma wp_finish_work:
  assumes c: "conv_ok c" and B: "stageB c m0 d" and mk: "cmark0 c mk"
  shows "wp fl (stages c) (finishRecoveredWorkRename m mk) (recovered fl c) d"
proof -
  note p = cmark0_paths [OF mk]
  have paths: "mRoot mk = abs_path (rp c)" "mBackup mk = abs_path (bkp c)" "mWork mk = abs_path (wkp c)" "mOpID mk = cv_op c"
    using p by simp_all
  let ?k = "State_Monad.bind (removeMarker m (abs_path (rp c)) (cv_op c)) (\<lambda>_.
    State_Monad.bind (removeMarker m (abs_path (bkp c)) (cv_op c)) (\<lambda>_. io_return RecoverContinueRename))"
  have k: "wp fl (stages c) ?k (recovered fl c) d'" if "stageC c mr mb d'" for mr mb d'
    by (rule wp_remove_both [OF that]) (use recovered_C in blast)
  have "wp fl (stages c) (if e \<noteq> None then io_return RecoverNeedsAttention else ?k) (recovered fl c) d'"
    if "fl \<Longrightarrow> e = None" "stageC c None (Some m0) d'" for e :: "transfer_error option" and d'
    using that k stagesI(3) [OF that(2)] by (cases "e = None") (auto intro!: wp_return recovered_faulty)
  moreover have "wp fl (stages c) (if e \<noteq> None then io_return RecoverNeedsAttention else ?k) (recovered fl c) d"
    if "\<not> fl" "e \<noteq> None" for e :: "transfer_error option"
    using that stagesI(2) [OF B] by (auto intro!: wp_return recovered_faulty)
  ultimately show ?thesis
    unfolding finishRecoveredWorkRename_def paths by (intro wp_bind wp_rename_work [OF c B]) blast+
qed

text \<open>Removing the work tree, wholly or in part.\<close>

lemma remove_work:
  assumes c: "conv_ok c" and A: "stageA c (Some mk) d" "mPhase mk \<in> early_phases"
    and d': "plain_disk d'" "\<And>q. os_lookup d' q = os_lookup d q \<or> prefix (wkp c) q \<and> os_lookup d' q = None"
  shows "stageA c (Some mk) d'"
proof (rule stageA_in_work [OF A _ d'(1)])
  show "same_but [wkp c] d d'" using d'(2) unfolding same_but_def by auto
  have w: "os_lookup d (wkp c) = None \<or> at_site c (wkp c) None d" using A(1) by (simp add: stageA_def)
  have sub: "os_lookup d' q = Some n \<Longrightarrow> os_lookup d q = Some n" for q n
    using d'(2) [of q] by auto
  show "os_lookup d' (wkp c) = None \<or> at_site c (wkp c) None d'"
  proof (cases "os_lookup d' (wkp c) = None")
    case False
    then have "os_lookup d (wkp c) = os_lookup d' (wkp c)" using d'(2) [of "wkp c"] by auto
    with w False have s: "at_site c (wkp c) None d" by simp
    have "area (cv_json c) (cv_op c) d' (wkp c) None"
    proof -
      have "area (cv_json c) (cv_op c) d (wkp c) None" using s by (simp add: at_site_def site_def)
      then have "\<forall>k n. os_lookup d' (wkp c @ baseDirName # k) = Some n \<longrightarrow> (k = [] \<or> k = [activeDirName]) \<and> n = NDir \<or>
          (\<exists>name x. k = [activeDirName, name] \<and> n = NFile x \<and> (if name = cv_op c @ ''.json'' then
            \<exists>m. None = Some m \<and> x = j_Marshal (cv_json c) m else other_entry (cv_json c) name x))"
        using sub unfolding area_def by blast
      then show ?thesis unfolding area_def by simp
    qed
    with s False d'(1) \<open>os_lookup d (wkp c) = os_lookup d' (wkp c)\<close> show ?thesis by (simp add: at_site_def site_def)
  qed simp
qed

lemma wp_removeAll_work:
  assumes c: "conv_ok c" and A: "stageA c (Some mk) d" "mPhase mk \<in> early_phases"
    and Q: "\<And>e d'. (fl \<Longrightarrow> e = None) \<Longrightarrow> stageA c (Some mk) d' \<Longrightarrow> (e = None \<Longrightarrow> os_lookup d' (wkp c) = None) \<Longrightarrow> Q e d'"
  shows "wp fl (stages c) (removeAllPath m (abs_path (wkp c))) Q d"
proof -
  have pl: "plain_disk d" using A(1) by (simp add: stageA_def around_def)
  have all: "stageA c (Some mk) (os_RemoveAll d (wkp c))" "os_lookup (os_RemoveAll d (wkp c)) (wkp c) = None"
    using plain_RemoveAll [OF pl, of "wkp c"] remove_work [OF c A, of "os_RemoveAll d (wkp c)"] by (auto simp: conv_distinct)
  have part: "stageA c (Some mk) (remove_leaves n d (wkp c))" for n
    using plain_remove_leaves [OF pl, of n "wkp c"] by (intro remove_work [OF c A]) auto
  have par: "os_lookup (os_RemoveAll d (wkp c)) (components (abs_path (cv_par c))) = Some NDir"
    using components_abs conv_names(4) [OF c] around_parent [OF c] all(1) by (simp add: stageA_def)
  have sync: "wp fl (stages c) (check ''sync remove-all parent'' (syncDir m (abs_path (cv_par c))) (io_return None)) Q (os_RemoveAll d (wkp c))"
    by (rule wp_check, rule wp_syncDir, rule stagesI(1) [OF all(1)])
      (use all par Q in \<open>auto split: option.splits intro!: wp_return\<close>)
  show ?thesis
    unfolding removeAllPath_def call_RemoveAll_def conv_components(2) [OF c] conv_Dir(2) [OF c]
    by (rule wp_check, rule wp_os_call) (use all part sync Q stagesI(1) [OF all(1)] stagesI(1) [OF part] in auto)
qed

lemma wp_discard:
  assumes c: "conv_ok c" and A: "stageA c (Some mk) d" "mPhase mk \<in> early_phases"
    and flags: "\<not> backupExists" "fl \<Longrightarrow> rootExists" "fl \<Longrightarrow> workExists \<longleftrightarrow> os_lookup d (wkp c) \<noteq> None"
  shows "wp fl (stages c) (recover_discard m mk rootExists workExists backupExists) (recovered fl c) d"
proof -
  have "cmark c mk" using A(1) by (simp add: stageA_def marker_A_def)
  note p = cmark0_paths [OF cmark_cmark0 [OF this]]
  have paths: "mRoot mk = abs_path (rp c)" "mWork mk = abs_path (wkp c)" "mOpID mk = cv_op c" using p by simp_all
  let ?rm = "State_Monad.bind (removeMarker m (abs_path (rp c)) (cv_op c)) (\<lambda>e. io_return (if e \<noteq> None then RecoverNeedsAttention else RecoverRerun))"
  have rm: "wp fl (stages c) ?rm (recovered fl c) d'"
    if A': "stageA c (Some mk) d'" and w: "fl \<Longrightarrow> os_lookup d' (wkp c) = None" for d'
  proof (rule wp_bind, rule wp_remove_A [OF A'])
    fix e :: "transfer_error option" and d2
    assume e: "fl \<Longrightarrow> e = None" "stageA c None d2" "moved (wkp c) (wkp c) d' d2"
    have "recovered fl c (if e \<noteq> None then RecoverNeedsAttention else RecoverRerun) d2"
      using e w moved_lookup [OF e(3)] by (auto simp: recovered_def settled_def intro: stagesI)
    then show "wp fl (stages c) (io_return (if e \<noteq> None then RecoverNeedsAttention else RecoverRerun)) (recovered fl c) d2"
      by (rule wp_return)
  qed (auto intro!: wp_return recovered_faulty)
  let ?k = "\<lambda>e. if e \<noteq> None then io_return RecoverNeedsAttention else ?rm"
  have k: "wp fl (stages c) (?k e) (recovered fl c) d'"
    if "fl \<Longrightarrow> e = None" "stageA c (Some mk) d'" "fl \<Longrightarrow> e = None \<Longrightarrow> os_lookup d' (wkp c) = None" for e :: "transfer_error option" and d'
  proof (cases "e = None")
    case False
    with that(1) stagesI(1) [OF that(2)] show ?thesis by (auto intro!: wp_return recovered_faulty)
  qed (use rm that in simp)
  have main: "wp fl (stages c) (State_Monad.bind (if workExists then removeAllPath m (abs_path (wkp c)) else io_return None) ?k) (recovered fl c) d"
  proof (cases workExists)
    case True
    then show ?thesis using k by (auto intro!: wp_bind wp_removeAll_work [OF c A])
  next
    case False
    then show ?thesis using k [of None d] A(1) flags(3) by (auto intro!: wp_bind wp_return)
  qed
  show ?thesis
  proof (cases rootExists)
    case True
    with flags(1) main show ?thesis unfolding recover_discard_def paths by simp
  next
    case False
    with flags(2) have "\<not> fl" by blast
    with False stagesI(1) [OF A(1)] show ?thesis
      unfolding recover_discard_def by (auto intro!: wp_return recovered_faulty)
  qed
qed

end
