(* ===== verification/ConvertProps.thy ===== *)
theory ConvertProps
  imports ConvertRecovery
begin

text \<open>
  The properties of conversions and their recovery: nothing is lost by a crash or an error at any
  point of a conversion, or of a recovery, and a recovery that is let run ends in a final state.
\<close>

subsection \<open>Recovery from every stage\<close>

lemma wp_pathExists:
  assumes "components s = p" "os_lookup d p = None \<or> os_lookup d p = Some NDir"
    and "\<And>b. (fl \<Longrightarrow> b \<longleftrightarrow> os_lookup d p \<noteq> None) \<Longrightarrow> (b \<Longrightarrow> os_lookup d p \<noteq> None) \<Longrightarrow> wp fl I (k b) Q d"
  shows "wp fl I (State_Monad.bind (pathExists s) k) Q d"
proof -
  have no: "wp fl I (k False) Q d" if "\<not> fl \<or> os_lookup d p = None" by (rule assms(3)) (use that in auto)
  have yes: "wp fl I (k True) Q d" if "os_lookup d p = Some NDir" by (rule assms(3)) (use that in auto)
  have stat: "os_lookup d p = None \<Longrightarrow> os_Stat d p = Inl (walk_error d p)" "os_lookup d p = Some NDir \<Longrightarrow> os_Stat d p = Inr NDir"
    by (simp_all add: os_Stat_def)
  show ?thesis
    unfolding pathExists_def call_Stat_def assms(1)
    by (intro wp_bind wp_os_query) (use assms(2) stat no yes in \<open>auto intro!: wp_return\<close>)
qed

text \<open>What the recovery knows of a directory: whether it is there; a fault makes it look absent.\<close>

definition knows :: "bool \<Rightarrow> disk \<Rightarrow> fpath \<Rightarrow> bool \<Rightarrow> bool" where
  "knows fl d p b \<longleftrightarrow> (fl \<longrightarrow> b = (os_lookup d p \<noteq> None)) \<and> (b \<longrightarrow> os_lookup d p \<noteq> None)"

lemma wp_recoverFromMarker:
  assumes c: "conv_ok c" and mk: "cmark c mk"
    and dirs: "\<And>p. p \<in> {rp c, wkp c, bkp c} \<Longrightarrow> os_lookup d p = None \<or> os_lookup d p = Some NDir"
    and step: "\<And>r w b. knows fl d (rp c) r \<Longrightarrow> knows fl d (wkp c) w \<Longrightarrow> knows fl d (bkp c) b \<Longrightarrow>
      wp fl I (recover_phase (cv_json c) m mk r w b) Q d"
  shows "wp fl I (recoverFromMarker (cv_json c) m (abs_path (rp c)) mk) Q d"
proof -
  have p: "components (mRoot mk) = rp c" "components (mWork mk) = wkp c" "components (mBackup mk) = bkp c"
    using cmark0_paths [OF cmark_cmark0 [OF mk]] conv_components [OF c] by simp_all
  have valid: "validateConvertMarker (abs_path (rp c)) mk" by (rule cmark_valid [OF c mk])
  have body: "wp fl I (if \<not> validateConvertMarker (abs_path (rp c)) mk then io_return RecoverNeedsAttention
      else recover_phase (cv_json c) m mk r w b) Q d"
    if "knows fl d (rp c) r" "knows fl d (wkp c) w" "knows fl d (bkp c) b" for r w b
    using step [OF that] valid by simp
  show ?thesis
    unfolding recoverFromMarker_def
    by (intro wp_pathExists [OF p(1)] wp_pathExists [OF p(2)] wp_pathExists [OF p(3)] body)
      (use dirs in \<open>auto simp: knows_def\<close>)
qed

lemma recover_phase_early:
  "mPhase mk \<in> early_phases \<Longrightarrow> recover_phase J m mk r w b = recover_discard m mk r w b"
  by (simp add: recover_phase_def early_phases_def)

lemma recover_phase_attention: "mPhase mk = phaseNeedsAttention \<Longrightarrow> recover_phase J m mk r w b = io_return RecoverNeedsAttention"
  by (simp add: recover_phase_def phase_defs)

lemma recover_phase_completed: "mPhase mk = phaseCompleted \<Longrightarrow> recover_phase J m mk r w b = recover_cleanup m mk"
  by (simp add: recover_phase_def phase_defs)

lemma recover_phase_renames:
  "mPhase mk \<in> {phaseRenamingRootToBackup, phaseRenamingWorkToRoot} \<Longrightarrow> \<not> (r \<and> w) \<Longrightarrow>
    recover_phase J m mk r w b = recover_renames m mk r w b"
  by (auto simp: recover_phase_def phase_defs)

definition resume_root :: "marker_json \<Rightarrow> Manager \<Rightarrow> OperationMarker \<Rightarrow> RecoverAction io" where
  "resume_root J m mk = State_Monad.bind (renamePath m (mRoot mk) (mBackup mk)) (\<lambda>e.
     if e \<noteq> None then io_return RecoverNeedsAttention
     else let marker' = mk\<lparr>mPhase := phaseRenamingWorkToRoot\<rparr> in
       State_Monad.bind (writeMarker J m (mBackup marker') marker') (\<lambda>e.
         if e \<noteq> None then io_return RecoverNeedsAttention
         else finishRecoveredWorkRename m marker'))"

lemma recover_phase_resume:
  "mPhase mk = phaseRenamingRootToBackup \<Longrightarrow> recover_phase J m mk True True False = resume_root J m mk"
  by (simp add: recover_phase_def resume_root_def phase_defs)

lemma wp_attention: "(fl \<Longrightarrow> False) \<Longrightarrow> stages c d \<Longrightarrow> wp fl (stages c) (io_return RecoverNeedsAttention) (recovered fl c) d"
  by (rule wp_return, rule recovered_faulty)

lemma wp_resume_root:
  assumes c: "conv_ok c" and A: "stageA c (Some mk) d" and ph: "mPhase mk = phaseRenamingRootToBackup"
  shows "wp fl (stages c) (resume_root (cv_json c) m mk) (recovered fl c) d"
proof -
  have mk: "cmark c mk" using A by (simp add: stageA_def marker_A_def)
  have p: "mRoot mk = abs_path (rp c)" "mBackup mk = abs_path (bkp c)" using cmark0_paths [OF cmark_cmark0 [OF mk]] by simp_all
  let ?mk = "mk\<lparr>mPhase := phaseRenamingWorkToRoot\<rparr>"
  have mk': "cmark0 c ?mk" using cmark0_phase [OF cmark_cmark0 [OF mk]] utf8_phases by blast
  let ?fin = "\<lambda>e. if e \<noteq> None then io_return RecoverNeedsAttention else finishRecoveredWorkRename m ?mk"
  have fin: "wp fl (stages c) (?fin e) (recovered fl c) d'"
    if "fl \<Longrightarrow> e = None" "stageB c m' d'" for e :: "transfer_error option" and m' d'
  proof (cases "e = None")
    case True
    with wp_finish_work [OF c that(2) mk'] show ?thesis by simp
  next
    case False
    with that(1) wp_attention [OF _ stagesI(2) [OF that(2)]] show ?thesis by auto
  qed
  let ?next = "State_Monad.bind (writeMarker (cv_json c) m (abs_path (bkp c)) ?mk) ?fin"
  have wr: "wp fl (stages c) ?next (recovered fl c) d'" if "stageB c m' d'" for m' d'
    by (rule wp_bind, rule wp_write_B [OF that mk']) (use fin in auto)
  have "wp fl (stages c) (if e \<noteq> None then io_return RecoverNeedsAttention else ?next) (recovered fl c) d'"
    if "fl \<Longrightarrow> e = None" "stages c d'" "e = None \<Longrightarrow> stageB c mk d'" for e :: "transfer_error option" and d'
  proof (cases "e = None")
    case True
    with wr [OF that(3)] show ?thesis by simp
  next
    case False
    with that(1) wp_attention [OF _ that(2)] show ?thesis by auto
  qed
  moreover have mb: "mBackup ?mk = abs_path (bkp c)" by (simp add: p)
  ultimately show ?thesis
    unfolding resume_root_def p Let_def mb by (intro wp_bind wp_rename_root [OF c A ph]) (blast intro: stagesI stagesI(1) [OF A])+
qed

lemma wp_recover_A:
  assumes c: "conv_ok c" and A: "stageA c (Some mk) d"
  shows "wp fl (stages c) (recoverFromMarker (cv_json c) m (abs_path (rp c)) mk) (recovered fl c) d"
proof (rule wp_recoverFromMarker [OF c])
  have mA: "marker_A c d mk" using A by (simp add: stageA_def)
  then show mk: "cmark c mk" by (simp add: marker_A_def)
  have ex: "os_lookup d (rp c) = Some NDir" "os_lookup d (wkp c) = None \<or> os_lookup d (wkp c) = Some NDir" "os_lookup d (bkp c) = None"
    using A by (auto simp: stageA_def dest: at_site_dir)
  then show "os_lookup d p = None \<or> os_lookup d p = Some NDir" if "p \<in> {rp c, wkp c, bkp c}" for p using that by auto
  have st: "stages c d" by (rule stagesI(1) [OF A])
  fix r w b assume k: "knows fl d (rp c) r" "knows fl d (wkp c) w" "knows fl d (bkp c) b"
  have b: "\<not> b" using k(3) ex by (simp add: knows_def)
  from mA consider (early) "mPhase mk \<in> early_phases" | (att) "mPhase mk = phaseNeedsAttention"
    | (ren) "mPhase mk = phaseRenamingRootToBackup" "work_good c d" by (auto simp: marker_A_def)
  then show "wp fl (stages c) (recover_phase (cv_json c) m mk r w b) (recovered fl c) d"
  proof cases
    case early
    show ?thesis
      unfolding recover_phase_early [OF early]
      by (rule wp_discard [OF c A early b]) (use k ex in \<open>auto simp: knows_def\<close>)
  next
    case att
    have "recovered fl c RecoverNeedsAttention d" using st A att by (auto simp: recovered_def settled_def)
    then show ?thesis unfolding recover_phase_attention [OF att] by (rule wp_return)
  next
    case ren
    show ?thesis
    proof (cases "r \<and> w")
      case True
      with b wp_resume_root [OF c A ren(1)] show ?thesis by (simp add: recover_phase_resume [OF ren(1)])
    next
      case False
      have "os_lookup d (wkp c) = Some NDir" using ren(2) at_site_dir by (auto simp: work_good_def)
      with False k ex have "fl \<Longrightarrow> False" by (auto simp: knows_def)
      with wp_attention [OF _ st] False b ren(1) show ?thesis by (auto simp: recover_phase_renames recover_renames_def)
    qed
  qed
qed

lemma wp_recover_B:
  assumes c: "conv_ok c" and B: "stageB c mk d"
  shows "wp fl (stages c) (recoverFromMarker (cv_json c) m (abs_path (rp c)) mk) (recovered fl c) d"
proof (rule wp_recoverFromMarker [OF c])
  show mk: "cmark c mk" using B by (simp add: stageB_def)
  have ex: "os_lookup d (rp c) = None" "os_lookup d (wkp c) = Some NDir" "os_lookup d (bkp c) = Some NDir"
    using B by (auto simp: stageB_def work_good_def dest: at_site_dir)
  then show "os_lookup d p = None \<or> os_lookup d p = Some NDir" if "p \<in> {rp c, wkp c, bkp c}" for p using that by auto
  have ph: "mPhase mk \<in> {phaseRenamingRootToBackup, phaseRenamingWorkToRoot}" using B by (simp add: stageB_def)
  fix r w b assume k: "knows fl d (rp c) r" "knows fl d (wkp c) w" "knows fl d (bkp c) b"
  have r: "\<not> r" using k(1) ex by (simp add: knows_def)
  have "fl \<Longrightarrow> w \<and> b" using k ex by (simp add: knows_def)
  with r show "wp fl (stages c) (recover_phase (cv_json c) m mk r w b) (recovered fl c) d"
    using wp_finish_work [OF c B cmark_cmark0 [OF mk]] wp_attention [OF _ stagesI(2) [OF B]]
    by (cases "w \<and> b") (auto simp: recover_phase_renames [OF ph] recover_renames_def)
qed

lemma wp_recover_C:
  assumes c: "conv_ok c" and C: "stageC c mr mb d" and mk: "mr = Some mk \<or> mb = Some mk"
  shows "wp fl (stages c) (recoverFromMarker (cv_json c) m (abs_path (rp c)) mk) (recovered fl c) d"
proof (rule wp_recoverFromMarker [OF c])
  show cmk: "cmark c mk" using C mk by (auto simp: stageC_def)
  have ex: "os_lookup d (rp c) = Some NDir" "os_lookup d (wkp c) = None" "os_lookup d (bkp c) = Some NDir"
    using C by (auto simp: stageC_def dest: at_site_dir)
  then show "os_lookup d p = None \<or> os_lookup d p = Some NDir" if "p \<in> {rp c, wkp c, bkp c}" for p using that by auto
  have ph: "mPhase mk \<in> {phaseRenamingRootToBackup, phaseRenamingWorkToRoot} \<or> mPhase mk = phaseCompleted"
    using C mk by (auto simp: stageC_def)
  fix r w b assume k: "knows fl d (rp c) r" "knows fl d (wkp c) w" "knows fl d (bkp c) b"
  have w: "\<not> w" using k(2) ex by (simp add: knows_def)
  have rb: "fl \<Longrightarrow> r \<and> b" using k ex by (simp add: knows_def)
  note clean = wp_recover_cleanup [OF C cmk, of fl m]
  from ph show "wp fl (stages c) (recover_phase (cv_json c) m mk r w b) (recovered fl c) d"
  proof
    assume ph: "mPhase mk \<in> {phaseRenamingRootToBackup, phaseRenamingWorkToRoot}"
    show ?thesis
      using w rb clean wp_attention [OF _ stagesI(3) [OF C]]
      by (cases "r \<and> b") (auto simp: recover_phase_renames [OF ph] recover_renames_def)
  qed (simp add: recover_phase_completed clean)
qed


subsection \<open>The whole recovery\<close>

definition recover_result :: "bool \<Rightarrow> conv \<Rightarrow> transfer_error + RecoverAction \<Rightarrow> disk \<Rightarrow> bool" where
  "recover_result fl c r d \<longleftrightarrow> stages c d \<and> (fl \<longrightarrow> (\<exists>a. r = Inr a \<and> settled c a d))"

lemma recovered_result: "recovered fl c a d \<Longrightarrow> recover_result fl c (Inr a) d"
  by (auto simp: recovered_def recover_result_def)

lemma wp_recover_with:
  assumes c: "conv_ok c" and dur: "validateDurability m = None" and d: "around c d" "stages c d"
    and h: "holds_marker c d (rp c) mr" "holds_marker c d (bkp c) mb" "holds_marker c d (wkp c) None"
    and differ: "\<And>m m'. mr = Some m \<Longrightarrow> mb = Some m' \<Longrightarrow> mPhase m \<noteq> mPhase m'"
    and first: "\<And>mk ms. opt_list mr @ opt_list mb = mk # ms \<Longrightarrow>
      wp fl (stages c) (recoverFromMarker (cv_json c) m (abs_path (rp c)) mk) (recovered fl c) d"
    and none: "mr = None \<Longrightarrow> mb = None \<Longrightarrow> recovered fl c RecoverNone d"
  shows "wp fl (stages c) (recoverConvert (cv_json c) m (abs_path (rp c))) (recover_result fl c) d"
proof -
  let ?body = "\<lambda>markers :: OperationMarker list. if markers = [] then io_return (Inr RecoverNone)
     else if 1 < card (mOpID ` set markers) then io_return (Inr RecoverNeedsAttention)
     else (case find is_convert markers of None \<Rightarrow> io_return (Inr RecoverNone)
       | Some marker \<Rightarrow> State_Monad.bind (recoverFromMarker (cv_json c) m (abs_path (rp c)) marker) (\<lambda>a. io_return (Inr a :: transfer_error + RecoverAction)))"
  have body: "wp fl (stages c) (?body (opt_list mr @ opt_list mb)) (recover_result fl c) d"
  proof (cases "opt_list mr @ opt_list mb")
    case Nil
    then have "mr = None" "mb = None" by (cases mr; cases mb; simp)+
    with none show ?thesis unfolding Nil by (auto intro!: wp_return recovered_result)
  next
    case (Cons mk ms)
    have all: "cmark c x" if "x \<in> set (mk # ms)" for x
      using that h unfolding Cons [symmetric] by (auto simp: holds_marker_def opt_list_def split: option.splits)
    have "mOpID x = cv_op c" if "x \<in> set (mk # ms)" for x
      using all [OF that] by (simp add: cmark_def cmark0_def)
    then have ops: "mOpID ` set (mk # ms) = {cv_op c}" by auto
    have "is_convert mk" using all [of mk] by (simp add: cmark_def cmark0_def)
    then have "find is_convert (mk # ms) = Some mk" by simp
    moreover have "\<not> 1 < card (mOpID ` set (mk # ms))" unfolding ops by simp
    moreover have "wp fl (stages c) (State_Monad.bind (recoverFromMarker (cv_json c) m (abs_path (rp c)) mk) (\<lambda>a. io_return (Inr a)))
        (recover_result fl c) d"
      by (rule wp_bind, rule wp_mono [OF first [OF Cons]], rule wp_return, rule recovered_result)
    ultimately show ?thesis unfolding Cons by (simp only: list.distinct if_False option.case)
  qed
  have errs: "wp fl (stages c) (io_return (Inl e)) (recover_result fl c) d" if "\<not> fl" for e
    using that d(2) by (auto intro!: wp_return simp: recover_result_def)
  show ?thesis
    unfolding recoverConvert_def dur option.case
  proof (rule wp_bind, rule wp_mono [OF wp_find [OF c d(1) h differ]])
    fix r :: "transfer_error + OperationMarker list" and d'
    assume "d' = d \<and> (\<not> fl \<and> (\<exists>e. r = Inl e) \<or> r = Inr (opt_list mr @ opt_list mb))"
    then consider (err) e where "d' = d" "\<not> fl" "r = Inl e" | (ok) "d' = d" "r = Inr (opt_list mr @ opt_list mb)" by blast
    then show "wp fl (stages c) (case r of Inl e \<Rightarrow> io_return (Inl e) | Inr markers \<Rightarrow> ?body markers) (recover_result fl c) d'"
    proof cases
      case err
      show ?thesis unfolding err(1,3) sum.case by (rule errs [OF err(2)])
    next
      case ok
      show ?thesis unfolding ok sum.case by (rule body)
    qed
  qed
qed

lemma holdsI:
  assumes "conv_ok c" "p \<in> {rp c, wkp c, bkp c}" "\<And>m. mo = Some m \<Longrightarrow> cmark c m" "at_site c p mo d \<or> os_lookup d p = None \<and> mo = None"
  shows "holds_marker c d p mo"
  using assms conv_names [OF assms(1)] conv_distinct [of c] by (auto simp: holds_marker_def)

lemma wp_recoverConvert:
  assumes c: "conv_ok c" and dur: "validateDurability m = None" and st: "stages c d"
  shows "wp fl (stages c) (recoverConvert (cv_json c) m (abs_path (rp c))) (recover_result fl c) d"
proof -
  consider (A) mo where "stageA c mo d" | (B) mk where "stageB c mk d" | (C) mr mb where "stageC c mr mb d"
    using st by (auto simp: stages_def)
  then show ?thesis
  proof cases
    case A
    then show ?thesis
    proof (intro wp_recover_with [OF c dur _ st, of mo None] holdsI [OF c])
      show "recovered fl c RecoverNone d" if "mo = None"
        using A that st by (auto simp: recovered_def settled_def)
      show "wp fl (stages c) (recoverFromMarker (cv_json c) m (abs_path (rp c)) mk) (recovered fl c) d"
        if "opt_list mo @ opt_list None = mk # ms" for mk ms
        using wp_recover_A [OF c] A that by (cases mo) auto
    qed (auto simp: stageA_def marker_A_def)
  next
    case B
    then show ?thesis
    proof (intro wp_recover_with [OF c dur _ st, of None "Some mk"] holdsI [OF c])
      show "wp fl (stages c) (recoverFromMarker (cv_json c) m (abs_path (rp c)) mk') (recovered fl c) d"
        if "opt_list None @ opt_list (Some mk) = mk' # ms" for mk' ms
        using wp_recover_B [OF c B] that by simp
    qed (auto simp: stageB_def work_good_def)
  next
    case C
    then show ?thesis
    proof (intro wp_recover_with [OF c dur _ st, of mr mb] holdsI [OF c])
      show "recovered fl c RecoverNone d" if "mr = None" "mb = None"
        using C that st by (auto simp: recovered_def settled_def)
      show "wp fl (stages c) (recoverFromMarker (cv_json c) m (abs_path (rp c)) mk) (recovered fl c) d"
        if "opt_list mr @ opt_list mb = mk # ms" for mk ms
        by (rule wp_recover_C [OF c C]) (use that in \<open>cases mr; cases mb; auto\<close>)
    qed (auto simp: stageC_def phase_defs)
  qed
qed


subsection \<open>The whole conversion\<close>

text \<open>The situation before: the root is a directory, the names of the work tree and the backup are free.\<close>

definition fresh :: "conv \<Rightarrow> bool" where
  "fresh c \<longleftrightarrow> at_site c (rp c) None (cv_disk c) \<and> os_lookup (cv_disk c) (wkp c) = None \<and> os_lookup (cv_disk c) (bkp c) = None"

definition convert_setup :: "conv \<Rightarrow> 'r work_calls \<Rightarrow> string \<Rightarrow> ConvertRequest \<Rightarrow> bool" where
  "convert_setup c W cwd req \<longleftrightarrow> conv_ok c \<and> fresh c \<and> works_ok c W (cr_Password req) (cr_Overwrite req) \<and>
     filepath_Abs cwd (cr_RootPath req) = abs_path (rp c)"

lemma fresh_stage: "fresh c \<Longrightarrow> stageA c None (cv_disk c)"
  using at_site_plain [of c "rp c" None "cv_disk c"] by (simp add: fresh_def stageA_def around_def orig_def)

definition first_marker :: "conv \<Rightarrow> string \<Rightarrow> OperationMarker" where
  "first_marker c kind = empty_marker\<lparr>mOpID := cv_op c,
     mType := (if kind = OperationConvertDecrypt then OperationConvertDecrypt else OperationConvertEncrypt),
     mStatus := ''running'', mPhase := phaseCreatingWork, mRoot := abs_path (rp c),
     mWork := abs_path (wkp c), mBackup := abs_path (bkp c)\<rparr>"

lemma first_marker_ok: "conv_ok c \<Longrightarrow> cmark0 c (first_marker c kind) \<and> mPhase (first_marker c kind) \<in> early_phases"
  using utf8_phases by (simp add: first_marker_def cmark0_def conv_ok_def is_convert_def marker_strings_def empty_marker_def early_phases_def)

text \<open>The conversion behind the choice of the operation id.\<close>

definition convert_with :: "conv \<Rightarrow> 'r work_calls \<Rightarrow> Manager \<Rightarrow> ConvertRequest \<Rightarrow> transfer_error option io" where
  "convert_with c W m req = attempt (writeMarker (cv_json c) m (abs_path (rp c)) (first_marker c (cr_Kind req)))
     (if cr_Kind req = OperationConvertEncrypt then convertEncrypt (cv_json c) W m (first_marker c (cr_Kind req)) (cr_Password req) (cr_Overwrite req)
      else if cr_Kind req = OperationConvertDecrypt then convertDecrypt (cv_json c) W m (first_marker c (cr_Kind req)) (cr_Password req) (cr_Overwrite req)
      else io_return None)"

lemma wp_convert_with:
  assumes su: "convert_setup c W cwd req" and k: "cr_Kind req = OperationConvertEncrypt \<or> cr_Kind req = OperationConvertDecrypt"
  shows "wp False (stages c) (convert_with c W m req) (outcome c) (cv_disk c)"
proof -
  have c: "conv_ok c" "fresh c" "works_ok c W (cr_Password req) (cr_Overwrite req)" using su by (simp_all add: convert_setup_def)
  note m = first_marker_ok [OF c(1)]
  have A: "stageA c None (cv_disk c)" by (rule fresh_stage [OF c(2)])
  have w: "os_lookup (cv_disk c) (wkp c) = None" using c(2) by (simp add: fresh_def)
  show ?thesis
    unfolding convert_with_def
  proof (rule wp_attempt, rule wp_write_A [OF A m [THEN conjunct1]])
    fix e d' and now :: nat
    assume st: "stageA c (Some (stamp now (first_marker c (cr_Kind req)))) d'" "moved (wkp c) (wkp c) (cv_disk c) d'"
    have w': "os_lookup d' (wkp c) = None" using moved_lookup [OF st(2)] w by simp
    have early: "mPhase (stamp now (first_marker c (cr_Kind req))) \<in> early_phases" using m [THEN conjunct2] by simp
    show "case e of Some x \<Rightarrow> outcome c (Some x) d' | None \<Rightarrow> wp False (stages c)
        (if cr_Kind req = OperationConvertEncrypt then convertEncrypt (cv_json c) W m (first_marker c (cr_Kind req)) (cr_Password req) (cr_Overwrite req)
         else if cr_Kind req = OperationConvertDecrypt then convertDecrypt (cv_json c) W m (first_marker c (cr_Kind req)) (cr_Password req) (cr_Overwrite req)
         else io_return None) (outcome c) d'"
      by (rule case_outcome)
        (use k stagesI(1) [OF st(1)] wp_convertEncrypt [OF c(1,3) st(1) early w'] wp_convertDecrypt [OF c(1,3) st(1) early w'] m in auto)
  qed (use m stagesI(1) outcomeI in \<open>auto split: option.splits\<close>)
qed

lemma convertRoot_run:
  assumes "validateDurability m = None" "cv_op c = cr_Kind req @ ''-'' @ decimal (clock s)"
  shows "run_state (convertRoot (cv_json c) W m (abs_path (rp c)) req) s = run_state (convert_with c W m req) (s\<lparr>clock := Suc (clock s)\<rparr>)"
proof -
  have "run_state (newOpID (cr_Kind req)) s = (cv_op c, s\<lparr>clock := Suc (clock s)\<rparr>)"
    unfolding assms(2) by (simp add: newOpID_def time_Now_def io_return_def State_Monad.bind_def del: decimal.simps)
  then show ?thesis
    by (simp add: convertRoot_def assms(1) State_Monad.bind_def convert_with_def first_marker_def Let_def conv_paths)
qed

lemma ConvertRoot_run:
  fixes s :: io_state
  assumes su: "convert_setup c W cwd req" and s: "dsk s = cv_disk c" "cv_op c = cr_Kind req @ ''-'' @ decimal (clock s)"
    and run: "run_state (ConvertRoot (cv_json c) W m cwd req) s = (e, s')"
  shows "outcome c e (dsk s') \<and> (\<exists>ds. seen s' = ds @ seen s \<and> (\<forall>d \<in> set ds. stages c d))"
proof -
  have c: "conv_ok c" "fresh c" "filepath_Abs cwd (cr_RootPath req) = abs_path (rp c)" using su by (simp_all add: convert_setup_def)
  have st: "stages c (dsk s)" using stagesI(1) [OF fresh_stage [OF c(2)]] s(1) by simp
  let ?m = "withDurability m (cr_Durability req)"
  have bad: ?thesis if "ConvertRoot (cv_json c) W m cwd req = io_return (Some x)" for x
    using run outcomeI [OF st] by (simp add: that io_return_def) (auto intro!: exI [of _ "[]"])
  show ?thesis
  proof (cases "cr_RootPath req = [] \<or> cr_Password req = [] \<or> cr_Kind req \<noteq> OperationConvertEncrypt \<and> cr_Kind req \<noteq> OperationConvertDecrypt")
    case True
    then have "\<exists>x. ConvertRoot (cv_json c) W m cwd req = io_return (Some x)" by (auto simp: ConvertRoot_def)
    then show ?thesis using bad by blast
  next
    case False
    then have kind: "cr_Kind req = OperationConvertEncrypt \<or> cr_Kind req = OperationConvertDecrypt"
      and conv: "ConvertRoot (cv_json c) W m cwd req = convertRoot (cv_json c) W ?m (abs_path (rp c)) req"
      by (auto simp: ConvertRoot_def c(3))
    show ?thesis
    proof (cases "validateDurability ?m")
      case None
      note ok = None kind conv
    let ?s = "s\<lparr>clock := Suc (clock s)\<rparr>"
    have "wp False (stages c) (convert_with c W ?m req) (outcome c) (dsk ?s)"
      using wp_convert_with [OF su ok(2)] s(1) by simp
    then obtain e2 s2 ds where r: "run_state (convert_with c W ?m req) ?s = (e2, s2)" "outcome c e2 (dsk s2)"
        "seen s2 = ds @ seen ?s" "\<forall>d \<in> set ds. stages c d" by (rule wpD) auto
    have "run_state (convertRoot (cv_json c) W ?m (abs_path (rp c)) req) s = (e2, s2)"
      using convertRoot_run [OF ok(1) s(2), of W] r(1) by simp
    with run r show ?thesis by (simp add: ok(3))
    next
      case (Some x)
      then have "ConvertRoot (cv_json c) W m cwd req = io_return (Some x)" by (simp add: conv convertRoot_def)
      then show ?thesis by (rule bad)
    qed
  qed
qed

text \<open>The disks that a conversion can leave behind when it is interrupted, or fails, and that the
  recoveries after it can leave behind when they are interrupted too.\<close>

inductive stopped :: "conv \<Rightarrow> 'r work_calls \<Rightarrow> Manager \<Rightarrow> string \<Rightarrow> ConvertRequest \<Rightarrow> disk \<Rightarrow> bool"
  for c W m cwd req where
  converting: "dsk s = cv_disk c \<Longrightarrow> seen s = [] \<Longrightarrow> cv_op c = cr_Kind req @ ''-'' @ decimal (clock s) \<Longrightarrow>
    run_state (ConvertRoot (cv_json c) W m cwd req) s = (e, s') \<Longrightarrow> d \<in> set (dsk s' # seen s') \<Longrightarrow> stopped c W m cwd req d"
| recovering: "stopped c W m cwd req d0 \<Longrightarrow> dsk s = d0 \<Longrightarrow> seen s = [] \<Longrightarrow>
    run_state (RecoverConvert (cv_json c) m cwd (cr_RootPath req)) s = (r, s') \<Longrightarrow> d \<in> set (dsk s' # seen s') \<Longrightarrow> stopped c W m cwd req d"

lemma outcome_stages: "outcome c e d \<Longrightarrow> stages c d"
  by (auto simp: outcome_def intro: stagesI split: if_splits)

lemma RecoverConvert_run:
  fixes s :: io_state
  assumes "conv_ok c" "filepath_Abs cwd rootPath = abs_path (rp c)" "stages c (dsk s)" "validateDurability m = None" "fl \<Longrightarrow> faults s = []"
    and run: "run_state (RecoverConvert (cv_json c) m cwd rootPath) s = (r, s')"
  shows "recover_result fl c r (dsk s') \<and> (\<exists>ds. seen s' = ds @ seen s \<and> (\<forall>d \<in> set ds. stages c d))"
proof -
  have "wp fl (stages c) (RecoverConvert (cv_json c) m cwd rootPath) (recover_result fl c) (dsk s)"
    unfolding RecoverConvert_def assms(2) by (rule wp_recoverConvert [OF assms(1,4,3)])
  then obtain r2 s2 ds where "run_state (RecoverConvert (cv_json c) m cwd rootPath) s = (r2, s2)" "recover_result fl c r2 (dsk s2)"
      "seen s2 = ds @ seen s" "\<forall>d \<in> set ds. stages c d" by (rule wpD) (use assms(5) in auto)
  with run show ?thesis by auto
qed

lemma RecoverConvert_invalid:
  "validateDurability m = Some x \<Longrightarrow> run_state (RecoverConvert J m cwd rootPath) s = (Inl x, s)"
  by (simp add: RecoverConvert_def recoverConvert_def io_return_def)

lemma stopped_stages:
  assumes su: "convert_setup c W cwd req"
  shows "stopped c W m cwd req d \<Longrightarrow> stages c d"
proof (induction rule: stopped.induct)
  case (converting s e s' d)
  with ConvertRoot_run [OF su converting(1,3,4)] show ?case by (auto dest: outcome_stages)
next
  case (recovering d0 s r s' d)
  have c: "conv_ok c" "filepath_Abs cwd (cr_RootPath req) = abs_path (rp c)" using su by (simp_all add: convert_setup_def)
  show ?case
  proof (cases "validateDurability m")
    case None
    have "stages c (dsk s)" using recovering by simp
    from RecoverConvert_run [OF c this None _ recovering(4), of False] recovering show ?thesis
      by (auto simp: recover_result_def)
  next
    case (Some x)
    with recovering RecoverConvert_invalid [OF Some] show ?thesis by auto
  qed
qed

end
