(* ===== verification/ConvertCrash.thy ===== *)
theory ConvertCrash
  imports ConvertProps "HOL-Library.Countable"
begin

text \<open>
  The properties of conversions and of their recovery, with a conversion on which they are used.
\<close>

subsection \<open>A conversion\<close>

text \<open>A marker as bytes: the number of the tuple of its fields.\<close>

definition report_fields :: "VerificationReport \<Rightarrow> nat list \<times> string list list \<times> bool" where
  "report_fields r =
    ([ExpectedDirectories r, ActualDirectories r, ExpectedFiles r, ActualFiles r, MissingDirectoryCount r,
      UnexpectedDirectoryCount r, MissingFileCount r, UnexpectedFileCount r, DigestMismatchCount r],
     [MissingDirectories r, UnexpectedDirectories r, MissingFiles r, UnexpectedFiles r, DigestMismatches r], Truncated r)"

definition marker_fields ::
  "OperationMarker \<Rightarrow> int \<times> string list \<times> bool \<times> bool option \<times> (nat list \<times> string list list \<times> bool) option \<times> nat \<times> nat" where
  "marker_fields m = (mVersion m, [mOpID m, mType m, mEntryKind m, mStatus m, mPhase m, mSrc m, mDst m, mRoot m, mWork m, mBackup m],
     mOverwrite m, mDestinationInitiallyExisted m, map_option report_fields (mVerification m), mCreatedAt m, mUpdatedAt m)"

definition report_of :: "nat list \<times> string list list \<times> bool \<Rightarrow> VerificationReport" where
  "report_of = (\<lambda>(ns, ss, t). \<lparr>ExpectedDirectories = ns ! 0, ActualDirectories = ns ! 1, ExpectedFiles = ns ! 2, ActualFiles = ns ! 3,
     MissingDirectories = ss ! 0, MissingDirectoryCount = ns ! 4, UnexpectedDirectories = ss ! 1, UnexpectedDirectoryCount = ns ! 5,
     MissingFiles = ss ! 2, MissingFileCount = ns ! 6, UnexpectedFiles = ss ! 3, UnexpectedFileCount = ns ! 7,
     DigestMismatches = ss ! 4, DigestMismatchCount = ns ! 8, Truncated = t\<rparr>)"

definition marker_of ::
  "int \<times> string list \<times> bool \<times> bool option \<times> (nat list \<times> string list list \<times> bool) option \<times> nat \<times> nat \<Rightarrow> OperationMarker" where
  "marker_of = (\<lambda>(v, ss, ow, ie, r, c, u). \<lparr>mVersion = v, mOpID = ss ! 0, mType = ss ! 1, mEntryKind = ss ! 2, mStatus = ss ! 3,
     mPhase = ss ! 4, mSrc = ss ! 5, mDst = ss ! 6, mOverwrite = ow, mDestinationInitiallyExisted = ie, mRoot = ss ! 7, mWork = ss ! 8,
     mBackup = ss ! 9, mVerification = map_option report_of r, mCreatedAt = c, mUpdatedAt = u\<rparr>)"

lemma report_of_fields: "report_of (report_fields r) = r"
  by (cases r) (simp add: report_of_def report_fields_def)

lemma marker_of_fields: "marker_of (marker_fields m) = m"
  by (cases m) (simp add: marker_of_def marker_fields_def option.map_comp comp_def report_of_fields option.map_ident)

definition unary_json :: marker_json where
  "unary_json = \<lparr>j_Marshal = (\<lambda>m. replicate (to_nat (marker_fields m)) 0), j_Unmarshal = (\<lambda>b. Some (marker_of (from_nat (length b))))\<rparr>"

lemma unary_json_reads: "json_reads unary_json"
  by (simp add: json_reads_def unary_json_def marker_of_fields)

text \<open>A root with one file. The import puts a file into the work tree, the comparison looks for it.\<close>

definition ex_conv :: conv where
  "ex_conv = \<lparr>cv_json = unary_json, cv_par = [''d''], cv_name = ''r'', cv_op = ''convert_encrypt-0'',
     cv_disk = [([''d''], NDir), ([''d'', ''r''], NDir), ([''d'', ''r'', ''f''], NFile [7])],
     cv_good = (\<lambda>t. t [''g''] = Some (NFile [8]))\<rparr>"

definition ex_put :: "disk \<Rightarrow> disk" where
  "ex_put d = (if os_lookup d (wkp ex_conv @ [''g'']) = None then AList.update (wkp ex_conv @ [''g'']) (NFile [8]) d else d)"

definition ex_compare :: "verify_error option io" where
  "ex_compare = State (\<lambda>s. (if os_lookup (dsk s) (wkp ex_conv @ [''g'']) = Some (NFile [8]) then None else Some (VerifyOther []), s))"

definition ex_works :: "unit work_calls" where
  "ex_works = \<lparr>wc_CreateRootConfig = \<lambda>_ _. io_return None, wc_OpenRoot = \<lambda>_ _. io_return (Inr ()), wc_Close = \<lambda>_. io_return None,
     wc_importDirectory = \<lambda>_ _ _. State_Monad.bind (os_call (\<lambda>n d. d) (\<lambda>d. (ex_put d, None))) (\<lambda>e. io_return (map_option (TCall ''import'') e)),
     wc_exportDirectory = \<lambda>_ _ _. io_return None, wc_verifyPlainAndRoot = \<lambda>_ _. ex_compare, wc_verifyRootAndPlain = \<lambda>_ _. ex_compare\<rparr>"

definition ex_request :: ConvertRequest where
  "ex_request = \<lparr>cr_Kind = OperationConvertEncrypt, cr_RootPath = ''/d/r'', cr_Password = ''pw'', cr_Overwrite = False, cr_Durability = []\<rparr>"

lemma ex_paths:
  "rp ex_conv = [''d'', ''r'']" "wkp ex_conv = [''d'', ''r.safe_disk.work.convert_encrypt-0'']"
  "bkp ex_conv = [''d'', ''r.safe_disk.backup.convert_encrypt-0'']"
  by (simp_all add: rp_def wkp_def bkp_def ex_conv_def)

lemma ex_plain: "plain_disk (cv_disk ex_conv)"
  by (auto simp: plain_disk_def disk_wf_def ex_conv_def os_lookup_def plain_name_def no_sep_def is_sep_def)

lemma ex_lookup: "os_lookup (cv_disk ex_conv) p \<noteq> None \<Longrightarrow> p \<in> {[], [''d''], [''d'', ''r''], [''d'', ''r'', ''f'']}"
  by (auto simp: ex_conv_def os_lookup_def split: if_splits)

lemma ex_utf8:
  "utf8_coerce (abs_path [''d'', ''r'']) = abs_path [''d'', ''r'']"
  "utf8_coerce (abs_path [''d'', ''r.safe_disk.work.convert_encrypt-0'']) = abs_path [''d'', ''r.safe_disk.work.convert_encrypt-0'']"
  "utf8_coerce (abs_path [''d'', ''r.safe_disk.backup.convert_encrypt-0'']) = abs_path [''d'', ''r.safe_disk.backup.convert_encrypt-0'']"
  "utf8_coerce ''convert_encrypt-0'' = ''convert_encrypt-0''" "validateOpID ''convert_encrypt-0'' = None"
  by code_simp+

lemma ex_conv_ok: "conv_ok ex_conv"
proof -
  have none: "os_lookup (cv_disk ex_conv) (cv_par ex_conv @ [s]) = None" if "leftover ex_conv s" for s
  proof -
    have "s \<noteq> ''r''" using that by (auto simp: leftover_def ex_conv_def)
    then show ?thesis using ex_lookup [of "[''d'', s]"] by (auto simp: ex_conv_def os_lookup_def)
  qed
  have fields: "cv_json ex_conv = unary_json" "cv_op ex_conv = ''convert_encrypt-0''" "cv_par ex_conv = [''d'']" by (simp_all add: ex_conv_def)
  have par: "os_lookup (cv_disk ex_conv) [''d''] = Some NDir" by (simp add: ex_conv_def os_lookup_def)
  have names: "\<forall>v \<in> set [''d'', ''r'']. plain_name v \<and> \<not> hasMeta v"
    by (simp add: plain_name_def no_sep_def is_sep_def hasMeta_def is_meta_def)
  show ?thesis
    unfolding conv_ok_def ex_paths fields using unary_json_reads ex_utf8 par names none [unfolded fields] by simp
qed

lemma ex_fresh: "fresh ex_conv"
proof -
  have "os_lookup (cv_disk ex_conv) ([''d'', ''r''] @ baseDirName # k) = None" for k
    using ex_lookup [of "[''d'', ''r''] @ baseDirName # k"] by (cases "os_lookup (cv_disk ex_conv) ([''d'', ''r''] @ baseDirName # k)") (auto simp: baseDirName_def)
  then have "area unary_json ''convert_encrypt-0'' (cv_disk ex_conv) [''d'', ''r''] None" by (simp add: area_def)
  then show ?thesis
    unfolding fresh_def at_site_def site_def ex_paths using ex_plain ex_utf8(5) by (simp add: ex_conv_def os_lookup_def plain_name_def no_sep_def is_sep_def)
qed

lemma in_work_refl: "at_site c (wkp c) None d \<Longrightarrow> in_work c d d"
  by (simp add: in_work_def)

lemma ex_put_in_work:
  assumes w: "at_site ex_conv (wkp ex_conv) None d"
  shows "in_work ex_conv d (ex_put d)"
proof (cases "os_lookup d (wkp ex_conv @ [''g'']) = None")
  case True
  let ?p = "wkp ex_conv @ [''g'']" and ?d = "AList.update (wkp ex_conv @ [''g'']) (NFile [8]) d"
  note w' = w [unfolded at_site_def site_def]
  have "\<forall>v \<in> set ?p. plain_name v" using w' by (simp add: plain_name_def no_sep_def is_sep_def)
  then have d: "plain_disk ?d" "os_lookup ?d = (os_lookup d)(?p \<mapsto> NFile [8])"
    using plain_disk_set [of d ?p "NFile [8]"] w' True by simp_all
  have "wkp ex_conv @ baseDirName # k \<noteq> ?p" for k by (simp add: baseDirName_def)
  then have "area (cv_json ex_conv) (cv_op ex_conv) ?d (wkp ex_conv) None" using w' by (simp add: area_def d(2))
  then have "at_site ex_conv (wkp ex_conv) None ?d" using w' d by (simp add: at_site_def site_def)
  moreover have same: "same_but [wkp ex_conv] d ?d" by (auto simp: same_but_def d(2))
  moreover have "at_site ex_conv (rp ex_conv) mo ?d" if "at_site ex_conv (rp ex_conv) mo d" for mo
  proof -
    have "moved (rp ex_conv) (rp ex_conv) d ?d" using same below_distinct by (simp add: same_but_def moved_def)
    then show ?thesis using that d(1) unfolding at_site_def by (rule moved_site) (use that in \<open>auto simp: at_site_def site_def\<close>)
  qed
  ultimately show ?thesis using True by (simp add: in_work_def ex_put_def same_but_def)
next
  case False
  then have "ex_put d = d" unfolding ex_put_def by (rule if_not_P)
  with in_work_refl [OF w] show ?thesis by simp
qed

lemma wp_ex_compare:
  assumes "at_site ex_conv (wkp ex_conv) None d"
  shows "wp False I ex_compare (compared ex_conv d) d"
proof -
  have "cv_good ex_conv (tree d (wkp ex_conv)) \<longleftrightarrow> os_lookup d (wkp ex_conv @ [''g'']) = Some (NFile [8])"
    by (simp add: ex_conv_def tree_def baseDirName_def)
  then show ?thesis
    using in_work_refl [OF assms] by (auto simp: wp_def ex_compare_def compared_def)
qed

lemma ex_works_ok: "works_ok ex_conv ex_works pw ow"
proof -
  have step: "wp False (in_work ex_conv d) (State_Monad.bind (os_call (\<lambda>n d. d) (\<lambda>d. (ex_put d, None)))
      (\<lambda>e. io_return (map_option (TCall ''import'') e))) (\<lambda>_. in_work ex_conv d) d"
    if "at_site ex_conv (wkp ex_conv) None d" for d
    by (rule wp_bind, rule wp_os_call) (use ex_put_in_work [OF that] in_work_refl [OF that] in \<open>auto intro!: wp_return\<close>)
  show ?thesis
    unfolding works_ok_def ex_works_def
    using step wp_ex_compare in_work_refl by (auto intro!: wp_return)
qed

lemma ex_setup: "convert_setup ex_conv ex_works ''/'' ex_request"
proof -
  have "filepath_Abs ''/'' ''/d/r'' = abs_path [''d'', ''r'']" by code_simp
  then show ?thesis
    using ex_conv_ok ex_fresh ex_works_ok by (simp add: convert_setup_def ex_paths ex_request_def)
qed

definition ex_start :: "disk \<Rightarrow> io_state" where
  "ex_start d = \<lparr>dsk = d, seen = [], faults = [], clock = 0\<rparr>"

lemma ex_op: "cv_op ex_conv = cr_Kind ex_request @ ''-'' @ decimal (clock (ex_start d))"
proof -
  have "decimal 0 = ''0''" by code_simp
  then show ?thesis by (simp add: ex_conv_def ex_request_def ex_start_def OperationConvertEncrypt_def del: decimal.simps)
qed

lemma ex_stopped:
  "stopped ex_conv ex_works New ''/'' ex_request
    (dsk (snd (run_state (ConvertRoot unary_json ex_works New ''/'' ex_request) (ex_start (cv_disk ex_conv)))))"
proof (rule stopped.converting [of "ex_start (cv_disk ex_conv)"])
  show "run_state (ConvertRoot (cv_json ex_conv) ex_works New ''/'' ex_request) (ex_start (cv_disk ex_conv)) =
      (fst (run_state (ConvertRoot unary_json ex_works New ''/'' ex_request) (ex_start (cv_disk ex_conv))),
       snd (run_state (ConvertRoot unary_json ex_works New ''/'' ex_request) (ex_start (cv_disk ex_conv))))"
    by (simp add: ex_conv_def)
qed (use ex_op in \<open>simp_all add: ex_start_def del: decimal.simps\<close>)


text \<open>The disk after a crash between the two renames, for a root directory with this name.\<close>

definition ex_glob_disk :: "string \<Rightarrow> disk" where
  "ex_glob_disk name = [([''d''], NDir), ([''d'', name @ ''.safe_disk.backup.op''], NDir),
     ([''d'', name @ ''.safe_disk.work.op''], NDir),
     ([''d'', name @ ''.safe_disk.backup.op'', ''.transfer_v3''], NDir),
     ([''d'', name @ ''.safe_disk.backup.op'', ''.transfer_v3'', ''active''], NDir),
     ([''d'', name @ ''.safe_disk.backup.op'', ''.transfer_v3'', ''active'', ''op.json''], NFile [1])]"

subsection \<open>Properties\<close>

text \<open>C2. After a conversion, or recoveries of it, were interrupted or failed anywhere, a
  recovery that is let run to its end settles: either the original tree is in its place and there is no
  backup, or the verified work tree has its place and the original tree is in the backup. Conditions
  (\<open>convert_setup\<close>): the path of the root is absolute and clean, of valid UTF-8 names without the special characters of
  shell patterns; leftover directories of other operations beside the root hold no marker; and import, export and
  verification stay in the work tree and verify correctly (\<open>works_ok\<close>).\<close>

theorem RecoverConvert_settles:
  fixes s :: io_state
  assumes "convert_setup c W cwd req" "stopped c W m cwd req (dsk s)" "faults s = []" "validateDurability m = None"
    and "run_state (RecoverConvert (cv_json c) m cwd (cr_RootPath req)) s = (r, s')"
  shows "\<exists>a. r = Inr a \<and>
    (tree (dsk s') (rp c) = orig c \<and> os_lookup (dsk s') (bkp c) = None \<and> a \<in> {RecoverNone, RecoverRerun, RecoverNeedsAttention} \<or>
     cv_good c (tree (dsk s') (rp c)) \<and> tree (dsk s') (bkp c) = orig c \<and> os_lookup (dsk s') (wkp c) = None \<and>
       a \<in> {RecoverNone, RecoverContinueRename, RecoverCompleted})"
proof -
  have c: "conv_ok c" "filepath_Abs cwd (cr_RootPath req) = abs_path (rp c)" using assms(1) by (simp_all add: convert_setup_def)
  have "recover_result True c r (dsk s')"
    using RecoverConvert_run [OF c stopped_stages [OF assms(1,2)] assms(4) _ assms(5), of True] assms(3) by blast
  then obtain a where a: "r = Inr a" "settled c a (dsk s')" by (auto simp: recover_result_def)
  then show ?thesis by (cases a) (auto simp: settled_def stageA_def stageC_def)
qed

lemma RecoverConvert_settles_witness:
  "let d = dsk (snd (run_state (ConvertRoot unary_json ex_works New ''/'' ex_request) (ex_start (cv_disk ex_conv))));
       (r, s') = run_state (RecoverConvert (cv_json ex_conv) New ''/'' (cr_RootPath ex_request)) (ex_start d) in
   \<exists>a. r = Inr a \<and> (tree (dsk s') (rp ex_conv) = orig ex_conv \<or> tree (dsk s') (bkp ex_conv) = orig ex_conv)"
proof -
  have "validateDurability New = None" by code_simp
  then show ?thesis
    using RecoverConvert_settles [OF ex_setup, of New "ex_start (dsk (snd (run_state (ConvertRoot unary_json ex_works New ''/'' ex_request) (ex_start (cv_disk ex_conv)))))"] ex_stopped
    by (auto simp: ex_start_def Let_def split: prod.splits)
qed

text \<open>C3. Whatever fails and wherever a conversion, and the recoveries after it, are
  interrupted, the original tree is on the disk, unchanged, as the root or as the backup, and nothing but
  the root, the work tree and the backup has changed.\<close>

theorem interrupted_conversion_keeps_original:
  assumes "convert_setup c W cwd req" "stopped c W m cwd req d"
  shows "(tree d (rp c) = orig c \<or> tree d (bkp c) = orig c) \<and> same_but [rp c, wkp c, bkp c] (cv_disk c) d"
  using stopped_stages [OF assms] by (auto simp: stages_def stageA_def stageB_def stageC_def around_def)

lemma interrupted_conversion_keeps_original_witness:
  "let d = dsk (snd (run_state (ConvertRoot unary_json ex_works New ''/'' ex_request) (ex_start (cv_disk ex_conv)))) in
   (tree d (rp ex_conv) = orig ex_conv \<or> tree d (bkp ex_conv) = orig ex_conv) \<and>
   same_but [rp ex_conv, wkp ex_conv, bkp ex_conv] (cv_disk ex_conv) d"
  unfolding Let_def by (rule interrupted_conversion_keeps_original [OF ex_setup ex_stopped])

text \<open>C38. A conversion that reports success has the verified work tree as the root and the
  original tree as the backup; one that reports an error has kept the original tree.\<close>

theorem ConvertRoot_outcome:
  fixes s :: io_state
  assumes "convert_setup c W cwd req" "dsk s = cv_disk c" "cv_op c = cr_Kind req @ ''-'' @ decimal (clock s)"
    and "run_state (ConvertRoot (cv_json c) W m cwd req) s = (e, s')"
  shows "if e = None then cv_good c (tree (dsk s') (rp c)) \<and> tree (dsk s') (bkp c) = orig c \<and> os_lookup (dsk s') (wkp c) = None
    else tree (dsk s') (rp c) = orig c \<or> tree (dsk s') (bkp c) = orig c"
  using ConvertRoot_run [OF assms] by (auto simp: outcome_def stages_def stageA_def stageB_def stageC_def)

lemma ConvertRoot_outcome_witness:
  "case run_state (ConvertRoot (cv_json ex_conv) ex_works New ''/'' ex_request) (ex_start (cv_disk ex_conv)) of (e, s') \<Rightarrow>
     if e = None then tree (dsk s') (rp ex_conv) [''g''] = Some (NFile [8]) \<and> tree (dsk s') (bkp ex_conv) = orig ex_conv \<and>
       os_lookup (dsk s') (wkp ex_conv) = None
     else tree (dsk s') (rp ex_conv) = orig ex_conv \<or> tree (dsk s') (bkp ex_conv) = orig ex_conv"
  using ConvertRoot_outcome [OF ex_setup _ ex_op, of "cv_disk ex_conv" New]
  by (auto simp: ex_start_def ex_conv_def split: prod.splits)

text \<open>The recovery expands the path of the root as a shell pattern. After the same crash the
  recovery of a root named a[b], however markers are encoded, finds nothing to recover while the root is
  gone and the original tree is in the backup.\<close>

theorem RecoverConvert_misses_pattern:
  "case run_state (RecoverConvert J New ''/'' ''/d/a[b]'') (ex_start (ex_glob_disk ''a[b]'')) of (r, s') \<Rightarrow>
     r = Inr RecoverNone \<and> os_lookup (dsk s') [''d'', ''a[b]''] = None \<and>
     os_lookup (dsk s') [''d'', ''a[b].safe_disk.backup.op''] = Some NDir"
  by code_simp

end
