(* ===== verification/WebDavAuth.thy ===== *)
theory WebDavAuth
  imports GoEncoding Registry DirWalkerProps
begin

text \<open>
  Options and authentication of WebDAV sessions: src/native/sec_fs/sec_webdav/auth.go. Header values are byte strings.
  A reader of random bytes is the list of the bytes it still gives; \<^verbatim>\<open>io.ReadFull\<close> fails when they do not
  suffice. Times are nanoseconds since 1970.
\<close>

subsection \<open>Package strings\<close>

text \<open>The white space of \<^verbatim>\<open>strings.TrimSpace\<close>: ASCII, then U+0085, U+00A0, U+1680, U+2000 to U+200A, U+2028, U+2029,
  U+202F, U+205F and U+3000 in UTF-8.\<close>

definition space_runes :: "string list" where
  "space_runes = map (\<lambda>n. [char_of (n :: nat)]) [9, 10, 11, 12, 13, 32] @
     [[CHR 0xC2, CHR 0x85], [CHR 0xC2, CHR 0xA0], [CHR 0xE1, CHR 0x9A, CHR 0x80]] @
     map (\<lambda>n. [CHR 0xE2, CHR 0x80, char_of (n :: nat)]) ([0x80..<0x8B] @ [0xA8, 0xA9, 0xAF]) @
     [[CHR 0xE2, CHR 0x81, CHR 0x9F], [CHR 0xE3, CHR 0x80, CHR 0x80]]"

definition starting_space :: "string \<Rightarrow> string option" where
  "starting_space s = find (\<lambda>r. take (length r) s = r) space_runes"

definition ending_space :: "string \<Rightarrow> string option" where
  "ending_space s = find (\<lambda>r. length r \<le> length s \<and> drop (length s - length r) s = r) space_runes"

lemma space_runes_ne: "r \<in> set space_runes \<Longrightarrow> r \<noteq> []"
  by (auto simp: space_runes_def)

lemma starting_space_shorter:
  assumes "starting_space s = Some r"
  shows "length (drop (length r) s) < length s"
proof -
  from assms have r: "r \<in> set space_runes" "take (length r) s = r"
    by (auto simp: starting_space_def find_Some_iff)
  then have "r \<noteq> []" using space_runes_ne by blast
  moreover have "s \<noteq> []" using r(2) \<open>r \<noteq> []\<close> by auto
  ultimately show ?thesis by simp
qed

lemma ending_space_shorter:
  assumes "ending_space s = Some r"
  shows "length (take (length s - length r) s) < length s"
proof -
  from assms have "r \<in> set space_runes" "length r \<le> length s"
    by (auto simp: ending_space_def find_Some_iff)
  moreover from this have "0 < length r" using space_runes_ne by blast
  ultimately have "length s - length r < length s" by linarith
  then show ?thesis by simp
qed

function TrimLeftSpace :: "string \<Rightarrow> string" where
  "TrimLeftSpace s = (case starting_space s of None \<Rightarrow> s | Some r \<Rightarrow> TrimLeftSpace (drop (length r) s))"
  by pat_completeness auto
termination by (relation "measure length") (auto dest: starting_space_shorter)

function TrimRightSpace :: "string \<Rightarrow> string" where
  "TrimRightSpace s = (case ending_space s of None \<Rightarrow> s | Some r \<Rightarrow> TrimRightSpace (take (length s - length r) s))"
  by pat_completeness auto
termination by (relation "measure length") (auto dest: ending_space_shorter)

declare TrimLeftSpace.simps [simp del] TrimRightSpace.simps [simp del]

definition TrimSpace :: "string \<Rightarrow> string" where
  "TrimSpace s = TrimRightSpace (TrimLeftSpace s)"

lemma length_TrimSpace: "length (TrimSpace s) \<le> length s"
proof -
  have "length (TrimLeftSpace s) \<le> length s" for s
    by (induction s rule: TrimLeftSpace.induct)
      (subst TrimLeftSpace.simps, auto split: option.split dest: starting_space_shorter)
  moreover have "length (TrimRightSpace s) \<le> length s" for s
    by (induction s rule: TrimRightSpace.induct)
      (subst TrimRightSpace.simps, auto split: option.split dest: ending_space_shorter)
  ultimately show ?thesis unfolding TrimSpace_def by (meson le_trans)
qed

definition IndexByte :: "string \<Rightarrow> char \<Rightarrow> nat option" where
  "IndexByte s c = (let i = length (takeWhile (\<lambda>x. x \<noteq> c) s) in if i < length s then Some i else None)"

subsection \<open>Errors and options\<close>

datatype dav_error =
    ErrInvalidRootKey
  | DavInvalidPath
  | ErrSessionClosed
  | ErrPersistentStoreUnavailable
  | ErrPersistentRecordInvalid
  | ErrPersistentPortConflict
  | ErrCredentialsNotRevealable
  | ErrWebDAVReadOnly
  | ErrDavOptions string
  | ErrDigestHeader string
  | ErrDavRandom
  | ErrDavListen
  | ErrDavInvalid
  | ErrDavNoProvider
  | ErrDavMount
  | ErrDavRoot walk_or_root

definition WritePolicyReadOnly :: string where "WritePolicyReadOnly = ''readOnly''"
definition WritePolicyReviewCreate :: string where "WritePolicyReviewCreate = ''reviewCreate''"
definition WritePolicySilent :: string where "WritePolicySilent = ''silent''"
definition AuthModeBearer :: string where "AuthModeBearer = ''bearer''"
definition AuthModeDigest :: string where "AuthModeDigest = ''digest''"
definition AuthModeBasic :: string where "AuthModeBasic = ''basic''"
definition CredentialVisibilityOnce :: string where "CredentialVisibilityOnce = ''once''"
definition CredentialVisibilityPersistent :: string where "CredentialVisibilityPersistent = ''persistent''"
definition SessionLifetimeEphemeral :: string where "SessionLifetimeEphemeral = ''ephemeral''"
definition SessionLifetimePersistent :: string where "SessionLifetimePersistent = ''persistent''"

lemmas dav_names = WritePolicyReadOnly_def WritePolicyReviewCreate_def WritePolicySilent_def AuthModeBearer_def
  AuthModeDigest_def AuthModeBasic_def CredentialVisibilityOnce_def CredentialVisibilityPersistent_def
  SessionLifetimeEphemeral_def SessionLifetimePersistent_def

record DavOptions =
  oAuthMode :: string
  oCredentialVisibility :: string
  oSessionLifetime :: string
  oTLS :: bool
  oPort :: int
  oWritePolicy :: string

definition no_options :: DavOptions where
  "no_options = \<lparr>oAuthMode = [], oCredentialVisibility = [], oSessionLifetime = [], oTLS = False, oPort = 0, oWritePolicy = []\<rparr>"

definition or_default :: "string \<Rightarrow> string \<Rightarrow> string" where
  "or_default s d = (if s = [] then d else s)"

definition normalizeOpenOptions :: "DavOptions \<Rightarrow> dav_error + DavOptions" where
  "normalizeOpenOptions opts =
    (let o1 = opts\<lparr>oAuthMode := or_default (oAuthMode opts) AuthModeBearer\<rparr> in
     if oAuthMode o1 \<noteq> AuthModeBearer \<and> oAuthMode o1 \<noteq> AuthModeDigest \<and> oAuthMode o1 \<noteq> AuthModeBasic
     then Inl (ErrDavOptions ''auth mode'')
     else let o2 = o1\<lparr>oCredentialVisibility := or_default (oCredentialVisibility o1) CredentialVisibilityOnce\<rparr> in
     if oCredentialVisibility o2 \<noteq> CredentialVisibilityOnce \<and> oCredentialVisibility o2 \<noteq> CredentialVisibilityPersistent
     then Inl (ErrDavOptions ''credential visibility'')
     else let o3 = o2\<lparr>oSessionLifetime := or_default (oSessionLifetime o2) SessionLifetimeEphemeral\<rparr> in
     if oSessionLifetime o3 \<noteq> SessionLifetimeEphemeral \<and> oSessionLifetime o3 \<noteq> SessionLifetimePersistent
     then Inl (ErrDavOptions ''session lifetime'')
     else if oPort o3 < 0 \<or> 65535 < oPort o3 then Inl (ErrDavOptions ''port'')
     else Inr (if oWritePolicy o3 = [] \<or> oWritePolicy o3 = WritePolicyReadOnly
               then o3\<lparr>oWritePolicy := WritePolicyReadOnly\<rparr> else o3))"

text \<open>The decoder of encoding/json is a parameter: it gives the options and the rest of the text after them.\<close>

definition ParseOpenOptions :: "(string \<Rightarrow> (DavOptions \<times> string) option) \<Rightarrow> string \<Rightarrow> dav_error + DavOptions" where
  "ParseOpenOptions decode optionsJSON =
    (if TrimSpace optionsJSON = [] then normalizeOpenOptions (no_options\<lparr>oAuthMode := AuthModeBearer\<rparr>)
     else case decode optionsJSON of
       None \<Rightarrow> Inl (ErrDavOptions ''invalid'')
     | Some (opts, rest) \<Rightarrow>
       if TrimSpace rest \<noteq> [] then Inl (ErrDavOptions ''trailing data'') else normalizeOpenOptions opts)"

subsection \<open>Credentials\<close>

definition read_full :: "nat \<Rightarrow> bytes \<Rightarrow> bytes \<times> bytes option" where
  "read_full n rnd = (if n \<le> length rnd then (drop n rnd, Some (take n rnd)) else ([], None))"

definition newValueLocked :: "nat \<Rightarrow> bytes \<Rightarrow> bytes \<times> (dav_error + string)" where
  "newValueLocked n rnd =
    (case read_full n rnd of (r, None) \<Rightarrow> (r, Inl ErrDavRandom)
     | (r, Some b) \<Rightarrow> (r, Inr (hex_EncodeToString b)))"

record digestState =
  dUsername :: string
  dPassword :: string
  dRealm :: string
  dKey :: bytes
  maxNC :: "string \<Rightarrow> 32 word option"

record authState =
  aMode :: string
  aToken :: string
  aBasicUsername :: string
  aBasicPassword :: string
  aUsername :: string
  aPassword :: string
  aRealm :: string
  aDigest :: "digestState option"

definition no_auth :: authState where
  "no_auth = \<lparr>aMode = [], aToken = [], aBasicUsername = [], aBasicPassword = [], aUsername = [], aPassword = [],
     aRealm = [], aDigest = None\<rparr>"

definition bearer_auth :: "string \<Rightarrow> authState" where
  "bearer_auth token = no_auth\<lparr>aMode := AuthModeBearer, aToken := token\<rparr>"

definition digest_auth :: "string \<Rightarrow> string \<Rightarrow> string \<Rightarrow> bytes \<Rightarrow> authState" where
  "digest_auth username password realm key =
    no_auth\<lparr>aMode := AuthModeDigest, aUsername := username, aPassword := password, aRealm := realm,
      aDigest := Some \<lparr>dUsername = username, dPassword = password, dRealm = realm, dKey = key, maxNC = Map.empty\<rparr>\<rparr>"

definition basic_auth :: "string \<Rightarrow> string \<Rightarrow> authState" where
  "basic_auth username password =
    no_auth\<lparr>aMode := AuthModeBasic, aBasicUsername := username, aBasicPassword := password, aUsername := username,
      aPassword := password\<rparr>"

text \<open>Draw a value and go on with it.\<close>

definition draw :: "nat \<Rightarrow> bytes \<Rightarrow> (string \<Rightarrow> bytes \<Rightarrow> bytes \<times> (dav_error + 'a)) \<Rightarrow> bytes \<times> (dav_error + 'a)" where
  "draw n rnd k = (case newValueLocked n rnd of (r, Inl e) \<Rightarrow> (r, Inl e) | (r, Inr v) \<Rightarrow> k v r)"

definition newAuthLocked :: "string \<Rightarrow> bytes \<Rightarrow> bytes \<times> (dav_error + authState)" where
  "newAuthLocked mode0 rnd =
    (let mode = or_default mode0 AuthModeBearer in
     if mode = AuthModeBearer then draw 32 rnd (\<lambda>token r. (r, Inr (bearer_auth token)))
     else if mode = AuthModeDigest then
       draw 12 rnd (\<lambda>username r. draw 24 r (\<lambda>password r. draw 12 r (\<lambda>realm r.
         case read_full 32 r of (r, None) \<Rightarrow> (r, Inl ErrDavRandom)
         | (r, Some key) \<Rightarrow> (r, Inr (digest_auth username password realm key)))))
     else if mode = AuthModeBasic then
       draw 12 rnd (\<lambda>username r. draw 32 r (\<lambda>password r. (r, Inr (basic_auth username password))))
     else (rnd, Inl (ErrDavOptions ''auth mode'')))"

record PersistentSession =
  psVersion :: int
  psID :: string
  psRootKey :: string
  psToken :: string
  psAuthMode :: string
  psUsername :: string
  psPassword :: string
  psRealm :: string
  psDigestKey :: string
  psBasicAuthUsername :: string
  psBasicAuthPassword :: string
  psDisplayName :: string
  psExposedPath :: string
  psCredentialVisibility :: string
  psSessionLifetime :: string
  psPort :: int
  psTLS :: bool
  psReadOnly :: bool
  psWritePolicy :: string

definition authFromPersistent :: "PersistentSession \<Rightarrow> dav_error + authState" where
  "authFromPersistent rec =
    (if psAuthMode rec = AuthModeBearer then
       (if psToken rec = [] then Inl ErrPersistentRecordInvalid else Inr (bearer_auth (psToken rec)))
     else if psAuthMode rec = AuthModeDigest then
       (if psUsername rec = [] \<or> psPassword rec = [] \<or> psRealm rec = [] \<or> psDigestKey rec = []
        then Inl ErrPersistentRecordInvalid
        else case hex_DecodeString (psDigestKey rec) of None \<Rightarrow> Inl ErrPersistentRecordInvalid
        | Some key \<Rightarrow>
          if length key \<noteq> 32 then Inl ErrPersistentRecordInvalid
          else Inr (digest_auth (psUsername rec) (psPassword rec) (psRealm rec) key))
     else if psAuthMode rec = AuthModeBasic then
       (if psBasicAuthUsername rec = [] \<or> psBasicAuthPassword rec = [] then Inl ErrPersistentRecordInvalid
        else Inr (basic_auth (psBasicAuthUsername rec) (psBasicAuthPassword rec)))
     else Inl ErrPersistentRecordInvalid)"

subsection \<open>Bearer and Basic\<close>

record http_request =
  rMethod :: string
  rPath :: string
  rRequestURI :: string
  rAuthorization :: string

definition bearerAuthorized :: "http_request \<Rightarrow> string \<Rightarrow> bool" where
  "bearerAuthorized r token = (rAuthorization r = ''Bearer '' @ token)"

definition basicAuthorized :: "http_request \<Rightarrow> string \<Rightarrow> string \<Rightarrow> bool" where
  "basicAuthorized r username password =
    (let value = rAuthorization r in
     if take 6 value \<noteq> ''Basic '' then False
     else let encoded = TrimSpace (drop 6 value) in
     if encoded = [] then False
     else case StdDecode encoded of None \<Rightarrow> False
     | Some b \<Rightarrow>
       let decoded = bytes_string b in
       case IndexByte decoded colon of None \<Rightarrow> False
       | Some i \<Rightarrow> take i decoded = username \<and> drop (i + 1) decoded = password)"

subsection \<open>Digest\<close>

fun parse_quoted :: "string \<Rightarrow> string \<Rightarrow> dav_error + string \<times> string" where
  "parse_quoted acc [] = Inl (ErrDigestHeader ''unterminated'')"
| "parse_quoted acc (c # s) =
    (if c = CHR 0x5C then
       (case s of [] \<Rightarrow> Inl (ErrDigestHeader ''truncated'') | e # s' \<Rightarrow> parse_quoted (acc @ [e]) s')
     else if c = CHR 0x22 then Inr (acc, s) else parse_quoted (acc @ [c]) s)"

definition parseDigestValue :: "string \<Rightarrow> dav_error + string \<times> string" where
  "parseDigestValue value =
    (case value of [] \<Rightarrow> Inl (ErrDigestHeader ''value is empty'')
     | c # s \<Rightarrow>
       if c \<noteq> CHR 0x22 then
         (case IndexByte value (CHR '','') of
            Some comma \<Rightarrow> Inr (TrimSpace (take comma value), drop comma value)
          | None \<Rightarrow> Inr (TrimSpace value, []))
       else parse_quoted [] s)"

lemma parse_quoted_shorter: "parse_quoted acc s = Inr (v, rest) \<Longrightarrow> length rest < length s"
  by (induction acc s rule: parse_quoted.induct) (fastforce split: if_splits list.splits)+

lemma parseDigestValue_shorter: "parseDigestValue s = Inr (v, rest) \<Longrightarrow> length rest \<le> length s"
  by (auto simp: parseDigestValue_def split: list.splits if_splits option.splits dest: parse_quoted_shorter)

text \<open>The loop over the fields, after the value was found not to be empty.\<close>

function parse_fields :: "(string \<Rightarrow> string option) \<Rightarrow> string \<Rightarrow> dav_error + (string \<Rightarrow> string option)" where
  "parse_fields flds value =
    (if value = [] then Inr flds
     else case IndexByte value (CHR ''='') of
       None \<Rightarrow> Inl (ErrDigestHeader ''field is invalid'')
     | Some i \<Rightarrow>
       if i = 0 then Inl (ErrDigestHeader ''field is invalid'')
       else let name = TrimSpace (take i value) in
       if name = [] then Inl (ErrDigestHeader ''field name is empty'')
       else case parseDigestValue (TrimSpace (drop (i + 1) value)) of
         Inl e \<Rightarrow> Inl e
       | Inr (parsed, rest) \<Rightarrow>
         if flds name \<noteq> None then Inl (ErrDigestHeader ''field is duplicated'')
         else let rest' = TrimSpace rest; flds' = flds(name \<mapsto> parsed) in
         if rest' = [] then Inr flds'
         else if hd rest' \<noteq> CHR '','' then Inl (ErrDigestHeader ''separator is invalid'')
         else parse_fields flds' (TrimSpace (tl rest')))"
  by pat_completeness auto
termination
proof (relation "measure (\<lambda>(_, y). length y)")
  fix flds s i name x parsed rest rest' flds'
  assume *: "parseDigestValue (TrimSpace (drop (i + 1) s)) = Inr x" "(parsed, rest) = x"
    "rest' = TrimSpace rest" "s \<noteq> []"
  have "length (TrimSpace (tl rest')) \<le> length rest"
    using length_TrimSpace [of "tl rest'"] length_TrimSpace [of rest] *(3) by simp
  also have "\<dots> \<le> length (drop (i + 1) s)"
    using parseDigestValue_shorter * length_TrimSpace by (metis le_trans)
  also have "\<dots> < length s" using *(4) by (cases s) auto
  finally show "((flds', TrimSpace (tl rest')), (flds, s)) \<in> measure (\<lambda>(_, y). length y)" by simp
qed simp

declare parse_fields.simps [simp del]

definition parseDigestAuthorization :: "string \<Rightarrow> dav_error + (string \<Rightarrow> string option)" where
  "parseDigestAuthorization value =
    (if take 7 value \<noteq> ''Digest '' then Inl (ErrDigestHeader ''not digest'')
     else let v = TrimSpace (drop 7 value) in
     if v = [] then Inl (ErrDigestHeader ''empty'') else parse_fields Map.empty v)"

text \<open>The entry of a Go map, empty where there is none.\<close>

definition fld :: "(string \<Rightarrow> string option) \<Rightarrow> string \<Rightarrow> string" where
  "fld flds name = (case flds name of None \<Rightarrow> [] | Some v \<Rightarrow> v)"

definition digestHash :: "string \<Rightarrow> string" where
  "digestHash value = hex_EncodeToString (sha256_Sum256 (string_bytes value))"

definition isLowerHex :: "string \<Rightarrow> nat \<Rightarrow> bool" where
  "isLowerHex value n \<longleftrightarrow> length value = n \<and>
     list_all (\<lambda>c. let k = of_char c :: nat in 48 \<le> k \<and> k \<le> 57 \<or> 97 \<le> k \<and> k \<le> 102) value"

fun hex_number :: "nat \<Rightarrow> string \<Rightarrow> nat option" where
  "hex_number acc [] = Some acc"
| "hex_number acc (c # s) = (case hex_value c of None \<Rightarrow> None | Some v \<Rightarrow> hex_number (16 * acc + v) s)"

definition second :: int where "second = 1000000000"
definition digestNonceLifetime :: int where "digestNonceLifetime = 5 * 60 * second"
definition digestClockSkew :: int where "digestClockSkew = 30 * second"

definition newNonce :: "digestState \<Rightarrow> int \<Rightarrow> bytes \<Rightarrow> bytes \<times> string option" where
  "newNonce d now rnd =
    (case read_full 16 rnd of (r, None) \<Rightarrow> (r, None)
     | (r, Some b) \<Rightarrow>
       let payload = be_bytes 8 (unat (word_of_int (now div second) :: 64 word)) @ b
       in (r, Some (RawURLEncode (payload @ hmac_sha256 (dKey d) payload))))"

text \<open>Whether the nonce is valid, and whether it is stale. The difference of two times saturates in Go, far
  above the lifetime.\<close>

definition validNonce :: "digestState \<Rightarrow> string \<Rightarrow> int \<Rightarrow> bool \<times> bool" where
  "validNonce d value now =
    (case RawURLDecode value of None \<Rightarrow> (False, False)
     | Some payload \<Rightarrow>
       if length payload \<noteq> 56 then (False, False)
       else if drop 24 payload \<noteq> hmac_sha256 (dKey d) (take 24 payload) then (False, False)
       else let issuedAt = sint (of_nat (of_be_bytes (take 8 payload)) :: 64 word) * second in
       if now + digestClockSkew < issuedAt then (False, False)
       else if digestNonceLifetime < now - issuedAt then (False, True) else (True, False))"

definition digest_response :: "digestState \<Rightarrow> string \<Rightarrow> (string \<Rightarrow> string option) \<Rightarrow> string" where
  "digest_response d verb flds =
    (let ha1 = digestHash (dUsername d @ '':'' @ dRealm d @ '':'' @ dPassword d);
         ha2 = digestHash (verb @ '':'' @ fld flds ''uri'')
     in digestHash (ha1 @ '':'' @ fld flds ''nonce'' @ '':'' @ fld flds ''nc'' @ '':'' @ fld flds ''cnonce''
          @ '':auth:'' @ ha2))"

definition nc_key :: "(string \<Rightarrow> string option) \<Rightarrow> string" where
  "nc_key flds = fld flds ''nonce'' @ [CHR 0x00] @ fld flds ''username'' @ [CHR 0x00] @ fld flds ''cnonce''"

text \<open>\<^verbatim>\<open>verify\<close> gives the new state, whether the request is authorised, and whether the nonce is stale. A
  number of eight hexadecimal digits fits into 32 bits.\<close>

definition digest_verify :: "digestState \<Rightarrow> http_request \<Rightarrow> int \<Rightarrow> digestState \<times> bool \<times> bool" where
  "digest_verify d r now =
    (case parseDigestAuthorization (rAuthorization r) of Inl _ \<Rightarrow> (d, False, False)
     | Inr flds \<Rightarrow>
       if \<not> EqualFold (fld flds ''algorithm'') ''SHA-256'' \<or> fld flds ''qop'' \<noteq> ''auth'' then (d, False, False)
       else if fld flds ''username'' \<noteq> dUsername d \<or> fld flds ''realm'' \<noteq> dRealm d then (d, False, False)
       else if fld flds ''uri'' \<noteq> rRequestURI r then (d, False, False)
       else case validNonce d (fld flds ''nonce'') now of (False, stale) \<Rightarrow> (d, False, stale)
       | (True, _) \<Rightarrow>
         if length (fld flds ''nc'') \<noteq> 8 then (d, False, False)
         else case hex_number 0 (fld flds ''nc'') of None \<Rightarrow> (d, False, False)
         | Some n \<Rightarrow>
           if n = 0 \<or> fld flds ''cnonce'' = [] then (d, False, False)
           else if \<not> isLowerHex (fld flds ''response'') 64 then (d, False, False)
           else if digest_response d (rMethod r) flds \<noteq> fld flds ''response'' then (d, False, False)
           else let key = nc_key flds; nc = of_nat n :: 32 word in
           case maxNC d key of
             Some previous \<Rightarrow> if nc \<le> previous then (d, False, False) else (d\<lparr>maxNC := (maxNC d)(key \<mapsto> nc)\<rparr>, True, False)
           | None \<Rightarrow> (d\<lparr>maxNC := (maxNC d)(key \<mapsto> nc)\<rparr>, True, False))"

definition digestChallengeLocked :: "digestState \<Rightarrow> bool \<Rightarrow> int \<Rightarrow> bytes \<Rightarrow> bytes \<times> string" where
  "digestChallengeLocked d stale now rnd =
    (case newNonce d now rnd of (r, None) \<Rightarrow> (r, [])
     | (r, Some nonce) \<Rightarrow>
       (r, ''Digest realm=\"'' @ dRealm d @ ''\", nonce=\"'' @ nonce @ ''\", algorithm=SHA-256, qop=\"auth\"''
          @ (if stale then '', stale=true'' else [])))"

definition bearer_challenge :: string where "bearer_challenge = ''Bearer realm=\"safe-disk\"''"

text \<open>The digest state is a pointer, so its new value is returned with the answer.\<close>

definition authenticateLocked :: "authState \<Rightarrow> http_request \<Rightarrow> int \<Rightarrow> bytes \<Rightarrow> authState \<times> bytes \<times> string \<times> bool" where
  "authenticateLocked a r now rnd =
    (if aMode a = AuthModeBearer then
       (if bearerAuthorized r (aToken a) then (a, rnd, [], True) else (a, rnd, bearer_challenge, False))
     else if aMode a = AuthModeDigest then
       (case aDigest a of None \<Rightarrow> (a, rnd, [], False)
        | Some d \<Rightarrow>
          (case digest_verify d r now of (d', ok, stale) \<Rightarrow>
             (case digestChallengeLocked d' stale now rnd of (rnd', challenge) \<Rightarrow>
                (a\<lparr>aDigest := Some d'\<rparr>, rnd', challenge, ok))))
     else if aMode a = AuthModeBasic then
       (if basicAuthorized r (aBasicUsername a) (aBasicPassword a) then (a, rnd, [], True)
        else (a, rnd, ''Basic realm=\"safe-disk\"'', False))
     else (a, rnd, [], False))"

end
