(* ===== verification/WebDavFs.thy ===== *)
theory WebDavFs
  imports WebDavAuth
begin

text \<open>
  The file system of a WebDAV session: src/native/sec_fs/sec_webdav/filesystem.go, the path functions of server.go
  and the adapter \<^verbatim>\<open>rootResourceProvider\<close> of src/native/ffi_sec_fs/webdav.go. golang.org/x/net/webdav turns a request
  into calls of this file system; which calls is left open, so what is shown holds for every sequence of them.
\<close>

subsection \<open>Paths (server.go)\<close>

definition trim_slashes :: "string \<Rightarrow> string" where
  "trim_slashes s = rev (dropWhile (\<lambda>c. c = slash) (rev (dropWhile (\<lambda>c. c = slash) s)))"

text \<open>\<^verbatim>\<open>strings.Split\<close> at the slash.\<close>

fun Split :: "string \<Rightarrow> string list" where
  "Split [] = [[]]"
| "Split (c # s) = (if c = slash then [] # Split s else (c # hd (Split s)) # tl (Split s))"

definition bad_segment :: "string \<Rightarrow> bool" where
  "bad_segment p \<longleftrightarrow> p = [] \<or> p = ''.'' \<or> p = ''..'' \<or> backslash \<in> set p \<or> CHR 0x00 \<in> set p"

definition cleanRelativePath :: "string \<Rightarrow> dav_error + string" where
  "cleanRelativePath v =
    (let v = trim_slashes v in
     if v = [] then Inr []
     else let parts = Split v in
       if list_ex bad_segment parts then Inl DavInvalidPath else Inr (join_slash parts))"

definition splitURLPath :: "string \<Rightarrow> string list" where
  "splitURLPath v = (let t = trim_slashes v in if t = [] then [] else Split t)"

definition validURLSegments :: "string list \<Rightarrow> bool" where
  "validURLSegments segments \<longleftrightarrow> \<not> list_ex bad_segment segments"

text \<open>\<^verbatim>\<open>path.Join\<close> is that of filepath on a system with the slash.\<close>

definition joinSecurePath :: "string \<Rightarrow> string \<Rightarrow> string" where
  "joinSecurePath base relative =
    (if base = [] then relative else if relative = [] then base else filepath_Join base relative)"

subsection \<open>The resource provider\<close>

record DavInfo =
  fi_name :: string
  fi_dir :: bool
  fi_size :: int

text \<open>Every operation takes the state of the provider and returns it, the reading ones too; an entry of a directory may fail to give its info; a file may be
  open without being seekable. \<open>None\<close> is a listing that does not return.\<close>

record ('p, 'r, 'w) ResourceProvider =
  p_Stat :: "'p \<Rightarrow> string \<Rightarrow> 'p \<times> (dav_error + DavInfo)"
  p_ReadDir :: "'p \<Rightarrow> string \<Rightarrow> 'p \<times> (dav_error + (dav_error + DavInfo) list) option"
  p_Open :: "'p \<Rightarrow> string \<Rightarrow> 'p \<times> (dav_error + 'r \<times> DavInfo option)"
  p_seekable :: "'r \<Rightarrow> bool"
  p_Mkdir :: "'p \<Rightarrow> string \<Rightarrow> 'p \<times> dav_error option"
  p_Create :: "'p \<Rightarrow> string \<Rightarrow> 'p \<times> (dav_error + 'w)"
  p_RemoveAll :: "'p \<Rightarrow> string \<Rightarrow> 'p \<times> dav_error option"
  p_Rename :: "'p \<Rightarrow> string \<Rightarrow> string \<Rightarrow> 'p \<times> dav_error option"

subsection \<open>The file system\<close>

record secureFileSystem =
  fsBase :: string
  fsWritePolicy :: string

definition newSecureFileSystem :: "string \<Rightarrow> string \<Rightarrow> secureFileSystem" where
  "newSecureFileSystem base policy = \<lparr>fsBase = base, fsWritePolicy = policy\<rparr>"

definition fs_resolve :: "secureFileSystem \<Rightarrow> string \<Rightarrow> dav_error + string" where
  "fs_resolve F name = (case cleanRelativePath name of Inl e \<Rightarrow> Inl e | Inr relative \<Rightarrow> Inr (joinSecurePath (fsBase F) relative))"

definition fs_Mkdir :: "('p, 'r, 'w) ResourceProvider \<Rightarrow> secureFileSystem \<Rightarrow> 'p \<Rightarrow> string \<Rightarrow> 'p \<times> dav_error option" where
  "fs_Mkdir P F s name =
    (if fsWritePolicy F = WritePolicyReadOnly then (s, Some ErrWebDAVReadOnly)
     else case fs_resolve F name of Inl e \<Rightarrow> (s, Some e) | Inr resolved \<Rightarrow> p_Mkdir P s resolved)"

record ('r, 'w) secureWebDAVFile =
  wf_reader :: "'r option"
  wf_writer :: "'w option"
  wf_info :: "DavInfo option"
  wf_entries :: "DavInfo list option"
  wf_offset :: nat

text \<open>The infos of the entries, up to the first that fails.\<close>

fun entry_infos :: "(dav_error + DavInfo) list \<Rightarrow> dav_error + DavInfo list" where
  "entry_infos [] = Inr []"
| "entry_infos (Inl e # es) = Inl e"
| "entry_infos (Inr i # es) = map_sum id (Cons i) (entry_infos es)"

text \<open>Opening a directory lists it: the result is \<open>None\<close> when the listing does not return.\<close>

definition fs_OpenFile :: "('p, 'r, 'w) ResourceProvider \<Rightarrow> secureFileSystem \<Rightarrow> 'p \<Rightarrow> string \<Rightarrow> open_mode \<Rightarrow>
    'p \<times> (dav_error + ('r, 'w) secureWebDAVFile) option" where
  "fs_OpenFile P F s name m =
    (let isWrite = (o_wronly m \<or> o_rdwr m \<or> o_create m \<or> o_trunc m) in
     if isWrite \<and> fsWritePolicy F = WritePolicyReadOnly then (s, Some (Inl ErrWebDAVReadOnly))
     else case fs_resolve F name of Inl e \<Rightarrow> (s, Some (Inl e))
     | Inr resolved \<Rightarrow>
       if isWrite then (case p_Create P s resolved of (s1, Inl e) \<Rightarrow> (s1, Some (Inl e))
         | (s1, Inr w) \<Rightarrow> (s1, Some (Inr \<lparr>wf_reader = None, wf_writer = Some w, wf_info = None, wf_entries = None, wf_offset = 0\<rparr>)))
       else case p_Stat P s resolved of (s1, Inl e) \<Rightarrow> (s1, Some (Inl e))
       | (s1, Inr info) \<Rightarrow>
         if fi_dir info then
           (case p_ReadDir P s1 resolved of (s2, listing) \<Rightarrow>
             (s2, map_option (\<lambda>res. case res of Inl e \<Rightarrow> Inl e
               | Inr es \<Rightarrow> (case entry_infos es of Inl e \<Rightarrow> Inl e
                 | Inr infos \<Rightarrow> Inr \<lparr>wf_reader = None, wf_writer = None, wf_info = Some info, wf_entries = Some infos, wf_offset = 0\<rparr>))
               listing))
         else (case p_Open P s1 resolved of (s2, Inl e) \<Rightarrow> (s2, Some (Inl e))
           | (s2, Inr (r, openedInfo)) \<Rightarrow>
             if \<not> p_seekable P r then (s2, Some (Inl ErrDavInvalid))
             else (s2, Some (Inr \<lparr>wf_reader = Some r, wf_writer = None,
               wf_info = (case openedInfo of None \<Rightarrow> Some info | Some i \<Rightarrow> Some i), wf_entries = None, wf_offset = 0\<rparr>))))"

definition fs_RemoveAll :: "('p, 'r, 'w) ResourceProvider \<Rightarrow> secureFileSystem \<Rightarrow> 'p \<Rightarrow> string \<Rightarrow> 'p \<times> dav_error option" where
  "fs_RemoveAll P F s name =
    (if fsWritePolicy F = WritePolicyReadOnly then (s, Some ErrWebDAVReadOnly)
     else case fs_resolve F name of Inl e \<Rightarrow> (s, Some e) | Inr resolved \<Rightarrow> p_RemoveAll P s resolved)"

definition fs_Rename :: "('p, 'r, 'w) ResourceProvider \<Rightarrow> secureFileSystem \<Rightarrow> 'p \<Rightarrow> string \<Rightarrow> string \<Rightarrow> 'p \<times> dav_error option" where
  "fs_Rename P F s oldName newName =
    (if fsWritePolicy F = WritePolicyReadOnly then (s, Some ErrWebDAVReadOnly)
     else case fs_resolve F oldName of Inl e \<Rightarrow> (s, Some e)
     | Inr oldResolved \<Rightarrow>
       (case fs_resolve F newName of Inl e \<Rightarrow> (s, Some e)
        | Inr newResolved \<Rightarrow> p_Rename P s oldResolved newResolved))"

definition fs_Stat :: "('p, 'r, 'w) ResourceProvider \<Rightarrow> secureFileSystem \<Rightarrow> 'p \<Rightarrow> string \<Rightarrow> 'p \<times> (dav_error + DavInfo)" where
  "fs_Stat P F s name = (case fs_resolve F name of Inl e \<Rightarrow> (s, Inl e) | Inr resolved \<Rightarrow> p_Stat P s resolved)"

subsection \<open>Files\<close>

text \<open>A file reads and seeks with the methods of its reader and writes with those of its writer.\<close>

definition wf_Read :: "(nat \<Rightarrow> 'r \<Rightarrow> 'r \<times> bytes \<times> io_error option) \<Rightarrow> ('r, 'w) secureWebDAVFile \<Rightarrow> nat \<Rightarrow>
    ('r, 'w) secureWebDAVFile \<times> bytes \<times> io_error option" where
  "wf_Read rd f n = (case wf_reader f of None \<Rightarrow> (f, [], Some EINVAL)
     | Some r \<Rightarrow> (case rd n r of (r', d, e) \<Rightarrow> (f\<lparr>wf_reader := Some r'\<rparr>, d, e)))"

definition wf_Seek :: "(int \<Rightarrow> whence \<Rightarrow> 'r \<Rightarrow> 'r \<times> int \<times> io_error option) \<Rightarrow> ('r, 'w) secureWebDAVFile \<Rightarrow> int \<Rightarrow> whence \<Rightarrow>
    ('r, 'w) secureWebDAVFile \<times> int \<times> io_error option" where
  "wf_Seek sk f off w = (case wf_reader f of None \<Rightarrow> (f, 0, Some EINVAL)
     | Some r \<Rightarrow> (case sk off w r of (r', n, e) \<Rightarrow> (f\<lparr>wf_reader := Some r'\<rparr>, n, e)))"

definition wf_Write :: "(bytes \<Rightarrow> 'w \<Rightarrow> 'w \<times> nat \<times> io_error option) \<Rightarrow> ('r, 'w) secureWebDAVFile \<Rightarrow> bytes \<Rightarrow>
    ('r, 'w) secureWebDAVFile \<times> nat \<times> (dav_error + io_error) option" where
  "wf_Write wr f d = (case wf_writer f of None \<Rightarrow> (f, 0, Some (Inl ErrWebDAVReadOnly))
     | Some w \<Rightarrow> (case wr d w of (w', n, e) \<Rightarrow> (f\<lparr>wf_writer := Some w'\<rparr>, n, map_option Inr e)))"

definition wf_Close :: "('w \<Rightarrow> io_error option) \<Rightarrow> ('r \<Rightarrow> io_error option) \<Rightarrow> ('r, 'w) secureWebDAVFile \<Rightarrow> io_error option" where
  "wf_Close cw cr f = (case wf_writer f of Some w \<Rightarrow> cw w
     | None \<Rightarrow> (case wf_reader f of None \<Rightarrow> None | Some r \<Rightarrow> cr r))"

definition wf_Stat :: "('r, 'w) secureWebDAVFile \<Rightarrow> dav_error + DavInfo" where
  "wf_Stat f = (case wf_info f of None \<Rightarrow> Inl ErrDavInvalid | Some i \<Rightarrow> Inr i)"

datatype dir_error = DirInvalid | DirEOF

definition wf_Readdir :: "('r, 'w) secureWebDAVFile \<Rightarrow> int \<Rightarrow> ('r, 'w) secureWebDAVFile \<times> (dir_error + DavInfo list)" where
  "wf_Readdir f k =
    (case wf_entries f of None \<Rightarrow> (f, Inl DirInvalid)
     | Some entries \<Rightarrow>
       let remaining = length entries - wf_offset f in
       if remaining = 0 \<and> 0 < k then (f, Inl DirEOF)
       else let n = (if 0 < k \<and> k < int remaining then nat k else remaining)
         in (f\<lparr>wf_offset := wf_offset f + n\<rparr>, Inr (take n (drop (wf_offset f) entries))))"

subsection \<open>Sequences of calls\<close>

datatype fs_call =
    FsMkdir string
  | FsOpenFile string open_mode
  | FsRemoveAll string
  | FsRename string string
  | FsStat string

definition fs_step :: "('p, 'r, 'w) ResourceProvider \<Rightarrow> secureFileSystem \<Rightarrow> fs_call \<Rightarrow> 'p \<Rightarrow> 'p" where
  "fs_step P F c s =
    (case c of FsMkdir n \<Rightarrow> fst (fs_Mkdir P F s n)
     | FsOpenFile n m \<Rightarrow> fst (fs_OpenFile P F s n m)
     | FsRemoveAll n \<Rightarrow> fst (fs_RemoveAll P F s n)
     | FsRename a b \<Rightarrow> fst (fs_Rename P F s a b)
     | FsStat n \<Rightarrow> fst (fs_Stat P F s n))"

definition fs_run :: "('p, 'r, 'w) ResourceProvider \<Rightarrow> secureFileSystem \<Rightarrow> fs_call list \<Rightarrow> 'p \<Rightarrow> 'p" where
  "fs_run P F cs s = fold (fs_step P F) cs s"

subsection \<open>Confinement\<close>

lemma Split_ne [simp]: "Split s \<noteq> []"
  by (cases s) auto

lemma join_Split: "join_slash (Split s) = s"
proof (induction s)
  case (Cons c s)
  then show ?case
    by (cases "Split s" rule: join_slash.cases) (auto simp: list.case_eq_if)
qed simp

lemma Split_no_slash: "p \<in> set (Split s) \<Longrightarrow> slash \<notin> set p"
proof (induction s arbitrary: p)
  case (Cons c s)
  have "hd (Split s) \<in> set (Split s)" "set (tl (Split s)) \<subseteq> set (Split s)"
    by (simp_all add: list.set_sel subsetI)
  with Cons show ?case by (fastforce split: if_splits)
qed simp

lemma segment_plain: "p \<in> set (Split s) \<Longrightarrow> \<not> bad_segment p \<Longrightarrow> plain_name p"
  using Split_no_slash [of p s] by (auto simp: bad_segment_def plain_name_def no_sep_def is_sep_def)

text \<open>Paths of plain names; the empty path is the root.\<close>

definition dav_path :: "string list \<Rightarrow> string \<Rightarrow> bool" where
  "dav_path ps p \<longleftrightarrow> (\<forall>n \<in> set ps. plain_name n) \<and> p = join_slash ps"

lemma cleanRelativePath_plain:
  assumes "cleanRelativePath v = Inr p"
  shows "dav_path (components p) p"
proof -
  consider "p = []" | q where "p = join_slash (Split q)" "\<forall>n \<in> set (Split q). \<not> bad_segment n"
    using assms by (auto simp: cleanRelativePath_def Let_def list_ex_iff split: if_splits)
  then show ?thesis
  proof cases
    case (2 q)
    then have "\<forall>n \<in> set (Split q). plain_name n" using segment_plain by blast
    with 2 show ?thesis by (simp add: dav_path_def components_join)
  qed (simp add: dav_path_def components_def)
qed

lemma join_slash_append2:
  assumes "us \<noteq> []" "vs \<noteq> []"
  shows "join_slash (us @ vs) = join_slash us @ slash # join_slash vs"
  using assms
proof (induction us rule: join_slash.induct)
  case (2 c)
  then show ?case by (cases vs) auto
next
  case (3 c e cs)
  then show ?case by simp
qed simp

lemma joinSecurePath_plain:
  assumes "dav_path us b" "dav_path vs r"
  shows "dav_path (us @ vs) (joinSecurePath b r)"
proof -
  have all: "\<forall>n \<in> set (us @ vs). plain_name n" using assms by (auto simp: dav_path_def)
  have e: "join_slash ws = [] \<longleftrightarrow> ws = []" if "\<forall>n \<in> set ws. plain_name n" for ws
    using join_slash_ne [OF that] by auto
  show ?thesis
  proof (cases "us = [] \<or> vs = []")
    case True
    then show ?thesis using assms e [of us] e [of vs] by (auto simp: dav_path_def joinSecurePath_def)
  next
    case False
    then have ne: "us \<noteq> []" "vs \<noteq> []" by auto
    have "filepath_Join b r = filepath_Clean (join_slash (us @ vs))"
      using assms e [of us] e [of vs] ne join_slash_append2 [OF ne] by (auto simp: dav_path_def filepath_Join_def)
    also have "\<dots> = join_slash (us @ vs)" by (rule filepath_Clean_plain [OF all]) (use ne in simp)
    finally show ?thesis
      using assms e [of us] e [of vs] ne all by (auto simp: dav_path_def joinSecurePath_def)
  qed
qed

text \<open>A path at or below the base.\<close>

definition at_or_below :: "string \<Rightarrow> string \<Rightarrow> bool" where
  "at_or_below base p \<longleftrightarrow> dav_path (components p) p \<and> prefix (components base) (components p)"

lemma fs_resolve_below:
  assumes "dav_path (components (fsBase F)) (fsBase F)" "fs_resolve F name = Inr p"
  shows "at_or_below (fsBase F) p"
proof -
  obtain r where r: "cleanRelativePath name = Inr r" "p = joinSecurePath (fsBase F) r"
    using assms(2) by (auto simp: fs_resolve_def split: sum.splits)
  have d: "dav_path (components (fsBase F) @ components r) p"
    unfolding r(2) by (rule joinSecurePath_plain [OF assms(1) cleanRelativePath_plain [OF r(1)]])
  then have "components p = components (fsBase F) @ components r"
    by (auto simp: dav_path_def components_join)
  with d show ?thesis by (simp add: at_or_below_def)
qed

text \<open>The contract of a provider towards its sessions: what its operations on the paths at or below the base keep.\<close>

locale dav_provider =
  fixes P :: "('p, 'r, 'w) ResourceProvider" and base :: string and inv :: "'p \<Rightarrow> bool"
  assumes base_ok: "dav_path (components base) base"
    and Stat_inv: "inv s \<Longrightarrow> at_or_below base p \<Longrightarrow> inv (fst (p_Stat P s p))"
    and ReadDir_inv: "inv s \<Longrightarrow> at_or_below base p \<Longrightarrow> inv (fst (p_ReadDir P s p))"
    and Open_inv: "inv s \<Longrightarrow> at_or_below base p \<Longrightarrow> inv (fst (p_Open P s p))"
    and Mkdir_inv: "inv s \<Longrightarrow> at_or_below base p \<Longrightarrow> inv (fst (p_Mkdir P s p))"
    and Create_inv: "inv s \<Longrightarrow> at_or_below base p \<Longrightarrow> inv (fst (p_Create P s p))"
    and RemoveAll_inv: "inv s \<Longrightarrow> at_or_below base p \<Longrightarrow> inv (fst (p_RemoveAll P s p))"
    and Rename_inv: "inv s \<Longrightarrow> at_or_below base p \<Longrightarrow> at_or_below base q \<Longrightarrow> inv (fst (p_Rename P s p q))"
begin

lemma OpenFile_inv:
  assumes "fsBase F = base" "inv s"
  shows "inv (fst (fs_OpenFile P F s name m))"
proof (cases "fs_resolve F name")
  case (Inr p)
  have p: "at_or_below base p" using fs_resolve_below [OF _ Inr] base_ok assms(1) by simp
  obtain s1 r1 where 1: "p_Stat P s p = (s1, r1)" by fastforce
  obtain s2 r2 where 2: "p_ReadDir P s1 p = (s2, r2)" by fastforce
  obtain s3 r3 where 3: "p_Open P s1 p = (s3, r3)" by fastforce
  obtain s4 r4 where 4: "p_Create P s p = (s4, r4)" by fastforce
  have inv1: "inv s1" using Stat_inv [OF assms(2) p] 1 by simp
  then have "inv s2" "inv s3" "inv s4"
    using ReadDir_inv [OF inv1 p] Open_inv [OF inv1 p] Create_inv [OF assms(2) p] 2 3 4 by simp_all
  with inv1 assms(2) Inr 1 2 3 4 show ?thesis
    by (auto simp: fs_OpenFile_def Let_def split: sum.split prod.split)
qed (use assms in \<open>simp add: fs_OpenFile_def Let_def\<close>)

lemma step_inv: "fsBase F = base \<Longrightarrow> inv s \<Longrightarrow> inv (fs_step P F c s)"
  using fs_resolve_below [of F] base_ok OpenFile_inv [of F]
  by (auto simp: fs_step_def fs_Mkdir_def fs_RemoveAll_def fs_Rename_def fs_Stat_def
      intro: Mkdir_inv RemoveAll_inv Rename_inv Stat_inv split: fs_call.split sum.split)

lemma run_inv: "fsBase F = base \<Longrightarrow> inv s \<Longrightarrow> inv (fs_run P F cs s)"
  unfolding fs_run_def by (induction cs arbitrary: s) (simp_all add: step_inv)

end

text \<open>With the policy that forbids writing no call changes a provider whose reading operations do not.\<close>

definition reads_keep :: "('p, 'r, 'w) ResourceProvider \<Rightarrow> bool" where
  "reads_keep P \<longleftrightarrow> (\<forall>s p. fst (p_Stat P s p) = s \<and> fst (p_ReadDir P s p) = s \<and> fst (p_Open P s p) = s)"

lemma read_only_step:
  assumes "fsWritePolicy F = WritePolicyReadOnly" "reads_keep P"
  shows "fs_step P F c s = s"
proof -
  have keep: "fst (p_Stat P s p) = s" "fst (p_ReadDir P s p) = s" "fst (p_Open P s p) = s" for s p
    using assms(2) by (simp_all add: reads_keep_def)
  have "fst (fs_OpenFile P F s name m) = s" for name m
    using assms(1) keep(1) [of s] keep(2,3)
    by (auto simp: fs_OpenFile_def Let_def split: sum.split prod.split) (metis fst_conv)+
  with assms(1) keep show ?thesis
    by (auto simp: fs_step_def fs_Mkdir_def fs_RemoveAll_def fs_Rename_def fs_Stat_def split: fs_call.split sum.split)
qed

lemma read_only_run: "fsWritePolicy F = WritePolicyReadOnly \<Longrightarrow> reads_keep P \<Longrightarrow> fs_run P F cs s = s"
  unfolding fs_run_def by (induction cs) (auto simp: read_only_step)

subsection \<open>A secure root as the provider (ffi_sec_fs/webdav.go)\<close>

definition node_info :: "string \<times> node \<Rightarrow> DavInfo" where
  "node_info x = \<lparr>fi_name = fst x, fi_dir = (snd x = NDir), fi_size = (case snd x of NFile b \<Rightarrow> int (length b) | _ \<Rightarrow> 0)\<rparr>"

definition entry_info :: "secDirEntry \<Rightarrow> DavInfo" where
  "entry_info e = \<lparr>fi_name = viewName e, fi_dir = entryIsDir e, fi_size = int (entrySize e)\<rparr>"

definition root_error_of :: "'a \<times> root_error option \<Rightarrow> 'a \<times> dav_error option" where
  "root_error_of x = (fst x, map_option (\<lambda>e. ErrDavRoot (RootErr e)) (snd x))"

definition provider_RemoveAll :: "path_env \<Rightarrow> 'c secRoot option \<Rightarrow> disk \<Rightarrow> string \<Rightarrow> disk \<times> dav_error option" where
  "provider_RemoveAll env r d p =
    (case root_Stat env r d p of Inl e \<Rightarrow> (d, Some (ErrDavRoot (RootErr e)))
     | Inr (_, n) \<Rightarrow> root_error_of (if n = NDir then root_DeleteDirectoryTree env r d p else root_DeleteFile env r d p))"

text \<open>The size of an open file is that of its context, \<open>csz\<close>; every file of a root can seek.\<close>

definition provider_Open :: "path_env \<Rightarrow> nat \<Rightarrow> ('c \<Rightarrow> int) \<Rightarrow> 'c secRoot option \<Rightarrow> disk \<Rightarrow> string \<Rightarrow>
    disk \<times> (dav_error + 'c \<times> DavInfo option)" where
  "provider_Open env room csz r d p =
    (case root_Open env room r d p of (d1, res) \<Rightarrow>
      (d1, case res of Inl e \<Rightarrow> Inl (ErrDavRoot (RootErr e))
       | Inr None \<Rightarrow> Inl ErrDavInvalid
       | Inr (Some c) \<Rightarrow> Inr (c, Some \<lparr>fi_name = p, fi_dir = False, fi_size = csz c\<rparr>)))"

definition rootResourceProvider ::
  "path_env \<Rightarrow> nat \<Rightarrow> ('c \<Rightarrow> int) \<Rightarrow> 'c secRoot option \<Rightarrow> (disk, 'c, 'c option) ResourceProvider" where
  "rootResourceProvider env room csz r = \<lparr>
     p_Stat = (\<lambda>d p. (d, map_sum (\<lambda>e. ErrDavRoot (RootErr e)) node_info (root_Stat env r d p))),
     p_ReadDir = (\<lambda>d p. (d, map_option (map_sum ErrDavRoot (map (\<lambda>e. Inr (entry_info e)))) (root_ReadDir env d r p))),
     p_Open = provider_Open env room csz r,
     p_seekable = (\<lambda>_. True),
     p_Mkdir = (\<lambda>d p. root_error_of (root_MkdirAll env r d p)),
     p_Create = (\<lambda>d p. (case root_OpenFile env room r d p \<lparr>o_wronly = True, o_rdwr = False, o_create = True, o_excl = False,
         o_trunc = True, o_append = False\<rparr> of (d', res) \<Rightarrow> (d', map_sum (\<lambda>e. ErrDavRoot (RootErr e)) id res))),
     p_RemoveAll = provider_RemoveAll env r,
     p_Rename = (\<lambda>d p q. root_error_of (root_Rename env r d p q))\<rparr>"

text \<open>The reading operations leave the disk alone.\<close>

lemma root_Open_same: "fst (root_Open env room r d p) = d"
  by (auto simp: root_Open_def root_OpenFile_def os_OpenFile_def Let_def
      split: option.splits sum.splits prod.splits opened.splits node.splits if_splits)

lemma root_reads_keep: "reads_keep (rootResourceProvider env room csz r)"
  using root_Open_same [of env room r]
  by (auto simp: reads_keep_def rootResourceProvider_def provider_Open_def split: prod.split) (metis fst_conv)

text \<open>A provider that notes the paths it is given, by every operation.\<close>

definition noting :: "('p, 'r, 'w) ResourceProvider \<Rightarrow> ('p \<times> string list, 'r, 'w) ResourceProvider" where
  "noting P = \<lparr>
     p_Stat = (\<lambda>(s, l) p. (case p_Stat P s p of (s', e) \<Rightarrow> ((s', p # l), e))),
     p_ReadDir = (\<lambda>(s, l) p. (case p_ReadDir P s p of (s', e) \<Rightarrow> ((s', p # l), e))),
     p_Open = (\<lambda>(s, l) p. (case p_Open P s p of (s', e) \<Rightarrow> ((s', p # l), e))),
     p_seekable = p_seekable P,
     p_Mkdir = (\<lambda>(s, l) p. (case p_Mkdir P s p of (s', e) \<Rightarrow> ((s', p # l), e))),
     p_Create = (\<lambda>(s, l) p. (case p_Create P s p of (s', e) \<Rightarrow> ((s', p # l), e))),
     p_RemoveAll = (\<lambda>(s, l) p. (case p_RemoveAll P s p of (s', e) \<Rightarrow> ((s', p # l), e))),
     p_Rename = (\<lambda>(s, l) p q. (case p_Rename P s p q of (s', e) \<Rightarrow> ((s', p # q # l), e)))\<rparr>"

definition clean_base :: "string \<Rightarrow> string" where
  "clean_base exposed = (case cleanRelativePath exposed of Inl _ \<Rightarrow> [] | Inr b \<Rightarrow> b)"

lemma clean_base_path: "dav_path (components (clean_base exposed)) (clean_base exposed)"
  using cleanRelativePath_plain [of exposed]
  by (auto simp: clean_base_def dav_path_def components_def split: sum.splits)

text \<open>What a session on a root keeps: it passes paths at or below its base only, and the disk outside the root
  directory stays as it was.\<close>

definition within_root :: "string \<Rightarrow> 'c secRoot \<Rightarrow> disk \<Rightarrow> disk \<times> string list \<Rightarrow> bool" where
  "within_root base root d0 = (\<lambda>(d, l). list_all (at_or_below base) l \<and>
     (usual_root root \<and> parents_exist d0 (root_dir root) \<longrightarrow> same_outside (root_dir root) d0 d))"

lemma root_step_within:
  assumes "within_root base root d0 (d, l)" "list_all (at_or_below base) l'" "stays_joined env root op"
  shows "within_root base root d0 (fst (root_step env room (Some root) d op), l' @ l)"
  using assms parents_kept same_outside_trans root_step_outside [of root d env op room]
  unfolding within_root_def by (auto simp: list_all_append)

lemma noted: "within_root base root d0 s \<Longrightarrow> at_or_below base p \<Longrightarrow> within_root base root d0 (fst s, p # snd s)"
  by (cases s) (simp add: within_root_def)

interpretation root_dav: dav_provider "noting (rootResourceProvider env room csz (Some root))" "clean_base exposed"
    "within_root (clean_base exposed) root d0"
  for env room csz root exposed d0
proof unfold_locales
  show "dav_path (components (clean_base exposed)) (clean_base exposed)" by (rule clean_base_path)
next
  fix s p assume *: "within_root (clean_base exposed) root d0 s" "at_or_below (clean_base exposed) p"
  show "within_root (clean_base exposed) root d0 (fst (p_Stat (noting (rootResourceProvider env room csz (Some root))) s p))"
    using noted [OF *] by (cases s) (simp add: noting_def rootResourceProvider_def)
  show "within_root (clean_base exposed) root d0 (fst (p_ReadDir (noting (rootResourceProvider env room csz (Some root))) s p))"
    using noted [OF *] by (cases s) (simp add: noting_def rootResourceProvider_def)
  show "within_root (clean_base exposed) root d0 (fst (p_Open (noting (rootResourceProvider env room csz (Some root))) s p))"
    using noted [OF *] root_Open_same [of env room "Some root" "fst s" p]
    by (cases s) (auto simp: noting_def rootResourceProvider_def provider_Open_def split: prod.split)
next
  fix s p assume "within_root (clean_base exposed) root d0 s" "at_or_below (clean_base exposed) p"
  then show "within_root (clean_base exposed) root d0 (fst (p_Mkdir (noting (rootResourceProvider env room csz (Some root))) s p))"
    using root_step_within [of "clean_base exposed" root d0 "fst s" "snd s" "[p]" env "OpMkdirAll p" room]
    by (cases s) (simp add: noting_def rootResourceProvider_def root_error_of_def case_prod_beta stays_joined_def)
next
  fix s p assume "within_root (clean_base exposed) root d0 s" "at_or_below (clean_base exposed) p"
  then show "within_root (clean_base exposed) root d0 (fst (p_Create (noting (rootResourceProvider env room csz (Some root))) s p))"
    using root_step_within [of "clean_base exposed" root d0 "fst s" "snd s" "[p]" env "OpOpenFile p
      \<lparr>o_wronly = True, o_rdwr = False, o_create = True, o_excl = False, o_trunc = True, o_append = False\<rparr>" room]
    by (cases s) (simp add: noting_def rootResourceProvider_def case_prod_beta stays_joined_def)
next
  fix s p assume *: "within_root (clean_base exposed) root d0 s" "at_or_below (clean_base exposed) p"
  have "within_root (clean_base exposed) root d0 (fst s, p # snd s)"
    using * by (cases s) (simp add: within_root_def)
  with * show "within_root (clean_base exposed) root d0 (fst (p_RemoveAll (noting (rootResourceProvider env room csz (Some root))) s p))"
    using root_step_within [of "clean_base exposed" root d0 "fst s" "snd s" "[p]" env "OpDeleteDirectoryTree p" room]
      root_step_within [of "clean_base exposed" root d0 "fst s" "snd s" "[p]" env "OpDeleteFile p" room]
    by (cases s) (auto simp: noting_def rootResourceProvider_def provider_RemoveAll_def root_error_of_def case_prod_beta stays_joined_def split: sum.splits)
next
  fix s p q assume "within_root (clean_base exposed) root d0 s" "at_or_below (clean_base exposed) p" "at_or_below (clean_base exposed) q"
  then show "within_root (clean_base exposed) root d0 (fst (p_Rename (noting (rootResourceProvider env room csz (Some root))) s p q))"
    using root_step_within [of "clean_base exposed" root d0 "fst s" "snd s" "[p, q]" env "OpRename p q" room]
    by (cases s) (simp add: noting_def rootResourceProvider_def root_error_of_def case_prod_beta stays_joined_def)
qed

end
