(* ===== verification/WebDavServer.thy ===== *)
theory WebDavServer
  imports WebDavFs
begin

text \<open>
  The manager of WebDAV sessions: src/native/sec_fs/sec_webdav/server.go. A method that holds the mutex for its whole
  body is one function on the manager; Mount gives the mutex up while the operating system mounts, so it has two steps.
  What the operating system answers (listening, TLS, mounting) is an argument, and so is what
  golang.org/x/net/webdav does with a request. A session keeps the provider it was opened with.
\<close>

subsection \<open>State\<close>

record Session =
  sID :: string
  sRootKey :: string
  sToken :: string
  sAuthMode :: string
  sUsername :: string
  sPassword :: string
  sRealm :: string
  sURL :: string
  sDisplayName :: string
  sExposedPath :: string
  sReadOnly :: bool
  sWritePolicy :: string
  sCredentialVisibility :: string
  sSessionLifetime :: string
  sPort :: int
  sTLS :: bool

definition no_session :: Session where
  "no_session = \<lparr>sID = [], sRootKey = [], sToken = [], sAuthMode = [], sUsername = [], sPassword = [], sRealm = [], sURL = [],
     sDisplayName = [], sExposedPath = [], sReadOnly = False, sWritePolicy = [], sCredentialVisibility = [],
     sSessionLifetime = [], sPort = 0, sTLS = False\<rparr>"

record 'v activeSession =
  as_session :: Session
  as_provider :: 'v
  as_handler :: "string \<times> secureFileSystem"
  as_auth :: authState
  as_mounted :: "nat option"
  as_lastAccessedAt :: "int option"
  as_activeRequests :: int

record listenerState =
  ls_port :: int
  ls_addr :: string
  ls_closeErr :: "dav_error option"

text \<open>The persistent store: its operations and its state.\<close>

record 's store_ops =
  so_Load :: "'s \<Rightarrow> string \<Rightarrow> dav_error + PersistentSession list"
  so_Save :: "'s \<Rightarrow> string \<Rightarrow> PersistentSession list \<Rightarrow> 's \<times> dav_error option"

record ('v, 's) DavManager =
  m_random :: bytes
  m_httpState :: "listenerState option"
  m_httpsState :: "listenerState option"
  m_sessions :: "(string \<times> 'v activeSession) list"
  m_persistentStore :: "'s option"

definition NewDavManager :: "bytes \<Rightarrow> ('v, 's) DavManager" where
  "NewDavManager rnd = \<lparr>m_random = rnd, m_httpState = None, m_httpsState = None, m_sessions = [], m_persistentStore = None\<rparr>"

definition NewManagerWithPersistentStore :: "bytes \<Rightarrow> 's \<Rightarrow> ('v, 's) DavManager" where
  "NewManagerWithPersistentStore rnd store = (NewDavManager rnd)\<lparr>m_persistentStore := Some store\<rparr>"

text \<open>What the operating system answers: to \<^verbatim>\<open>net.Listen\<close> on a port of 127.0.0.1, and to \<^verbatim>\<open>EnsureTLSConfig\<close>.\<close>

record net_env =
  net_Listen :: "int \<Rightarrow> dav_error + listenerState"
  net_TLS :: "dav_error option"

subsection \<open>Listeners\<close>

definition listener_of :: "bool \<Rightarrow> ('v, 's) DavManager \<Rightarrow> listenerState option" where
  "listener_of tls m = (if tls then m_httpsState m else m_httpState m)"

definition set_listener :: "bool \<Rightarrow> listenerState option \<Rightarrow> ('v, 's) DavManager \<Rightarrow> ('v, 's) DavManager" where
  "set_listener tls l m = (if tls then m\<lparr>m_httpsState := l\<rparr> else m\<lparr>m_httpState := l\<rparr>)"

definition ensureServerLocked :: "net_env \<Rightarrow> bool \<Rightarrow> int \<Rightarrow> ('v, 's) DavManager \<Rightarrow> ('v, 's) DavManager \<times> (dav_error + listenerState)" where
  "ensureServerLocked N tls port m =
    (case listener_of tls m of
       Some l \<Rightarrow> if port \<noteq> 0 \<and> ls_port l \<noteq> port then (m, Inl ErrPersistentPortConflict) else (m, Inr l)
     | None \<Rightarrow>
       (case net_Listen N port of Inl e \<Rightarrow> (m, Inl e)
        | Inr l \<Rightarrow>
          if tls \<and> net_TLS N \<noteq> None then (m, Inl (the (net_TLS N)))
          else (set_listener tls (Some l) m, Inr l)))"

definition count_scheme :: "bool \<Rightarrow> ('v, 's) DavManager \<Rightarrow> nat" where
  "count_scheme tls m = length (filter (\<lambda>(_, a). sTLS (as_session a) = tls) (m_sessions m))"

definition stopIfIdleLocked :: "('v, 's) DavManager \<Rightarrow> ('v, 's) DavManager" where
  "stopIfIdleLocked m =
    (let m1 = (if count_scheme False m = 0 then m\<lparr>m_httpState := None\<rparr> else m)
     in if count_scheme True m = 0 then m1\<lparr>m_httpsState := None\<rparr> else m1)"

definition webdavURLScheme :: "bool \<Rightarrow> string" where
  "webdavURLScheme tls = (if tls then ''https://'' else ''http://'')"

subsection \<open>Opening a session\<close>

definition newActiveSession :: "Session \<Rightarrow> authState \<Rightarrow> 'v \<Rightarrow> 'v activeSession" where
  "newActiveSession session auth provider =
    \<lparr>as_session = session, as_provider = provider,
     as_handler = (''/webdav/'' @ sID session, newSecureFileSystem (sExposedPath session) (sWritePolicy session)),
     as_auth = auth, as_mounted = None, as_lastAccessedAt = None, as_activeRequests = 0\<rparr>"

text \<open>The record has no entries for \<^verbatim>\<open>ReadOnly\<close> and \<^verbatim>\<open>WritePolicy\<close>: they stay at their zero values.\<close>

definition persistentRecordFromActive :: "'v activeSession \<Rightarrow> PersistentSession" where
  "persistentRecordFromActive active =
    (let s = as_session active; a = as_auth active; basic = (aMode a = AuthModeBasic) in
     \<lparr>psVersion = 1, psID = sID s, psRootKey = sRootKey s, psToken = sToken s, psAuthMode = sAuthMode s,
      psUsername = sUsername s, psPassword = sPassword s, psRealm = sRealm s,
      psDigestKey = (case aDigest a of None \<Rightarrow> [] | Some d \<Rightarrow> hex_EncodeToString (dKey d)),
      psBasicAuthUsername = (if basic then aBasicUsername a else []),
      psBasicAuthPassword = (if basic then aBasicPassword a else []),
      psDisplayName = sDisplayName s, psExposedPath = sExposedPath s,
      psCredentialVisibility = sCredentialVisibility s, psSessionLifetime = sSessionLifetime s,
      psPort = sPort s, psTLS = sTLS s, psReadOnly = False, psWritePolicy = []\<rparr>)"

text \<open>Replace the record with the same identity, or append.\<close>

fun replace_record :: "PersistentSession \<Rightarrow> PersistentSession list \<Rightarrow> PersistentSession list" where
  "replace_record rec [] = [rec]"
| "replace_record rec (x # xs) = (if psID x = psID rec then rec # xs else x # replace_record rec xs)"

definition savePersistentLocked :: "'s store_ops \<Rightarrow> 'v activeSession \<Rightarrow> ('v, 's) DavManager \<Rightarrow> ('v, 's) DavManager \<times> dav_error option" where
  "savePersistentLocked S active m =
    (case m_persistentStore m of None \<Rightarrow> (m, Some ErrPersistentStoreUnavailable)
     | Some st \<Rightarrow>
       let rec = persistentRecordFromActive active in
       (case so_Load S st (psRootKey rec) of Inl e \<Rightarrow> (m, Some e)
        | Inr records \<Rightarrow>
          (case so_Save S st (psRootKey rec) (replace_record rec records) of (st', e) \<Rightarrow>
             (m\<lparr>m_persistentStore := Some st'\<rparr>, e))))"

definition deletePersistentLocked :: "'s store_ops \<Rightarrow> string \<Rightarrow> string \<Rightarrow> ('v, 's) DavManager \<Rightarrow> ('v, 's) DavManager \<times> dav_error option" where
  "deletePersistentLocked S rootKey sid m =
    (case m_persistentStore m of None \<Rightarrow> (m, Some ErrPersistentStoreUnavailable)
     | Some st \<Rightarrow>
       (case so_Load S st rootKey of Inl e \<Rightarrow> (m, Some e)
        | Inr records \<Rightarrow>
          (case so_Save S st rootKey (filter (\<lambda>x. psID x \<noteq> sid) records) of (st', e) \<Rightarrow>
             (m\<lparr>m_persistentStore := Some st'\<rparr>, e))))"

text \<open>The session of \<^verbatim>\<open>OpenWithOptions\<close>; the literal sets no \<^verbatim>\<open>WritePolicy\<close>.\<close>

definition opened_session :: "string \<Rightarrow> string \<Rightarrow> string \<Rightarrow> string \<Rightarrow> authState \<Rightarrow> listenerState \<Rightarrow> DavOptions \<Rightarrow> Session" where
  "opened_session sid rootKey displayName cleanPath auth l opts = no_session\<lparr>
     sID := sid, sRootKey := rootKey, sToken := aToken auth, sAuthMode := aMode auth, sUsername := aUsername auth,
     sPassword := aPassword auth, sRealm := aRealm auth,
     sURL := webdavURLScheme (oTLS opts) @ ls_addr l @ ''/webdav/'' @ sid @ ''/'',
     sDisplayName := displayName, sExposedPath := cleanPath, sReadOnly := (oWritePolicy opts = WritePolicyReadOnly),
     sCredentialVisibility := oCredentialVisibility opts, sSessionLifetime := oSessionLifetime opts,
     sPort := ls_port l, sTLS := oTLS opts\<rparr>"

definition put_session :: "string \<Rightarrow> 'v activeSession \<Rightarrow> ('v, 's) DavManager \<Rightarrow> ('v, 's) DavManager" where
  "put_session sid a m = m\<lparr>m_sessions := AList.update sid a (m_sessions m)\<rparr>"

text \<open>The part of \<^verbatim>\<open>OpenWithOptions\<close> under the mutex.\<close>

definition open_locked ::
  "net_env \<Rightarrow> 's store_ops \<Rightarrow> string \<Rightarrow> string \<Rightarrow> string \<Rightarrow> 'v \<Rightarrow> DavOptions \<Rightarrow> ('v, 's) DavManager \<Rightarrow>
    ('v, 's) DavManager \<times> (dav_error + Session)" where
  "open_locked N S rootKey displayName cleanPath provider opts m =
    (if oSessionLifetime opts = SessionLifetimePersistent \<and> m_persistentStore m = None
     then (m, Inl ErrPersistentStoreUnavailable)
     else case ensureServerLocked N (oTLS opts) (oPort opts) m of (m1, Inl e) \<Rightarrow> (m1, Inl e)
     | (m1, Inr l) \<Rightarrow>
       (case newValueLocked 18 (m_random m1) of (rnd, Inl e) \<Rightarrow> (m1\<lparr>m_random := rnd\<rparr>, Inl e)
        | (rnd, Inr sid) \<Rightarrow>
          (case newAuthLocked (oAuthMode opts) rnd of (rnd', Inl e) \<Rightarrow> (m1\<lparr>m_random := rnd'\<rparr>, Inl e)
           | (rnd', Inr auth) \<Rightarrow>
             let m2 = m1\<lparr>m_random := rnd'\<rparr>;
                 session = opened_session sid rootKey displayName cleanPath auth l opts;
                 active = newActiveSession session auth provider
             in if oSessionLifetime opts = SessionLifetimePersistent then
                  (case savePersistentLocked S active m2 of (m3, Some e) \<Rightarrow> (stopIfIdleLocked m3, Inl e)
                   | (m3, None) \<Rightarrow> (put_session sid active m3, Inr session))
                else (put_session sid active m2, Inr session))))"

definition OpenWithOptions ::
  "('p, 'r, 'w) ResourceProvider \<Rightarrow> net_env \<Rightarrow> 's store_ops \<Rightarrow> string \<Rightarrow> string \<Rightarrow> string \<Rightarrow> 'p option \<Rightarrow> DavOptions \<Rightarrow>
    ('p, 's) DavManager \<Rightarrow> ('p, 's) DavManager \<times> (dav_error + Session)" where
  "OpenWithOptions P N S rootKey displayName exposedPath provider opts0 m =
    (case normalizeOpenOptions opts0 of Inl e \<Rightarrow> (m, Inl e)
     | Inr opts \<Rightarrow>
       if TrimSpace rootKey = [] then (m, Inl ErrInvalidRootKey)
       else case provider of None \<Rightarrow> (m, Inl ErrDavNoProvider)
       | Some v \<Rightarrow>
         (case cleanRelativePath exposedPath of Inl e \<Rightarrow> (m, Inl e)
          | Inr cleanPath \<Rightarrow>
            (case snd (p_Stat P v cleanPath) of Inl e \<Rightarrow> (m, Inl e)
             | Inr _ \<Rightarrow> open_locked N S rootKey displayName cleanPath v opts m)))"

definition dav_Open ::
  "('p, 'r, 'w) ResourceProvider \<Rightarrow> net_env \<Rightarrow> 's store_ops \<Rightarrow> string \<Rightarrow> string \<Rightarrow> string \<Rightarrow> 'p option \<Rightarrow>
    ('p, 's) DavManager \<Rightarrow> ('p, 's) DavManager \<times> (dav_error + Session)" where
  "dav_Open P N S rootKey displayName exposedPath provider m =
    OpenWithOptions P N S rootKey displayName exposedPath provider (no_options\<lparr>oAuthMode := AuthModeBearer\<rparr>) m"

subsection \<open>Restoring sessions\<close>

definition restored_session :: "string \<Rightarrow> PersistentSession \<Rightarrow> listenerState \<Rightarrow> Session" where
  "restored_session rootKey rec l =
    \<lparr>sID = psID rec, sRootKey = rootKey, sToken = psToken rec, sAuthMode = psAuthMode rec, sUsername = psUsername rec,
     sPassword = psPassword rec, sRealm = psRealm rec,
     sURL = webdavURLScheme (psTLS rec) @ ls_addr l @ ''/webdav/'' @ psID rec @ ''/'',
     sDisplayName = psDisplayName rec, sExposedPath = psExposedPath rec, sReadOnly = psReadOnly rec,
     sWritePolicy = psWritePolicy rec, sCredentialVisibility = psCredentialVisibility rec,
     sSessionLifetime = SessionLifetimePersistent, sPort = psPort rec, sTLS = psTLS rec\<rparr>"

definition restorePersistent ::
  "('p, 'r, 'w) ResourceProvider \<Rightarrow> net_env \<Rightarrow> string \<Rightarrow> 'p \<Rightarrow> PersistentSession \<Rightarrow> ('p, 's) DavManager \<Rightarrow>
    ('p, 's) DavManager \<times> dav_error option" where
  "restorePersistent P N rootKey provider rec m =
    (if psVersion rec \<noteq> 1 \<or> psRootKey rec \<noteq> rootKey \<or> psID rec = [] \<or>
        psSessionLifetime rec \<noteq> SessionLifetimePersistent \<or> psPort rec \<le> 0
     then (m, Some ErrPersistentRecordInvalid)
     else case snd (p_Stat P provider (psExposedPath rec)) of Inl e \<Rightarrow> (m, Some e)
     | Inr _ \<Rightarrow>
       (case authFromPersistent rec of Inl e \<Rightarrow> (m, Some e)
        | Inr auth \<Rightarrow>
          if map_of (m_sessions m) (psID rec) \<noteq> None then (m, Some ErrPersistentRecordInvalid)
          else case ensureServerLocked N (psTLS rec) (psPort rec) m of (m1, Inl e) \<Rightarrow> (m1, Some e)
          | (m1, Inr l) \<Rightarrow>
            (put_session (psID rec) (newActiveSession (restored_session rootKey rec l) auth provider) m1, None)))"

fun restore_all ::
  "('p, 'r, 'w) ResourceProvider \<Rightarrow> net_env \<Rightarrow> string \<Rightarrow> 'p \<Rightarrow> PersistentSession list \<Rightarrow> ('p, 's) DavManager \<Rightarrow>
    ('p, 's) DavManager \<times> dav_error list" where
  "restore_all P N rootKey provider [] m = (m, [])"
| "restore_all P N rootKey provider (rec # recs) m =
    (case restorePersistent P N rootKey provider rec m of (m1, err) \<Rightarrow>
       (case restore_all P N rootKey provider recs m1 of (m2, errs) \<Rightarrow>
          (m2, (case err of None \<Rightarrow> [] | Some e \<Rightarrow> [e]) @ errs)))"

definition RestorePersistent ::
  "('p, 'r, 'w) ResourceProvider \<Rightarrow> net_env \<Rightarrow> 's store_ops \<Rightarrow> string \<Rightarrow> 'p \<Rightarrow> ('p, 's) DavManager \<Rightarrow>
    ('p, 's) DavManager \<times> dav_error list" where
  "RestorePersistent P N S rootKey provider m =
    (case m_persistentStore m of None \<Rightarrow> (m, [ErrPersistentStoreUnavailable])
     | Some st \<Rightarrow>
       (case so_Load S st rootKey of Inl e \<Rightarrow> (m, [e])
        | Inr records \<Rightarrow> restore_all P N rootKey provider records m))"

subsection \<open>Ending sessions\<close>

definition Reveal :: "('v, 's) DavManager \<Rightarrow> string \<Rightarrow> dav_error + Session" where
  "Reveal m sid =
    (case map_of (m_sessions m) sid of None \<Rightarrow> Inl ErrSessionClosed
     | Some active \<Rightarrow>
       if sCredentialVisibility (as_session active) \<noteq> CredentialVisibilityPersistent then Inl ErrCredentialsNotRevealable
       else Inr (as_session active))"

text \<open>\<^verbatim>\<open>Revoke\<close>, \<^verbatim>\<open>RevokeRoot\<close> and \<^verbatim>\<open>Close\<close> unmount after they have given up the mutex; the mounts are returned.\<close>

definition Revoke :: "'s store_ops \<Rightarrow> string \<Rightarrow> ('v, 's) DavManager \<Rightarrow> ('v, 's) DavManager \<times> nat list" where
  "Revoke S sid m =
    (case map_of (m_sessions m) sid of None \<Rightarrow> (m, [])
     | Some active \<Rightarrow>
       let m1 = m\<lparr>m_sessions := AList.delete sid (m_sessions m)\<rparr>;
           m2 = (if sSessionLifetime (as_session active) = SessionLifetimePersistent \<and> m_persistentStore m \<noteq> None
                 then fst (deletePersistentLocked S (sRootKey (as_session active)) sid m1) else m1)
       in (stopIfIdleLocked m2, case as_mounted active of None \<Rightarrow> [] | Some k \<Rightarrow> [k]))"

definition RevokeRoot :: "string \<Rightarrow> ('v, 's) DavManager \<Rightarrow> ('v, 's) DavManager \<times> nat list" where
  "RevokeRoot rootKey m =
    (let gone = filter (\<lambda>(_, a). sRootKey (as_session a) = rootKey) (m_sessions m);
         kept = filter (\<lambda>(_, a). sRootKey (as_session a) \<noteq> rootKey) (m_sessions m)
     in (stopIfIdleLocked (m\<lparr>m_sessions := kept\<rparr>), List.map_filter (\<lambda>(_, a). as_mounted a) gone))"

definition dav_Count :: "('v, 's) DavManager \<Rightarrow> nat" where
  "dav_Count m = length (m_sessions m)"

definition dav_Close :: "('v, 's) DavManager \<Rightarrow> ('v, 's) DavManager \<times> nat list \<times> dav_error option" where
  "dav_Close m =
    (let err = (\<lambda>l. case l of None \<Rightarrow> None | Some ls \<Rightarrow> ls_closeErr ls) in
     (m\<lparr>m_sessions := [], m_httpState := None, m_httpsState := None\<rparr>,
      List.map_filter (\<lambda>(_, a). as_mounted a) (m_sessions m),
      case err (m_httpState m) of Some e \<Rightarrow> Some e | None \<Rightarrow> err (m_httpsState m)))"

subsection \<open>Listing\<close>

record SessionStatus =
  stID :: string
  stDisplayName :: string
  stExposedPath :: string
  stURL :: string
  stReadOnly :: bool
  stAuthMode :: string
  stLastAccessedAt :: "int option"
  stActiveRequests :: int
  stMounted :: bool
  stCredentialVisibility :: string
  stSessionLifetime :: string
  stPort :: int
  stTLS :: bool

definition statusFromActive :: "'v activeSession \<Rightarrow> SessionStatus" where
  "statusFromActive active = (let s = as_session active in
    \<lparr>stID = sID s, stDisplayName = sDisplayName s, stExposedPath = sExposedPath s, stURL = sURL s, stReadOnly = sReadOnly s,
     stAuthMode = sAuthMode s, stLastAccessedAt = as_lastAccessedAt active, stActiveRequests = as_activeRequests active,
     stMounted = (as_mounted active \<noteq> None), stCredentialVisibility = sCredentialVisibility s,
     stSessionLifetime = sSessionLifetime s, stPort = sPort s, stTLS = sTLS s\<rparr>)"

text \<open>Strings compare byte by byte. The identities differ, so the order of the list is fixed.\<close>

definition string_less :: "string \<Rightarrow> string \<Rightarrow> bool" where
  "string_less a b \<longleftrightarrow> (a, b) \<in> lexord {(x, y). (of_char x :: nat) < of_char y}"

definition status_le :: "SessionStatus \<Rightarrow> SessionStatus \<Rightarrow> bool" where
  "status_le a b \<longleftrightarrow>
    (if stDisplayName a \<noteq> stDisplayName b then string_less (stDisplayName a) (stDisplayName b)
     else \<not> string_less (stID b) (stID a))"

fun insert_status :: "SessionStatus \<Rightarrow> SessionStatus list \<Rightarrow> SessionStatus list" where
  "insert_status x [] = [x]"
| "insert_status x (y # ys) = (if status_le x y then x # y # ys else y # insert_status x ys)"

definition dav_List :: "string \<Rightarrow> ('v, 's) DavManager \<Rightarrow> SessionStatus list" where
  "dav_List rootKey m =
    foldr insert_status (map (\<lambda>(_, a). statusFromActive a)
      (filter (\<lambda>(_, a). rootKey = [] \<or> sRootKey (as_session a) = rootKey) (m_sessions m))) []"

subsection \<open>Mounting\<close>

text \<open>The first part of Mount under the mutex: an error, a mount that is there, or a session to be mounted.\<close>

definition mount_lookup :: "('v, 's) DavManager \<Rightarrow> string \<Rightarrow> dav_error + nat + Session" where
  "mount_lookup m sid =
    (case map_of (m_sessions m) sid of None \<Rightarrow> Inl ErrSessionClosed
     | Some active \<Rightarrow> (case as_mounted active of Some k \<Rightarrow> Inr (Inl k) | None \<Rightarrow> Inr (Inr (as_session active))))"

text \<open>The second part, with the new mount \<open>k\<close>: the mounts to be removed again, and the answer.\<close>

definition mount_install :: "string \<Rightarrow> nat \<Rightarrow> ('v, 's) DavManager \<Rightarrow> ('v, 's) DavManager \<times> nat list \<times> (dav_error + nat)" where
  "mount_install sid k m =
    (case map_of (m_sessions m) sid of None \<Rightarrow> (m, [k], Inl ErrSessionClosed)
     | Some active \<Rightarrow>
       (case as_mounted active of Some existing \<Rightarrow> (m, [k], Inr existing)
        | None \<Rightarrow> (put_session sid (active\<lparr>as_mounted := Some k\<rparr>) m, [], Inr k)))"

text \<open>Unmount: the mount that is to be removed, and what is done when that went well.\<close>

definition unmount_lookup :: "('v, 's) DavManager \<Rightarrow> string \<Rightarrow> nat option" where
  "unmount_lookup m sid = (case map_of (m_sessions m) sid of None \<Rightarrow> None | Some active \<Rightarrow> as_mounted active)"

definition unmount_finish :: "string \<Rightarrow> nat \<Rightarrow> ('v, 's) DavManager \<Rightarrow> ('v, 's) DavManager" where
  "unmount_finish sid k m =
    (case map_of (m_sessions m) sid of None \<Rightarrow> m
     | Some active \<Rightarrow> if as_mounted active = Some k then put_session sid (active\<lparr>as_mounted := None\<rparr>) m else m)"

subsection \<open>Requests\<close>

definition acquireAuthorized ::
  "string \<Rightarrow> http_request \<Rightarrow> int \<Rightarrow> ('v, 's) DavManager \<Rightarrow> ('v, 's) DavManager \<times> (string + 'v activeSession)" where
  "acquireAuthorized sid r now m =
    (case map_of (m_sessions m) sid of None \<Rightarrow> (m, Inl bearer_challenge)
     | Some active \<Rightarrow>
       (case authenticateLocked (as_auth active) r now (m_random m) of (auth, rnd, challenge, ok) \<Rightarrow>
          let m1 = m\<lparr>m_random := rnd\<rparr> in
          if \<not> ok then (m1, Inl challenge)
          else let active' = active\<lparr>as_auth := auth, as_lastAccessedAt := Some now,
                      as_activeRequests := as_activeRequests active + 1\<rparr>
            in (put_session sid active' m1, Inr active')))"

definition releaseRequest :: "string \<Rightarrow> ('v, 's) DavManager \<Rightarrow> ('v, 's) DavManager" where
  "releaseRequest sid m =
    (case map_of (m_sessions m) sid of None \<Rightarrow> m
     | Some active \<Rightarrow>
       put_session sid (if 0 < as_activeRequests active
         then active\<lparr>as_activeRequests := as_activeRequests active - 1\<rparr> else active) m)"

definition methodAllowReadOnly :: string where "methodAllowReadOnly = ''OPTIONS, GET, HEAD, PROPFIND''"
definition methodAllowReadWrite :: string where
  "methodAllowReadWrite = ''OPTIONS, GET, HEAD, PROPFIND, PUT, DELETE, MKCOL, MOVE, COPY''"

definition write_methods :: "string list" where "write_methods = [''PUT'', ''DELETE'', ''MKCOL'', ''MOVE'']"
definition handler_methods :: "string list" where
  "handler_methods = [''GET'', ''HEAD'', ''PROPFIND'', ''PROPPATCH'', ''COPY'', ''LOCK'', ''UNLOCK'']"

text \<open>What is answered; \<open>Served\<close> hands the request to the handler of the session.\<close>

datatype 'v dav_answer =
    NotFound
  | Unauthorized string
  | BadRequest
  | OptionsOK string
  | Forbidden string
  | Served "'v activeSession"

definition dispatch :: "'v activeSession \<Rightarrow> string \<Rightarrow> 'v dav_answer" where
  "dispatch active verb =
    (let ro = (sWritePolicy (as_session active) = WritePolicyReadOnly);
         allow = (if ro then methodAllowReadOnly else methodAllowReadWrite)
     in if verb = ''OPTIONS'' then OptionsOK allow
        else if verb \<in> set handler_methods then Served active
        else if verb \<in> set write_methods then (if ro then Forbidden methodAllowReadOnly else Served active)
        else Forbidden allow)"

text \<open>The request stays acquired while it is served; \<^verbatim>\<open>releaseRequest\<close> is deferred to its end.\<close>

definition dav_handle :: "http_request \<Rightarrow> int \<Rightarrow> ('v, 's) DavManager \<Rightarrow> ('v, 's) DavManager \<times> 'v dav_answer" where
  "dav_handle r now m =
    (case splitURLPath (rPath r) of
       first # sid # rest \<Rightarrow>
         if first \<noteq> ''webdav'' then (m, NotFound)
         else (case acquireAuthorized sid r now m of
             (m1, Inl challenge) \<Rightarrow> (m1, Unauthorized (or_default challenge bearer_challenge))
           | (m1, Inr active) \<Rightarrow>
             if \<not> validURLSegments rest then (releaseRequest sid m1, BadRequest)
             else (case dispatch active (rMethod r) of
                 Served a \<Rightarrow> (m1, Served a)
               | answer \<Rightarrow> (releaseRequest sid m1, answer)))
     | _ \<Rightarrow> (m, NotFound))"

end
