(* ===== verification/WebDavProps.thy ===== *)
theory WebDavProps
  imports WebDavServer
begin

text \<open>
  Properties of WebDAV sessions: what a session does to the disk, that a digest is not accepted twice, the invariant of
  the session table, and what a restored session has and has lost.
\<close>

subsection \<open>Digest authentication\<close>

definition request_fields :: "http_request \<Rightarrow> string \<Rightarrow> string option" where
  "request_fields r = (case parseDigestAuthorization (rAuthorization r) of Inl _ \<Rightarrow> Map.empty | Inr f \<Rightarrow> f)"

definition request_nc :: "http_request \<Rightarrow> 32 word" where
  "request_nc r = of_nat (the (hex_number 0 (fld (request_fields r) ''nc'')))"

text \<open>A request made with the secret of the session, for its own address, on a nonce that is valid at the time.\<close>

definition genuine :: "digestState \<Rightarrow> http_request \<times> int \<Rightarrow> bool" where
  "genuine d = (\<lambda>(r, t). let f = request_fields r in
     fld f ''response'' = digest_response d (rMethod r) f \<and> fld f ''uri'' = rRequestURI r \<and>
     fld f ''username'' = dUsername d \<and> fld f ''realm'' = dRealm d \<and> fst (validNonce d (fld f ''nonce'') t))"

text \<open>The requests that are accepted, in order.\<close>

fun digest_log :: "digestState \<Rightarrow> (http_request \<times> int) list \<Rightarrow> (http_request \<times> int) list" where
  "digest_log d [] = []"
| "digest_log d ((r, t) # rs) =
    (case digest_verify d r t of (d', ok, _) \<Rightarrow> (if ok then [(r, t)] else []) @ digest_log d' rs)"

definition counts_up :: "http_request \<times> int \<Rightarrow> http_request \<times> int \<Rightarrow> bool" where
  "counts_up a b \<longleftrightarrow> nc_key (request_fields (fst a)) \<noteq> nc_key (request_fields (fst b)) \<or>
     request_nc (fst a) < request_nc (fst b)"

definition above_count :: "digestState \<Rightarrow> http_request \<times> int \<Rightarrow> bool" where
  "above_count d x \<longleftrightarrow> (\<forall>n. maxNC d (nc_key (request_fields (fst x))) = Some n \<longrightarrow> n < request_nc (fst x))"

lemma verify_accepts:
  assumes "digest_verify d r t = (d', True, stale)"
  shows "genuine d (r, t)" "above_count d (r, t)"
    "d' = d\<lparr>maxNC := (maxNC d)(nc_key (request_fields r) \<mapsto> request_nc r)\<rparr>"
  using assms
  by (auto simp: digest_verify_def genuine_def above_count_def request_fields_def request_nc_def Let_def
      split: sum.splits if_splits prod.splits option.splits bool.splits)

lemma verify_refuses: "digest_verify d r t = (d', False, stale) \<Longrightarrow> d' = d"
  by (auto simp: digest_verify_def Let_def split: sum.splits if_splits prod.splits option.splits bool.splits)

lemma counters_irrelevant [simp]:
  "validNonce (d\<lparr>maxNC := f\<rparr>) = validNonce d" "digest_response (d\<lparr>maxNC := f\<rparr>) = digest_response d"
  "genuine (d\<lparr>maxNC := f\<rparr>) = genuine d"
  by (simp_all add: validNonce_def digest_response_def genuine_def fun_eq_iff cong: option.case_cong if_cong)

lemma log_from:
  "list_all (genuine d) (digest_log d rs) \<and> list_all (above_count d) (digest_log d rs) \<and>
    sorted_wrt counts_up (digest_log d rs)"
proof (induction d rs rule: digest_log.induct)
  case (2 d r t rs)
  obtain d' ok stale where v: "digest_verify d r t = (d', ok, stale)" using prod_cases3 by blast
  show ?case
  proof (cases ok)
    case False
    then have "digest_verify d r t = (d, False, stale)" using v verify_refuses [of d r t d' stale] by simp
    with v 2 [OF v [symmetric] refl] show ?thesis by simp
  next
    case True
    then have v1: "digest_verify d r t = (d', True, stale)" using v by simp
    note a = verify_accepts [OF v1]
    note ih = 2 [OF v [symmetric] refl]
    have up: "above_count d x \<and> counts_up (r, t) x" if "above_count d' x" for x
      using that a(2,3) by (auto simp: above_count_def counts_up_def split: if_splits)
    from ih have "list_all (\<lambda>x. above_count d x \<and> counts_up (r, t) x) (digest_log d' rs)"
      using up by (auto simp: list_all_iff)
    moreover have "genuine d' = genuine d" using a(3) by simp
    ultimately show ?thesis using ih a(1,2) v True by (auto simp: list_all_iff)
  qed
qed simp

text \<open>C4. Digest authentication: whatever requests arrive at whatever times, each that is accepted carries the response
  that the secret of the session gives for its method, its own address and a nonce valid at that time, and of two accepted
  requests with the same nonce and client nonce the later has the larger count. So no request is accepted twice.\<close>
theorem digest_accepts_genuine_once:
  "list_all (genuine d) (digest_log d requests) \<and> sorted_wrt counts_up (digest_log d requests)"
  using log_from by blast

subsection \<open>What a session does to the disk\<close>

lemma run_noting: "fst (fs_run (noting P) F cs (s, l)) = fs_run P F cs s"
proof -
  have opens: "fst (fst (fs_OpenFile (noting P) F x n m)) = fst (fs_OpenFile P F (fst x) n m)" for x :: "'a \<times> string list" and n m
    by (cases x) (auto simp: fs_OpenFile_def noting_def Let_def split: sum.split prod.split)
  have step: "fst (fs_step (noting P) F c x) = fs_step P F c (fst x)" for c and x :: "'a \<times> string list"
    using opens by (cases x) (auto simp: fs_step_def fs_Mkdir_def fs_RemoveAll_def fs_Rename_def fs_Stat_def noting_def
        case_prod_beta split: fs_call.split sum.split)
  have "fst (fold (fs_step (noting P) F) cs x) = fold (fs_step P F) cs (fst x)" for x
    by (induction cs arbitrary: x) (simp_all add: step)
  from this [of "(s, l)"] show ?thesis by (simp add: fs_run_def)
qed

text \<open>C5. Whatever calls a request makes on the file system of a WebDAV session, every path that is given to the secure
  root, for reading (Stat, ReadDir, Open) as for writing, is the exposed path or lies below it. On a disk without symbolic
  links nothing outside the directory of the root changes, and under the policy readOnly nothing changes at all.\<close>
theorem webdav_session_confined:
  assumes "usual_root root" "parents_exist d (root_dir root)" "\<forall>(q, n) \<in> set d. n \<noteq> NSymlink"
    and "cleanRelativePath exposed = Inr base"
  shows "\<exists>d' paths.
    fs_run (noting (rootResourceProvider env room csz (Some root))) (newSecureFileSystem base policy) calls (d, []) = (d', paths) \<and>
    d' = fs_run (rootResourceProvider env room csz (Some root)) (newSecureFileSystem base policy) calls d \<and>
    list_all (at_or_below base) paths \<and> same_outside (root_dir root) d d' \<and>
    (policy = WritePolicyReadOnly \<longrightarrow> d' = d)"
proof -
  let ?P = "rootResourceProvider env room csz (Some root)" and ?F = "newSecureFileSystem base policy"
  obtain d' paths where run: "fs_run (noting ?P) ?F calls (d, []) = (d', paths)" by fastforce
  have base: "clean_base exposed = base" using assms(4) by (simp add: clean_base_def)
  have "within_root base root d (d', paths)"
    using root_dav.run_inv [of ?F exposed root d "(d, [])" env room csz calls] run
    by (simp add: base newSecureFileSystem_def within_root_def)
  then have "list_all (at_or_below base) paths" "same_outside (root_dir root) d d'"
    using assms(1,2) by (auto simp: within_root_def)
  moreover have same: "d' = fs_run ?P ?F calls d" using run_noting [of ?P ?F calls d "[]"] run by simp
  moreover have "d' = d" if "policy = WritePolicyReadOnly"
    unfolding same using that root_reads_keep by (intro read_only_run) (simp_all add: newSecureFileSystem_def)
  ultimately show ?thesis using run by blast
qed

lemma webdav_session_confined_witness:
  "\<exists>d' paths. fs_run (noting (rootResourceProvider start_env 9 (\<lambda>_. 0) (Some sample_root))) (newSecureFileSystem ''docs'' [])
      [FsOpenFile ''/a'' excl_mode, FsStat ''/a'', FsRemoveAll ''/x/../../etc'', FsMkdir ''/sub'', FsRename ''/sub'' ''/../sub'']
      ([([''data''], NDir), ([''data'', ''docs''], NDir), ([''etc''], NFile [1])], []) = (d', paths) \<and>
    list_all (at_or_below ''docs'') paths \<and>
    same_outside [''data''] [([''data''], NDir), ([''data'', ''docs''], NDir), ([''etc''], NFile [1])] d'"
proof -
  let ?d = "[([''data''], NDir), ([''data'', ''docs''], NDir), ([''etc''], NFile [1])]"
  have p: "parents_exist ?d (root_dir sample_root)"
    unfolding sample_root_facts by (rule parents_exist_singleton)
  have c: "cleanRelativePath ''/docs/'' = Inr ''docs''" by code_simp
  have n: "\<forall>(q, n) \<in> set ?d. n \<noteq> NSymlink" by simp
  show ?thesis
    using webdav_session_confined [OF sample_root_facts(1) p n c, of start_env 9 "\<lambda>_. 0" "[]"
        "[FsOpenFile ''/a'' excl_mode, FsStat ''/a'', FsRemoveAll ''/x/../../etc'', FsMkdir ''/sub'', FsRename ''/sub'' ''/../sub'']"]
    unfolding sample_root_facts by blast
qed

subsection \<open>The policy of a session\<close>

lemma put_lookup [simp]: "map_of (m_sessions (put_session sid a m)) x = (if x = sid then Some a else map_of (m_sessions m) x)"
  by (simp add: put_session_def update_conv')

lemma newActive_simps [simp]:
  "as_session (newActiveSession s a v) = s" "as_auth (newActiveSession s a v) = a" "as_provider (newActiveSession s a v) = v"
  "as_mounted (newActiveSession s a v) = None" "as_activeRequests (newActiveSession s a v) = 0"
  "as_handler (newActiveSession s a v) = (''/webdav/'' @ sID s, newSecureFileSystem (sExposedPath s) (sWritePolicy s))"
  by (simp_all add: newActiveSession_def)

lemma opened_simps [simp]:
  "sID (opened_session sid k n p a l opts) = sid" "sWritePolicy (opened_session sid k n p a l opts) = []"
  "sReadOnly (opened_session sid k n p a l opts) = (oWritePolicy opts = WritePolicyReadOnly)"
  "sTLS (opened_session sid k n p a l opts) = oTLS opts" "sPort (opened_session sid k n p a l opts) = ls_port l"
  "sExposedPath (opened_session sid k n p a l opts) = p" "sAuthMode (opened_session sid k n p a l opts) = aMode a"
  by (simp_all add: opened_session_def no_session_def)

lemma open_locked_ok:
  assumes "open_locked N S rootKey displayName path v opts m = (m', Inr s)"
  shows "\<exists>sid auth l m1. s = opened_session sid rootKey displayName path auth l opts \<and>
    m' = put_session sid (newActiveSession s auth v) m1"
  using assms
  by (auto simp: open_locked_def Let_def split: if_splits prod.splits sum.splits option.splits)

lemma normalize_policy:
  "normalizeOpenOptions o0 = Inr opts \<Longrightarrow> oWritePolicy opts = WritePolicyReadOnly \<longleftrightarrow> oWritePolicy o0 = [] \<or> oWritePolicy o0 = WritePolicyReadOnly"
  by (auto simp: normalizeOpenOptions_def Let_def split: if_splits)

text \<open>C7. Every session that is opened lets writing requests through, also one that is opened without a write policy or
  with the policy readOnly and that reports itself as read-only: the policy is not copied into the session, so DELETE, PUT,
  MKCOL and MOVE are handed on, and the file system of the session removes what it is told to.\<close>
theorem read_only_session_writes:
  assumes "OpenWithOptions P N S rootKey displayName exposed provider opts m = (m', Inr s)"
  shows "(sReadOnly s \<longleftrightarrow> oWritePolicy opts = [] \<or> oWritePolicy opts = WritePolicyReadOnly) \<and>
    (\<exists>a. map_of (m_sessions m') (sID s) = Some a \<and> as_session a = s \<and>
      list_all (\<lambda>verb. dispatch a verb = Served a) write_methods \<and>
      fs_RemoveAll P (snd (as_handler a)) =
        (\<lambda>st name. case fs_resolve (snd (as_handler a)) name of Inl e \<Rightarrow> (st, Some e) | Inr p \<Rightarrow> p_RemoveAll P st p))"
proof -
  obtain o1 v path where o: "normalizeOpenOptions opts = Inr o1" "open_locked N S rootKey displayName path v o1 m = (m', Inr s)"
    using assms by (auto simp: OpenWithOptions_def split: sum.splits if_splits option.splits)
  obtain sid auth l m1 where s: "s = opened_session sid rootKey displayName path auth l o1"
    "m' = put_session sid (newActiveSession s auth v) m1"
    using open_locked_ok [OF o(2)] by blast
  let ?a = "newActiveSession s auth v"
  have "map_of (m_sessions m') (sID s) = Some ?a" using s by simp
  moreover have "list_all (\<lambda>verb. dispatch ?a verb = Served ?a) write_methods"
    using s(1) by (simp add: dispatch_def write_methods_def handler_methods_def dav_names)
  moreover have "fs_RemoveAll P (snd (as_handler ?a)) =
      (\<lambda>st name. case fs_resolve (snd (as_handler ?a)) name of Inl e \<Rightarrow> (st, Some e) | Inr p \<Rightarrow> p_RemoveAll P st p)"
    using s(1) by (simp add: fs_RemoveAll_def newSecureFileSystem_def dav_names fun_eq_iff)
  ultimately show ?thesis
    using s(1) normalize_policy [OF o(1)] by (intro conjI exI [of _ ?a]) simp_all
qed

definition ex_net :: net_env where
  "ex_net = \<lparr>net_Listen = (\<lambda>p. Inr \<lparr>ls_port = (if p = 0 then 40000 else p), ls_addr = ''127.0.0.1:40000'', ls_closeErr = None\<rparr>),
     net_TLS = None\<rparr>"

definition ex_store :: "(PersistentSession list) store_ops" where
  "ex_store = \<lparr>so_Load = (\<lambda>s k. Inr s), so_Save = (\<lambda>s k recs. (recs, None))\<rparr>"

definition ex_provider :: "(disk, unit, unit option) ResourceProvider" where
  "ex_provider = rootResourceProvider start_env 9 (\<lambda>_. 0) (Some sample_root)"

definition ex_dav :: "(disk, PersistentSession list) DavManager" where
  "ex_dav = NewManagerWithPersistentStore (replicate 200 7) []"

definition ex_root_disk :: disk where
  "ex_root_disk = [([''data''], NDir), ([''data'', ''docs''], NDir)]"

lemma ex_opened:
  "case OpenWithOptions ex_provider ex_net ex_store ''key'' ''Docs'' ''docs'' (Some ex_root_disk)
      (no_options\<lparr>oWritePolicy := WritePolicyReadOnly\<rparr>) ex_dav of (_, Inl _) \<Rightarrow> False | (_, Inr s) \<Rightarrow> sReadOnly s"
  by code_simp

lemma read_only_session_writes_witness:
  "\<exists>m' s a. OpenWithOptions ex_provider ex_net ex_store ''key'' ''Docs'' ''docs'' (Some ex_root_disk)
      (no_options\<lparr>oWritePolicy := WritePolicyReadOnly\<rparr>) ex_dav = (m', Inr s) \<and> sReadOnly s \<and>
    map_of (m_sessions m') (sID s) = Some a \<and> list_all (\<lambda>verb. dispatch a verb = Served a) write_methods"
  using ex_opened read_only_session_writes [of ex_provider ex_net ex_store "''key''" "''Docs''" "''docs''"
      "Some ex_root_disk" "no_options\<lparr>oWritePolicy := WritePolicyReadOnly\<rparr>" ex_dav]
  by (auto split: prod.splits sum.splits)

text \<open>The file system takes every opening for writing as the creation of a file: opening an existing file for reading and
  writing, as golang.org/x/net/webdav does for PROPPATCH, leaves it empty.\<close>

theorem OpenFile_rdwr_truncates:
  "fs_run (rootResourceProvider start_env 9 (\<lambda>_. 0) (Some sample_root)) (newSecureFileSystem [] WritePolicySilent)
    [FsOpenFile ''/f'' \<lparr>o_wronly = False, o_rdwr = True, o_create = False, o_excl = False, o_trunc = False, o_append = False\<rparr>]
    [([''data''], NDir), ([''data'', ''f''], NFile [1, 2, 3])] = [([''data''], NDir), ([''data'', ''f''], NFile [])]"
  by code_simp

subsection \<open>Credentials that are stored and restored\<close>

definition forget_counters :: "authState \<Rightarrow> authState" where
  "forget_counters a = a\<lparr>aDigest := map_option (\<lambda>d. d\<lparr>maxNC := Map.empty\<rparr>) (aDigest a)\<rparr>"

text \<open>Credentials as the manager makes them, with any counters.\<close>

definition auth_ok :: "authState \<Rightarrow> bool" where
  "auth_ok a \<longleftrightarrow> (\<exists>t. t \<noteq> [] \<and> a = bearer_auth t) \<or> (\<exists>u p. u \<noteq> [] \<and> p \<noteq> [] \<and> a = basic_auth u p) \<or>
    (\<exists>u p r k. u \<noteq> [] \<and> p \<noteq> [] \<and> r \<noteq> [] \<and> length k = 32 \<and> forget_counters a = digest_auth u p r k)"

lemma hex_Nil [simp]: "hex_EncodeToString d = [] \<longleftrightarrow> d = []"
  by (cases d) (auto simp: hex_EncodeToString_def)

lemma newValue_ne: "0 < n \<Longrightarrow> newValueLocked n rnd = (r, Inr v) \<Longrightarrow> v \<noteq> []"
  by (auto simp: newValueLocked_def read_full_def split: if_splits)

lemma forget_simps [simp]: "forget_counters (bearer_auth t) = bearer_auth t" "forget_counters (basic_auth u p) = basic_auth u p"
  "forget_counters (digest_auth u p r k) = digest_auth u p r k" "forget_counters (forget_counters a) = forget_counters a"
  by (simp_all add: forget_counters_def bearer_auth_def basic_auth_def digest_auth_def no_auth_def option.map_comp comp_def)

lemma auth_okI: "t \<noteq> [] \<Longrightarrow> auth_ok (bearer_auth t)" "u \<noteq> [] \<Longrightarrow> p \<noteq> [] \<Longrightarrow> auth_ok (basic_auth u p)"
  "u \<noteq> [] \<Longrightarrow> p \<noteq> [] \<Longrightarrow> r \<noteq> [] \<Longrightarrow> length k = 32 \<Longrightarrow> auth_ok (digest_auth u p r k)"
  unfolding auth_ok_def by (metis forget_simps(3))+

lemma modes_differ [simp]: "AuthModeDigest \<noteq> AuthModeBearer" "AuthModeBasic \<noteq> AuthModeBearer" "AuthModeBasic \<noteq> AuthModeDigest"
  "AuthModeBearer \<noteq> AuthModeDigest" "AuthModeBearer \<noteq> AuthModeBasic" "AuthModeDigest \<noteq> AuthModeBasic"
  by (simp_all add: dav_names)

lemma draw_ok: "0 < n \<Longrightarrow> draw n rnd k = (r, Inr x) \<Longrightarrow> \<exists>v y. v \<noteq> [] \<and> k v y = (r, Inr x)"
  unfolding draw_def by (auto split: prod.splits sum.splits dest: newValue_ne)

lemma newAuth_cases:
  assumes "newAuthLocked mode rnd = (r, Inr a)"
  shows "(\<exists>t. t \<noteq> [] \<and> a = bearer_auth t) \<or> (\<exists>u p. u \<noteq> [] \<and> p \<noteq> [] \<and> a = basic_auth u p) \<or>
    (\<exists>u p r k. u \<noteq> [] \<and> p \<noteq> [] \<and> r \<noteq> [] \<and> length k = 32 \<and> a = digest_auth u p r k)"
proof -
  let ?m = "or_default mode AuthModeBearer"
  consider "?m = AuthModeBearer" | "?m = AuthModeDigest" | "?m = AuthModeBasic"
    using assms by (auto simp: newAuthLocked_def Let_def split: if_splits)
  then show ?thesis
  proof cases
    case 1
    then show ?thesis using assms by (auto simp: newAuthLocked_def Let_def dest: draw_ok [rotated])
  next
    case 2
    then have "draw 12 rnd (\<lambda>username r. draw 24 r (\<lambda>password r. draw 12 r (\<lambda>realm r.
         case read_full 32 r of (r, None) \<Rightarrow> (r, Inl ErrDavRandom)
         | (r, Some key) \<Rightarrow> (r, Inr (digest_auth username password realm key))))) = (r, Inr a)"
      using assms by (simp add: newAuthLocked_def)
    from draw_ok [OF _ this] obtain u y1 where 1: "u \<noteq> []" "draw 24 y1 (\<lambda>password r. draw 12 r (\<lambda>realm r.
         case read_full 32 r of (r, None) \<Rightarrow> (r, Inl ErrDavRandom)
         | (r, Some key) \<Rightarrow> (r, Inr (digest_auth u password realm key)))) = (r, Inr a)" by auto
    from draw_ok [OF _ this(2)] obtain p y2 where 2: "p \<noteq> []" "draw 12 y2 (\<lambda>realm r.
         case read_full 32 r of (r, None) \<Rightarrow> (r, Inl ErrDavRandom)
         | (r, Some key) \<Rightarrow> (r, Inr (digest_auth u p realm key))) = (r, Inr a)" by auto
    from draw_ok [OF _ this(2)] obtain q y3 where "q \<noteq> []"
      "(case read_full 32 y3 of (r, None) \<Rightarrow> (r, Inl ErrDavRandom)
         | (r, Some key) \<Rightarrow> (r, Inr (digest_auth u p q key))) = (r, Inr a)" by auto
    then have "q \<noteq> []" "length (take 32 y3) = 32" "a = digest_auth u p q (take 32 y3)"
      by (auto simp: read_full_def split: if_splits)
    with 1(1) 2(1) show ?thesis by blast
  next
    case 3
    then show ?thesis using assms by (fastforce simp: newAuthLocked_def Let_def dest!: draw_ok [rotated])
  qed
qed

lemma newAuth_ok: "newAuthLocked mode rnd = (r, Inr a) \<Longrightarrow> auth_ok a" "newAuthLocked mode rnd = (r, Inr a) \<Longrightarrow> forget_counters a = a"
  by (drule newAuth_cases, elim disjE exE conjE; simp add: auth_okI)+

lemma mode_simps [simp]: "aMode (bearer_auth t) = AuthModeBearer" "aMode (basic_auth u p) = AuthModeBasic"
  "aMode (digest_auth u p r k) = AuthModeDigest"
  by (simp_all add: bearer_auth_def basic_auth_def digest_auth_def)

lemma authFromPersistent_ok: "authFromPersistent rec = Inr a \<Longrightarrow> auth_ok a \<and> aMode a = psAuthMode rec"
  by (auto simp: authFromPersistent_def auth_okI split: if_splits option.splits)

lemma forget_mode [simp]: "aMode (forget_counters a) = aMode a"
  by (simp add: forget_counters_def)

lemma forget_digest:
  assumes "forget_counters a = digest_auth u p r k"
  obtains d where "aDigest a = Some d" "dKey d = k"
proof -
  have "map_option (\<lambda>d. d\<lparr>maxNC := Map.empty\<rparr>) (aDigest a) =
      Some \<lparr>dUsername = u, dPassword = p, dRealm = r, dKey = k, maxNC = Map.empty\<rparr>"
    using arg_cong [OF assms, of aDigest] by (simp add: forget_counters_def digest_auth_def)
  then obtain d where "aDigest a = Some d"
    "d\<lparr>maxNC := Map.empty\<rparr> = \<lparr>dUsername = u, dPassword = p, dRealm = r, dKey = k, maxNC = Map.empty\<rparr>"
    by blast
  moreover from arg_cong [OF this(2), of dKey] have "dKey d = k" by simp
  ultimately show ?thesis using that by blast
qed

lemma verify_again:
  assumes "digest_verify d r t = (d', True, stale)" "fst (validNonce d (fld (request_fields r) ''nonce'') t')"
  shows "digest_verify (d\<lparr>maxNC := Map.empty\<rparr>) r t' =
    (d\<lparr>maxNC := [nc_key (request_fields r) \<mapsto> request_nc r]\<rparr>, True, False)"
proof -
  obtain y where y: "validNonce d (fld (request_fields r) ''nonce'') t' = (True, y)"
    using assms(2) by (cases "validNonce d (fld (request_fields r) ''nonce'') t'") auto
  obtain f n where f: "parseDigestAuthorization (rAuthorization r) = Inr f" "EqualFold (fld f ''algorithm'') ''SHA-256''"
    "fld f ''qop'' = ''auth''" "fld f ''username'' = dUsername d" "fld f ''realm'' = dRealm d"
    "fld f ''uri'' = rRequestURI r" "length (fld f ''nc'') = 8"
    "hex_number 0 (fld f ''nc'') = Some n" "n \<noteq> 0" "fld f ''cnonce'' \<noteq> []" "isLowerHex (fld f ''response'') 64"
    "digest_response d (rMethod r) f = fld f ''response''"
    using assms(1)
    by (auto simp: digest_verify_def Let_def split: sum.splits if_splits prod.splits option.splits bool.splits)
  then have "request_fields r = f" by (simp add: request_fields_def)
  with f y show ?thesis by (simp add: digest_verify_def request_nc_def Let_def)
qed

text \<open>C12. A session that is stored in the persistent store and restored has its identity, its exposed path and its
  credentials again; the flag that it is read-only is lost, and so are the counters of a digest: each request that the
  session accepted at a time \<open>t\<close> before the restart is accepted again after it, at any time \<open>t'\<close> at which its nonce is valid.\<close>
theorem restored_session_credentials:
  assumes "newAuthLocked mode rnd = (rnd', Inr auth)" "forget_counters (as_auth a) = auth"
    and "as_session a = opened_session sid rootKey name path auth l opts"
  shows "authFromPersistent (persistentRecordFromActive a) = Inr auth \<and>
    restored_session rootKey (persistentRecordFromActive a) l' = (as_session a)\<lparr>sReadOnly := False,
      sURL := webdavURLScheme (oTLS opts) @ ls_addr l' @ ''/webdav/'' @ sid @ ''/'', sSessionLifetime := SessionLifetimePersistent\<rparr> \<and>
    (\<forall>d d' last r t t' stale. digest_verify d r t = (d', True, stale) \<and>
      aDigest (as_auth a) = Some last \<and> last\<lparr>maxNC := Map.empty\<rparr> = d\<lparr>maxNC := Map.empty\<rparr> \<and>
      fst (validNonce last (fld (request_fields r) ''nonce'') t') \<longrightarrow>
      (\<exists>d''. digest_verify (the (aDigest auth)) r t' = (d'', True, False)))"
proof (intro conjI allI impI)
  have ok: "auth_ok auth" "forget_counters auth = auth" using newAuth_ok [OF assms(1)] by auto
  have m: "aMode (as_auth a) = aMode auth" using assms(2) by (metis forget_mode)
  consider t where "t \<noteq> []" "auth = bearer_auth t" | u p where "u \<noteq> []" "p \<noteq> []" "auth = basic_auth u p"
    | u p r k where "u \<noteq> []" "p \<noteq> []" "r \<noteq> []" "length k = 32" "auth = digest_auth u p r k"
    using ok by (auto simp: auth_ok_def)
  then show "authFromPersistent (persistentRecordFromActive a) = Inr auth"
  proof cases
    case (1 t)
    with m assms(3) show ?thesis
      by (simp add: authFromPersistent_def persistentRecordFromActive_def Let_def opened_session_def) (simp add: bearer_auth_def)?
  next
    case (2 u p)
    then have "aBasicUsername (forget_counters (as_auth a)) = u" "aBasicPassword (forget_counters (as_auth a)) = p"
      using assms(2) by (simp_all add: basic_auth_def)
    then have "aBasicUsername (as_auth a) = u" "aBasicPassword (as_auth a) = p" by (simp_all add: forget_counters_def)
    with 2 m assms(3) show ?thesis
      by (simp add: authFromPersistent_def persistentRecordFromActive_def Let_def opened_session_def)
  next
    case (3 u p r k)
    then obtain d where "aDigest (as_auth a) = Some d" "dKey d = k"
      using forget_digest [of "as_auth a" u p r k] assms(2) by metis
    moreover have "k \<noteq> []" using 3(4) by auto
    moreover have "aUsername auth = u" "aPassword auth = p" "aRealm auth = r" using 3 by (simp_all add: digest_auth_def)
    ultimately show ?thesis
      using 3 m assms(3)
      by (simp add: authFromPersistent_def persistentRecordFromActive_def Let_def opened_session_def dav_names)
  qed
  show "restored_session rootKey (persistentRecordFromActive a) l' = (as_session a)\<lparr>sReadOnly := False,
      sURL := webdavURLScheme (oTLS opts) @ ls_addr l' @ ''/webdav/'' @ sid @ ''/'', sSessionLifetime := SessionLifetimePersistent\<rparr>"
    by (simp add: assms(3) restored_session_def persistentRecordFromActive_def Let_def opened_session_def no_session_def)
  fix d d' last r t t' stale
  assume *: "digest_verify d r t = (d', True, stale) \<and> aDigest (as_auth a) = Some last \<and>
    last\<lparr>maxNC := Map.empty\<rparr> = d\<lparr>maxNC := Map.empty\<rparr> \<and> fst (validNonce last (fld (request_fields r) ''nonce'') t')"
  then have "aDigest auth = Some (d\<lparr>maxNC := Map.empty\<rparr>)"
    unfolding assms(2) [symmetric] forget_counters_def by simp
  moreover have "validNonce last = validNonce d"
    using * counters_irrelevant(1) by metis
  ultimately show "\<exists>d''. digest_verify (the (aDigest auth)) r t' = (d'', True, False)"
    using * verify_again [of d r t d' stale t'] by auto
qed

definition ex_digest :: authState where
  "ex_digest = (case snd (newAuthLocked AuthModeDigest (replicate 80 7)) of Inr a \<Rightarrow> a | Inl _ \<Rightarrow> no_auth)"

definition ex_options :: DavOptions where
  "ex_options = no_options\<lparr>oAuthMode := AuthModeDigest, oWritePolicy := WritePolicyReadOnly\<rparr>"

definition ex_listener :: listenerState where
  "ex_listener = \<lparr>ls_port = 40000, ls_addr = ''127.0.0.1:40000'', ls_closeErr = None\<rparr>"

text \<open>The session after a request with the count 5.\<close>

definition ex_active :: "unit activeSession" where
  "ex_active = (newActiveSession (opened_session ''s1'' ''key'' ''Docs'' ''docs'' ex_digest ex_listener ex_options) ex_digest ())
    \<lparr>as_auth := ex_digest\<lparr>aDigest := map_option (\<lambda>d. d\<lparr>maxNC := [''n'' \<mapsto> 5]\<rparr>) (aDigest ex_digest)\<rparr>\<rparr>"

lemma restored_session_credentials_witness:
  "authFromPersistent (persistentRecordFromActive ex_active) = Inr ex_digest \<and>
    sReadOnly (as_session ex_active) \<and>
    \<not> sReadOnly (restored_session ''key'' (persistentRecordFromActive ex_active) ex_listener)"
proof -
  have new: "newAuthLocked AuthModeDigest (replicate 80 7) = ([], Inr ex_digest)"
    by (simp add: ex_digest_def newAuthLocked_def draw_def newValueLocked_def read_full_def or_default_def dav_names)
  have forget: "forget_counters (as_auth ex_active) = ex_digest"
    using newAuth_ok(2) [OF new]
    by (simp add: ex_active_def forget_counters_def option.map_comp comp_def)
  have session: "as_session ex_active = opened_session ''s1'' ''key'' ''Docs'' ''docs'' ex_digest ex_listener ex_options"
    by (simp add: ex_active_def)
  have "sReadOnly (as_session ex_active)" by (simp add: session ex_options_def)
  with restored_session_credentials [OF new forget session, of ex_listener] show ?thesis by simp
qed

subsection \<open>The invariant of the session table\<close>

definition session_ok :: "('v, 's) DavManager \<Rightarrow> string \<times> 'v activeSession \<Rightarrow> bool" where
  "session_ok m = (\<lambda>(sid, a). let s = as_session a in
     sID s = sid \<and> sAuthMode s = aMode (as_auth a) \<and> auth_ok (as_auth a) \<and> 0 \<le> as_activeRequests a \<and>
     as_handler a = (''/webdav/'' @ sid, newSecureFileSystem (sExposedPath s) (sWritePolicy s)) \<and>
     map_option ls_port (listener_of (sTLS s) m) = Some (sPort s))"

definition dav_ok :: "('v, 's) DavManager \<Rightarrow> bool" where
  "dav_ok m \<longleftrightarrow> distinct (map fst (m_sessions m)) \<and>
     (\<forall>sid a. map_of (m_sessions m) sid = Some a \<longrightarrow> session_ok m (sid, a))"

text \<open>The operations of a manager, with what they are told by the system.\<close>

datatype 'p dav_op =
    DavOpen net_env string string string "'p option" DavOptions
  | DavRestore net_env string 'p
  | DavRevoke string
  | DavRevokeRoot string
  | DavClose
  | DavMounted string nat
  | DavUnmounted string nat
  | DavRequest http_request int
  | DavRelease string

definition dav_step :: "('p, 'r, 'w) ResourceProvider \<Rightarrow> 's store_ops \<Rightarrow> 'p dav_op \<Rightarrow> ('p, 's) DavManager \<Rightarrow> ('p, 's) DavManager" where
  "dav_step P S op m =
    (case op of
       DavOpen N k n e v opts \<Rightarrow> fst (OpenWithOptions P N S k n e v opts m)
     | DavRestore N k v \<Rightarrow> fst (RestorePersistent P N S k v m)
     | DavRevoke sid \<Rightarrow> fst (Revoke S sid m)
     | DavRevokeRoot k \<Rightarrow> fst (RevokeRoot k m)
     | DavClose \<Rightarrow> fst (dav_Close m)
     | DavMounted sid k \<Rightarrow> fst (mount_install sid k m)
     | DavUnmounted sid k \<Rightarrow> unmount_finish sid k m
     | DavRequest r t \<Rightarrow> fst (dav_handle r t m)
     | DavRelease sid \<Rightarrow> releaseRequest sid m)"

text \<open>Listening on a port other than 0 gives a listener on that port.\<close>

definition net_ok :: "net_env \<Rightarrow> bool" where
  "net_ok N \<longleftrightarrow> (\<forall>p l. net_Listen N p = Inr l \<longrightarrow> p = 0 \<or> ls_port l = p)"

fun op_net_ok :: "'p dav_op \<Rightarrow> bool" where
  "op_net_ok (DavOpen N k n e v opts) = net_ok N"
| "op_net_ok (DavRestore N k v) = net_ok N"
| "op_net_ok _ = True"

definition same_listeners :: "('v, 's) DavManager \<Rightarrow> ('v, 's) DavManager \<Rightarrow> bool" where
  "same_listeners m m' \<longleftrightarrow> m_httpState m' = m_httpState m \<and> m_httpsState m' = m_httpsState m"

lemma session_ok_same: "same_listeners m m' \<Longrightarrow> session_ok m' = session_ok m"
  by (simp add: same_listeners_def session_ok_def listener_of_def fun_eq_iff)

lemma dav_ok_same: "same_listeners m m' \<Longrightarrow> m_sessions m' = m_sessions m \<Longrightarrow> dav_ok m \<Longrightarrow> dav_ok m'"
  by (simp add: dav_ok_def session_ok_same)

lemma dav_ok_put:
  assumes "dav_ok m" "session_ok m (sid, a)"
  shows "dav_ok (put_session sid a m)"
proof -
  have "same_listeners m (put_session sid a m)" by (simp add: same_listeners_def put_session_def)
  from session_ok_same [OF this] show ?thesis
    using assms by (auto simp: dav_ok_def) (simp add: put_session_def distinct_update)
qed

lemma dav_ok_sub:
  assumes "dav_ok m" "distinct (map fst l)" "set l \<subseteq> set (m_sessions m)"
  shows "dav_ok (m\<lparr>m_sessions := l\<rparr>)"
proof -
  have "session_ok (m\<lparr>m_sessions := l\<rparr>) = session_ok m" by (rule session_ok_same) (simp add: same_listeners_def)
  moreover have "map_of (m_sessions m) sid = Some a" if "map_of l sid = Some a" for sid a
    using that assms by (auto simp: dav_ok_def dest!: map_of_SomeD intro!: map_of_is_SomeI)
  ultimately show ?thesis using assms by (auto simp: dav_ok_def)
qed

lemma ensure_ok:
  assumes "ensureServerLocked N tls port m = (m1, r)" "dav_ok m" "net_ok N"
  shows "dav_ok m1" "m_sessions m1 = m_sessions m"
    "r = Inr l \<Longrightarrow> listener_of tls m1 = Some l \<and> (port = 0 \<or> ls_port l = port)"
proof -
  have set: "dav_ok (set_listener tls (Some l) m)" if "listener_of tls m = None" for l
    using that assms(2)
    by (fastforce simp: dav_ok_def session_ok_def set_listener_def listener_of_def Let_def split: if_splits)
  show "dav_ok m1"
    using assms set by (auto simp: ensureServerLocked_def split: option.splits sum.splits if_splits)
  show "m_sessions m1 = m_sessions m"
    using assms(1) by (auto simp: ensureServerLocked_def set_listener_def split: option.splits sum.splits if_splits)
  show "listener_of tls m1 = Some l \<and> (port = 0 \<or> ls_port l = port)" if "r = Inr l"
    using assms that
    by (auto simp: ensureServerLocked_def set_listener_def listener_of_def net_ok_def split: option.splits sum.splits if_splits)
qed

lemma stop_ok:
  assumes "dav_ok m"
  shows "dav_ok (stopIfIdleLocked m)"
proof -
  have count: "count_scheme (sTLS (as_session a)) m \<noteq> 0" if "map_of (m_sessions m) sid = Some a" for sid a
    using map_of_SomeD [OF that] by (auto simp: count_scheme_def filter_empty_conv)
  have "session_ok (stopIfIdleLocked m) (sid, a)" if a: "map_of (m_sessions m) sid = Some a" for sid a
  proof -
    have "listener_of (sTLS (as_session a)) (stopIfIdleLocked m) = listener_of (sTLS (as_session a)) m"
      using count [OF a] by (cases "sTLS (as_session a)") (simp_all add: stopIfIdleLocked_def listener_of_def Let_def)
    moreover have "session_ok m (sid, a)" using assms a by (simp add: dav_ok_def)
    ultimately show ?thesis by (simp add: session_ok_def Let_def)
  qed
  moreover have "m_sessions (stopIfIdleLocked m) = m_sessions m" by (simp add: stopIfIdleLocked_def Let_def)
  ultimately show ?thesis using assms by (simp add: dav_ok_def)
qed

lemma store_same:
  "savePersistentLocked S a m = (m', e) \<Longrightarrow> same_listeners m m' \<and> m_sessions m' = m_sessions m"
  "deletePersistentLocked S k sid m = (m', e) \<Longrightarrow> same_listeners m m' \<and> m_sessions m' = m_sessions m"
  by (auto simp: savePersistentLocked_def deletePersistentLocked_def same_listeners_def Let_def split: option.splits sum.splits prod.splits)

lemma new_session_ok:
  "auth_ok auth \<Longrightarrow> sID s = sid \<Longrightarrow> sAuthMode s = aMode auth \<Longrightarrow> map_option ls_port (listener_of (sTLS s) m) = Some (sPort s) \<Longrightarrow>
    session_ok m (sid, newActiveSession s auth v)"
  by (simp add: session_ok_def)

lemma open_ok:
  assumes "dav_ok m" "net_ok N"
  shows "dav_ok (fst (open_locked N S k n path v opts m))"
proof -
  obtain m1 r where e: "ensureServerLocked N (oTLS opts) (oPort opts) m = (m1, r)" by fastforce
  note en = ensure_ok [OF e assms]
  have random: "dav_ok (m1\<lparr>m_random := x\<rparr>)" for x
    by (rule dav_ok_same [OF _ _ en(1)]) (simp_all add: same_listeners_def)
  have put: "dav_ok (put_session sid (newActiveSession (opened_session sid k n path auth l opts) auth v) m3)"
    if "r = Inr l" "newAuthLocked (oAuthMode opts) y = (rnd, Inr auth)" "same_listeners (m1\<lparr>m_random := x\<rparr>) m3"
      "m_sessions m3 = m_sessions m1" for sid l y rnd auth x m3
  proof (rule dav_ok_put)
    show "dav_ok m3" by (rule dav_ok_same [OF that(3) _ random]) (simp add: that(4))
    have "map_option ls_port (listener_of (oTLS opts) m3) = Some (ls_port l)"
      using en(3) [OF that(1)] that(3) by (simp add: listener_of_def same_listeners_def split: if_splits)
    then show "session_ok m3 (sid, newActiveSession (opened_session sid k n path auth l opts) auth v)"
      using newAuth_ok(1) [OF that(2)] by (intro new_session_ok) simp_all
  qed
  show ?thesis
  proof (cases r)
    case (Inl x)
    then show ?thesis using e en(1) assms(1) by (simp add: open_locked_def)
  next
    case (Inr l)
    obtain rnd v1 where nv: "newValueLocked 18 (m_random m1) = (rnd, v1)" by fastforce
    obtain rnd' v2 where na: "newAuthLocked (oAuthMode opts) rnd = (rnd', v2)" by fastforce
    consider "isl v1 \<or> isl v2" | sid auth where "v1 = Inr sid" "v2 = Inr auth" by (cases v1; cases v2) auto
    then show ?thesis
    proof cases
      case 1
      then show ?thesis
        using e nv na Inr random assms(1) by (cases v1; cases v2) (auto simp: open_locked_def Let_def)
    next
      case (2 sid auth)
      let ?m2 = "m1\<lparr>m_random := rnd'\<rparr>" and ?a = "newActiveSession (opened_session sid k n path auth l opts) auth v"
      obtain m3 er where sv: "savePersistentLocked S ?a ?m2 = (m3, er)" by fastforce
      note same = store_same(1) [OF sv]
      have "dav_ok m3" by (rule dav_ok_same [OF _ _ random]) (use same in auto)
      moreover have "dav_ok (put_session sid ?a m3)" "dav_ok (put_session sid ?a ?m2)"
        using put [OF Inr na [unfolded 2]] same by (auto simp: same_listeners_def)
      ultimately show ?thesis
        using e nv na Inr 2 sv assms(1) stop_ok by (auto simp: open_locked_def Let_def split: option.splits)
    qed
  qed
qed

lemma verify_secret: "digest_verify d r t = (d', ok, stale) \<Longrightarrow> d'\<lparr>maxNC := Map.empty\<rparr> = d\<lparr>maxNC := Map.empty\<rparr>"
  using verify_accepts(3) [of d r t d' stale] verify_refuses [of d r t d' stale] by (cases ok) auto

lemma authenticate_ok:
  assumes "authenticateLocked a r t rnd = (a', rnd', ch, ok)" "auth_ok a"
  shows "auth_ok a'" "aMode a' = aMode a"
proof -
  have "forget_counters a' = forget_counters a \<and> (a' = a \<or> aMode a = AuthModeDigest) \<and> aMode a' = aMode a"
    using assms(1)
    by (auto simp: authenticateLocked_def forget_counters_def dest: verify_secret split: if_splits option.splits prod.splits)
  then show "auth_ok a'" "aMode a' = aMode a"
    using assms(2) by (auto simp: auth_ok_def)
qed

lemma acquire_ok:
  assumes "acquireAuthorized sid r t m = (m', res)" "dav_ok m"
  shows "dav_ok m'"
  using assms
proof (cases "map_of (m_sessions m) sid")
  case (Some a)
  obtain auth rnd ch ok where au: "authenticateLocked (as_auth a) r t (m_random m) = (auth, rnd, ch, ok)"
    using prod_cases4 by blast
  have s: "session_ok m (sid, a)" using assms(2) Some by (simp add: dav_ok_def)
  let ?m1 = "m\<lparr>m_random := rnd\<rparr>"
  have same: "same_listeners m ?m1" by (simp add: same_listeners_def)
  have m1: "dav_ok ?m1" by (rule dav_ok_same [OF same _ assms(2)]) simp
  have "session_ok ?m1 (sid, a\<lparr>as_auth := auth, as_lastAccessedAt := Some t, as_activeRequests := as_activeRequests a + 1\<rparr>)"
    using s authenticate_ok [OF au] unfolding session_ok_same [OF same] by (simp add: session_ok_def Let_def)
  from dav_ok_put [OF m1 this] m1 assms(1) Some au show ?thesis
    by (auto simp: acquireAuthorized_def Let_def split: if_splits)
qed (simp add: acquireAuthorized_def)

lemma update_session_ok:
  assumes "dav_ok m" "map_of (m_sessions m) sid = Some a" "as_session b = as_session a" "as_auth b = as_auth a"
    "as_handler b = as_handler a" "0 \<le> as_activeRequests b"
  shows "dav_ok (put_session sid b m)"
  using assms by (intro dav_ok_put) (auto simp: dav_ok_def session_ok_def Let_def)

lemma requests_ok: "dav_ok m \<Longrightarrow> map_of (m_sessions m) sid = Some a \<Longrightarrow> 0 \<le> as_activeRequests a"
  by (auto simp: dav_ok_def session_ok_def Let_def)

lemma release_ok: "dav_ok m \<Longrightarrow> dav_ok (releaseRequest sid m)"
  using requests_ok [of m sid] unfolding releaseRequest_def
  by (auto split: option.split intro!: update_session_ok)

lemma handle_ok: "dav_ok m \<Longrightarrow> dav_ok (fst (dav_handle r t m))"
  by (auto simp: dav_handle_def release_ok dest: acquire_ok split: list.splits prod.splits sum.splits dav_answer.splits)

lemma restore_ok:
  assumes "dav_ok m" "net_ok N"
  shows "dav_ok (fst (restorePersistent P N k v rec m))"
proof (cases "\<exists>auth m1 l. authFromPersistent rec = Inr auth \<and> 0 < psPort rec \<and>
    ensureServerLocked N (psTLS rec) (psPort rec) m = (m1, Inr l)")
  case True
  then obtain auth m1 l where a: "authFromPersistent rec = Inr auth" "0 < psPort rec"
    "ensureServerLocked N (psTLS rec) (psPort rec) m = (m1, Inr l)" by blast
  note en = ensure_ok [OF a(3) assms]
  have "session_ok m1 (psID rec, newActiveSession (restored_session k rec l) auth v)"
    using authFromPersistent_ok [OF a(1)] en(3) [OF refl] a(2) by (intro new_session_ok) (auto simp: restored_session_def)
  from dav_ok_put [OF en(1) this] a assms show ?thesis
    by (auto simp: restorePersistent_def split: sum.splits)
next
  case False
  then show ?thesis
    using assms ensure_ok(1) [OF _ assms] by (auto simp: restorePersistent_def not_le split: sum.splits prod.splits)
qed

lemma restore_all_ok: "dav_ok m \<Longrightarrow> net_ok N \<Longrightarrow> dav_ok (fst (restore_all P N k v recs m))"
proof (induction recs arbitrary: m)
  case (Cons x recs)
  then show ?case using restore_ok [OF Cons.prems, of P k v x] by (auto simp: case_prod_beta)
qed simp

lemma revoke_ok:
  assumes "dav_ok m"
  shows "dav_ok (fst (Revoke S sid m))"
proof (cases "map_of (m_sessions m) sid")
  case (Some a)
  let ?m1 = "m\<lparr>m_sessions := AList.delete sid (m_sessions m)\<rparr>"
  have m1: "dav_ok ?m1"
    by (rule dav_ok_sub [OF assms]) (use assms in \<open>auto simp: dav_ok_def AList.delete_eq distinct_map_filter\<close>)
  obtain m2 e where d: "deletePersistentLocked S (sRootKey (as_session a)) sid ?m1 = (m2, e)" by fastforce
  have "dav_ok m2" by (rule dav_ok_same [OF _ _ m1]) (use store_same(2) [OF d] in auto)
  with m1 d Some stop_ok show ?thesis by (auto simp: Revoke_def Let_def)
qed (simp add: Revoke_def assms)

lemma step_ok:
  assumes "dav_ok m" "op_net_ok op"
  shows "dav_ok (dav_step P S op m)"
proof (cases op)
  case (DavOpen N k n e v opts)
  then show ?thesis
    using assms open_ok by (auto simp: dav_step_def OpenWithOptions_def split: sum.splits option.splits)
next
  case (DavRestore N k v)
  then show ?thesis
    using assms restore_all_ok by (auto simp: dav_step_def RestorePersistent_def split: sum.splits option.splits)
next
  case (DavRevokeRoot k)
  have "dav_ok (m\<lparr>m_sessions := filter (\<lambda>(_, a). sRootKey (as_session a) \<noteq> k) (m_sessions m)\<rparr>)"
    by (rule dav_ok_sub [OF assms(1)]) (use assms(1) in \<open>auto simp: dav_ok_def distinct_map_filter\<close>)
  with DavRevokeRoot stop_ok show ?thesis by (simp add: dav_step_def RevokeRoot_def Let_def)
next
  case (DavMounted sid k)
  then show ?thesis
    using assms(1) requests_ok [OF assms(1), of sid] DavMounted
    by (auto simp: dav_step_def mount_install_def split: option.splits intro!: update_session_ok)
next
  case (DavUnmounted sid k)
  then show ?thesis
    using assms(1) requests_ok [OF assms(1), of sid] DavUnmounted
    by (auto simp: dav_step_def unmount_finish_def split: option.splits intro!: update_session_ok)
next
  case DavClose
  then show ?thesis by (simp add: dav_step_def dav_Close_def dav_ok_def Let_def)
qed (use assms revoke_ok handle_ok release_ok in \<open>auto simp: dav_step_def\<close>)

text \<open>C6. After any sequence of operations of a manager (sessions are opened, restored, revoked, mounted, and answer
  requests), the sessions have distinct identities, each has complete credentials of its mode, the file system of its
  exposed path, and a running listener of its scheme on its port.\<close>
theorem session_table_ok:
  assumes "list_all op_net_ok ops"
  shows "dav_ok (fold (dav_step P S) ops (NewManagerWithPersistentStore rnd store))"
proof -
  have "dav_ok (fold (dav_step P S) ops m)" if "dav_ok m" for m
    using assms that by (induction ops arbitrary: m) (auto intro: step_ok)
  then show ?thesis
    by (simp add: dav_ok_def NewManagerWithPersistentStore_def NewDavManager_def)
qed

lemma session_table_ok_witness:
  "dav_ok (fold (dav_step ex_provider ex_store) [DavOpen ex_net ''key'' ''Docs'' ''docs'' (Some ex_root_disk) no_options,
      DavRevokeRoot ''key''] ex_dav)"
proof -
  have "list_all op_net_ok [DavOpen ex_net ''key'' ''Docs'' ''docs'' (Some ex_root_disk) no_options, DavRevokeRoot ''key'']"
    by (simp add: net_ok_def ex_net_def)
  from session_table_ok [OF this, of ex_provider ex_store "replicate 200 7" "[]"] show ?thesis
    by (simp add: ex_dav_def)
qed

end
