(* ===== verification/TransferFiles.thy ===== *)
theory TransferFiles
  imports Convert RootFactory
begin

text \<open>
  Importing and exporting: src/native/sec_fs/sec_transfer/v3, manager.go with durability.go (the
  operations on a root) and symlink_guard.go. The programs are those of TransferDisk; a root is the
  interface of CopyEntry with the methods that a transfer calls besides. What the reads of an open file
  and the calls of \<^verbatim>\<open>Next\<close> give is taken when the file or the walk is opened, as in CopyEntry and
  DirWalker; a read or a look at the context in between can still fail. Progress reports change nothing
  and are left out.
\<close>

subsection \<open>Roots\<close>

type_synonym walked = "string \<times> node"

record 'f TransferRoot = "'f ISecRoot" +
  i_GetStorePath :: "string \<Rightarrow> root_error + string"
  i_Walk :: "disk \<Rightarrow> string \<Rightarrow> WalkOption list \<Rightarrow> (walk_or_root + walked list \<times> walk_err) option"

text \<open>A call that changes the disk, with what is done of it by a fault, and one that reads it.\<close>

definition root_act ::
  "string \<Rightarrow> (nat \<Rightarrow> disk \<Rightarrow> disk) \<Rightarrow> (disk \<Rightarrow> disk \<times> root_error option) \<Rightarrow> transfer_error option io" where
  "root_act op part f = State (\<lambda>s. case faults s of
     Some n # fs \<Rightarrow> (let d = part n (dsk s) in (Some (TCall op Faulted), s\<lparr>dsk := d, seen := d # seen s, faults := fs\<rparr>))
   | fs \<Rightarrow> (case f (dsk s) of (d, e) \<Rightarrow>
       (map_option (TRoot op) e, s\<lparr>dsk := d, seen := d # seen s, faults := tl fs\<rparr>)))"

definition root_ask :: "string \<Rightarrow> (disk \<Rightarrow> root_error + 'a) \<Rightarrow> (transfer_error + 'a) io" where
  "root_ask op f = State (\<lambda>s. case faults s of
     Some n # fs \<Rightarrow> (Inl (TCall op Faulted), s\<lparr>faults := fs\<rparr>)
   | fs \<Rightarrow> (map_sum (TRoot op) id (f (dsk s)), s\<lparr>faults := tl fs\<rparr>))"

definition root_open :: "'f TransferRoot \<Rightarrow> string \<Rightarrow> open_mode \<Rightarrow> (transfer_error + 'f) io" where
  "root_open rt v m = State (\<lambda>s. case faults s of
     Some n # fs \<Rightarrow> (Inl (TCall ''open'' Faulted), s\<lparr>faults := fs\<rparr>)
   | fs \<Rightarrow> (case i_OpenFile rt (dsk s) v m of (d, r) \<Rightarrow>
       (map_sum (TRoot ''open'') id r, s\<lparr>dsk := d, seen := d # seen s, faults := tl fs\<rparr>)))"

definition root_rename :: "'f TransferRoot \<Rightarrow> string \<Rightarrow> string \<Rightarrow> transfer_error option io" where
  "root_rename rt v w = root_act ''rename'' (\<lambda>n d. d) (\<lambda>d. i_Rename rt d v w)"

definition root_delete :: "'f TransferRoot \<Rightarrow> string \<Rightarrow> transfer_error option io" where
  "root_delete rt v = root_act ''delete'' (\<lambda>n d. d) (\<lambda>d. i_DeleteFile rt d v)"

definition root_mkdirs :: "'f TransferRoot \<Rightarrow> string \<Rightarrow> transfer_error option io" where
  "root_mkdirs rt v = root_act ''mkdir''
     (\<lambda>n d. fst (i_MkdirAll rt d (join_slash (take n (components v))))) (\<lambda>d. i_MkdirAll rt d v)"

definition root_exists :: "'f TransferRoot \<Rightarrow> string \<Rightarrow> bool io" where
  "root_exists rt v = State_Monad.bind (root_ask ''stat'' (\<lambda>d. Inr (i_FileExists rt d v))) (\<lambda>r. io_return (r = Inr True))"

text \<open>As \<open>check_or\<close>, for the errors of a transfer.\<close>

definition attempt_or :: "transfer_error option io \<Rightarrow> 'u io \<Rightarrow> transfer_error option io \<Rightarrow> transfer_error option io" where
  "attempt_or m undo k = State_Monad.bind m (\<lambda>e. case e of
     Some x \<Rightarrow> State_Monad.bind undo (\<lambda>_. io_return (Some x)) | None \<Rightarrow> k)"

text \<open>A look at the context.\<close>

definition ctx_Err :: "transfer_error option io" where
  "ctx_Err = check ''context'' call_Handle (io_return None)"

subsection \<open>Durability of a root\<close>

definition full_of :: "'f TransferRoot \<Rightarrow> string \<Rightarrow> string" where
  "full_of rt storePath = filepath_Join (i_GetRootPath rt) storePath"

definition syncRootEntryParent :: "Manager \<Rightarrow> 'f TransferRoot \<Rightarrow> string \<Rightarrow> transfer_error option io" where
  "syncRootEntryParent m rt v =
    (if durability m \<noteq> DurabilityFull then io_return None
     else case i_GetStorePath rt v of Inl e \<Rightarrow> io_return (Some (TRoot ''resolve'' e))
     | Inr storePath \<Rightarrow> check ''sync'' (syncDir m (path_Dir (full_of rt storePath))) (io_return None))"

definition protectRootEntry :: "'f TransferRoot \<Rightarrow> string \<Rightarrow> transfer_error option io" where
  "protectRootEntry rt v =
    (case i_GetStorePath rt v of Inl e \<Rightarrow> io_return (Some (TRoot ''resolve'' e))
     | Inr storePath \<Rightarrow> check ''protect secure entry'' (call_Chmod (full_of rt storePath)) (io_return None))"

definition renameRootEntry :: "Manager \<Rightarrow> 'f TransferRoot \<Rightarrow> string \<Rightarrow> string \<Rightarrow> transfer_error option io" where
  "renameRootEntry m rt oldPath newPath =
    attempt (root_rename rt oldPath newPath) (syncRootEntryParent m rt newPath)"

definition deleteRootEntry :: "Manager \<Rightarrow> 'f TransferRoot \<Rightarrow> string \<Rightarrow> transfer_error option io" where
  "deleteRootEntry m rt v = attempt (root_delete rt v) (syncRootEntryParent m rt v)"

text \<open>The loop of \<open>mkdirAllRoot\<close> over the leading parts of the path.\<close>

fun sync_parts :: "Manager \<Rightarrow> 'f TransferRoot \<Rightarrow> string list \<Rightarrow> string list \<Rightarrow> transfer_error option io" where
  "sync_parts m rt init [] = io_return None"
| "sync_parts m rt init (c # cs) =
    (case i_GetStorePath rt (join_slash (init @ [c])) of Inl e \<Rightarrow> io_return (Some (TRoot ''resolve'' e))
     | Inr storePath \<Rightarrow>
       check ''sync secure directory'' (syncDir m (full_of rt storePath)) (
       check ''sync secure directory parent'' (syncDir m (path_Dir (full_of rt storePath))) (
       sync_parts m rt (init @ [c]) cs)))"

definition mkdirAllRoot :: "Manager \<Rightarrow> 'f TransferRoot \<Rightarrow> string \<Rightarrow> transfer_error option io" where
  "mkdirAllRoot m rt v =
    attempt (root_mkdirs rt v)
      (if durability m \<noteq> DurabilityFull \<or> v = [] then io_return None else sync_parts m rt [] (components v))"

subsection \<open>Regular files (symlink_guard.go)\<close>

text \<open>The open of a link fails; what is not a regular file is refused after it was opened. The result is the
  content.\<close>

definition openRegularFile :: "string \<Rightarrow> (transfer_error + bytes) io" where
  "openRegularFile p = State_Monad.bind (os_query (\<lambda>d. case os_Lstat d (components p) of
       Inl e \<Rightarrow> Inl e | Inr NSymlink \<Rightarrow> Inl ESYMLINK | Inr n \<Rightarrow> Inr n))
     (\<lambda>r. case r of Inl e \<Rightarrow> io_return (Inl (TCall ''open'' e))
      | Inr n \<Rightarrow> State_Monad.bind call_Handle (\<lambda>e. io_return (case e of Some x \<Rightarrow> Inl (TCall ''stat'' x)
          | None \<Rightarrow> (case n of NFile data \<Rightarrow> Inr data | _ \<Rightarrow> Inl (TUnsafe p)))))"

definition call_CreateExcl :: "string \<Rightarrow> call_error option io" where
  "call_CreateExcl p = os_call (\<lambda>n d. d) (\<lambda>d. case os_OpenFile 0 d (components p) temp_mode of
     (d', Inl e) \<Rightarrow> (d', Some e) | (d', Inr _) \<Rightarrow> (d', None))"

definition createRegularFile :: "string \<Rightarrow> transfer_error option io" where
  "createRegularFile p = check ''create'' (call_CreateExcl p) (check ''stat'' call_Handle (io_return None))"

text \<open>Writing at the end of the file that was created; a fault leaves the first bytes in it.\<close>

definition file_bytes :: "disk \<Rightarrow> fpath \<Rightarrow> bytes" where
  "file_bytes d p = (case os_lookup d p of Some (NFile b) \<Rightarrow> b | _ \<Rightarrow> [])"

definition call_Append :: "string \<Rightarrow> bytes \<Rightarrow> call_error option io" where
  "call_Append p b =
    os_call (\<lambda>n d. AList.update (components p) (NFile (file_bytes d (components p) @ take n b)) d)
      (\<lambda>d. (AList.update (components p) (NFile (file_bytes d (components p) @ b)) d, None))"

text \<open>What the reads of an open file of a root give with the buffer of \<^verbatim>\<open>io.Copy\<close>, and the file after them; the last
  read has the error.\<close>

partial_function (option) read_results ::
  "'f TransferRoot \<Rightarrow> 'f \<Rightarrow> ((bytes \<times> io_error option) list \<times> 'f) option" where
  "read_results rt f =
    (case f_Read rt 32768 f of (f', buf, e) \<Rightarrow>
       if e \<noteq> None then Some ([(buf, e)], f')
       else Option.bind (read_results rt f') (\<lambda>(rs, f'). Some ((buf, None) # rs, f')))"

subsection \<open>Names\<close>

definition tempSuffix :: string where "tempSuffix = ''.tmp.safe_disk''"
definition backupSuffix :: string where "backupSuffix = ''.raw.safe_disk''"

definition shouldSkipPlainName :: "string \<Rightarrow> bool" where
  "shouldSkipPlainName name \<longleftrightarrow>
    name = baseDirName \<or> name = ConfigFileName \<or> sublist ''.safe_disk.work.'' name \<or> sublist ''.safe_disk.backup.'' name"

definition TrimSlash :: "string \<Rightarrow> string" where
  "TrimSlash s = (if s \<noteq> [] \<and> last s = slash then butlast s else s)"

definition relativeToViewBase :: "string \<Rightarrow> string \<Rightarrow> string" where
  "relativeToViewBase base entry =
    (let basePath = TrimSlash base in
     if basePath = [] then entry
     else if prefix (basePath @ [slash]) entry then drop (length basePath + 1) entry else entry)"

text \<open>The empty parts of a path are not skipped, so it does not matter that \<open>components\<close> leaves them out.\<close>

definition shouldSkipRootPath :: "string \<Rightarrow> string \<Rightarrow> bool" where
  "shouldSkipRootPath base p \<longleftrightarrow> (\<exists>name \<in> set (components (relativeToViewBase base p)). shouldSkipPlainName name)"

definition joinView :: "string \<Rightarrow> string \<Rightarrow> string" where
  "joinView base rel = (if base = [] \<or> base = ''.'' then rel else filepath_Join base rel)"

subsection \<open>Walking\<close>

definition hasRootConfig :: "string \<Rightarrow> bool io" where
  "hasRootConfig p = State_Monad.bind (call_Stat (filepath_Join p ConfigFileName))
     (\<lambda>r. io_return (case r of Inl _ \<Rightarrow> False | Inr n \<Rightarrow> n \<noteq> NDir))"

definition has_config :: "disk \<Rightarrow> string \<Rightarrow> bool" where
  "has_config d p \<longleftrightarrow> (case os_Stat d (components (filepath_Join p ConfigFileName)) of Inl _ \<Rightarrow> False | Inr n \<Rightarrow> n \<noteq> NDir)"

text \<open>An entry that is visited: its path, its path below the start, and whether it is a directory. With the
  entries comes the error that ended the walk. First the entries of one directory, then the recursive
  walk of \<^verbatim>\<open>filepath.WalkDir\<close>, in the order of the names; skipped directories are not entered, and a start that is a file or a
  link has no entries.\<close>

type_synonym visited = "string \<times> string \<times> bool"

fun flat_entries :: "disk \<Rightarrow> string \<Rightarrow> raw_entry list \<Rightarrow> visited list \<times> transfer_error option" where
  "flat_entries d rt [] = ([], None)"
| "flat_entries d rt ((name, n) # es) =
    (let p = filepath_Join rt name in
     if shouldSkipPlainName name then flat_entries d rt es
     else if n = NSymlink then ([], Some (TUnsafe p))
     else if n = NDir \<and> has_config d p then flat_entries d rt es
     else map_prod (Cons (p, name, n = NDir)) id (flat_entries d rt es))"

partial_function (option) tree_entries ::
  "disk \<Rightarrow> string \<Rightarrow> raw_entry list \<Rightarrow> string \<Rightarrow> (visited list \<times> transfer_error option) option" where
  "tree_entries d full entries rel =
    (case entries of [] \<Rightarrow> Some ([], None)
     | (name, n) # es \<Rightarrow>
       let p = filepath_Join full name; r = filepath_Join rel name in
       if shouldSkipPlainName name then tree_entries d full es rel
       else if n = NSymlink then Some ([], Some (TUnsafe p))
       else if n = NDir \<and> has_config d p then tree_entries d full es rel
       else if n = NDir then
         (case os_ReadDirAll d (components p) of
            Inl err \<Rightarrow> Some ([(p, r, True)], Some (TCall (fst err) (OsError (snd err))))
          | Inr ces \<Rightarrow>
            Option.bind (tree_entries d p ces r) (\<lambda>(l1, e1).
              if e1 \<noteq> None then Some ((p, r, True) # l1, e1)
              else Option.bind (tree_entries d full es rel) (\<lambda>(l2, e2). Some ((p, r, True) # l1 @ l2, e2))))
       else Option.bind (tree_entries d full es rel) (\<lambda>(l, e). Some ((p, r, False) # l, e)))"

definition plain_entries :: "disk \<Rightarrow> string \<Rightarrow> bool \<Rightarrow> (visited list \<times> transfer_error option) option" where
  "plain_entries d rt skipRecursive =
    (let read = (\<lambda>walk. case os_ReadDirAll d (components rt) of
           Inl (op, e) \<Rightarrow> Some ([], Some (TCall op (OsError e))) | Inr es \<Rightarrow> walk es)
     in if skipRecursive then read (\<lambda>es. Some (flat_entries d rt es))
        else case os_Lstat d (components rt) of
          Inl e \<Rightarrow> Some ([], Some (TCall ''lstat'' (OsError e)))
        | Inr NDir \<Rightarrow> read (\<lambda>es. tree_entries d rt es [])
        | Inr _ \<Rightarrow> Some ([], None))"

text \<open>The visits, each after a look at the context.\<close>

fun visit_all :: "('e \<Rightarrow> transfer_error option io) \<Rightarrow> 'e list \<Rightarrow> transfer_error option io \<Rightarrow> transfer_error option io" where
  "visit_all visit [] fin = fin"
| "visit_all visit (e # es) fin = attempt ctx_Err (attempt (visit e) (visit_all visit es fin))"

text \<open>A walk is looked up when it is started. One that would not end is reported as \<open>TEndless\<close>.\<close>

definition plain_walk :: "string \<Rightarrow> bool \<Rightarrow> (transfer_error + visited list \<times> transfer_error option) io" where
  "plain_walk rt skipRecursive =
    State_Monad.bind ctx_Err (\<lambda>e. case e of Some x \<Rightarrow> io_return (Inl x)
    | None \<Rightarrow>
      State_Monad.bind (hasRootConfig rt) (\<lambda>c.
      if c then io_return (Inl (TUnsafe rt))
      else State (\<lambda>s. (case plain_entries (dsk s) rt skipRecursive of None \<Rightarrow> Inl TEndless | Some w \<Rightarrow> Inr w, s))))"

definition walkPlainEntries :: "string \<Rightarrow> bool \<Rightarrow> (visited \<Rightarrow> transfer_error option io) \<Rightarrow> transfer_error option io" where
  "walkPlainEntries rt skipRecursive visit =
    State_Monad.bind (plain_walk rt skipRecursive) (\<lambda>w. case w of Inl e \<Rightarrow> io_return (Some e)
    | Inr (es, err) \<Rightarrow> visit_all visit es (io_return err))"

definition countPlainFiles :: "string \<Rightarrow> bool \<Rightarrow> transfer_error option io" where
  "countPlainFiles rt skipRecursive = walkPlainEntries rt skipRecursive (\<lambda>_. io_return None)"

text \<open>The entries of a root that are visited.\<close>

fun root_entries :: "string \<Rightarrow> bool \<Rightarrow> walked list \<Rightarrow> walk_err \<Rightarrow> (string \<times> bool) list \<times> transfer_error option" where
  "root_entries base skipRecursive [] err = ([], if err = WalkEOF then None else Some (TWalk err))"
| "root_entries base skipRecursive ((rel, n) # ws) err =
    (let baseDir = (if TrimSlash base = [] then ''.'' else TrimSlash base) in
     if shouldSkipRootPath base rel then root_entries base skipRecursive ws err
     else if n = NSymlink then ([], Some (TUnsafe rel))
     else if skipRecursive \<and> path_Dir rel \<noteq> baseDir then root_entries base skipRecursive ws err
     else map_prod (Cons (rel, n = NDir)) id (root_entries base skipRecursive ws err))"

definition walk_root ::
  "'f TransferRoot \<Rightarrow> disk \<Rightarrow> string \<Rightarrow> bool \<Rightarrow> transfer_error + (string \<times> bool) list \<times> transfer_error option" where
  "walk_root rt d base skipRecursive =
    (case i_Walk rt d base (WithIncludeHidden # (if skipRecursive then [] else [WithRecursive])) of
       None \<Rightarrow> Inl TEndless
     | Some (Inl e) \<Rightarrow> Inl (TWalkOpen e)
     | Some (Inr (ws, err)) \<Rightarrow> Inr (root_entries base skipRecursive ws err))"

definition root_walk :: "'f TransferRoot \<Rightarrow> string \<Rightarrow> bool \<Rightarrow> (transfer_error + (string \<times> bool) list \<times> transfer_error option) io" where
  "root_walk rt base skipRecursive =
    State_Monad.bind ctx_Err (\<lambda>e. case e of Some x \<Rightarrow> io_return (Inl x)
    | None \<Rightarrow> State (\<lambda>s. (walk_root rt (dsk s) base skipRecursive, s)))"

definition walkRootEntries ::
  "'f TransferRoot \<Rightarrow> string \<Rightarrow> bool \<Rightarrow> (string \<times> bool \<Rightarrow> transfer_error option io) \<Rightarrow> transfer_error option io" where
  "walkRootEntries rt base skipRecursive visit =
    State_Monad.bind (root_walk rt base skipRecursive) (\<lambda>w. case w of Inl e \<Rightarrow> io_return (Some e)
    | Inr (es, err) \<Rightarrow> visit_all visit es (attempt ctx_Err (io_return err)))"

definition countRootFiles :: "'f TransferRoot \<Rightarrow> string \<Rightarrow> bool \<Rightarrow> transfer_error option io" where
  "countRootFiles rt base skipRecursive = walkRootEntries rt base skipRecursive (\<lambda>_. io_return None)"

end
