(* ===== verification/Verify.thy ===== *)
theory Verify
  imports TransferFiles GoEncoding
begin

text \<open>
  The comparison of a plain directory with a root: src/native/sec_fs/sec_transfer/v3/verify.go. The
  report counts the entries and the differences and keeps some paths of each kind.
\<close>

subsection \<open>The report\<close>

definition verificationPathSampleLimit :: nat where "verificationPathSampleLimit = 16"

definition manifestPath :: "string \<Rightarrow> string" where
  "manifestPath p = filepath_Clean p"

definition addVerificationDifference :: "string \<Rightarrow> string list \<times> nat \<Rightarrow> string list \<times> nat" where
  "addVerificationDifference path0 = (\<lambda>(samples, n).
    let path = manifestPath path0 in
    if length samples < verificationPathSampleLimit then (sort (samples @ [path]), Suc n)
    else if last samples \<le> path then (samples, Suc n)
    else (sort (butlast samples @ [path]), Suc n))"

definition empty_report :: VerificationReport where
  "empty_report = \<lparr>ExpectedDirectories = 0, ActualDirectories = 0, ExpectedFiles = 0, ActualFiles = 0,
     MissingDirectories = [], MissingDirectoryCount = 0, UnexpectedDirectories = [], UnexpectedDirectoryCount = 0,
     MissingFiles = [], MissingFileCount = 0, UnexpectedFiles = [], UnexpectedFileCount = 0,
     DigestMismatches = [], DigestMismatchCount = 0, Truncated = False\<rparr>"

definition missing_dir :: "string \<Rightarrow> VerificationReport \<Rightarrow> VerificationReport" where
  "missing_dir p r = (case addVerificationDifference p (MissingDirectories r, MissingDirectoryCount r) of (s, n) \<Rightarrow>
     r\<lparr>MissingDirectories := s, MissingDirectoryCount := n\<rparr>)"

definition unexpected_dir :: "string \<Rightarrow> VerificationReport \<Rightarrow> VerificationReport" where
  "unexpected_dir p r = (case addVerificationDifference p (UnexpectedDirectories r, UnexpectedDirectoryCount r) of (s, n) \<Rightarrow>
     r\<lparr>UnexpectedDirectories := s, UnexpectedDirectoryCount := n\<rparr>)"

definition missing_file :: "string \<Rightarrow> VerificationReport \<Rightarrow> VerificationReport" where
  "missing_file p r = (case addVerificationDifference p (MissingFiles r, MissingFileCount r) of (s, n) \<Rightarrow>
     r\<lparr>MissingFiles := s, MissingFileCount := n\<rparr>)"

definition unexpected_file :: "string \<Rightarrow> VerificationReport \<Rightarrow> VerificationReport" where
  "unexpected_file p r = (case addVerificationDifference p (UnexpectedFiles r, UnexpectedFileCount r) of (s, n) \<Rightarrow>
     r\<lparr>UnexpectedFiles := s, UnexpectedFileCount := n\<rparr>)"

definition digest_mismatch :: "string \<Rightarrow> VerificationReport \<Rightarrow> VerificationReport" where
  "digest_mismatch p r = (case addVerificationDifference p (DigestMismatches r, DigestMismatchCount r) of (s, n) \<Rightarrow>
     r\<lparr>DigestMismatches := s, DigestMismatchCount := n\<rparr>)"

definition with_truncated :: "VerificationReport \<Rightarrow> VerificationReport" where
  "with_truncated r = r\<lparr>Truncated :=
     length (MissingDirectories r) < MissingDirectoryCount r \<or>
     length (UnexpectedDirectories r) < UnexpectedDirectoryCount r \<or>
     length (MissingFiles r) < MissingFileCount r \<or>
     length (UnexpectedFiles r) < UnexpectedFileCount r \<or>
     length (DigestMismatches r) < DigestMismatchCount r\<rparr>"

definition verificationReportError :: "VerificationReport \<Rightarrow> verify_error option" where
  "verificationReportError r =
    (if MissingDirectoryCount r = 0 \<and> UnexpectedDirectoryCount r = 0 \<and> MissingFileCount r = 0 \<and>
        UnexpectedFileCount r = 0 \<and> DigestMismatchCount r = 0 then None
     else Some (VerifyMismatch (with_truncated r)))"

text \<open>The first path of the first kind that has one, for the message.\<close>

definition firstVerificationDifference :: "VerificationReport \<Rightarrow> string" where
  "firstVerificationDifference r =
    (case find (\<lambda>(paths, _). paths \<noteq> [])
        [(MissingDirectories r, ''missing directory in work tree''),
         (UnexpectedDirectories r, ''unexpected directory in work tree''),
         (MissingFiles r, ''missing file in work tree''),
         (UnexpectedFiles r, ''unexpected file in work tree''),
         (DigestMismatches r, ''file digest mismatch'')] of
       None \<Rightarrow> ''tree verification failed''
     | Some (paths, msg) \<Rightarrow> msg @ '': '' @ hd paths)"

subsection \<open>Digests\<close>

definition hashPlainFile :: "string \<Rightarrow> (transfer_error + bytes) io" where
  "hashPlainFile p = State_Monad.bind (call_ReadFile p) (\<lambda>r. case r of Inl e \<Rightarrow> io_return (Inl (TCall ''read'' e))
     | Inr data \<Rightarrow> State_Monad.bind ctx_Err (\<lambda>e. State_Monad.bind call_Handle (\<lambda>c. io_return (case e of Some x \<Rightarrow> Inl x
       | None \<Rightarrow> (case c of Some x \<Rightarrow> Inl (TCall ''close'' x) | None \<Rightarrow> Inr (sha256_Sum256 data))))))"

text \<open>What is read of a file up to its end, or the error that ended the reading.\<close>

definition read_data :: "(bytes \<times> io_error option) list \<Rightarrow> transfer_error + bytes" where
  "read_data rs = (case snd (last rs) of Some x \<Rightarrow> if x = EOF then Inr (concat (map fst rs)) else Inl (TIo ''read'' x)
     | None \<Rightarrow> Inr (concat (map fst rs)))"

definition hashRootFile :: "'f TransferRoot \<Rightarrow> string \<Rightarrow> (transfer_error + bytes) io" where
  "hashRootFile rt v = State_Monad.bind (root_open rt v read_mode) (\<lambda>r. case r of Inl e \<Rightarrow> io_return (Inl e)
    | Inr f \<Rightarrow>
      (case read_results rt f of None \<Rightarrow> io_return (Inl TEndless)
       | Some (rs, f') \<Rightarrow> State_Monad.bind ctx_Err (\<lambda>e. io_return (case e of Some x \<Rightarrow> Inl x
         | None \<Rightarrow> (case read_data rs of Inl x \<Rightarrow> Inl x
           | Inr data \<Rightarrow> (case snd (f_Close rt f') of Some x \<Rightarrow> Inl (TIo ''close'' x) | None \<Rightarrow> Inr (sha256_Sum256 data)))))))"

subsection \<open>The comparison\<close>

text \<open>The look-up of an entry on the other side: \<^verbatim>\<open>os.IsNotExist\<close> is no error.\<close>

definition stat_root :: "'f TransferRoot \<Rightarrow> string \<Rightarrow> (transfer_error + node option) io" where
  "stat_root rt v = State_Monad.bind (root_ask ''stat'' (\<lambda>d. i_Stat rt d v)) (\<lambda>r. io_return (case r of
     Inl (TRoot op (RootOsError op' ENOENT)) \<Rightarrow> Inr None | Inl e \<Rightarrow> Inl e | Inr n \<Rightarrow> Inr (Some n)))"

definition stat_plain :: "string \<Rightarrow> (transfer_error + node option) io" where
  "stat_plain p = State_Monad.bind (call_Stat p) (\<lambda>r. io_return (case r of
     Inl (OsError ENOENT) \<Rightarrow> Inr None | Inl e \<Rightarrow> Inl (TCall ''stat'' e) | Inr n \<Rightarrow> Inr (Some n)))"

text \<open>An entry of the source is looked up in the work tree, and one of the work tree in the source.\<close>

definition expect_entry ::
  "string \<Rightarrow> bool \<Rightarrow> (transfer_error + node option) io \<Rightarrow> (transfer_error + bytes) io \<Rightarrow> (transfer_error + bytes) io \<Rightarrow>
   VerificationReport \<Rightarrow> (transfer_error + VerificationReport) io" where
  "expect_entry p isDir stat hash1 hash2 r0 =
    (let r = (if isDir then r0\<lparr>ExpectedDirectories := Suc (ExpectedDirectories r0)\<rparr> else r0\<lparr>ExpectedFiles := Suc (ExpectedFiles r0)\<rparr>)
     in State_Monad.bind stat (\<lambda>s. case s of Inl e \<Rightarrow> io_return (Inl e)
       | Inr n \<Rightarrow>
         if isDir then io_return (Inr (if n = Some NDir then r else missing_dir p r))
         else if n = None \<or> n = Some NDir then io_return (Inr (missing_file p r))
         else State_Monad.bind hash1 (\<lambda>h. case h of Inl e \<Rightarrow> io_return (Inl e)
           | Inr h1 \<Rightarrow> State_Monad.bind hash2 (\<lambda>h. case h of Inl e \<Rightarrow> io_return (Inl e)
             | Inr h2 \<Rightarrow> io_return (Inr (if h1 = h2 then r else digest_mismatch p r))))))"

definition actual_entry ::
  "string \<Rightarrow> bool \<Rightarrow> (transfer_error + node option) io \<Rightarrow> VerificationReport \<Rightarrow> (transfer_error + VerificationReport) io" where
  "actual_entry p isDir stat r0 =
    (let r = (if isDir then r0\<lparr>ActualDirectories := Suc (ActualDirectories r0)\<rparr> else r0\<lparr>ActualFiles := Suc (ActualFiles r0)\<rparr>)
     in State_Monad.bind stat (\<lambda>s. case s of Inl e \<Rightarrow> io_return (Inl e)
       | Inr n \<Rightarrow> io_return (Inr (
           if isDir then (if n = Some NDir then r else unexpected_dir p r)
           else (if n = None \<or> n = Some NDir then unexpected_file p r else r)))))"

fun visit_report ::
  "('e \<Rightarrow> VerificationReport \<Rightarrow> (transfer_error + VerificationReport) io) \<Rightarrow> 'e list \<Rightarrow> transfer_error option io \<Rightarrow>
   VerificationReport \<Rightarrow> (transfer_error + VerificationReport) io" where
  "visit_report visit [] fin r = State_Monad.bind fin (\<lambda>e. io_return (case e of Some x \<Rightarrow> Inl x | None \<Rightarrow> Inr r))"
| "visit_report visit (e # es) fin r =
    State_Monad.bind ctx_Err (\<lambda>x. case x of Some x \<Rightarrow> io_return (Inl x)
    | None \<Rightarrow> State_Monad.bind (visit e r) (\<lambda>y. case y of Inl x \<Rightarrow> io_return (Inl x) | Inr r' \<Rightarrow> visit_report visit es fin r'))"

definition report_plain ::
  "string \<Rightarrow> (visited \<Rightarrow> VerificationReport \<Rightarrow> (transfer_error + VerificationReport) io) \<Rightarrow> VerificationReport \<Rightarrow>
   (transfer_error + VerificationReport) io" where
  "report_plain plainPath visit r =
    State_Monad.bind (plain_walk plainPath False) (\<lambda>w. case w of Inl e \<Rightarrow> io_return (Inl e)
    | Inr (es, err) \<Rightarrow> visit_report visit es (io_return err) r)"

definition report_root ::
  "'f TransferRoot \<Rightarrow> (string \<times> bool \<Rightarrow> VerificationReport \<Rightarrow> (transfer_error + VerificationReport) io) \<Rightarrow> VerificationReport \<Rightarrow>
   (transfer_error + VerificationReport) io" where
  "report_root rt visit r =
    State_Monad.bind (root_walk rt [] False) (\<lambda>w. case w of Inl e \<Rightarrow> io_return (Inl e)
    | Inr (es, err) \<Rightarrow> visit_report visit es (attempt ctx_Err (io_return err)) r)"

definition verify_steps ::
  "string \<Rightarrow> (VerificationReport \<Rightarrow> (transfer_error + VerificationReport) io) \<Rightarrow>
   string \<Rightarrow> (VerificationReport \<Rightarrow> (transfer_error + VerificationReport) io) \<Rightarrow> verify_error option io" where
  "verify_steps msg1 step1 msg2 step2 =
    State_Monad.bind (step1 empty_report) (\<lambda>x. case x of Inl _ \<Rightarrow> io_return (Some (VerifyOther msg1))
    | Inr r \<Rightarrow> State_Monad.bind (step2 r) (\<lambda>y. case y of Inl _ \<Rightarrow> io_return (Some (VerifyOther msg2))
      | Inr r' \<Rightarrow> io_return (verificationReportError r')))"

definition verifyPlainAndRoot :: "string \<Rightarrow> 'f TransferRoot \<Rightarrow> verify_error option io" where
  "verifyPlainAndRoot plainPath rt =
    verify_steps
      ''verify plain source entries'' (report_plain plainPath (\<lambda>(p, rel, isDir).
         let v = manifestPath rel in expect_entry v isDir (stat_root rt v) (hashPlainFile p) (hashRootFile rt v)))
      ''verify encrypted work entries'' (report_root rt (\<lambda>(v, isDir).
         actual_entry (manifestPath v) isDir (stat_plain (filepath_Join plainPath v))))"

definition verifyRootAndPlain :: "'f TransferRoot \<Rightarrow> string \<Rightarrow> verify_error option io" where
  "verifyRootAndPlain rt plainPath =
    verify_steps
      ''verify encrypted source entries'' (report_root rt (\<lambda>(v, isDir).
         let rel = manifestPath v; p = filepath_Join plainPath rel in
         expect_entry rel isDir (stat_plain p) (hashRootFile rt v) (hashPlainFile p)))
      ''verify plain work entries'' (report_plain plainPath (\<lambda>(_, rel, isDir).
         let v = manifestPath rel in actual_entry v isDir (stat_root rt v)))"

end
