(* ===== verification/TransferOps.thy ===== *)
theory TransferOps
  imports TransferFiles
begin

text \<open>
  The operations of a transfer manager: ImportFile, ImportDirectory, ExportFile, ExportDirectory and
  the listing of unfinished operations, in src/native/sec_fs/sec_transfer/v3/manager.go. A file is
  written under a temporary name and exchanged with the destination by renames.
\<close>

subsection \<open>Exporting a file\<close>

fun copy_out :: "string \<Rightarrow> (bytes \<times> io_error option) list \<Rightarrow> transfer_error option io" where
  "copy_out temp [] = io_return None"
| "copy_out temp ((buf, e) # rs) =
    attempt ctx_Err (
    attempt (if buf = [] then io_return None else check ''write'' (call_Append temp buf) (io_return None))
      (case e of None \<Rightarrow> copy_out temp rs
       | Some x \<Rightarrow> io_return (if x = EOF then None else Some (TIo ''read'' x))))"

text \<open>The temporary file is filled, synced and closed.\<close>

definition fill_temp :: "Manager \<Rightarrow> string \<Rightarrow> (bytes \<times> io_error option) list \<Rightarrow> transfer_error option io \<Rightarrow> transfer_error option io" where
  "fill_temp m temp rs k =
    attempt_or (copy_out temp rs) (State_Monad.bind call_Handle (\<lambda>_. call_Remove temp)) (
    State_Monad.bind (syncOSFile m) (\<lambda>syncErr.
    State_Monad.bind call_Handle (\<lambda>closeErr.
    if syncErr \<noteq> None \<or> closeErr \<noteq> None then
      State_Monad.bind (call_Remove temp) (\<lambda>_. io_return (Some
        (case syncErr of Some x \<Rightarrow> TCall ''sync'' x | None \<Rightarrow> TCall ''close'' (the closeErr))))
    else attempt_or ctx_Err (call_Remove temp) k)))"

definition replace_path :: "Manager \<Rightarrow> string \<Rightarrow> string \<Rightarrow> string \<Rightarrow> transfer_error option io" where
  "replace_path m temp dest backup =
    State_Monad.bind (pathExists dest) (\<lambda>ex.
    attempt_or (if ex then renamePath m dest backup else io_return None) (call_Remove temp) (
    State_Monad.bind (renamePath m temp dest) (\<lambda>e. case e of
      Some x \<Rightarrow>
        State_Monad.bind (pathExists backup) (\<lambda>b.
        State_Monad.bind (if b then renamePath m backup dest else io_return None) (\<lambda>_.
        State_Monad.bind (call_Remove temp) (\<lambda>_. io_return (Some x))))
    | None \<Rightarrow> removePath m backup)))"

definition exportFileAtomic :: "Manager \<Rightarrow> 'f TransferRoot \<Rightarrow> string \<Rightarrow> string \<Rightarrow> bool \<Rightarrow> transfer_error option io" where
  "exportFileAtomic m rt src dest ow =
    State_Monad.bind (root_open rt src read_mode) (\<lambda>r. case r of Inl e \<Rightarrow> io_return (Some e)
    | Inr f \<Rightarrow>
      (case read_results rt f of None \<Rightarrow> io_return (Some TEndless)
       | Some (rs, _) \<Rightarrow>
         attempt (mkdirAllPath m (path_Dir dest)) (
         State_Monad.bind (if ow then io_return False else pathExists dest) (\<lambda>taken.
         if taken then io_return (Some (TExists dest))
         else
           attempt (createRegularFile (dest @ tempSuffix)) (
           check_or ''protect export temp'' call_Handle (State_Monad.bind call_Handle (\<lambda>_. call_Remove (dest @ tempSuffix))) (
           fill_temp m (dest @ tempSuffix) rs (replace_path m (dest @ tempSuffix) dest (dest @ backupSuffix))))))))"

definition exportOne :: "Manager \<Rightarrow> 'f TransferRoot \<Rightarrow> string \<Rightarrow> string \<Rightarrow> bool \<Rightarrow> transfer_error option io" where
  "exportOne m rt src dest ow =
    attempt ctx_Err (
    State_Monad.bind (if ow then io_return False else pathExists dest) (\<lambda>taken.
    if taken then io_return (Some (TExists dest)) else exportFileAtomic m rt src dest ow))"

subsection \<open>Importing a file\<close>

text \<open>A write to the new file of a root, on the disk at once; a fault leaves the first bytes.\<close>

definition root_write :: "'f TransferRoot \<Rightarrow> 'f \<Rightarrow> bytes \<Rightarrow> ('f \<times> transfer_error option) io" where
  "root_write rt f b = State (\<lambda>s. case faults s of
     Some n # fs \<Rightarrow> (case f_Write rt (take n b) f of (f', _) \<Rightarrow>
       let d = f_store rt f' (dsk s) in ((f', Some (TCall ''write'' Faulted)), s\<lparr>dsk := d, seen := d # seen s, faults := fs\<rparr>))
   | fs \<Rightarrow> (case f_Write rt b f of (f', n, e) \<Rightarrow>
       let d = f_store rt f' (dsk s) in
       ((f', case e of Some x \<Rightarrow> Some (TIo ''write'' x) | None \<Rightarrow> if n \<noteq> length b then Some (TWork ''short write'') else None),
        s\<lparr>dsk := d, seen := d # seen s, faults := tl fs\<rparr>)))"

definition root_close :: "'f TransferRoot \<Rightarrow> 'f \<Rightarrow> transfer_error option io" where
  "root_close rt f = State (\<lambda>s. case f_Close rt f of (f', e) \<Rightarrow>
     let d = f_store rt f' (dsk s); x = map_option (TIo ''close'') e in
     (case faults s of Some n # fs \<Rightarrow> (Some (TCall ''close'' Faulted), s\<lparr>dsk := d, seen := d # seen s, faults := fs\<rparr>)
      | fs \<Rightarrow> (x, s\<lparr>dsk := d, seen := d # seen s, faults := tl fs\<rparr>)))"

fun copy_in :: "'f TransferRoot \<Rightarrow> 'f \<Rightarrow> bytes list \<Rightarrow> ('f \<times> transfer_error option) io" where
  "copy_in rt f [] = State_Monad.bind ctx_Err (\<lambda>e. io_return (f, e))"
| "copy_in rt f (b # bs) =
    State_Monad.bind ctx_Err (\<lambda>e. case e of Some x \<Rightarrow> io_return (f, Some x)
    | None \<Rightarrow> State_Monad.bind (root_write rt f b) (\<lambda>(f', e). case e of Some x \<Rightarrow> io_return (f', Some x)
      | None \<Rightarrow> copy_in rt f' bs))"

definition syncSecFile :: "Manager \<Rightarrow> call_error option io" where
  "syncSecFile m = (if durability m = DurabilityNone then io_return None else call_Handle)"

definition fill_entry ::
  "Manager \<Rightarrow> 'f TransferRoot \<Rightarrow> string \<Rightarrow> 'f \<Rightarrow> bytes \<Rightarrow> transfer_error option io \<Rightarrow> transfer_error option io" where
  "fill_entry m rt temp f data k =
    State_Monad.bind (copy_in rt f (chunks 32768 data)) (\<lambda>(f, copyErr). case copyErr of
      Some x \<Rightarrow> State_Monad.bind (root_close rt f) (\<lambda>_. State_Monad.bind (root_delete rt temp) (\<lambda>_. io_return (Some x)))
    | None \<Rightarrow>
      State_Monad.bind (syncSecFile m) (\<lambda>syncErr.
      State_Monad.bind (root_close rt f) (\<lambda>closeErr.
      if syncErr \<noteq> None \<or> closeErr \<noteq> None then
        State_Monad.bind (root_delete rt temp) (\<lambda>_. io_return (Some
          (case syncErr of Some x \<Rightarrow> TCall ''sync'' x | None \<Rightarrow> the closeErr)))
      else attempt_or ctx_Err (root_delete rt temp) k)))"

definition replace_entry :: "Manager \<Rightarrow> 'f TransferRoot \<Rightarrow> string \<Rightarrow> string \<Rightarrow> string \<Rightarrow> transfer_error option io" where
  "replace_entry m rt temp dest backup =
    State_Monad.bind (root_exists rt dest) (\<lambda>ex.
    attempt_or (if ex then renameRootEntry m rt dest backup else io_return None) (root_delete rt temp) (
    State_Monad.bind (renameRootEntry m rt temp dest) (\<lambda>e. case e of
      Some x \<Rightarrow>
        State_Monad.bind (root_exists rt backup) (\<lambda>b.
        State_Monad.bind (if b then renameRootEntry m rt backup dest else io_return None) (\<lambda>_.
        State_Monad.bind (root_delete rt temp) (\<lambda>_. io_return (Some x))))
    | None \<Rightarrow>
      State_Monad.bind (root_exists rt backup) (\<lambda>b.
      if b then deleteRootEntry m rt backup else io_return None))))"

definition importFileAtomic :: "Manager \<Rightarrow> string \<Rightarrow> 'f TransferRoot \<Rightarrow> string \<Rightarrow> bool \<Rightarrow> transfer_error option io" where
  "importFileAtomic m src rt dest ow =
    State_Monad.bind (openRegularFile src) (\<lambda>r. case r of Inl e \<Rightarrow> io_return (Some e)
    | Inr data \<Rightarrow>
      State_Monad.bind (if ow then io_return False else root_exists rt dest) (\<lambda>taken.
      if taken then io_return (Some (TExists dest))
      else
        attempt (if path_Dir dest \<noteq> ''.'' \<and> path_Dir dest \<noteq> [] then mkdirAllRoot m rt (path_Dir dest) else io_return None) (
        State_Monad.bind (root_open rt (dest @ tempSuffix) trunc_mode) (\<lambda>r. case r of Inl e \<Rightarrow> io_return (Some e)
        | Inr f \<Rightarrow>
          attempt_or (protectRootEntry rt (dest @ tempSuffix))
            (State_Monad.bind (root_close rt f) (\<lambda>_. root_delete rt (dest @ tempSuffix))) (
          fill_entry m rt (dest @ tempSuffix) f data
            (replace_entry m rt (dest @ tempSuffix) dest (dest @ backupSuffix)))))))"

definition importOne :: "Manager \<Rightarrow> string \<Rightarrow> 'f TransferRoot \<Rightarrow> string \<Rightarrow> bool \<Rightarrow> transfer_error option io" where
  "importOne m src rt dest ow =
    attempt ctx_Err (
    State_Monad.bind (if ow then io_return False else root_exists rt dest) (\<lambda>taken.
    if taken then io_return (Some (TExists dest)) else importFileAtomic m src rt dest ow))"

subsection \<open>The operations\<close>

text \<open>A request of any of the four kinds; the directory operations use \<open>q_SkipRecursive\<close>.\<close>

record 'f transfer_request =
  q_Plain :: string
  q_Root :: "'f TransferRoot option"
  q_View :: string
  q_SkipRecursive :: bool
  q_Overwrite :: bool
  q_Durability :: string

text \<open>The marker is written before the transfer and removed after it; it stays when the transfer fails.\<close>

definition with_marker ::
  "marker_json \<Rightarrow> Manager \<Rightarrow> string \<Rightarrow> OperationMarker \<Rightarrow> transfer_error option io \<Rightarrow> transfer_error option io" where
  "with_marker J m rootPath marker body =
    attempt (writeMarker J m rootPath marker) (attempt body (removeMarker m rootPath (mOpID marker)))"

definition transfer_marker :: "string \<Rightarrow> string \<Rightarrow> string \<Rightarrow> string \<Rightarrow> string \<Rightarrow> string \<Rightarrow> OperationMarker" where
  "transfer_marker opID ty kind src dst rootPath = empty_marker\<lparr>mOpID := opID, mType := ty, mEntryKind := kind,
     mStatus := ''running'', mSrc := src, mDst := dst, mRoot := rootPath\<rparr>"

definition importFile :: "marker_json \<Rightarrow> Manager \<Rightarrow> 'f TransferRoot \<Rightarrow> 'f transfer_request \<Rightarrow> transfer_error option io" where
  "importFile J m rt req =
    (case validateDurability m of Some e \<Rightarrow> io_return (Some e)
     | None \<Rightarrow>
       State_Monad.bind (root_exists rt (q_View req)) (\<lambda>existed.
       State_Monad.bind (newOpID ''import'') (\<lambda>opID.
       with_marker J m (i_GetRootPath rt)
         ((transfer_marker opID OperationImport EntryKindFile (q_Plain req) (q_View req) (i_GetRootPath rt))
            \<lparr>mOverwrite := q_Overwrite req, mDestinationInitiallyExisted := Some existed\<rparr>)
         (importOne m (q_Plain req) rt (q_View req) (q_Overwrite req)))))"

definition import_visit :: "Manager \<Rightarrow> 'f TransferRoot \<Rightarrow> 'f transfer_request \<Rightarrow> visited \<Rightarrow> transfer_error option io" where
  "import_visit m rt req = (\<lambda>(p, rel, isDir).
     let dest = joinView (q_View req) rel in
     if isDir then mkdirAllRoot m rt dest else importOne m p rt dest (q_Overwrite req))"

definition importDirectory :: "marker_json \<Rightarrow> Manager \<Rightarrow> 'f TransferRoot \<Rightarrow> 'f transfer_request \<Rightarrow> transfer_error option io" where
  "importDirectory J m rt req =
    (case validateDurability m of Some e \<Rightarrow> io_return (Some e)
     | None \<Rightarrow>
       State_Monad.bind (root_exists rt (q_View req)) (\<lambda>existed.
       State_Monad.bind (newOpID ''import'') (\<lambda>opID.
       with_marker J m (i_GetRootPath rt)
         ((transfer_marker opID OperationImport EntryKindDirectory (q_Plain req) (q_View req) (i_GetRootPath rt))
            \<lparr>mOverwrite := q_Overwrite req, mDestinationInitiallyExisted := Some existed\<rparr>)
         (attempt (countPlainFiles (q_Plain req) (q_SkipRecursive req)) (
          State_Monad.bind (if q_View req \<noteq> [] \<and> \<not> q_Overwrite req then root_exists rt (q_View req) else io_return False) (\<lambda>taken.
          if taken then io_return (Some (TExists (q_View req)))
          else attempt (if q_View req \<noteq> [] then mkdirAllRoot m rt (q_View req) else io_return None)
            (walkPlainEntries (q_Plain req) (q_SkipRecursive req) (import_visit m rt req))))))))"

definition exportFile :: "marker_json \<Rightarrow> Manager \<Rightarrow> 'f TransferRoot \<Rightarrow> 'f transfer_request \<Rightarrow> transfer_error option io" where
  "exportFile J m rt req =
    (case validateDurability m of Some e \<Rightarrow> io_return (Some e)
     | None \<Rightarrow>
       State_Monad.bind (newOpID ''export'') (\<lambda>opID.
       with_marker J m (i_GetRootPath rt)
         (transfer_marker opID OperationExport EntryKindFile (q_View req) (q_Plain req) (i_GetRootPath rt))
         (exportOne m rt (q_View req) (q_Plain req) (q_Overwrite req))))"

definition export_visit :: "Manager \<Rightarrow> 'f TransferRoot \<Rightarrow> 'f transfer_request \<Rightarrow> string \<times> bool \<Rightarrow> transfer_error option io" where
  "export_visit m rt req = (\<lambda>(src, isDir).
     let dest = filepath_Join (q_Plain req) (relativeToViewBase (q_View req) src) in
     if isDir then mkdirAllPath m dest else exportOne m rt src dest (q_Overwrite req))"

definition exportDirectory :: "marker_json \<Rightarrow> Manager \<Rightarrow> 'f TransferRoot \<Rightarrow> 'f transfer_request \<Rightarrow> transfer_error option io" where
  "exportDirectory J m rt req =
    (case validateDurability m of Some e \<Rightarrow> io_return (Some e)
     | None \<Rightarrow>
       State_Monad.bind (newOpID ''export'') (\<lambda>opID.
       with_marker J m (i_GetRootPath rt)
         (transfer_marker opID OperationExport EntryKindDirectory (q_View req) (q_Plain req) (i_GetRootPath rt))
         (attempt (countRootFiles rt (q_View req) (q_SkipRecursive req)) (
          attempt (mkdirAllPath m (q_Plain req)) (
          walkRootEntries rt (q_View req) (q_SkipRecursive req) (export_visit m rt req))))))"

text \<open>The public methods: a nil root is an error, and the durability of the request is taken. The lock of the
  operation is left out.\<close>

definition with_root ::
  "Manager \<Rightarrow> 'f transfer_request \<Rightarrow> string \<Rightarrow> (Manager \<Rightarrow> 'f TransferRoot \<Rightarrow> transfer_error option io) \<Rightarrow> transfer_error option io" where
  "with_root m req msg body =
    (case q_Root req of None \<Rightarrow> io_return (Some (TRequest msg)) | Some rt \<Rightarrow> body (withDurability m (q_Durability req)) rt)"

definition ImportFile :: "marker_json \<Rightarrow> Manager \<Rightarrow> 'f transfer_request \<Rightarrow> transfer_error option io" where
  "ImportFile J m req = with_root m req ''dest root is nil'' (\<lambda>m rt. importFile J m rt req)"

definition ImportDirectory :: "marker_json \<Rightarrow> Manager \<Rightarrow> 'f transfer_request \<Rightarrow> transfer_error option io" where
  "ImportDirectory J m req = with_root m req ''dest root is nil'' (\<lambda>m rt. importDirectory J m rt req)"

definition ExportFile :: "marker_json \<Rightarrow> Manager \<Rightarrow> 'f transfer_request \<Rightarrow> transfer_error option io" where
  "ExportFile J m req = with_root m req ''source root is nil'' (\<lambda>m rt. exportFile J m rt req)"

definition ExportDirectory :: "marker_json \<Rightarrow> Manager \<Rightarrow> 'f transfer_request \<Rightarrow> transfer_error option io" where
  "ExportDirectory J m req = with_root m req ''source root is nil'' (\<lambda>m rt. exportDirectory J m rt req)"

definition ListUnfinishedOperations :: "marker_json \<Rightarrow> string \<Rightarrow> (transfer_error + OperationMarker list) io" where
  "ListUnfinishedOperations J rootPath =
    State_Monad.bind ctx_Err (\<lambda>e. case e of Some x \<Rightarrow> io_return (Inl x) | None \<Rightarrow> listMarkers J rootPath)"

end
