(* ===== verification/TransferRules.thy ===== *)
theory TransferRules
  imports TransferOps Verify TransferLogic
begin

text \<open>
  The rules of the calculus of TransferLogic for the calls of a transfer on a root and for its reads.
\<close>

lemma wp_attempt_or [wp_rules]:
  assumes "wp fl I m (\<lambda>e d. case e of Some x \<Rightarrow> wp fl I undo (\<lambda>_. Q (Some x)) d | None \<Rightarrow> wp fl I k Q d) d"
  shows "wp fl I (attempt_or m undo k) Q d"
  unfolding attempt_or_def
  by (rule wp_bind, rule wp_mono [OF assms]) (auto intro: wp_bind wp_mono wp_return split: option.splits)

lemma wp_ctx_Err: "I d \<Longrightarrow> (\<And>e. (fl \<Longrightarrow> e = None) \<Longrightarrow> Q e d) \<Longrightarrow> wp fl I ctx_Err Q d"
  unfolding ctx_Err_def by (rule wp_check, rule wp_Handle) (auto intro: wp_return split: option.splits)

lemma wp_root_ask:
  assumes "\<And>r. f d = r \<Longrightarrow> Q (map_sum (TRoot op) id r) d" "\<not> fl \<Longrightarrow> Q (Inl (TCall op Faulted)) d"
  shows "wp fl I (root_ask op f) Q d"
proof (rule wpI)
  fix s :: io_state assume s: "dsk s = d" "fl \<Longrightarrow> faults s = []"
  show "\<exists>a s' ds. run_state (root_ask op f) s = (a, s') \<and> Q a (dsk s') \<and> (fl \<longrightarrow> faults s' = []) \<and>
      seen s' = ds @ seen s \<and> (\<forall>d \<in> set ds. I d)"
    using assms s by (cases fl) (auto simp: root_ask_def split: list.splits option.splits)
qed

lemma wp_look: "Q (f d) d \<Longrightarrow> wp fl I (State (\<lambda>s. (f (dsk s), s))) Q d"
  by (auto simp: wp_def)

lemma wp_root_act:
  assumes "\<And>d' e. f d = (d', e) \<Longrightarrow> I d' \<and> Q (map_option (TRoot op) e) d'"
    and "\<And>n. \<not> fl \<Longrightarrow> I (part n d) \<and> Q (Some (TCall op Faulted)) (part n d)"
  shows "wp fl I (root_act op part f) Q d"
proof (rule wpI)
  fix s :: io_state assume s: "dsk s = d" "fl \<Longrightarrow> faults s = []"
  obtain d' e where f: "f d = (d', e)" by fastforce
  note ok = assms(1) [OF f]
  show "\<exists>a s' ds. run_state (root_act op part f) s = (a, s') \<and> Q a (dsk s') \<and> (fl \<longrightarrow> faults s' = []) \<and>
      seen s' = ds @ seen s \<and> (\<forall>d \<in> set ds. I d)"
  proof (cases "\<exists>n fs. faults s = Some n # fs")
    case True
    then obtain n fs where fs: "faults s = Some n # fs" by blast
    with s have "\<not> fl" by auto
    from assms(2) [OF this, of n] show ?thesis
      using fs s(1) \<open>\<not> fl\<close> by (auto simp: root_act_def Let_def intro!: exI [of _ "[part n d]"])
  next
    case False
    then have "run_state (root_act op part f) s = (map_option (TRoot op) e, s\<lparr>dsk := d', seen := d' # seen s, faults := tl (faults s)\<rparr>)"
      using f s(1) by (auto simp: root_act_def split: list.splits option.splits)
    with ok s show ?thesis by (auto intro!: exI [of _ "[d']"])
  qed
qed

text \<open>Opening a file of a root for reading leaves the disk alone.\<close>

definition reads_only :: "'f TransferRoot \<Rightarrow> bool" where
  "reads_only rt \<longleftrightarrow> (\<forall>d v. fst (i_OpenFile rt d v read_mode) = d)"

lemma wp_root_open_read:
  assumes "reads_only rt" "I d" "\<And>r. i_OpenFile rt d v read_mode = (d, r) \<Longrightarrow> Q (map_sum (TRoot ''open'') id r) d"
    and "\<not> fl \<Longrightarrow> Q (Inl (TCall ''open'' Faulted)) d"
  shows "wp fl I (root_open rt v read_mode) Q d"
proof (rule wpI)
  fix s :: io_state assume s: "dsk s = d" "fl \<Longrightarrow> faults s = []"
  obtain r where r: "i_OpenFile rt d v read_mode = (d, r)"
    using assms(1) unfolding reads_only_def by (metis prod.collapse)
  note ok = assms(3) [OF r]
  show "\<exists>a s' ds. run_state (root_open rt v read_mode) s = (a, s') \<and> Q a (dsk s') \<and> (fl \<longrightarrow> faults s' = []) \<and>
      seen s' = ds @ seen s \<and> (\<forall>d \<in> set ds. I d)"
  proof (cases "\<exists>n fs. faults s = Some n # fs")
    case True
    with s assms(4) show ?thesis by (cases fl) (auto simp: root_open_def)
  next
    case False
    then have "run_state (root_open rt v read_mode) s =
        (map_sum (TRoot ''open'') id r, s\<lparr>dsk := d, seen := d # seen s, faults := tl (faults s)\<rparr>)"
      using r s(1) by (auto simp: root_open_def split: list.splits option.splits)
    with ok assms(2) s show ?thesis by (auto intro!: exI [of _ "[d]"])
  qed
qed

subsection \<open>Programs that only read\<close>

definition reads :: "bool \<Rightarrow> 'a io \<Rightarrow> disk \<Rightarrow> ('a \<Rightarrow> bool) \<Rightarrow> bool" where
  "reads fl m d P \<longleftrightarrow> wp fl (\<lambda>d'. d' = d) m (\<lambda>a d'. d' = d \<and> P a) d"

lemma reads_mono: "reads fl m d P \<Longrightarrow> (\<And>a. P a \<Longrightarrow> P' a) \<Longrightarrow> reads fl m d P'"
  unfolding reads_def by (erule wp_mono) blast

lemma reads_return: "P a \<Longrightarrow> reads fl (io_return a) d P"
  unfolding reads_def by (rule wp_return) simp

lemma reads_bind: "reads fl m d (\<lambda>a. reads fl (k a) d P) \<Longrightarrow> reads fl (State_Monad.bind m k) d P"
  unfolding reads_def by (rule wp_bind, erule wp_mono) auto

lemma reads_then: "reads fl m d R \<Longrightarrow> (\<And>a. R a \<Longrightarrow> reads fl (k a) d P) \<Longrightarrow> reads fl (State_Monad.bind m k) d P"
  by (rule reads_bind, erule reads_mono) blast

lemma reads_attempt:
  "reads fl m d R \<Longrightarrow> (\<And>x. R (Some x) \<Longrightarrow> P (Some x)) \<Longrightarrow> (R None \<Longrightarrow> reads fl k d P) \<Longrightarrow> reads fl (attempt m k) d P"
  unfolding attempt_def by (rule reads_then [of fl m d R]) (auto intro: reads_return split: option.splits)

lemma reads_ctx: "reads fl ctx_Err d (\<lambda>e. fl \<longrightarrow> e = None)"
  unfolding reads_def by (rule wp_ctx_Err) auto

lemma reads_look: "reads fl (State (\<lambda>s. (f (dsk s), s))) d (\<lambda>a. a = f d)"
  unfolding reads_def by (rule wp_look) simp

lemma reads_query: "reads fl (os_query f) d (\<lambda>a. a = map_sum OsError id (f d) \<or> \<not> fl \<and> a = Inl Faulted)"
  unfolding reads_def by (rule wp_os_query) auto

lemma reads_ask: "reads fl (root_ask op f) d (\<lambda>a. a = map_sum (TRoot op) id (f d) \<or> \<not> fl \<and> a = Inl (TCall op Faulted))"
  unfolding reads_def by (rule wp_root_ask) auto

lemma reads_open:
  "reads_only rt \<Longrightarrow> reads fl (root_open rt v read_mode) d
    (\<lambda>a. a = map_sum (TRoot ''open'') id (snd (i_OpenFile rt d v read_mode)) \<or> \<not> fl \<and> a = Inl (TCall ''open'' Faulted))"
  unfolding reads_def by (rule wp_root_open_read) auto

lemma reads_run:
  fixes s :: io_state
  assumes "reads fl m (dsk s) P" "run_state m s = (a, s')" "fl \<Longrightarrow> faults s = []"
  shows "dsk s' = dsk s \<and> P a"
  using assms unfolding reads_def wp_def by fastforce

end
