(* ===== verification/Spec2Isabelle.thy ===== *)
theory Spec2Isabelle
  imports AesCtr AesXts ChaCha20 Rc4Data SecPath SecRootProps SecFile Config Registry PasswordChange RootLifecycle
  PlainRootProps CopyFile ConvertCrash WebDavProps VerifyProps TransferRules
begin

text \<open>
  A verification of safe_disk, an encrypted file system in Go (src/native).

  \<^bold>\<open>The program.\<close> A secure root is a directory whose files hold encrypted data under encrypted
  names. A caller gives \<^emph>\<open>view paths\<close>; the root turns them into \<^emph>\<open>store paths\<close> with a name cryptor,
  checks that the full path stays below the root directory, and opens the backing file. A
  data cryptor context then sits between the file handle and the backing file: it encrypts
  and decrypts at any position and fills gaps with encrypted zeros. Algorithms are found by
  name in registries, and a root keeps its parameters in a JSON configuration file.

  \<^bold>\<open>The theories,\<close> in the order of their imports, with the code under src/native they model.

  \<^item> Prelude: bytes, integer division as Go has it, \<open>overwrite\<close> and the other list lemmas.
  \<^item> StoreFile: the operating-system file behind a context (content, offset, free room, open
    state, positioned access), with \<^verbatim>\<open>fileContext\<close> of sec_fs/file.go.
  \<^item> ChunkProcessor: sec_fs/crypto_data/crypt_utils/chunk_processor.go.
  \<^item> KeyStream: the contract of a cipher that XORs a position-fixed key stream (a locale), and
    what the chunk loops do under it.
  \<^item> CryptorContext: the methods that the four contexts of sec_fs/crypto_data/algorithm_impl
    share, over their encryption function, and the plain file that specifies them.
  \<^item> ContextRefinement, ContextRuns: every method does on the encrypted backing file what the
    plain file does; sequences of operations by induction.
  \<^item> GoCrypto, GoEncoding: AES-256, CTR, RC4, SHA-256, GCM and base64 of the standard library.
  \<^item> AesCtr, AesXts, ChaCha20, Rc4Data: the four contexts, as interpretations of the contract.
    golang.org/x/crypto/chacha20 is a parameter with its documented laws (a locale), which the
    cipher of RFC 8439 satisfies.
  \<^item> PathUtils, PathProps: sec_fs/sec_utils (the path parser, cleaning, joining, containment).
  \<^item> NameCryptor: sec_fs/crypto_name/algorithm_impl (none, RC4, AES-256-GCM) as three
    interpretations of one contract: names come back and are stored as plain components.
  \<^item> SecPath: sec_fs/sec_path.go and the path checks of sec_fs/sec_root.go.
  \<^item> SecRoot, SecRootProps: the operations of \<^verbatim>\<open>secRootImpl\<close>, create_entry.go and
    directory_delete.go on a disk, which is a finite tree of directories, files and links.
  \<^item> SecFile: the file handle \<^verbatim>\<open>secFileImpl\<close> of sec_fs/file.go.
  \<^item> DirWalker, DirWalkerProps, DirWalkerRuns: sec_fs/sec_dir_walker.go with the options and entries of
    define.go, and WalkDir and ReadDir of the root.
  \<^item> Config, SharedConfig: src/native/config, as six interpretations of the contract of a typed store, and the
    contract \<open>shared_config\<close> that the clients of a configuration rely on, with three interpretations.
  \<^item> Registry: sec_fs/internal/utils and the registries of crypto_data, crypto_name, crypto_hkdf.
  \<^item> KeyDeriver, KeyDeriverProps: the four derivers of sec_fs/crypto_hkdf/algorithm_impl over any store; the
    derivation functions themselves (golang.org/x/crypto) are parameters.
  \<^item> PasswordRecord, PasswordProps, PasswordChange: password_verifier.go, password_hint.go and
    password_changeable.go of sec_fs.
  \<^item> Factories: the factories of the data and name cryptors and their registration (crypto_all/init.go).
  \<^item> RootFactory, RootFactoryProps, RootLifecycle: sec_fs/sec_root_factory.go (creating, opening, finding
    and moving roots).
  \<^item> PlainRoot, PlainRootProps: sec_fs/plainfs.go, a directory without encryption behind the same interface.
  \<^item> CopyEntry, CopyProps, CopyFile: sec_fs/copy.go over the operations of the interface of a root.
  \<^item> GoGlob: \<^verbatim>\<open>filepath.Glob\<close> of the standard library.
  \<^item> TransferDisk, Marker, Convert: sec_fs/sec_transfer/v3 (durability.go, marker.go, convert.go) as programs of
    the state monad over the disk. A call can fail after a part of its work, and the state keeps every disk
    there was, so a crash is one of them.
  \<^item> TransferLogic, MarkerProps: a weakest precondition for these programs with an invariant of every
    disk on the way, and its rules for the calls and the markers.
  \<^item> ConvertStages, ConvertRuns, ConvertSafety: the stages a conversion goes through (original at its place;
    original in the backup; work tree at the place of the root) and that a conversion never leaves them.
  \<^item> ConvertRecovery, ConvertProps, ConvertCrash: the recovery from any stage, conversions followed by
    recoveries that are all interrupted, and the theorems on them with a concrete conversion.

  \<^bold>\<open>What is shown.\<close> For each data cryptor: any session of operations answers as a plain file
  and what it leaves on the backing file is found by the next context (the refinement
  theorems). AES-XTS allows sequential reads in the session; the other three do not reset the
  offset of the backing file before \<^verbatim>\<open>Read\<close>, and \<open>aes_ctr_Read_after_growing_Truncate\<close> shows
  that the restriction is needed. Positions are not negative and data ends below 2^63
  (\<open>int64_limit\<close>), for ChaCha20 below 2^38 (\<open>chacha20_limit\<close>), where its 32-bit block counter
  wraps. For paths: no accepted path leaves the root, whatever the name cryptor returns, and
  no operation of a root changes a node outside its directory. For names and view paths:
  encryption and decryption are inverse. For handles and roots: the closed state. For stores
  and registries: what was set is found, also after reopening. For keys: a key made by a deriver is
  derived again from the stored parameters; a root opens only with a key that reproduces the
  stored tag; a change of the password or the hint is atomic and keeps the content key; a root
  that was created opens with its password. For the walker: a recursive walk over the nodes that
  the name cryptor has stored ends and gives each once (the measure is the number of nodes still
  to come), and the batches cut the same sequence. For a plain root: it takes every operation as a secure
  root without name encryption does. For copies: the destination has all of the source or is as it was. For
  conversions: whatever call fails and wherever the conversion and its recoveries stop, the original tree is
  on the disk, and a recovery that runs to its end settles. Their hypotheses: \<open>json_reads\<close> (a marker that
  was written is read back), \<open>works_ok\<close> (filling and comparing the work tree changes nothing but
  the work tree and markers of imports and exports), \<open>conv_ok\<close> and \<open>fresh\<close> (an absolute clean path of UTF-8
  without a pattern character, no other operation left over). Theorems on single inputs or
  branches record where the code does less than its documentation says.

  \<^bold>\<open>Conventions.\<close> Errors are values of sum or option types. A Go run-time panic is the error
  \<open>RuntimePanic\<close>. Loops are recursive functions with a termination proof, or partial functions into
  option where the loop need not end (the walker); no fuel is used. A
  nil pointer is \<open>None\<close>. The methods of roots, handles and registries hold their lock for the
  whole body, so each is one step.

  \<^bold>\<open>Not modelled.\<close> Permission bits and times of files; messages of errors; the buffer pool, which
  carries no state; the operating-system lock of a root and of an operation; symbolic-link guards;
  CloneRoot. The import, export and comparison of trees are arguments of the conversion. The random access
  adapter is not registered by any factory. The WebDAV server is glue over golang.org/x/net/webdav, the
  foreign function interface over C pointers, the command line and the build script over the library.
\<close>

end
